(* ===== verification/Prelude.thy ===== *)
theory Prelude
  imports Complex_Main "HOL-Library.AList"
begin

text \<open>
  Shared ground of the development: the result type of code that may raise, dictionaries with
  Python's insertion order, and the lemma collections the component theories extend.

  A Python function that may raise is a HOL function into \<open>py_exn + 'a\<close>: \<open>Inl\<close> is the raised
  exception, \<open>Inr\<close> the returned value. \<open>bindE\<close> is statement sequencing and \<open>catchE\<close> is
  \<^verbatim>\<open>try: ... except (E1, ..., En): ...\<close>.

  A dictionary is an association list whose keys are distinct, in insertion order:
  \<open>map_of\<close> reads it, \<open>AList.update\<close> is \<^verbatim>\<open>d[k] = v\<close> (an existing key keeps its place, a new one
  goes to the end), \<open>AList.delete\<close> is \<^verbatim>\<open>d.pop(k, None)\<close> and \<open>dict_merge\<close> is \<^verbatim>\<open>d.update(e)\<close>.
\<close>

named_theorems py_eval "defining equations used to evaluate a model on concrete input"
named_theorems dict_simps "reading a dictionary after it was updated"
named_theorems frame_simps "what an operation leaves unchanged"
named_theorems wp_intros "rules that compute \<open>ensures\<close> along a program"
named_theorems bounds_intros "ranges of computed values"

section \<open>Code that may raise\<close>

datatype py_exn =
    TypeError | ValueError | OverflowError | KeyError | AttributeError | RuntimeError
  | AssertionError | ZeroDivisionError | OtherError string

type_synonym 'a py = "py_exn + 'a"

fun bindE :: "'e + 'a \<Rightarrow> ('a \<Rightarrow> 'e + 'b) \<Rightarrow> 'e + 'b" where
  "bindE (Inl e) f = Inl e"
| "bindE (Inr x) f = f x"

fun catchE :: "py_exn list \<Rightarrow> 'a py \<Rightarrow> 'a \<Rightarrow> 'a py" where
  "catchE es (Inl e) d = (if e \<in> set es then Inr d else Inl e)"
| "catchE es (Inr x) d = Inr x"

lemma bindE_assoc: "bindE (bindE m f) g = bindE m (\<lambda>x. bindE (f x) g)"
  by (cases m) auto

lemma bindE_Inr_iff: "bindE m f = Inr y \<longleftrightarrow> (\<exists>x. m = Inr x \<and> f x = Inr y)"
  by (cases m) auto

lemma bindE_InrE [elim!]:
  assumes "bindE m f = Inr y"
  obtains x where "m = Inr x" "f x = Inr y"
  using assms by (auto simp: bindE_Inr_iff)

lemma catchE_Inr_iff:
  "catchE es m d = Inr y \<longleftrightarrow> (m = Inr y \<or> (\<exists>e \<in> set es. m = Inl e \<and> y = d))"
  by (cases m) auto

text \<open>\<open>ensures m Q\<close>: if \<open>m\<close> returns, the result satisfies \<open>Q\<close>. The rules compute it along the program.\<close>

definition ensures :: "'e + 'a \<Rightarrow> ('a \<Rightarrow> bool) \<Rightarrow> bool" where
  "ensures m Q \<longleftrightarrow> (\<forall>x. m = Inr x \<longrightarrow> Q x)"

lemma ensures_simps [simp]:
  "ensures (Inl e) Q"
  "ensures (Inr x) Q = Q x"
  "ensures (bindE m f) Q = ensures m (\<lambda>x. ensures (f x) Q)"
  by (cases m; simp add: ensures_def)+

lemma ensures_ifI [wp_intros]:
  "(b \<Longrightarrow> ensures m Q) \<Longrightarrow> (\<not> b \<Longrightarrow> ensures m' Q) \<Longrightarrow> ensures (if b then m else m') Q"
  by simp

lemma ensures_optionI [wp_intros]:
  "(x = None \<Longrightarrow> ensures m Q) \<Longrightarrow> (\<And>y. x = Some y \<Longrightarrow> ensures (f y) Q)
     \<Longrightarrow> ensures (case x of None \<Rightarrow> m | Some y \<Rightarrow> f y) Q"
  by (cases x) auto

lemma ensures_triv [simp]: "ensures m (\<lambda>x. True)"
  by (simp add: ensures_def)

lemma ensures_bind: "ensures m P \<Longrightarrow> (\<And>x. P x \<Longrightarrow> ensures (f x) Q) \<Longrightarrow> ensures (bindE m f) Q"
  by (cases m) auto

lemma ensures_bind_any: "(\<And>x. ensures (f x) Q) \<Longrightarrow> ensures (bindE m f) Q"
  by (cases m) auto

lemma ensuresD: "ensures m Q \<Longrightarrow> m = Inr x \<Longrightarrow> Q x"
  by (simp add: ensures_def)

lemma ensures_mono: "ensures m P \<Longrightarrow> (\<And>x. P x \<Longrightarrow> Q x) \<Longrightarrow> ensures m Q"
  by (simp add: ensures_def)

text \<open>\<open>returns m\<close>: the program \<open>m\<close> raises nothing.\<close>

definition returns :: "'e + 'a \<Rightarrow> bool" where
  "returns m \<longleftrightarrow> (\<exists>x. m = Inr x)"

lemma returns_simps [simp]:
  "\<not> returns (Inl e)"
  "returns (Inr x)"
  "returns (bindE m f) \<longleftrightarrow> returns m \<and> ensures m (\<lambda>x. returns (f x))"
  by (cases m; simp add: ensures_def returns_def)+

lemma returns_ifI [wp_intros]:
  "(b \<Longrightarrow> returns m) \<Longrightarrow> (\<not> b \<Longrightarrow> returns m') \<Longrightarrow> returns (if b then m else m')"
  by simp

lemma returns_optionI [wp_intros]:
  "(x = None \<Longrightarrow> returns m) \<Longrightarrow> (\<And>y. x = Some y \<Longrightarrow> returns (f y))
     \<Longrightarrow> returns (case x of None \<Rightarrow> m | Some y \<Rightarrow> f y)"
  by (cases x) auto

lemma returnsE: "returns m \<Longrightarrow> (\<And>x. m = Inr x \<Longrightarrow> thesis) \<Longrightarrow> thesis"
  by (auto simp: returns_def)

section \<open>Dictionaries\<close>

type_synonym ('k, 'v) pydict = "('k \<times> 'v) list"

fun dict_merge :: "('k, 'v) pydict \<Rightarrow> ('k, 'v) pydict \<Rightarrow> ('k, 'v) pydict" where
  "dict_merge d [] = d"
| "dict_merge d ((k, v) # e) = dict_merge (AList.update k v d) e"

definition dict_setdefault :: "'k \<Rightarrow> 'v \<Rightarrow> ('k, 'v) pydict \<Rightarrow> ('k, 'v) pydict" where
  "dict_setdefault k v d = (case map_of d k of None \<Rightarrow> AList.update k v d | Some _ \<Rightarrow> d)"

definition dict_keys :: "('k, 'v) pydict \<Rightarrow> 'k set" where
  "dict_keys d = fst ` set d"

lemma set_update_subset: "set (AList.update k v d) \<subseteq> insert (k, v) (set d)"
  by (induction d) auto

lemma map_of_update_same [simp]: "map_of (AList.update k v d) k = Some v"
  by (simp add: update_conv')

lemma map_of_update_other [simp]: "k' \<noteq> k \<Longrightarrow> map_of (AList.update k v d) k' = map_of d k'"
  by (simp add: update_conv')

lemma map_of_delete_same [simp]: "map_of (AList.delete k d) k = None"
  by (simp add: delete_conv')

lemma map_of_delete_other [simp]: "k' \<noteq> k \<Longrightarrow> map_of (AList.delete k d) k' = map_of d k'"
  by (simp add: delete_conv')

lemma map_of_updateI [dict_simps]:
  "map_of (AList.update k v d) k' = (if k' = k then Some v else map_of d k')"
  by simp

lemma map_of_deleteI [dict_simps]:
  "map_of (AList.delete k d) k' = (if k' = k then None else map_of d k')"
  by simp

lemma dict_distinct_update [intro]:
  "distinct (map fst d) \<Longrightarrow> distinct (map fst (AList.update k v d))"
  by (rule distinct_update)

lemma dict_distinct_delete [intro]:
  "distinct (map fst d) \<Longrightarrow> distinct (map fst (AList.delete k d))"
  by (rule distinct_delete)

lemma distinct_dict_merge [intro]:
  "distinct (map fst d) \<Longrightarrow> distinct (map fst (dict_merge d e))"
  by (induction d e rule: dict_merge.induct) auto

lemma map_of_dict_merge:
  assumes "distinct (map fst e)"
  shows "map_of (dict_merge d e) k
    = (case map_of e k of None \<Rightarrow> map_of d k | Some v \<Rightarrow> Some v)"
  using assms
proof (induction d e rule: dict_merge.induct)
  case (1 d)
  show ?case by simp
next
  case (2 d k' v e)
  then have "map_of e k' = None" by (simp add: map_of_eq_None_iff)
  with 2 show ?case by (auto simp: dict_simps split: option.splits)
qed

lemma map_of_dict_merge_notin [simp]:
  "k \<notin> fst ` set e \<Longrightarrow> map_of (dict_merge d e) k = map_of d k"
  by (induction d e rule: dict_merge.induct) auto

lemma map_of_setdefault [dict_simps]:
  "map_of (dict_setdefault k v d) k'
    = (if k' = k then Some (case map_of d k of None \<Rightarrow> v | Some w \<Rightarrow> w) else map_of d k')"
  by (auto simp: dict_setdefault_def dict_simps split: option.splits)

lemma distinct_setdefault [intro]:
  "distinct (map fst d) \<Longrightarrow> distinct (map fst (dict_setdefault k v d))"
  by (auto simp: dict_setdefault_def split: option.splits)

section \<open>Folding a step that may raise over a list\<close>

fun foldE :: "('a \<Rightarrow> 's \<Rightarrow> 'e + 's) \<Rightarrow> 'a list \<Rightarrow> 's \<Rightarrow> 'e + 's" where
  "foldE f [] s = Inr s"
| "foldE f (x # xs) s = bindE (f x s) (foldE f xs)"

lemma foldE_invariant:
  assumes "foldE f xs s = Inr t" "P s"
    and "\<And>x s t. x \<in> set xs \<Longrightarrow> P s \<Longrightarrow> f x s = Inr t \<Longrightarrow> P t"
  shows "P t"
  using assms
proof (induction xs arbitrary: s)
  case Nil
  then show ?case by simp
next
  case (Cons x xs)
  from Cons.prems(1) obtain u where u: "f x s = Inr u" "foldE f xs u = Inr t"
    by auto
  have "P u" using Cons.prems(2,3) u(1) by auto
  with u(2) Cons.prems(3) show ?case by (intro Cons.IH [of u]) auto
qed

section \<open>Clamping\<close>

definition clamp :: "int \<Rightarrow> int \<Rightarrow> int \<Rightarrow> int" where
  "clamp lo hi x = max lo (min hi x)"

lemma clamp_bounds [bounds_intros]: "lo \<le> hi \<Longrightarrow> lo \<le> clamp lo hi x \<and> clamp lo hi x \<le> hi"
  by (auto simp: clamp_def)

lemma clamp_id [simp]: "lo \<le> x \<Longrightarrow> x \<le> hi \<Longrightarrow> clamp lo hi x = x"
  by (auto simp: clamp_def)

lemma clamp_lower [intro]: "lo \<le> hi \<Longrightarrow> lo \<le> clamp lo hi x"
  by (auto simp: clamp_def)

lemma clamp_upper [intro]: "lo \<le> hi \<Longrightarrow> clamp lo hi x \<le> hi"
  by (auto simp: clamp_def)

end
