(* ===== verification/Py_Value.thy ===== *)
theory Py_Value
  imports Prelude
begin

text \<open>
  The Python values the program passes around: decoded JSON and the fields of device records and
  device states, all of static type \<^verbatim>\<open>Any\<close> in the source. The operations are those the source
  applies to such values, on every type they can meet, with the exception they raise.

  Strings are the UTF-8 bytes of the Python string. The whitespace, digits and letters that
  \<open>py_strip\<close>, \<open>py_lower\<close>, \<open>py_int\<close> and \<open>py_float\<close> recognise are the ASCII ones.
  A float is \<open>Fin r\<close> with the rational value of the double; \<open>to_double\<close> rounds a rational to the
  nearest double (ties to even), overflowing to an infinity. The sign of zero is not kept: no
  operation of the source observes it.
\<close>

section \<open>Floats\<close>

datatype pyfloat = Fin rat | PosInf | NegInf | NaN

text \<open>Python's \<^verbatim>\<open>round\<close>: to the nearest integer, ties to the even one.\<close>

definition round_half_even :: "rat \<Rightarrow> int" where
  "round_half_even r =
     (let f = \<lfloor>r\<rfloor>; d = r - of_int f
      in if d < 1 / 2 then f else if d > 1 / 2 then f + 1 else if even f then f else f + 1)"

function bit_length :: "int \<Rightarrow> int" where
  "bit_length n = (if n \<le> 0 then 0 else 1 + bit_length (n div 2))"
  by pat_completeness auto
termination
  by (relation "measure nat") auto

declare bit_length.simps [simp del]

text \<open>\<open>rat_pow b n\<close> is \<open>b powi n\<close>, by repeated squaring so that it evaluates.\<close>

function square_pow :: "rat \<Rightarrow> int \<Rightarrow> rat" where
  "square_pow b n =
     (if n \<le> 0 then 1
      else let h = square_pow (b * b) (n div 2) in if even n then h else b * h)"
  by pat_completeness auto
termination
  by (relation "measure (\<lambda>(b, n). nat n)") auto

declare square_pow.simps [simp del]

definition rat_pow :: "rat \<Rightarrow> int \<Rightarrow> rat" where
  "rat_pow b n = (if n < 0 then 1 / square_pow b (- n) else square_pow b n)"

lemma square_pow_eq: "square_pow b n = b ^ nat n"
proof (induction b n rule: square_pow.induct)
  case (1 b n)
  show ?case
  proof (cases "n \<le> 0")
    case True
    then show ?thesis by (simp add: square_pow.simps [of b n])
  next
    case False
    then obtain m where m: "n = int m" "0 < m" by (metis nonneg_int_cases not_le_imp_less pos_int_cases)
    have IH: "square_pow (b * b) (n div 2) = (b * b) ^ nat (n div 2)"
      using 1 False by simp
    have div: "nat (n div 2) = m div 2"
      unfolding m(1) by (simp add: nat_div_distrib)
    have "square_pow b n = (if even n then (b * b) ^ (m div 2) else b * (b * b) ^ (m div 2))"
      using False IH div by (simp add: square_pow.simps [of b n] Let_def)
    also have "\<dots> = b ^ m"
      unfolding m(1) by (cases "even m")
        (auto simp: power2_eq_square [symmetric] power_mult [symmetric] elim!: evenE oddE)
    finally show ?thesis using m(1) by simp
  qed
qed

lemma rat_pow_eq: "rat_pow b n = b powi n"
  by (auto simp: rat_pow_def square_pow_eq power_int_def field_simps)

text \<open>The exponent \<open>e\<close> with \<open>2 powi e \<le> r < 2 powi (e + 1)\<close>, for \<open>r > 0\<close>.\<close>

definition rat_exponent :: "rat \<Rightarrow> int" where
  "rat_exponent r =
     (let (a, b) = quotient_of r; e = bit_length a - bit_length b
      in if r < rat_pow 2 e then e - 1 else e)"

definition DOUBLE_TOP :: rat where "DOUBLE_TOP = rat_pow 2 1024"

definition to_double :: "rat \<Rightarrow> pyfloat" where
  "to_double r =
     (if r = 0 then Fin 0
      else let q = max (rat_exponent \<bar>r\<bar> - 52) (- 1074);
               m = of_int (round_half_even (r / rat_pow 2 q)) * rat_pow 2 q
           in if m \<ge> DOUBLE_TOP then PosInf else if m \<le> - DOUBLE_TOP then NegInf else Fin m)"

text \<open>\<^verbatim>\<open>float(n)\<close> for an int: exact up to \<open>2 ^ 53\<close>, rounded above, an error beyond the range.\<close>

definition float_of_int :: "int \<Rightarrow> pyfloat py" where
  "float_of_int n =
     (if \<bar>n\<bar> \<le> 2 ^ 53 then Inr (Fin (of_int n))
      else case to_double (of_int n) of
        Fin r \<Rightarrow> Inr (Fin r) | _ \<Rightarrow> Inl OverflowError)"

lemma float_of_int_small [simp]: "\<bar>n\<bar> \<le> 2 ^ 53 \<Longrightarrow> float_of_int n = Inr (Fin (of_int n))"
  by (simp add: float_of_int_def)

fun float_lt :: "pyfloat \<Rightarrow> pyfloat \<Rightarrow> bool" where
  "float_lt NaN y = False"
| "float_lt x NaN = False"
| "float_lt (Fin a) (Fin b) = (a < b)"
| "float_lt NegInf y = (y \<noteq> NegInf)"
| "float_lt x NegInf = False"
| "float_lt x PosInf = (x \<noteq> PosInf)"
| "float_lt PosInf y = False"

fun float_eq :: "pyfloat \<Rightarrow> pyfloat \<Rightarrow> bool" where
  "float_eq NaN y = False"
| "float_eq x NaN = False"
| "float_eq x y = (x = y)"

definition float_le :: "pyfloat \<Rightarrow> pyfloat \<Rightarrow> bool" where
  "float_le x y \<longleftrightarrow> float_lt x y \<or> float_eq x y"

definition rat_trunc :: "rat \<Rightarrow> int" where
  "rat_trunc r = (if r < 0 then \<lceil>r\<rceil> else \<lfloor>r\<rfloor>)"

lemma rat_trunc_of_int [simp]: "rat_trunc (of_int n) = n"
  by (simp add: rat_trunc_def)

lemma rat_trunc_numeral [simp]: "rat_trunc (numeral n) = numeral n"
  "rat_trunc 0 = 0" "rat_trunc 1 = 1"
  by (simp_all add: rat_trunc_def)

lemma rat_trunc_bounds [bounds_intros]: "0 \<le> r \<Longrightarrow> r \<le> of_int n \<Longrightarrow> 0 \<le> rat_trunc r \<and> rat_trunc r \<le> n"
  by (auto simp: rat_trunc_def floor_le_iff)

section \<open>Values\<close>

datatype pyval =
    VNone | VBool bool | VInt int | VFloat pyfloat | VStr string
  | VList "pyval list" | VDict "(string \<times> pyval) list"

type_synonym dict = "(string, pyval) pydict"

fun is_dict :: "pyval \<Rightarrow> bool" where
  "is_dict (VDict d) = True"
| "is_dict _ = False"

fun is_str :: "pyval \<Rightarrow> bool" where
  "is_str (VStr s) = True"
| "is_str _ = False"

fun is_bool :: "pyval \<Rightarrow> bool" where
  "is_bool (VBool b) = True"
| "is_bool _ = False"

text \<open>\<^verbatim>\<open>isinstance(v, int)\<close>: a bool is an int.\<close>

fun is_int :: "pyval \<Rightarrow> bool" where
  "is_int (VInt n) = True"
| "is_int (VBool b) = True"
| "is_int _ = False"

fun is_number :: "pyval \<Rightarrow> bool" where
  "is_number (VFloat f) = True"
| "is_number v = is_int v"

fun truthy :: "pyval \<Rightarrow> bool" where
  "truthy VNone = False"
| "truthy (VBool b) = b"
| "truthy (VInt n) = (n \<noteq> 0)"
| "truthy (VFloat f) = (f \<noteq> Fin 0)"
| "truthy (VStr s) = (s \<noteq> [])"
| "truthy (VList xs) = (xs \<noteq> [])"
| "truthy (VDict d) = (d \<noteq> [])"

text \<open>\<^verbatim>\<open>a or b\<close>\<close>

definition py_or :: "pyval \<Rightarrow> pyval \<Rightarrow> pyval" where
  "py_or a b = (if truthy a then a else b)"

fun of_opt_int :: "int option \<Rightarrow> pyval" where
  "of_opt_int None = VNone"
| "of_opt_int (Some n) = VInt n"

fun of_opt_bool :: "bool option \<Rightarrow> pyval" where
  "of_opt_bool None = VNone"
| "of_opt_bool (Some b) = VBool b"

fun of_opt_str :: "string option \<Rightarrow> pyval" where
  "of_opt_str None = VNone"
| "of_opt_str (Some s) = VStr s"

text \<open>
  \<^verbatim>\<open>a == b\<close>. Numbers compare by value across bool, int and float; dictionaries by content, in
  any order; a NaN equals nothing.
\<close>

fun num_val :: "pyval \<Rightarrow> pyfloat option" where
  "num_val (VBool b) = Some (Fin (if b then 1 else 0))"
| "num_val (VInt n) = Some (Fin (of_int n))"
| "num_val (VFloat f) = Some f"
| "num_val _ = None"

fun py_eq :: "pyval \<Rightarrow> pyval \<Rightarrow> bool" and py_eq_list :: "pyval list \<Rightarrow> pyval list \<Rightarrow> bool" where
  "py_eq VNone w = (w = VNone)"
| "py_eq (VStr s) w = (w = VStr s)"
| "py_eq (VList xs) w = (case w of VList ys \<Rightarrow> py_eq_list xs ys | _ \<Rightarrow> False)"
| "py_eq (VDict d) w =
     (case w of VDict e \<Rightarrow> length d = length e \<and>
        list_all (\<lambda>(k, v). case map_of e k of None \<Rightarrow> False | Some u \<Rightarrow> py_eq v u) d
      | _ \<Rightarrow> False)"
| "py_eq (VBool b) w =
     (case num_val w of None \<Rightarrow> False | Some y \<Rightarrow> float_eq (Fin (if b then 1 else 0)) y)"
| "py_eq (VInt n) w =
     (case num_val w of None \<Rightarrow> False | Some y \<Rightarrow> float_eq (Fin (of_int n)) y)"
| "py_eq (VFloat f) w = (case num_val w of None \<Rightarrow> False | Some y \<Rightarrow> float_eq f y)"
| "py_eq_list [] ys = (ys = [])"
| "py_eq_list (x # xs) ys = (case ys of [] \<Rightarrow> False | y # ys' \<Rightarrow> py_eq x y \<and> py_eq_list xs ys')"

text \<open>A value made of nothing but None, bools, ints and strings equals itself.\<close>

fun scalar :: "pyval \<Rightarrow> bool" where
  "scalar VNone = True"
| "scalar (VBool b) = True"
| "scalar (VInt n) = True"
| "scalar (VStr s) = True"
| "scalar _ = False"

lemma py_eq_refl_scalar [simp]: "scalar v \<Longrightarrow> py_eq v v"
  by (cases v) auto

section \<open>Strings\<close>

definition byte :: "char \<Rightarrow> nat" where
  "byte c = of_char c"

definition is_space :: "char \<Rightarrow> bool" where
  "is_space c \<longleftrightarrow> byte c = 32 \<or> (9 \<le> byte c \<and> byte c \<le> 13) \<or> (28 \<le> byte c \<and> byte c \<le> 31)"

definition py_strip :: "string \<Rightarrow> string" where
  "py_strip s = rev (dropWhile is_space (rev (dropWhile is_space s)))"

definition lower_char :: "char \<Rightarrow> char" where
  "lower_char c = (if 65 \<le> byte c \<and> byte c \<le> 90 then char_of (byte c + 32) else c)"

definition py_lower :: "string \<Rightarrow> string" where
  "py_lower s = map lower_char s"

definition digit_val :: "char \<Rightarrow> int option" where
  "digit_val c = (if 48 \<le> byte c \<and> byte c \<le> 57 then Some (int (byte c) - 48) else None)"

definition starts_with :: "string \<Rightarrow> string \<Rightarrow> bool" where
  "starts_with p s \<longleftrightarrow> take (length p) s = p"

text \<open>
  Digits with single underscores between them, as \<^verbatim>\<open>int\<close> and \<^verbatim>\<open>float\<close> accept: the value and the
  number of digits. The flag says whether the previous character was a digit.
\<close>

fun scan_digits :: "bool \<Rightarrow> int \<Rightarrow> nat \<Rightarrow> string \<Rightarrow> (int \<times> nat) option" where
  "scan_digits prev acc n [] = (if prev then Some (acc, n) else None)"
| "scan_digits prev acc n (c # cs) =
     (if c = CHR ''_'' then (if prev then scan_digits False acc n cs else None)
      else case digit_val c of None \<Rightarrow> None
        | Some d \<Rightarrow> scan_digits True (10 * acc + d) (Suc n) cs)"

fun split_sign :: "string \<Rightarrow> int \<times> string" where
  "split_sign (CHR ''-'' # cs) = (- 1, cs)"
| "split_sign (CHR ''+'' # cs) = (1, cs)"
| "split_sign cs = (1, cs)"

fun split_at :: "(char \<Rightarrow> bool) \<Rightarrow> string \<Rightarrow> string \<times> string option" where
  "split_at p [] = ([], None)"
| "split_at p (c # cs) =
     (if p c then ([], Some cs) else let (a, b) = split_at p cs in (c # a, b))"

definition parse_int :: "string \<Rightarrow> int option" where
  "parse_int s = (let (sg, ds) = split_sign (py_strip s)
     in map_option (\<lambda>(v, n). sg * v) (scan_digits False 0 0 ds))"

text \<open>Mantissa \<^verbatim>\<open>ddd\<close>, \<^verbatim>\<open>ddd.\<close>, \<^verbatim>\<open>.ddd\<close> or \<^verbatim>\<open>ddd.ddd\<close>.\<close>

definition parse_mantissa :: "string \<Rightarrow> rat option" where
  "parse_mantissa s =
     (case split_at (\<lambda>c. c = CHR ''.'') s of
        (ip, None) \<Rightarrow> map_option (\<lambda>(v, n). of_int v) (scan_digits False 0 0 ip)
      | (ip, Some fp) \<Rightarrow>
          (case (if ip = [] then Some (0, 0) else scan_digits False 0 0 ip) of None \<Rightarrow> None
           | Some (v, _) \<Rightarrow>
             (case (if fp = [] \<and> ip \<noteq> [] then Some (0, 0) else scan_digits False 0 0 fp) of
                None \<Rightarrow> None
              | Some (w, n) \<Rightarrow> Some (of_int v + of_int w / rat_pow 10 (int n)))))"

definition parse_float :: "string \<Rightarrow> pyfloat option" where
  "parse_float s =
     (let (sg, t) = split_sign (py_lower (py_strip s))
      in if t = ''inf'' \<or> t = ''infinity'' then Some (if sg < 0 then NegInf else PosInf)
         else if t = ''nan'' then Some NaN
         else case split_at (\<lambda>c. c = CHR ''e'') t of (m, ex) \<Rightarrow>
           (case parse_mantissa m of None \<Rightarrow> None
            | Some v \<Rightarrow>
              (case ex of None \<Rightarrow> Some (to_double (of_int sg * v))
               | Some es \<Rightarrow>
                 (let (esg, ed) = split_sign es
                  in map_option (\<lambda>(w, n). to_double (of_int sg * v * rat_pow 10 (esg * w)))
                       (scan_digits False 0 0 ed)))))"

section \<open>Conversions\<close>

text \<open>\<^verbatim>\<open>int(v)\<close>\<close>

fun py_int :: "pyval \<Rightarrow> int py" where
  "py_int (VInt n) = Inr n"
| "py_int (VBool b) = Inr (if b then 1 else 0)"
| "py_int (VFloat (Fin r)) = Inr (rat_trunc r)"
| "py_int (VFloat NaN) = Inl ValueError"
| "py_int (VFloat _) = Inl OverflowError"
| "py_int (VStr s) = (case parse_int s of None \<Rightarrow> Inl ValueError | Some n \<Rightarrow> Inr n)"
| "py_int _ = Inl TypeError"

text \<open>\<^verbatim>\<open>float(v)\<close>\<close>

fun py_float :: "pyval \<Rightarrow> pyfloat py" where
  "py_float (VInt n) = float_of_int n"
| "py_float (VBool b) = Inr (Fin (if b then 1 else 0))"
| "py_float (VFloat f) = Inr f"
| "py_float (VStr s) = (case parse_float s of None \<Rightarrow> Inl ValueError | Some f \<Rightarrow> Inr f)"
| "py_float _ = Inl TypeError"

text \<open>\<^verbatim>\<open>v.get(k, d)\<close> on any value: only a dictionary has the method.\<close>

definition dget :: "dict \<Rightarrow> string \<Rightarrow> pyval \<Rightarrow> pyval" where
  "dget d k dflt = (case map_of d k of None \<Rightarrow> dflt | Some v \<Rightarrow> v)"

abbreviation get :: "dict \<Rightarrow> string \<Rightarrow> pyval" where
  "get d k \<equiv> dget d k VNone"

definition has_key :: "dict \<Rightarrow> string \<Rightarrow> bool" where
  "has_key d k \<longleftrightarrow> map_of d k \<noteq> None"

fun vget :: "pyval \<Rightarrow> string \<Rightarrow> pyval \<Rightarrow> pyval py" where
  "vget (VDict d) k dflt = Inr (dget d k dflt)"
| "vget _ k dflt = Inl AttributeError"

text \<open>\<^verbatim>\<open>s in v\<close> for a text \<^verbatim>\<open>s\<close>: a substring test on a string, an error on a number or None.\<close>

fun is_substring :: "string \<Rightarrow> string \<Rightarrow> bool" where
  "is_substring p [] = (p = [])"
| "is_substring p (c # cs) = (starts_with p (c # cs) \<or> is_substring p cs)"

fun text_in :: "string \<Rightarrow> pyval \<Rightarrow> bool py" where
  "text_in s (VStr t) = Inr (is_substring s t)"
| "text_in s (VList vs) = Inr (VStr s \<in> set vs)"
| "text_in s (VDict e) = Inr (has_key e s)"
| "text_in s v = Inl TypeError"

text \<open>\<^verbatim>\<open>v > n\<close> for an int literal.\<close>

definition py_gt :: "pyval \<Rightarrow> int \<Rightarrow> bool py" where
  "py_gt v n = (case num_val v of None \<Rightarrow> Inl TypeError
     | Some x \<Rightarrow> Inr (float_lt (Fin (of_int n)) x))"

text \<open>\<^verbatim>\<open>v in (n1, ..., nk)\<close> for int literals.\<close>

definition in_ints :: "pyval \<Rightarrow> int list \<Rightarrow> bool" where
  "in_ints v ns \<longleftrightarrow> list_ex (\<lambda>n. py_eq v (VInt n)) ns"

lemma get_simps [simp]:
  "dget [] k dflt = dflt"
  "dget ((k', v) # d) k dflt = (if k = k' then v else dget d k dflt)"
  by (auto simp: dget_def)

lemma has_key_simps [simp]:
  "has_key [] k = False"
  "has_key ((k', v) # d) k = (k = k' \<or> has_key d k)"
  by (auto simp: has_key_def)

lemma dget_update [dict_simps, simp]:
  "dget (AList.update k v d) k' dflt = (if k' = k then v else dget d k' dflt)"
  by (auto simp: dget_def dict_simps)

lemma has_key_update [dict_simps, simp]:
  "has_key (AList.update k v d) k' = (k' = k \<or> has_key d k')"
  by (auto simp: has_key_def dict_simps)

lemma get_append: "get (d @ e) k = (if has_key d k then get d k else get e k)"
  by (auto simp: dget_def has_key_def map_add_def split: option.splits)

lemma has_key_iff: "has_key d k \<longleftrightarrow> k \<in> fst ` set d"
  by (auto simp: has_key_def map_of_eq_None_iff)

lemma py_int_of_small_float [simp]: "py_int (VFloat (Fin (of_int n))) = Inr n"
  by simp

end
