(* ===== verification/Control_Commands.thy ===== *)
theory Control_Commands
  imports Py_Value
begin

unbundle bit_operations_syntax

text \<open>
  \<^verbatim>\<open>control.py\<close>: the command record of a cmd=15 control, the constructors for each kind of
  device, the readers of reported values, and the assembly of the full payload.
\<close>

section \<open>Colour temperature and clamping\<close>

definition KELVIN_MIN :: int where "KELVIN_MIN = 2700"
definition KELVIN_MAX :: int where "KELVIN_MAX = 6500"

text \<open>\<^verbatim>\<open>round(a / b)\<close> on ints: the quotient is a double. Both callers pass \<open>b > 0\<close>, and the
  quotient of an int by a positive int up to \<open>10 ^ 6\<close> is never an infinity.\<close>

definition round_quotient :: "int \<Rightarrow> int \<Rightarrow> int" where
  "round_quotient a b = (case to_double (of_int a / of_int b) of Fin r \<Rightarrow> round_half_even r | _ \<Rightarrow> 0)"

definition kelvin_to_mired :: "int \<Rightarrow> int" where
  "kelvin_to_mired kelvin = round_quotient 1000000 (max 1 kelvin)"

definition mired_to_kelvin :: "int \<Rightarrow> int option" where
  "mired_to_kelvin mired =
     (if mired \<le> 0 then None
      else let k = round_quotient 1000000 mired
           in if k < KELVIN_MIN then Some KELVIN_MIN
              else if k > KELVIN_MAX then Some KELVIN_MAX
              else Some k)"

definition clamp_brightness :: "int \<Rightarrow> int \<Rightarrow> int" where
  "clamp_brightness value max_val = max 1 (min max_val value)"

section \<open>The command record\<close>

record control_command =
  cmd_order :: pyval
  cmd_value1 :: pyval
  cmd_value2 :: pyval
  cmd_value3 :: pyval
  cmd_value4 :: pyval
  cmd_properties :: pyval

definition mk_command :: "string \<Rightarrow> int \<Rightarrow> int \<Rightarrow> int \<Rightarrow> int \<Rightarrow> control_command" where
  "mk_command ord v1 v2 v3 v4 =
     \<lparr>cmd_order = VStr ord, cmd_value1 = VInt v1, cmd_value2 = VInt v2, cmd_value3 = VInt v3,
      cmd_value4 = VInt v4, cmd_properties = VNone\<rparr>"

definition property_command :: "dict \<Rightarrow> control_command" where
  "property_command props = (mk_command ''set property'' 0 0 0 0)\<lparr>cmd_properties := VDict props\<rparr>"

abbreviation on_off :: "bool \<Rightarrow> string" where
  "on_off b \<equiv> (if b then ''on'' else ''off'')"

abbreviation active_low :: "bool \<Rightarrow> int" where
  "active_low b \<equiv> (if b then 0 else 1)"

section \<open>Command constructors\<close>

definition curtain_position_command :: "int \<Rightarrow> control_command" where
  "curtain_position_command ha_position = mk_command ''open'' (clamp 0 100 ha_position) 0 0 0"

definition curtain_stop_command :: control_command where
  "curtain_stop_command = mk_command ''stop'' 0 0 0 0"

definition curtain_position_from_orvibo :: "int option \<Rightarrow> int option" where
  "curtain_position_from_orvibo v = (case v of None \<Rightarrow> None
     | Some n \<Rightarrow> if 0 \<le> n \<and> n \<le> 100 then Some n else None)"

definition switch_power_command :: "bool \<Rightarrow> control_command" where
  "switch_power_command is_on =
     property_command [(''onoff'', VDict [(''status'', VStr (on_off is_on))])]"

definition dimmable_light_brightness_command :: "int \<Rightarrow> control_command" where
  "dimmable_light_brightness_command percent =
     property_command [(''brightness'', VDict [(''percent'', VInt (clamp 0 100 percent))])]"

definition cct_light_power_command :: "bool \<Rightarrow> control_command" where
  "cct_light_power_command is_on =
     property_command [(''onoff'', VDict [(''status'', VStr (on_off is_on))])]"

definition cct_light_brightness_command :: "int \<Rightarrow> control_command" where
  "cct_light_brightness_command percent =
     property_command [(''brightness'', VDict [(''percent'', VInt (clamp 0 100 percent))])]"

definition cct_light_colortemp_command :: "int \<Rightarrow> control_command" where
  "cct_light_colortemp_command kelvin =
     property_command [(''colorTemp'', VDict [(''value'', VInt (clamp KELVIN_MIN KELVIN_MAX kelvin))])]"

definition light_power_command :: "bool \<Rightarrow> int \<Rightarrow> int \<Rightarrow> control_command" where
  "light_power_command is_on brightness color_temp_mired =
     mk_command (on_off is_on) (active_low is_on) brightness color_temp_mired 0"

definition light_brightness_command :: "int \<Rightarrow> int \<Rightarrow> control_command" where
  "light_brightness_command brightness color_temp_mired =
     mk_command ''fast move to level'' 0 (clamp_brightness brightness 255) color_temp_mired 0"

definition light_colortemp_command :: "int \<Rightarrow> int \<Rightarrow> control_command" where
  "light_colortemp_command brightness color_temp_mired =
     mk_command ''fast color temperature'' 0 (clamp_brightness brightness 255) color_temp_mired 0"

definition light_full_command :: "bool \<Rightarrow> int \<Rightarrow> int \<Rightarrow> control_command" where
  "light_full_command is_on brightness color_temp_mired =
     mk_command (on_off is_on) (active_low is_on) (clamp_brightness brightness 255) color_temp_mired 0"

definition zigbee_dimmable_light_power_command :: "bool \<Rightarrow> int \<Rightarrow> control_command" where
  "zigbee_dimmable_light_power_command is_on brightness =
     mk_command (on_off is_on) (active_low is_on) (clamp_brightness brightness 255) 0 0"

definition zigbee_dimmable_light_brightness_command :: "int \<Rightarrow> control_command" where
  "zigbee_dimmable_light_brightness_command brightness =
     mk_command ''move to level'' 0 (clamp_brightness brightness 255) 0 0"

definition fast_move_light_power_command :: "bool \<Rightarrow> int \<Rightarrow> int \<Rightarrow> control_command" where
  "fast_move_light_power_command is_on brightness colortemp_mired =
     mk_command (on_off is_on) (active_low is_on) (clamp_brightness brightness 255) colortemp_mired 0"

definition fast_move_light_brightness_command :: "int \<Rightarrow> int \<Rightarrow> control_command" where
  "fast_move_light_brightness_command brightness colortemp_mired =
     mk_command ''fast move to level'' 0 (clamp_brightness brightness 255) colortemp_mired 0"

definition fast_move_light_colortemp_command :: "int \<Rightarrow> int \<Rightarrow> control_command" where
  "fast_move_light_colortemp_command brightness colortemp_mired =
     mk_command ''fast color temperature'' 0 (clamp_brightness brightness 255) colortemp_mired 0"

definition ventilation_command :: "int \<Rightarrow> control_command" where
  "ventilation_command value1 = mk_command ''set property'' value1 0 0 0"

definition fan_coil_ac_power_command :: "bool \<Rightarrow> int \<Rightarrow> int \<Rightarrow> int \<Rightarrow> control_command" where
  "fan_coil_ac_power_command is_on mode fan_speed temp_value4 =
     mk_command (on_off is_on) (active_low is_on) mode fan_speed temp_value4"

definition fan_coil_ac_mode_command :: "int \<Rightarrow> int \<Rightarrow> control_command" where
  "fan_coil_ac_mode_command mode temp_value4 = mk_command ''mode setting'' 0 mode 0 temp_value4"

definition fan_coil_ac_temperature_command :: "int \<Rightarrow> int \<Rightarrow> int \<Rightarrow> control_command" where
  "fan_coil_ac_temperature_command mode fan_speed temp_value4 =
     mk_command ''temperature setting'' 0 mode fan_speed temp_value4"

definition fan_coil_ac_fan_speed_command :: "int \<Rightarrow> int \<Rightarrow> int \<Rightarrow> control_command" where
  "fan_coil_ac_fan_speed_command mode fan_speed temp_value4 =
     mk_command ''wind setting'' 0 mode fan_speed temp_value4"

text \<open>\<^verbatim>\<open>int(temperature_celsius * 100) << 16\<close>: the product is a double.\<close>

definition ac_temperature_encode :: "pyfloat \<Rightarrow> int py" where
  "ac_temperature_encode t =
     bindE (py_int (VFloat (case t of Fin r \<Rightarrow> to_double (r * 100) | _ \<Rightarrow> t)))
       (\<lambda>n. Inr (push_bit 16 n))"

section \<open>Readers of reported values\<close>

definition light_is_on_from_value1 :: "int option \<Rightarrow> bool option" where
  "light_is_on_from_value1 v = (if v \<notin> {Some 0, Some 1} then None else Some (v = Some 0))"

definition switch_is_on_from_value1 :: "int option \<Rightarrow> bool option" where
  "switch_is_on_from_value1 v = (if v \<notin> {Some 0, Some 1} then None else Some (v = Some 1))"

definition curtain_position_from_value1 :: "int option \<Rightarrow> int option" where
  "curtain_position_from_value1 v = (case v of None \<Rightarrow> None
     | Some n \<Rightarrow> if 0 \<le> n \<and> n \<le> 100 then Some n else None)"

definition zigbee_dimmable_is_on :: "int option \<Rightarrow> int option \<Rightarrow> bool option" where
  "zigbee_dimmable_is_on v sub =
     (if v \<notin> {Some 0, Some 1} then None
      else if sub = Some (- 2) then Some (v = Some 0)
      else Some (v = Some 1))"

text \<open>The UTF-8 bytes of the three fan speeds: slow, stop and fast.\<close>

definition SPEED_SLOW :: string where "SPEED_SLOW = [CHR 0xE6, CHR 0x85, CHR 0xA2]"
definition SPEED_STOP :: string where "SPEED_STOP = [CHR 0xE5, CHR 0x81, CHR 0x9C]"
definition SPEED_FAST :: string where "SPEED_FAST = [CHR 0xE5, CHR 0xBF, CHR 0xAB]"

definition ventilation_fan_speed_from_value1 :: "int option \<Rightarrow> string option" where
  "ventilation_fan_speed_from_value1 v = (case v of None \<Rightarrow> None
     | Some n \<Rightarrow> map_of [(0, SPEED_SLOW), (50, SPEED_STOP), (100, SPEED_FAST)] n)"

section \<open>Payload assembly\<close>

definition SOFTWARE_VER :: string where "SOFTWARE_VER = ''5.1.3.309''"
definition DEBUG_INFO :: string where "DEBUG_INFO = ''Android_ZhiJia365_34_5.1.3.309''"

definition DEFAULT_PAYLOAD_HEADERS :: dict where
  "DEFAULT_PAYLOAD_HEADERS =
     [(''groupId'', VStr ''''), (''delayTime'', VInt 0), (''qualityOfService'', VInt 1),
      (''defaultResponse'', VInt 1), (''propertyResponse'', VInt 0), (''cmd'', VInt 15),
      (''clientType'', VInt 1), (''serverRecord'', VBool False), (''ver'', VStr SOFTWARE_VER),
      (''debugInfo'', VStr DEBUG_INFO)]"

definition build_control_payload ::
  "control_command \<Rightarrow> string \<Rightarrow> string \<Rightarrow> string \<Rightarrow> int \<Rightarrow> int option \<Rightarrow> dict" where
  "build_control_payload cmd device_id device_uid username serial uni_serial =
     (let payload = dict_merge
        [(''uid'', VStr device_uid), (''userName'', VStr username), (''deviceId'', VStr device_id),
         (''order'', cmd_order cmd), (''value1'', cmd_value1 cmd), (''value2'', cmd_value2 cmd),
         (''value3'', cmd_value3 cmd), (''value4'', cmd_value4 cmd), (''serial'', VInt serial),
         (''uniSerial'', VInt (case uni_serial of None \<Rightarrow> serial | Some u \<Rightarrow> u))]
        DEFAULT_PAYLOAD_HEADERS
      in if truthy (cmd_properties cmd)
         then AList.update ''properties'' (cmd_properties cmd) payload else payload)"

definition control_payload_to_command :: "dict \<Rightarrow> control_command" where
  "control_payload_to_command payload =
     \<lparr>cmd_order = dget payload ''order'' (VStr ''''), cmd_value1 = dget payload ''value1'' (VInt 0),
      cmd_value2 = dget payload ''value2'' (VInt 0), cmd_value3 = dget payload ''value3'' (VInt 0),
      cmd_value4 = dget payload ''value4'' (VInt 0), cmd_properties = get payload ''properties''\<rparr>"

lemmas command_defs = mk_command_def property_command_def curtain_position_command_def
  curtain_stop_command_def switch_power_command_def dimmable_light_brightness_command_def
  cct_light_power_command_def cct_light_brightness_command_def cct_light_colortemp_command_def
  light_power_command_def light_brightness_command_def light_colortemp_command_def
  light_full_command_def zigbee_dimmable_light_power_command_def
  zigbee_dimmable_light_brightness_command_def fast_move_light_power_command_def
  fast_move_light_brightness_command_def fast_move_light_colortemp_command_def
  ventilation_command_def fan_coil_ac_power_command_def fan_coil_ac_mode_command_def
  fan_coil_ac_temperature_command_def fan_coil_ac_fan_speed_command_def

lemma clamp_brightness_bounds [bounds_intros]:
  "1 \<le> m \<Longrightarrow> 1 \<le> clamp_brightness v m \<and> clamp_brightness v m \<le> m"
  by (auto simp: clamp_brightness_def)

lemma clamp_brightness_id [simp]: "1 \<le> v \<Longrightarrow> v \<le> m \<Longrightarrow> clamp_brightness v m = v"
  by (simp add: clamp_brightness_def)

lemma mired_to_kelvin_bounds [bounds_intros]:
  "mired_to_kelvin m = Some k \<Longrightarrow> KELVIN_MIN \<le> k \<and> k \<le> KELVIN_MAX"
  by (auto simp: mired_to_kelvin_def Let_def KELVIN_MIN_def KELVIN_MAX_def split: if_splits)

lemma build_control_payload_get:
  "get (build_control_payload cmd d u n s us) k
     = (if k = ''properties'' then (if truthy (cmd_properties cmd) then cmd_properties cmd else VNone)
        else dget [(''uid'', VStr u), (''userName'', VStr n), (''deviceId'', VStr d),
         (''order'', cmd_order cmd), (''value1'', cmd_value1 cmd), (''value2'', cmd_value2 cmd),
         (''value3'', cmd_value3 cmd), (''value4'', cmd_value4 cmd), (''serial'', VInt s),
         (''uniSerial'', VInt (case us of None \<Rightarrow> s | Some u \<Rightarrow> u))] k
         (get DEFAULT_PAYLOAD_HEADERS k))"
  by (auto simp: build_control_payload_def DEFAULT_PAYLOAD_HEADERS_def Let_def)

end
