(* ===== verification/Double_Facts.thy ===== *)
theory Double_Facts
  imports Py_Value
begin

text \<open>
  Facts on \<open>to_double\<close>: it is exact on dyadic rationals that fit 53 bits, its error is at most
  half a unit in the last place, and therefore the rounded quotient the program computes as
  \<^verbatim>\<open>math.floor(a * b / c + 0.5)\<close> is the integer quotient rounded half up.
\<close>

lemma bit_length_bounds:
  "0 < n \<Longrightarrow> 0 < bit_length n \<and> 2 ^ nat (bit_length n - 1) \<le> n \<and> n < 2 ^ nat (bit_length n)"
proof (induction n rule: bit_length.induct)
  case (1 n)
  show ?case
  proof (cases "n = 1")
    case True
    then show ?thesis by (simp add: bit_length.simps)
  next
    case False
    with 1 have IH: "0 < bit_length (n div 2)" "2 ^ nat (bit_length (n div 2) - 1) \<le> n div 2"
        "n div 2 < 2 ^ nat (bit_length (n div 2))"
      by auto
    have step: "bit_length n = 1 + bit_length (n div 2)"
      using 1(2) by (simp add: bit_length.simps [of n])
    from IH(1) obtain k where k: "bit_length (n div 2) = int k + 1"
      by (metis add.commute pos_int_cases zle_iff_zadd zless_imp_add1_zle add_0 )
    define P :: int where "P = 2 ^ k"
    have "P \<le> n div 2" "n div 2 < 2 * P"
      using IH(2,3) unfolding k P_def by (simp_all add: nat_add_distrib)
    then have "2 * P \<le> n" "n < 4 * P" by presburger+
    then show ?thesis unfolding step k P_def by (simp add: nat_add_distrib)
  qed
qed

lemma powi_of_nonneg: "0 \<le> n \<Longrightarrow> (2 :: rat) powi n = of_int (2 ^ nat n)"
  by (simp add: power_int_def)

lemma bit_length_powi:
  assumes "0 < n"
  shows "2 powi (bit_length n - 1) \<le> (of_int n :: rat)" "(of_int n :: rat) < 2 powi bit_length n"
proof -
  note b = bit_length_bounds [OF assms]
  have "(2 :: rat) powi (bit_length n - 1) = of_int (2 ^ nat (bit_length n - 1))"
    using b by (intro powi_of_nonneg) simp
  with b show "2 powi (bit_length n - 1) \<le> (of_int n :: rat)"
    by (simp only: of_int_le_iff)
  have "(2 :: rat) powi bit_length n = of_int (2 ^ nat (bit_length n))"
    using b by (intro powi_of_nonneg) simp
  with b show "(of_int n :: rat) < 2 powi bit_length n"
    by (simp only: of_int_less_iff)
qed

lemma rat_exponent_bounds:
  assumes "0 < r"
  shows "2 powi rat_exponent r \<le> r" "r < 2 powi (rat_exponent r + 1)"
proof -
  obtain a b where ab: "quotient_of r = (a, b)" by fastforce
  have b: "0 < b" using quotient_of_denom_pos [OF ab] .
  have r: "r = of_int a / of_int b" using quotient_of_div [OF ab] .
  have a: "0 < a" using assms b unfolding r by (simp add: zero_less_divide_iff)
  define la lb where "la = bit_length a" and "lb = bit_length b"
  have A: "2 powi (la - 1) \<le> (of_int a :: rat)" "(of_int a :: rat) < 2 powi la"
    using bit_length_powi [OF a] unfolding la_def by auto
  have B: "2 powi (lb - 1) \<le> (of_int b :: rat)" "(of_int b :: rat) < 2 powi lb"
    using bit_length_powi [OF b] unfolding lb_def by auto
  have b': "(0 :: rat) < of_int b" using b by simp
  have lo: "2 powi (la - lb - 1) \<le> r"
  proof -
    have "2 powi (la - lb - 1) * of_int b \<le> 2 powi (la - lb - 1) * (2 powi lb :: rat)"
      using B(2) by (intro mult_left_mono) auto
    also have "\<dots> = 2 powi (la - 1)" by (simp flip: power_int_add)
    finally show ?thesis using A(1) b' unfolding r by (simp add: pos_le_divide_eq)
  qed
  have hi: "r < 2 powi (la - lb + 1)"
  proof -
    have "of_int a < (2 powi la :: rat)" by (rule A(2))
    also have "\<dots> = 2 powi (la - lb + 1) * 2 powi (lb - 1)" by (simp flip: power_int_add)
    also have "\<dots> \<le> 2 powi (la - lb + 1) * (of_int b :: rat)"
      using B(1) by (intro mult_left_mono) auto
    finally show ?thesis using b' unfolding r by (simp add: pos_divide_less_eq)
  qed
  show "2 powi rat_exponent r \<le> r" "r < 2 powi (rat_exponent r + 1)"
    using lo hi
    by (auto simp: rat_exponent_def ab Let_def rat_pow_eq la_def lb_def not_less)
qed

lemma powi_mono_exp: "(2 :: rat) powi m < 2 powi n \<Longrightarrow> m < n"
  by (metis linorder_not_le one_le_numeral power_int_increasing not_less)

lemma rat_exponent_less: "0 < r \<Longrightarrow> r < 2 powi n \<Longrightarrow> rat_exponent r < n"
  using rat_exponent_bounds(1) [of r] powi_mono_exp [of "rat_exponent r" n] by linarith

lemma round_half_even_of_int [simp]: "round_half_even (of_int n) = n"
  by (simp add: round_half_even_def)

lemma round_half_even_error: "\<bar>of_int (round_half_even r) - r\<bar> \<le> 1 / 2"
  unfolding round_half_even_def Let_def
  using floor_correct [of r] by (auto simp: abs_le_iff)

lemma to_double_pos:
  assumes "0 < r" "q = max (rat_exponent r - 52) (- 1074)"
    and "m = of_int (round_half_even (r / 2 powi q)) * 2 powi q" "0 \<le> m" "m < DOUBLE_TOP"
  shows "to_double r = Fin m"
proof -
  have "\<bar>r\<bar> = r" "r \<noteq> 0" using assms(1) by simp_all
  then show ?thesis
    unfolding to_double_def Let_def rat_pow_eq using assms(4,5)
    by (simp add: assms(3) flip: assms(2))
qed

lemma DOUBLE_TOP_ge: "n \<le> 1024 \<Longrightarrow> 2 powi n \<le> DOUBLE_TOP"
  unfolding DOUBLE_TOP_def rat_pow_eq by (intro power_int_increasing) auto

text \<open>Exact on \<open>m * 2 powi j\<close> when \<open>m\<close> fits 53 bits.\<close>

lemma to_double_dyadic:
  assumes r: "r = of_int m * 2 powi j" and m: "0 < m" "m < 2 ^ 53" and j: "- 1074 \<le> j" "j \<le> 900"
  shows "to_double r = Fin r"
proof -
  have r0: "0 < r" using m(1) unfolding r by simp
  have "r < 2 powi (j + 53)"
  proof -
    have "(of_int m :: rat) < of_int (2 ^ 53)" using m(2) by (simp only: of_int_less_iff)
    then have "of_int m * 2 powi j < (2 ^ 53 :: rat) * 2 powi j"
      by (intro mult_strict_right_mono) auto
    then show ?thesis unfolding r by (simp add: power_int_add)
  qed
  moreover define q where "q = max (rat_exponent r - 52) (- 1074)"
  ultimately have q: "q \<le> j" using rat_exponent_less [OF r0] r0 j(1) by fastforce
  have "r / 2 powi q = of_int m * 2 powi (j - q)"
    unfolding r by (simp add: power_int_diff)
  also have "\<dots> = of_int (m * 2 ^ nat (j - q))"
    using q by (simp add: power_int_def)
  finally have quot: "r / 2 powi q = of_int (m * 2 ^ nat (j - q))" .
  from quot have "round_half_even (r / 2 powi q) = m * 2 ^ nat (j - q)"
    by (simp only: round_half_even_of_int)
  then have val: "of_int (round_half_even (r / 2 powi q)) * 2 powi q = r"
    using quot by (simp add: field_simps)
  have "r < DOUBLE_TOP"
    using \<open>r < 2 powi (j + 53)\<close> j(2) DOUBLE_TOP_ge [of "j + 53"] by linarith
  then show ?thesis
    using r0 by (intro to_double_pos [OF r0 q_def]) (simp_all add: val)
qed

text \<open>Half a unit in the last place.\<close>

lemma to_double_error:
  assumes "2 powi (- 1000) \<le> r" "r \<le> 2 powi 900"
  obtains x where "to_double r = Fin x" "\<bar>x - r\<bar> \<le> r * 2 powi (- 53)"
proof -
  have r0: "0 < r" using assms(1) by (meson less_le_trans zero_less_numeral zero_less_power_int)
  define q where "q = max (rat_exponent r - 52) (- 1074)"
  define x where "x = of_int (round_half_even (r / 2 powi q)) * (2 :: rat) powi q"
  have "- 1000 < rat_exponent r + 1"
    using rat_exponent_bounds(2) [OF r0] assms(1) powi_mono_exp [of "- 1000" "rat_exponent r + 1"]
    by linarith
  then have q: "q = rat_exponent r - 52" unfolding q_def by simp
  have "x - r = (of_int (round_half_even (r / 2 powi q)) - r / 2 powi q) * 2 powi q"
    unfolding x_def by (simp add: field_simps)
  then have "\<bar>x - r\<bar> \<le> 1 / 2 * 2 powi q"
    using round_half_even_error [of "r / 2 powi q"]
    by (simp add: abs_mult)
  also have "1 / 2 * 2 powi q = 2 powi rat_exponent r * (2 :: rat) powi (- 53)"
    unfolding q by (simp add: power_int_diff power_int_minus field_simps)
  also have "\<dots> \<le> r * 2 powi (- 53)"
    using rat_exponent_bounds(1) [OF r0] by (intro mult_right_mono) auto
  finally have err: "\<bar>x - r\<bar> \<le> r * 2 powi (- 53)" .
  have "r * 2 powi (- 53) \<le> r * 1"
    using r0 by (intro mult_left_mono) (auto simp: power_int_minus)
  then have "0 \<le> x" "x \<le> 2 * r" using err unfolding abs_le_iff by linarith+
  have "x \<le> 2 powi 901" using \<open>x \<le> 2 * r\<close> assms(2) power_int_add_1' [of "2 :: rat" 900] by simp
  also have "(2 :: rat) powi 901 < 2 powi 1000" by (intro power_int_strict_increasing) auto
  also have "\<dots> \<le> DOUBLE_TOP" by (rule DOUBLE_TOP_ge) simp
  finally have "to_double r = Fin x"
    using \<open>0 \<le> x\<close> by (intro to_double_pos [OF r0 q_def x_def])
  then show thesis using err by (rule that)
qed

section \<open>A rounded quotient\<close>

text \<open>A double-precision intermediate result that cannot overflow.\<close>

definition fl :: "rat \<Rightarrow> rat" where
  "fl r = (case to_double r of Fin x \<Rightarrow> x | _ \<Rightarrow> 0)"

text \<open>\<^verbatim>\<open>math.floor(a * b / c + 0.5)\<close> on doubles, for ints \<open>a\<close>, \<open>b\<close> and \<open>c\<close>.\<close>

definition scale_round :: "int \<Rightarrow> int \<Rightarrow> int \<Rightarrow> int" where
  "scale_round a b c = \<lfloor>fl (fl (fl (of_int a * of_int b) / of_int c) + 1 / 2)\<rfloor>"

lemma fl_0 [simp]: "fl 0 = 0"
  by (simp add: fl_def to_double_def)

lemma fl_dyadic:
  "r = of_int m * 2 powi j \<Longrightarrow> 0 < m \<Longrightarrow> m < 2 ^ 53 \<Longrightarrow> - 1074 \<le> j \<Longrightarrow> j \<le> 900 \<Longrightarrow> fl r = r"
  by (simp add: fl_def to_double_dyadic)

lemma fl_of_int [simp]:
  assumes "0 \<le> n" "n < 2 ^ 53"
  shows "fl (of_int n) = of_int n"
proof (cases "n = 0")
  case False
  with assms show ?thesis by (intro fl_dyadic [of _ n 0]) auto
qed simp

lemma fl_half:
  assumes "0 \<le> m" "m < 2 ^ 53"
  shows "fl (of_int m / 2) = of_int m / 2"
proof (cases "m = 0")
  case False
  with assms show ?thesis by (intro fl_dyadic [of _ m "- 1"]) auto
qed simp

lemma fl_close:
  assumes "1 / 1000 \<le> r" "r \<le> 10 ^ 7"
  shows "\<bar>fl r - r\<bar> < 1 / 10 ^ 6"
proof -
  have "(2 :: rat) powi (- 1000) \<le> 2 powi (- 10)" by (intro power_int_increasing) auto
  also have "(2 :: rat) powi (- 10) \<le> r" using assms(1) by (simp add: power_int_minus)
  finally have lo: "2 powi (- 1000) \<le> r" .
  have "r \<le> 2 powi 24" using assms(2) by simp
  also have "(2 :: rat) powi 24 \<le> 2 powi 900" by (intro power_int_increasing) auto
  finally have hi: "r \<le> 2 powi 900" .
  obtain x where x: "to_double r = Fin x" "\<bar>x - r\<bar> \<le> r * 2 powi (- 53)"
    using to_double_error [OF lo hi] .
  have "r * 2 powi (- 53) \<le> 10 ^ 7 * 2 powi (- 53)"
    using assms(2) by (intro mult_right_mono) auto
  also have "\<dots> < (1 / 10 ^ 6 :: rat)" by (simp add: power_int_minus)
  finally show ?thesis using x by (simp add: fl_def)
qed

lemma rat_frac_gap:
  assumes "0 < c" "k = \<lfloor>of_int p / of_int c :: rat\<rfloor>"
  shows "of_int p / of_int c \<le> (of_int k + 1 - 1 / of_int c :: rat)"
    and "of_int p / of_int c = (of_int k :: rat) \<or> of_int k + 1 / of_int c \<le> (of_int p / of_int c :: rat)"
proof -
  have k: "k = p div c" using assms(2) by (simp add: floor_divide_of_int_eq)
  have c: "(0 :: rat) < of_int c" using assms(1) by simp
  have "p < (k + 1) * c" using assms(1) unfolding k
    by (metis add.commute div_mult_mod_eq distrib_right mult_1 add_less_cancel_left pos_mod_bound)
  then have "p + 1 \<le> (k + 1) * c" by simp
  then have "of_int p + 1 \<le> (of_int k + 1) * (of_int c :: rat)" by (metis of_int_1 of_int_add of_int_le_iff of_int_mult)
  then show "of_int p / of_int c \<le> (of_int k + 1 - 1 / of_int c :: rat)"
    using c by (simp add: field_simps)
  have "k * c \<le> p" using assms(1) unfolding k by (metis div_mult_mod_eq pos_mod_sign add_increasing2 order_refl)
  then consider "p = k * c" | "k * c + 1 \<le> p" by linarith
  then show "of_int p / of_int c = (of_int k :: rat) \<or> of_int k + 1 / of_int c \<le> (of_int p / of_int c :: rat)"
  proof cases
    case 1
    then show ?thesis using c by simp
  next
    case 2
    then have "of_int k * of_int c + 1 \<le> (of_int p :: rat)" by (metis of_int_1 of_int_add of_int_le_iff of_int_mult)
    then have "of_int k + 1 / of_int c \<le> (of_int p / of_int c :: rat)"
      using c by (simp add: pos_le_divide_eq distrib_right)
    then show ?thesis ..
  qed
qed

text \<open>The doubles do not change the value: the quotient rounded half up.\<close>

lemma scale_round_eq:
  assumes "0 \<le> a" "0 \<le> b" "a * b \<le> 10 ^ 6" "0 < c" "c \<le> 1000"
  shows "scale_round a b c = (2 * (a * b) + c) div (2 * c)"
proof (cases "a * b = 0")
  case True
  have "\<lfloor>fl (1 / 2)\<rfloor> = 0" using fl_half [of 1] by (simp add: floor_eq_iff)
  then show ?thesis using True assms(4) by (auto simp: scale_round_def)
next
  case False
  define n where "n = a * b"
  have n: "1 \<le> n" "n \<le> 10 ^ 6" using False assms(1,2,3) unfolding n_def
    by (auto simp: int_one_le_iff_zero_less less_le)
  define x :: rat where "x = of_int n / of_int c"
  define s where "s = x + 1 / 2"
  define k where "k = \<lfloor>s\<rfloor>"
  have c: "(0 :: rat) < of_int c" "(of_int c :: rat) \<le> 1000" using assms(4,5) by simp_all
  have nr: "1 \<le> (of_int n :: rat)" "(of_int n :: rat) \<le> 10 ^ 6" using n by (simp_all flip: of_int_le_iff)
  have x: "1 / 1000 \<le> x" "x \<le> 10 ^ 6"
    using c nr assms(4) unfolding x_def by (auto simp: field_simps)
  have s: "s = of_int (2 * n + c) / of_int (2 * c)" using c unfolding s_def x_def by (simp add: field_simps)
  have sr: "scale_round a b c = \<lfloor>fl (fl x + 1 / 2)\<rfloor>"
    using n by (simp add: scale_round_def x_def n_def flip: of_int_mult)
  have y: "\<bar>fl x - x\<bar> < 1 / 10 ^ 6" using x by (intro fl_close) auto
  have "1 / 1000 \<le> fl x + 1 / 2" "fl x + 1 / 2 \<le> 10 ^ 7"
    using x y unfolding abs_less_iff by simp_all
  then have "\<bar>fl (fl x + 1 / 2) - (fl x + 1 / 2)\<bar> < 1 / 10 ^ 6"
    by (rule fl_close)
  then have "\<bar>fl (fl x + 1 / 2) - s\<bar> < 2 / 10 ^ 6" using y unfolding s_def by linarith
  then have w: "\<bar>fl (fl x + 1 / 2) - s\<bar> < 1 / 2000" by (rule less_trans) simp
  have g: "1 / 2000 \<le> 1 / (of_int (2 * c) :: rat)" using c by (simp add: field_simps)
  note gap = rat_frac_gap [of "2 * c" k "2 * n + c"]
  have up: "s \<le> of_int k + 1 - 1 / of_int (2 * c)"
    using gap(1) assms(4) k_def s by simp
  then have up': "fl (fl x + 1 / 2) < of_int k + 1" using w g by linarith
  have low': "of_int k \<le> fl (fl x + 1 / 2)"
  proof (cases "s = of_int k")
    case True
    have "(0 :: rat) < of_int k" using True x(1) unfolding s_def by linarith
    then have "0 < k" by simp
    have "of_int k \<le> (10 ^ 6 + 1 :: rat)" using True x(2) s_def by linarith
    then have "of_int k \<le> (of_int (10 ^ 6 + 1) :: rat)" by simp
    then have k2: "k \<le> 10 ^ 6 + 1" by (simp only: of_int_le_iff)
    have "x = of_int (2 * k - 1) / 2" using True s_def by (simp add: field_simps)
    then have "fl x = x" using \<open>0 < k\<close> k2 
      by (simp only:) (rule fl_half, simp_all)
    then have "fl x + 1 / 2 = of_int k" using True s_def by simp
    then show ?thesis using \<open>0 < k\<close> k2 by simp
  next
    case False
    then have "of_int k + 1 / of_int (2 * c) \<le> s" using gap(2) assms(4) k_def s by simp
    then show ?thesis using w g by linarith
  qed
  have "\<lfloor>fl (fl x + 1 / 2)\<rfloor> = k" using up' low' by (simp add: floor_unique)
  also have "k = (2 * n + c) div (2 * c)" unfolding k_def s by (rule floor_divide_of_int_eq)
  finally show ?thesis unfolding sr n_def .
qed

end
