(* ===== verification/Protocol_Profiles.thy ===== *)
theory Protocol_Profiles
  imports Control_Commands Double_Facts
begin

text \<open>
  \<^verbatim>\<open>light_values.py\<close> and \<^verbatim>\<open>protocol_profiles.py\<close>: validation of brightness readings, the native
  wire scales of dimmers (encoder and decoder), the RF curtain commands and the protocol profile
  a device's identity fields select.
\<close>

section \<open>Brightness readings\<close>

fun normalize_brightness :: "pyval \<Rightarrow> int \<Rightarrow> int option" where
  "normalize_brightness (VBool b) maximum = None"
| "normalize_brightness VNone maximum = None"
| "normalize_brightness (VList xs) maximum = None"
| "normalize_brightness (VDict d) maximum = None"
| "normalize_brightness v maximum =
     (case py_float v of
        Inr (Fin r) \<Rightarrow> if r < 0 then None else Some (rat_trunc (min r (of_int maximum)))
      | _ \<Rightarrow> None)"

lemma normalize_brightness_cases:
  assumes "normalize_brightness v m = Some n"
  obtains r where "0 \<le> r" "n = rat_trunc (min r (of_int m))"
  using assms
  by (cases v) (auto split: sum.splits pyfloat.splits if_splits intro: that simp: not_less)

lemma normalize_brightness_bounds [bounds_intros]:
  assumes "normalize_brightness v m = Some n" "0 \<le> m"
  shows "0 \<le> n \<and> n \<le> m"
proof -
  obtain r where "0 \<le> r" "n = rat_trunc (min r (of_int m))"
    using assms(1) by (rule normalize_brightness_cases)
  then show ?thesis using rat_trunc_bounds [of "min r (of_int m)" m] assms(2) by simp
qed

lemma normalize_brightness_int [simp]:
  assumes "\<bar>n\<bar> \<le> 2 ^ 53"
  shows "normalize_brightness (VInt n) m = (if n < 0 then None else Some (min n m))"
proof -
  have "min (of_int n) (of_int m :: rat) = of_int (min n m)"
    by (simp add: min_def)
  then show ?thesis using assms by simp
qed

section \<open>Identity fields\<close>

text \<open>\<^verbatim>\<open>_int\<close>: every conversion error, and a bool, reads as absent.\<close>

definition safe_int_nobool :: "pyval \<Rightarrow> int option" where
  "safe_int_nobool v =
     (if v = VNone \<or> is_bool v then None else case py_int v of Inl _ \<Rightarrow> None | Inr n \<Rightarrow> Some n)"

definition VIRTUAL_MIXPAD_DIMMER_MODEL :: string where
  "VIRTUAL_MIXPAD_DIMMER_MODEL = ''VirtualModelidForMixpadD''"

definition NATIVE_DIMMER_TYPES :: "int list" where
  "NATIVE_DIMMER_TYPES = [0, 116]"

definition NATIVE_SIMPLE_LIGHT_TYPES :: "int list" where
  "NATIVE_SIMPLE_LIGHT_TYPES = [1, 2, 9, 10, 29, 43, 102]"

definition NATIVE_CURTAIN_TYPES :: "int list" where
  "NATIVE_CURTAIN_TYPES =
     [3, 4, 8, 34, 35, 37, 39, 42, 70, 73, 74, 75, 76, 105, 106, 109, 110, 111, 118, 126, 127]"

definition type_in :: "int option \<Rightarrow> int list \<Rightarrow> bool" where
  "type_in t ns = (case t of None \<Rightarrow> False | Some n \<Rightarrow> n \<in> set ns)"

lemma type_in_simps [simp]: "type_in None ns = False" "type_in (Some n) ns = (n \<in> set ns)"
  by (simp_all add: type_in_def)

definition profile_type :: "dict \<Rightarrow> int option" where
  "profile_type device =
     (let value = get device ''device_type_raw''
      in safe_int_nobool (if value = VNone then get device ''deviceType'' else value))"

definition profile_subtype :: "dict \<Rightarrow> int option" where
  "profile_subtype device =
     safe_int_nobool (dget device ''sub_device_type'' (get device ''subDeviceType''))"

definition is_rf_curtain :: "dict \<Rightarrow> bool" where
  "is_rf_curtain device =
     (let value = dget device ''is_rf_curtain'' (get device ''isRFCurtain'')
      in value = VBool True \<or>
         list_ex (py_eq value) [VInt 1, VStr ''1'', VStr ''true'', VStr ''True''])"

text \<open>\<^verbatim>\<open>str(device.get("model", "")) == VIRTUAL_MIXPAD_DIMMER_MODEL\<close>. The text of a value that is
  not a string (None, True, a number, a bracketed container) never equals the model name, so
  this is also the test without \<^verbatim>\<open>str\<close> that the other functions of the module make.\<close>

definition is_virtual_mixpad :: "dict \<Rightarrow> bool" where
  "is_virtual_mixpad device \<longleftrightarrow> get device ''model'' = VStr VIRTUAL_MIXPAD_DIMMER_MODEL"

section \<open>Native dimmer scales\<close>

text \<open>The percentage is an int at both call sites.\<close>

definition light_wire_brightness :: "int \<Rightarrow> dict \<Rightarrow> int" where
  "light_wire_brightness percent device =
     (let value = max 0 (min 100 percent)
      in if is_virtual_mixpad device then max 0 (min 255 (scale_round value 255 100))
         else if profile_type device = Some 116 then max 0 (min 120 (scale_round value 120 100))
         else max 2 (min 255 (scale_round value 253 100 + 2)))"

definition light_percent_from_wire :: "pyval \<Rightarrow> dict \<Rightarrow> int option" where
  "light_percent_from_wire value device =
     (case normalize_brightness value 255 of None \<Rightarrow> None
      | Some raw \<Rightarrow>
         if profile_type device = Some 116 then Some (min 100 (scale_round (min raw 120) 100 120))
         else if is_virtual_mixpad device
         then Some (if raw = 0 then 1 else min 100 (scale_round raw 100 255))
         else Some (max 1 (min 100 ((raw * 100 - 72) div 253))))"

definition light_wire_from_ha :: "int \<Rightarrow> dict \<Rightarrow> int" where
  "light_wire_from_ha brightness device =
     light_wire_brightness (max 1 (min 100 (scale_round brightness 100 255))) device"

definition retained_field :: "dict \<Rightarrow> dict \<Rightarrow> string \<Rightarrow> string \<Rightarrow> dict" where
  "retained_field state device raw_field field =
     (case safe_int_nobool (dget state raw_field (get device field)) of
        None \<Rightarrow> [] | Some v \<Rightarrow> if v \<ge> 0 then [(field, VInt v)] else [])"

definition dimmer_retained_values :: "dict \<Rightarrow> dict \<Rightarrow> dict" where
  "dimmer_retained_values state device =
     retained_field state device ''raw_value3'' ''value3'' @
     (if is_virtual_mixpad device then [] else retained_field state device ''raw_value4'' ''value4'')"

section \<open>Curtains\<close>

definition curtain_command :: "string \<Rightarrow> dict \<Rightarrow> int option \<Rightarrow> control_command py" where
  "curtain_command action0 device position =
     (let action = py_strip (py_lower action0)
      in if is_rf_curtain device then
           (case map_of [(''open'', 380000), (''close'', 380001), (''stop'', 380002)] action of
              None \<Rightarrow> Inl ValueError
            | Some value \<Rightarrow> Inr (mk_command ''rf control'' value 0 0 0))
         else if action = ''open'' \<or> action = ''close'' then
           (let p = (case position of None \<Rightarrow> if action = ''open'' then 100 else 0 | Some p \<Rightarrow> p)
            in Inr (mk_command action (max 0 (min 100 p)) 0 0 0))
         else if action = ''stop'' then Inr (mk_command ''stop'' 0 0 0 0)
         else Inl ValueError)"

section \<open>The profile\<close>

record protocol_profile =
  pp_device_type :: "int option"
  pp_sub_device_type :: "int option"
  pp_dimmer_scale :: "int option"
  pp_rf_curtain :: bool
  pp_control_evidence :: string

definition profile_for :: "dict \<Rightarrow> protocol_profile" where
  "profile_for device =
     (let device_type = profile_type device;
          scale =
            (if type_in device_type NATIVE_DIMMER_TYPES \<and> is_virtual_mixpad device then Some 255
             else if device_type = Some 116 then Some 120
             else if type_in device_type NATIVE_DIMMER_TYPES then Some 253
             else None);
          evidence =
            (if is_rf_curtain device then ''native-rf-curtain''
             else if type_in device_type NATIVE_CURTAIN_TYPES then ''native-curtain''
             else if type_in device_type NATIVE_SIMPLE_LIGHT_TYPES then ''native-simple-light''
             else if scale \<noteq> None then ''native-dimmer''
             else ''generic'')
      in \<lparr>pp_device_type = device_type, pp_sub_device_type = profile_subtype device,
          pp_dimmer_scale = scale, pp_rf_curtain = is_rf_curtain device,
          pp_control_evidence = evidence\<rparr>)"

lemma profile_for_simps [simp]:
  "pp_device_type (profile_for d) = profile_type d"
  "pp_sub_device_type (profile_for d) = profile_subtype d"
  "pp_rf_curtain (profile_for d) = is_rf_curtain d"
  by (simp_all add: profile_for_def Let_def)

lemma dimmer_scale_iff: "pp_dimmer_scale (profile_for d) \<noteq> None \<longleftrightarrow> profile_type d \<in> {Some 0, Some 116}"
  by (auto simp: profile_for_def Let_def NATIVE_DIMMER_TYPES_def type_in_def split: option.splits)

lemma dimmer_scale_values:
  "pp_dimmer_scale (profile_for d) = Some n \<Longrightarrow> n \<in> {120, 253, 255}"
  by (auto simp: profile_for_def Let_def split: if_splits)

lemma light_wire_brightness_bounds [bounds_intros]:
  "0 \<le> light_wire_brightness p d \<and> light_wire_brightness p d \<le> 255"
  by (auto simp: light_wire_brightness_def Let_def min_def max_def)

lemma light_wire_brightness_116 [bounds_intros]:
  "pp_dimmer_scale (profile_for d) = Some 120 \<Longrightarrow> light_wire_brightness p d \<le> 120"
  by (auto simp: light_wire_brightness_def profile_for_def Let_def NATIVE_DIMMER_TYPES_def split: if_splits)

text \<open>The encoder in integer arithmetic.\<close>

lemma light_wire_brightness_eq:
  assumes "0 \<le> p" "p \<le> 100"
  shows "light_wire_brightness p d
    = (if is_virtual_mixpad d then (510 * p + 100) div 200
       else if profile_type d = Some 116 then (240 * p + 100) div 200
       else (506 * p + 100) div 200 + 2)"
  using assms by (auto simp: light_wire_brightness_def Let_def scale_round_eq)

lemma light_percent_from_wire_eq:
  assumes "0 \<le> w" "w \<le> 255"
  shows "light_percent_from_wire (VInt w) d
    = Some (if profile_type d = Some 116 then min 100 ((200 * min w 120 + 120) div 240)
       else if is_virtual_mixpad d then (if w = 0 then 1 else min 100 ((200 * w + 255) div 510))
       else max 1 (min 100 ((w * 100 - 72) div 253)))"
  using assms by (auto simp: light_percent_from_wire_def scale_round_eq min_def)

lemma light_wire_from_ha_eq:
  assumes "1 \<le> b" "b \<le> 255"
  shows "light_wire_from_ha b d = light_wire_brightness (max 1 ((200 * b + 255) div 510)) d"
  using assms by (simp add: light_wire_from_ha_def scale_round_eq)

lemma retained_field_keys: "fst ` set (retained_field s d r f) \<subseteq> {f}"
  by (auto simp: retained_field_def split: option.splits if_splits)

lemma div_unique_bounds: "k * q \<le> n \<Longrightarrow> n < k * q + k \<Longrightarrow> (n :: int) div k = q"
  by (rule int_div_pos_eq [of _ _ _ "n - k * q"]) auto

lemma div_bounds: "0 < k \<Longrightarrow> k * ((n :: int) div k) \<le> n \<and> n < k * (n div k) + k"
  by (smt (verit) mult_div_mod_eq pos_mod_bound pos_mod_sign)

lemma rescale_255: "1 \<le> p \<Longrightarrow> p \<le> 100 \<Longrightarrow>
    1 \<le> (510 * p + 100) div 200 \<and> (200 * ((510 * p + 100) div 200) + 255) div 510 = (p :: int)"
  using div_bounds [of 200 "510 * p + 100"] by (auto intro!: div_unique_bounds)

lemma rescale_120: "1 \<le> p \<Longrightarrow> p \<le> 100 \<Longrightarrow>
    (240 * p + 100) div 200 \<le> 120 \<and> (200 * ((240 * p + 100) div 200) + 120) div 240 = (p :: int)"
  using div_bounds [of 200 "240 * p + 100"] by (auto intro!: div_unique_bounds)

lemma rescale_253: "1 \<le> p \<Longrightarrow> p \<le> 100 \<Longrightarrow>
    (((506 * p + 100) div 200 + 2) * 100 - 72) div 253 = (p :: int)"
  using div_bounds [of 200 "506 * p + 100"] by (auto intro!: div_unique_bounds)

lemma percent_of_wire_brightness:
  assumes "1 \<le> p" "p \<le> 100" "\<not> (profile_type d = Some 116 \<and> is_virtual_mixpad d)"
  shows "light_percent_from_wire (VInt (light_wire_brightness p d)) d = Some p"
proof -
  define w where "w = light_wire_brightness p d"
  have w: "w = (if is_virtual_mixpad d then (510 * p + 100) div 200
       else if profile_type d = Some 116 then (240 * p + 100) div 200
       else (506 * p + 100) div 200 + 2)"
    unfolding w_def using assms by (intro light_wire_brightness_eq) auto
  have "0 \<le> w" "w \<le> 255" unfolding w_def using light_wire_brightness_bounds by auto
  then have "light_percent_from_wire (VInt w) d
    = Some (if profile_type d = Some 116 then min 100 ((200 * min w 120 + 120) div 240)
       else if is_virtual_mixpad d then (if w = 0 then 1 else min 100 ((200 * w + 255) div 510))
       else max 1 (min 100 ((w * 100 - 72) div 253)))"
    by (rule light_percent_from_wire_eq)
  also have "\<dots> = Some p"
  proof (cases "is_virtual_mixpad d")
    case True
    then have "profile_type d \<noteq> Some 116" "w = (510 * p + 100) div 200" using assms(3) w by auto
    then show ?thesis using True assms(2) rescale_255 [OF assms(1,2)] by auto
  next
    case False
    with False show ?thesis using w assms(1,2) rescale_120 [OF assms(1,2)] rescale_253 [OF assms(1,2)]
      by (auto simp: min_def)
  qed
  finally show ?thesis unfolding w_def .
qed

text \<open>C34. A protocol percentage from 1 to 100 survives the wire: the decoder returns the percentage
  the encoder was given, on each of the native scales (the 253-step scale with its offset 2, the
  120-step scale of type 116 and the 255-step scale of the virtual MixPad dimmer), in the code's own
  double arithmetic. A device that is both of type 116 and the virtual model is excluded: encoder and
  decoder choose different scales for it. Zero percent is not meant: two of the scales read it back as one.\<close>

theorem dimmer_percent_roundtrip:
  assumes "1 \<le> p" "p \<le> 100" "\<not> (profile_type d = Some 116 \<and> is_virtual_mixpad d)"
  shows "light_percent_from_wire (VInt (light_wire_brightness p d)) d = Some p"
  by (rule percent_of_wire_brightness [OF assms])

theorem dimmer_percent_roundtrip_witness:
  "light_percent_from_wire (VInt (light_wire_brightness 50 [(''deviceType'', VInt 0)])) [(''deviceType'', VInt 0)]
     = Some 50"
  by (rule dimmer_percent_roundtrip)
     (simp_all add: profile_type_def safe_int_nobool_def Let_def is_virtual_mixpad_def)

end
