(* ===== verification/Device_Types.thy ===== *)
theory Device_Types
  imports Protocol_Profiles
begin

text \<open>
  \<^verbatim>\<open>device_types.py\<close> and the lookup of \<^verbatim>\<open>known_device_models.py\<close>: the categories, the classification
  of a device record and the profile that decides whether a device may be controlled.

  The official model catalogue is a data file read at import; it is the parameter \<open>catalog\<close> of
  every definition that asks for it. Labels and descriptions are display texts and are left out.
\<close>

section \<open>Categories\<close>

datatype device_category =
    UNKNOWN | SIMPLE_ZIGBEE_LIGHT | ZIGBEE_CURTAIN | ZIGBEE_ROLLING_SHUTTER | FAN_COIL_AC |
    MIXPAD_GATEWAY | MUSIC_HOST | MIX_SWITCH | MONO_LIGHT | CCT_LIGHT_STRIP | BACH_SWITCH |
    DOOR_LOCK | WIFI_CAMERA | CAMERA_NVR | LIGHT_VIRTUAL_GROUP | DIM_COLOR_LIGHT | LEGACY_LIGHT
    | LEGACY_CURTAIN | CLOTHES_HORSE | MOTION_SENSOR | SMOKE_SENSOR | EMERGENCY_BUTTON |
    WATER_LEAK_SENSOR | GAS_SENSOR | SMART_REMOTE | MIXPAD_4WAY_BASE | DIMMABLE_LIGHT |
    ZIGBEE_DIMMABLE_LIGHT | CCT_LIGHT | TEMP_HUMIDITY_SENSOR | DOOR_WINDOW_SENSOR |
    FAST_MOVE_DIM_COLOR_LIGHT | VENTILATION_SYSTEM | FLOOR_HEATING | LEGACY_FLOOR_HEATING |
    DREAM_CURTAIN | OTHER

record category_info =
  ci_category :: device_category
  ci_capabilities :: "string list"
  ci_is_container :: bool

definition CATEGORY_INFO :: "(device_category \<times> category_info) list" where
  "CATEGORY_INFO =
     [(SIMPLE_ZIGBEE_LIGHT, \<lparr>ci_category = SIMPLE_ZIGBEE_LIGHT, ci_capabilities = [''onoff''], ci_is_container = False\<rparr>),
      (ZIGBEE_CURTAIN, \<lparr>ci_category = ZIGBEE_CURTAIN, ci_capabilities = [''position''], ci_is_container = False\<rparr>),
      (ZIGBEE_ROLLING_SHUTTER, \<lparr>ci_category = ZIGBEE_ROLLING_SHUTTER, ci_capabilities = [''position''], ci_is_container = False\<rparr>),
      (FAN_COIL_AC, \<lparr>ci_category = FAN_COIL_AC, ci_capabilities = [''onoff'', ''temperature'', ''mode'', ''fan_speed''], ci_is_container = False\<rparr>),
      (MIXPAD_GATEWAY, \<lparr>ci_category = MIXPAD_GATEWAY, ci_capabilities = [''gateway'', ''music''], ci_is_container = True\<rparr>),
      (MUSIC_HOST, \<lparr>ci_category = MUSIC_HOST, ci_capabilities = [''music_play'', ''volume'', ''skip''], ci_is_container = False\<rparr>),
      (MIX_SWITCH, \<lparr>ci_category = MIX_SWITCH, ci_capabilities = [''multi_channel_switch''], ci_is_container = True\<rparr>),
      (MONO_LIGHT, \<lparr>ci_category = MONO_LIGHT, ci_capabilities = [''onoff''], ci_is_container = False\<rparr>),
      (CCT_LIGHT_STRIP, \<lparr>ci_category = CCT_LIGHT_STRIP, ci_capabilities = [''onoff'', ''brightness'', ''color_temp''], ci_is_container = False\<rparr>),
      (BACH_SWITCH, \<lparr>ci_category = BACH_SWITCH, ci_capabilities = [''multi_channel_switch''], ci_is_container = True\<rparr>),
      (DOOR_LOCK, \<lparr>ci_category = DOOR_LOCK, ci_capabilities = [''lock'', ''door_state'', ''battery''], ci_is_container = False\<rparr>),
      (WIFI_CAMERA, \<lparr>ci_category = WIFI_CAMERA, ci_capabilities = [], ci_is_container = False\<rparr>),
      (CAMERA_NVR, \<lparr>ci_category = CAMERA_NVR, ci_capabilities = [], ci_is_container = True\<rparr>),
      (LIGHT_VIRTUAL_GROUP, \<lparr>ci_category = LIGHT_VIRTUAL_GROUP, ci_capabilities = [''group_onoff''], ci_is_container = False\<rparr>),
      (DIM_COLOR_LIGHT, \<lparr>ci_category = DIM_COLOR_LIGHT, ci_capabilities = [''onoff'', ''brightness'', ''color_temp''], ci_is_container = False\<rparr>),
      (LEGACY_LIGHT, \<lparr>ci_category = LEGACY_LIGHT, ci_capabilities = [''onoff''], ci_is_container = False\<rparr>),
      (LEGACY_CURTAIN, \<lparr>ci_category = LEGACY_CURTAIN, ci_capabilities = [''position''], ci_is_container = False\<rparr>),
      (CLOTHES_HORSE, \<lparr>ci_category = CLOTHES_HORSE, ci_capabilities = [''lighting'', ''sterilizing'', ''wind_drying'', ''heat_drying'', ''motor'', ''main_switch''], ci_is_container = False\<rparr>),
      (MOTION_SENSOR, \<lparr>ci_category = MOTION_SENSOR, ci_capabilities = [''motion_detection''], ci_is_container = False\<rparr>),
      (SMOKE_SENSOR, \<lparr>ci_category = SMOKE_SENSOR, ci_capabilities = [''smoke_detection''], ci_is_container = False\<rparr>),
      (EMERGENCY_BUTTON, \<lparr>ci_category = EMERGENCY_BUTTON, ci_capabilities = [''emergency_alarm''], ci_is_container = False\<rparr>),
      (WATER_LEAK_SENSOR, \<lparr>ci_category = WATER_LEAK_SENSOR, ci_capabilities = [''water_leak_detection''], ci_is_container = False\<rparr>),
      (GAS_SENSOR, \<lparr>ci_category = GAS_SENSOR, ci_capabilities = [''gas_detection''], ci_is_container = False\<rparr>),
      (SMART_REMOTE, \<lparr>ci_category = SMART_REMOTE, ci_capabilities = [''ir_control''], ci_is_container = False\<rparr>),
      (MIXPAD_4WAY_BASE, \<lparr>ci_category = MIXPAD_4WAY_BASE, ci_capabilities = [''multi_channel_switch''], ci_is_container = True\<rparr>),
      (DIMMABLE_LIGHT, \<lparr>ci_category = DIMMABLE_LIGHT, ci_capabilities = [''onoff'', ''brightness''], ci_is_container = False\<rparr>),
      (ZIGBEE_DIMMABLE_LIGHT, \<lparr>ci_category = ZIGBEE_DIMMABLE_LIGHT, ci_capabilities = [''onoff'', ''brightness''], ci_is_container = False\<rparr>),
      (TEMP_HUMIDITY_SENSOR, \<lparr>ci_category = TEMP_HUMIDITY_SENSOR, ci_capabilities = [''temperature'', ''humidity'', ''battery''], ci_is_container = False\<rparr>),
      (DOOR_WINDOW_SENSOR, \<lparr>ci_category = DOOR_WINDOW_SENSOR, ci_capabilities = [''door_state'', ''battery''], ci_is_container = False\<rparr>),
      (FAST_MOVE_DIM_COLOR_LIGHT, \<lparr>ci_category = FAST_MOVE_DIM_COLOR_LIGHT, ci_capabilities = [''onoff'', ''brightness'', ''color_temp''], ci_is_container = False\<rparr>),
      (VENTILATION_SYSTEM, \<lparr>ci_category = VENTILATION_SYSTEM, ci_capabilities = [''onoff'', ''fan_speed'', ''preset_mode''], ci_is_container = False\<rparr>),
      (FLOOR_HEATING, \<lparr>ci_category = FLOOR_HEATING, ci_capabilities = [''onoff'', ''target_temperature'', ''temperature'', ''humidity''], ci_is_container = False\<rparr>),
      (LEGACY_FLOOR_HEATING, \<lparr>ci_category = LEGACY_FLOOR_HEATING, ci_capabilities = [''onoff'', ''target_temperature'', ''temperature''], ci_is_container = False\<rparr>),
      (DREAM_CURTAIN, \<lparr>ci_category = DREAM_CURTAIN, ci_capabilities = [''position'', ''stop'', ''angle''], ci_is_container = False\<rparr>),
      (OTHER, \<lparr>ci_category = OTHER, ci_capabilities = [], ci_is_container = False\<rparr>),
      (UNKNOWN, \<lparr>ci_category = UNKNOWN, ci_capabilities = [], ci_is_container = False\<rparr>)]"

definition get_category_info :: "device_category \<Rightarrow> category_info" where
  "get_category_info c = (case map_of CATEGORY_INFO c of
     Some i \<Rightarrow> i | None \<Rightarrow> the (map_of CATEGORY_INFO UNKNOWN))"

definition DEVICE_TYPE_MAP :: "(int \<times> device_category) list" where
  "DEVICE_TYPE_MAP =
     [(1, SIMPLE_ZIGBEE_LIGHT), (34, ZIGBEE_CURTAIN), (35, ZIGBEE_ROLLING_SHUTTER), (36,
      FAN_COIL_AC), (81, FAN_COIL_AC), (114, MIXPAD_GATEWAY), (128, MUSIC_HOST), (135,
      MIX_SWITCH), (136, MIX_SWITCH), (137, MIX_SWITCH), (143, MIX_SWITCH), (501, MONO_LIGHT),
      (503, CCT_LIGHT), (518, BACH_SWITCH), (107, DOOR_LOCK), (522, DOOR_LOCK), (45,
      MIXPAD_GATEWAY), (14, WIFI_CAMERA), (162, CAMERA_NVR), (10086, LIGHT_VIRTUAL_GROUP), (38,
      DIM_COLOR_LIGHT), (52, CLOTHES_HORSE), (43, SIMPLE_ZIGBEE_LIGHT), (26, MOTION_SENSOR),
      (27, SMOKE_SENSOR), (25, GAS_SENSOR), (56, EMERGENCY_BUTTON), (54, WATER_LEAK_SENSOR),
      (150, SMART_REMOTE), (511, MIXPAD_4WAY_BASE), (502, DIMMABLE_LIGHT), (116,
      DIMMABLE_LIGHT), (46, DOOR_WINDOW_SENSOR), (516, VENTILATION_SYSTEM), (22,
      TEMP_HUMIDITY_SENSOR), (23, TEMP_HUMIDITY_SENSOR)]"

definition UI_MODEL_MAP :: "(string \<times> device_category) list" where
  "UI_MODEL_MAP =
     [(''lightStd'', MONO_LIGHT), (''colorTempLightStd'', CCT_LIGHT_STRIP), (''MIXSWITCH'', MIX_SWITCH),
      (''orb_wifi_clotheshorse_ultimate'', CLOTHES_HORSE)]"

definition CLASS_ID_MAP :: "(int \<times> device_category) list" where
  "CLASS_ID_MAP =
     [(426, MONO_LIGHT), (429, MONO_LIGHT), (436, CCT_LIGHT_STRIP), (424, BACH_SWITCH),
      (1107, BACH_SWITCH), (462, DOOR_LOCK), (463, DOOR_LOCK), (1114, VENTILATION_SYSTEM)]"

definition VERIFIED_DOOR_LOCK_MODELS :: "string list" where
  "VERIFIED_DOOR_LOCK_MODELS =
     [''112edf14194543ed90148ce3a447ad33'', ''dec7d494f0454110805c0d5f7e7cba73'']"

definition HIDDEN_CATEGORIES :: "device_category list" where
  "HIDDEN_CATEGORIES = [MIXPAD_GATEWAY, MIX_SWITCH, BACH_SWITCH, SMART_REMOTE, MIXPAD_4WAY_BASE]"

definition HARDWARE_VERIFIED_CATEGORIES :: "device_category list" where
  "HARDWARE_VERIFIED_CATEGORIES =
     [SIMPLE_ZIGBEE_LIGHT, ZIGBEE_CURTAIN, FAN_COIL_AC, MIX_SWITCH, MONO_LIGHT,
      CCT_LIGHT_STRIP, CCT_LIGHT, BACH_SWITCH, DOOR_LOCK, DIM_COLOR_LIGHT, LEGACY_LIGHT,
      CLOTHES_HORSE, MOTION_SENSOR, SMOKE_SENSOR, EMERGENCY_BUTTON, WATER_LEAK_SENSOR,
      GAS_SENSOR, DIMMABLE_LIGHT, ZIGBEE_DIMMABLE_LIGHT, TEMP_HUMIDITY_SENSOR,
      DOOR_WINDOW_SENSOR, FAST_MOVE_DIM_COLOR_LIGHT, VENTILATION_SYSTEM,
      ZIGBEE_ROLLING_SHUTTER, FLOOR_HEATING, LEGACY_FLOOR_HEATING, DREAM_CURTAIN]"

definition is_hidden_category :: "device_category \<Rightarrow> bool" where
  "is_hidden_category c \<longleftrightarrow> c \<in> set HIDDEN_CATEGORIES"

section \<open>Classification\<close>

text \<open>\<^verbatim>\<open>_safe_int\<close>: a value that is not a number reads as absent. An infinity is not caught.\<close>

definition safe_int :: "pyval \<Rightarrow> int option py" where
  "safe_int v = (if v = VNone then Inr None
     else catchE [TypeError, ValueError] (bindE (py_int v) (\<lambda>n. Inr (Some n))) None)"

record known_device_model =
  kd_names :: "string list"
  kd_internal_models :: "string list"

type_synonym model_catalog = "string \<Rightarrow> known_device_model option"

definition identify_known_device :: "model_catalog \<Rightarrow> dict \<Rightarrow> known_device_model option" where
  "identify_known_device catalog device =
     (case get device ''model'' of VStr m \<Rightarrow> catalog (py_strip m) | _ \<Rightarrow> None)"

definition first_key :: "dict \<Rightarrow> string \<Rightarrow> string \<Rightarrow> pyval" where
  "first_key device k k' = (let v = get device k in if v = VNone then get device k' else v)"

text \<open>The branch for type 112: the floor-heating panel is known by its UI model or its exact model.\<close>

definition ui_model_112 :: "dict \<Rightarrow> pyval" where
  "ui_model_112 device =
     (let m = get device ''ui_model''
      in if \<not> truthy m then (case get device ''ui'' of VDict ui \<Rightarrow> get ui ''model'' | _ \<Rightarrow> m) else m)"

text \<open>The ui.model of the fallback, with Python's precedence of the conditional expression:
  \<^verbatim>\<open>(ui_model or ui["model"]) if ui is a dict else ui_model\<close>.\<close>

definition ui_model_fallback :: "dict \<Rightarrow> pyval" where
  "ui_model_fallback device =
     (case get device ''ui'' of
        VDict ui \<Rightarrow> py_or (get device ''ui_model'') (get ui ''model'')
      | _ \<Rightarrow> get device ''ui_model'')"

definition classify_by_type :: "dict \<Rightarrow> int option \<Rightarrow> int option \<Rightarrow> device_category option" where
  "classify_by_type device device_type sub_type =
     (if device_type = Some 0 then Some ZIGBEE_DIMMABLE_LIGHT
      else if device_type = Some 102 then Some LEGACY_LIGHT
      else if device_type = Some 112 then
        Some (if sub_type = Some (- 2) \<and>
            (ui_model_112 device = VStr ''orb_floorheat'' \<or>
             get device ''model'' = VStr ''2ac836760da10748856a7e4eafb91efa'')
          then LEGACY_FLOOR_HEATING else UNKNOWN)
      else if device_type = Some 300 then
        Some (if sub_type = Some 481 then FLOOR_HEATING
          else if sub_type = Some 491 then TEMP_HUMIDITY_SENSOR else UNKNOWN)
      else if device_type = Some 503 then
        Some (if sub_type = Some 436 then CCT_LIGHT_STRIP
          else if sub_type = Some 461 then CCT_LIGHT else UNKNOWN)
      else if device_type = Some 107 then Some DOOR_LOCK
      else if device_type = Some 522 then Some DOOR_LOCK
      else if device_type = Some 501 then
        Some (if sub_type = Some 426 \<or> sub_type = Some 429 then MONO_LIGHT else UNKNOWN)
      else if device_type = Some 502 then
        Some (if sub_type = Some 431 then DIMMABLE_LIGHT else UNKNOWN)
      else if device_type = Some 506 \<and> sub_type = Some 408 then Some DREAM_CURTAIN
      else case device_type of None \<Rightarrow> None
        | Some t \<Rightarrow> (case map_of DEVICE_TYPE_MAP t of None \<Rightarrow> None
            | Some c \<Rightarrow> Some (if t = 38 \<and> sub_type = Some 6 then FAST_MOVE_DIM_COLOR_LIGHT else c)))"

text \<open>The fallbacks: status type, ui.model, class id, and the catalogue.\<close>

definition classify_fallback :: "model_catalog \<Rightarrow> dict \<Rightarrow> int option \<Rightarrow> device_category py" where
  "classify_fallback catalog device sub_type =
     bindE (safe_int (py_or (get device ''status_type'') (get device ''statusType''))) (\<lambda>status_type.
       if status_type = Some 2 \<and> sub_type = Some 6 then Inr FAST_MOVE_DIM_COLOR_LIGHT
       else case (case ui_model_fallback device of VStr m \<Rightarrow> map_of UI_MODEL_MAP m | _ \<Rightarrow> None) of
         Some c \<Rightarrow> Inr c
       | None \<Rightarrow>
         bindE (safe_int (first_key device ''class_id'' ''classId'')) (\<lambda>class_id.
           case (case class_id of None \<Rightarrow> None | Some n \<Rightarrow> map_of CLASS_ID_MAP n) of
             Some c \<Rightarrow> Inr c
           | None \<Rightarrow> Inr (if identify_known_device catalog device \<noteq> None then OTHER else UNKNOWN)))"

definition verified_lock_model :: "dict \<Rightarrow> bool" where
  "verified_lock_model device \<longleftrightarrow>
     (case get device ''model'' of VStr m \<Rightarrow> py_strip m \<in> set VERIFIED_DOOR_LOCK_MODELS | _ \<Rightarrow> False)"

definition classify_dict :: "model_catalog \<Rightarrow> dict \<Rightarrow> device_category py" where
  "classify_dict catalog device =
     bindE (safe_int (first_key device ''device_type_raw'' ''deviceType'')) (\<lambda>device_type.
     bindE (safe_int (first_key device ''sub_device_type'' ''subDeviceType'')) (\<lambda>sub_type.
       if verified_lock_model device then Inr DOOR_LOCK
       else case classify_by_type device device_type sub_type of
         Some c \<Rightarrow> Inr c
       | None \<Rightarrow> classify_fallback catalog device sub_type))"

definition classify_device :: "model_catalog \<Rightarrow> pyval \<Rightarrow> device_category py" where
  "classify_device catalog v = (case v of VDict device \<Rightarrow> classify_dict catalog device | _ \<Rightarrow> Inr UNKNOWN)"

section \<open>The profile\<close>

record device_profile =
  dp_category :: device_category
  dp_info :: category_info
  dp_hardware_verified :: bool
  dp_registration_only :: bool

definition static_control_supported :: "dict \<Rightarrow> bool" where
  "static_control_supported device \<longleftrightarrow>
     (let protocol = profile_for device
      in pp_device_type protocol = Some 116 \<or>
         (pp_dimmer_scale protocol \<noteq> None \<and> is_virtual_mixpad device) \<or>
         (pp_device_type protocol \<in> {Some 34, Some 35} \<and> pp_rf_curtain protocol))"

definition profile_of_category :: "model_catalog \<Rightarrow> dict \<Rightarrow> device_category \<Rightarrow> device_profile" where
  "profile_of_category catalog device category0 =
     (let known = identify_known_device catalog device;
          unverified = (category0 \<in> {UNKNOWN, OTHER} \<and> known \<noteq> None);
          category = (if unverified then OTHER else category0);
          info = (if unverified
            then \<lparr>ci_category = OTHER, ci_capabilities = [], ci_is_container = False\<rparr>
            else get_category_info category);
          static = static_control_supported device;
          verified = (category \<in> set HARDWARE_VERIFIED_CATEGORIES \<and> \<not> static)
      in \<lparr>dp_category = category, dp_info = info, dp_hardware_verified = verified,
          dp_registration_only = (\<not> (verified \<or> static) \<or> category = LIGHT_VIRTUAL_GROUP)\<rparr>)"

definition get_device_profile :: "model_catalog \<Rightarrow> pyval \<Rightarrow> device_profile py" where
  "get_device_profile catalog v =
     (case v of
        VDict device \<Rightarrow> bindE (classify_dict catalog device) (\<lambda>c. Inr (profile_of_category catalog device c))
      | _ \<Rightarrow> Inl AttributeError)"

end
