(* ===== verification/Control_Router.thy ===== *)
theory Control_Router
  imports Device_Types
begin

unbundle bit_operations_syntax

text \<open>
  \<^verbatim>\<open>control_router.py\<close>: the choice of the method, arguments and optimistic state for power,
  brightness and colour temperature, by category and protocol profile, without any I/O.

  A route is a value; the executor invokes it. The brightness and colour temperature the callers
  pass are ints; everything read from the current state is a decoded value of any type, so a
  comparison or a conversion may raise.
\<close>

section \<open>Routes\<close>

record control_route =
  rt_scope :: string
  rt_method :: string
  rt_args :: "pyval list"
  rt_kwargs :: dict
  rt_optimistic :: dict

definition ssl_route :: "string \<Rightarrow> pyval list \<Rightarrow> dict \<Rightarrow> dict \<Rightarrow> control_route" where
  "ssl_route method args kwargs optimistic =
     \<lparr>rt_scope = ''ssl'', rt_method = method, rt_args = args, rt_kwargs = kwargs, rt_optimistic = optimistic\<rparr>"

text \<open>\<^verbatim>\<open>n // v\<close> for an int \<open>n\<close> and a value that compared greater than zero.\<close>

fun floordiv_pos :: "int \<Rightarrow> pyval \<Rightarrow> pyval" where
  "floordiv_pos n (VInt m) = VInt (n div m)"
| "floordiv_pos n (VBool b) = VInt n"
| "floordiv_pos n (VFloat (Fin r)) = VFloat (to_double (of_int \<lfloor>of_int n / r\<rfloor>))"
| "floordiv_pos n v = VFloat (Fin 0)"

text \<open>\<^verbatim>\<open>1_000_000 // ct if ct > 0 else 370\<close>\<close>

definition mired_of :: "pyval \<Rightarrow> pyval py" where
  "mired_of ct = bindE (py_gt ct 0) (\<lambda>pos. Inr (if pos then floordiv_pos 1000000 ct else VInt 370))"

text \<open>\<^verbatim>\<open>normalize_brightness(v, maximum) or d\<close>\<close>

definition brightness_or :: "pyval \<Rightarrow> int \<Rightarrow> int \<Rightarrow> int" where
  "brightness_or v maximum d =
     (case normalize_brightness v maximum of None \<Rightarrow> d | Some n \<Rightarrow> if n = 0 then d else n)"

definition or_state :: "int option \<Rightarrow> dict \<Rightarrow> string \<Rightarrow> pyval" where
  "or_state given state k =
     (case given of Some n \<Rightarrow> VInt n | None \<Rightarrow> py_or (dget state k (VInt 0)) (VInt 0))"

definition has_dimmer_scale :: "dict option \<Rightarrow> bool" where
  "has_dimmer_scale device =
     (case device of None \<Rightarrow> False | Some d \<Rightarrow> pp_dimmer_scale (profile_for d) \<noteq> None)"

section \<open>Power\<close>

text \<open>The wire level a native dimmer is sent, and the top of its scale.\<close>

definition dimmer_maximum :: "dict \<Rightarrow> int" where
  "dimmer_maximum d = (if pp_dimmer_scale (profile_for d) = Some 120 then 120 else 255)"

definition sent_brightness :: "bool \<Rightarrow> dict \<Rightarrow> int option \<Rightarrow> dict \<Rightarrow> int" where
  "sent_brightness is_on state brightness d =
     (let cur = (case brightness of
          Some b \<Rightarrow> if is_on then Some (light_wire_from_ha b d)
            else normalize_brightness (get state ''brightness'') (dimmer_maximum d)
        | None \<Rightarrow> normalize_brightness (get state ''brightness'') (dimmer_maximum d))
      in if cur = None \<or> is_on \<and> cur = Some 0 then (if is_on then dimmer_maximum d else 0) else the cur)"

definition power_route ::
  "device_category \<Rightarrow> bool \<Rightarrow> dict \<Rightarrow> int option \<Rightarrow> int option \<Rightarrow> dict option \<Rightarrow> control_route py" where
  "power_route category is_on state brightness color_temp device =
     (if category = DIM_COLOR_LIGHT then
        (if \<not> is_on then Inr (ssl_route ''send_control_light'' [VBool False] [] [])
         else Inr (ssl_route ''send_control_light_colortemp''
           [py_or (or_state color_temp state ''color_temp'') (VInt 2700)]
           [(''brightness'', VInt (brightness_or (or_state brightness state ''brightness'') 255 255))] []))
      else if has_dimmer_scale device then
        (let d = the device; cur = sent_brightness is_on state brightness d
         in Inr (ssl_route ''send_control_zigbee_dimmable_light_onoff'' [VBool is_on]
              (dict_merge [(''brightness'', VInt cur)] (dimmer_retained_values state d))
              [(''brightness'', VInt cur), (''state'', VBool is_on)]))
      else if category \<in> {MONO_LIGHT, DIMMABLE_LIGHT} then
        Inr (ssl_route ''send_control_switch'' [VBool is_on] [] [])
      else if category = ZIGBEE_DIMMABLE_LIGHT then
        (let cur = brightness_or (or_state (if is_on then brightness else None) state ''brightness'') 255 0;
             cur = (if is_on \<and> cur = 0 then 255 else cur)
         in Inr (ssl_route ''send_control_zigbee_dimmable_light_onoff'' [VBool is_on]
              [(''brightness'', VInt cur)] []))
      else if category = FAST_MOVE_DIM_COLOR_LIGHT then
        (let cur = brightness_or (or_state (if is_on then brightness else None) state ''brightness'') 255 0;
             ct = or_state (if is_on then color_temp else None) state ''color_temp'';
             cur = (if is_on \<and> cur = 0 then 255 else cur);
             ct = (if is_on then py_or ct (VInt 2700) else ct)
         in bindE (mired_of ct) (\<lambda>mired.
              Inr (ssl_route ''send_control_fast_move_dim_color_light_onoff'' [VBool is_on]
                [(''brightness'', VInt cur), (''colortemp_mired'', mired)] [])))
      else if category \<in> {CCT_LIGHT, CCT_LIGHT_STRIP} then
        Inr (ssl_route ''send_control_cct_light_onoff'' [VBool is_on] [] [])
      else if category = FLOOR_HEATING then
        Inr (ssl_route ''send_control_floor_heating_power'' [VBool is_on] [] [])
      else if category = LEGACY_FLOOR_HEATING then
        (let packed = get state ''raw_value2''
         in if is_int packed
            then Inr (ssl_route ''send_control_legacy_floor_heating_power'' [VBool is_on]
                   [(''packed_state'', packed)] [])
            else bindE (py_int (py_or (get state ''current_temperature'') (VInt 0))) (\<lambda>local.
                 bindE (py_int (py_or (get state ''target_temperature'') (VInt 10))) (\<lambda>target.
                   Inr (ssl_route ''send_control_legacy_floor_heating_power'' [VBool is_on]
                     [(''packed_state'', VInt (push_bit 8 local OR target))] []))))
      else if category \<in> {SIMPLE_ZIGBEE_LIGHT, LEGACY_LIGHT, CCT_LIGHT_STRIP, LIGHT_VIRTUAL_GROUP} then
        Inr (ssl_route ''send_control_light'' [VBool is_on] [] [])
      else if category \<in> {ZIGBEE_CURTAIN, ZIGBEE_ROLLING_SHUTTER, LEGACY_CURTAIN} then
        (case device of
           Some d \<Rightarrow>
             if is_rf_curtain d then
               bindE (curtain_command (if is_on then ''open'' else ''close'') d None) (\<lambda>cmd.
                 Inr (ssl_route ''send_control_cover'' [VInt (if is_on then 100 else 0)]
                   [(''order'', cmd_order cmd), (''wire_value1'', cmd_value1 cmd)] []))
             else Inr (ssl_route ''send_control_cover'' [VInt (if is_on then 100 else 0)] [] [])
         | None \<Rightarrow> Inr (ssl_route ''send_control_cover'' [VInt (if is_on then 100 else 0)] [] []))
      else if category = FAN_COIL_AC then
        Inr \<lparr>rt_scope = ''coordinator_uid'', rt_method = ''_async_ac_control_raw'', rt_args = [],
          rt_kwargs =
            [(''value1'', VInt (if is_on then 0 else 1)),
             (''value2'', dget state ''ac_mode_raw'' (VInt 3)),
             (''value3'', dget state ''fan_speed_raw'' (VInt 1)),
             (''value4'', py_or (dget state ''value4'' (VInt 0)) (VInt (push_bit 16 2500))),
             (''order'', VStr (on_off is_on))], rt_optimistic = []\<rparr>
      else if category = CLOTHES_HORSE then
        Inr \<lparr>rt_scope = ''coordinator'', rt_method = ''async_clothes_horse_control'',
          rt_args = [VStr ''main_switch'', VStr (on_off is_on)], rt_kwargs = [], rt_optimistic = []\<rparr>
      else if category = VENTILATION_SYSTEM then
        Inr \<lparr>rt_scope = ''coordinator'', rt_method = ''async_ventilation_state_update'',
          rt_args = [VInt (if is_on then 0 else 50)], rt_kwargs = [], rt_optimistic = []\<rparr>
      else Inr (ssl_route ''send_control_light'' [VBool is_on] [] []))"

section \<open>Brightness and colour temperature\<close>

definition optimistic_on :: "int \<Rightarrow> dict" where
  "optimistic_on value = [(''brightness'', VInt value), (''state'', VBool True)]"

definition brightness_route ::
  "device_category \<Rightarrow> int \<Rightarrow> dict \<Rightarrow> pyval \<Rightarrow> dict option \<Rightarrow> control_route py" where
  "brightness_route category brightness state device_type_raw device =
     (if has_dimmer_scale device then
        (let value = light_wire_from_ha brightness (the device)
         in Inr (ssl_route ''send_control_zigbee_dimmable_light_brightness'' [VInt value]
              (dimmer_retained_values state (the device)) (optimistic_on value)))
      else if category = DIMMABLE_LIGHT then
        Inr (ssl_route ''send_control_dimmable_light_brightness'' [VInt brightness] []
          (optimistic_on brightness))
      else if category = ZIGBEE_DIMMABLE_LIGHT then
        (let value = max 1 (min brightness 255)
         in Inr (ssl_route ''send_control_zigbee_dimmable_light_brightness'' [VInt value] []
              (optimistic_on value)))
      else if category = FAST_MOVE_DIM_COLOR_LIGHT then
        (let value = max 1 (min brightness 255)
         in bindE (mired_of (py_or (dget state ''color_temp'' (VInt 0)) (VInt 2700))) (\<lambda>mired.
              Inr (ssl_route ''send_control_fast_move_dim_color_light_brightness'' [VInt value]
                [(''colortemp_mired'', mired)] (optimistic_on value))))
      else if category \<in> {CCT_LIGHT, CCT_LIGHT_STRIP} then
        Inr (ssl_route ''send_control_cct_light_brightness'' [VInt brightness] [] (optimistic_on brightness))
      else
        Inr (ssl_route ''send_control_light_colortemp''
          [py_or (dget state ''color_temp'' (VInt 0)) (VInt 2700)]
          [(''brightness'', VInt (if py_eq device_type_raw (VInt 503)
             then round_quotient (brightness * 255) 100 else brightness))]
          (optimistic_on brightness)))"

definition color_temp_route ::
  "device_category \<Rightarrow> int \<Rightarrow> dict \<Rightarrow> pyval \<Rightarrow> control_route" where
  "color_temp_route category color_temp_k state device_type_raw =
     (let optimistic = [(''color_temp'', VInt color_temp_k)]
      in if category \<in> {CCT_LIGHT, CCT_LIGHT_STRIP} then
           ssl_route ''send_control_cct_light_colortemp'' [VInt color_temp_k] [] optimistic
         else if category = FAST_MOVE_DIM_COLOR_LIGHT then
           ssl_route ''send_control_fast_move_dim_color_light_colortemp''
             [VInt (brightness_or (get state ''brightness'') 255 255)]
             [(''colortemp_mired'', VInt (if color_temp_k > 0 then 1000000 div color_temp_k else 370))]
             optimistic
         else
           (let maximum = (if py_eq device_type_raw (VInt 503) then 100 else 255);
                brightness = (case normalize_brightness (get state ''brightness'') maximum of
                    None \<Rightarrow> maximum | Some n \<Rightarrow> n)
            in ssl_route ''send_control_light_colortemp'' [VInt color_temp_k]
                 [(''brightness'', VInt (if py_eq device_type_raw (VInt 503)
                    then round_quotient (brightness * 255) 100 else brightness))] optimistic))"

lemmas route_defs = power_route_def brightness_route_def color_temp_route_def ssl_route_def

lemma ssl_route_simps [simp]:
  "rt_scope (ssl_route m a k p) = ''ssl''" "rt_method (ssl_route m a k p) = m"
  "rt_args (ssl_route m a k p) = a" "rt_kwargs (ssl_route m a k p) = k"
  "rt_optimistic (ssl_route m a k p) = p"
  by (simp_all add: ssl_route_def)

text \<open>The signature of every method a route may name: scope, name and number of positional arguments.\<close>

definition route_signatures :: "(string \<times> string \<times> nat) list" where
  "route_signatures =
     [(''ssl'', ''send_control_light'', 1), (''ssl'', ''send_control_light_colortemp'', 1),
      (''ssl'', ''send_control_zigbee_dimmable_light_onoff'', 1), (''ssl'', ''send_control_switch'', 1),
      (''ssl'', ''send_control_fast_move_dim_color_light_onoff'', 1),
      (''ssl'', ''send_control_cct_light_onoff'', 1), (''ssl'', ''send_control_floor_heating_power'', 1),
      (''ssl'', ''send_control_legacy_floor_heating_power'', 1), (''ssl'', ''send_control_cover'', 1),
      (''ssl'', ''send_control_zigbee_dimmable_light_brightness'', 1),
      (''ssl'', ''send_control_dimmable_light_brightness'', 1),
      (''ssl'', ''send_control_fast_move_dim_color_light_brightness'', 1),
      (''ssl'', ''send_control_cct_light_brightness'', 1),
      (''ssl'', ''send_control_cct_light_colortemp'', 1),
      (''ssl'', ''send_control_fast_move_dim_color_light_colortemp'', 1),
      (''coordinator_uid'', ''_async_ac_control_raw'', 0),
      (''coordinator'', ''async_clothes_horse_control'', 2),
      (''coordinator'', ''async_ventilation_state_update'', 1)]"

definition well_formed_route :: "control_route \<Rightarrow> bool" where
  "well_formed_route r \<longleftrightarrow> (rt_scope r, rt_method r, length (rt_args r)) \<in> set route_signatures"

lemma has_dimmer_scale_Some:
  "has_dimmer_scale device \<Longrightarrow> \<exists>d. device = Some d \<and> pp_dimmer_scale (profile_for d) \<in> {Some 120, Some 253, Some 255}"
  using dimmer_scale_values by (fastforce simp: has_dimmer_scale_def split: option.splits)

lemma well_formed_ssl_route [simp]:
  "well_formed_route (ssl_route m a k p) \<longleftrightarrow> (''ssl'', m, length a) \<in> set route_signatures"
  by (simp add: well_formed_route_def)

lemma route_signatures_mem [simp]:
  "(''ssl'', ''send_control_light'', Suc 0) \<in> set route_signatures"
  "(''ssl'', ''send_control_light_colortemp'', Suc 0) \<in> set route_signatures"
  "(''ssl'', ''send_control_zigbee_dimmable_light_onoff'', Suc 0) \<in> set route_signatures"
  "(''ssl'', ''send_control_switch'', Suc 0) \<in> set route_signatures"
  "(''ssl'', ''send_control_fast_move_dim_color_light_onoff'', Suc 0) \<in> set route_signatures"
  "(''ssl'', ''send_control_cct_light_onoff'', Suc 0) \<in> set route_signatures"
  "(''ssl'', ''send_control_floor_heating_power'', Suc 0) \<in> set route_signatures"
  "(''ssl'', ''send_control_legacy_floor_heating_power'', Suc 0) \<in> set route_signatures"
  "(''ssl'', ''send_control_cover'', Suc 0) \<in> set route_signatures"
  "(''ssl'', ''send_control_zigbee_dimmable_light_brightness'', Suc 0) \<in> set route_signatures"
  "(''ssl'', ''send_control_dimmable_light_brightness'', Suc 0) \<in> set route_signatures"
  "(''ssl'', ''send_control_fast_move_dim_color_light_brightness'', Suc 0) \<in> set route_signatures"
  "(''ssl'', ''send_control_cct_light_brightness'', Suc 0) \<in> set route_signatures"
  "(''ssl'', ''send_control_cct_light_colortemp'', Suc 0) \<in> set route_signatures"
  "(''ssl'', ''send_control_fast_move_dim_color_light_colortemp'', Suc 0) \<in> set route_signatures"
  by (simp_all add: route_signatures_def)

lemma power_route_well_formed: "ensures (power_route c is_on st b ct d) well_formed_route"
  unfolding power_route_def Let_def
  by (intro wp_intros; simp; simp add: well_formed_route_def route_signatures_def)

section \<open>Native dimmers\<close>

lemma power_route_dimmer:
  assumes "pp_dimmer_scale (profile_for d) \<noteq> None" "category \<noteq> DIM_COLOR_LIGHT"
  shows "power_route category is_on state brightness color_temp (Some d)
    = Inr (ssl_route ''send_control_zigbee_dimmable_light_onoff'' [VBool is_on]
        (dict_merge [(''brightness'', VInt (sent_brightness is_on state brightness d))]
           (dimmer_retained_values state d))
        [(''brightness'', VInt (sent_brightness is_on state brightness d)), (''state'', VBool is_on)])"
  using assms by (simp add: power_route_def has_dimmer_scale_def Let_def)

lemma light_wire_from_ha_bounds [bounds_intros]:
  assumes "pp_dimmer_scale (profile_for d) \<noteq> None"
  shows "1 \<le> light_wire_from_ha b d \<and> light_wire_from_ha b d \<le> dimmer_maximum d"
proof -
  define p where "p = max 1 (min 100 (scale_round b 100 255))"
  have p: "1 \<le> p" "p \<le> 100" by (auto simp: p_def)
  have w: "light_wire_from_ha b d = light_wire_brightness p d" by (simp add: light_wire_from_ha_def p_def)
  have "1 \<le> light_wire_brightness p d"
    using p rescale_255 [OF p] div_bounds [of 200 "240 * p + 100"] div_bounds [of 200 "506 * p + 100"]
    by (simp add: light_wire_brightness_eq)
  moreover have "light_wire_brightness p d \<le> dimmer_maximum d"
    using light_wire_brightness_bounds [of p d] light_wire_brightness_116 [of d p]
    by (auto simp: dimmer_maximum_def)
  ultimately show ?thesis using w by simp
qed

lemma sent_brightness_bounds [bounds_intros]:
  assumes "pp_dimmer_scale (profile_for d) \<noteq> None"
  shows "0 \<le> sent_brightness is_on state brightness d
    \<and> sent_brightness is_on state brightness d \<le> dimmer_maximum d
    \<and> (is_on \<longrightarrow> sent_brightness is_on state brightness d \<noteq> 0)"
  using light_wire_from_ha_bounds [OF assms]
    normalize_brightness_bounds [of "get state ''brightness''" "dimmer_maximum d"]
  by (auto simp: sent_brightness_def Let_def dimmer_maximum_def split: option.splits)
     (smt (verit))+

lemma retained_values_no_brightness: "''brightness'' \<notin> fst ` set (dimmer_retained_values st d)"
  using retained_field_keys [of st d "''raw_value3''" "''value3''"]
    retained_field_keys [of st d "''raw_value4''" "''value4''"]
  by (auto simp: dimmer_retained_values_def)

lemma mired_returns: "is_number v \<Longrightarrow> returns (mired_of v)"
  by (cases v) (auto simp: mired_of_def py_gt_def)

lemma mired_or_returns [simp]:
  "is_number v \<Longrightarrow> returns (mired_of v) \<and> returns (mired_of (py_or v (VInt 2700)))"
  by (auto simp: mired_returns py_or_def)

lemma curtain_open_close_returns:
  "returns (curtain_command (if b then ''open'' else ''close'') d None)"
  by (cases b) (simp_all add: curtain_command_def py_strip_def py_lower_def lower_char_def is_space_def
      byte_def Let_def)

section \<open>Properties\<close>

text \<open>Every route the three selectors return names a method of its scope with the number of
  positional arguments that method takes, for every category, state and device record.\<close>

lemma routes_well_formed:
  "ensures (power_route c is_on st b ct d) well_formed_route
   \<and> ensures (brightness_route c br st raw d) well_formed_route
   \<and> well_formed_route (color_temp_route c k st raw)"
proof (intro conjI)
  show "ensures (power_route c is_on st b ct d) well_formed_route"
    by (rule power_route_well_formed)
  show "ensures (brightness_route c br st raw d) well_formed_route"
    unfolding brightness_route_def Let_def by (intro wp_intros; simp)
  show "well_formed_route (color_temp_route c k st raw)"
    by (simp add: color_temp_route_def Let_def)
qed

text \<open>The power route of a native dimmer never sends a level outside its native scale, never
  switches a lamp on at level 0, and its optimistic state is the level and the power it sends.\<close>

lemma dimmer_power_in_scale:
  assumes "pp_dimmer_scale (profile_for d) \<noteq> None" "category \<noteq> DIM_COLOR_LIGHT"
    and "power_route category is_on state brightness color_temp (Some d) = Inr r"
  shows "\<exists>n. get (rt_kwargs r) ''brightness'' = VInt n
    \<and> 0 \<le> n \<and> n \<le> (if pp_dimmer_scale (profile_for d) = Some 120 then 120 else 255)
    \<and> (is_on \<longrightarrow> n \<noteq> 0)
    \<and> rt_optimistic r = [(''brightness'', VInt n), (''state'', VBool is_on)]"
proof -
  let ?n = "sent_brightness is_on state brightness d"
  have r: "r = ssl_route ''send_control_zigbee_dimmable_light_onoff'' [VBool is_on]
        (dict_merge [(''brightness'', VInt ?n)] (dimmer_retained_values state d))
        [(''brightness'', VInt ?n), (''state'', VBool is_on)]"
    using assms(3) power_route_dimmer [OF assms(1,2)] by simp
  have "get (rt_kwargs r) ''brightness'' = VInt ?n"
    using retained_values_no_brightness [of state d] unfolding r by (simp add: dget_def)
  then show ?thesis
    using sent_brightness_bounds [OF assms(1), of is_on state brightness] r by (auto simp: dimmer_maximum_def)
qed

text \<open>A route for power can fail only on a colour temperature that is not a number, and, for legacy
  floor heating, on temperatures \<^verbatim>\<open>int\<close> cannot read: in every other case a route is returned.\<close>

lemma power_route_returns:
  assumes "is_number (dget state ''color_temp'' (VInt 0)) \<or> get state ''color_temp'' = VNone"
    and "category \<noteq> LEGACY_FLOOR_HEATING"
  shows "returns (power_route category is_on state brightness color_temp device)"
proof -
  have "is_number (py_or (dget state ''color_temp'' (VInt 0)) (VInt 0))"
    using assms(1) by (auto simp: py_or_def dget_def split: option.splits)
  then have n: "is_number (or_state ct state ''color_temp'')" for ct
    by (auto simp: or_state_def split: option.splits)
  show ?thesis unfolding power_route_def Let_def
    using n assms(2) by (intro wp_intros; simp add: mired_returns curtain_open_close_returns)
qed

end
