(* ===== verification/Packet_Builders.thy ===== *)
theory Packet_Builders
  imports Control_Router
begin

text \<open>
  \<^verbatim>\<open>packet.py\<close>, class \<^verbatim>\<open>HomemateJsonData\<close>: the payload of every command the integration sends.

  A builder returns the payload dictionary in the source's key order. The two serial numbers it
  draws (a random one and the wall clock in milliseconds) are the fields \<open>serial_of\<close> and
  \<open>uni_serial_of\<close> of its first argument, with the user name and the device's identifiers. The other
  arguments arrive through dynamically typed calls, so a conversion may raise.
\<close>

record ids =
  user_of :: string
  dev_of :: string
  uid_of :: pyval
  serial_of :: int
  uni_serial_of :: int

section \<open>The common parts\<close>

definition identity_fields :: "ids \<Rightarrow> dict" where
  "identity_fields e =
     [(''uid'', uid_of e), (''userName'', VStr (user_of e)), (''deviceId'', VStr (dev_of e))]"

definition trailer_fields :: "int \<Rightarrow> ids \<Rightarrow> dict" where
  "trailer_fields cmd e =
     [(''cmd'', VInt cmd), (''serial'', VInt (serial_of e)), (''clientType'', VInt 1),
      (''uniSerial'', VInt (uni_serial_of e)), (''serverRecord'', VBool False),
      (''ver'', VStr SOFTWARE_VER), (''debugInfo'', VStr DEBUG_INFO)]"

definition value_fields :: "pyval \<Rightarrow> pyval \<Rightarrow> pyval \<Rightarrow> pyval \<Rightarrow> pyval \<Rightarrow> dict" where
  "value_fields ord v1 v2 v3 v4 =
     [(''order'', ord), (''value1'', v1), (''value2'', v2), (''value3'', v3), (''value4'', v4),
      (''delayTime'', VInt 0), (''qualityOfService'', VInt 1), (''defaultResponse'', VInt 1),
      (''propertyResponse'', VInt 0)]"

definition CMD_CONTROL :: int where "CMD_CONTROL = 15"

definition control_payload :: "ids \<Rightarrow> pyval \<Rightarrow> pyval \<Rightarrow> pyval \<Rightarrow> pyval \<Rightarrow> pyval \<Rightarrow> dict \<Rightarrow> dict" where
  "control_payload e ord v1 v2 v3 v4 props =
     identity_fields e @ [(''groupId'', VStr '''')] @ value_fields ord v1 v2 v3 v4 @ props @
     trailer_fields CMD_CONTROL e"

abbreviation on_off_val :: "pyval \<Rightarrow> pyval" where
  "on_off_val state \<equiv> VStr (if truthy state then ''on'' else ''off'')"

abbreviation active_low_val :: "pyval \<Rightarrow> pyval" where
  "active_low_val state \<equiv> VInt (if truthy state then 0 else 1)"

text \<open>\<^verbatim>\<open>round(v)\<close>\<close>

fun py_round :: "pyval \<Rightarrow> int py" where
  "py_round (VInt n) = Inr n"
| "py_round (VBool b) = Inr (if b then 1 else 0)"
| "py_round (VFloat (Fin r)) = Inr (round_half_even r)"
| "py_round (VFloat NaN) = Inl ValueError"
| "py_round (VFloat _) = Inl OverflowError"
| "py_round _ = Inl TypeError"

definition clamped :: "int \<Rightarrow> int \<Rightarrow> pyval \<Rightarrow> int py" where
  "clamped lo hi v = bindE (py_int v) (\<lambda>n. Inr (max lo (min n hi)))"

section \<open>Property controls\<close>

definition ssl_control_property :: "ids \<Rightarrow> dict \<Rightarrow> dict" where
  "ssl_control_property e props =
     control_payload e (VStr ''set property'') (VInt 0) (VInt 0) (VInt 0) (VInt 0)
       [(''properties'', VDict props)]"

definition ssl_control_switch :: "ids \<Rightarrow> pyval \<Rightarrow> dict py" where
  "ssl_control_switch e state =
     Inr (control_payload e (VStr ''set property'') (VInt 0) (VInt 0) (VInt 0) (VInt 0)
       [(''properties'', VDict [(''onoff'', VDict [(''status'', on_off_val state)])])])"

definition ssl_control_dimmable_light_brightness :: "ids \<Rightarrow> pyval \<Rightarrow> dict py" where
  "ssl_control_dimmable_light_brightness e brightness_percent =
     bindE (clamped 0 100 brightness_percent) (\<lambda>bri.
       Inr (control_payload e (VStr ''set property'') (VInt 0) (VInt 0) (VInt 0) (VInt 0)
         [(''properties'', VDict [(''brightness'', VDict [(''percent'', VInt bri)])])]))"

definition ssl_control_cct_light_onoff :: "ids \<Rightarrow> pyval \<Rightarrow> dict py" where
  "ssl_control_cct_light_onoff e state =
     Inr (control_payload e (VStr ''set property'') (VInt 0) (VInt 0) (VInt 0) (VInt 0)
       [(''properties'', VDict [(''onoff'', VDict [(''status'', on_off_val state)])])])"

definition ssl_control_cct_light_brightness :: "ids \<Rightarrow> pyval \<Rightarrow> dict py" where
  "ssl_control_cct_light_brightness e brightness_percent =
     bindE (clamped 0 100 brightness_percent) (\<lambda>bri.
       Inr (control_payload e (VStr ''set property'') (VInt 0) (VInt 0) (VInt 0) (VInt 0)
         [(''properties'', VDict [(''brightness'', VDict [(''percent'', VInt bri)])])]))"

definition ssl_control_cct_light_colortemp :: "ids \<Rightarrow> pyval \<Rightarrow> dict py" where
  "ssl_control_cct_light_colortemp e colortemp_k =
     bindE (clamped 2700 6500 colortemp_k) (\<lambda>ct.
       Inr (control_payload e (VStr ''set property'') (VInt 0) (VInt 0) (VInt 0) (VInt 0)
         [(''properties'', VDict [(''colorTemp'', VDict [(''value'', VInt ct)])])]))"

definition ssl_control_floor_heating_power :: "ids \<Rightarrow> pyval \<Rightarrow> dict py" where
  "ssl_control_floor_heating_power e state =
     Inr (ssl_control_property e [(''onoff'', VDict [(''status'', on_off_val state)])])"

definition ssl_control_floor_heating_temperature :: "ids \<Rightarrow> pyval \<Rightarrow> dict py" where
  "ssl_control_floor_heating_temperature e temperature =
     bindE (py_round temperature) (\<lambda>t.
       let target = max 8 (min 35 t)
       in Inr (ssl_control_property e [(''thermostat'', VDict [(''targetTemp'', VInt target)])]))"

text \<open>\<^verbatim>\<open>action not in {...}\<close>: a list or a dictionary cannot be hashed.\<close>

definition ssl_control_dream_curtain_action :: "ids \<Rightarrow> pyval \<Rightarrow> dict py" where
  "ssl_control_dream_curtain_action e action =
     (if action \<in> {VStr ''open'', VStr ''close'', VStr ''pause''}
      then Inr (ssl_control_property e [(''curtain'', VDict [(''action'', action)])])
      else case action of VList xs \<Rightarrow> Inl TypeError | VDict d \<Rightarrow> Inl TypeError | _ \<Rightarrow> Inl ValueError)"

definition ssl_control_dream_curtain_percent :: "ids \<Rightarrow> pyval \<Rightarrow> dict py" where
  "ssl_control_dream_curtain_percent e percent =
     bindE (clamped 0 100 percent) (\<lambda>position.
       Inr (ssl_control_property e [(''curtain'', VDict [(''percent'', VInt position)])]))"

definition ssl_control_dream_curtain_angle :: "ids \<Rightarrow> pyval \<Rightarrow> dict py" where
  "ssl_control_dream_curtain_angle e angle =
     bindE (clamped 0 180 angle) (\<lambda>v.
       Inr (ssl_control_property e [(''curtain'', VDict [(''angle'', VInt v)])]))"

section \<open>Controls by order and values\<close>

definition none_or_zero :: "pyval \<Rightarrow> pyval" where
  "none_or_zero v = (if v = VNone then VInt 0 else v)"

definition ssl_control_ac :: "ids \<Rightarrow> pyval \<Rightarrow> pyval \<Rightarrow> pyval \<Rightarrow> pyval \<Rightarrow> pyval \<Rightarrow> dict py" where
  "ssl_control_ac e ord value1 value2 value3 value4 =
     Inr (control_payload e ord (none_or_zero value1) (none_or_zero value2) (none_or_zero value3)
       (none_or_zero value4) [])"

definition ssl_control_zigbee_dimmable_light_onoff ::
  "ids \<Rightarrow> pyval \<Rightarrow> pyval \<Rightarrow> pyval \<Rightarrow> pyval \<Rightarrow> dict py" where
  "ssl_control_zigbee_dimmable_light_onoff e state brightness value3 value4 =
     bindE (clamped 0 255 brightness) (\<lambda>bri.
       Inr (control_payload e (on_off_val state) (active_low_val state) (VInt bri) value3 value4 []))"

definition ssl_control_zigbee_dimmable_light_brightness ::
  "ids \<Rightarrow> pyval \<Rightarrow> pyval \<Rightarrow> pyval \<Rightarrow> dict py" where
  "ssl_control_zigbee_dimmable_light_brightness e brightness_255 value3 value4 =
     bindE (clamped 1 255 brightness_255) (\<lambda>bri.
       Inr (control_payload e (VStr ''move to level'') (VInt 0) (VInt bri) value3 value4 []))"

definition ssl_control_fast_move_dim_color_light_onoff ::
  "ids \<Rightarrow> pyval \<Rightarrow> pyval \<Rightarrow> pyval \<Rightarrow> dict py" where
  "ssl_control_fast_move_dim_color_light_onoff e state brightness colortemp_mired =
     bindE (py_int brightness) (\<lambda>b.
     bindE (py_int colortemp_mired) (\<lambda>ct.
       Inr (control_payload e (on_off_val state) (active_low_val state) (VInt b) (VInt ct) (VInt 0)
         [(''properties'', VDict [])])))"

definition ssl_control_fast_move_dim_color_light_brightness :: "ids \<Rightarrow> pyval \<Rightarrow> pyval \<Rightarrow> dict py" where
  "ssl_control_fast_move_dim_color_light_brightness e brightness colortemp_mired =
     bindE (clamped 0 255 brightness) (\<lambda>bri.
     bindE (py_int colortemp_mired) (\<lambda>ct.
       Inr (control_payload e (VStr ''fast move to level'') (VInt 0) (VInt bri) (VInt ct) (VInt 0)
         [(''properties'', VDict [])])))"

definition ssl_control_fast_move_dim_color_light_colortemp :: "ids \<Rightarrow> pyval \<Rightarrow> pyval \<Rightarrow> dict py" where
  "ssl_control_fast_move_dim_color_light_colortemp e brightness colortemp_mired =
     bindE (clamped 0 255 brightness) (\<lambda>bri.
     bindE (py_int colortemp_mired) (\<lambda>ct.
       Inr (control_payload e (VStr ''fast color temperature'') (VInt 0) (VInt bri) (VInt ct) (VInt 0)
         [(''properties'', VDict [])])))"

text \<open>The one builder without \<^verbatim>\<open>groupId\<close>.\<close>

definition ssl_control_light :: "ids \<Rightarrow> pyval \<Rightarrow> pyval \<Rightarrow> pyval \<Rightarrow> dict py" where
  "ssl_control_light e state brightness colortemp_mired =
     Inr (identity_fields e @
       value_fields (on_off_val state) (active_low_val state) brightness colortemp_mired (VInt 0) @
       trailer_fields CMD_CONTROL e)"

definition ssl_control_cover :: "ids \<Rightarrow> pyval \<Rightarrow> pyval \<Rightarrow> pyval \<Rightarrow> pyval \<Rightarrow> dict py" where
  "ssl_control_cover e position stop_value2 ord wire_value1 =
     bindE
       (if ord \<noteq> VNone
        then bindE (py_int (if wire_value1 \<noteq> VNone then wire_value1 else position)) (\<lambda>n. Inr (ord, n))
        else if position = VStr ''stop'' then Inr (VStr ''stop'', 0)
        else bindE (py_int position) (\<lambda>n. Inr (VStr ''open'', n)))
       (\<lambda>(ord, value1).
         Inr (control_payload e ord (VInt value1)
           (if ord = VStr ''stop'' then stop_value2 else VInt 0) (VInt 0) (VInt 0) []))"

definition ssl_control_legacy_floor_heating :: "ids \<Rightarrow> pyval \<Rightarrow> pyval \<Rightarrow> pyval \<Rightarrow> dict py" where
  "ssl_control_legacy_floor_heating e ord value1 value2 =
     bindE (py_int value1) (\<lambda>v1. bindE (py_int value2) (\<lambda>v2.
       Inr (control_payload e ord (VInt v1) (VInt v2) (VInt 0) (VInt 0) [])))"

definition ssl_control_ventilation :: "ids \<Rightarrow> pyval \<Rightarrow> dict py" where
  "ssl_control_ventilation e value1 =
     Inr (control_payload e (VStr ''set property'') value1 (VInt 0) (VInt 0) (VInt 0) [])"

definition ssl_control_light_brightness :: "ids \<Rightarrow> pyval \<Rightarrow> dict py" where
  "ssl_control_light_brightness e brightness =
     bindE (py_int brightness) (\<lambda>b.
       Inr (control_payload e (VStr ''on'') (VInt 0) (VInt (min b 255)) (VInt 0) (VInt 0) []))"

definition ssl_control_light_colortemp :: "ids \<Rightarrow> pyval \<Rightarrow> pyval \<Rightarrow> dict py" where
  "ssl_control_light_colortemp e colortemp_k brightness =
     bindE (py_gt colortemp_k 0) (\<lambda>pos.
       let mired = (if pos then floordiv_pos 1000000 colortemp_k else VInt 0)
       in bindE (if truthy brightness then bindE (py_int brightness) (\<lambda>b. Inr (min b 255)) else Inr 0)
         (\<lambda>bri. Inr (control_payload e (VStr ''fast color temperature'') (VInt 0) (VInt bri) mired (VInt 0) [])))"

definition ssl_control_light_full :: "ids \<Rightarrow> pyval \<Rightarrow> pyval \<Rightarrow> pyval \<Rightarrow> dict py" where
  "ssl_control_light_full e brightness colortemp_k is_on =
     bindE (if truthy colortemp_k then py_gt colortemp_k 0 else Inr False) (\<lambda>pos.
       Inr (control_payload e (on_off_val is_on) (active_low_val is_on)
         (if truthy brightness then brightness else VInt 0)
         (if pos then colortemp_k else VInt 0) (VInt 0) []))"

section \<open>Session and other commands\<close>

definition ssl_get_session :: "string \<Rightarrow> int \<Rightarrow> int \<Rightarrow> dict" where
  "ssl_get_session identifier serial uni_serial =
     [(''source'', VStr ''ZhiJia365''), (''softwareVersion'', VStr ''50103309''),
      (''sysVersion'', VStr ''Android14_34''), (''hardwareVersion'', VStr ''Google Pixel 8''),
      (''language'', VStr ''zh''), (''identifier'', VStr identifier), (''phoneName'', VStr ''Pixel 8''),
      (''cmd'', VInt 0), (''serial'', VInt serial), (''clientType'', VInt 1),
      (''uniSerial'', VInt uni_serial), (''serverRecord'', VBool False),
      (''ver'', VStr SOFTWARE_VER), (''debugInfo'', VStr DEBUG_INFO)]"

text \<open>A dictionary literal whose first computed key may repeat a later one: the later value wins.\<close>

definition ssl_clothes_horse_control :: "ids \<Rightarrow> string \<Rightarrow> pyval \<Rightarrow> dict" where
  "ssl_clothes_horse_control e ctrl_field ctrl_value =
     dict_merge (AList.update ctrl_field ctrl_value (identity_fields e)) (trailer_fields 98 e)"

definition ssl_clothes_horse_query :: "ids \<Rightarrow> dict" where
  "ssl_clothes_horse_query e =
     (''deviceList'', VList [VDict [(''deviceId'', VStr (dev_of e))]]) # trailer_fields 100 e"

definition ssl_login :: "string \<Rightarrow> string \<Rightarrow> string \<Rightarrow> int \<Rightarrow> dict" where
  "ssl_login user password_md5 family_id serial =
     [(''userName'', VStr user), (''password'', VStr password_md5), (''cmd'', VInt 2),
      (''serial'', VInt serial), (''clientType'', VInt 1), (''source'', VStr SOFTWARE_VER),
      (''familyId'', VStr family_id), (''type'', VInt 4), (''needAccountDetailError'', VBool True)]"

definition ssl_heartbeat :: "ids \<Rightarrow> dict" where
  "ssl_heartbeat e = trailer_fields 32 e"

definition ssl_temp_password ::
  "ids \<Rightarrow> string \<Rightarrow> int \<Rightarrow> int \<Rightarrow> int \<Rightarrow> string \<Rightarrow> int \<Rightarrow> int \<Rightarrow> dict" where
  "ssl_temp_password e name auth_type minutes num phone start_time end_time =
     [(''deviceId'', VStr (dev_of e)), (''uid'', uid_of e), (''userName'', VStr name),
      (''type'', VInt auth_type), (''effectTime'', VInt minutes), (''startTime'', VInt start_time),
      (''endTime'', VInt end_time), (''number'', VInt num), (''phone'', VStr phone)] @
     trailer_fields 246 e"

definition ssl_delete_authorization :: "ids \<Rightarrow> int \<Rightarrow> dict" where
  "ssl_delete_authorization e authorized_id =
     [(''uid'', uid_of e), (''deviceId'', VStr (dev_of e)), (''userId'', VInt authorized_id)] @
     trailer_fields 247 e"

lemmas builder_defs = ssl_control_property_def ssl_control_switch_def
  ssl_control_dimmable_light_brightness_def ssl_control_cct_light_onoff_def
  ssl_control_cct_light_brightness_def ssl_control_cct_light_colortemp_def
  ssl_control_floor_heating_power_def ssl_control_floor_heating_temperature_def
  ssl_control_dream_curtain_action_def ssl_control_dream_curtain_percent_def
  ssl_control_dream_curtain_angle_def ssl_control_ac_def
  ssl_control_zigbee_dimmable_light_onoff_def ssl_control_zigbee_dimmable_light_brightness_def
  ssl_control_fast_move_dim_color_light_onoff_def ssl_control_fast_move_dim_color_light_brightness_def
  ssl_control_fast_move_dim_color_light_colortemp_def ssl_control_cover_def
  ssl_control_legacy_floor_heating_def ssl_control_ventilation_def ssl_control_light_brightness_def
  ssl_control_light_colortemp_def ssl_control_light_full_def

section \<open>What every control payload has\<close>

lemma clamped_ensures [wp_intros]:
  "lo \<le> hi \<Longrightarrow> (\<And>n. lo \<le> n \<Longrightarrow> n \<le> hi \<Longrightarrow> Q n) \<Longrightarrow> ensures (clamped lo hi v) Q"
  by (auto simp: clamped_def ensures_def)

lemma clamped_int [simp]: "clamped lo hi (VInt n) = Inr (max lo (min n hi))"
  by (simp add: clamped_def)

text \<open>A dictionary of decoded JSON: keys occur once.\<close>

definition control_fields :: "string list" where
  "control_fields = [''order'', ''value1'', ''value2'', ''value3'', ''value4'', ''delayTime'',
     ''qualityOfService'', ''defaultResponse'', ''propertyResponse'']"

definition control_message :: "ids \<Rightarrow> dict \<Rightarrow> bool" where
  "control_message e p \<longleftrightarrow> distinct (map fst p)
     \<and> get p ''cmd'' = VInt CMD_CONTROL \<and> map_of p ''uid'' = Some (uid_of e)
     \<and> get p ''deviceId'' = VStr (dev_of e) \<and> get p ''userName'' = VStr (user_of e)
     \<and> get p ''serial'' = VInt (serial_of e) \<and> get p ''uniSerial'' = VInt (uni_serial_of e)
     \<and> list_all (has_key p) control_fields"

lemma control_message_payload [simp]:
  "control_message e (control_payload e ord v1 v2 v3 v4 [])"
  "control_message e (control_payload e ord v1 v2 v3 v4 [(''properties'', ps)])"
  by (simp_all add: control_message_def control_payload_def identity_fields_def value_fields_def
      trailer_fields_def control_fields_def)

lemma control_message_light [simp]:
  "control_message e (identity_fields e @ value_fields ord v1 v2 v3 v4 @ trailer_fields CMD_CONTROL e)"
  by (simp add: control_message_def identity_fields_def value_fields_def trailer_fields_def control_fields_def)

lemma control_message_property [simp]: "control_message e (ssl_control_property e ps)"
  by (simp add: ssl_control_property_def)

lemma builders_make_control_messages [simp]:
  "ensures (ssl_control_switch e state) (control_message e)"
  "ensures (ssl_control_dimmable_light_brightness e pct) (control_message e)"
  "ensures (ssl_control_cct_light_onoff e state) (control_message e)"
  "ensures (ssl_control_cct_light_brightness e pct) (control_message e)"
  "ensures (ssl_control_cct_light_colortemp e k) (control_message e)"
  "ensures (ssl_control_floor_heating_power e state) (control_message e)"
  "ensures (ssl_control_floor_heating_temperature e t) (control_message e)"
  "ensures (ssl_control_dream_curtain_action e action) (control_message e)"
  "ensures (ssl_control_dream_curtain_percent e pct) (control_message e)"
  "ensures (ssl_control_dream_curtain_angle e angle) (control_message e)"
  "ensures (ssl_control_ac e ord v1 v2 v3 v4) (control_message e)"
  "ensures (ssl_control_zigbee_dimmable_light_onoff e state br v3 v4) (control_message e)"
  "ensures (ssl_control_zigbee_dimmable_light_brightness e br v3 v4) (control_message e)"
  "ensures (ssl_control_fast_move_dim_color_light_onoff e state br ct) (control_message e)"
  "ensures (ssl_control_fast_move_dim_color_light_brightness e br ct) (control_message e)"
  "ensures (ssl_control_fast_move_dim_color_light_colortemp e br ct) (control_message e)"
  "ensures (ssl_control_light e state br ct) (control_message e)"
  "ensures (ssl_control_cover e position stop2 ord wire) (control_message e)"
  "ensures (ssl_control_legacy_floor_heating e ord v1 v2) (control_message e)"
  "ensures (ssl_control_ventilation e v1) (control_message e)"
  "ensures (ssl_control_light_brightness e br) (control_message e)"
  "ensures (ssl_control_light_colortemp e k br) (control_message e)"
  "ensures (ssl_control_light_full e br k is_on) (control_message e)"
  by (simp_all add: builder_defs ssl_control_light_def Let_def split: pyval.splits prod.splits)

definition property_of :: "dict \<Rightarrow> string \<Rightarrow> string \<Rightarrow> pyval" where
  "property_of p grp field =
     (case get p ''properties'' of VDict d \<Rightarrow> (case get d grp of VDict g \<Rightarrow> get g field | _ \<Rightarrow> VNone)
      | _ \<Rightarrow> VNone)"

definition in_range :: "int \<Rightarrow> int \<Rightarrow> pyval \<Rightarrow> bool" where
  "in_range lo hi v \<longleftrightarrow> (case v of VInt n \<Rightarrow> lo \<le> n \<and> n \<le> hi | _ \<Rightarrow> False)"

lemma in_range_int [simp]: "in_range lo hi (VInt n) \<longleftrightarrow> lo \<le> n \<and> n \<le> hi"
  by (simp add: in_range_def)

lemma payload_reads [simp]:
  "property_of (control_payload e ord v1 v2 v3 v4 [(''properties'', VDict [(g, VDict [(f, v)])])]) g f = v"
  "property_of (ssl_control_property e [(g, VDict [(f, v)])]) g f = v"
  "get (control_payload e ord v1 v2 v3 v4 ps) ''value2'' = v2"
  by (simp_all add: property_of_def ssl_control_property_def control_payload_def identity_fields_def value_fields_def)

section \<open>Properties\<close>

text \<open>Whatever value a caller hands to a builder, the level that goes on the wire is in the range of
  its field: percentages and curtain positions in 0..100, colour temperatures in 2700..6500 K, floor
  heating targets in 8..35 degrees, curtain angles in 0..180, dimmer levels in 0..255 (1..255 for a
  move to a level).\<close>

lemma wire_levels_in_range:
  "ensures (ssl_control_dimmable_light_brightness e v) (\<lambda>p. in_range 0 100 (property_of p ''brightness'' ''percent''))
   \<and> ensures (ssl_control_cct_light_brightness e v) (\<lambda>p. in_range 0 100 (property_of p ''brightness'' ''percent''))
   \<and> ensures (ssl_control_cct_light_colortemp e v) (\<lambda>p. in_range 2700 6500 (property_of p ''colorTemp'' ''value''))
   \<and> ensures (ssl_control_floor_heating_temperature e v) (\<lambda>p. in_range 8 35 (property_of p ''thermostat'' ''targetTemp''))
   \<and> ensures (ssl_control_dream_curtain_percent e v) (\<lambda>p. in_range 0 100 (property_of p ''curtain'' ''percent''))
   \<and> ensures (ssl_control_dream_curtain_angle e v) (\<lambda>p. in_range 0 180 (property_of p ''curtain'' ''angle''))
   \<and> ensures (ssl_control_zigbee_dimmable_light_onoff e st v v3 v4) (\<lambda>p. in_range 0 255 (get p ''value2''))
   \<and> ensures (ssl_control_zigbee_dimmable_light_brightness e v v3 v4) (\<lambda>p. in_range 1 255 (get p ''value2''))"
  by (intro conjI) (auto simp: ssl_control_dimmable_light_brightness_def ssl_control_cct_light_brightness_def
      ssl_control_cct_light_colortemp_def ssl_control_floor_heating_temperature_def
      ssl_control_dream_curtain_percent_def ssl_control_dream_curtain_angle_def
      ssl_control_zigbee_dimmable_light_onoff_def ssl_control_zigbee_dimmable_light_brightness_def
      Let_def ensures_def clamped_def)

text \<open>The two generations of payload code agree.\<close>

definition string_ids :: "string \<Rightarrow> string \<Rightarrow> string \<Rightarrow> int \<Rightarrow> int \<Rightarrow> ids" where
  "string_ids user dev uid s us =
     \<lparr>user_of = user, dev_of = dev, uid_of = VStr uid, serial_of = s, uni_serial_of = us\<rparr>"

definition same_payload :: "dict \<Rightarrow> dict py \<Rightarrow> bool" where
  "same_payload p q \<longleftrightarrow> (case q of Inl e \<Rightarrow> False | Inr q \<Rightarrow> (\<forall>k. map_of p k = map_of q k))"

lemma same_payloadI:
  assumes "q = Inr q'" "distinct (map fst p)" "distinct (map fst q')" "set p = set q'"
  shows "same_payload p q"
  using assms map_of_inject_set [of p q'] by (simp add: same_payload_def)

lemma build_control_payload_list:
  "build_control_payload (property_command ps) d u n s (Some us) =
     [(''uid'', VStr u), (''userName'', VStr n), (''deviceId'', VStr d), (''order'', VStr ''set property''),
      (''value1'', VInt 0), (''value2'', VInt 0), (''value3'', VInt 0), (''value4'', VInt 0),
      (''serial'', VInt s), (''uniSerial'', VInt us)] @ DEFAULT_PAYLOAD_HEADERS @
     (if ps = [] then [] else [(''properties'', VDict ps)])"
  by (simp add: build_control_payload_def property_command_def mk_command_def DEFAULT_PAYLOAD_HEADERS_def)

lemma property_payload_agrees:
  assumes "ps \<noteq> []"
  shows "same_payload (build_control_payload (property_command ps) d u n s (Some us))
    (Inr (ssl_control_property (string_ids n d u s us) ps))"
  using assms
  by (intro same_payloadI [OF refl])
     (auto simp: build_control_payload_list DEFAULT_PAYLOAD_HEADERS_def ssl_control_property_def
      control_payload_def identity_fields_def value_fields_def trailer_fields_def string_ids_def CMD_CONTROL_def)

text \<open>The declarative commands of \<^verbatim>\<open>control.py\<close> and the hand-written payloads of \<^verbatim>\<open>packet.py\<close> agree:
  for every property control the two modules both offer, the assembled command and the built packet
  hold the same value under every key, whatever the arguments.\<close>

lemma command_and_packet_agree:
  "same_payload (build_control_payload (switch_power_command b) d u n s (Some us))
     (ssl_control_switch (string_ids n d u s us) (VBool b))
   \<and> same_payload (build_control_payload (dimmable_light_brightness_command pct) d u n s (Some us))
     (ssl_control_dimmable_light_brightness (string_ids n d u s us) (VInt pct))
   \<and> same_payload (build_control_payload (cct_light_power_command b) d u n s (Some us))
     (ssl_control_cct_light_onoff (string_ids n d u s us) (VBool b))
   \<and> same_payload (build_control_payload (cct_light_brightness_command pct) d u n s (Some us))
     (ssl_control_cct_light_brightness (string_ids n d u s us) (VInt pct))
   \<and> same_payload (build_control_payload (cct_light_colortemp_command k) d u n s (Some us))
     (ssl_control_cct_light_colortemp (string_ids n d u s us) (VInt k))"
  using property_payload_agrees [of "[(''onoff'', VDict [(''status'', VStr (on_off b))])]" d u n s us]
    property_payload_agrees [of "[(''brightness'', VDict [(''percent'', VInt (clamp 0 100 pct))])]" d u n s us]
    property_payload_agrees [of "[(''colorTemp'', VDict [(''value'', VInt (clamp 2700 6500 k))])]" d u n s us]
  by (simp add: switch_power_command_def dimmable_light_brightness_command_def cct_light_power_command_def
      cct_light_brightness_command_def cct_light_colortemp_command_def ssl_control_switch_def
      ssl_control_dimmable_light_brightness_def ssl_control_cct_light_onoff_def
      ssl_control_cct_light_brightness_def ssl_control_cct_light_colortemp_def ssl_control_property_def
      KELVIN_MIN_def KELVIN_MAX_def clamp_def min.commute)

end
