(* ===== verification/Effects.thy ===== *)
theory Effects
  imports Prelude
begin

text \<open>
  Code with effects: a function of the world it runs in, which returns a value or raises, and the
  world it leaves behind. An exception keeps the effects made before it.
\<close>

type_synonym ('w, 'a) io = "'w \<Rightarrow> 'a py \<times> 'w"

definition retS :: "'a \<Rightarrow> ('w, 'a) io" where
  "retS x w = (Inr x, w)"

definition raiseS :: "py_exn \<Rightarrow> ('w, 'a) io" where
  "raiseS e w = (Inl e, w)"

definition liftE :: "'a py \<Rightarrow> ('w, 'a) io" where
  "liftE m w = (m, w)"

definition bindS :: "('w, 'a) io \<Rightarrow> ('a \<Rightarrow> ('w, 'b) io) \<Rightarrow> ('w, 'b) io" where
  "bindS m f w = (case m w of (Inl e, w') \<Rightarrow> (Inl e, w') | (Inr x, w') \<Rightarrow> f x w')"

text \<open>\<^verbatim>\<open>try: m except Exception: h\<close>\<close>

definition catchS :: "('w, 'a) io \<Rightarrow> (py_exn \<Rightarrow> ('w, 'a) io) \<Rightarrow> ('w, 'a) io" where
  "catchS m h w = (case m w of (Inl e, w') \<Rightarrow> h e w' | (Inr x, w') \<Rightarrow> (Inr x, w'))"

text \<open>\<^verbatim>\<open>except Exception\<close>: \<^verbatim>\<open>CancelledError\<close>, which ends a task, is no \<^verbatim>\<open>Exception\<close>.\<close>

definition cancelled_error :: py_exn where "cancelled_error = OtherError ''CancelledError''"

definition except_any :: "('w, 'a) io \<Rightarrow> (py_exn \<Rightarrow> ('w, 'a) io) \<Rightarrow> ('w, 'a) io" where
  "except_any m h = catchS m (\<lambda>e. if e = cancelled_error then raiseS e else h e)"

definition getS :: "('w \<Rightarrow> 'a) \<Rightarrow> ('w, 'a) io" where
  "getS f w = (Inr (f w), w)"

definition modifyS :: "('w \<Rightarrow> 'w) \<Rightarrow> ('w, unit) io" where
  "modifyS f w = (Inr (), f w)"

named_theorems io_simps "running effectful code"

lemma retS_run [io_simps, simp]: "retS x w = (Inr x, w)" by (simp add: retS_def)
lemma raiseS_run [io_simps, simp]: "raiseS e w = (Inl e, w)" by (simp add: raiseS_def)
lemma liftE_run [io_simps, simp]: "liftE m w = (m, w)" by (simp add: liftE_def)
lemma getS_run [io_simps, simp]: "getS f w = (Inr (f w), w)" by (simp add: getS_def)
lemma modifyS_run [io_simps, simp]: "modifyS f w = (Inr (), f w)" by (simp add: modifyS_def)

lemma bindS_run [io_simps]:
  "m w = (Inl e, w') \<Longrightarrow> bindS m f w = (Inl e, w')"
  "m w = (Inr x, w') \<Longrightarrow> bindS m f w = f x w'"
  by (simp_all add: bindS_def)

lemma bindS_simps [simp]:
  "bindS (retS x) f = f x"
  "bindS (raiseS e) f = raiseS e"
  "bindS (liftE (Inr x)) f = f x"
  "bindS (liftE (Inl e)) f = raiseS e"
  by (auto simp: fun_eq_iff bindS_def)

lemma bindS_getS [simp]: "bindS (getS g) f w = f (g w) w"
  by (simp add: bindS_def)

lemma bindS_modifyS [simp]: "bindS (modifyS g) f w = f () (g w)"
  by (simp add: bindS_def)

text \<open>\<open>post m w Q\<close>: the run of \<open>m\<close> in \<open>w\<close> ends in an outcome and a world that satisfy \<open>Q\<close>.\<close>

definition post :: "('w, 'a) io \<Rightarrow> 'w \<Rightarrow> ('a py \<Rightarrow> 'w \<Rightarrow> bool) \<Rightarrow> bool" where
  "post m w Q = (case m w of (r, w') \<Rightarrow> Q r w')"

lemma post_simps [simp]:
  "post (retS x) w Q = Q (Inr x) w"
  "post (raiseS e) w Q = Q (Inl e) w"
  "post (liftE r) w Q = Q r w"
  "post (getS g) w Q = Q (Inr (g w)) w"
  "post (modifyS g) w Q = Q (Inr ()) (g w)"
  by (simp_all add: post_def)

lemma post_bindS:
  "post (bindS m f) w Q
     = post m w (\<lambda>r w'. case r of Inl e \<Rightarrow> Q (Inl e) w' | Inr x \<Rightarrow> post (f x) w' Q)"
  by (auto simp: post_def bindS_def split: prod.splits sum.splits)

lemma post_catchS:
  "post (catchS m h) w Q
     = post m w (\<lambda>r w'. case r of Inl e \<Rightarrow> post (h e) w' Q | Inr x \<Rightarrow> Q (Inr x) w')"
  by (auto simp: post_def catchS_def split: prod.splits sum.splits)

lemma except_any_run:
  "m w = (Inl e, w') \<Longrightarrow> except_any m h w = (if e = cancelled_error then (Inl e, w') else h e w')"
  "m w = (Inr x, w') \<Longrightarrow> except_any m h w = (Inr x, w')"
  by (simp_all add: except_any_def catchS_def)

lemma post_ifI [wp_intros]:
  "(b \<Longrightarrow> post m w Q) \<Longrightarrow> (\<not> b \<Longrightarrow> post m' w Q) \<Longrightarrow> post (if b then m else m') w Q"
  by simp

lemma post_optionI [wp_intros]:
  "(x = None \<Longrightarrow> post m w Q) \<Longrightarrow> (\<And>y. x = Some y \<Longrightarrow> post (f y) w Q)
     \<Longrightarrow> post (case x of None \<Rightarrow> m | Some y \<Rightarrow> f y) w Q"
  by (cases x) auto

lemma post_mono: "post m w P \<Longrightarrow> (\<And>r w'. P r w' \<Longrightarrow> Q r w') \<Longrightarrow> post m w Q"
  by (auto simp: post_def)

lemma postD: "post m w Q \<Longrightarrow> m w = (r, w') \<Longrightarrow> Q r w'"
  by (simp add: post_def)

text \<open>\<open>always I m\<close>: the program \<open>m\<close> keeps the property \<open>I\<close> of the world, whether it returns or raises.\<close>

definition always :: "('w \<Rightarrow> bool) \<Rightarrow> ('w, 'a) io \<Rightarrow> bool" where
  "always I m \<longleftrightarrow> (\<forall>w. I w \<longrightarrow> I (snd (m w)))"

lemma always_simps [simp]: "always I (retS x)" "always I (liftE r)" "always I (getS f)"
  by (simp_all add: always_def)

lemma always_bind: "always I m \<Longrightarrow> (\<And>x. always I (f x)) \<Longrightarrow> always I (bindS m f)"
  unfolding always_def bindS_def by (auto split: prod.splits sum.splits; metis snd_conv)

lemma always_modify: "(\<And>w. I w \<Longrightarrow> I (f w)) \<Longrightarrow> always I (modifyS f)"
  by (simp add: always_def)

lemma always_if: "(b \<Longrightarrow> always I m) \<Longrightarrow> (\<not> b \<Longrightarrow> always I m') \<Longrightarrow> always I (if b then m else m')"
  by simp

lemma always_option: "always I m \<Longrightarrow> (\<And>x. always I (f x)) \<Longrightarrow> always I (case v of None \<Rightarrow> m | Some x \<Rightarrow> f x)"
  by (cases v) auto

lemma alwaysD: "always I m \<Longrightarrow> I w \<Longrightarrow> I (snd (m w))"
  by (simp add: always_def)

text \<open>\<open>totalS m\<close>: the program \<open>m\<close> raises nothing.\<close>

definition totalS :: "('w, 'a) io \<Rightarrow> bool" where
  "totalS m \<longleftrightarrow> (\<forall>w. \<exists>x w'. m w = (Inr x, w'))"

lemma totalS_simps [simp]: "totalS (retS x)" "totalS (getS f)" "totalS (modifyS g)"
  by (auto simp: totalS_def)

lemma totalS_bind: "totalS m \<Longrightarrow> (\<And>x. totalS (f x)) \<Longrightarrow> totalS (bindS m f)"
  unfolding totalS_def bindS_def by (metis (no_types, lifting) old.prod.case sum.case(2))

lemma bindS_InrE:
  assumes "bindS m f w = (Inr y, w')"
  obtains x w1 where "m w = (Inr x, w1)" "f x w1 = (Inr y, w')"
  using assms by (auto simp: bindS_def split: prod.splits sum.splits)

end
