(* ===== verification/Lan_Control_Adapter.thy ===== *)
theory Lan_Control_Adapter
  imports Packet_Builders Effects
begin

text \<open>
  \<^verbatim>\<open>lan/control_adapter.py\<close>: the control methods over a LAN gateway. Each builds the same payload
  as the cloud client, drops the fields the gateways do not know and judges the answer.

  The gateway manager is the parameter \<open>gw\<close>: what \<^verbatim>\<open>send(uid, payload, timeout=8.0)\<close> answers
  (\<^verbatim>\<open>None\<close> or a decoded message) or raises. The masked identifiers of the debug messages
  are not modelled.
\<close>

type_synonym 'w gateway = "pyval \<Rightarrow> dict \<Rightarrow> ('w, pyval) io"

definition SSL_ONLY_FIELDS :: "string list" where
  "SSL_ONLY_FIELDS =
     [''groupId'', ''qualityOfService'', ''defaultResponse'', ''propertyResponse'', ''debugInfo'']"

definition lan_payload_of :: "dict \<Rightarrow> dict" where
  "lan_payload_of payload = filter (\<lambda>(key, v). key \<notin> set SSL_ONLY_FIELDS) payload"

text \<open>The judgement on the answer. A bool status is a failure; an answer without a status counts as
  an acknowledgement.\<close>

definition status_ok :: "pyval \<Rightarrow> bool" where
  "status_ok response =
     (if response = VNone then False
      else case (case response of VDict d \<Rightarrow> get d ''status'' | _ \<Rightarrow> VNone) of
        VBool b \<Rightarrow> False
      | VInt n \<Rightarrow> n = 0
      | VStr s \<Rightarrow> py_strip s = ''0''
      | _ \<Rightarrow> True)"

definition send_payload :: "'w gateway \<Rightarrow> dict \<Rightarrow> ('w, bool) io" where
  "send_payload gw payload =
     (let lan_payload = lan_payload_of payload;
          uid = dget lan_payload ''uid'' (VStr '''')
      in except_any (bindS (gw uid lan_payload) (\<lambda>response. retS (status_ok response)))
           (\<lambda>error. retS False))"

text \<open>The payload is built before \<^verbatim>\<open>_send\<close> is entered: what the builder raises is not caught.\<close>

definition lan_send :: "'w gateway \<Rightarrow> dict py \<Rightarrow> ('w, bool) io" where
  "lan_send gw payload = bindS (liftE payload) (send_payload gw)"

section \<open>The methods\<close>

definition send_control_switch :: "'w gateway \<Rightarrow> ids \<Rightarrow> pyval \<Rightarrow> ('w, bool) io" where
  "send_control_switch gw e state = lan_send gw (ssl_control_switch e state)"

definition send_control_cct_light_onoff :: "'w gateway \<Rightarrow> ids \<Rightarrow> pyval \<Rightarrow> ('w, bool) io" where
  "send_control_cct_light_onoff gw e state = lan_send gw (ssl_control_cct_light_onoff e state)"

definition send_control_cct_light_brightness :: "'w gateway \<Rightarrow> ids \<Rightarrow> pyval \<Rightarrow> ('w, bool) io" where
  "send_control_cct_light_brightness gw e brightness_percent =
     lan_send gw (ssl_control_cct_light_brightness e brightness_percent)"

definition send_control_cct_light_colortemp :: "'w gateway \<Rightarrow> ids \<Rightarrow> pyval \<Rightarrow> ('w, bool) io" where
  "send_control_cct_light_colortemp gw e colortemp_k =
     lan_send gw (ssl_control_cct_light_colortemp e colortemp_k)"

definition send_control_floor_heating_power :: "'w gateway \<Rightarrow> ids \<Rightarrow> pyval \<Rightarrow> ('w, bool) io" where
  "send_control_floor_heating_power gw e state = lan_send gw (ssl_control_floor_heating_power e state)"

definition send_control_floor_heating_temperature :: "'w gateway \<Rightarrow> ids \<Rightarrow> pyval \<Rightarrow> ('w, bool) io" where
  "send_control_floor_heating_temperature gw e temperature =
     lan_send gw (ssl_control_floor_heating_temperature e temperature)"

definition send_control_dream_curtain_action :: "'w gateway \<Rightarrow> ids \<Rightarrow> pyval \<Rightarrow> ('w, bool) io" where
  "send_control_dream_curtain_action gw e action =
     lan_send gw (ssl_control_dream_curtain_action e action)"

definition send_control_dream_curtain_percent :: "'w gateway \<Rightarrow> ids \<Rightarrow> pyval \<Rightarrow> ('w, bool) io" where
  "send_control_dream_curtain_percent gw e percent =
     lan_send gw (ssl_control_dream_curtain_percent e percent)"

definition send_control_dream_curtain_angle :: "'w gateway \<Rightarrow> ids \<Rightarrow> pyval \<Rightarrow> ('w, bool) io" where
  "send_control_dream_curtain_angle gw e angle = lan_send gw (ssl_control_dream_curtain_angle e angle)"

definition send_control_dimmable_light_brightness :: "'w gateway \<Rightarrow> ids \<Rightarrow> pyval \<Rightarrow> ('w, bool) io" where
  "send_control_dimmable_light_brightness gw e brightness_percent =
     lan_send gw (ssl_control_dimmable_light_brightness e brightness_percent)"

definition send_control_zigbee_dimmable_light_onoff ::
  "'w gateway \<Rightarrow> ids \<Rightarrow> pyval \<Rightarrow> pyval \<Rightarrow> pyval \<Rightarrow> pyval \<Rightarrow> ('w, bool) io" where
  "send_control_zigbee_dimmable_light_onoff gw e state brightness value3 value4 =
     lan_send gw (ssl_control_zigbee_dimmable_light_onoff e state brightness value3 value4)"

definition send_control_zigbee_dimmable_light_brightness ::
  "'w gateway \<Rightarrow> ids \<Rightarrow> pyval \<Rightarrow> pyval \<Rightarrow> pyval \<Rightarrow> ('w, bool) io" where
  "send_control_zigbee_dimmable_light_brightness gw e brightness_255 value3 value4 =
     lan_send gw (ssl_control_zigbee_dimmable_light_brightness e brightness_255 value3 value4)"

definition send_control_fast_move_dim_color_light_onoff ::
  "'w gateway \<Rightarrow> ids \<Rightarrow> pyval \<Rightarrow> pyval \<Rightarrow> pyval \<Rightarrow> ('w, bool) io" where
  "send_control_fast_move_dim_color_light_onoff gw e state brightness colortemp_mired =
     lan_send gw (ssl_control_fast_move_dim_color_light_onoff e state brightness colortemp_mired)"

definition send_control_fast_move_dim_color_light_brightness ::
  "'w gateway \<Rightarrow> ids \<Rightarrow> pyval \<Rightarrow> pyval \<Rightarrow> ('w, bool) io" where
  "send_control_fast_move_dim_color_light_brightness gw e brightness colortemp_mired =
     lan_send gw (ssl_control_fast_move_dim_color_light_brightness e brightness colortemp_mired)"

definition send_control_fast_move_dim_color_light_colortemp ::
  "'w gateway \<Rightarrow> ids \<Rightarrow> pyval \<Rightarrow> pyval \<Rightarrow> ('w, bool) io" where
  "send_control_fast_move_dim_color_light_colortemp gw e brightness colortemp_mired =
     lan_send gw (ssl_control_fast_move_dim_color_light_colortemp e brightness colortemp_mired)"

text \<open>A lamp switched on without a level gets the full one.\<close>

definition lan_light_brightness :: "pyval \<Rightarrow> pyval \<Rightarrow> pyval py" where
  "lan_light_brightness state brightness =
     (if truthy state then
        (if brightness = VNone then Inr (VInt 255)
         else bindE (py_int (py_or brightness (VInt 0))) (\<lambda>n.
           Inr (if n \<le> 0 then VInt 255 else brightness)))
      else Inr brightness)"

definition send_control_light :: "'w gateway \<Rightarrow> ids \<Rightarrow> pyval \<Rightarrow> pyval \<Rightarrow> pyval \<Rightarrow> ('w, bool) io" where
  "send_control_light gw e state brightness colortemp_mired =
     lan_send gw (bindE (lan_light_brightness state brightness)
       (\<lambda>b. ssl_control_light e state b colortemp_mired))"

definition send_control_light_brightness :: "'w gateway \<Rightarrow> ids \<Rightarrow> pyval \<Rightarrow> ('w, bool) io" where
  "send_control_light_brightness gw e brightness = lan_send gw (ssl_control_light_brightness e brightness)"

definition send_control_light_colortemp :: "'w gateway \<Rightarrow> ids \<Rightarrow> pyval \<Rightarrow> pyval \<Rightarrow> ('w, bool) io" where
  "send_control_light_colortemp gw e colortemp_k brightness =
     lan_send gw (ssl_control_light_colortemp e colortemp_k brightness)"

definition send_control_cover ::
  "'w gateway \<Rightarrow> ids \<Rightarrow> pyval \<Rightarrow> pyval \<Rightarrow> pyval \<Rightarrow> pyval \<Rightarrow> ('w, bool) io" where
  "send_control_cover gw e position stop_value2 ord wire_value1 =
     lan_send gw (ssl_control_cover e position stop_value2 ord wire_value1)"

definition legacy_floor_power_payload :: "ids \<Rightarrow> pyval \<Rightarrow> pyval \<Rightarrow> dict py" where
  "legacy_floor_power_payload e is_on packed_state =
     bindE (if truthy is_on then Inr 0 else bindE (py_int packed_state) (\<lambda>n. Inr (max 0 n))) (\<lambda>v2.
       ssl_control_legacy_floor_heating e (on_off_val is_on) (active_low_val is_on) (VInt v2))"

definition send_control_legacy_floor_heating_power ::
  "'w gateway \<Rightarrow> ids \<Rightarrow> pyval \<Rightarrow> pyval \<Rightarrow> ('w, bool) io" where
  "send_control_legacy_floor_heating_power gw e is_on packed_state =
     lan_send gw (legacy_floor_power_payload e is_on packed_state)"

definition legacy_floor_temperature_payload :: "ids \<Rightarrow> pyval \<Rightarrow> dict py" where
  "legacy_floor_temperature_payload e temperature =
     bindE (py_round temperature) (\<lambda>t.
       let target = max 10 (min 35 t)
       in ssl_control_legacy_floor_heating e (VStr ''temperature setting'') (VInt 8) (VInt (target - 10)))"

definition send_control_legacy_floor_heating_temperature :: "'w gateway \<Rightarrow> ids \<Rightarrow> pyval \<Rightarrow> ('w, bool) io" where
  "send_control_legacy_floor_heating_temperature gw e temperature =
     lan_send gw (legacy_floor_temperature_payload e temperature)"

definition send_control_ventilation :: "'w gateway \<Rightarrow> ids \<Rightarrow> pyval \<Rightarrow> ('w, bool) io" where
  "send_control_ventilation gw e value1 = lan_send gw (ssl_control_ventilation e value1)"

definition send_ac_control ::
  "'w gateway \<Rightarrow> ids \<Rightarrow> pyval \<Rightarrow> pyval \<Rightarrow> pyval \<Rightarrow> pyval \<Rightarrow> pyval \<Rightarrow> ('w, bool) io" where
  "send_ac_control gw e ord value1 value2 value3 value4 =
     lan_send gw (ssl_control_ac e ord value1 value2 value3 value4)"

definition send_light_bri_ct :: "'w gateway \<Rightarrow> ids \<Rightarrow> pyval \<Rightarrow> pyval \<Rightarrow> ('w, bool) io" where
  "send_light_bri_ct gw e brightness color_temp_k =
     lan_send gw (ssl_control_light_full e brightness color_temp_k (VBool True))"

section \<open>Calling a method by name\<close>

text \<open>
  The executor calls \<^verbatim>\<open>getattr(owner, name)(device_id, uid, *args, **kwargs)\<close>. A signature lists the
  positional and the keyword-only parameters after the two identifiers, with their defaults.
\<close>

type_synonym params = "(string \<times> pyval option) list"

fun bind_keywords :: "params \<Rightarrow> dict \<Rightarrow> dict \<Rightarrow> dict py" where
  "bind_keywords ps [] b = Inr b"
| "bind_keywords ps ((k, v) # kw) b =
     (if k \<in> set (map fst ps) \<and> \<not> has_key b k then bind_keywords ps kw (b @ [(k, v)]) else Inl TypeError)"

fun fill_defaults :: "params \<Rightarrow> dict \<Rightarrow> dict py" where
  "fill_defaults [] b = Inr b"
| "fill_defaults ((k, d) # ps) b =
     (if has_key b k then fill_defaults ps b
      else case d of None \<Rightarrow> Inl TypeError | Some v \<Rightarrow> fill_defaults ps (b @ [(k, v)]))"

definition bind_args :: "params \<Rightarrow> params \<Rightarrow> pyval list \<Rightarrow> dict \<Rightarrow> dict py" where
  "bind_args pos kwonly args kwargs =
     (if length args > length pos then Inl TypeError
      else bindE (bind_keywords (pos @ kwonly) kwargs (zip (map fst pos) args))
        (fill_defaults (pos @ kwonly)))"

definition signatures :: "(string \<times> params \<times> params) list" where
  "signatures =
     (let state = (''state'', None); bri = (''brightness'', None);
          pct = (''brightness_percent'', None); zero = Some (VInt 0);
          v34 = [(''value3'', Some (VInt 0)), (''value4'', Some (VInt 0))]
      in
       [(''send_control_switch'', [state], []),
        (''send_control_cct_light_onoff'', [state], []),
        (''send_control_cct_light_brightness'', [pct], []),
        (''send_control_cct_light_colortemp'', [(''colortemp_k'', None)], []),
        (''send_control_floor_heating_power'', [state], []),
        (''send_control_floor_heating_temperature'', [(''temperature'', None)], []),
        (''send_control_dream_curtain_action'', [(''action'', None)], []),
        (''send_control_dream_curtain_percent'', [(''percent'', None)], []),
        (''send_control_dream_curtain_angle'', [(''angle'', None)], []),
        (''send_control_dimmable_light_brightness'', [pct], []),
        (''send_control_zigbee_dimmable_light_onoff'', [state, (''brightness'', Some (VInt 255))], v34),
        (''send_control_zigbee_dimmable_light_brightness'', [(''brightness_255'', None)], v34),
        (''send_control_fast_move_dim_color_light_onoff'',
           [state, (''brightness'', zero), (''colortemp_mired'', zero)], []),
        (''send_control_fast_move_dim_color_light_brightness'', [bri, (''colortemp_mired'', zero)], []),
        (''send_control_fast_move_dim_color_light_colortemp'', [bri, (''colortemp_mired'', None)], []),
        (''send_control_light'', [state, (''brightness'', zero), (''colortemp_mired'', zero)], []),
        (''send_control_light_brightness'', [bri], []),
        (''send_control_light_colortemp'', [(''colortemp_k'', None), (''brightness'', zero)], []),
        (''send_control_cover'', [(''position'', None), (''stop_value2'', zero)],
           [(''order'', Some VNone), (''wire_value1'', Some VNone)]),
        (''send_control_legacy_floor_heating_power'', [(''is_on'', None)], [(''packed_state'', zero)]),
        (''send_control_legacy_floor_heating_temperature'', [(''temperature'', None)], []),
        (''send_control_ventilation'', [(''value1'', None)], []),
        (''send_ac_control'', [],
           [(''order'', None), (''value1'', Some VNone), (''value2'', Some VNone),
            (''value3'', Some VNone), (''value4'', Some VNone)]),
        (''send_light_bri_ct'', [bri, (''color_temp_k'', None)], [])])"

definition lan_bodies :: "'w gateway \<Rightarrow> ids \<Rightarrow> dict \<Rightarrow> (string \<times> ('w, bool) io) list" where
  "lan_bodies gw e b =
     [(''send_control_switch'', send_control_switch gw e (get b ''state'')),
      (''send_control_cct_light_onoff'', send_control_cct_light_onoff gw e (get b ''state'')),
      (''send_control_cct_light_brightness'',
         send_control_cct_light_brightness gw e (get b ''brightness_percent'')),
      (''send_control_cct_light_colortemp'', send_control_cct_light_colortemp gw e (get b ''colortemp_k'')),
      (''send_control_floor_heating_power'', send_control_floor_heating_power gw e (get b ''state'')),
      (''send_control_floor_heating_temperature'',
         send_control_floor_heating_temperature gw e (get b ''temperature'')),
      (''send_control_dream_curtain_action'', send_control_dream_curtain_action gw e (get b ''action'')),
      (''send_control_dream_curtain_percent'', send_control_dream_curtain_percent gw e (get b ''percent'')),
      (''send_control_dream_curtain_angle'', send_control_dream_curtain_angle gw e (get b ''angle'')),
      (''send_control_dimmable_light_brightness'',
         send_control_dimmable_light_brightness gw e (get b ''brightness_percent'')),
      (''send_control_zigbee_dimmable_light_onoff'',
         send_control_zigbee_dimmable_light_onoff gw e (get b ''state'') (get b ''brightness'')
           (get b ''value3'') (get b ''value4'')),
      (''send_control_zigbee_dimmable_light_brightness'',
         send_control_zigbee_dimmable_light_brightness gw e (get b ''brightness_255'')
           (get b ''value3'') (get b ''value4'')),
      (''send_control_fast_move_dim_color_light_onoff'',
         send_control_fast_move_dim_color_light_onoff gw e (get b ''state'') (get b ''brightness'')
           (get b ''colortemp_mired'')),
      (''send_control_fast_move_dim_color_light_brightness'',
         send_control_fast_move_dim_color_light_brightness gw e (get b ''brightness'') (get b ''colortemp_mired'')),
      (''send_control_fast_move_dim_color_light_colortemp'',
         send_control_fast_move_dim_color_light_colortemp gw e (get b ''brightness'') (get b ''colortemp_mired'')),
      (''send_control_light'',
         send_control_light gw e (get b ''state'') (get b ''brightness'') (get b ''colortemp_mired'')),
      (''send_control_light_brightness'', send_control_light_brightness gw e (get b ''brightness'')),
      (''send_control_light_colortemp'',
         send_control_light_colortemp gw e (get b ''colortemp_k'') (get b ''brightness'')),
      (''send_control_cover'',
         send_control_cover gw e (get b ''position'') (get b ''stop_value2'') (get b ''order'')
           (get b ''wire_value1'')),
      (''send_control_legacy_floor_heating_power'',
         send_control_legacy_floor_heating_power gw e (get b ''is_on'') (get b ''packed_state'')),
      (''send_control_legacy_floor_heating_temperature'',
         send_control_legacy_floor_heating_temperature gw e (get b ''temperature'')),
      (''send_control_ventilation'', send_control_ventilation gw e (get b ''value1'')),
      (''send_ac_control'',
         send_ac_control gw e (get b ''order'') (get b ''value1'') (get b ''value2'') (get b ''value3'')
           (get b ''value4'')),
      (''send_light_bri_ct'', send_light_bri_ct gw e (get b ''brightness'') (get b ''color_temp_k''))]"

definition lan_invoke :: "'w gateway \<Rightarrow> ids \<Rightarrow> string \<Rightarrow> pyval list \<Rightarrow> dict \<Rightarrow> ('w, bool) io" where
  "lan_invoke gw e name args kwargs =
     (case map_of signatures name of None \<Rightarrow> raiseS AttributeError
      | Some (pos, kwonly) \<Rightarrow>
          bindS (liftE (bind_args pos kwonly args kwargs)) (\<lambda>b. the (map_of (lan_bodies gw e b) name)))"

lemma signature_bodies: "map fst signatures = map fst (lan_bodies gw e b)"
  by (simp add: signatures_def lan_bodies_def Let_def)

section \<open>What reaches the gateway\<close>

lemma map_of_filter_keys: "map_of (filter (\<lambda>(k, v). P k) d) k = (if P k then map_of d k else None)"
  by (induction d) auto

lemma lan_payload_reads:
  "map_of (lan_payload_of p) k = (if k \<in> set SSL_ONLY_FIELDS then None else map_of p k)"
  unfolding lan_payload_of_def using map_of_filter_keys [of "\<lambda>k. k \<notin> set SSL_ONLY_FIELDS" p k] by simp

lemma lan_payload_get [simp]:
  "k \<notin> set SSL_ONLY_FIELDS \<Longrightarrow> dget (lan_payload_of p) k v = dget p k v"
  by (simp add: dget_def lan_payload_reads)

text \<open>Either the arguments are refused before anything is sent, or exactly one message goes to the
  gateway of the device and the method returns, whatever the gateway does, unless its task is cancelled.\<close>

definition answer_accepted :: "pyval py \<Rightarrow> bool" where
  "answer_accepted r = (case r of Inl err \<Rightarrow> False | Inr response \<Rightarrow> status_ok response)"

text \<open>What the method returns once the message is out; the cancellation of its task passes through.\<close>

definition sent_result :: "pyval py \<Rightarrow> bool py" where
  "sent_result r = (if r = Inl cancelled_error then Inl cancelled_error else Inr (answer_accepted r))"

definition sends_once :: "'w gateway \<Rightarrow> ids \<Rightarrow> ('w, bool) io \<Rightarrow> bool" where
  "sends_once gw e m \<longleftrightarrow>
     (\<forall>w. (\<exists>err. m w = (Inl err, w)) \<or>
       (\<exists>p r w'. control_message e p \<and> gw (uid_of e) (lan_payload_of p) w = (r, w') \<and>
          m w = (sent_result r, w')))"

lemma send_payload_run:
  assumes "dget p ''uid'' (VStr []) = uid" "gw uid (lan_payload_of p) w = (r, w')"
  shows "send_payload gw p w = (sent_result r, w')"
proof -
  have "dget (lan_payload_of p) ''uid'' (VStr []) = uid"
    using assms(1) by (simp add: SSL_ONLY_FIELDS_def)
  then show ?thesis using assms(2)
    by (cases r) (simp_all add: send_payload_def except_any_def catchS_def bindS_def sent_result_def answer_accepted_def)
qed

lemma lan_send_sends_once [simp]:
  assumes "ensures m (control_message e)"
  shows "sends_once gw e (lan_send gw m)"
  unfolding sends_once_def
proof
  fix w
  show "(\<exists>err. lan_send gw m w = (Inl err, w)) \<or> (\<exists>p r w'. control_message e p \<and>
      gw (uid_of e) (lan_payload_of p) w = (r, w') \<and> lan_send gw m w = (sent_result r, w'))"
  proof (cases m)
    case (Inl err)
    then show ?thesis by (simp add: lan_send_def)
  next
    case (Inr p)
    then have p: "control_message e p" using assms by simp
    then have uid: "dget p ''uid'' (VStr []) = uid_of e"
      by (simp add: control_message_def dget_def del: map_of_eq_Some_iff)
    obtain r w' where r: "gw (uid_of e) (lan_payload_of p) w = (r, w')" by force
    from send_payload_run [where gw = gw, OF uid r] p r Inr show ?thesis by (auto simp: lan_send_def)
  qed
qed

lemma adapter_payloads [simp]:
  "ensures (bindE (lan_light_brightness st br) (\<lambda>b. ssl_control_light e st b ct)) (control_message e)"
  "ensures (legacy_floor_power_payload e st packed) (control_message e)"
  "ensures (legacy_floor_temperature_payload e t) (control_message e)"
  by (simp_all add: legacy_floor_power_payload_def legacy_floor_temperature_payload_def Let_def)

lemma bodies_send_once: "list_all (\<lambda>(name, m). sends_once gw e m) (lan_bodies gw e b)"
  by (simp add: lan_bodies_def send_control_switch_def send_control_cct_light_onoff_def
      send_control_cct_light_brightness_def send_control_cct_light_colortemp_def
      send_control_floor_heating_power_def send_control_floor_heating_temperature_def
      send_control_dream_curtain_action_def send_control_dream_curtain_percent_def
      send_control_dream_curtain_angle_def send_control_dimmable_light_brightness_def
      send_control_zigbee_dimmable_light_onoff_def send_control_zigbee_dimmable_light_brightness_def
      send_control_fast_move_dim_color_light_onoff_def send_control_fast_move_dim_color_light_brightness_def
      send_control_fast_move_dim_color_light_colortemp_def send_control_light_def
      send_control_light_brightness_def send_control_light_colortemp_def send_control_cover_def
      send_control_legacy_floor_heating_power_def send_control_legacy_floor_heating_temperature_def
      send_control_ventilation_def send_ac_control_def send_light_bri_ct_def)

lemma lan_invoke_sends_once: "sends_once gw e (lan_invoke gw e name args kwargs)"
proof (cases "map_of signatures name")
  case None
  then show ?thesis by (simp add: lan_invoke_def sends_once_def)
next
  case (Some sig)
  obtain pos kwonly where sig: "sig = (pos, kwonly)" by force
  show ?thesis
  proof (cases "bind_args pos kwonly args kwargs")
    case (Inl err)
    then show ?thesis using Some sig by (simp add: lan_invoke_def sends_once_def)
  next
    case (Inr b)
    have "name \<in> fst ` set (lan_bodies gw e b)"
      using Some signature_bodies [of gw e b] by (metis list.set_map map_of_eq_None_iff option.simps(3))
    then obtain m where m: "map_of (lan_bodies gw e b) name = Some m"
      by (metis map_of_eq_None_iff not_None_eq)
    have "sends_once gw e m"
      using bodies_send_once [of gw e b] map_of_SomeD [OF m] by (auto simp: list_all_iff)
    then show ?thesis using Some sig Inr m by (simp add: lan_invoke_def)
  qed
qed

section \<open>Properties\<close>

text \<open>C33. A LAN control, whatever its name and arguments, either raises before anything is sent or sends
  exactly one control message to the gateway of the device; once the message is out it never raises,
  and it reports success exactly if the gateway answered with an accepted status.\<close>

theorem lan_control_sends_once:
  "(\<exists>err. lan_invoke gw e name args kwargs w = (Inl err, w)) \<or>
   (\<exists>p r w'. control_message e p \<and> gw (uid_of e) (lan_payload_of p) w = (r, w') \<and>
      lan_invoke gw e name args kwargs w = (sent_result r, w'))"
  using lan_invoke_sends_once [of gw e name args kwargs] by (simp add: sends_once_def)

text \<open>A LAN payload is the cloud payload without the five cloud-only fields: none of them is left
  and every other field reads the same.\<close>

lemma lan_payload_strips_cloud_fields:
  "map_of (lan_payload_of p) k
     = (if k \<in> {''groupId'', ''qualityOfService'', ''defaultResponse'', ''propertyResponse'', ''debugInfo''}
        then None else map_of p k)"
  using lan_payload_reads [of p k] by (simp add: SSL_ONLY_FIELDS_def)

text \<open>A lamp that is switched on over the LAN is never sent the level 0 that would turn it dark:
  the level that is sent reads as an int greater than 0, whatever level the caller gave.\<close>

lemma lan_light_on_has_level:
  "ensures (lan_light_brightness (VBool True) brightness)
     (\<lambda>v. ensures (py_int v) (\<lambda>n. 0 < n))"
  by (auto simp: lan_light_brightness_def ensures_def py_or_def split: if_splits)

text \<open>The call a route describes passes the arguments the LAN method takes.\<close>

definition route_binds :: "control_route \<Rightarrow> bool" where
  "route_binds r \<longleftrightarrow> rt_scope r \<noteq> ''ssl'' \<or>
     (case map_of signatures (rt_method r) of None \<Rightarrow> False
      | Some (pos, kwonly) \<Rightarrow> returns (bind_args pos kwonly (rt_args r) (rt_kwargs r)))"

lemma retained_field_cases: "retained_field s d r f = [] \<or> (\<exists>v. retained_field s d r f = [(f, v)])"
  by (auto simp: retained_field_def split: option.splits)

lemma retained_values_cases:
  obtains "dimmer_retained_values st d = []"
  | v where "dimmer_retained_values st d = [(''value3'', v)]"
  | v where "dimmer_retained_values st d = [(''value4'', v)]"
  | v w where "dimmer_retained_values st d = [(''value3'', v), (''value4'', w)]"
  using retained_field_cases [of st d "''raw_value3''" "''value3''"]
    retained_field_cases [of st d "''raw_value4''" "''value4''"]
  by (cases "is_virtual_mixpad d") (auto simp: dimmer_retained_values_def intro: that)

lemma binds_simple [simp]:
  "route_binds (ssl_route ''send_control_light'' [x] [] opt)"
  "route_binds (ssl_route ''send_control_switch'' [x] [] opt)"
  "route_binds (ssl_route ''send_control_light_colortemp'' [x] [(''brightness'', y)] opt)"
  "route_binds (ssl_route ''send_control_zigbee_dimmable_light_onoff'' [x] [(''brightness'', y)] opt)"
  "route_binds (ssl_route ''send_control_fast_move_dim_color_light_onoff'' [x]
     [(''brightness'', y), (''colortemp_mired'', z)] opt)"
  "route_binds (ssl_route ''send_control_cct_light_onoff'' [x] [] opt)"
  "route_binds (ssl_route ''send_control_floor_heating_power'' [x] [] opt)"
  "route_binds (ssl_route ''send_control_legacy_floor_heating_power'' [x] [(''packed_state'', y)] opt)"
  "route_binds (ssl_route ''send_control_cover'' [x] [] opt)"
  "route_binds (ssl_route ''send_control_cover'' [x] [(''order'', y), (''wire_value1'', z)] opt)"
  "route_binds (ssl_route ''send_control_dimmable_light_brightness'' [x] [] opt)"
  "route_binds (ssl_route ''send_control_zigbee_dimmable_light_brightness'' [x] [] opt)"
  "route_binds (ssl_route ''send_control_fast_move_dim_color_light_brightness'' [x] [(''colortemp_mired'', y)] opt)"
  "route_binds (ssl_route ''send_control_cct_light_brightness'' [x] [] opt)"
  "route_binds (ssl_route ''send_control_cct_light_colortemp'' [x] [] opt)"
  "route_binds (ssl_route ''send_control_fast_move_dim_color_light_colortemp'' [x] [(''colortemp_mired'', y)] opt)"
  by (simp_all add: route_binds_def signatures_def Let_def bind_args_def)

lemma binds_dimmer [simp]:
  "route_binds (ssl_route ''send_control_zigbee_dimmable_light_onoff'' [x]
     (dict_merge [(''brightness'', y)] (dimmer_retained_values st d)) opt)"
  "route_binds (ssl_route ''send_control_zigbee_dimmable_light_brightness'' [x]
     (dimmer_retained_values st d) opt)"
  by (cases rule: retained_values_cases [of st d];
      simp add: route_binds_def signatures_def Let_def bind_args_def)+


end
