(* ===== verification/Capabilities.thy ===== *)
theory Capabilities
  imports Device_Types
begin

text \<open>
  \<^verbatim>\<open>camera_metadata.py\<close> and \<^verbatim>\<open>capabilities.py\<close>: the camera SDK hint, the platforms and control
  channels of a device, and the transport path it has in each transport mode.
\<close>

section \<open>Cameras\<close>

definition camera_sdk_hint_of :: "device_category \<Rightarrow> pyval \<Rightarrow> string" where
  "camera_sdk_hint_of category camera_type =
     (if category = CAMERA_NVR then ''meari''
      else if category \<noteq> WIFI_CAMERA then ''unknown''
      else case camera_type of
        VInt t \<Rightarrow> (if 3 \<le> t \<and> t \<le> 7 then ''danale''
          else if 8 \<le> t \<and> t \<le> 10 then ''meari''
          else if t \<in> {- 1, 1, 2} then ''ezviz''
          else ''unknown'')
      | _ \<Rightarrow> ''unknown'')"

definition camera_sdk_hint :: "model_catalog \<Rightarrow> dict \<Rightarrow> string py" where
  "camera_sdk_hint catalog device =
     bindE (classify_dict catalog device) (\<lambda>category.
       Inr (camera_sdk_hint_of category (get device ''camera_type'')))"

definition camera_stream_supported :: "model_catalog \<Rightarrow> pyval \<Rightarrow> bool py" where
  "camera_stream_supported catalog v =
     (case v of VDict device \<Rightarrow>
        bindE (camera_sdk_hint catalog device) (\<lambda>h. Inr (h = ''meari''))
      | _ \<Rightarrow> Inr False)"

definition camera_diagnostics :: "model_catalog \<Rightarrow> dict \<Rightarrow> dict py" where
  "camera_diagnostics catalog device =
     bindE (classify_dict catalog device) (\<lambda>category.
       if category \<notin> {WIFI_CAMERA, CAMERA_NVR} then Inr []
       else
         let t = get device ''camera_type'';
             camera_type = (if \<not> is_int t \<or> is_bool t then VNone else t)
         in bindE (camera_sdk_hint catalog device) (\<lambda>hint.
            bindE (camera_stream_supported catalog (VDict device)) (\<lambda>supported.
            Inr [(''camera_type'', camera_type), (''camera_sdk_hint'', VStr hint),
              (''sdk_hint_source'', VStr (if category = CAMERA_NVR then ''device_type''
                 else if camera_type \<noteq> VNone then ''camera_info_type'' else ''unknown'')),
              (''stream_supported'', VBool supported), (''hardware_verified'', VBool False)])))"

section \<open>Platforms and channels\<close>

datatype platform =
    PLATFORM_LIGHT | PLATFORM_COVER | PLATFORM_CLIMATE | PLATFORM_FAN | PLATFORM_SENSOR
  | PLATFORM_BINARY_SENSOR | PLATFORM_CAMERA | PLATFORM_SWITCH

datatype control_channel = CH_LAN | CH_SSL

datatype transport_mode = MODE_AUTO | MODE_LAN_ONLY | MODE_CLOUD_ONLY

datatype transport_path = PATH_LAN | PATH_CLOUD | PATH_LAN_CLOUD | PATH_UNAVAILABLE

record device_capability =
  cap_category :: device_category
  cap_platforms :: "platform set"
  cap_channels :: "control_channel set"
  cap_status_only :: bool
  cap_cloud_only :: bool
  cap_hardware_verified :: bool

definition controllable :: "device_capability \<Rightarrow> bool" where
  "controllable c \<longleftrightarrow> cap_channels c \<noteq> {}"

definition LAN_CONTROLLABLE_TYPES :: "int list" where
  "LAN_CONTROLLABLE_TYPES = [0, 1, 34, 35, 36, 38, 81, 102, 116, 501, 502, 503, 516]"

definition STATUS_ONLY_TYPES :: "int list" where
  "STATUS_ONLY_TYPES = [107]"

definition CLOUD_ONLY_TYPES :: "int list" where
  "CLOUD_ONLY_TYPES = [14, 52, 107, 162, 522]"

definition STATUS_ONLY_CATEGORIES :: "device_category list" where
  "STATUS_ONLY_CATEGORIES =
     [MOTION_SENSOR, TEMP_HUMIDITY_SENSOR, DOOR_WINDOW_SENSOR, SMOKE_SENSOR, EMERGENCY_BUTTON,
      WATER_LEAK_SENSOR, GAS_SENSOR, DOOR_LOCK, WIFI_CAMERA, CAMERA_NVR]"

fun category_platforms :: "device_category \<Rightarrow> platform set" where
  "category_platforms SIMPLE_ZIGBEE_LIGHT = {PLATFORM_LIGHT}"
| "category_platforms MONO_LIGHT = {PLATFORM_LIGHT}"
| "category_platforms LEGACY_LIGHT = {PLATFORM_LIGHT}"
| "category_platforms DIM_COLOR_LIGHT = {PLATFORM_LIGHT}"
| "category_platforms DIMMABLE_LIGHT = {PLATFORM_LIGHT}"
| "category_platforms CCT_LIGHT = {PLATFORM_LIGHT}"
| "category_platforms CCT_LIGHT_STRIP = {PLATFORM_LIGHT}"
| "category_platforms ZIGBEE_DIMMABLE_LIGHT = {PLATFORM_LIGHT}"
| "category_platforms FAST_MOVE_DIM_COLOR_LIGHT = {PLATFORM_LIGHT}"
| "category_platforms LIGHT_VIRTUAL_GROUP = {PLATFORM_LIGHT}"
| "category_platforms ZIGBEE_CURTAIN = {PLATFORM_COVER}"
| "category_platforms ZIGBEE_ROLLING_SHUTTER = {PLATFORM_COVER}"
| "category_platforms LEGACY_CURTAIN = {PLATFORM_COVER}"
| "category_platforms DREAM_CURTAIN = {PLATFORM_COVER}"
| "category_platforms FAN_COIL_AC = {PLATFORM_CLIMATE}"
| "category_platforms FLOOR_HEATING = {PLATFORM_CLIMATE}"
| "category_platforms LEGACY_FLOOR_HEATING = {PLATFORM_CLIMATE}"
| "category_platforms VENTILATION_SYSTEM = {PLATFORM_FAN}"
| "category_platforms MOTION_SENSOR = {PLATFORM_SENSOR, PLATFORM_BINARY_SENSOR}"
| "category_platforms TEMP_HUMIDITY_SENSOR = {PLATFORM_SENSOR}"
| "category_platforms DOOR_WINDOW_SENSOR = {PLATFORM_SENSOR, PLATFORM_BINARY_SENSOR}"
| "category_platforms SMOKE_SENSOR = {PLATFORM_SENSOR, PLATFORM_BINARY_SENSOR}"
| "category_platforms EMERGENCY_BUTTON = {PLATFORM_SENSOR, PLATFORM_BINARY_SENSOR}"
| "category_platforms WATER_LEAK_SENSOR = {PLATFORM_SENSOR, PLATFORM_BINARY_SENSOR}"
| "category_platforms GAS_SENSOR = {PLATFORM_SENSOR, PLATFORM_BINARY_SENSOR}"
| "category_platforms DOOR_LOCK = {PLATFORM_SENSOR, PLATFORM_BINARY_SENSOR, PLATFORM_CAMERA}"
| "category_platforms CLOTHES_HORSE = {PLATFORM_SENSOR}"
| "category_platforms WIFI_CAMERA = {PLATFORM_SENSOR}"
| "category_platforms CAMERA_NVR = {PLATFORM_SENSOR}"
| "category_platforms MIX_SWITCH = {PLATFORM_SWITCH}"
| "category_platforms BACH_SWITCH = {PLATFORM_SWITCH}"
| "category_platforms _ = {}"

definition device_type_key :: "pyval \<Rightarrow> int py" where
  "device_type_key v =
     (case v of
        VDict device \<Rightarrow> bindE (safe_int (first_key device ''device_type_raw'' ''deviceType''))
          (\<lambda>t. Inr (case t of None \<Rightarrow> 0 | Some n \<Rightarrow> n))
      | _ \<Rightarrow> Inr 0)"

text \<open>The channel decision of \<^verbatim>\<open>capability_for\<close>, in the order of its branches.\<close>

definition channels_of :: "device_profile \<Rightarrow> int \<Rightarrow> bool \<Rightarrow> bool \<Rightarrow> control_channel set" where
  "channels_of profile device_type status_only cloud_only =
     (if cloud_only then (if \<not> status_only then {CH_SSL} else {})
      else if status_only then {}
      else if dp_registration_only profile then {}
      else if device_type \<in> set LAN_CONTROLLABLE_TYPES then {CH_LAN, CH_SSL}
      else {CH_SSL})"

definition capability_for :: "model_catalog \<Rightarrow> pyval \<Rightarrow> device_capability py" where
  "capability_for catalog device =
     bindE (get_device_profile catalog device) (\<lambda>profile.
     bindE (device_type_key device) (\<lambda>device_type.
     let category = dp_category profile;
         status_only = (device_type \<in> set STATUS_ONLY_TYPES \<or> category \<in> set STATUS_ONLY_CATEGORIES);
         cloud_only = (device_type \<in> set CLOUD_ONLY_TYPES)
     in bindE (camera_stream_supported catalog device) (\<lambda>camera.
        Inr \<lparr>cap_category = category,
             cap_platforms = category_platforms category \<union> (if camera then {PLATFORM_CAMERA} else {}),
             cap_channels = channels_of profile device_type status_only cloud_only,
             cap_status_only = status_only, cap_cloud_only = cloud_only,
             cap_hardware_verified = dp_hardware_verified profile\<rparr>)))"

definition capability_for_type :: "model_catalog \<Rightarrow> int \<Rightarrow> int option \<Rightarrow> device_capability py" where
  "capability_for_type catalog device_type sub_type =
     capability_for catalog (VDict [(''device_type_raw'', VInt device_type),
       (''sub_device_type'', of_opt_int sub_type)])"

definition lan_state_allowed :: "model_catalog \<Rightarrow> pyval \<Rightarrow> transport_mode \<Rightarrow> bool py" where
  "lan_state_allowed catalog device mode =
     (if mode = MODE_CLOUD_ONLY then Inr False
      else bindE (capability_for catalog device) (\<lambda>c. Inr (\<not> cap_cloud_only c)))"

definition path_of_capability :: "device_capability \<Rightarrow> transport_mode \<Rightarrow> transport_path" where
  "path_of_capability c mode =
     (if mode = MODE_CLOUD_ONLY then PATH_CLOUD
      else if mode = MODE_LAN_ONLY then
        (if cap_cloud_only c then PATH_UNAVAILABLE
         else if cap_status_only c \<or> CH_LAN \<in> cap_channels c then PATH_LAN
         else PATH_UNAVAILABLE)
      else if cap_cloud_only c then PATH_CLOUD
      else if cap_status_only c \<or> CH_LAN \<in> cap_channels c then PATH_LAN_CLOUD
      else if CH_SSL \<in> cap_channels c then PATH_CLOUD
      else PATH_UNAVAILABLE)"

definition transport_path_for :: "model_catalog \<Rightarrow> pyval \<Rightarrow> transport_mode \<Rightarrow> transport_path py" where
  "transport_path_for catalog device mode =
     bindE (capability_for catalog device) (\<lambda>c. Inr (path_of_capability c mode))"

section \<open>Facts on classification\<close>

lemma safe_int_InrD:
  assumes "safe_int v = Inr (Some n)"
  shows "py_int v = Inr n"
  using assms by (auto simp: safe_int_def catchE_Inr_iff split: if_splits)

lemma first_key_profile_type:
  assumes "safe_int (first_key d ''device_type_raw'' ''deviceType'') = Inr t" "profile_type d = Some n"
  shows "t = Some n"
  using assms
  by (auto simp: safe_int_def profile_type_def safe_int_nobool_def first_key_def Let_def catchE_Inr_iff
      split: if_splits sum.splits)

text \<open>An unknown category rules out the device types that have a fixed meaning.\<close>

lemma classify_by_type_known:
  assumes "classify_by_type d (Some t) s \<in> {None, Some UNKNOWN, Some OTHER}"
  shows "t \<notin> {0, 34, 35, 116} \<and> t \<notin> set CLOUD_ONLY_TYPES"
proof -
  have "classify_by_type d (Some t) s \<notin> {None, Some UNKNOWN, Some OTHER}"
    if "t \<in> {0, 34, 35, 116, 14, 52, 107, 162, 522}"
    using that by (elim insertE emptyE) (simp_all add: classify_by_type_def DEVICE_TYPE_MAP_def)
  with assms show ?thesis by (auto simp: CLOUD_ONLY_TYPES_def)
qed

lemma classify_dict_unknown:
  assumes "classify_dict catalog d = Inr c" "c \<in> {UNKNOWN, OTHER}"
    and "safe_int (first_key d ''device_type_raw'' ''deviceType'') = Inr t"
  shows "t \<notin> Some ` ({0, 34, 35, 116} \<union> set CLOUD_ONLY_TYPES)"
proof
  assume "t \<in> Some ` ({0, 34, 35, 116} \<union> set CLOUD_ONLY_TYPES)"
  then obtain n where n: "t = Some n" "n \<in> {0, 34, 35, 116} \<or> n \<in> set CLOUD_ONLY_TYPES" by auto
  from assms(1,3) n(1) obtain s where
    "(if verified_lock_model d then Inr DOOR_LOCK
      else case classify_by_type d (Some n) s of Some c \<Rightarrow> Inr c
        | None \<Rightarrow> classify_fallback catalog d s) = Inr c"
    by (auto simp: classify_dict_def)
  then have "classify_by_type d (Some n) s \<in> {None, Some UNKNOWN, Some OTHER}"
    using assms(2) by (auto split: if_splits option.splits)
  from classify_by_type_known [OF this] n(2) show False by blast
qed

lemma static_control_types:
  "static_control_supported d \<Longrightarrow> profile_type d \<in> Some ` {0, 34, 35, 116}"
  using dimmer_scale_iff [of d] by (auto simp: static_control_supported_def Let_def)

lemma profile_unknown_registration_only:
  assumes "classify_dict catalog d = Inr c" "dp_category (profile_of_category catalog d c) \<in> {UNKNOWN, OTHER}"
  shows "dp_registration_only (profile_of_category catalog d c)"
proof -
  have c: "c \<in> {UNKNOWN, OTHER}" using assms(2)
    by (auto simp: profile_of_category_def Let_def split: if_splits)
  from assms(1) obtain t where t: "safe_int (first_key d ''device_type_raw'' ''deviceType'') = Inr t"
    by (auto simp: classify_dict_def)
  have "t \<notin> Some ` {0, 34, 35, 116}" using classify_dict_unknown [OF assms(1) c t] by auto
  then have "\<not> static_control_supported d"
    using static_control_types [of d] first_key_profile_type [OF t] by blast
  moreover have "UNKNOWN \<notin> set HARDWARE_VERIFIED_CATEGORIES" "OTHER \<notin> set HARDWARE_VERIFIED_CATEGORIES"
    by (simp_all add: HARDWARE_VERIFIED_CATEGORIES_def)
  ultimately show ?thesis using c by (auto simp: profile_of_category_def Let_def)
qed

text \<open>What a successful \<open>capability_for\<close> computed.\<close>

lemma capability_forE:
  assumes "capability_for catalog v = Inr c"
  obtains d cat t where "v = VDict d" "classify_dict catalog d = Inr cat"
    "safe_int (first_key d ''device_type_raw'' ''deviceType'') = Inr t"
    "cap_category c = dp_category (profile_of_category catalog d cat)"
    "cap_status_only c \<longleftrightarrow> (case t of None \<Rightarrow> 0 | Some n \<Rightarrow> n) \<in> set STATUS_ONLY_TYPES
       \<or> cap_category c \<in> set STATUS_ONLY_CATEGORIES"
    "cap_cloud_only c \<longleftrightarrow> (case t of None \<Rightarrow> 0 | Some n \<Rightarrow> n) \<in> set CLOUD_ONLY_TYPES"
    "cap_channels c = channels_of (profile_of_category catalog d cat)
       (case t of None \<Rightarrow> 0 | Some n \<Rightarrow> n) (cap_status_only c) (cap_cloud_only c)"
  using assms
  by (auto simp: capability_for_def get_device_profile_def device_type_key_def Let_def
      split: pyval.splits elim!: bindE_InrE intro!: that)

section \<open>Properties\<close>

text \<open>Unknown devices never receive inferred commands: whenever the capability of a device
  resolves to the category UNKNOWN or OTHER, it has no control channel at all.\<close>

lemma unknown_device_no_channel:
  assumes "capability_for catalog v = Inr c" "cap_category c \<in> {UNKNOWN, OTHER}"
  shows "\<not> controllable c"
proof -
  from assms(1) obtain d cat t where d: "v = VDict d" "classify_dict catalog d = Inr cat"
    "safe_int (first_key d ''device_type_raw'' ''deviceType'') = Inr t"
    and c: "cap_category c = dp_category (profile_of_category catalog d cat)"
    "cap_cloud_only c \<longleftrightarrow> (case t of None \<Rightarrow> 0 | Some n \<Rightarrow> n) \<in> set CLOUD_ONLY_TYPES"
    "cap_channels c = channels_of (profile_of_category catalog d cat)
       (case t of None \<Rightarrow> 0 | Some n \<Rightarrow> n) (cap_status_only c) (cap_cloud_only c)"
    by (rule capability_forE)
  have reg: "dp_registration_only (profile_of_category catalog d cat)"
    using d(2) assms(2) c(1) by (intro profile_unknown_registration_only) auto
  have "cat \<in> {UNKNOWN, OTHER}" using assms(2) unfolding c(1)
    by (auto simp: profile_of_category_def Let_def split: if_splits)
  then have "t \<notin> Some ` set CLOUD_ONLY_TYPES" using classify_dict_unknown [OF d(2) _ d(3)] by auto
  then have "\<not> cap_cloud_only c" unfolding c(2) by (auto simp: CLOUD_ONLY_TYPES_def split: option.splits)
  then show ?thesis using reg by (simp add: controllable_def c(3) channels_of_def)
qed

end
