(* ===== verification/State_Store.thy ===== *)
theory State_Store
  imports Py_Value
begin

text \<open>
  \<^verbatim>\<open>state_store.py\<close>: the field-level reconciliation of device state between the cloud, the SSL
  push channel, the LAN gateways and optimistic updates.

  A store is the dictionary of device states the coordinator owns, the guard interval and the
  revision of every field it has merged. Times are the values of \<^verbatim>\<open>time.monotonic()\<close>, handed in
  by the caller; they are rationals and their difference is exact.

  The abstract view of a store is its cells: the value and the revision of one field of one
  device. \<open>merge_cell\<close> is the specification of one update and \<open>merge_refines_cells\<close> shows that the
  loop of \<^verbatim>\<open>merge\<close> implements it on every cell at once. The locale \<open>prioritized_cells\<close> states what a
  client may rely on and proves what follows for a whole history of updates.
\<close>

section \<open>Sources\<close>

datatype state_source = INITIAL | OPTIMISTIC | CLOUD | SSL | LAN

fun source_priority :: "state_source \<Rightarrow> int" where
  "source_priority INITIAL = 0"
| "source_priority OPTIMISTIC = 10"
| "source_priority CLOUD = 20"
| "source_priority SSL = 30"
| "source_priority LAN = 40"

lemma source_priority_inject: "source_priority a = source_priority b \<Longrightarrow> a = b"
  by (cases a; cases b) simp_all

instantiation state_source :: linorder
begin

definition less_eq_state_source :: "state_source \<Rightarrow> state_source \<Rightarrow> bool" where
  "less_eq_state_source a b \<longleftrightarrow> source_priority a \<le> source_priority b"

definition less_state_source :: "state_source \<Rightarrow> state_source \<Rightarrow> bool" where
  "less_state_source a b \<longleftrightarrow> source_priority a < source_priority b"

instance
  by standard
     (auto simp: less_eq_state_source_def less_state_source_def dest: source_priority_inject)

end

lemmas source_order = less_eq_state_source_def less_state_source_def

section \<open>The store\<close>

record field_revision =
  rev_source :: state_source
  rev_updated_at :: rat

record store =
  st_states :: "(string, dict) pydict"
  st_guard :: rat
  st_revisions :: "(string \<times> string, field_revision) pydict"

definition new_store :: "(string, dict) pydict \<Rightarrow> store" where
  "new_store states = \<lparr>st_states = states, st_guard = 30, st_revisions = []\<rparr>"

definition state_of :: "store \<Rightarrow> string \<Rightarrow> dict" where
  "state_of s d = (case map_of (st_states s) d of None \<Rightarrow> [] | Some st \<Rightarrow> st)"

definition protected :: "field_revision option \<Rightarrow> state_source \<Rightarrow> rat \<Rightarrow> rat \<Rightarrow> bool" where
  "protected r src now guard = (case r of None \<Rightarrow> False
     | Some r \<Rightarrow> src < rev_source r \<and> now - rev_updated_at r < guard)"

text \<open>One turn of the loop: a protected field is skipped, an unequal or missing one is written and
  reported, and a field that is not skipped gets the new revision even when its value is equal.\<close>

definition merge_field ::
  "string \<Rightarrow> state_source \<Rightarrow> rat \<Rightarrow> bool \<Rightarrow> string \<times> pyval \<Rightarrow> string set \<times> store \<Rightarrow> string set \<times> store" where
  "merge_field d src now force fv cs =
     (let (field, v) = fv; (changed, s) = cs;
          revision = map_of (st_revisions s) (d, field)
      in if \<not> force \<and> protected revision src now (st_guard s) then (changed, s)
         else
           let st = state_of s d;
               write = (\<not> py_eq (get st field) v \<or> \<not> has_key st field);
               s = (if write then s\<lparr>st_states := AList.update d (AList.update field v st) (st_states s)\<rparr> else s)
           in (if write then insert field changed else changed,
               s\<lparr>st_revisions := AList.update (d, field) \<lparr>rev_source = src, rev_updated_at = now\<rparr> (st_revisions s)\<rparr>))"

definition merge :: "string \<Rightarrow> dict \<Rightarrow> state_source \<Rightarrow> rat \<Rightarrow> bool \<Rightarrow> store \<Rightarrow> string set \<times> store" where
  "merge d values src now force s =
     fold (merge_field d src now force) values
       ({}, s\<lparr>st_states := dict_setdefault d [] (st_states s)\<rparr>)"

definition mark :: "string \<Rightarrow> string list \<Rightarrow> state_source \<Rightarrow> rat \<Rightarrow> store \<Rightarrow> store" where
  "mark d fs src now s =
     s\<lparr>st_revisions :=
        fold (\<lambda>f. AList.update (d, f) \<lparr>rev_source = src, rev_updated_at = now\<rparr>) fs (st_revisions s)\<rparr>"

definition remove :: "string \<Rightarrow> store \<Rightarrow> store" where
  "remove d s =
     s\<lparr>st_revisions :=
        fold (\<lambda>key revs. if fst key = d then AList.delete key revs else revs)
          (map fst (st_revisions s)) (st_revisions s)\<rparr>"

section \<open>Cells\<close>

type_synonym cell = "pyval option \<times> field_revision option"

definition cell :: "store \<Rightarrow> string \<Rightarrow> string \<Rightarrow> cell" where
  "cell s d f = (map_of (state_of s d) f, map_of (st_revisions s) (d, f))"

definition skips :: "state_source \<Rightarrow> rat \<Rightarrow> bool \<Rightarrow> rat \<Rightarrow> cell \<Rightarrow> bool" where
  "skips src now force guard c \<longleftrightarrow> \<not> force \<and> protected (snd c) src now guard"

definition differs :: "pyval \<Rightarrow> cell \<Rightarrow> bool" where
  "differs v c = (case fst c of None \<Rightarrow> True | Some u \<Rightarrow> \<not> py_eq u v)"

definition merge_cell :: "state_source \<Rightarrow> rat \<Rightarrow> bool \<Rightarrow> rat \<Rightarrow> pyval \<Rightarrow> cell \<Rightarrow> cell" where
  "merge_cell src now force guard v c =
     (if skips src now force guard c then c
      else (if differs v c then Some v else fst c, Some \<lparr>rev_source = src, rev_updated_at = now\<rparr>))"

lemma merge_field_guard [frame_simps, simp]:
  "st_guard (snd (merge_field d src now force fv cs)) = st_guard (snd cs)"
  by (simp add: merge_field_def Let_def split: prod.splits)

lemma state_of_update [simp]:
  "state_of (s\<lparr>st_states := AList.update d st (st_states s)\<rparr>) d'
     = (if d' = d then st else state_of s d')"
  "state_of (s\<lparr>st_revisions := r\<rparr>) d' = state_of s d'"
  by (auto simp: state_of_def dict_simps)

lemma state_of_setdefault [simp]:
  "state_of (s\<lparr>st_states := dict_setdefault d [] (st_states s)\<rparr>) d' = state_of s d'"
  by (auto simp: state_of_def dict_simps split: option.splits)

lemma cell_setdefault [simp]:
  "cell (s\<lparr>st_states := dict_setdefault d [] (st_states s)\<rparr>) d' f = cell s d' f"
  by (simp add: cell_def)

lemma write_iff_differs:
  "(\<not> py_eq (get (state_of s d) f) v \<or> \<not> has_key (state_of s d) f) \<longleftrightarrow> differs v (cell s d f)"
  by (auto simp: differs_def cell_def dget_def has_key_def split: option.splits)

lemma cell_merge_field:
  "cell (snd (merge_field d src now force (g, v) (ch, s))) d' f
     = (if d' = d \<and> f = g then merge_cell src now force (st_guard s) v (cell s d f) else cell s d' f)"
  unfolding merge_field_def Let_def write_iff_differs prod.case
  by (auto simp: merge_cell_def skips_def cell_def dict_simps)

lemma changed_merge_field:
  "fst (merge_field d src now force (g, v) (ch, s))
     = (if \<not> skips src now force (st_guard s) (cell s d g) \<and> differs v (cell s d g)
        then insert g ch else ch)"
  unfolding merge_field_def Let_def write_iff_differs prod.case
  by (auto simp: skips_def cell_def)

lemma merge_loop:
  assumes "distinct (map fst values)"
  shows "cell (snd (fold (merge_field d src now force) values (ch, s))) d' f
      = (case (if d' = d then map_of values f else None) of None \<Rightarrow> cell s d' f
         | Some v \<Rightarrow> merge_cell src now force (st_guard s) v (cell s d f))
    \<and> fst (fold (merge_field d src now force) values (ch, s))
      = ch \<union> {f. \<exists>v. map_of values f = Some v
           \<and> \<not> skips src now force (st_guard s) (cell s d f) \<and> differs v (cell s d f)}
    \<and> st_guard (snd (fold (merge_field d src now force) values (ch, s))) = st_guard s"
  using assms
proof (induction "values" arbitrary: ch s)
  case Nil
  then show ?case by simp
next
  case (Cons fv vs)
  obtain g v where fv: "fv = (g, v)" by (cases fv)
  obtain ch1 s1 where m: "merge_field d src now force (g, v) (ch, s) = (ch1, s1)"
    by (cases "merge_field d src now force (g, v) (ch, s)")
  have s1: "s1 = snd (merge_field d src now force (g, v) (ch, s))"
    and ch1: "ch1 = fst (merge_field d src now force (g, v) (ch, s))" using m by auto
  have g: "map_of vs g = None" using Cons.prems by (simp add: fv map_of_eq_None_iff)
  have guard: "st_guard s1 = st_guard s" by (simp add: s1)
  have c1: "cell s1 d'' f' = (if d'' = d \<and> f' = g
      then merge_cell src now force (st_guard s) v (cell s d f') else cell s d'' f')" for d'' f'
    unfolding s1 by (rule cell_merge_field)
  have ch1': "ch1 = (if \<not> skips src now force (st_guard s) (cell s d g) \<and> differs v (cell s d g)
        then insert g ch else ch)"
    unfolding ch1 by (rule changed_merge_field)
  have "distinct (map fst vs)" using Cons.prems by simp
  note IH = Cons.IH [OF this, of ch1 s1, unfolded guard c1]
  have same: "{f. \<exists>u. map_of vs f = Some u \<and> \<not> skips src now force (st_guard s) (cell s1 d f)
        \<and> differs u (cell s1 d f)}
      = {f. \<exists>u. map_of vs f = Some u \<and> \<not> skips src now force (st_guard s) (cell s d f)
        \<and> differs u (cell s d f)}"
    using g by (auto simp: c1)
  show ?case
    using IH same g unfolding fv
    by (auto simp: m ch1' c1 split: option.splits if_splits)
qed

lemma cell_merge:
  assumes "distinct (map fst values)"
  shows "cell (snd (merge d values src now force s)) d' f
      = (case (if d' = d then map_of values f else None) of None \<Rightarrow> cell s d' f
         | Some v \<Rightarrow> merge_cell src now force (st_guard s) v (cell s d f))"
  using merge_loop [OF assms, of d src now force "{}"
      "s\<lparr>st_states := dict_setdefault d [] (st_states s)\<rparr>" d' f]
  by (auto simp: merge_def split: option.splits)

lemma changed_merge:
  assumes "distinct (map fst values)"
  shows "fst (merge d values src now force s)
      = {f. \<exists>v. map_of values f = Some v
           \<and> \<not> skips src now force (st_guard s) (cell s d f) \<and> differs v (cell s d f)}"
  using merge_loop [OF assms, of d src now force "{}"
      "s\<lparr>st_states := dict_setdefault d [] (st_states s)\<rparr>"]
  by (auto simp: merge_def split: option.splits)

lemma merge_guard [frame_simps]:
  "distinct (map fst values) \<Longrightarrow> st_guard (snd (merge d values src now force s)) = st_guard s"
  using merge_loop [of "values" d src now force "{}"
      "s\<lparr>st_states := dict_setdefault d [] (st_states s)\<rparr>"]
  by (simp add: merge_def)

lemma map_of_mark:
  "map_of (fold (\<lambda>f. AList.update (d, f) r) fs revs) (d', f')
     = (if d' = d \<and> f' \<in> set fs then Some r else map_of revs (d', f'))"
  by (induction fs arbitrary: revs) (auto simp: dict_simps)

lemma cell_mark:
  "cell (mark d fs src now s) d' f
     = (if d' = d \<and> f \<in> set fs
        then (fst (cell s d f), Some \<lparr>rev_source = src, rev_updated_at = now\<rparr>) else cell s d' f)"
  by (auto simp: cell_def mark_def map_of_mark)

lemma map_of_remove_loop:
  "map_of (fold (\<lambda>key revs. if fst key = d then AList.delete key revs else revs) keys revs) (d', f)
     = (if d' = d \<and> (d', f) \<in> set keys then None else map_of revs (d', f))"
  by (induction keys arbitrary: revs) (auto simp: dict_simps)

lemma cell_remove:
  "cell (remove d s) d' f = (fst (cell s d' f), if d' = d then None else snd (cell s d' f))"
  by (auto simp: cell_def remove_def map_of_remove_loop map_of_eq_None_iff [symmetric] simp del: map_of_eq_None_iff)

section \<open>What a client of the store relies on\<close>

record update =
  up_device :: string
  up_values :: dict
  up_source :: state_source
  up_now :: rat
  up_force :: bool

definition lands :: "pyval \<Rightarrow> cell \<Rightarrow> bool" where
  "lands v c = (case fst c of None \<Rightarrow> False | Some w \<Rightarrow> w = v \<or> py_eq w v)"

lemma lands_merge_cell:
  "\<not> skips src now force guard c \<Longrightarrow>
     lands v (merge_cell src now force guard v c)
     \<and> snd (merge_cell src now force guard v c) = Some \<lparr>rev_source = src, rev_updated_at = now\<rparr>"
  by (auto simp: lands_def merge_cell_def differs_def split: option.splits)

locale prioritized_cells =
  fixes apply_update :: "update \<Rightarrow> 's \<Rightarrow> 's"
    and cell_at :: "'s \<Rightarrow> string \<Rightarrow> string \<Rightarrow> cell"
    and guard_of :: "'s \<Rightarrow> rat"
  assumes cell_update: "distinct (map fst (up_values u)) \<Longrightarrow>
      cell_at (apply_update u s) d f
      = (case (if d = up_device u then map_of (up_values u) f else None) of None \<Rightarrow> cell_at s d f
         | Some v \<Rightarrow> merge_cell (up_source u) (up_now u) (up_force u) (guard_of s) v (cell_at s d f))"
    and guard_update: "distinct (map fst (up_values u)) \<Longrightarrow> guard_of (apply_update u s) = guard_of s"
begin

definition weaker :: "state_source \<Rightarrow> rat \<Rightarrow> rat \<Rightarrow> string \<Rightarrow> string \<Rightarrow> update \<Rightarrow> bool" where
  "weaker src t guard d f u \<longleftrightarrow> distinct (map fst (up_values u)) \<and>
     (up_device u = d \<and> f \<in> fst ` set (up_values u) \<longrightarrow>
        \<not> up_force u \<and> up_source u < src \<and> up_now u - t < guard)"

lemma weaker_update_keeps:
  assumes "snd (cell_at s d f) = Some \<lparr>rev_source = src, rev_updated_at = t\<rparr>"
    and "weaker src t (guard_of s) d f u"
  shows "cell_at (apply_update u s) d f = cell_at s d f"
  using assms
  by (auto simp: weaker_def cell_update merge_cell_def skips_def protected_def
      split: option.splits dest!: map_of_SomeD intro: rev_image_eqI)

lemma weaker_history_keeps:
  assumes "snd (cell_at s d f) = Some \<lparr>rev_source = src, rev_updated_at = t\<rparr>"
    and "\<And>u. u \<in> set us \<Longrightarrow> weaker src t (guard_of s) d f u"
  shows "cell_at (fold apply_update us s) d f = cell_at s d f"
  using assms
proof (induction us arbitrary: s)
  case Nil
  then show ?case by simp
next
  case (Cons u us)
  have w: "weaker src t (guard_of s) d f u" using Cons.prems(2) by simp
  then have g: "guard_of (apply_update u s) = guard_of s" by (simp add: weaker_def guard_update)
  have keep: "cell_at (apply_update u s) d f = cell_at s d f"
    by (rule weaker_update_keeps [OF Cons.prems(1) w])
  have "cell_at (fold apply_update us (apply_update u s)) d f = cell_at (apply_update u s) d f"
  proof (rule Cons.IH)
    show "snd (cell_at (apply_update u s) d f) = Some \<lparr>rev_source = src, rev_updated_at = t\<rparr>"
      using Cons.prems(1) keep by simp
    show "weaker src t (guard_of (apply_update u s)) d f v" if "v \<in> set us" for v
      using Cons.prems(2) that g by simp
  qed
  then show ?case using keep by simp
qed

lemma update_lands:
  assumes "distinct (map fst (up_values u))" "map_of (up_values u) f = Some v"
    and "\<not> skips (up_source u) (up_now u) (up_force u) (guard_of s) (cell_at s (up_device u) f)"
  shows "lands v (cell_at (apply_update u s) (up_device u) f)
    \<and> snd (cell_at (apply_update u s) (up_device u) f)
      = Some \<lparr>rev_source = up_source u, rev_updated_at = up_now u\<rparr>"
  using assms lands_merge_cell by (auto simp: cell_update)

text \<open>Two reports of one field within the guard, in either order: the stronger source wins.\<close>

lemma stronger_wins:
  assumes "distinct (map fst (up_values a))" "distinct (map fst (up_values b))"
    and "up_device a = d" "map_of (up_values a) f = Some v"
    and "up_source b < up_source a" "up_now b - up_now a < guard_of s" "\<not> up_force b"
    and fresh: "snd (cell_at s d f) = None"
  shows "lands v (cell_at (fold apply_update [a, b] s) d f)
    \<and> lands v (cell_at (fold apply_update [b, a] s) d f)"
proof -
  have a: "lands v (cell_at (apply_update a s) d f)
      \<and> snd (cell_at (apply_update a s) d f) = Some \<lparr>rev_source = up_source a, rev_updated_at = up_now a\<rparr>"
    using update_lands [of a f v s] assms(1,3,4) fresh by (simp add: skips_def protected_def)
  have "weaker (up_source a) (up_now a) (guard_of (apply_update a s)) d f b"
    using assms by (simp add: weaker_def guard_update)
  then have "cell_at (apply_update b (apply_update a s)) d f = cell_at (apply_update a s) d f"
    using a by (intro weaker_update_keeps) auto
  moreover have "\<not> skips (up_source a) (up_now a) (up_force a) (guard_of (apply_update b s))
      (cell_at (apply_update b s) (up_device a) f)"
    using assms
    by (auto simp: skips_def protected_def cell_update merge_cell_def
        split: option.splits if_splits)
  ultimately show ?thesis
    using a update_lands [of a f v "apply_update b s"] assms(1,3,4) by simp
qed

end

definition store_update :: "update \<Rightarrow> store \<Rightarrow> store" where
  "store_update u s = snd (merge (up_device u) (up_values u) (up_source u) (up_now u) (up_force u) s)"

interpretation ps: prioritized_cells store_update cell st_guard
  by unfold_locales (auto simp: store_update_def cell_merge merge_guard split: option.splits)

section \<open>Properties\<close>

text \<open>C1. The loop of \<^verbatim>\<open>merge\<close> implements the cell specification: every field of every device is updated
  as \<open>merge_cell\<close> says, cells of other devices and of fields not reported keep value and revision,
  and the returned set is exactly the fields that were let through with an unequal value.\<close>

theorem merge_refines_cells:
  assumes "distinct (map fst values)"
  shows "cell (snd (merge d values src now force s)) d' f
      = (case (if d' = d then map_of values f else None) of None \<Rightarrow> cell s d' f
         | Some v \<Rightarrow> merge_cell src now force (st_guard s) v (cell s d f))
    \<and> (f \<in> fst (merge d values src now force s) \<longleftrightarrow>
        (\<exists>v. map_of values f = Some v \<and> \<not> skips src now force (st_guard s) (cell s d f)
          \<and> differs v (cell s d f)))"
  using cell_merge [OF assms] changed_merge [OF assms] by auto

theorem merge_refines_cells_witness:
  "cell (snd (merge ''d'' [(''state'', VBool True)] LAN 5 False (new_store []))) ''d'' ''state''
     = merge_cell LAN 5 False 30 (VBool True) (cell (new_store []) ''d'' ''state'')
   \<and> ''state'' \<in> fst (merge ''d'' [(''state'', VBool True)] LAN 5 False (new_store []))"
  using merge_refines_cells [of "[(''state'', VBool True)]" "''d''" LAN 5 False "new_store []" "''d''" "''state''"]
  by (simp add: new_store_def cell_def state_of_def skips_def protected_def differs_def)

text \<open>C31. A field set by a source at a time keeps its value and its revision through any history of
  updates that are weaker, not forced and within the guard interval of 30 seconds, however many they
  are and whatever else they report.\<close>

theorem fresh_value_survives_history:
  assumes "snd (cell s d f) = Some \<lparr>rev_source = src, rev_updated_at = t\<rparr>"
    and "\<forall>u \<in> set us. distinct (map fst (up_values u)) \<and> \<not> up_force u \<and> up_source u < src
      \<and> up_now u - t < st_guard s"
  shows "cell (fold store_update us s) d f = cell s d f"
  using assms(2) by (intro ps.weaker_history_keeps [OF assms(1)]) (auto simp: ps.weaker_def)

theorem fresh_value_survives_history_witness:
  "cell (fold store_update
      [\<lparr>up_device = ''d'', up_values = [(''state'', VBool False)], up_source = CLOUD, up_now = 9, up_force = False\<rparr>,
       \<lparr>up_device = ''d'', up_values = [(''state'', VBool False)], up_source = OPTIMISTIC, up_now = 34, up_force = False\<rparr>]
      (snd (merge ''d'' [(''state'', VBool True)] LAN 5 False (new_store [])))) ''d'' ''state''
   = (Some (VBool True), Some \<lparr>rev_source = LAN, rev_updated_at = 5\<rparr>)"
proof -
  let ?s = "snd (merge ''d'' [(''state'', VBool True)] LAN 5 False (new_store []))"
  have c: "cell ?s ''d'' ''state'' = (Some (VBool True), Some \<lparr>rev_source = LAN, rev_updated_at = 5\<rparr>)"
    by (simp add: cell_merge) (simp add: merge_cell_def new_store_def cell_def state_of_def skips_def protected_def differs_def)
  have g: "st_guard ?s = 30" by (simp add: merge_guard new_store_def)
  show ?thesis
    by (subst fresh_value_survives_history [where src = LAN and t = 5])
       (simp_all add: c g source_order)
qed

text \<open>Two reports of one field that no source has set before, less than the guard interval apart,
  end in the value of the stronger source whichever of them arrives first.\<close>

lemma arrival_order_irrelevant:
  assumes "distinct (map fst va)" "distinct (map fst vb)" "map_of va f = Some v"
    and "b < a" "tb - ta < st_guard s" "snd (cell s d f) = None"
  shows "lands v (cell (snd (merge d vb b tb False (snd (merge d va a ta False s)))) d f)
    \<and> lands v (cell (snd (merge d va a ta False (snd (merge d vb b tb False s)))) d f)"
  using ps.stronger_wins [of
      "\<lparr>up_device = d, up_values = va, up_source = a, up_now = ta, up_force = False\<rparr>"
      "\<lparr>up_device = d, up_values = vb, up_source = b, up_now = tb, up_force = False\<rparr>" d f v s] assms
  by (simp add: store_update_def)

text \<open>A forced update, an update of a source at least as strong as the field's last one, and an
  update that comes after the guard interval always land: the field then holds the reported value (or
  one Python calls equal to it) under the revision of the update.\<close>

lemma unprotected_update_lands:
  assumes "distinct (map fst values)" "map_of values f = Some v"
    and "force \<or> (\<forall>r. snd (cell s d f) = Some r \<longrightarrow> rev_source r \<le> src \<or> st_guard s \<le> now - rev_updated_at r)"
  shows "lands v (cell (snd (merge d values src now force s)) d f)
    \<and> snd (cell (snd (merge d values src now force s)) d f)
      = Some \<lparr>rev_source = src, rev_updated_at = now\<rparr>"
  using ps.update_lands [of
      "\<lparr>up_device = d, up_values = values, up_source = src, up_now = now, up_force = force\<rparr>" f v s] assms
  by (auto simp: store_update_def skips_def protected_def not_less not_le split: option.splits)

text \<open>Removing a device forgets the revisions of all its fields and of no other device, and leaves
  every value in place: the first report after it lands whatever its source.\<close>

lemma remove_forgets_revisions:
  "cell (remove d s) d' f = (fst (cell s d' f), if d' = d then None else snd (cell s d' f))"
  by (rule cell_remove)

end
