(* ===== verification/Control_Executor.thy ===== *)
theory Control_Executor
  imports Lan_Control_Adapter Capabilities State_Store
begin

text \<open>
  \<^verbatim>\<open>control_executor.py\<close>: the choice of the transport, the invocation with one retry in the cloud,
  the wait for the device's answer and the optimistic state when none comes.

  The world is the executor's own state (devices, state store, the transport each device was last
  controlled through, the number of notifications to the listeners) and an outside component. What
  the executor is constructed with is the parameter record \<open>env\<close>: the two clients (whether they
  exist, how a method call answers), the reachability of a gateway, the wait for a response, the
  coordinator's own methods, the model catalogue, the clock and the transport mode. A call may
  change the world in any way, since other coroutines run while it is awaited.
\<close>

section \<open>The executor's world\<close>

record 'x exec =
  ex_devices :: "(string, dict) pydict"
  ex_store :: store
  ex_last :: "(string, string) pydict"
  ex_notified :: nat
  ex_outside :: 'x

datatype client = LAN_CLIENT | SSL_CLIENT

record 'w env =
  has_ssl :: "'w \<Rightarrow> bool"
  has_lan :: "'w \<Rightarrow> bool"
  has_target :: "'w \<Rightarrow> bool"
  gateway_connected :: "pyval \<Rightarrow> 'w \<Rightarrow> bool"
  client_call :: "client \<Rightarrow> string \<Rightarrow> pyval list \<Rightarrow> dict \<Rightarrow> ('w, pyval) io"
  target_call :: "string \<Rightarrow> pyval list \<Rightarrow> dict \<Rightarrow> ('w, pyval) io"
  clothes_horse_call :: "string \<Rightarrow> pyval \<Rightarrow> string \<Rightarrow> string \<Rightarrow> ('w, pyval) io"
  wait_response :: "string \<Rightarrow> ('w, pyval) io"
  read_state :: "string \<Rightarrow> 'w \<Rightarrow> dict option"
  clock :: "'w \<Rightarrow> rat"
  catalog :: model_catalog
  mode :: transport_mode

definition last_transport :: "string \<Rightarrow> 'x exec \<Rightarrow> string option" where
  "last_transport d w = map_of (ex_last w) d"

definition set_last :: "string \<Rightarrow> string \<Rightarrow> ('x exec, unit) io" where
  "set_last d t = modifyS (\<lambda>w. w\<lparr>ex_last := AList.update d t (ex_last w)\<rparr>)"

definition notify :: "('x exec, unit) io" where
  "notify = modifyS (\<lambda>w. w\<lparr>ex_notified := Suc (ex_notified w)\<rparr>)"

definition states_get :: "string \<Rightarrow> 'x exec \<Rightarrow> dict" where
  "states_get d w = state_of (ex_store w) d"

definition write_state :: "string \<Rightarrow> dict \<Rightarrow> ('x exec, unit) io" where
  "write_state d values = modifyS (\<lambda>w. w\<lparr>ex_store := (ex_store w)
     \<lparr>st_states := AList.update d (dict_merge (state_of (ex_store w) d) values) (st_states (ex_store w))\<rparr>\<rparr>)"

definition whenS :: "bool \<Rightarrow> ('w, unit) io \<Rightarrow> ('w, unit) io" where
  "whenS b m = (if b then m else retS ())"

definition thenS :: "('w, unit) io \<Rightarrow> ('w, 'a) io \<Rightarrow> ('w, 'a) io" where
  "thenS m n = bindS m (\<lambda>_. n)"

section \<open>Response and optimistic state\<close>

definition wait_for_response :: "'x exec env \<Rightarrow> string \<Rightarrow> ('x exec, pyval) io" where
  "wait_for_response env d =
     bindS (getS (has_ssl env)) (\<lambda>ssl. if ssl then wait_response env d else retS VNone)"

definition apply_optimistic :: "'x exec env \<Rightarrow> string \<Rightarrow> dict \<Rightarrow> ('x exec, unit) io" where
  "apply_optimistic env d values =
     modifyS (\<lambda>w. w\<lparr>ex_store := snd (merge d values OPTIMISTIC (clock env w) True (ex_store w))\<rparr>)"

definition wait_if_ssl :: "'x exec env \<Rightarrow> string \<Rightarrow> string \<Rightarrow> ('x exec, pyval) io" where
  "wait_if_ssl env d scope = (if scope \<noteq> ''ssl'' then retS VNone else wait_for_response env d)"

definition mark_optimistic :: "'x exec env \<Rightarrow> string \<Rightarrow> string list \<Rightarrow> ('x exec, unit) io" where
  "mark_optimistic env d fs =
     modifyS (\<lambda>w. w\<lparr>ex_store := mark d fs OPTIMISTIC (clock env w) (ex_store w)\<rparr>)"

section \<open>Choosing and invoking a transport\<close>

definition transport :: "'x exec env \<Rightarrow> string \<Rightarrow> ('x exec, client option \<times> string) io" where
  "transport env d = getS (\<lambda>w.
     let device = (case map_of (ex_devices w) d of None \<Rightarrow> [] | Some dev \<Rightarrow> dev);
         device_uid = dget device ''uid'' (VStr []);
         ssl = (if has_ssl env w then Some SSL_CLIENT else None)
     in if mode env \<noteq> MODE_CLOUD_ONLY then
          (if has_lan env w \<and> gateway_connected env device_uid w \<and>
              (case capability_for (catalog env) (VDict device) of
                 Inl e \<Rightarrow> False | Inr c \<Rightarrow> CH_LAN \<in> cap_channels c)
           then (Some LAN_CLIENT, ''lan'')
           else if mode env = MODE_LAN_ONLY then (None, ''lan'')
           else (ssl, ''ssl''))
        else (ssl, ''ssl''))"

definition invoke_with_fallback ::
  "'x exec env \<Rightarrow> string \<Rightarrow> client option \<Rightarrow> string \<Rightarrow> string \<Rightarrow> pyval list \<Rightarrow> dict
     \<Rightarrow> ('x exec, bool \<times> string) io" where
  "invoke_with_fallback env d owner scope method args kwargs =
     (case owner of None \<Rightarrow> retS (False, scope)
      | Some client \<Rightarrow>
          bindS (except_any (bindS (client_call env client method args kwargs) (\<lambda>r. retS (truthy r)))
                   (\<lambda>err. if scope \<noteq> ''lan'' then raiseS err else retS False)) (\<lambda>result.
            if result \<or> scope \<noteq> ''lan'' \<or> mode env = MODE_LAN_ONLY then
              thenS (whenS (result \<and> scope \<in> {''lan'', ''ssl''})
                       (set_last d (if scope = ''ssl'' then ''cloud'' else scope)))
                (retS (result, scope))
            else bindS (getS (has_ssl env)) (\<lambda>ssl.
              if \<not> ssl then retS (False, scope)
              else bindS (client_call env SSL_CLIENT method args kwargs) (\<lambda>r.
                thenS (whenS (truthy r) (set_last d ''cloud'')) (retS (truthy r, ''ssl'')))))) "

definition send_selected ::
  "'x exec env \<Rightarrow> string \<Rightarrow> string \<Rightarrow> pyval list \<Rightarrow> dict \<Rightarrow> ('x exec, bool \<times> string) io" where
  "send_selected env d method args kwargs =
     bindS (transport env d) (\<lambda>(owner, scope). invoke_with_fallback env d owner scope method args kwargs)"

definition execute_scoped_route ::
  "'x exec env \<Rightarrow> string \<Rightarrow> pyval \<Rightarrow> control_route \<Rightarrow> ('x exec, bool \<times> string) io" where
  "execute_scoped_route env d uid route =
     (if rt_scope route = ''ssl'' then
        bindS (transport env d) (\<lambda>(owner, scope).
          invoke_with_fallback env d owner scope (rt_method route) ([VStr d, uid] @ rt_args route)
            (rt_kwargs route))
      else bindS (getS (has_target env)) (\<lambda>target.
        if \<not> target then retS (False, rt_scope route)
        else bindS (target_call env (rt_method route)
            ((if rt_scope route = ''coordinator_uid'' then [VStr d, uid] else [VStr d]) @ rt_args route)
            (rt_kwargs route)) (\<lambda>r. retS (truthy r, rt_scope route))))"

definition execute_route ::
  "'x exec env \<Rightarrow> string \<Rightarrow> pyval \<Rightarrow> control_route \<Rightarrow> ('x exec, bool) io" where
  "execute_route env d uid route = bindS (execute_scoped_route env d uid route) (\<lambda>(ok, scope). retS ok)"

section \<open>Which devices may be controlled\<close>

definition connected_device :: "'x exec env \<Rightarrow> string \<Rightarrow> 'x exec \<Rightarrow> dict option" where
  "connected_device env d w =
     (if \<not> has_ssl env w \<and> \<not> has_lan env w then None else map_of (ex_devices w) d)"

definition controllable_device :: "'x exec env \<Rightarrow> string \<Rightarrow> ('x exec, dict option) io" where
  "controllable_device env d =
     bindS (getS (connected_device env d)) (\<lambda>dev.
       case dev of None \<Rightarrow> retS None
       | Some device \<Rightarrow>
           bindS (liftE (get_device_profile (catalog env) (VDict device))) (\<lambda>profile.
             retS (if dp_registration_only profile then None else Some device)))"

text \<open>\<^verbatim>\<open>device = self._controllable_device(...); if device is None: return False\<close>, and the category.\<close>

definition with_controllable ::
  "'x exec env \<Rightarrow> string \<Rightarrow> (dict \<Rightarrow> device_category \<Rightarrow> ('x exec, bool) io) \<Rightarrow> ('x exec, bool) io" where
  "with_controllable env d body =
     bindS (controllable_device env d) (\<lambda>dev.
       case dev of None \<Rightarrow> retS False
       | Some device \<Rightarrow> bindS (liftE (classify_device (catalog env) (VDict device))) (body device))"

abbreviation uid_field :: "dict \<Rightarrow> pyval" where
  "uid_field device \<equiv> dget device ''uid'' (VStr [])"

section \<open>The controls\<close>

definition confirm ::
  "'x exec env \<Rightarrow> string \<Rightarrow> dict \<Rightarrow> bool \<times> string \<Rightarrow> ('x exec, bool) io" where
  "confirm env d optimistic = (\<lambda>(result, scope).
     if \<not> result then retS False
     else bindS (wait_if_ssl env d scope) (\<lambda>response.
       thenS (whenS (\<not> truthy response) (apply_optimistic env d optimistic))
         (thenS notify (retS True))))"

definition opt_field :: "string \<Rightarrow> int option \<Rightarrow> dict" where
  "opt_field k v = (case v of None \<Rightarrow> [] | Some n \<Rightarrow> [(k, VInt n)])"

definition turn_on :: "'x exec env \<Rightarrow> string \<Rightarrow> int option \<Rightarrow> int option \<Rightarrow> ('x exec, bool) io" where
  "turn_on env d brightness color_temp =
     with_controllable env d (\<lambda>device category.
       bindS (getS (read_state env d)) (\<lambda>st.
       bindS (liftE (power_route category True (case st of None \<Rightarrow> [] | Some s \<Rightarrow> s)
           brightness color_temp (Some device))) (\<lambda>route.
       bindS (execute_scoped_route env d (uid_field device) route)
         (confirm env d (dict_merge ((''state'', VBool True) # opt_field ''brightness'' brightness @
            opt_field ''color_temp'' color_temp) (rt_optimistic route))))))"

definition turn_off :: "'x exec env \<Rightarrow> string \<Rightarrow> ('x exec, bool) io" where
  "turn_off env d =
     with_controllable env d (\<lambda>device category.
       bindS (getS (read_state env d)) (\<lambda>st.
       bindS (liftE (power_route category False (case st of None \<Rightarrow> [] | Some s \<Rightarrow> s)
           None None (Some device))) (\<lambda>route.
       bindS (execute_scoped_route env d (uid_field device) route)
         (confirm env d [(''state'', VBool False)]))))"

definition execute_confirmed_route ::
  "'x exec env \<Rightarrow> string \<Rightarrow> dict \<Rightarrow> control_route \<Rightarrow> ('x exec, bool) io" where
  "execute_confirmed_route env d device route =
     bindS (execute_scoped_route env d (uid_field device) route) (confirm env d (rt_optimistic route))"

definition set_brightness :: "'x exec env \<Rightarrow> string \<Rightarrow> int \<Rightarrow> ('x exec, bool) io" where
  "set_brightness env d brightness =
     (if brightness \<le> 0 then turn_off env d
      else with_controllable env d (\<lambda>device category.
        bindS (getS (states_get d)) (\<lambda>st.
        bindS (liftE (brightness_route category brightness st (get device ''device_type_raw'') (Some device)))
          (execute_confirmed_route env d device))))"

definition set_color_temp :: "'x exec env \<Rightarrow> string \<Rightarrow> int \<Rightarrow> ('x exec, bool) io" where
  "set_color_temp env d color_temp_k =
     with_controllable env d (\<lambda>device category.
       bindS (getS (states_get d)) (\<lambda>st.
         execute_confirmed_route env d device
           (color_temp_route category color_temp_k st (get device ''device_type_raw''))))"

definition set_light_param ::
  "'x exec env \<Rightarrow> string \<Rightarrow> int option \<Rightarrow> int option \<Rightarrow> ('x exec, bool) io" where
  "set_light_param env d brightness color_temp_k =
     bindS (getS (\<lambda>w. map_of (ex_devices w) d)) (\<lambda>dev.
       case dev of None \<Rightarrow> retS False
       | Some device \<Rightarrow>
           bindS (send_selected env d ''send_light_bri_ct''
             [VStr d, uid_field device, of_opt_int brightness, of_opt_int color_temp_k] [])
             (\<lambda>(result, scope). retS result))"

section \<open>Covers\<close>

text \<open>\<^verbatim>\<open>isinstance(v, (int, float)) and 0 <= v <= 100\<close>, and \<^verbatim>\<open>v > 0\<close>.\<close>

definition percentage :: "pyval \<Rightarrow> bool" where
  "percentage v = (case num_val v of None \<Rightarrow> False
     | Some x \<Rightarrow> float_le (Fin 0) x \<and> float_le x (Fin 100))"

definition positive :: "pyval \<Rightarrow> bool" where
  "positive v = (case num_val v of None \<Rightarrow> False | Some x \<Rightarrow> float_lt (Fin 0) x)"

definition confirm_position ::
  "'x exec env \<Rightarrow> string \<Rightarrow> int \<Rightarrow> bool \<times> string \<Rightarrow> ('x exec, bool) io" where
  "confirm_position env d position = (\<lambda>(result, scope).
     if \<not> result then retS False
     else bindS (wait_if_ssl env d scope) (\<lambda>response.
       thenS
        (if truthy response then
           bindS (liftE (vget response ''value1'' VNone)) (\<lambda>actual.
             whenS (percentage actual)
               (write_state d [(''position'', actual), (''state'', VBool (positive actual))]))
         else apply_optimistic env d [(''position'', VInt position), (''state'', VBool (position > 0))])
        (thenS notify (retS True))))"

definition reported_angle :: "pyval \<Rightarrow> pyval py" where
  "reported_angle response =
     (if is_dict response then
        bindE (vget response ''properties'' (VDict [])) (\<lambda>ps.
        bindE (vget ps ''curtain'' (VDict [])) (\<lambda>c. vget c ''angle'' VNone))
      else Inr VNone)"

definition dream_curtain_percent ::
  "'x exec env \<Rightarrow> string \<Rightarrow> dict \<Rightarrow> int \<Rightarrow> client option \<Rightarrow> string \<Rightarrow> ('x exec, bool) io" where
  "dream_curtain_percent env d device position owner scope =
     bindS (invoke_with_fallback env d owner scope ''send_control_dream_curtain_percent''
         [VStr d, uid_field device, VInt position] [])
       (confirm_position env d position)"

text \<open>The slats must stand at 90 degrees before the curtain is moved: known to, or centred first, which
  is allowed only on a closed curtain and must be confirmed by the device.\<close>

definition dream_curtain_position ::
  "'x exec env \<Rightarrow> string \<Rightarrow> dict \<Rightarrow> int \<Rightarrow> client option \<Rightarrow> string \<Rightarrow> ('x exec, bool) io" where
  "dream_curtain_position env d device position owner scope =
     bindS (getS (states_get d)) (\<lambda>current.
       if py_eq (get current ''angle'') (VInt 90) then dream_curtain_percent env d device position owner scope
       else if \<not> py_eq (get current ''position'') (VInt 0) then retS False
       else bindS (invoke_with_fallback env d owner scope ''send_control_dream_curtain_angle''
              [VStr d, uid_field device, VInt 90] []) (\<lambda>(centered, scope).
         if \<not> centered then retS False
         else bindS (wait_if_ssl env d scope) (\<lambda>response.
           bindS (liftE (reported_angle response)) (\<lambda>angle.
             if \<not> py_eq angle (VInt 90) then retS False
             else if scope = ''ssl'' then
               bindS (getS (has_ssl env)) (\<lambda>ssl.
                 if ssl then dream_curtain_percent env d device position (Some SSL_CLIENT) scope
                 else retS False)
             else dream_curtain_percent env d device position owner scope))))"

definition set_cover_position :: "'x exec env \<Rightarrow> string \<Rightarrow> int \<Rightarrow> ('x exec, bool) io" where
  "set_cover_position env d position =
     bindS (controllable_device env d) (\<lambda>dev.
       case dev of None \<Rightarrow> retS False
       | Some device \<Rightarrow>
           bindS (transport env d) (\<lambda>(owner, scope).
             if owner = None then retS False
             else bindS (liftE (classify_device (catalog env) (VDict device))) (\<lambda>category.
               if is_rf_curtain device \<and> category \<in> {ZIGBEE_CURTAIN, ZIGBEE_ROLLING_SHUTTER, LEGACY_CURTAIN}
               then retS False
               else if category = DREAM_CURTAIN then dream_curtain_position env d device position owner scope
               else bindS (invoke_with_fallback env d owner scope ''send_control_cover''
                      [VStr d, uid_field device, VInt position] [])
                    (confirm_position env d position))))"

definition stop_cover :: "'x exec env \<Rightarrow> string \<Rightarrow> ('x exec, bool) io" where
  "stop_cover env d =
     with_controllable env d (\<lambda>device category.
       bindS (transport env d) (\<lambda>(owner, scope).
         if owner = None then retS False
         else if category = DREAM_CURTAIN then
           bindS (invoke_with_fallback env d owner scope ''send_control_dream_curtain_action''
             [VStr d, uid_field device, VStr ''pause''] []) (\<lambda>(result, _). retS result)
         else if is_rf_curtain device then
           bindS (liftE (curtain_command ''stop'' device None)) (\<lambda>command.
             bindS (invoke_with_fallback env d owner scope ''send_control_cover''
               [VStr d, uid_field device, VInt 0]
               [(''order'', cmd_order command), (''wire_value1'', cmd_value1 command)])
               (\<lambda>(result, _). retS result))
         else
           bindS (invoke_with_fallback env d owner scope ''send_control_cover''
             [VStr d, uid_field device, VStr ''stop'']
             [(''stop_value2'', VInt (if category = ZIGBEE_ROLLING_SHUTTER then 255 else 0))])
             (\<lambda>(result, _). retS result)))"

definition send_then_optimistic ::
  "'x exec env \<Rightarrow> string \<Rightarrow> dict \<Rightarrow> string \<Rightarrow> pyval \<Rightarrow> dict \<Rightarrow> ('x exec, bool) io" where
  "send_then_optimistic env d device method arg optimistic =
     bindS (send_selected env d method [VStr d, uid_field device, arg] []) (\<lambda>(result, _).
       thenS (whenS result (thenS (apply_optimistic env d optimistic) notify)) (retS result))"

definition set_dream_curtain_angle :: "'x exec env \<Rightarrow> string \<Rightarrow> int \<Rightarrow> ('x exec, bool) io" where
  "set_dream_curtain_angle env d angle =
     with_controllable env d (\<lambda>device category.
       if category \<noteq> DREAM_CURTAIN then retS False
       else bindS (getS (states_get d)) (\<lambda>st.
         if \<not> py_eq (get st ''position'') (VInt 0) then retS False
         else send_then_optimistic env d device ''send_control_dream_curtain_angle'' (VInt angle)
           [(''angle'', VInt (max 0 (min 180 angle)))]))"

definition dream_curtain_action :: "'x exec env \<Rightarrow> string \<Rightarrow> string \<Rightarrow> ('x exec, bool) io" where
  "dream_curtain_action env d action =
     with_controllable env d (\<lambda>device category.
       if category \<noteq> DREAM_CURTAIN then retS False
       else send_then_optimistic env d device ''send_control_dream_curtain_action'' (VStr action)
         [(''cover_action'', VStr action)])"

section \<open>Floor heating, ventilation, clothes horse\<close>

definition set_floor_heating_temperature :: "'x exec env \<Rightarrow> string \<Rightarrow> int \<Rightarrow> ('x exec, bool) io" where
  "set_floor_heating_temperature env d temperature =
     with_controllable env d (\<lambda>device category.
       if category \<notin> {FLOOR_HEATING, LEGACY_FLOOR_HEATING} then retS False
       else bindS (getS (states_get d)) (\<lambda>st.
         let low_default = (if category = LEGACY_FLOOR_HEATING then 10 else 8)
         in bindS (liftE (py_int (py_or (get st ''min_temperature'') (VInt low_default)))) (\<lambda>low.
            bindS (liftE (py_int (py_or (get st ''max_temperature'') (VInt 35)))) (\<lambda>high.
              let target = max low (min high temperature)
              in send_then_optimistic env d device
                   (if category = LEGACY_FLOOR_HEATING then ''send_control_legacy_floor_heating_temperature''
                    else ''send_control_floor_heating_temperature'')
                   (VInt target) [(''target_temperature'', VInt target)]))))"

definition ventilation_state :: "int \<Rightarrow> dict" where
  "ventilation_state value1 =
     (if value1 = 0 then [(''fan_speed'', VStr SPEED_SLOW), (''state'', VBool True)]
      else if value1 = 50 then [(''fan_speed'', VStr SPEED_STOP), (''state'', VBool False)]
      else if value1 = 100 then [(''fan_speed'', VStr SPEED_FAST), (''state'', VBool True)]
      else []) @ [(''value1'', VInt value1)]"

definition ventilation_state_update :: "'x exec env \<Rightarrow> string \<Rightarrow> int \<Rightarrow> ('x exec, bool) io" where
  "ventilation_state_update env d value1 =
     bindS (getS (connected_device env d)) (\<lambda>dev.
       case dev of None \<Rightarrow> retS False
       | Some device \<Rightarrow>
           bindS (send_selected env d ''send_control_ventilation'' [VStr d, uid_field device, VInt value1] [])
             (\<lambda>(result, scope).
               if \<not> result then retS False
               else bindS (wait_if_ssl env d scope) (\<lambda>response.
                 thenS (whenS (\<not> truthy response)
                     (thenS (write_state d (ventilation_state value1))
                       (mark_optimistic env d [''fan_speed'', ''state'', ''value1''])))
                   (thenS notify (retS True)))))"

definition set_ventilation_preset_mode :: "'x exec env \<Rightarrow> string \<Rightarrow> string \<Rightarrow> ('x exec, bool) io" where
  "set_ventilation_preset_mode env d preset_mode =
     (case map_of [(SPEED_STOP, 50), (SPEED_SLOW, 0), (SPEED_FAST, 100)] preset_mode of
        None \<Rightarrow> retS False | Some value1 \<Rightarrow> ventilation_state_update env d value1)"

definition CLOTHES_HORSE_FIELD_MAP :: "(string \<times> string) list" where
  "CLOTHES_HORSE_FIELD_MAP =
     [(''lighting'', ''lightingCtrl''), (''sterilizing'', ''sterilizingCtrl''),
      (''wind_drying'', ''windDryingCtrl''), (''heat_drying'', ''heatDryingCtrl''),
      (''main_switch'', ''mainSwitchCtrl''), (''motor'', ''motorCtrl'')]"

definition clothes_horse_state :: "string \<Rightarrow> string \<Rightarrow> dict" where
  "clothes_horse_state feature v =
     (if feature = ''motor'' then [(''motor_state'', VStr v)]
      else (feature @ ''_state'', VBool (v = ''on'')) #
        (if feature = ''main_switch'' then [(''state'', VBool (v = ''on''))] else []))"

definition clothes_horse_control :: "'x exec env \<Rightarrow> string \<Rightarrow> string \<Rightarrow> string \<Rightarrow> ('x exec, bool) io" where
  "clothes_horse_control env d feature v =
     bindS (getS (connected_device env d)) (\<lambda>dev.
       case dev of None \<Rightarrow> retS False
       | Some device \<Rightarrow>
         (case map_of CLOTHES_HORSE_FIELD_MAP feature of None \<Rightarrow> retS False
          | Some control_field \<Rightarrow>
              bindS (getS (states_get d)) (\<lambda>st.
                if feature = ''sterilizing'' \<and> v = ''on'' \<and> \<not> py_eq (dget st ''position'' (VInt 0)) (VInt 0)
                then retS False
                else bindS (getS (has_ssl env)) (\<lambda>ssl.
                  if \<not> ssl then retS False
                  else bindS (clothes_horse_call env d (uid_field device) control_field v) (\<lambda>result.
                    thenS (whenS (truthy result)
                      (thenS (set_last d ''cloud'')
                        (bindS (getS (\<lambda>w. map_of (st_states (ex_store w)) d)) (\<lambda>state.
                          whenS (state \<noteq> None)
                            (thenS (write_state d (clothes_horse_state feature v))
                              (thenS (mark_optimistic env d (map fst (clothes_horse_state feature v))) notify))))))
                      (retS (truthy result)))))))"

section \<open>The transport that is chosen\<close>

lemma transport_cases:
  assumes "transport env d w = (Inr (owner, scope), w')"
  shows "w' = w \<and> (owner = Some LAN_CLIENT \<longrightarrow> scope = ''lan'') \<and> (owner = Some SSL_CLIENT \<longrightarrow> scope = ''ssl'')
    \<and> (mode env = MODE_LAN_ONLY \<longrightarrow> scope = ''lan'') \<and> (mode env = MODE_CLOUD_ONLY \<longrightarrow> scope = ''ssl'')
    \<and> scope \<in> {''lan'', ''ssl''}"
  using assms by (auto simp: transport_def Let_def split: if_splits)

lemma transport_run: "\<exists>owner scope. transport env d w = (Inr (owner, scope), w)"
  by (simp add: transport_def Let_def)

lemma transport_lan:
  assumes "transport env d w = (Inr (Some LAN_CLIENT, scope), w')"
  shows "mode env \<noteq> MODE_CLOUD_ONLY
    \<and> (\<exists>c. capability_for (catalog env) (VDict (case map_of (ex_devices w) d of None \<Rightarrow> [] | Some x \<Rightarrow> x)) = Inr c
        \<and> CH_LAN \<in> cap_channels c)"
  using assms by (auto simp: transport_def Let_def split: if_splits sum.splits)

lemma lan_channel_path:
  assumes "capability_for cat v = Inr c" "CH_LAN \<in> cap_channels c"
  shows "\<not> cap_cloud_only c \<and> \<not> cap_status_only c \<and> CH_SSL \<in> cap_channels c"
  using assms by (elim capability_forE) (auto simp: channels_of_def split: if_splits)

lemma bindS_cong:
  "(\<And>w x w'. m w = (Inr x, w') \<Longrightarrow> f x w' = g x w') \<Longrightarrow> bindS m f = bindS m g"
  by (auto simp: fun_eq_iff bindS_def split: prod.splits sum.splits)

definition swap_client :: "client \<Rightarrow> (string \<Rightarrow> pyval list \<Rightarrow> dict \<Rightarrow> ('w, pyval) io) \<Rightarrow> 'w env \<Rightarrow> 'w env" where
  "swap_client c f env = env\<lparr>client_call := \<lambda>c'. if c' = c then f else client_call env c'\<rparr>"

lemma swap_client_simps [simp]:
  "has_ssl (swap_client c f env) = has_ssl env" "has_lan (swap_client c f env) = has_lan env"
  "has_target (swap_client c f env) = has_target env"
  "gateway_connected (swap_client c f env) = gateway_connected env"
  "target_call (swap_client c f env) = target_call env"
  "clothes_horse_call (swap_client c f env) = clothes_horse_call env"
  "wait_response (swap_client c f env) = wait_response env"
  "read_state (swap_client c f env) = read_state env" "clock (swap_client c f env) = clock env"
  "catalog (swap_client c f env) = catalog env" "mode (swap_client c f env) = mode env"
  by (simp_all add: swap_client_def)

lemma swap_client_call [simp]:
  "client_call (swap_client c f env) c' = (if c' = c then f else client_call env c')"
  by (simp add: swap_client_def)

lemma swap_client_frame [simp]:
  "transport (swap_client c f env) = transport env"
  "wait_for_response (swap_client c f env) = wait_for_response env"
  "wait_if_ssl (swap_client c f env) = wait_if_ssl env"
  "apply_optimistic (swap_client c f env) = apply_optimistic env"
  "mark_optimistic (swap_client c f env) = mark_optimistic env"
  "confirm (swap_client c f env) = confirm env"
  "confirm_position (swap_client c f env) = confirm_position env"
  "connected_device (swap_client c f env) = connected_device env"
  "controllable_device (swap_client c f env) = controllable_device env"
  unfolding fun_eq_iff transport_def wait_for_response_def wait_if_ssl_def apply_optimistic_def
    mark_optimistic_def confirm_def confirm_position_def connected_device_def controllable_device_def
    swap_client_simps
  by simp_all

lemma with_controllable_swap [simp]:
  "with_controllable (swap_client c f env) d body = with_controllable env d body"
  unfolding with_controllable_def swap_client_frame swap_client_simps ..

lemma invoke_lan_only_swap:
  assumes "mode env = MODE_LAN_ONLY" "owner \<noteq> Some SSL_CLIENT"
  shows "invoke_with_fallback (swap_client SSL_CLIENT f env) d owner scope m args kw
    = invoke_with_fallback env d owner scope m args kw"
proof (cases owner)
  case None
  then show ?thesis by (simp add: invoke_with_fallback_def)
next
  case (Some c)
  with assms have "c = LAN_CLIENT" by (cases c) auto
  with Some assms show ?thesis unfolding invoke_with_fallback_def swap_client_simps by simp
qed

lemma invoke_cloud_swap:
  assumes "owner \<noteq> Some LAN_CLIENT"
  shows "invoke_with_fallback (swap_client LAN_CLIENT f env) d owner scope m args kw
    = invoke_with_fallback env d owner scope m args kw"
proof (cases owner)
  case None
  then show ?thesis by (simp add: invoke_with_fallback_def)
next
  case (Some c)
  with assms have "c = SSL_CLIENT" by (cases c) auto
  with Some show ?thesis unfolding invoke_with_fallback_def swap_client_simps swap_client_call by simp
qed

lemma invoke_lan_only_scope:
  assumes "mode env = MODE_LAN_ONLY"
    and "invoke_with_fallback env d owner scope m args kw w = (Inr (result, scope'), w')"
  shows "scope' = scope"
  using assms
  by (auto simp: invoke_with_fallback_def bindS_def thenS_def except_any_def catchS_def whenS_def set_last_def
      split: option.splits prod.splits sum.splits if_splits)

text \<open>A client that the mode excludes may be replaced without any effect.\<close>

definition excluded_client :: "transport_mode \<Rightarrow> client option" where
  "excluded_client md = (case md of MODE_LAN_ONLY \<Rightarrow> Some SSL_CLIENT
     | MODE_CLOUD_ONLY \<Rightarrow> Some LAN_CLIENT | MODE_AUTO \<Rightarrow> None)"

lemma invoke_swap_excluded:
  assumes "excluded_client (mode env) = Some c" "owner \<noteq> Some c"
  shows "invoke_with_fallback (swap_client c f env) d owner scope m args kw
    = invoke_with_fallback env d owner scope m args kw"
  using assms invoke_lan_only_swap [of env owner] invoke_cloud_swap [of owner f env]
  by (auto simp: excluded_client_def split: transport_mode.splits)

lemma transport_excluded:
  assumes "transport env d w = (Inr (owner, scope), w')" "excluded_client (mode env) = Some c"
  shows "owner \<noteq> Some c"
  using assms transport_cases [OF assms(1)]
  by (auto simp: excluded_client_def transport_def Let_def split: transport_mode.splits if_splits)

lemma send_swap [simp]:
  assumes "excluded_client (mode env) = Some c"
  shows "send_selected (swap_client c f env) d m args kw = send_selected env d m args kw"
    and "execute_scoped_route (swap_client c f env) d uid route = execute_scoped_route env d uid route"
    and "send_then_optimistic (swap_client c f env) d dev m arg opt = send_then_optimistic env d dev m arg opt"
    and "execute_confirmed_route (swap_client c f env) d dev route = execute_confirmed_route env d dev route"
proof -
  show 1: "send_selected (swap_client c f env) d m args kw = send_selected env d m args kw" for m args kw
    unfolding send_selected_def swap_client_frame
    by (rule bindS_cong) (auto simp: invoke_swap_excluded [OF assms] dest: transport_excluded [OF _ assms])
  show 2: "execute_scoped_route (swap_client c f env) d uid route = execute_scoped_route env d uid route" for uid
    unfolding execute_scoped_route_def swap_client_frame swap_client_simps
    by (rule if_cong [OF refl _ refl], rule bindS_cong)
       (auto simp: invoke_swap_excluded [OF assms] dest: transport_excluded [OF _ assms])
  show "send_then_optimistic (swap_client c f env) d dev m arg opt = send_then_optimistic env d dev m arg opt"
    by (simp add: send_then_optimistic_def 1)
  show "execute_confirmed_route (swap_client c f env) d dev route = execute_confirmed_route env d dev route"
    by (simp add: execute_confirmed_route_def 2)
qed

text \<open>Owner and scope as \<open>transport\<close> returns them in a mode that excludes the client \<open>c\<close>.\<close>

definition allowed_owner :: "transport_mode \<Rightarrow> client \<Rightarrow> client option \<Rightarrow> string \<Rightarrow> bool" where
  "allowed_owner md c owner scope \<longleftrightarrow>
     excluded_client md = Some c \<and> owner \<noteq> Some c \<and> (md = MODE_LAN_ONLY \<longrightarrow> scope = ''lan'')"

lemma transport_allowed:
  assumes "transport env d w = (Inr (owner, scope), w')" "excluded_client (mode env) = Some c"
  shows "allowed_owner (mode env) c owner scope"
  using assms transport_excluded [OF assms] transport_cases [OF assms(1)] by (simp add: allowed_owner_def)

lemma invoke_swap_allowed [simp]:
  "allowed_owner (mode env) c owner scope \<Longrightarrow>
     invoke_with_fallback (swap_client c f env) d owner scope m args kw
     = invoke_with_fallback env d owner scope m args kw"
  by (simp add: allowed_owner_def invoke_swap_excluded)

lemma dream_curtain_percent_swap [simp]:
  "allowed_owner (mode env) c owner scope \<Longrightarrow>
     dream_curtain_percent (swap_client c f env) d dev p owner scope = dream_curtain_percent env d dev p owner scope"
  by (simp add: dream_curtain_percent_def)

lemma invoke_scope_allowed:
  assumes "allowed_owner (mode env) c owner scope"
    and "invoke_with_fallback env d owner scope m args kw w = (Inr (result, scope'), w')"
  shows "allowed_owner (mode env) c owner scope' \<and> (scope' = ''ssl'' \<longrightarrow> allowed_owner (mode env) c (Some SSL_CLIENT) scope')"
  using assms invoke_lan_only_scope [OF _ assms(2)]
  by (cases "mode env") (auto simp: allowed_owner_def excluded_client_def)

lemma dream_curtain_position_swap:
  assumes "allowed_owner (mode env) c owner scope"
  shows "dream_curtain_position (swap_client c f env) d dev p owner scope
    = dream_curtain_position env d dev p owner scope"
proof -
  have "bindS (invoke_with_fallback env d owner scope m args []) (\<lambda>(centered, scope). if \<not> centered then retS False
         else bindS (wait_if_ssl env d scope) (\<lambda>response. bindS (liftE (reported_angle response)) (\<lambda>angle.
           if \<not> py_eq angle (VInt 90) then retS False
           else if scope = ''ssl'' then bindS (getS (has_ssl env)) (\<lambda>ssl.
             if ssl then dream_curtain_percent (swap_client c f env) d dev p (Some SSL_CLIENT) scope else retS False)
           else dream_curtain_percent (swap_client c f env) d dev p owner scope)))
    = bindS (invoke_with_fallback env d owner scope m args []) (\<lambda>(centered, scope). if \<not> centered then retS False
         else bindS (wait_if_ssl env d scope) (\<lambda>response. bindS (liftE (reported_angle response)) (\<lambda>angle.
           if \<not> py_eq angle (VInt 90) then retS False
           else if scope = ''ssl'' then bindS (getS (has_ssl env)) (\<lambda>ssl.
             if ssl then dream_curtain_percent env d dev p (Some SSL_CLIENT) scope else retS False)
           else dream_curtain_percent env d dev p owner scope)))" for m args
    by (rule bindS_cong) (auto dest!: invoke_scope_allowed [OF assms] cong: if_cong)
  then show ?thesis using assms
    unfolding dream_curtain_position_def swap_client_frame swap_client_simps by (simp cong: if_cong)
qed

lemma set_cover_position_swap:
  assumes "excluded_client (mode env) = Some c"
  shows "set_cover_position (swap_client c f env) d p = set_cover_position env d p"
proof -
  have "bindS (transport env d) (\<lambda>(owner, scope). if owner = None then retS False
      else bindS (liftE r) (\<lambda>category. if rf category then retS False
        else if category = DREAM_CURTAIN then dream_curtain_position (swap_client c f env) d dev p owner scope
        else bindS (invoke_with_fallback (swap_client c f env) d owner scope m args []) k))
    = bindS (transport env d) (\<lambda>(owner, scope). if owner = None then retS False
      else bindS (liftE r) (\<lambda>category. if rf category then retS False
        else if category = DREAM_CURTAIN then dream_curtain_position env d dev p owner scope
        else bindS (invoke_with_fallback env d owner scope m args []) k))" for r rf dev m args k
    by (rule bindS_cong)
       (auto simp: dream_curtain_position_swap cong: if_cong dest!: transport_allowed [OF _ assms])
  then show ?thesis unfolding set_cover_position_def swap_client_frame swap_client_simps by (simp cong: if_cong option.case_cong)
qed

lemma stop_cover_swap:
  assumes "excluded_client (mode env) = Some c"
  shows "stop_cover (swap_client c f env) d = stop_cover env d"
  unfolding stop_cover_def with_controllable_swap swap_client_frame swap_client_simps
  by (intro arg_cong [where f = "with_controllable env d"] ext bindS_cong [THEN fun_cong])
     (auto cong: if_cong dest!: transport_allowed [OF _ assms])

text \<open>The controls that choose their transport do not depend on the client their mode excludes.\<close>

lemma routed_controls_keep_mode:
  assumes "(mode env = MODE_LAN_ONLY \<and> c = SSL_CLIENT) \<or> (mode env = MODE_CLOUD_ONLY \<and> c = LAN_CLIENT)"
  shows "turn_on (swap_client c f env) d b ct = turn_on env d b ct"
    and "turn_off (swap_client c f env) d = turn_off env d"
    and "set_brightness (swap_client c f env) d br = set_brightness env d br"
    and "set_color_temp (swap_client c f env) d k = set_color_temp env d k"
    and "set_cover_position (swap_client c f env) d p = set_cover_position env d p"
    and "stop_cover (swap_client c f env) d = stop_cover env d"
    and "set_dream_curtain_angle (swap_client c f env) d a = set_dream_curtain_angle env d a"
    and "dream_curtain_action (swap_client c f env) d act = dream_curtain_action env d act"
    and "set_floor_heating_temperature (swap_client c f env) d t = set_floor_heating_temperature env d t"
    and "ventilation_state_update (swap_client c f env) d v = ventilation_state_update env d v"
    and "set_light_param (swap_client c f env) d b ct = set_light_param env d b ct"
proof -
  have x: "excluded_client (mode env) = Some c"
    using assms by (auto simp: excluded_client_def)
  note swap = send_swap [OF x]
  show off: "turn_off (swap_client c f env) d = turn_off env d"
    unfolding turn_off_def with_controllable_swap swap_client_frame swap_client_simps swap ..
  show "turn_on (swap_client c f env) d b ct = turn_on env d b ct"
    "set_brightness (swap_client c f env) d br = set_brightness env d br"
    "set_color_temp (swap_client c f env) d k = set_color_temp env d k"
    "set_cover_position (swap_client c f env) d p = set_cover_position env d p"
    "stop_cover (swap_client c f env) d = stop_cover env d"
    "set_dream_curtain_angle (swap_client c f env) d a = set_dream_curtain_angle env d a"
    "dream_curtain_action (swap_client c f env) d act = dream_curtain_action env d act"
    "set_floor_heating_temperature (swap_client c f env) d t = set_floor_heating_temperature env d t"
    "ventilation_state_update (swap_client c f env) d v = ventilation_state_update env d v"
    "set_light_param (swap_client c f env) d b ct = set_light_param env d b ct"
    unfolding turn_on_def set_brightness_def set_color_temp_def off set_dream_curtain_angle_def
      dream_curtain_action_def set_floor_heating_temperature_def ventilation_state_update_def
      set_light_param_def set_cover_position_swap [OF x] stop_cover_swap [OF x]
      with_controllable_swap swap_client_frame swap_client_simps swap
    by simp_all
qed

text \<open>The clothes horse has a call of its own, and no other control makes it.\<close>

definition swap_horse :: "(string \<Rightarrow> pyval \<Rightarrow> string \<Rightarrow> string \<Rightarrow> ('w, pyval) io) \<Rightarrow> 'w env \<Rightarrow> 'w env" where
  "swap_horse g env = env\<lparr>clothes_horse_call := g\<rparr>"

lemma swap_horse_simps [simp]:
  "has_ssl (swap_horse g env) = has_ssl env" "has_lan (swap_horse g env) = has_lan env"
  "has_target (swap_horse g env) = has_target env" "client_call (swap_horse g env) = client_call env"
  "gateway_connected (swap_horse g env) = gateway_connected env"
  "target_call (swap_horse g env) = target_call env" "wait_response (swap_horse g env) = wait_response env"
  "read_state (swap_horse g env) = read_state env" "clock (swap_horse g env) = clock env"
  "catalog (swap_horse g env) = catalog env" "mode (swap_horse g env) = mode env"
  "clothes_horse_call (swap_horse g env) = g"
  by (simp_all add: swap_horse_def)

lemma swap_horse_frame [simp]:
  "transport (swap_horse g env) = transport env"
  "wait_for_response (swap_horse g env) = wait_for_response env"
  "wait_if_ssl (swap_horse g env) = wait_if_ssl env"
  "apply_optimistic (swap_horse g env) = apply_optimistic env"
  "mark_optimistic (swap_horse g env) = mark_optimistic env"
  "confirm (swap_horse g env) = confirm env"
  "confirm_position (swap_horse g env) = confirm_position env"
  "connected_device (swap_horse g env) = connected_device env"
  "controllable_device (swap_horse g env) = controllable_device env"
  "invoke_with_fallback (swap_horse g env) = invoke_with_fallback env"
  unfolding fun_eq_iff transport_def wait_for_response_def wait_if_ssl_def apply_optimistic_def
    mark_optimistic_def confirm_def confirm_position_def connected_device_def controllable_device_def
    invoke_with_fallback_def swap_horse_simps
  by simp_all

lemma swap_horse_routes [simp]:
  "with_controllable (swap_horse g env) = with_controllable env"
  "send_selected (swap_horse g env) = send_selected env"
  "execute_scoped_route (swap_horse g env) = execute_scoped_route env"
  "dream_curtain_percent (swap_horse g env) = dream_curtain_percent env"
  unfolding fun_eq_iff with_controllable_def send_selected_def execute_scoped_route_def dream_curtain_percent_def
    swap_horse_frame swap_horse_simps
  by simp_all

lemma swap_horse_composed [simp]:
  "send_then_optimistic (swap_horse g env) = send_then_optimistic env"
  "execute_confirmed_route (swap_horse g env) = execute_confirmed_route env"
  "dream_curtain_position (swap_horse g env) = dream_curtain_position env"
  "set_color_temp (swap_horse g env) = set_color_temp env"
  "turn_off (swap_horse g env) = turn_off env"
  unfolding fun_eq_iff send_then_optimistic_def execute_confirmed_route_def dream_curtain_position_def set_color_temp_def
    turn_off_def swap_horse_routes swap_horse_frame swap_horse_simps
  by simp_all

lemma swap_horse_controls [simp]:
  "turn_on (swap_horse g env) d b ct = turn_on env d b ct"
  "set_brightness (swap_horse g env) d br = set_brightness env d br"
  "set_cover_position (swap_horse g env) d p = set_cover_position env d p"
  "stop_cover (swap_horse g env) d = stop_cover env d"
  "set_dream_curtain_angle (swap_horse g env) d a = set_dream_curtain_angle env d a"
  "dream_curtain_action (swap_horse g env) d act = dream_curtain_action env d act"
  "set_floor_heating_temperature (swap_horse g env) d t = set_floor_heating_temperature env d t"
  "ventilation_state_update (swap_horse g env) d v = ventilation_state_update env d v"
  "set_light_param (swap_horse g env) d b ct = set_light_param env d b ct"
  unfolding turn_on_def set_brightness_def set_dream_curtain_angle_def dream_curtain_action_def
    set_floor_heating_temperature_def ventilation_state_update_def set_light_param_def set_cover_position_def stop_cover_def
    swap_horse_composed swap_horse_routes swap_horse_frame swap_horse_simps
  by simp_all

text \<open>Without a cloud client the clothes horse is refused before its call, and it never calls another client.\<close>

lemma clothes_horse_keeps_mode:
  fixes env :: "'x exec env"
  shows "clothes_horse_control (swap_client c f env) d feature v = clothes_horse_control env d feature v"
    and "(\<And>w. \<not> has_ssl env w) \<Longrightarrow> clothes_horse_control (swap_horse g env) d feature v = clothes_horse_control env d feature v"
proof -
  show "clothes_horse_control (swap_client c f env) d feature v = clothes_horse_control env d feature v"
    unfolding clothes_horse_control_def swap_client_frame swap_client_simps by simp
  have none: "bindS (getS (has_ssl env)) (\<lambda>ssl. if \<not> ssl then retS False else m) = retS False"
    if "\<And>w. \<not> has_ssl env w" for m :: "('x exec, bool) io"
    using that by (auto simp: fun_eq_iff)
  show "clothes_horse_control (swap_horse g env) d feature v = clothes_horse_control env d feature v"
    if "\<And>w. \<not> has_ssl env w"
    unfolding clothes_horse_control_def swap_horse_frame swap_horse_simps none [OF that] ..
qed

section \<open>What an environment promises\<close>

text \<open>\<^verbatim>\<open>_last_transport\<close> is private to the executor: no call it awaits writes it.\<close>

locale executor_env =
  fixes env :: "'x exec env"
  assumes call_keeps_last: "client_call env c m args kw w = (r, w') \<Longrightarrow> ex_last w' = ex_last w"
begin

lemma invoke_last:
  assumes "invoke_with_fallback env d owner scope m args kw w = (r, w')" "scope \<in> {''lan'', ''ssl''}"
  shows "ex_last w' = (case r of
      Inr (result, s) \<Rightarrow> if result then AList.update d (if s = ''ssl'' then ''cloud'' else ''lan'') (ex_last w)
        else ex_last w
    | Inl err \<Rightarrow> ex_last w)"
  using assms call_keeps_last
  by (fastforce simp: invoke_with_fallback_def bindS_def thenS_def except_any_def catchS_def whenS_def set_last_def
      split: option.splits prod.splits sum.splits if_splits)

lemma send_selected_last:
  assumes "send_selected env d m args kw w = (r, w')"
  shows "ex_last w' = (case r of
      Inr (result, s) \<Rightarrow> if result then AList.update d (if s = ''ssl'' then ''cloud'' else ''lan'') (ex_last w)
        else ex_last w
    | Inl err \<Rightarrow> ex_last w)"
proof -
  obtain owner scope where t: "transport env d w = (Inr (owner, scope), w)" using transport_run by blast
  have "scope \<in> {''lan'', ''ssl''}" using transport_cases [OF t] by blast
  moreover have "invoke_with_fallback env d owner scope m args kw w = (r, w')"
    using assms by (simp add: send_selected_def bindS_def t)
  ultimately show ?thesis by (rule invoke_last [rotated])
qed

lemma send_selected_transport:
  assumes "send_selected env d m args kw w = (r, w')"
  shows "last_transport d' w' = (case r of
      Inr (result, s) \<Rightarrow> if result \<and> d' = d then Some (if s = ''ssl'' then ''cloud'' else ''lan'')
        else last_transport d' w
    | Inl err \<Rightarrow> last_transport d' w)"
  using send_selected_last [OF assms]
  by (auto simp: last_transport_def split: sum.splits prod.splits)

end

text \<open>
  The environment the coordinator builds: the LAN client is the adapter over the gateways, the
  cloud client is the parameter \<open>cloud\<close>; both run in the outside world and leave the executor's own
  state alone. \<open>fresh\<close> draws the serial numbers when a method is entered.
\<close>

definition run_outside :: "('x, 'a) io \<Rightarrow> ('x exec, 'a) io" where
  "run_outside m w = (case m (ex_outside w) of (r, x) \<Rightarrow> (r, w\<lparr>ex_outside := x\<rparr>))"

definition lan_call :: "'x gateway \<Rightarrow> ('x \<Rightarrow> int \<times> int) \<Rightarrow> string \<Rightarrow> string \<Rightarrow> pyval list \<Rightarrow> dict \<Rightarrow> ('x, pyval) io" where
  "lan_call gw fresh user name args kwargs =
     (case args of
        VStr d # uid # rest \<Rightarrow>
          bindS (getS fresh) (\<lambda>(s, us).
            bindS (lan_invoke gw \<lparr>user_of = user, dev_of = d, uid_of = uid, serial_of = s, uni_serial_of = us\<rparr>
                name rest kwargs) (\<lambda>ok. retS (VBool ok)))
      | _ \<Rightarrow> raiseS TypeError)"

definition wire_env :: "'x gateway \<Rightarrow> (string \<Rightarrow> pyval list \<Rightarrow> dict \<Rightarrow> ('x, pyval) io) \<Rightarrow> ('x \<Rightarrow> int \<times> int) \<Rightarrow> string
    \<Rightarrow> 'x exec env \<Rightarrow> 'x exec env" where
  "wire_env gw cloud fresh user base = base\<lparr>client_call := \<lambda>c name args kwargs.
     run_outside (case c of LAN_CLIENT \<Rightarrow> lan_call gw fresh user name args kwargs
       | SSL_CLIENT \<Rightarrow> cloud name args kwargs)\<rparr>"

interpretation wired: executor_env "wire_env gw cloud fresh user base" for gw cloud fresh user base
  by unfold_locales (auto simp: wire_env_def run_outside_def split: prod.splits)

section \<open>Refused devices\<close>

lemma refused_device:
  assumes "map_of (ex_devices w) d = Some dev"
    and "get_device_profile (catalog env) (VDict dev) = Inr p" "dp_registration_only p"
  shows "controllable_device env d w = (Inr None, w)"
  using assms by (simp add: controllable_device_def bindS_def connected_device_def)

lemma refused_with:
  "controllable_device env d w = (Inr None, w) \<Longrightarrow> with_controllable env d body w = (Inr False, w)"
  by (simp add: with_controllable_def bindS_def)

text \<open>A concrete environment for examples: both clients exist, gateways are connected, only the cloud
  accepts controls and no device answers.\<close>

definition sample_env :: "transport_mode \<Rightarrow> 'x exec env" where
  "sample_env md =
     \<lparr>has_ssl = \<lambda>w. True, has_lan = \<lambda>w. True, has_target = \<lambda>w. False, gateway_connected = \<lambda>u w. True,
      client_call = \<lambda>c m args kw. retS (VBool (c = SSL_CLIENT)), target_call = \<lambda>m args kw. retS VNone,
      clothes_horse_call = \<lambda>d u f v. retS VNone, wait_response = \<lambda>d. retS VNone,
      read_state = \<lambda>d w. None, clock = \<lambda>w. 0, catalog = \<lambda>k. None, mode = md\<rparr>"

definition sample_world :: "(string, dict) pydict \<Rightarrow> unit exec" where
  "sample_world devs = \<lparr>ex_devices = devs, ex_store = new_store [], ex_last = [], ex_notified = 0, ex_outside = ()\<rparr>"

lemma sample_env_simps [simp]:
  "has_ssl (sample_env md) w" "mode (sample_env md) = md" "catalog (sample_env md) = (\<lambda>k. None)"
  "client_call (sample_env md) c m args kw = retS (VBool (c = SSL_CLIENT))"
  "clock (sample_env md) w = 0" "has_lan (sample_env md) w"
  by (simp_all add: sample_env_def)

lemma sample_world_simps [simp]:
  "ex_devices (sample_world devs) = devs" "ex_last (sample_world devs) = []"
  "states_get d (sample_world devs) = []"
  by (simp_all add: sample_world_def states_get_def state_of_def new_store_def)

text \<open>A type no rule knows.\<close>

definition unknown_device :: dict where
  "unknown_device = [(''deviceType'', VInt 9999)]"

lemma unknown_device_profile:
  "get_device_profile (\<lambda>k. None) (VDict unknown_device)
     = Inr \<lparr>dp_category = UNKNOWN, dp_info = get_category_info UNKNOWN, dp_hardware_verified = False,
         dp_registration_only = True\<rparr>"
  by code_simp

lemma unknown_device_path:
  "transport_path_for (\<lambda>k. None) (VDict unknown_device) MODE_LAN_ONLY = Inr PATH_UNAVAILABLE"
  by code_simp

section \<open>Properties\<close>

text \<open>C3. A LAN control that fails, by an exception other than a cancellation or by a negative answer, is
  retried exactly once and only in the cloud: not in local-only mode and not without a cloud client; the retry gets the same method
  and arguments, its result and its exception are the caller's, and only its success is recorded.\<close>

theorem lan_failure_retries_once:
  assumes "client_call env LAN_CLIENT m args kw w = (r, w1)"
    and "case r of Inl err \<Rightarrow> err \<noteq> cancelled_error | Inr v \<Rightarrow> \<not> truthy v"
  shows "invoke_with_fallback env d (Some LAN_CLIENT) ''lan'' m args kw w =
    (if mode env = MODE_LAN_ONLY \<or> \<not> has_ssl env w1 then (Inr (False, ''lan''), w1)
     else case client_call env SSL_CLIENT m args kw w1 of
       (Inl err, w2) \<Rightarrow> (Inl err, w2)
     | (Inr v, w2) \<Rightarrow>
         if truthy v then (Inr (True, ''ssl''), w2\<lparr>ex_last := AList.update d ''cloud'' (ex_last w2)\<rparr>)
         else (Inr (False, ''ssl''), w2))"
  using assms
  by (cases r) (auto simp: invoke_with_fallback_def bindS_def thenS_def except_any_def catchS_def whenS_def set_last_def
      split: prod.splits sum.splits)

theorem lan_failure_retries_once_witness:
  "invoke_with_fallback (sample_env MODE_AUTO) ''d'' (Some LAN_CLIENT) ''lan'' ''m'' [] [] (sample_world [])
     = (Inr (True, ''ssl''), (sample_world [])\<lparr>ex_last := [(''d'', ''cloud'')]\<rparr>)"
  by (subst lan_failure_retries_once [where r = "Inr (VBool False)" and ?w1.0 = "sample_world []"]) simp_all

text \<open>The transport a control was last sent through is recorded truthfully: after a control over the
  adapter and the cloud client the record of the device names the transport that accepted it, a failed
  or raising control leaves the record as it was, and no other device's record changes.\<close>

lemma last_transport_truthful:
  assumes "send_selected (wire_env gw cloud fresh user base) d m args kw w = (r, w')"
  shows "last_transport d' w' = (case r of
      Inr (result, s) \<Rightarrow> if result \<and> d' = d then Some (if s = ''ssl'' then ''cloud'' else ''lan'')
        else last_transport d' w
    | Inl err \<Rightarrow> last_transport d' w)"
  by (rule wired.send_selected_transport [OF assms])

text \<open>A device that is only registered for display is never controlled: every control for it returns
  False and leaves the world, the network included, exactly as it was.\<close>

lemma registration_only_never_controlled:
  assumes "map_of (ex_devices w) d = Some dev"
    and "get_device_profile (catalog env) (VDict dev) = Inr p" "dp_registration_only p"
  shows "turn_on env d b ct w = (Inr False, w) \<and> turn_off env d w = (Inr False, w)
    \<and> set_brightness env d br w = (Inr False, w) \<and> set_color_temp env d k w = (Inr False, w)
    \<and> set_cover_position env d pos w = (Inr False, w) \<and> stop_cover env d w = (Inr False, w)
    \<and> set_dream_curtain_angle env d a w = (Inr False, w) \<and> dream_curtain_action env d act w = (Inr False, w)
    \<and> set_floor_heating_temperature env d t w = (Inr False, w)"
proof -
  note refused = refused_device [OF assms] and body = refused_with [OF refused_device [OF assms]]
  have "set_cover_position env d pos w = (Inr False, w)"
    by (simp add: set_cover_position_def bindS_def refused)
  then show ?thesis
    by (simp add: turn_on_def turn_off_def set_brightness_def set_color_temp_def stop_cover_def
        set_dream_curtain_angle_def dream_curtain_action_def set_floor_heating_temperature_def body)
qed

text \<open>C32. When no answer of the device confirms a control, its optimistic state is stored: every optimistic
  field then holds its value under an optimistic revision, whatever source had set it before, the
  listeners are notified once, and the next report of the cloud, the push channel or a gateway replaces
  it at once.\<close>

theorem unconfirmed_control_is_optimistic:
  assumes "wait_if_ssl env d scope w = (Inr response, w1)" "\<not> truthy response"
    and "distinct (map fst opt)" "map_of opt f = Some v"
  shows "\<exists>w2. confirm env d opt (True, scope) w = (Inr True, w2)
    \<and> ex_notified w2 = Suc (ex_notified w1)
    \<and> lands v (cell (ex_store w2) d f)
    \<and> snd (cell (ex_store w2) d f) = Some \<lparr>rev_source = OPTIMISTIC, rev_updated_at = clock env w1\<rparr>
    \<and> (\<forall>src now guard. OPTIMISTIC \<le> src \<longrightarrow> \<not> skips src now False guard (cell (ex_store w2) d f))"
proof -
  let ?s = "snd (merge d opt OPTIMISTIC (clock env w1) True (ex_store w1))"
  have "\<not> skips OPTIMISTIC (clock env w1) True (st_guard (ex_store w1)) (cell (ex_store w1) d f)"
    by (simp add: skips_def)
  from lands_merge_cell [OF this, of v]
  have c: "lands v (cell ?s d f)"
    "snd (cell ?s d f) = Some \<lparr>rev_source = OPTIMISTIC, rev_updated_at = clock env w1\<rparr>"
    using assms(4) by (simp_all add: cell_merge [OF assms(3)])
  have run: "confirm env d opt (True, scope) w
      = (Inr True, w1\<lparr>ex_store := ?s, ex_notified := Suc (ex_notified w1)\<rparr>)"
    using assms(1,2)
    by (simp add: confirm_def bindS_def thenS_def whenS_def apply_optimistic_def notify_def)
  show ?thesis unfolding run using c by (auto simp: skips_def protected_def)
qed

theorem unconfirmed_control_is_optimistic_witness:
  "\<exists>w2. confirm (sample_env MODE_AUTO) ''d'' [(''state'', VBool False)] (True, ''lan'') (sample_world [])
       = (Inr True, w2)
     \<and> lands (VBool False) (cell (ex_store w2) ''d'' ''state'')"
  using unconfirmed_control_is_optimistic [of "sample_env MODE_AUTO" "''d''" "''lan''" "sample_world []" VNone
      "sample_world []" "[(''state'', VBool False)]" "''state''" "VBool False"]
  by (auto simp: wait_if_ssl_def)

text \<open>The transport of a control is the one the device's capability announces: a control goes over the
  LAN only if the gateway of the device is connected and the configured path is LAN or LAN with cloud,
  and in local-only mode a device whose path is not LAN gets no transport at all.\<close>

lemma transport_follows_announced_path:
  assumes "map_of (ex_devices w) d = Some dev"
    and "transport_path_for (catalog env) (VDict dev) (mode env) = Inr path"
    and "transport env d w = (Inr (owner, scope), w')"
  shows "(owner = Some LAN_CLIENT \<longrightarrow> gateway_connected env (uid_field dev) w
        \<and> path = (if mode env = MODE_LAN_ONLY then PATH_LAN else PATH_LAN_CLOUD))
    \<and> (mode env = MODE_LAN_ONLY \<and> path \<noteq> PATH_LAN \<longrightarrow> owner = None)
    \<and> (path = PATH_CLOUD \<longrightarrow> owner \<noteq> Some LAN_CLIENT)"
proof -
  from assms(2) obtain c where c: "capability_for (catalog env) (VDict dev) = Inr c"
    "path = path_of_capability c (mode env)" by (auto simp: transport_path_for_def)
  have lan: "mode env \<noteq> MODE_CLOUD_ONLY \<and> gateway_connected env (uid_field dev) w \<and> CH_LAN \<in> cap_channels c"
    if "owner = Some LAN_CLIENT"
    using assms(1,3) c(1) that by (auto simp: transport_def Let_def split: if_splits)
  have path: "path = (if mode env = MODE_LAN_ONLY then PATH_LAN else PATH_LAN_CLOUD)"
    if "owner = Some LAN_CLIENT"
    using lan [OF that] lan_channel_path [OF c(1)] c(2) by (cases "mode env") (auto simp: path_of_capability_def)
  have "owner \<noteq> Some SSL_CLIENT" if "mode env = MODE_LAN_ONLY"
    using transport_cases [OF assms(3)] that by auto
  then have "owner = None \<or> owner = Some LAN_CLIENT" if "mode env = MODE_LAN_ONLY"
    using that by (metis (full_types) client.exhaust option.exhaust)
  then show ?thesis using lan path by (auto split: if_splits)
qed

text \<open>A dream curtain is never moved with its slats open: if they are not known to stand at 90 degrees
  and the curtain is not closed, the request is refused without any call; and if they have to be
  centred first, the move is sent only after the device reported 90 degrees over the push channel, so
  that over the LAN, where no report is awaited, the centred curtain is not moved.\<close>

lemma dream_curtain_needs_centred_slats:
  assumes "\<not> py_eq (get (states_get d w) ''angle'') (VInt 90)"
  shows "(\<not> py_eq (get (states_get d w) ''position'') (VInt 0) \<longrightarrow>
        dream_curtain_position env d dev position owner scope w = (Inr False, w))
    \<and> (\<forall>w'. py_eq (get (states_get d w) ''position'') (VInt 0) \<and>
        invoke_with_fallback env d owner scope ''send_control_dream_curtain_angle''
          [VStr d, uid_field dev, VInt 90] [] w = (Inr (True, ''lan''), w') \<longrightarrow>
        dream_curtain_position env d dev position owner scope w = (Inr False, w'))"
  using assms
  by (auto simp: dream_curtain_position_def bindS_def wait_if_ssl_def reported_angle_def)

end

