(* ===== verification/Pending_Requests.thy ===== *)
theory Pending_Requests
  imports Effects
begin

text \<open>
  \<^verbatim>\<open>pending_requests.py\<close> and \<^verbatim>\<open>lan/serial.py\<close>: the futures requests wait on, the registry that
  correlates the answers of the cloud connection, and the serial numbers of the messages.

  A future is named by its position in the list of all futures created so far. Coroutines run
  interleaved, but only between two awaits: every operation here runs without one, except \<^verbatim>\<open>wait\<close>,
  whose second half (from the end of the await) is one step. \<open>registry_step\<close> is any of them, by any
  caller, in any order.

  The locales \<open>state_machine\<close> and \<open>request_table\<close> state what the registry and the gateway
  connection have in common: a request that is still waiting is always found through the table, so
  that whoever empties the table after settling its futures leaves nobody waiting.
\<close>

section \<open>Futures\<close>

datatype 'r fut = Waiting | Done 'r | Failed py_exn | Cancelled

definition settle :: "nat \<Rightarrow> 'r fut \<Rightarrow> 'r fut list \<Rightarrow> 'r fut list" where
  "settle f x fs = (if f < length fs \<and> fs ! f = Waiting then fs[f := x] else fs)"

definition settle_all :: "nat list \<Rightarrow> 'r fut \<Rightarrow> 'r fut list \<Rightarrow> 'r fut list" where
  "settle_all is x fs = fold (\<lambda>f. settle f x) is fs"

definition is_waiting :: "'r fut list \<Rightarrow> nat \<Rightarrow> bool" where
  "is_waiting fs f \<longleftrightarrow> f < length fs \<and> fs ! f = Waiting"

text \<open>\<^verbatim>\<open>if self._futures.get(key) is future: self._futures.pop(key, None)\<close>\<close>

definition pop_own :: "'k \<Rightarrow> nat \<Rightarrow> ('k \<times> nat) list \<Rightarrow> ('k \<times> nat) list" where
  "pop_own k f t = (if map_of t k = Some f then AList.delete k t else t)"

text \<open>The keys a table finds a future under.\<close>

definition keys_of :: "('k \<times> nat) list \<Rightarrow> nat \<Rightarrow> 'k set" where
  "keys_of t f = {k. map_of t k = Some f}"

named_theorems future_simps "settling futures and the tables that name them"

lemma keys_of_Nil [simp]: "keys_of [] f = {}"
  by (simp add: keys_of_def)

lemma keys_of_update [future_simps]:
  "keys_of (AList.update k f t) g = (if g = f then insert k (keys_of t g) else keys_of t g - {k})"
  by (auto simp: keys_of_def update_conv')

lemma keys_of_pop_own [future_simps]:
  "keys_of (pop_own k f t) g = (if g = f then keys_of t g - {k} else keys_of t g)"
  by (auto simp: keys_of_def pop_own_def delete_conv')

lemma keys_of_in_values: "k \<in> keys_of t f \<Longrightarrow> f \<in> snd ` set t"
  by (force simp: keys_of_def dest: map_of_SomeD)

lemma length_settle [simp]: "length (settle f x fs) = length fs"
  by (simp add: settle_def)

lemma is_waiting_settle [future_simps]:
  "x \<noteq> Waiting \<Longrightarrow> is_waiting (settle f x fs) g \<longleftrightarrow> is_waiting fs g \<and> g \<noteq> f"
  by (auto simp: is_waiting_def settle_def nth_list_update)

lemma is_waiting_append [future_simps]:
  "is_waiting (fs @ [Waiting]) g \<longleftrightarrow> is_waiting fs g \<or> g = length fs"
  by (auto simp: is_waiting_def nth_append)

lemma settle_all_simps [simp]:
  "settle_all [] x fs = fs"
  "settle_all (f # is) x fs = settle_all is x (settle f x fs)"
  by (simp_all add: settle_all_def)

lemma length_settle_all [simp]: "length (settle_all is x fs) = length fs"
  by (induction "is" arbitrary: fs) auto

lemma is_waiting_settle_all [future_simps]:
  "x \<noteq> Waiting \<Longrightarrow> is_waiting (settle_all is x fs) g \<longleftrightarrow> is_waiting fs g \<and> g \<notin> set is"
  by (induction "is" arbitrary: fs) (auto simp: future_simps)

lemma settle_all_final:
  "g < length fs \<Longrightarrow> \<not> is_waiting fs g \<Longrightarrow> settle_all is x fs ! g = fs ! g"
proof (induction "is" arbitrary: fs)
  case (Cons f "is")
  then have "\<not> is_waiting (settle f x fs) g \<and> settle f x fs ! g = fs ! g"
    by (cases "f = g") (auto simp: settle_def is_waiting_def nth_list_update)
  then show ?case using Cons by simp
qed simp

lemma settle_all_nth:
  assumes "x \<noteq> Waiting" "is_waiting fs g"
  shows "settle_all is x fs ! g = (if g \<in> set is then x else Waiting)"
  using assms
proof (induction "is" arbitrary: fs)
  case Nil
  then show ?case by (simp add: is_waiting_def)
next
  case (Cons f "is")
  show ?case
  proof (cases "f = g")
    case True
    with Cons.prems have "settle f x fs ! g = x" "\<not> is_waiting (settle f x fs) g"
      by (auto simp: settle_def is_waiting_def)
    then show ?thesis using True Cons.prems settle_all_final [of g "settle f x fs" "is" x]
      by (simp add: is_waiting_def)
  next
    case False
    with Cons show ?thesis by (simp add: future_simps)
  qed
qed

section \<open>The contract of a request table\<close>

locale state_machine =
  fixes init :: 's and step :: "'s \<Rightarrow> 's \<Rightarrow> bool" and inv :: "'s \<Rightarrow> bool"
  assumes inv_init: "inv init"
    and inv_step: "step s t \<Longrightarrow> inv s \<Longrightarrow> inv t"
begin

lemma inv_steps:
  assumes "step\<^sup>*\<^sup>* s t" "inv s"
  shows "inv t"
  using assms by (induction rule: rtranclp_induct) (auto intro: inv_step)

lemma reachable_inv: "step\<^sup>*\<^sup>* init s \<Longrightarrow> inv s"
  using inv_steps inv_init by blast

end

locale request_table = state_machine init step inv
  for init :: 's and step :: "'s \<Rightarrow> 's \<Rightarrow> bool" and inv :: "'s \<Rightarrow> bool" +
  fixes waits :: "'s \<Rightarrow> nat \<Rightarrow> bool" and tracked :: "'s \<Rightarrow> nat set"
  assumes inv_tracked: "inv s \<Longrightarrow> waits s f \<Longrightarrow> f \<in> tracked s"
begin

lemma reachable_tracked:
  assumes "step\<^sup>*\<^sup>* init s" "waits s f"
  shows "f \<in> tracked s"
  using assms reachable_inv inv_tracked by blast

lemma empty_table_releases:
  assumes "step\<^sup>*\<^sup>* init s" "tracked s = {}"
  shows "\<not> waits s f"
  using assms reachable_tracked by blast

end

section \<open>The registry of the cloud connection\<close>

text \<open>A result is a decoded message or \<^verbatim>\<open>None\<close>.\<close>

record 'r registry =
  rg_table :: "(string \<times> nat) list"
  rg_futs :: "'r option fut list"

definition new_registry :: "'r registry" where
  "new_registry = \<lparr>rg_table = [], rg_futs = []\<rparr>"

definition new_request :: "string \<Rightarrow> ('r registry, nat) io" where
  "new_request key s = (Inr (length (rg_futs s)),
     s\<lparr>rg_table := AList.update key (length (rg_futs s)) (rg_table s), rg_futs := rg_futs s @ [Waiting]\<rparr>)"

definition register :: "string \<Rightarrow> bool \<Rightarrow> ('r registry, nat) io" where
  "register key replace s =
     (case map_of (rg_table s) key of
        None \<Rightarrow> new_request key s
      | Some current \<Rightarrow>
          if is_waiting (rg_futs s) current then
            if replace then new_request key (s\<lparr>rg_futs := settle current (Done None) (rg_futs s)\<rparr>)
            else (Inl RuntimeError, s)
          else new_request key s)"

definition get_request :: "string \<Rightarrow> 'r registry \<Rightarrow> nat option" where
  "get_request key s = map_of (rg_table s) key"

definition resolve :: "string \<Rightarrow> 'r option \<Rightarrow> 'r registry \<Rightarrow> bool \<times> 'r registry" where
  "resolve key result s =
     (case map_of (rg_table s) key of
        None \<Rightarrow> (False, s)
      | Some f \<Rightarrow>
          if is_waiting (rg_futs s) f then (True, s\<lparr>rg_futs := settle f (Done result) (rg_futs s)\<rparr>)
          else (False, s))"

text \<open>
  The end of \<^verbatim>\<open>await asyncio.wait_for(future, timeout)\<close>. It comes when the future is settled, when
  the time is up or when the waiting task is cancelled; in the last two cases \<^verbatim>\<open>wait_for\<close> cancels a
  future that is not settled, and \<open>interrupted\<close> tells whether the task was cancelled.
\<close>

definition release :: "string \<Rightarrow> nat \<Rightarrow> 'r registry \<Rightarrow> 'r registry" where
  "release key f s = s\<lparr>rg_table := pop_own key f (rg_table s)\<rparr>"

definition wait :: "string \<Rightarrow> nat \<Rightarrow> bool \<Rightarrow> ('r registry, 'r option) io" where
  "wait key f interrupted s =
     (case rg_futs s ! f of
        Waiting \<Rightarrow> (if interrupted then Inl (OtherError ''CancelledError'') else Inr None,
          release key f (s\<lparr>rg_futs := settle f Cancelled (rg_futs s)\<rparr>))
      | Done r \<Rightarrow> (if interrupted then Inl (OtherError ''CancelledError'') else Inr r, release key f s)
      | Failed e \<Rightarrow> (Inl e, release key f s)
      | Cancelled \<Rightarrow> (Inl (OtherError ''CancelledError''), release key f s))"

definition discard :: "string \<Rightarrow> nat \<Rightarrow> 'r registry \<Rightarrow> 'r registry" where
  "discard key f s = (release key f s)\<lparr>rg_futs := settle f Cancelled (rg_futs s)\<rparr>"

definition cancel_all :: "'r registry \<Rightarrow> 'r registry" where
  "cancel_all s = \<lparr>rg_table = [], rg_futs = settle_all (map snd (rg_table s)) (Done None) (rg_futs s)\<rparr>"

inductive registry_step :: "'r registry \<Rightarrow> 'r registry \<Rightarrow> bool" where
  step_register: "register key replace s = (r, t) \<Longrightarrow> registry_step s t"
| step_resolve: "resolve key result s = (b, t) \<Longrightarrow> registry_step s t"
| step_wait: "wait key f interrupted s = (r, t) \<Longrightarrow> registry_step s t"
| step_discard: "registry_step s (discard key f s)"
| step_cancel_all: "registry_step s (cancel_all s)"

inductive_cases registry_stepE: "registry_step s t"

section \<open>Nobody is forgotten\<close>

definition registry_inv :: "'r registry \<Rightarrow> bool" where
  "registry_inv s \<longleftrightarrow> (\<forall>f. is_waiting (rg_futs s) f \<longrightarrow> keys_of (rg_table s) f \<noteq> {})"

lemma new_request_inv:
  assumes "new_request key s = (r, t)" "registry_inv s"
    and "\<And>f. map_of (rg_table s) key = Some f \<Longrightarrow> \<not> is_waiting (rg_futs s) f"
  shows "registry_inv t"
proof -
  have "keys_of (rg_table s) f - {key} \<noteq> {}" if "is_waiting (rg_futs s) f" for f
    using assms(2,3) that by (fastforce simp: registry_inv_def keys_of_def)
  with assms(1) show ?thesis by (auto simp: registry_inv_def new_request_def future_simps split: if_splits)
qed

lemma settle_registry_inv:
  "x \<noteq> Waiting \<Longrightarrow> registry_inv s \<Longrightarrow> registry_inv (s\<lparr>rg_futs := settle f x (rg_futs s)\<rparr>)"
  by (auto simp: registry_inv_def future_simps)

lemma release_registry_inv:
  "\<not> is_waiting (rg_futs s) f \<Longrightarrow> registry_inv s \<Longrightarrow> registry_inv (release key f s)"
  by (auto simp: registry_inv_def release_def future_simps)

lemma registry_step_inv:
  assumes "registry_step s t" "registry_inv s"
  shows "registry_inv t"
  using assms
proof (cases rule: registry_step.cases)
  case (step_register key replace r)
  show ?thesis
  proof (cases "map_of (rg_table s) key")
    case None
    with step_register assms show ?thesis by (auto simp: register_def elim: new_request_inv)
  next
    case (Some f)
    with step_register assms show ?thesis
      by (auto simp: register_def future_simps split: if_splits
          elim!: new_request_inv intro: settle_registry_inv)
  qed
next
  case (step_resolve key result b)
  with assms show ?thesis
    by (auto simp: resolve_def settle_registry_inv split: option.splits if_splits)
next
  case (step_wait key f interrupted r)
  with assms show ?thesis
    by (auto simp: wait_def is_waiting_settle is_waiting_def [of "rg_futs s"] split: fut.splits
        intro!: release_registry_inv settle_registry_inv)
next
  case (step_discard key f)
  have "discard key f s = release key f (s\<lparr>rg_futs := settle f Cancelled (rg_futs s)\<rparr>)"
    by (simp add: discard_def release_def)
  with step_discard assms(2) show ?thesis
    by (simp add: release_registry_inv settle_registry_inv future_simps)
next
  case step_cancel_all
  then show ?thesis using assms(2)
    by (auto simp: cancel_all_def registry_inv_def future_simps dest: keys_of_in_values)
qed

interpretation rt: request_table new_registry registry_step registry_inv
  "\<lambda>s. is_waiting (rg_futs s)" "\<lambda>s. snd ` set (rg_table s)"
proof unfold_locales
  show "registry_inv new_registry" by (simp add: registry_inv_def new_registry_def is_waiting_def)
  show "f \<in> snd ` set (rg_table s)" if "registry_inv s" "is_waiting (rg_futs s) f" for s f
    using that keys_of_in_values by (fastforce simp: registry_inv_def)
qed (rule registry_step_inv)

section \<open>Settled futures stay settled\<close>

lemma settle_final:
  "f < length fs \<Longrightarrow> fs ! f \<noteq> Waiting \<Longrightarrow> settle g x fs ! f = fs ! f"
  by (auto simp: settle_def nth_list_update)

lemma register_final:
  assumes "register key b s = (r, t)" "f < length (rg_futs s)" "rg_futs s ! f \<noteq> Waiting"
  shows "rg_futs t ! f = rg_futs s ! f \<and> f < length (rg_futs t)"
  using assms by (auto simp: register_def new_request_def settle_final nth_append split: option.splits if_splits)

lemma other_ops_final:
  assumes "f < length (rg_futs s)" "rg_futs s ! f \<noteq> Waiting"
  shows "resolve key x s = (b, t) \<Longrightarrow> rg_futs t ! f = rg_futs s ! f \<and> f < length (rg_futs t)"
    and "wait key g interrupted s = (r, t) \<Longrightarrow> rg_futs t ! f = rg_futs s ! f \<and> f < length (rg_futs t)"
    and "rg_futs (discard key g s) ! f = rg_futs s ! f \<and> f < length (rg_futs (discard key g s))"
    and "rg_futs (cancel_all s) ! f = rg_futs s ! f \<and> f < length (rg_futs (cancel_all s))"
  using assms by (auto simp: resolve_def wait_def discard_def release_def cancel_all_def settle_final
      settle_all_final is_waiting_def split: option.splits if_splits fut.splits)

lemma registry_step_final:
  assumes "registry_step s t" "f < length (rg_futs s)" "rg_futs s ! f \<noteq> Waiting"
  shows "rg_futs t ! f = rg_futs s ! f \<and> f < length (rg_futs t)"
  using assms(1) by (rule registry_stepE)
    (use register_final other_ops_final [OF assms(2,3)] assms(2,3) in blast)+

lemma registry_steps_final:
  assumes "registry_step\<^sup>*\<^sup>* s t" "f < length (rg_futs s)" "rg_futs s ! f \<noteq> Waiting"
  shows "rg_futs t ! f = rg_futs s ! f \<and> f < length (rg_futs t)"
  using assms(1)
proof (induction rule: rtranclp_induct)
  case base
  show ?case using assms(2) by simp
next
  case (step t u)
  then show ?case using registry_step_final [of t u f] assms(3) by simp
qed

section \<open>Serial numbers\<close>

definition MAX_SERIAL :: int where "MAX_SERIAL = 999999"

definition next_serial :: "int \<Rightarrow> int" where
  "next_serial v = v mod MAX_SERIAL + 1"

text \<open>The value after \<open>n\<close> allocations; each is also the number handed out.\<close>

definition serial_after :: "nat \<Rightarrow> int \<Rightarrow> int" where
  "serial_after n v = (next_serial ^^ n) v"

lemma serial_after_Suc: "serial_after (Suc n) v = (v + int n) mod MAX_SERIAL + 1"
proof (induction n)
  case 0
  show ?case by (simp add: serial_after_def next_serial_def)
next
  case (Suc n)
  have "serial_after (Suc (Suc n)) v = next_serial (serial_after (Suc n) v)"
    by (simp add: serial_after_def)
  also have "\<dots> = (v + int n + 1) mod MAX_SERIAL + 1"
    by (simp add: Suc next_serial_def mod_simps)
  finally show ?case by (simp add: algebra_simps)
qed

section \<open>Properties\<close>

text \<open>Closing the registry leaves nobody waiting: in every state any interleaving of the operations
  can reach, \<^verbatim>\<open>cancel_all\<close> answers \<^verbatim>\<open>None\<close> to every request that is still waiting, and leaves every
  other future and no table entry.\<close>

lemma cancel_all_releases_everyone:
  assumes "registry_step\<^sup>*\<^sup>* new_registry s"
  shows "rg_table (cancel_all s) = [] \<and>
    (f < length (rg_futs s) \<longrightarrow>
      rg_futs (cancel_all s) ! f = (if rg_futs s ! f = Waiting then Done None else rg_futs s ! f))"
  using rt.reachable_tracked [OF assms, of f]
  by (auto simp: cancel_all_def settle_all_nth settle_all_final is_waiting_def image_iff)

text \<open>A request that is replaced is isolated from its successor: the request that was waiting under the
  key is answered \<^verbatim>\<open>None\<close> and keeps that answer whatever happens later, so that the response to its
  successor never reaches it; the table names the successor, which waits; and no other key changes.\<close>

lemma replaced_request_is_isolated:
  assumes "map_of (rg_table s) key = Some old" "is_waiting (rg_futs s) old"
    and "register key True s = (r, t)" "registry_step\<^sup>*\<^sup>* t u"
  shows "rg_futs u ! old = Done None
    \<and> (\<exists>new. r = Inr new \<and> new \<noteq> old \<and> get_request key t = Some new \<and> is_waiting (rg_futs t) new)
    \<and> (\<forall>k. k \<noteq> key \<longrightarrow> get_request k t = get_request k s)"
proof -
  from assms(1-3) have t: "r = Inr (length (rg_futs s))"
    "t = s\<lparr>rg_table := AList.update key (length (rg_futs s)) (rg_table s),
       rg_futs := settle old (Done None) (rg_futs s) @ [Waiting]\<rparr>"
    by (auto simp: register_def new_request_def)
  have "rg_futs t ! old = Done None \<and> old < length (rg_futs t)"
    using assms(2) by (simp add: t settle_def is_waiting_def nth_append)
  with assms(4) have "rg_futs u ! old = Done None" by (metis fut.distinct(1) registry_steps_final)
  then show ?thesis using assms(2)
    by (simp add: t get_request_def update_conv' future_simps) (simp add: is_waiting_def)
qed

text \<open>The serial numbers of any 999,999 consecutive allocations are distinct and between 1 and
  999,999, whatever the initial value; the 1,000,000th is the first one again.\<close>

lemma serials_distinct_within_period:
  assumes "0 < i" "i < j" "j < i + 999999"
  shows "serial_after i v \<noteq> serial_after j v \<and> 1 \<le> serial_after i v \<and> serial_after i v \<le> 999999
    \<and> serial_after (i + 999999) v = serial_after i v"
proof -
  obtain m n where ij: "i = Suc m" "j = Suc n" using assms by (metis gr0_implies_Suc less_imp_Suc_add)
  have "(v + int m) mod MAX_SERIAL \<noteq> (v + int n) mod MAX_SERIAL"
  proof
    assume "(v + int m) mod MAX_SERIAL = (v + int n) mod MAX_SERIAL"
    then have "MAX_SERIAL dvd int n - int m" by (metis mod_eq_dvd_iff add_diff_cancel_left)
    moreover have "0 < int n - int m" "int n - int m < MAX_SERIAL"
      using assms ij by (simp_all add: MAX_SERIAL_def)
    ultimately show False using zdvd_not_zless by blast
  qed
  moreover have "serial_after (Suc m + 999999) v = serial_after (Suc m) v"
  proof -
    have "(v + int (m + 999999)) mod MAX_SERIAL = (v + int m) mod MAX_SERIAL"
      by (simp add: MAX_SERIAL_def mod_eq_dvd_iff)
    then show ?thesis using serial_after_Suc [of "m + 999999" v] by (simp add: serial_after_Suc)
  qed
  moreover have "0 \<le> (v + int m) mod MAX_SERIAL" "(v + int m) mod MAX_SERIAL < 999999"
    by (simp_all add: MAX_SERIAL_def)
  ultimately show ?thesis
    by (simp add: ij serial_after_Suc)
qed

end
