(* ===== verification/Py_Text.thy ===== *)
theory Py_Text
  imports Py_Value
begin

text \<open>
  Decimal notation and \<^verbatim>\<open>str(v)\<close>. The texts of a float, a list and a dictionary are the parameter
  \<open>repr\<close>: the source only passes them on for display.
\<close>

definition digit_char :: "int \<Rightarrow> char" where
  "digit_char d = char_of (nat (48 + d))"

function dec_digits :: "int \<Rightarrow> string" where
  "dec_digits n = (if n < 10 then [digit_char n] else dec_digits (n div 10) @ [digit_char (n mod 10)])"
  by pat_completeness auto
termination
  by (relation "measure nat") auto

declare dec_digits.simps [simp del]

definition dec :: "int \<Rightarrow> string" where
  "dec n = (if n < 0 then CHR ''-'' # dec_digits (- n) else dec_digits n)"

fun py_str :: "(pyval \<Rightarrow> string) \<Rightarrow> pyval \<Rightarrow> string" where
  "py_str repr VNone = ''None''"
| "py_str repr (VBool b) = (if b then ''True'' else ''False'')"
| "py_str repr (VInt n) = dec n"
| "py_str repr (VStr s) = s"
| "py_str repr v = repr v"

text \<open>A hexadecimal digit of either case.\<close>

definition hex_val :: "char \<Rightarrow> nat option" where
  "hex_val c =
     (let b = byte c
      in if 48 \<le> b \<and> b \<le> 57 then Some (b - 48)
         else if 65 \<le> b \<and> b \<le> 70 then Some (b - 55)
         else if 97 \<le> b \<and> b \<le> 102 then Some (b - 87) else None)"

section \<open>Reading back what was written\<close>

lemma byte_digit_char: "0 \<le> d \<Longrightarrow> d \<le> 9 \<Longrightarrow> byte (digit_char d) = nat (48 + d)"
proof -
  assume "0 \<le> d" "d \<le> 9"
  then have "nat (48 + d) < 256" by simp
  then show ?thesis by (simp add: digit_char_def byte_def)
qed

lemma digit_val_char [simp]: "0 \<le> d \<Longrightarrow> d \<le> 9 \<Longrightarrow> digit_val (digit_char d) = Some d"
  using byte_digit_char [of d] by (auto simp: digit_val_def)

lemma digit_char_cases: "0 \<le> d \<Longrightarrow> d \<le> 9 \<Longrightarrow> 48 \<le> byte (digit_char d) \<and> byte (digit_char d) \<le> 57"
  using byte_digit_char [of d] by auto

lemma digit_not_underscore: "0 \<le> d \<Longrightarrow> d \<le> 9 \<Longrightarrow> digit_char d \<noteq> CHR ''_''"
  using digit_char_cases [of d] by (auto simp: byte_def)

lemma scan_digits_append_digit:
  assumes "scan_digits p a k s = Some (v, n)" "0 \<le> d" "d \<le> 9" "s \<noteq> []"
  shows "scan_digits p a k (s @ [digit_char d]) = Some (10 * v + d, Suc n)"
  using assms
proof (induction p a k s rule: scan_digits.induct)
  case (1 prev acc n)
  then show ?case by simp
next
  case (2 prev acc n c cs)
  show ?case
  proof (cases cs)
    case Nil
    then show ?thesis using 2 digit_not_underscore [of d]
      by (auto split: if_splits option.splits)
  next
    case (Cons c' cs')
    then show ?thesis using 2 by (auto split: if_splits option.splits)
  qed
qed

lemma dec_digits_nonempty [simp]: "dec_digits n \<noteq> []"
  by (cases "n < 10") (simp_all add: dec_digits.simps [of n])

lemma scan_dec_digits:
  "0 \<le> n \<Longrightarrow> \<exists>k. scan_digits False 0 0 (dec_digits n) = Some (n, k)"
proof (induction n rule: dec_digits.induct)
  case (1 n)
  show ?case
  proof (cases "n < 10")
    case True
    then show ?thesis using 1 digit_not_underscore [of n] by (simp add: dec_digits.simps [of n])
  next
    case False
    moreover from False have "0 \<le> n div 10" by simp
    ultimately obtain k where "scan_digits False 0 0 (dec_digits (n div 10)) = Some (n div 10, k)"
      using 1(1) by blast
    from scan_digits_append_digit [OF this, of "n mod 10"]
    have "scan_digits False 0 0 (dec_digits n) = Some (10 * (n div 10) + n mod 10, Suc k)"
      using False by (simp add: dec_digits.simps [of n])
    then show ?thesis by simp
  qed
qed

lemma dec_digits_set: "0 \<le> n \<Longrightarrow> c \<in> set (dec_digits n) \<Longrightarrow> 48 \<le> byte c \<and> byte c \<le> 57"
proof (induction n rule: dec_digits.induct)
  case (1 n)
  show ?case
  proof (cases "n < 10")
    case True
    then show ?thesis using 1 digit_char_cases [of n] by (simp add: dec_digits.simps [of n])
  next
    case False
    then have "c \<in> set (dec_digits (n div 10)) \<or> c = digit_char (n mod 10)"
      using 1(3) by (auto simp: dec_digits.simps [of n])
    moreover from False have "0 \<le> n div 10" by simp
    ultimately show ?thesis using 1(1) False digit_char_cases [of "n mod 10"] by auto
  qed
qed

lemma dec_chars: "c \<in> set (dec n) \<Longrightarrow> c = CHR ''-'' \<or> 48 \<le> byte c \<and> byte c \<le> 57"
  using dec_digits_set [of n c] dec_digits_set [of "- n" c] by (auto simp: dec_def split: if_splits)

lemma py_strip_id: "\<forall>c \<in> set s. \<not> is_space c \<Longrightarrow> py_strip s = s"
proof -
  assume a: "\<forall>c \<in> set s. \<not> is_space c"
  have d: "dropWhile is_space xs = xs" if "\<forall>c \<in> set xs. \<not> is_space c" for xs
    using that by (cases xs) auto
  show ?thesis using a by (simp add: py_strip_def d)
qed

lemma dec_no_space: "c \<in> set (dec n) \<Longrightarrow> \<not> is_space c"
  using dec_chars [of c n] by (auto simp: is_space_def byte_def)

lemma parse_int_dec: "parse_int (dec n) = Some n"
proof -
  have strip: "py_strip (dec n) = dec n" by (rule py_strip_id) (auto dest: dec_no_space)
  show ?thesis
  proof (cases "n < 0")
    case True
    then show ?thesis using strip scan_dec_digits [of "- n"]
      by (auto simp: parse_int_def dec_def)
  next
    case False
    obtain c cs where c: "dec_digits n = c # cs" by (cases "dec_digits n") auto
    with False dec_digits_set [of n c] have "split_sign (dec_digits n) = (1, dec_digits n)"
      by (cases "c # cs" rule: split_sign.cases) (auto simp: byte_def)
    then show ?thesis using strip scan_dec_digits [of n] False
      by (auto simp: parse_int_def dec_def)
  qed
qed

lemma py_int_dec [simp]: "py_int (VStr (dec n)) = Inr n"
  by (simp add: parse_int_dec)

end
