(* ===== verification/Gateway_Connection.thy ===== *)
theory Gateway_Connection
  imports Pending_Requests Control_Commands Py_Text
begin

text \<open>
  \<^verbatim>\<open>lan/gateway_connection.py\<close>: one TCP connection to a gateway. It negotiates a session, correlates
  answers with requests by their serial numbers, hands device updates to the push callback, and
  starts a new generation on every connect and close.

  The record \<open>connection\<close> holds the object's fields. The pair of stream reader and writer is one
  field, the transport, named by the generation that opened it; \<open>cn_readers\<close> are the reader tasks
  that have neither ended nor been cancelled. Every operation below is the code between two awaits.
  \<open>session_step\<close> lets every coroutine of the object (requests, the readers, the handshake, closing)
  take its next such segment in any order, with any message from the network; it adds the requests
  that are under way, the handshake and the log of the frames written. The write lock only keeps two
  writes apart and has no part in the state. Frames (AES, CRC) are opaque: a message is the session
  id it carried and its decoded fields. \<open>repr\<close> is the text of floats and containers (see \<open>py_str\<close>).
\<close>

type_synonym route = "string \<times> string"

record message =
  ms_session :: string
  ms_fields :: dict

definition gw_error :: "string \<Rightarrow> py_exn" where
  "gw_error reason = OtherError reason"

section \<open>Reading messages\<close>

definition correlation_keys :: "(pyval \<Rightarrow> string) \<Rightarrow> dict \<Rightarrow> route list" where
  "correlation_keys repr payload =
     map (\<lambda>k. (k, py_str repr (get payload k)))
       (filter (\<lambda>k. get payload k \<noteq> VNone) [''serial'', ''uniSerial''])"

fun command_value :: "pyval \<Rightarrow> int option" where
  "command_value (VInt n) = Some n"
| "command_value (VStr s) = (case py_int (VStr (py_strip s)) of Inl e \<Rightarrow> None | Inr n \<Rightarrow> Some n)"
| "command_value _ = None"

fun names_device :: "(pyval \<Rightarrow> string) \<Rightarrow> pyval \<Rightarrow> bool" where
  "names_device repr (VStr s) = (s \<noteq> [])"
| "names_device repr (VInt n) = (py_str repr (VInt n) \<noteq> [])"
| "names_device repr _ = False"

definition has_device_id :: "(pyval \<Rightarrow> string) \<Rightarrow> dict \<Rightarrow> bool" where
  "has_device_id repr payload =
     list_ex (\<lambda>k. names_device repr (get payload k)) [''deviceId'', ''deviceID'', ''device_id'']"

fun nonempty_text :: "pyval \<Rightarrow> string option" where
  "nonempty_text (VStr s) = (if s = [] then None else Some s)"
| "nonempty_text _ = None"

fun first_text :: "pyval list \<Rightarrow> string option" where
  "first_text [] = None"
| "first_text (v # vs) = (case nonempty_text v of Some s \<Rightarrow> Some s | None \<Rightarrow> first_text vs)"

definition extract_uid :: "dict \<Rightarrow> string option" where
  "extract_uid payload = first_text (map (get payload) [''gatewayUid'', ''gatewayUID'', ''uid''])"

definition response_session_id :: "message \<Rightarrow> string option" where
  "response_session_id m = (if length (ms_session m) = 32 then Some (ms_session m) else None)"

text \<open>\<^verbatim>\<open>bytes.fromhex\<close>; it skips ASCII whitespace between two bytes.\<close>

fun from_hex :: "string \<Rightarrow> string option" where
  "from_hex [] = Some []"
| "from_hex [c] = (if byte c = 32 \<or> (9 \<le> byte c \<and> byte c \<le> 13) then Some [] else None)"
| "from_hex (c # d # s) =
     (if byte c = 32 \<or> (9 \<le> byte c \<and> byte c \<le> 13) then from_hex (d # s)
      else case (hex_val c, hex_val d) of
          (Some a, Some b) \<Rightarrow> map_option ((#) (char_of (16 * a + b))) (from_hex s)
        | _ \<Rightarrow> None)"

definition decode_session_key :: "pyval \<Rightarrow> string py" where
  "decode_session_key v =
     (case v of
        VStr s \<Rightarrow>
          (let key = (case from_hex s of Some k \<Rightarrow> k | None \<Rightarrow> s)
           in if length key \<in> {16, 24, 32} then Inr key else Inl (gw_error ''session_key_length''))
      | _ \<Rightarrow> Inl (gw_error ''session_key_type''))"

section \<open>The connection\<close>

definition ID_UNSET :: string where "ID_UNSET = replicate 32 CHR '' ''"
definition DEFAULT_KEY :: string where "DEFAULT_KEY = ''khggd54865SNJHGF''"

record connection =
  cn_transport :: "nat option"
  cn_session_id :: "string option"
  cn_session_key :: "string option"
  cn_peer_uid :: "string option"
  cn_identity_confirmed :: bool
  cn_generation :: nat
  cn_keys :: "(string \<times> string) list"
  cn_reader_task :: "nat option"
  cn_heartbeat_task :: "nat option"
  cn_pending :: "(route \<times> nat) list"
  cn_single :: "nat option"
  cn_closed :: bool
  cn_ready :: bool
  cn_futs :: "message fut list"
  cn_readers :: "nat list"

definition transport_active :: "'a connection_scheme \<Rightarrow> bool" where
  "transport_active c \<longleftrightarrow> cn_transport c \<noteq> None \<and> \<not> cn_closed c"

definition connected :: "'a connection_scheme \<Rightarrow> bool" where
  "connected c \<longleftrightarrow> transport_active c \<and> cn_ready c"

definition list_of :: "'b option \<Rightarrow> 'b list" where
  "list_of x = (case x of None \<Rightarrow> [] | Some y \<Rightarrow> [y])"

definition fail_pending :: "py_exn \<Rightarrow> 'a connection_scheme \<Rightarrow> 'a connection_scheme" where
  "fail_pending e c = c\<lparr>cn_pending := [], cn_single := None,
     cn_futs := settle_all (map snd (cn_pending c) @ list_of (cn_single c)) (Failed e) (cn_futs c)\<rparr>"

definition cancel_reader :: "'a connection_scheme \<Rightarrow> 'a connection_scheme" where
  "cancel_reader c = c\<lparr>cn_readers := filter (\<lambda>g. Some g \<noteq> cn_reader_task c) (cn_readers c)\<rparr>"

definition disconnect_generation ::
  "nat \<Rightarrow> nat \<Rightarrow> py_exn \<Rightarrow> 'a connection_scheme \<Rightarrow> 'a connection_scheme" where
  "disconnect_generation generation writer e c =
     (if generation \<noteq> cn_generation c \<or> cn_transport c \<noteq> Some writer \<or> cn_closed c then c
      else cancel_reader (fail_pending e (c\<lparr>cn_closed := True, cn_ready := False,
        cn_identity_confirmed := False\<rparr>)\<lparr>cn_transport := None\<rparr>))"

definition close :: "'a connection_scheme \<Rightarrow> 'a connection_scheme" where
  "close c =
     (if cn_closed c \<and> cn_transport c = None \<and> cn_heartbeat_task c = None \<and> cn_reader_task c = None then c
      else fail_pending (gw_error ''connection_closed'') ((cancel_reader c)\<lparr>cn_closed := True,
        cn_ready := False, cn_identity_confirmed := False, cn_generation := Suc (cn_generation c),
        cn_heartbeat_task := None, cn_reader_task := None, cn_transport := None\<rparr>))"

definition close_if_generation_changed :: "nat \<Rightarrow> 'a connection_scheme \<Rightarrow> 'a connection_scheme" where
  "close_if_generation_changed start c =
     (if cn_generation c = start + 1 \<and> \<not> cn_ready c then close c else c)"

text \<open>From the opened socket to the start of the handshake.\<close>

definition open_transport :: "'a connection_scheme \<Rightarrow> 'a connection_scheme" where
  "open_transport c =
     (let g = Suc (cn_generation c)
      in c\<lparr>cn_generation := g, cn_transport := Some g, cn_closed := False, cn_ready := False,
           cn_session_id := None, cn_session_key := None, cn_peer_uid := None,
           cn_identity_confirmed := False, cn_keys := [(ID_UNSET, DEFAULT_KEY)],
           cn_reader_task := Some g, cn_readers := g # cn_readers c\<rparr>)"

section \<open>Requests\<close>

record flight =
  fl_future :: nat
  fl_routes :: "route list"
  fl_reliable :: bool
  fl_generation :: nat
  fl_request :: dict

definition set_default :: "string \<Rightarrow> pyval \<Rightarrow> dict \<Rightarrow> dict" where
  "set_default k v d = (if has_key d k then d else d @ [(k, v)])"

definition with_defaults :: "int \<Rightarrow> int \<Rightarrow> dict \<Rightarrow> dict" where
  "with_defaults serial uni_serial payload =
     set_default ''debugInfo'' (VStr DEBUG_INFO) (set_default ''ver'' (VStr SOFTWARE_VER)
       (set_default ''serverRecord'' (VBool False) (set_default ''uniSerial'' (VInt uni_serial)
         (set_default ''serial'' (VInt serial) payload))))"

fun register_routes :: "route list \<Rightarrow> nat \<Rightarrow> ('a connection_scheme, unit) io" where
  "register_routes [] f c = (Inr (), c)"
| "register_routes (r # rs) f c =
     (case map_of (cn_pending c) r of
        Some g \<Rightarrow>
          if is_waiting (cn_futs c) g then (Inl (gw_error ''correlation_collision''), c)
          else register_routes rs f (c\<lparr>cn_pending := AList.update r f (cn_pending c)\<rparr>)
      | None \<Rightarrow> register_routes rs f (c\<lparr>cn_pending := AList.update r f (cn_pending c)\<rparr>))"

text \<open>\<^verbatim>\<open>_request_once\<close> up to the write; \<open>serial\<close> and \<open>uni_serial\<close> are the two numbers it draws.\<close>

definition begin_request ::
  "(pyval \<Rightarrow> string) \<Rightarrow> int \<Rightarrow> int \<Rightarrow> dict \<Rightarrow> ('a connection_scheme, flight) io" where
  "begin_request repr serial uni_serial payload c =
     (if \<not> transport_active c then (Inl (gw_error ''transport_not_connected''), c)
      else
        let reliable = correlation_keys repr payload;
            request = with_defaults serial uni_serial payload;
            routes = (if reliable \<noteq> [] then reliable else correlation_keys repr request);
            f = length (cn_futs c)
        in case register_routes routes f (c\<lparr>cn_futs := cn_futs c @ [Waiting]\<rparr>) of
            (Inl e, c1) \<Rightarrow> (Inl e, c1)
          | (Inr _, c1) \<Rightarrow>
              (Inr \<lparr>fl_future = f, fl_routes = routes, fl_reliable = (reliable \<noteq> []),
                 fl_generation = cn_generation c, fl_request = request\<rparr>,
               if reliable \<noteq> [] then c1 else c1\<lparr>cn_single := Some f\<rparr>))"

text \<open>\<^verbatim>\<open>_write\<close>: the transport a frame of a request of this generation is written to.\<close>

definition write_target :: "nat \<Rightarrow> 'a connection_scheme \<Rightarrow> nat py" where
  "write_target generation c =
     (case cn_transport c of
        None \<Rightarrow> Inl (gw_error ''transport_unavailable'')
      | Some w \<Rightarrow> if cn_closed c \<or> generation \<noteq> cn_generation c
          then Inl (gw_error ''transport_unavailable'') else Inr w)"

text \<open>The \<^verbatim>\<open>finally\<close> block: an answer, a timeout, a cancellation and a failed write all end here.\<close>

definition end_request :: "flight \<Rightarrow> 'a connection_scheme \<Rightarrow> 'a connection_scheme" where
  "end_request fl c = c\<lparr>
     cn_pending := fold (\<lambda>r. pop_own r (fl_future fl)) (fl_routes fl) (cn_pending c),
     cn_single := (if cn_single c = Some (fl_future fl) then None else cn_single c),
     cn_futs := settle (fl_future fl) Cancelled (cn_futs c)\<rparr>"

section \<open>Inbound messages\<close>

fun first_pending :: "route list \<Rightarrow> (route \<times> nat) list \<Rightarrow> nat option" where
  "first_pending [] t = None"
| "first_pending (r # rs) t = (case map_of t r of Some f \<Rightarrow> Some f | None \<Rightarrow> first_pending rs t)"

text \<open>\<^verbatim>\<open>_route\<close>: the result tells whether the message is a device update for the push callback.\<close>

definition route :: "(pyval \<Rightarrow> string) \<Rightarrow> message \<Rightarrow> 'a connection_scheme \<Rightarrow> bool \<times> 'a connection_scheme" where
  "route repr m c =
     (let keys = correlation_keys repr (ms_fields m);
          future = first_pending keys (cn_pending c);
          single = (if keys = [] then cn_single c else None)
      in if command_value (get (ms_fields m) ''cmd'') = Some 42
           \<or> future = None \<and> single = None \<and> has_device_id repr (ms_fields m)
         then (True, c)
         else (False, case (if future = None then single else future) of
             None \<Rightarrow> c
           | Some f \<Rightarrow> c\<lparr>cn_futs := settle f (Done m) (cn_futs c)\<rparr>))"

text \<open>One turn of \<^verbatim>\<open>_reader_loop\<close> with a frame, and its \<^verbatim>\<open>finally\<close> block.\<close>

definition end_reader :: "nat \<Rightarrow> 'a connection_scheme \<Rightarrow> 'a connection_scheme" where
  "end_reader g c = c\<lparr>cn_readers := removeAll g (cn_readers c)\<rparr>"

definition reader_turn :: "(pyval \<Rightarrow> string) \<Rightarrow> nat \<Rightarrow> message \<Rightarrow> 'a connection_scheme \<Rightarrow> 'a connection_scheme" where
  "reader_turn repr g m c =
     (let c1 = snd (route repr m c)
      in if g = cn_generation c1 \<and> \<not> cn_closed c1 then c1 else end_reader g c1)"

definition reader_stop :: "nat \<Rightarrow> 'a connection_scheme \<Rightarrow> 'a connection_scheme" where
  "reader_stop g c =
     end_reader g (if g = cn_generation c \<and> \<not> cn_closed c
       then disconnect_generation g g (gw_error ''reader_stopped'') c else c)"

section \<open>The handshake\<close>

definition CMD_HELLO :: int where "CMD_HELLO = 0"
definition CMD_LOGIN :: int where "CMD_LOGIN = 2"

definition hello_payload :: "string \<Rightarrow> int \<Rightarrow> dict" where
  "hello_payload identifier serial =
     [(''source'', VStr ''ZhiJia365''), (''softwareVersion'', VStr ''50103309''),
      (''sysVersion'', VStr ''Android14_34''), (''hardwareVersion'', VStr ''Google Pixel 8''),
      (''language'', VStr ''zh''), (''identifier'', VStr identifier), (''phoneName'', VStr ''Pixel 8''),
      (''cmd'', VInt CMD_HELLO), (''serial'', VInt serial), (''clientType'', VInt 1)]"

definition login_payload :: "string \<Rightarrow> string \<Rightarrow> int \<Rightarrow> dict" where
  "login_payload username password_hash serial =
     [(''cmd'', VInt CMD_LOGIN), (''serial'', VInt serial), (''userName'', VStr username),
      (''password'', VStr password_hash), (''clientType'', VInt 1), (''source'', VStr ''ZhiJia365'')]"

text \<open>What \<^verbatim>\<open>_connect_locked\<close> does with the answer to the hello, and with the answer to the login.\<close>

definition hello_received ::
  "string option \<Rightarrow> message \<Rightarrow> ('a connection_scheme, string option) io" where
  "hello_received expected m c =
     (let raw_key = py_or (get (ms_fields m) ''sessionKey'') (get (ms_fields m) ''key'');
          hello_uid = extract_uid (ms_fields m)
      in case response_session_id m of
          None \<Rightarrow> (Inl (gw_error ''hello_credentials_missing''), c)
        | Some sid \<Rightarrow>
            if raw_key = VNone then (Inl (gw_error ''hello_credentials_missing''), c)
            else if expected \<noteq> None \<and> hello_uid \<noteq> None \<and> hello_uid \<noteq> expected
            then (Inl (gw_error ''hello_uid_mismatch''), c)
            else case decode_session_key raw_key of
                Inl e \<Rightarrow> (Inl e, c)
              | Inr key \<Rightarrow> (Inr hello_uid, c\<lparr>cn_session_key := Some key, cn_session_id := Some sid,
                  cn_keys := AList.update sid key (cn_keys c)\<rparr>))"

definition login_received ::
  "string option \<Rightarrow> bool \<Rightarrow> nat \<Rightarrow> string option \<Rightarrow> message \<Rightarrow> ('a connection_scheme, unit) io" where
  "login_received expected allow_missing generation hello_uid m c =
     (let login_uid = extract_uid (ms_fields m);
          peer = (if login_uid = None then hello_uid else login_uid);
          confirmed = (expected \<noteq> None \<and> peer = expected);
          c1 = c\<lparr>cn_peer_uid := peer, cn_identity_confirmed := confirmed\<rparr>
      in if \<not> py_eq (get (ms_fields m) ''status'') (VInt 0) then (Inl (gw_error ''login_rejected''), c)
         else if hello_uid \<noteq> None \<and> login_uid \<noteq> None \<and> hello_uid \<noteq> login_uid
         then (Inl (gw_error ''handshake_uid_conflict''), c)
         else if expected \<noteq> None \<and> \<not> confirmed \<and> \<not> (allow_missing \<and> peer = None)
         then (Inl (gw_error (if peer = None then ''identity_missing'' else ''handshake_uid_mismatch'')), c1)
         else (Inr (), c1\<lparr>cn_ready := True, cn_heartbeat_task := Some generation\<rparr>))"

section \<open>Every coroutine of the connection\<close>

datatype phase = Opened | Hello_Sent nat | Keyed "string option" | Login_Sent "string option" nat

record attempt =
  at_expected :: "string option"
  at_allow_missing :: bool
  at_generation :: nat
  at_phase :: phase

record session = connection +
  ss_flights :: "flight list"
  ss_attempt :: "attempt option"
  ss_wire :: "(nat \<times> flight) list"

definition new_session :: session where
  "new_session = \<lparr>cn_transport = None, cn_session_id = None, cn_session_key = None, cn_peer_uid = None,
     cn_identity_confirmed = False, cn_generation = 0, cn_keys = [(ID_UNSET, DEFAULT_KEY)],
     cn_reader_task = None, cn_heartbeat_task = None, cn_pending = [], cn_single = None,
     cn_closed = True, cn_ready = False, cn_futs = [], cn_readers = [],
     ss_flights = [], ss_attempt = None, ss_wire = []\<rparr>"

text \<open>A request without a serial number of its own holds the request lock from here to its end.\<close>

definition may_begin :: "(pyval \<Rightarrow> string) \<Rightarrow> dict \<Rightarrow> session \<Rightarrow> bool" where
  "may_begin repr payload s \<longleftrightarrow> correlation_keys repr payload \<noteq> [] \<or> list_all fl_reliable (ss_flights s)"

definition take_off :: "flight \<Rightarrow> session \<Rightarrow> session" where
  "take_off fl s = s\<lparr>ss_flights := fl # ss_flights s\<rparr>"

definition land :: "flight \<Rightarrow> session \<Rightarrow> session" where
  "land fl s = (end_request fl s)\<lparr>ss_flights := removeAll fl (ss_flights s)\<rparr>"

definition set_attempt :: "attempt option \<Rightarrow> session \<Rightarrow> session" where
  "set_attempt a s = s\<lparr>ss_attempt := a\<rparr>"

text \<open>The handshake holds the lifecycle lock, so \<^verbatim>\<open>close\<close> has to wait for its end.\<close>

inductive session_step :: "(pyval \<Rightarrow> string) \<Rightarrow> session \<Rightarrow> session \<Rightarrow> bool" for repr where
  st_begin: "begin_request repr n1 n2 payload s = (Inr fl, t) \<Longrightarrow> may_begin repr payload s \<Longrightarrow>
     session_step repr s (take_off fl t)"
| st_begin_fails: "begin_request repr n1 n2 payload s = (Inl e, t) \<Longrightarrow> may_begin repr payload s \<Longrightarrow>
     session_step repr s t"
| st_write: "fl \<in> set (ss_flights s) \<Longrightarrow> fl \<notin> snd ` set (ss_wire s) \<Longrightarrow>
     write_target (fl_generation fl) s = Inr w \<Longrightarrow>
     session_step repr s (s\<lparr>ss_wire := ss_wire s @ [(w, fl)]\<rparr>)"
| st_write_fails: "fl \<in> set (ss_flights s) \<Longrightarrow> (w, fl) \<in> set (ss_wire s) \<Longrightarrow>
     session_step repr s (disconnect_generation (fl_generation fl) w (gw_error ''write_failed'') s)"
| st_end: "fl \<in> set (ss_flights s) \<Longrightarrow> session_step repr s (land fl s)"
| st_deliver: "g \<in> set (cn_readers s) \<Longrightarrow> session_step repr s (reader_turn repr g m s)"
| st_reader_stop: "g \<in> set (cn_readers s) \<Longrightarrow> session_step repr s (reader_stop g s)"
| st_open: "ss_attempt s = None \<Longrightarrow> \<not> connected s \<Longrightarrow>
     session_step repr s (set_attempt (Some \<lparr>at_expected = expected, at_allow_missing = allow,
       at_generation = Suc (cn_generation s), at_phase = Opened\<rparr>) (open_transport s))"
| st_hello: "ss_attempt s = Some a \<Longrightarrow> at_phase a = Opened \<Longrightarrow>
     begin_request repr n1 n2 (hello_payload ident serial) s = (Inr fl, t) \<Longrightarrow>
     session_step repr s (take_off fl (set_attempt (Some (a\<lparr>at_phase := Hello_Sent (fl_future fl)\<rparr>)) t))"
| st_hello_answered: "ss_attempt s = Some a \<Longrightarrow> at_phase a = Hello_Sent f \<Longrightarrow> cn_futs s ! f = Done m \<Longrightarrow>
     hello_received (at_expected a) m s = (Inr uid, t) \<Longrightarrow>
     session_step repr s (set_attempt (Some (a\<lparr>at_phase := Keyed uid\<rparr>)) t)"
| st_login: "ss_attempt s = Some a \<Longrightarrow> at_phase a = Keyed uid \<Longrightarrow>
     begin_request repr n1 n2 (login_payload user pass serial) s = (Inr fl, t) \<Longrightarrow>
     session_step repr s (take_off fl (set_attempt (Some (a\<lparr>at_phase := Login_Sent uid (fl_future fl)\<rparr>)) t))"
| st_login_answered: "ss_attempt s = Some a \<Longrightarrow> at_phase a = Login_Sent uid f \<Longrightarrow> cn_futs s ! f = Done m \<Longrightarrow>
     login_received (at_expected a) (at_allow_missing a) (at_generation a) uid m s = (r, t) \<Longrightarrow>
     session_step repr s (set_attempt None t)"
| st_attempt_fails: "ss_attempt s \<noteq> None \<Longrightarrow> session_step repr s (set_attempt None s)"
| st_cleanup: "ss_attempt s = None \<Longrightarrow> session_step repr s (close_if_generation_changed start s)"
| st_close: "ss_attempt s = None \<Longrightarrow> session_step repr s (close s)"

section \<open>The invariant\<close>

definition flight_ok :: "(pyval \<Rightarrow> string) \<Rightarrow> session \<Rightarrow> flight \<Rightarrow> bool" where
  "flight_ok repr s fl \<longleftrightarrow> fl_future fl < length (cn_futs s)
     \<and> (is_waiting (cn_futs s) (fl_future fl) \<longrightarrow>
          (if fl_reliable fl then keys_of (cn_pending s) (fl_future fl) \<noteq> {}
           else cn_single s = Some (fl_future fl)))
     \<and> keys_of (cn_pending s) (fl_future fl) \<subseteq> set (fl_routes fl)
     \<and> (cn_single s = Some (fl_future fl) \<longrightarrow> \<not> fl_reliable fl)
     \<and> (\<forall>m. cn_futs s ! fl_future fl = Done m \<and> fl_reliable fl \<longrightarrow>
          set (fl_routes fl) \<inter> set (correlation_keys repr (ms_fields m)) \<noteq> {})"

definition flights_ok :: "(pyval \<Rightarrow> string) \<Rightarrow> session \<Rightarrow> bool" where
  "flights_ok repr s \<longleftrightarrow> (\<forall>fl \<in> set (ss_flights s). flight_ok repr s fl)
     \<and> inj_on fl_future (set (ss_flights s))
     \<and> (\<forall>f. length (cn_futs s) \<le> f \<longrightarrow> keys_of (cn_pending s) f = {} \<and> cn_single s \<noteq> Some f)"

definition transport_ok :: "session \<Rightarrow> bool" where
  "transport_ok s \<longleftrightarrow> (cn_closed s \<longrightarrow> cn_transport s = None \<and> cn_pending s = [] \<and> cn_single s = None)
     \<and> (cn_transport s = None \<longrightarrow> cn_closed s)
     \<and> (\<forall>w. cn_transport s = Some w \<longrightarrow> w = cn_generation s)
     \<and> (\<forall>(w, fl) \<in> set (ss_wire s). w = fl_generation fl)
     \<and> distinct (map snd (ss_wire s))"

definition session_inv :: "(pyval \<Rightarrow> string) \<Rightarrow> session \<Rightarrow> bool" where
  "session_inv repr s \<longleftrightarrow> flights_ok repr s \<and> transport_ok s"

lemma connection_extension [simp]:
  "cn_pending (s\<lparr>ss_flights := x\<rparr>) = cn_pending s" "cn_single (s\<lparr>ss_flights := x\<rparr>) = cn_single s"
  "cn_futs (s\<lparr>ss_flights := x\<rparr>) = cn_futs s"
  "cn_pending (set_attempt a s) = cn_pending s" "cn_single (set_attempt a s) = cn_single s"
  "cn_futs (set_attempt a s) = cn_futs s" "ss_flights (set_attempt a s) = ss_flights s"
  by (simp_all add: set_attempt_def)

lemma flight_ok_cong:
  "cn_pending t = cn_pending s \<Longrightarrow> cn_single t = cn_single s \<Longrightarrow> cn_futs t = cn_futs s
    \<Longrightarrow> flight_ok repr t fl = flight_ok repr s fl"
  by (simp add: flight_ok_def)

lemma flights_ok_cong:
  "cn_pending t = cn_pending s \<Longrightarrow> cn_single t = cn_single s \<Longrightarrow> cn_futs t = cn_futs s
    \<Longrightarrow> ss_flights t = ss_flights s \<Longrightarrow> flights_ok repr t = flights_ok repr s"
  by (simp add: flights_ok_def flight_ok_cong [of t s])

lemma transport_ok_cong:
  "cn_pending t = cn_pending s \<Longrightarrow> cn_single t = cn_single s \<Longrightarrow> cn_closed t = cn_closed s
    \<Longrightarrow> cn_transport t = cn_transport s \<Longrightarrow> cn_generation t = cn_generation s \<Longrightarrow> ss_wire t = ss_wire s
    \<Longrightarrow> transport_ok t = transport_ok s"
  by (simp add: transport_ok_def)

lemma take_off_ok:
  assumes "flights_ok repr s" "flight_ok repr s fl" "fl_future fl \<notin> fl_future ` set (ss_flights s)"
  shows "flights_ok repr (take_off fl s)"
proof -
  have "flight_ok repr (take_off fl s) = flight_ok repr s"
    by (intro ext flight_ok_cong) (simp_all add: take_off_def)
  moreover have "ss_flights (take_off fl s) = fl # ss_flights s" "cn_futs (take_off fl s) = cn_futs s"
    "cn_pending (take_off fl s) = cn_pending s" "cn_single (take_off fl s) = cn_single s"
    by (simp_all add: take_off_def)
  ultimately show ?thesis using assms by (auto simp: flights_ok_def inj_on_insert)
qed

text \<open>Settling a future keeps the flights well, if an answer is one of the flight's own.\<close>

lemma settle_nth: "f < length fs \<Longrightarrow> settle f x fs ! f = (if fs ! f = Waiting then x else fs ! f)"
  by (simp add: settle_def)

lemma settle_nth_other: "g \<noteq> f \<Longrightarrow> settle f x fs ! g = fs ! g"
  by (simp add: settle_def)

lemma settle_flight_ok:
  assumes "flight_ok repr s fl" "x \<noteq> Waiting"
    and "\<And>m. x = Done m \<Longrightarrow> fl_future fl = f \<Longrightarrow> fl_reliable fl \<Longrightarrow>
      set (fl_routes fl) \<inter> set (correlation_keys repr (ms_fields m)) \<noteq> {}"
  shows "flight_ok repr (s\<lparr>cn_futs := settle f x (cn_futs s)\<rparr>) fl"
proof (cases "fl_future fl = f")
  case True
  then show ?thesis using assms
    by (auto simp: flight_ok_def is_waiting_settle settle_nth split: if_splits)
next
  case False
  then show ?thesis using assms(1,2) by (simp add: flight_ok_def is_waiting_settle settle_nth_other)
qed

lemma settle_all_failed_ok:
  assumes "flight_ok repr s fl"
    and "cn_pending t = []" "cn_single t = None"
    and "cn_futs t = settle_all (map snd (cn_pending s) @ list_of (cn_single s)) (Failed e) (cn_futs s)"
  shows "flight_ok repr t fl"
proof -
  let ?f = "fl_future fl" and ?is = "map snd (cn_pending s) @ list_of (cn_single s)"
  have f: "?f < length (cn_futs s)" using assms(1) by (simp add: flight_ok_def)
  have "is_waiting (cn_futs s) ?f \<Longrightarrow> ?f \<in> set ?is"
    using assms(1) by (auto simp: flight_ok_def list_of_def dest: keys_of_in_values split: if_splits)
  then have settled: "\<not> is_waiting (cn_futs t) ?f" by (auto simp: assms(4) future_simps)
  have answered: "cn_futs t ! ?f = Done m \<Longrightarrow> cn_futs s ! ?f = Done m" for m
    using settle_all_final [of ?f "cn_futs s" ?is "Failed e"] settle_all_nth [of "Failed e" "cn_futs s" ?f ?is] f
    by (cases "is_waiting (cn_futs s) ?f") (auto simp: assms(4) split: if_splits)
  show ?thesis using assms(1) settled answered by (auto simp: flight_ok_def assms(2-4))
qed

lemma fail_pending_ok:
  assumes "flights_ok repr s"
  shows "flights_ok repr (fail_pending e s)"
proof -
  have "flight_ok repr (fail_pending e s) fl" if "flight_ok repr s fl" for fl
    by (rule settle_all_failed_ok [OF that]) (simp_all add: fail_pending_def)
  moreover have "ss_flights (fail_pending e s) = ss_flights s" by (simp add: fail_pending_def)
  ultimately show ?thesis using assms by (simp add: flights_ok_def) (simp add: fail_pending_def)
qed

lemma register_routes_spec:
  assumes "register_routes rs f c = (r, c')"
  shows "\<exists>p. c' = c\<lparr>cn_pending := p\<rparr>
    \<and> (\<forall>g. keys_of p g \<subseteq> keys_of (cn_pending c) g \<union> (if g = f then set rs else {}))
    \<and> (\<forall>g. is_waiting (cn_futs c) g \<longrightarrow> keys_of (cn_pending c) g \<subseteq> keys_of p g)
    \<and> (r = Inr () \<longrightarrow> rs \<noteq> [] \<longrightarrow> last rs \<in> keys_of p f)"
  using assms
proof (induction rs f c rule: register_routes.induct)
  case (1 f c)
  then show ?case by (intro exI [of _ "cn_pending c"]) auto
next
  case (2 k rs f c)
  let ?p = "AList.update k f (cn_pending c)"
  show ?case
  proof (cases "\<exists>g. map_of (cn_pending c) k = Some g \<and> is_waiting (cn_futs c) g")
    case True
    with 2 show ?thesis by (intro exI [of _ "cn_pending c"]) auto
  next
    case False
    with 2(3) have run: "register_routes rs f (c\<lparr>cn_pending := ?p\<rparr>) = (r, c')"
      by (auto split: option.splits)
    have "\<exists>p. c' = c\<lparr>cn_pending := ?p\<rparr>\<lparr>cn_pending := p\<rparr>
      \<and> (\<forall>g. keys_of p g \<subseteq> keys_of (cn_pending (c\<lparr>cn_pending := ?p\<rparr>)) g \<union> (if g = f then set rs else {}))
      \<and> (\<forall>g. is_waiting (cn_futs (c\<lparr>cn_pending := ?p\<rparr>)) g \<longrightarrow>
            keys_of (cn_pending (c\<lparr>cn_pending := ?p\<rparr>)) g \<subseteq> keys_of p g)
      \<and> (r = Inr () \<longrightarrow> rs \<noteq> [] \<longrightarrow> last rs \<in> keys_of p f)"
    proof (cases "map_of (cn_pending c) k")
      case None
      then show ?thesis by (rule 2(1) [OF _ run])
    next
      case (Some g)
      with False have "\<not> is_waiting (cn_futs c) g" by blast
      then show ?thesis by (rule 2(2) [OF Some _ run])
    qed
    then obtain p where p: "c' = c\<lparr>cn_pending := p\<rparr>"
      "\<And>g. keys_of p g \<subseteq> keys_of ?p g \<union> (if g = f then set rs else {})"
      "\<And>g. is_waiting (cn_futs c) g \<Longrightarrow> keys_of ?p g \<subseteq> keys_of p g"
      "r = Inr () \<Longrightarrow> rs \<noteq> [] \<Longrightarrow> last rs \<in> keys_of p f"
      by simp blast
    have "rs = [] \<Longrightarrow> p = ?p" using run p(1) by (auto dest: arg_cong [where f = cn_pending])
    moreover have "keys_of (cn_pending c) g \<subseteq> keys_of p g" if "is_waiting (cn_futs c) g" for g
    proof -
      have "k \<notin> keys_of (cn_pending c) g" using False that by (auto simp: keys_of_def)
      then show ?thesis using p(3) [OF that] by (auto simp: future_simps split: if_splits)
    qed
    moreover have "keys_of p g \<subseteq> keys_of (cn_pending c) g \<union> (if g = f then set (k # rs) else {})" for g
      using p(2) [of g] by (auto simp: future_simps split: if_splits)
    ultimately show ?thesis using p(1,4)
      by (intro exI [of _ p]) (auto simp: future_simps)
  qed
qed


lemma begin_request_spec:
  assumes "begin_request repr n1 n2 payload s = (r, t)"
  obtains (refused) e where "r = Inl e" "t = s"
  | (registered) p sg where "transport_active s"
      "t = s\<lparr>cn_futs := cn_futs s @ [Waiting], cn_pending := p, cn_single := sg\<rparr>"
      "\<And>g. g \<noteq> length (cn_futs s) \<Longrightarrow> keys_of p g \<subseteq> keys_of (cn_pending s) g"
      "\<And>g. is_waiting (cn_futs s) g \<Longrightarrow> keys_of (cn_pending s) g \<subseteq> keys_of p g"
      "\<And>e. r = Inl e \<Longrightarrow> sg = cn_single s"
      "\<And>fl. r = Inr fl \<Longrightarrow> fl_future fl = length (cn_futs s) \<and> fl_generation fl = cn_generation s
         \<and> (fl_reliable fl \<longleftrightarrow> correlation_keys repr payload \<noteq> [])
         \<and> (fl_reliable fl \<longrightarrow> sg = cn_single s \<and> keys_of p (fl_future fl) \<noteq> {})
         \<and> (\<not> fl_reliable fl \<longrightarrow> sg = Some (fl_future fl))
         \<and> keys_of p (fl_future fl) \<subseteq> keys_of (cn_pending s) (fl_future fl) \<union> set (fl_routes fl)"
proof (cases "transport_active s")
  case False
  then show ?thesis using assms by (intro refused) (auto simp: begin_request_def)
next
  case True
  define f where "f = length (cn_futs s)"
  define reliable where "reliable = correlation_keys repr payload"
  define routes where "routes = (if reliable \<noteq> [] then reliable
    else correlation_keys repr (with_defaults n1 n2 payload))"
  obtain q c1 where run: "register_routes routes f (s\<lparr>cn_futs := cn_futs s @ [Waiting]\<rparr>) = (q, c1)"
    by (metis prod.exhaust)
  from register_routes_spec [OF run] obtain p where
    p: "c1 = s\<lparr>cn_futs := cn_futs s @ [Waiting]\<rparr>\<lparr>cn_pending := p\<rparr>"
      "\<And>g. keys_of p g \<subseteq> keys_of (cn_pending s) g \<union> (if g = f then set routes else {})"
      "\<And>g. is_waiting (cn_futs s @ [Waiting]) g \<Longrightarrow> keys_of (cn_pending s) g \<subseteq> keys_of p g"
      "q = Inr () \<Longrightarrow> routes \<noteq> [] \<Longrightarrow> last routes \<in> keys_of p f"
    by auto
  have rt: "(r, t) = (case (q, c1) of (Inl e, c1) \<Rightarrow> (Inl e, c1)
    | (Inr _, c1) \<Rightarrow> (Inr \<lparr>fl_future = f, fl_routes = routes, fl_reliable = (reliable \<noteq> []),
        fl_generation = cn_generation s, fl_request = with_defaults n1 n2 payload\<rparr>,
        if reliable \<noteq> [] then c1 else c1\<lparr>cn_single := Some f\<rparr>))"
    unfolding assms [symmetric] run [symmetric] routes_def reliable_def f_def
    by (simp only: begin_request_def Let_def True not_True_eq_False if_False)
  show ?thesis
  proof (rule registered [OF True, of "cn_single t" p])
    show "t = s\<lparr>cn_futs := cn_futs s @ [Waiting], cn_pending := p, cn_single := cn_single t\<rparr>"
      using rt p(1) by (cases q) (auto split: if_splits)
    show "keys_of p g \<subseteq> keys_of (cn_pending s) g" if "g \<noteq> length (cn_futs s)" for g
      using p(2) [of g] that by (simp add: f_def)
    show "keys_of (cn_pending s) g \<subseteq> keys_of p g" if "is_waiting (cn_futs s) g" for g
      using p(3) [of g] that by (simp add: future_simps)
    show "cn_single t = cn_single s" if "r = Inl e" for e
      using rt p(1) that by (cases q) auto
    show "fl_future fl = length (cn_futs s) \<and> fl_generation fl = cn_generation s
         \<and> (fl_reliable fl \<longleftrightarrow> correlation_keys repr payload \<noteq> [])
         \<and> (fl_reliable fl \<longrightarrow> cn_single t = cn_single s \<and> keys_of p (fl_future fl) \<noteq> {})
         \<and> (\<not> fl_reliable fl \<longrightarrow> cn_single t = Some (fl_future fl))
         \<and> keys_of p (fl_future fl) \<subseteq> keys_of (cn_pending s) (fl_future fl) \<union> set (fl_routes fl)"
      if "r = Inr fl" for fl
    proof -
      from rt that have "q = Inr ()" by (cases q) auto
      with rt that p(1) have fl: "fl_future fl = f" "fl_routes fl = routes" "fl_reliable fl = (reliable \<noteq> [])"
        "fl_generation fl = cn_generation s" "cn_single t = (if reliable \<noteq> [] then cn_single s else Some f)"
        by (auto split: if_splits)
      moreover have "reliable \<noteq> [] \<Longrightarrow> keys_of p f \<noteq> {}"
        using p(4) [OF \<open>q = Inr ()\<close>] by (auto simp: routes_def)
      ultimately show ?thesis using p(2) [of f] by (simp add: f_def reliable_def)
    qed
  qed
qed

lemma begin_flights_ok:
  assumes "begin_request repr n1 n2 payload s = (r, t)" "may_begin repr payload s" "flights_ok repr s"
  shows "flights_ok repr t \<and> (\<forall>fl. r = Inr fl \<longrightarrow> flights_ok repr (take_off fl t))"
  using assms(1)
proof (cases rule: begin_request_spec)
  case (refused e)
  then show ?thesis using assms(3) by simp
next
  case (registered p sg)
  let ?n = "length (cn_futs s)"
  have sg: "sg = cn_single s \<or> sg = Some ?n \<and> (\<forall>fl \<in> set (ss_flights s). fl_reliable fl)"
    using registered(5,6) assms(2) by (cases r) (auto simp: may_begin_def list_all_iff)
  have old: "flight_ok repr t fl'" if "fl' \<in> set (ss_flights s)" for fl'
  proof -
    have ok: "flight_ok repr s fl'" using assms(3) that by (simp add: flights_ok_def)
    then have f': "fl_future fl' \<noteq> ?n" by (simp add: flight_ok_def)
    have eqs: "is_waiting (cn_futs t) (fl_future fl') = is_waiting (cn_futs s) (fl_future fl')"
      "cn_futs t ! fl_future fl' = cn_futs s ! fl_future fl'" "cn_pending t = p" "cn_single t = sg"
      "fl_future fl' < length (cn_futs t)"
      using ok f' unfolding registered(2) by (simp_all add: flight_ok_def is_waiting_append nth_append)
    have sub: "keys_of p (fl_future fl') \<subseteq> keys_of (cn_pending s) (fl_future fl')"
      "is_waiting (cn_futs s) (fl_future fl') \<Longrightarrow> keys_of (cn_pending s) (fl_future fl') \<subseteq> keys_of p (fl_future fl')"
      using registered(3) [OF f'] registered(4) by blast+
    from sg show ?thesis
    proof
      assume "sg = cn_single s"
      then show ?thesis using ok sub using eqs(5) unfolding flight_ok_def eqs(1-4) by (simp split: if_splits; blast)
    next
      assume "sg = Some ?n \<and> (\<forall>fl \<in> set (ss_flights s). fl_reliable fl)"
      then have "sg \<noteq> Some (fl_future fl')" "fl_reliable fl'" using f' that by auto
      then show ?thesis using ok sub using eqs(5) unfolding flight_ok_def eqs(1-4) by (simp split: if_splits; blast)
    qed
  qed
  have fresh: "keys_of (cn_pending s) ?n = {}" "cn_single s \<noteq> Some ?n"
    using assms(3) unfolding flights_ok_def by blast+
  have "keys_of (cn_pending t) g = {} \<and> cn_single t \<noteq> Some g" if "length (cn_futs t) \<le> g" for g
  proof -
    have g: "?n \<le> g" "g \<noteq> ?n" using that unfolding registered(2) by simp_all
    then have "keys_of (cn_pending s) g = {}" "cn_single s \<noteq> Some g"
      using assms(3) unfolding flights_ok_def by blast+
    then show ?thesis using sg registered(3) [OF g(2)] g(2) unfolding registered(2) by auto
  qed
  moreover have flights: "ss_flights t = ss_flights s" unfolding registered(2) by simp
  moreover have "inj_on fl_future (set (ss_flights s))" using assms(3) by (simp add: flights_ok_def)
  ultimately have t_ok: "flights_ok repr t"
    unfolding flights_ok_def flights using old by blast
  moreover have "flights_ok repr (take_off fl t)" if r: "r = Inr fl" for fl
  proof -
    note fl = registered(6) [OF r]
    have "flight_ok repr t fl"
      using fl fresh unfolding registered(2) flight_ok_def by (auto simp: nth_append)
    moreover have "fl_future fl \<notin> fl_future ` set (ss_flights t)"
      using assms(3) fl unfolding flights flights_ok_def flight_ok_def by auto
    ultimately show ?thesis using t_ok by (intro take_off_ok)
  qed
  ultimately show ?thesis by simp
qed


text \<open>The other operations, one by one.\<close>

lemma first_pending_Some:
  "first_pending ks t = Some f \<Longrightarrow> \<exists>k \<in> set ks. k \<in> keys_of t f"
  by (induction ks t rule: first_pending.induct) (auto simp: keys_of_def split: option.splits)

lemma flights_okI:
  assumes "flights_ok repr s"
    and "\<And>fl. fl \<in> set (ss_flights t) \<Longrightarrow> flight_ok repr s fl \<Longrightarrow> flight_ok repr t fl"
    and "set (ss_flights t) \<subseteq> set (ss_flights s)" "length (cn_futs t) = length (cn_futs s)"
    and "\<And>f. keys_of (cn_pending t) f \<subseteq> keys_of (cn_pending s) f"
    and "cn_single t = cn_single s \<or> cn_single t = None"
  shows "flights_ok repr t"
proof -
  have "keys_of (cn_pending t) f = {} \<and> cn_single t \<noteq> Some f" if "length (cn_futs t) \<le> f" for f
    using assms(1,4-6) that unfolding flights_ok_def by (metis option.distinct(1) subset_empty)
  moreover have "inj_on fl_future (set (ss_flights t))"
    using assms(1,3) unfolding flights_ok_def by (blast intro: inj_on_subset)
  ultimately show ?thesis using assms(1-3) unfolding flights_ok_def by blast
qed

lemma route_flights_ok:
  assumes "flights_ok repr s"
  shows "flights_ok repr (snd (route repr m s))"
proof -
  define keys where "keys = correlation_keys repr (ms_fields m)"
  have settled: "flights_ok repr (s\<lparr>cn_futs := settle f (Done m) (cn_futs s)\<rparr>)"
    if f: "first_pending keys (cn_pending s) = Some f \<or> keys = [] \<and> cn_single s = Some f" for f
  proof (rule flights_okI [OF assms])
    fix fl assume ok: "flight_ok repr s fl"
    show "flight_ok repr (s\<lparr>cn_futs := settle f (Done m) (cn_futs s)\<rparr>) fl"
    proof (rule settle_flight_ok [OF ok])
      fix m' assume "Done m = Done m'" "fl_future fl = f" "fl_reliable fl"
      then show "set (fl_routes fl) \<inter> set (correlation_keys repr (ms_fields m')) \<noteq> {}"
        using f ok first_pending_Some [of keys "cn_pending s" f] unfolding keys_def flight_ok_def by auto
    qed simp
  qed auto
  show ?thesis
    using assms settled
    by (auto simp: route_def Let_def keys_def [symmetric] split: option.splits)
qed

lemma route_frame:
  "ss_wire (snd (route repr m s)) = ss_wire s" "cn_transport (snd (route repr m s)) = cn_transport s"
  "cn_closed (snd (route repr m s)) = cn_closed s" "cn_generation (snd (route repr m s)) = cn_generation s"
  "cn_pending (snd (route repr m s)) = cn_pending s" "cn_single (snd (route repr m s)) = cn_single s"
  by (simp_all add: route_def Let_def split: option.splits)

lemma keys_of_fold_pop_own:
  "keys_of (fold (\<lambda>r. pop_own r f) rs t) g = (if g = f then keys_of t g - set rs else keys_of t g)"
  by (induction rs arbitrary: t) (auto simp: future_simps)

lemma land_ok:
  assumes "flights_ok repr s" "fl \<in> set (ss_flights s)"
  shows "flights_ok repr (land fl s)"
proof (rule flights_okI [OF assms(1)])
  fix fl' assume fl': "fl' \<in> set (ss_flights (land fl s))" "flight_ok repr s fl'"
  then have "fl_future fl' \<noteq> fl_future fl"
    using assms by (auto simp: land_def flights_ok_def inj_on_def)
  with fl'(2) show "flight_ok repr (land fl s) fl'"
    by (auto simp: flight_ok_def land_def end_request_def keys_of_fold_pop_own is_waiting_settle settle_nth_other)
qed (auto simp: land_def end_request_def keys_of_fold_pop_own)

lemma disconnect_inv:
  assumes "session_inv repr s"
  shows "session_inv repr (disconnect_generation g w e s)"
proof -
  define s1 where "s1 = s\<lparr>cn_closed := True, cn_ready := False, cn_identity_confirmed := False\<rparr>"
  have "flights_ok repr s1"
    using assms by (subst flights_ok_cong [of _ s]) (simp_all add: session_inv_def s1_def)
  then have "flights_ok repr (fail_pending e s1)" by (rule fail_pending_ok)
  then have "flights_ok repr (cancel_reader ((fail_pending e s1)\<lparr>cn_transport := None\<rparr>))"
    by (subst flights_ok_cong [of _ "fail_pending e s1"]) (simp_all add: cancel_reader_def)
  moreover have "transport_ok (cancel_reader ((fail_pending e s1)\<lparr>cn_transport := None\<rparr>))"
    using assms by (simp add: session_inv_def transport_ok_def cancel_reader_def fail_pending_def s1_def)
  ultimately show ?thesis
    using assms by (simp add: disconnect_generation_def session_inv_def s1_def)
qed

lemma close_inv:
  assumes "session_inv repr s"
  shows "session_inv repr (close s)"
proof -
  define s1 where "s1 = (cancel_reader s)\<lparr>cn_closed := True, cn_ready := False, cn_identity_confirmed := False,
    cn_generation := Suc (cn_generation s), cn_heartbeat_task := None, cn_reader_task := None,
    cn_transport := None\<rparr>"
  have "flights_ok repr s1"
    using assms by (subst flights_ok_cong [of _ s]) (simp_all add: session_inv_def s1_def cancel_reader_def)
  then have "flights_ok repr (fail_pending (gw_error ''connection_closed'') s1)" by (rule fail_pending_ok)
  moreover have "transport_ok (fail_pending (gw_error ''connection_closed'') s1)"
    using assms by (simp add: session_inv_def transport_ok_def cancel_reader_def fail_pending_def s1_def)
  ultimately show ?thesis using assms by (simp add: close_def session_inv_def s1_def)
qed


lemma begin_transport_ok:
  assumes "begin_request repr n1 n2 payload s = (r, t)" "transport_ok s"
  shows "transport_ok t"
  using assms(1)
  by (cases rule: begin_request_spec) (use assms(2) in \<open>auto simp: transport_ok_def transport_active_def\<close>)

lemma begin_inv:
  assumes "begin_request repr n1 n2 payload s = (r, t)" "may_begin repr payload s" "session_inv repr s"
  shows "session_inv repr t" "r = Inr fl \<Longrightarrow> session_inv repr (take_off fl t)"
proof -
  have t: "transport_ok t" using assms begin_transport_ok by (simp add: session_inv_def)
  show "session_inv repr t"
    using assms begin_flights_ok [OF assms(1,2)] t by (simp add: session_inv_def)
  have "transport_ok (take_off fl t)"
    using t by (subst transport_ok_cong [of _ t]) (simp_all add: take_off_def)
  then show "session_inv repr (take_off fl t)" if "r = Inr fl"
    using assms begin_flights_ok [OF assms(1,2)] that by (simp add: session_inv_def)
qed

lemma session_inv_cong:
  "cn_pending t = cn_pending s \<Longrightarrow> cn_single t = cn_single s \<Longrightarrow> cn_futs t = cn_futs s
    \<Longrightarrow> ss_flights t = ss_flights s \<Longrightarrow> cn_closed t = cn_closed s \<Longrightarrow> cn_transport t = cn_transport s
    \<Longrightarrow> cn_generation t = cn_generation s \<Longrightarrow> ss_wire t = ss_wire s
    \<Longrightarrow> session_inv repr t = session_inv repr s"
  by (simp add: session_inv_def flights_ok_cong [of t s] transport_ok_cong [of t s])

lemma set_attempt_inv [simp]: "session_inv repr (set_attempt a s) = session_inv repr s"
  by (rule session_inv_cong) (simp_all add: set_attempt_def)

lemma take_off_set_attempt: "take_off fl (set_attempt a s) = set_attempt a (take_off fl s)"
  by (simp add: take_off_def set_attempt_def)

lemma end_reader_inv [simp]: "session_inv repr (end_reader g s) = session_inv repr s"
  by (rule session_inv_cong) (simp_all add: end_reader_def)

lemma route_inv:
  assumes "session_inv repr s"
  shows "session_inv repr (snd (route repr m s))"
  using assms route_flights_ok [of repr s m]
  by (auto simp: session_inv_def transport_ok_def route_frame)

lemma open_inv:
  assumes "session_inv repr s"
  shows "session_inv repr (open_transport s)"
proof -
  have "flights_ok repr (open_transport s)"
    using assms by (subst flights_ok_cong [of _ s]) (simp_all add: session_inv_def open_transport_def Let_def)
  then show ?thesis using assms by (simp add: session_inv_def transport_ok_def open_transport_def Let_def)
qed

lemma write_inv:
  assumes "session_inv repr s" "write_target (fl_generation fl) s = Inr w" "fl \<notin> snd ` set (ss_wire s)"
  shows "session_inv repr (s\<lparr>ss_wire := ss_wire s @ [(w, fl)]\<rparr>)"
proof -
  have "flights_ok repr (s\<lparr>ss_wire := ss_wire s @ [(w, fl)]\<rparr>)"
    using assms(1) by (subst flights_ok_cong [of _ s]) (simp_all add: session_inv_def)
  moreover have "w = fl_generation fl"
    using assms(1,2) by (auto simp: session_inv_def transport_ok_def write_target_def split: option.splits if_splits)
  ultimately show ?thesis using assms by (auto simp: session_inv_def transport_ok_def)
qed

lemma handshake_frame:
  "hello_received expected m s = (r, t) \<Longrightarrow> session_inv repr t = session_inv repr s"
  "login_received expected allow g uid m s = (r', t) \<Longrightarrow> session_inv repr t = session_inv repr s"
  by (rule session_inv_cong; auto simp: hello_received_def login_received_def Let_def
      split: option.splits sum.splits if_splits)+

lemma land_inv:
  assumes "session_inv repr s" "fl \<in> set (ss_flights s)"
  shows "session_inv repr (land fl s)"
proof -
  have "fold (\<lambda>r. pop_own r f) rs [] = ([] :: (route \<times> nat) list)" for f rs
    by (induction rs) (auto simp: pop_own_def)
  then have "transport_ok (land fl s)"
    using assms by (auto simp: session_inv_def transport_ok_def land_def end_request_def)
  then show ?thesis using assms land_ok by (simp add: session_inv_def)
qed

lemma hello_login_reliable:
  "may_begin repr (hello_payload ident serial) s" "may_begin repr (login_payload user pass serial) s"
  by (simp_all add: may_begin_def correlation_keys_def hello_payload_def login_payload_def dget_def)

lemma session_step_inv:
  assumes "session_step repr s t" "session_inv repr s"
  shows "session_inv repr t"
  using assms
proof (cases rule: session_step.cases)
  case (st_deliver g m)
  then show ?thesis using route_inv [OF assms(2)] by (simp add: reader_turn_def Let_def)
next
  case (st_reader_stop g)
  then show ?thesis using disconnect_inv [OF assms(2)] assms(2) by (simp add: reader_stop_def)
next
  case (st_cleanup start)
  then show ?thesis using close_inv [OF assms(2)] assms(2) by (simp add: close_if_generation_changed_def)
next
  case (st_hello a n1 n2 ident serial fl t')
  then show ?thesis
    using begin_inv(2) [OF _ hello_login_reliable(1) assms(2)] by (simp add: take_off_set_attempt)
next
  case (st_login a uid n1 n2 user pass serial fl t')
  then show ?thesis
    using begin_inv(2) [OF _ hello_login_reliable(2) assms(2)] by (simp add: take_off_set_attempt)
qed (use assms in \<open>simp_all add: begin_inv land_inv write_inv open_inv close_inv disconnect_inv handshake_frame\<close>)


lemma flight_tracked:
  assumes "flight_ok repr s fl" "is_waiting (cn_futs s) (fl_future fl)"
  shows "fl_future fl \<in> snd ` set (cn_pending s) \<union> set (list_of (cn_single s))"
proof (cases "fl_reliable fl")
  case True
  with assms obtain k where "k \<in> keys_of (cn_pending s) (fl_future fl)"
    by (auto simp: flight_ok_def)
  then show ?thesis by (rule UnI1 [OF keys_of_in_values])
next
  case False
  then show ?thesis using assms by (simp add: flight_ok_def list_of_def)
qed

interpretation gw: request_table new_session "session_step repr" "session_inv repr"
  "\<lambda>s f. \<exists>fl \<in> set (ss_flights s). fl_future fl = f \<and> is_waiting (cn_futs s) f"
  "\<lambda>s. snd ` set (cn_pending s) \<union> set (list_of (cn_single s))" for repr
proof unfold_locales
  show "session_inv repr new_session"
    by (simp add: session_inv_def new_session_def flights_ok_def transport_ok_def)
  show "f \<in> snd ` set (cn_pending s) \<union> set (list_of (cn_single s))"
    if "session_inv repr s" "\<exists>fl \<in> set (ss_flights s). fl_future fl = f \<and> is_waiting (cn_futs s) f" for s f
    using that flight_tracked unfolding session_inv_def flights_ok_def by blast
qed (rule session_step_inv)

section \<open>Properties\<close>

text \<open>C12. No request waits on a dead transport: in every state the coroutines can reach in any order and
  with any messages from the gateway, once the transport is gone every request under way has been
  settled with an answer, an error or a cancellation, so that its caller returns.\<close>

theorem dead_transport_leaves_nobody_waiting:
  assumes "(session_step repr)\<^sup>*\<^sup>* new_session s" "cn_closed s" "fl \<in> set (ss_flights s)"
  shows "\<not> is_waiting (cn_futs s) (fl_future fl)"
proof -
  have "transport_ok s" using gw.reachable_inv [OF assms(1)] by (simp add: session_inv_def)
  then have "snd ` set (cn_pending s) \<union> set (list_of (cn_single s)) = {}"
    using assms(2) by (simp add: transport_ok_def list_of_def)
  from gw.empty_table_releases [OF assms(1) this] assms(3) show ?thesis by blast
qed

text \<open>C15. A frame never reaches the transport of another generation: every frame written went to the
  transport that was open when its request began, and each request is written at most once.\<close>

theorem frames_stay_in_generation:
  assumes "(session_step repr)\<^sup>*\<^sup>* new_session s"
  shows "(\<forall>(w, fl) \<in> set (ss_wire s). w = fl_generation fl) \<and> distinct (map snd (ss_wire s))"
  using gw.reachable_inv [OF assms] by (simp add: session_inv_def transport_ok_def)

text \<open>C14. An answer reaches only the request it is for: if a request with serial numbers of its own has
  been answered, the answer carries one of them under the same key, however many requests are under
  way, on whatever generation and in whatever order the gateway answers.\<close>

theorem answers_are_correlated:
  assumes "(session_step repr)\<^sup>*\<^sup>* new_session s" "fl \<in> set (ss_flights s)" "fl_reliable fl"
    and "cn_futs s ! fl_future fl = Done m"
  shows "set (fl_routes fl) \<inter> set (correlation_keys repr (ms_fields m)) \<noteq> {}"
  using gw.reachable_inv [OF assms(1)] assms(2-4)
  unfolding session_inv_def flights_ok_def flight_ok_def by blast


section \<open>A sample session\<close>

text \<open>A handshake whose transport ends while the answer to the login is on its way to \<^verbatim>\<open>connect\<close>.\<close>

definition no_repr :: "pyval \<Rightarrow> string" where "no_repr v = []"

definition hello_answer :: message where
  "hello_answer = \<lparr>ms_session = replicate 32 CHR ''a'',
     ms_fields = [(''serial'', VInt 1), (''key'', VStr ''0123456789ABCDEX'')]\<rparr>"

definition login_answer :: message where
  "login_answer = \<lparr>ms_session = replicate 32 CHR ''a'',
     ms_fields = [(''serial'', VInt 2), (''status'', VInt 0), (''uid'', VStr ''gw1'')]\<rparr>"

definition sample_attempt :: "phase \<Rightarrow> attempt option" where
  "sample_attempt p = Some \<lparr>at_expected = Some ''gw1'', at_allow_missing = False, at_generation = 1, at_phase = p\<rparr>"

definition sample_flight :: "nat \<Rightarrow> dict \<Rightarrow> int \<Rightarrow> flight" where
  "sample_flight f p n = \<lparr>fl_future = f, fl_routes = [(''serial'', dec n)], fl_reliable = True,
     fl_generation = 1, fl_request = with_defaults 0 0 p\<rparr>"

definition sample_hello :: dict where "sample_hello = hello_payload ''5f5e1000'' 1"
definition sample_login :: dict where "sample_login = login_payload ''user'' ''D41D'' 2"

definition run1 :: session where
  "run1 = set_attempt (sample_attempt Opened) (open_transport new_session)"
definition run2 :: session where
  "run2 = take_off (sample_flight 0 sample_hello 1) (set_attempt (sample_attempt (Hello_Sent 0))
     (snd (begin_request no_repr 0 0 sample_hello run1)))"
definition run3 :: session where "run3 = reader_turn no_repr 1 hello_answer run2"
definition run4 :: session where
  "run4 = set_attempt (sample_attempt (Keyed None)) (snd (hello_received (Some ''gw1'') hello_answer run3))"
definition run5 :: session where
  "run5 = take_off (sample_flight 1 sample_login 2) (set_attempt (sample_attempt (Login_Sent None 1))
     (snd (begin_request no_repr 0 0 sample_login run4)))"
definition run6 :: session where "run6 = reader_turn no_repr 1 login_answer run5"
definition run7 :: session where "run7 = reader_stop 1 run6"
definition run8 :: session where
  "run8 = set_attempt None (snd (login_received (Some ''gw1'') False 1 None login_answer run7))"

lemma step_hello:
  assumes "ss_attempt s = sample_attempt Opened" "fst (begin_request repr 0 0 sample_hello s) = Inr fl"
  shows "session_step repr s (take_off fl (set_attempt (sample_attempt (Hello_Sent (fl_future fl)))
    (snd (begin_request repr 0 0 sample_hello s))))"
  using st_hello [of s _ repr 0 0 "''5f5e1000''" 1 fl "snd (begin_request repr 0 0 sample_hello s)"] assms
  by (simp add: sample_attempt_def sample_hello_def prod_eq_iff)

lemma step_login:
  assumes "ss_attempt s = sample_attempt (Keyed uid)" "fst (begin_request repr 0 0 sample_login s) = Inr fl"
  shows "session_step repr s (take_off fl (set_attempt (sample_attempt (Login_Sent uid (fl_future fl)))
    (snd (begin_request repr 0 0 sample_login s))))"
  using st_login [of s _ uid repr 0 0 "''user''" "''D41D''" 2 fl "snd (begin_request repr 0 0 sample_login s)"] assms
  by (simp add: sample_attempt_def sample_login_def prod_eq_iff)

lemma run1: "session_step no_repr new_session run1"
  using st_open [of new_session no_repr "Some ''gw1''" False]
  by (simp add: run1_def sample_attempt_def new_session_def connected_def transport_active_def)

lemma run2: "session_step no_repr run1 run2"
proof -
  have "fst (begin_request no_repr 0 0 sample_hello run1) = Inr (sample_flight 0 sample_hello 1)"
    by code_simp
  from step_hello [OF _ this] show ?thesis
    by (simp add: run2_def run1_def set_attempt_def sample_flight_def)
qed

lemma run3: "session_step no_repr run2 run3"
proof -
  have "cn_readers run2 = [1]" by code_simp
  then show ?thesis using st_deliver [of 1 run2 no_repr hello_answer] by (simp add: run3_def)
qed

lemma run4: "session_step no_repr run3 run4"
proof -
  have "ss_attempt run3 = sample_attempt (Hello_Sent 0)" "cn_futs run3 ! 0 = Done hello_answer"
    "fst (hello_received (Some ''gw1'') hello_answer run3) = Inr None"
    by code_simp+
  then show ?thesis
    using st_hello_answered [where s = run3 and a = "the (sample_attempt (Hello_Sent 0))" and f = 0
        and m = hello_answer and uid = None and repr = no_repr
        and t = "snd (hello_received (Some ''gw1'') hello_answer run3)"]
    by (simp add: run4_def sample_attempt_def prod_eq_iff)
qed

lemma run5: "session_step no_repr run4 run5"
proof -
  have "fst (begin_request no_repr 0 0 sample_login run4) = Inr (sample_flight 1 sample_login 2)"
    "ss_attempt run4 = sample_attempt (Keyed None)"
    by code_simp+
  from step_login [OF this(2,1)] show ?thesis by (simp add: run5_def sample_flight_def)
qed

lemma run6: "session_step no_repr run5 run6"
proof -
  have "cn_readers run5 = [1]" by code_simp
  then show ?thesis using st_deliver [of 1 run5 no_repr login_answer] by (simp add: run6_def)
qed

lemma run7: "session_step no_repr run6 run7"
proof -
  have "cn_readers run6 = [1]" by code_simp
  then show ?thesis using st_reader_stop [of 1 run6 no_repr] by (simp add: run7_def)
qed

lemma run8: "session_step no_repr run7 run8"
proof -
  have "ss_attempt run7 = sample_attempt (Login_Sent None 1)" "cn_futs run7 ! 1 = Done login_answer"
    by code_simp+
  then show ?thesis
    using st_login_answered [of run7 _ None 1 login_answer "fst (login_received (Some ''gw1'') False 1 None login_answer run7)"
        "snd (login_received (Some ''gw1'') False 1 None login_answer run7)"]
    by (simp add: run8_def sample_attempt_def)
qed

lemma sample_reaches:
  "(session_step no_repr)\<^sup>*\<^sup>* new_session run2" "(session_step no_repr)\<^sup>*\<^sup>* new_session run3"
  "(session_step no_repr)\<^sup>*\<^sup>* new_session run6" "(session_step no_repr)\<^sup>*\<^sup>* new_session run7"
  "(session_step no_repr)\<^sup>*\<^sup>* new_session run8"
proof -
  have 1: "(session_step no_repr)\<^sup>*\<^sup>* new_session run1" using run1 by blast
  note 2 = rtranclp.rtrancl_into_rtrancl [OF 1 run2]
  note 3 = rtranclp.rtrancl_into_rtrancl [OF 2 run3]
  note 6 = rtranclp.rtrancl_into_rtrancl [OF rtranclp.rtrancl_into_rtrancl [OF
      rtranclp.rtrancl_into_rtrancl [OF 3 run4] run5] run6]
  note 7 = rtranclp.rtrancl_into_rtrancl [OF 6 run7]
  note 8 = rtranclp.rtrancl_into_rtrancl [OF 7 run8]
  show "(session_step no_repr)\<^sup>*\<^sup>* new_session run2" by (rule 2)
  show "(session_step no_repr)\<^sup>*\<^sup>* new_session run3" by (rule 3)
  show "(session_step no_repr)\<^sup>*\<^sup>* new_session run6" by (rule 6)
  show "(session_step no_repr)\<^sup>*\<^sup>* new_session run7" by (rule 7)
  show "(session_step no_repr)\<^sup>*\<^sup>* new_session run8" by (rule 8)
qed

theorem dead_transport_leaves_nobody_waiting_witness:
  "cn_futs run7 ! 1 = Done login_answer \<and> \<not> is_waiting (cn_futs run7) 1"
proof -
  have "cn_closed run7" "sample_flight 1 sample_login 2 \<in> set (ss_flights run7)"
    "cn_futs run7 ! 1 = Done login_answer" "fl_future (sample_flight 1 sample_login 2) = 1"
    by code_simp+
  then show ?thesis using dead_transport_leaves_nobody_waiting [OF sample_reaches(4)] by metis
qed

theorem answers_are_correlated_witness:
  "set [(''serial'', ''2'')] \<inter> set (correlation_keys no_repr (ms_fields login_answer)) \<noteq> {}"
proof -
  have "cn_futs run6 ! fl_future (sample_flight 1 sample_login 2) = Done login_answer"
    "sample_flight 1 sample_login 2 \<in> set (ss_flights run6)" "fl_reliable (sample_flight 1 sample_login 2)"
    "fl_routes (sample_flight 1 sample_login 2) = [(''serial'', ''2'')]"
    by code_simp+
  then show ?thesis using answers_are_correlated [OF sample_reaches(3)] by metis
qed

definition run2_written :: session where
  "run2_written = run2\<lparr>ss_wire := ss_wire run2 @ [(1, sample_flight 0 sample_hello 1)]\<rparr>"

theorem frames_stay_in_generation_witness:
  "ss_wire run2_written = [(1, sample_flight 0 sample_hello 1)] \<and> 1 = fl_generation (sample_flight 0 sample_hello 1)"
proof -
  have "sample_flight 0 sample_hello 1 \<in> set (ss_flights run2)"
    "sample_flight 0 sample_hello 1 \<notin> snd ` set (ss_wire run2)"
    "write_target (fl_generation (sample_flight 0 sample_hello 1)) run2 = Inr 1"
    "ss_wire run2_written = [(1, sample_flight 0 sample_hello 1)]"
    by code_simp+
  then have "session_step no_repr run2 run2_written"
    unfolding run2_written_def by (intro st_write)
  then have "(session_step no_repr)\<^sup>*\<^sup>* new_session run2_written"
    using sample_reaches(1) by (rule rtranclp.rtrancl_into_rtrancl [rotated])
  from frames_stay_in_generation [OF this] show ?thesis
    using \<open>ss_wire run2_written = _\<close> by simp
qed


text \<open>A login that is accepted has confirmed the gateway: \<^verbatim>\<open>connect\<close> marks the connection ready only for a
  status equal to 0 and UIDs that do not conflict, and, where a UID is expected, for a peer with
  exactly that UID, or with none at all if the caller allows it; the identity is confirmed exactly for
  the expected UID. A login that is not accepted leaves the connection as ready as it was.\<close>

lemma login_confirms_identity:
  assumes "login_received expected allow_missing g hello_uid m s = (r, t)"
  shows "case r of
      Inr _ \<Rightarrow> py_eq (get (ms_fields m) ''status'') (VInt 0) \<and> cn_ready t
        \<and> (expected = None \<or> cn_peer_uid t = expected \<or> allow_missing \<and> cn_peer_uid t = None)
        \<and> (cn_identity_confirmed t = (expected \<noteq> None \<and> cn_peer_uid t = expected))
        \<and> hello_uid \<in> {None, cn_peer_uid t} \<and> extract_uid (ms_fields m) \<in> {None, cn_peer_uid t}
    | Inl _ \<Rightarrow> cn_ready t = cn_ready s \<and> cn_identity_confirmed t \<in> {False, cn_identity_confirmed s}"
  using assms by (auto simp: login_received_def Let_def split: if_splits)

text \<open>\<^verbatim>\<open>connect\<close> may return on a connection that is not connected: there is a reachable state whose
  last step is a login that was accepted without an error, in which the connection is marked ready
  and its identity confirmed although its transport is gone. The reader may find the end of the
  stream between the arrival of the answer and the turn of \<^verbatim>\<open>connect\<close>, which does not look again.\<close>

lemma connect_may_return_disconnected:
  "\<exists>s t. (session_step no_repr)\<^sup>*\<^sup>* new_session s
    \<and> login_received (Some ''gw1'') False 1 None login_answer s = (Inr (), t)
    \<and> cn_ready t \<and> cn_identity_confirmed t \<and> cn_closed t \<and> \<not> connected t"
proof -
  let ?run = "login_received (Some ''gw1'') False 1 None login_answer run7"
  have "fst ?run = Inr () \<and> cn_ready (snd ?run) \<and> cn_identity_confirmed (snd ?run)
      \<and> cn_closed (snd ?run) \<and> \<not> connected (snd ?run)"
    by code_simp
  then show ?thesis
    using sample_reaches(4) by (intro exI [of _ run7] exI [of _ "snd ?run"]) (simp add: prod_eq_iff)
qed

text \<open>A request that collides on its second number blocks its first one: it is refused, but the route
  it has registered already stays in the table with a future nobody awaits. After the request it
  collided with has ended, the same request is refused again, now by what it has left behind.\<close>

lemma collision_blocks_serial:
  assumes "transport_active s" "get payload ''serial'' = VInt a" "get payload ''uniSerial'' = VInt b"
    and "map_of (cn_pending s) (''serial'', dec a) = None"
    and "map_of (cn_pending s) (''uniSerial'', dec b) = Some (fl_future fl)"
    and "is_waiting (cn_futs s) (fl_future fl)"
  shows "\<exists>t. begin_request repr n1 n2 payload s = (Inl (gw_error ''correlation_collision''), t)
    \<and> begin_request repr n3 n4 payload (land fl t) = (Inl (gw_error ''correlation_collision''),
        (land fl t)\<lparr>cn_futs := cn_futs (land fl t) @ [Waiting]\<rparr>)"
proof -
  let ?n = "length (cn_futs s)"
  define t where "t = s\<lparr>cn_futs := cn_futs s @ [Waiting],
    cn_pending := AList.update (''serial'', dec a) ?n (cn_pending s)\<rparr>"
  have f: "fl_future fl < ?n" using assms(6) by (simp add: is_waiting_def)
  have keys: "correlation_keys repr payload = [(''serial'', dec a), (''uniSerial'', dec b)]"
    using assms(2,3) by (simp add: correlation_keys_def)
  have "begin_request repr n1 n2 payload s = (Inl (gw_error ''correlation_collision''), t)"
    using assms(1,4-6) by (simp add: begin_request_def keys Let_def t_def update_conv' future_simps)
  moreover have "(''serial'', dec a) \<in> keys_of (cn_pending (land fl t)) ?n"
    using f by (simp add: land_def end_request_def t_def keys_of_fold_pop_own keys_of_update)
  then have "map_of (cn_pending (land fl t)) (''serial'', dec a) = Some ?n"
    by (simp add: keys_of_def)
  moreover have "is_waiting (cn_futs (land fl t)) ?n"
    using f by (simp add: land_def end_request_def t_def future_simps)
  moreover have "transport_active (land fl t)"
    using assms(1) by (simp add: transport_active_def land_def end_request_def t_def)
  ultimately show ?thesis
    by (intro exI [of _ t]) (simp add: begin_request_def keys Let_def future_simps)
qed

end
