(* ===== verification/Json.thy ===== *)
theory Json
  imports Py_Text
begin

text \<open>
  Python's \<^verbatim>\<open>json.dumps(v, separators=(",", ":"))\<close> and \<^verbatim>\<open>json.loads\<close>, as far as the program uses
  them: the payloads of its frames and the JSON texts inside status rows. Strings are UTF-8 bytes;
  a lone surrogate has the three bytes that its code would have. \<open>float_text\<close> is the text of a
  finite float, which no other part of the development needs. The parser consumes at least one
  character between two nested calls, so that fuel of twice the length of the text is enough
  (\<open>loads_fuel\<close>); the depth limit of the interpreter and its limit of 4300 digits are not modelled.
\<close>

section \<open>UTF-8\<close>

definition chars :: "nat list \<Rightarrow> string" where
  "chars ns = map char_of ns"

definition utf8_encode :: "nat \<Rightarrow> string" where
  "utf8_encode u =
     (if u < 128 then chars [u]
      else if u < 2048 then chars [192 + u div 64, 128 + u mod 64]
      else if u < 65536 then chars [224 + u div 4096, 128 + u div 64 mod 64, 128 + u mod 64]
      else chars [240 + u div 262144, 128 + u div 4096 mod 64, 128 + u div 64 mod 64, 128 + u mod 64])"

definition continuation :: "char \<Rightarrow> nat option" where
  "continuation c = (if 128 \<le> byte c \<and> byte c < 192 then Some (byte c - 128) else None)"

definition continuations :: "char list \<Rightarrow> nat option" where
  "continuations cs = fold (\<lambda>c acc. case (acc, continuation c) of
     (Some a, Some d) \<Rightarrow> Some (64 * a + d) | _ \<Rightarrow> None) cs (Some 0)"

text \<open>The first code point and the number of its bytes; no overlong form, no surrogate.\<close>

definition utf8_first :: "string \<Rightarrow> (nat \<times> nat) option" where
  "utf8_first s =
     (let b = byte (hd s)
      in if b < 128 then Some (b, 1)
         else if 194 \<le> b \<and> b < 224 \<and> 2 \<le> length s then
           (case continuations (take 1 (tl s)) of None \<Rightarrow> None | Some a \<Rightarrow> Some (64 * (b - 192) + a, 2))
         else if 224 \<le> b \<and> b < 240 \<and> 3 \<le> length s then
           (case continuations (take 2 (tl s)) of None \<Rightarrow> None
            | Some a \<Rightarrow> let u = 4096 * (b - 224) + a
                in if u < 2048 \<or> 55296 \<le> u \<and> u < 57344 then None else Some (u, 3))
         else if 240 \<le> b \<and> b < 245 \<and> 4 \<le> length s then
           (case continuations (take 3 (tl s)) of None \<Rightarrow> None
            | Some a \<Rightarrow> let u = 262144 * (b - 240) + a
                in if u < 65536 \<or> 1114112 \<le> u then None else Some (u, 4))
         else None)"

text \<open>\<^verbatim>\<open>bytes.decode("utf-8")\<close>: the code points, or \<open>None\<close> for the error.\<close>

function utf8_decode :: "string \<Rightarrow> nat list option" where
  "utf8_decode s =
     (if s = [] then Some []
      else case utf8_first s of None \<Rightarrow> None
        | Some (u, n) \<Rightarrow> map_option ((#) u) (utf8_decode (drop (max 1 n) s)))"
  by pat_completeness auto
termination
  by (relation "measure length") auto

declare utf8_decode.simps [simp del]

text \<open>\<^verbatim>\<open>len(s)\<close>: code points, not bytes.\<close>

definition py_len :: "string \<Rightarrow> nat" where
  "py_len s = (case utf8_decode s of None \<Rightarrow> length s | Some us \<Rightarrow> length us)"

section \<open>Writing\<close>

definition hex_digit :: "nat \<Rightarrow> char" where
  "hex_digit d = char_of (if d < 10 then 48 + d else 87 + d)"

definition hex_quad :: "nat \<Rightarrow> string" where
  "hex_quad u = map hex_digit [u div 4096 mod 16, u div 256 mod 16, u div 16 mod 16, u mod 16]"

definition unicode_escape :: "nat \<Rightarrow> string" where
  "unicode_escape u = CHR 0x5C # CHR ''u'' # hex_quad u"

definition short_escapes :: "(nat \<times> char) list" where
  "short_escapes = [(34, CHR 0x22), (92, CHR 0x5C), (10, CHR ''n''), (13, CHR ''r''), (9, CHR ''t''),
     (8, CHR ''b''), (12, CHR ''f'')]"

definition escape_point :: "nat \<Rightarrow> string" where
  "escape_point u =
     (case map_of short_escapes u of Some c \<Rightarrow> [CHR 0x5C, c]
      | None \<Rightarrow>
          if 32 \<le> u \<and> u < 127 then [char_of u]
          else if u < 65536 then unicode_escape u
          else unicode_escape (55296 + (u - 65536) div 1024) @ unicode_escape (56320 + (u - 65536) mod 1024))"

definition dumps_string :: "string \<Rightarrow> string" where
  "dumps_string s = CHR 0x22 # concat (map escape_point (case utf8_decode s of None \<Rightarrow> [] | Some us \<Rightarrow> us)) @ [CHR 0x22]"

fun float_json :: "(rat \<Rightarrow> string) \<Rightarrow> pyfloat \<Rightarrow> string" where
  "float_json float_text (Fin r) = float_text r"
| "float_json float_text PosInf = ''Infinity''"
| "float_json float_text NegInf = ''-Infinity''"
| "float_json float_text NaN = ''NaN''"

fun join_comma :: "string list \<Rightarrow> string" where
  "join_comma [] = []"
| "join_comma [x] = x"
| "join_comma (x # xs) = x @ CHR '','' # join_comma xs"

fun dumps :: "(rat \<Rightarrow> string) \<Rightarrow> pyval \<Rightarrow> string" where
  "dumps float_text VNone = ''null''"
| "dumps float_text (VBool b) = (if b then ''true'' else ''false'')"
| "dumps float_text (VInt n) = dec n"
| "dumps float_text (VFloat f) = float_json float_text f"
| "dumps float_text (VStr s) = dumps_string s"
| "dumps float_text (VList vs) = CHR ''['' # join_comma (map (dumps float_text) vs) @ [CHR '']'']"
| "dumps float_text (VDict kvs) =
     CHR ''{'' # join_comma (map (\<lambda>(k, v). dumps_string k @ CHR '':'' # dumps float_text v) kvs) @ [CHR ''}'']"

section \<open>Reading\<close>

definition json_space :: "char \<Rightarrow> bool" where
  "json_space c \<longleftrightarrow> byte c = 32 \<or> byte c = 9 \<or> byte c = 10 \<or> byte c = 13"

definition skip_ws :: "string \<Rightarrow> string" where
  "skip_ws s = dropWhile json_space s"

definition hex4 :: "string \<Rightarrow> nat option" where
  "hex4 s = (case map hex_val (take 4 s) of
     [Some a, Some b, Some c, Some d] \<Rightarrow> Some (4096 * a + 256 * b + 16 * c + d) | _ \<Rightarrow> None)"

definition unescape :: "char \<Rightarrow> char option" where
  "unescape e = (if e = CHR ''/'' then Some e else
     map_option (\<lambda>(u, c). char_of u) (List.find (\<lambda>(u, c). c = e) short_escapes))"

text \<open>The text after an opening quote: the string and what follows the closing quote.\<close>

function json_string :: "string \<Rightarrow> (string \<times> string) option" where
  "json_string s =
     (case s of [] \<Rightarrow> None
      | c # r \<Rightarrow>
          if c = CHR 0x22 then Some ([], r)
          else if byte c < 32 then None
          else if c \<noteq> CHR 0x5C then map_option (apfst ((#) c)) (json_string r)
          else if r = [] then None
          else if hd r \<noteq> CHR ''u'' then
            (case unescape (hd r) of None \<Rightarrow> None
             | Some x \<Rightarrow> map_option (apfst ((#) x)) (json_string (tl r)))
          else
            (case hex4 (tl r) of None \<Rightarrow> None
             | Some u \<Rightarrow>
                 let q = drop 5 r;
                     low = (if 55296 \<le> u \<and> u < 56320 \<and> starts_with [CHR 0x5C, CHR ''u''] q
                            then (case hex4 (drop 2 q) of Some l \<Rightarrow>
                                if 56320 \<le> l \<and> l < 57344 then Some l else None | None \<Rightarrow> None)
                            else None)
                 in case low of
                      Some l \<Rightarrow> map_option (apfst ((@) (utf8_encode (65536 + (u - 55296) * 1024 + (l - 56320)))))
                        (json_string (drop 6 q))
                    | None \<Rightarrow> map_option (apfst ((@) (utf8_encode u))) (json_string q)))"
  by pat_completeness auto
termination
  by (relation "measure length") auto

declare json_string.simps [simp del]

definition is_digit :: "char \<Rightarrow> bool" where
  "is_digit c \<longleftrightarrow> 48 \<le> byte c \<and> byte c \<le> 57"

definition fraction_part :: "string \<Rightarrow> string" where
  "fraction_part s =
     (if starts_with ''.'' s \<and> takeWhile is_digit (tl s) \<noteq> [] then CHR ''.'' # takeWhile is_digit (tl s) else [])"

definition exponent_part :: "string \<Rightarrow> string" where
  "exponent_part s =
     (if starts_with ''e'' s \<or> starts_with ''E'' s then
        let sg = (if starts_with ''+'' (tl s) \<or> starts_with ''-'' (tl s) then take 1 (tl s) else []);
            ds = takeWhile is_digit (drop (length sg) (tl s))
        in if ds = [] then [] else hd s # sg @ ds
      else [])"

definition json_number :: "string \<Rightarrow> (pyval \<times> string) option" where
  "json_number s =
     (let sg = (if starts_with ''-'' s then ''-'' else []);
          t = drop (length sg) s;
          ip = (if starts_with ''0'' t then ''0'' else takeWhile is_digit t);
          r = drop (length ip) t;
          fp = fraction_part r;
          ex = exponent_part (drop (length fp) r);
          rest = drop (length ex) (drop (length fp) r)
      in if ip = [] then None
         else if fp = [] \<and> ex = [] then map_option (\<lambda>n. (VInt n, rest)) (parse_int (sg @ ip))
         else map_option (\<lambda>f. (VFloat f, rest)) (parse_float (sg @ ip @ fp @ ex)))"

definition json_literals :: "(string \<times> pyval) list" where
  "json_literals = [(''null'', VNone), (''true'', VBool True), (''false'', VBool False),
     (''NaN'', VFloat NaN), (''Infinity'', VFloat PosInf), (''-Infinity'', VFloat NegInf)]"

definition json_scalar :: "string \<Rightarrow> (pyval \<times> string) option" where
  "json_scalar s =
     (case List.find (\<lambda>(t, v). starts_with t s) json_literals of
        Some (t, v) \<Rightarrow> Some (v, drop (length t) s) | None \<Rightarrow> json_number s)"

fun json_value :: "nat \<Rightarrow> string \<Rightarrow> (pyval \<times> string) option"
  and json_elements :: "nat \<Rightarrow> string \<Rightarrow> (pyval list \<times> string) option"
  and json_members :: "nat \<Rightarrow> string \<Rightarrow> ((string \<times> pyval) list \<times> string) option"
where
  "json_value 0 s = None"
| "json_value (Suc n) s =
     (if starts_with [CHR 0x22] s then map_option (apfst VStr) (json_string (tl s))
      else if starts_with ''{'' s then
        (let r = skip_ws (tl s)
         in if starts_with ''}'' r then Some (VDict [], tl r)
            else map_option (apfst (\<lambda>kvs. VDict (dict_merge [] kvs))) (json_members n r))
      else if starts_with ''['' s then
        (let r = skip_ws (tl s)
         in if starts_with '']'' r then Some (VList [], tl r)
            else map_option (apfst VList) (json_elements n r))
      else json_scalar s)"
| "json_elements 0 s = None"
| "json_elements (Suc n) s =
     (case json_value n s of None \<Rightarrow> None
      | Some (v, r) \<Rightarrow>
          let q = skip_ws r
          in if starts_with '']'' q then Some ([v], tl q)
             else if starts_with '','' q then map_option (apfst ((#) v)) (json_elements n (skip_ws (tl q)))
             else None)"
| "json_members 0 s = None"
| "json_members (Suc n) s =
     (if \<not> starts_with [CHR 0x22] s then None
      else case json_string (tl s) of None \<Rightarrow> None
      | Some (k, r) \<Rightarrow>
          if \<not> starts_with '':'' (skip_ws r) then None
          else case json_value n (skip_ws (tl (skip_ws r))) of None \<Rightarrow> None
          | Some (v, r) \<Rightarrow>
              let q = skip_ws r
              in if starts_with ''}'' q then Some ([(k, v)], tl q)
                 else if starts_with '','' q then map_option (apfst ((#) (k, v))) (json_members n (skip_ws (tl q)))
                 else None)"

definition json_text :: "nat \<Rightarrow> string \<Rightarrow> pyval option" where
  "json_text fuel s =
     (case json_value fuel (skip_ws s) of None \<Rightarrow> None
      | Some (v, r) \<Rightarrow> if skip_ws r = [] then Some v else None)"

text \<open>\<^verbatim>\<open>json.loads\<close>: \<open>None\<close> is the \<^verbatim>\<open>JSONDecodeError\<close>.\<close>

definition loads :: "string \<Rightarrow> pyval option" where
  "loads s = json_text (2 * length s + 1) s"

section \<open>A string survives\<close>

lemma char_of_byte [simp]: "char_of (byte c) = c"
  by (simp add: byte_def)

lemma byte_less [simp]: "byte c < 256"
  by (simp add: byte_def)

lemma byte_char_of [simp]: "byte (char_of n) = n mod 256"
  by (simp add: byte_def)

lemma continuation_SomeD: "continuation c = Some d \<Longrightarrow> d < 64 \<and> c = char_of (128 + d)"
  by (auto simp: continuation_def split: if_splits)

lemma continuations_simps [simp]:
  "continuations [c] = continuation c"
  "continuations [c, d] = (case continuations [c] of None \<Rightarrow> None | Some a \<Rightarrow>
     (case continuation d of None \<Rightarrow> None | Some x \<Rightarrow> Some (64 * a + x)))"
  "continuations [c, d, e] = (case continuations [c, d] of None \<Rightarrow> None | Some a \<Rightarrow>
     (case continuation e of None \<Rightarrow> None | Some x \<Rightarrow> Some (64 * a + x)))"
  by (auto simp: continuations_def split: option.splits)

definition scalar_value :: "nat \<Rightarrow> bool" where
  "scalar_value u \<longleftrightarrow> u < 1114112 \<and> \<not> (55296 \<le> u \<and> u < 57344)"

lemma mod_digit: "x < 64 \<Longrightarrow> (64 * k + x) mod 64 = (x :: nat)"
  by simp

lemma utf8_first_encode:
  assumes "utf8_first s = Some (u, n)" "s \<noteq> []"
  shows "utf8_encode u = take n s \<and> 1 \<le> n \<and> n \<le> length s \<and> scalar_value u"
proof -
  obtain c t where s: "s = c # t" using assms(2) by (cases s) auto
  let ?b = "byte c"
  have b: "?b < 256" by simp
  consider "?b < 128" | "194 \<le> ?b" "?b < 224" "1 \<le> length t" | "224 \<le> ?b" "?b < 240" "2 \<le> length t"
    | "240 \<le> ?b" "?b < 245" "3 \<le> length t"
    using assms(1) s by (auto simp: utf8_first_def Let_def split: if_splits)
  then show ?thesis
  proof cases
    case 1
    then show ?thesis using assms(1) s by (auto simp: utf8_first_def Let_def utf8_encode_def chars_def scalar_value_def)
  next
    case 2
    then obtain d t' where t: "t = d # t'" by (cases t) auto
    from 2 assms(1) s t obtain a where a: "continuation d = Some a" "u = 64 * (?b - 192) + a" "n = 2"
      by (auto simp: utf8_first_def Let_def split: option.splits)
    define k where "k = ?b - 192"
    have k: "?b = 192 + k" "2 \<le> k" "k < 32" using 2 by (auto simp: k_def)
    have c: "c = char_of (192 + k)" using k(1) char_of_byte [of c] by simp
    have u: "u = 64 * k + a" using a(2) k_def by simp
    have lt: "a < 64" using continuation_SomeD a(1) by blast
    then have "u div 64 = k" "u mod 64 = a" "u < 2048" "\<not> u < 128"
      using k(2,3) by (auto simp: u)
    then have "utf8_encode u = [c, d]"
      using continuation_SomeD [OF a(1)] c by (simp add: utf8_encode_def chars_def)
    with a(3) s t \<open>u < 2048\<close> show ?thesis by (simp add: scalar_value_def)
  next
    case 3
    then obtain d e t' where t: "t = d # e # t'" by (cases t; cases "tl t") auto
    from 3 assms(1) s t obtain a x where a: "continuation d = Some a" "continuation e = Some x"
        "u = 4096 * (?b - 224) + (64 * a + x)" "n = 3" "\<not> u < 2048" "\<not> (55296 \<le> u \<and> u < 57344)"
      by (auto simp: utf8_first_def Let_def split: option.splits if_splits)
    define k where "k = ?b - 224"
    have k: "?b = 224 + k" "k < 16" using 3 by (auto simp: k_def)
    have c: "c = char_of (224 + k)" using k(1) char_of_byte [of c] by simp
    have u: "u = 4096 * k + 64 * a + x" using a(3) k_def by simp
    have lt: "a < 64" "x < 64" using continuation_SomeD a(1,2) by blast+
    then have "u div 4096 = k" "u div 64 = 64 * k + a" "u < 65536"
      using k(2) by (auto simp: u)
    moreover have "u mod 64 = x" using lt(2) mod_digit [of x "64 * k + a"] by (simp add: u algebra_simps)
    ultimately have "u div 4096 = k" "u div 64 = 64 * k + a" "u mod 64 = x" "u < 65536" by auto
    then have "utf8_encode u = [c, d, e]"
      using a(5) lt continuation_SomeD [OF a(1)] continuation_SomeD [OF a(2)] c
      by (simp add: utf8_encode_def chars_def)
    with a(4,6) s t \<open>u < 65536\<close> show ?thesis by (simp add: scalar_value_def)
  next
    case 4
    then obtain d e f t' where t: "t = d # e # f # t'" by (cases t; cases "tl t"; cases "tl (tl t)") auto
    from 4 assms(1) s t obtain a x y where a: "continuation d = Some a" "continuation e = Some x" "continuation f = Some y"
        "u = 262144 * (?b - 240) + (64 * (64 * a + x) + y)" "n = 4" "\<not> u < 65536" "\<not> 1114112 \<le> u"
      by (auto simp: utf8_first_def Let_def split: option.splits if_splits)
    define k where "k = ?b - 240"
    have k: "?b = 240 + k" "k < 5" using 4 by (auto simp: k_def)
    have c: "c = char_of (240 + k)" using k(1) char_of_byte [of c] by simp
    have u: "u = 262144 * k + 4096 * a + 64 * x + y" using a(4) k_def by simp
    have lt: "a < 64" "x < 64" "y < 64" using continuation_SomeD a(1-3) by blast+
    then have "u div 262144 = k" "u div 4096 = 64 * k + a" "u div 64 = 4096 * k + 64 * a + x"
      by (auto simp: u)
    moreover have "u mod 64 = y" using lt(3) mod_digit [of y "4096 * k + 64 * a + x"] by (simp add: u algebra_simps)
    moreover have "(64 * k + a) mod 64 = a" "(4096 * k + 64 * a + x) mod 64 = x"
      using lt mod_digit [of a k] mod_digit [of x "64 * k + a"] by (simp_all add: algebra_simps)
    ultimately have "utf8_encode u = [c, d, e, f]"
      using a(6) continuation_SomeD [OF a(1)] continuation_SomeD [OF a(2)] continuation_SomeD [OF a(3)] c
      by (simp add: utf8_encode_def chars_def)
    with a(5,6,7) s t show ?thesis by (simp add: scalar_value_def)
  qed
qed

lemma utf8_decode_encode:
  "utf8_decode s = Some us \<Longrightarrow> concat (map utf8_encode us) = s \<and> list_all scalar_value us"
proof (induction s arbitrary: us rule: utf8_decode.induct)
  case (1 s)
  show ?case
  proof (cases "s = []")
    case True
    then show ?thesis using 1(2) by (simp add: utf8_decode.simps [of "[]"])
  next
    case False
    then obtain u n us' where u: "utf8_first s = Some (u, n)" "utf8_decode (drop (max 1 n) s) = Some us'" "us = u # us'"
      using 1(2) by (auto simp: utf8_decode.simps [of s] split: option.splits)
    from utf8_first_encode [OF u(1) False] have f: "utf8_encode u = take n s" "1 \<le> n" "scalar_value u" by auto
    then have "max 1 n = n" by simp
    with 1(1) [OF False u(1) refl u(2)] u(3) f show ?thesis by simp
  qed
qed

lemma hex_val_digit: "d < 16 \<Longrightarrow> hex_val (hex_digit d) = Some d"
  by (auto simp: hex_val_def hex_digit_def Let_def)

lemma quad_sum:
  "u = 16 * a + x \<Longrightarrow> a = 16 * b + y \<Longrightarrow> b = 16 * c + z \<Longrightarrow> 4096 * c + 256 * z + 16 * y + x = (u :: nat)"
  by simp

lemma hex4_quad:
  assumes "u < 65536"
  shows "hex4 (hex_quad u @ r) = Some u"
proof -
  have "u div 4096 < 16" using assms by (simp add: div_less_iff_less_mult)
  moreover have "u div 256 = u div 16 div 16" "u div 4096 = u div 16 div 16 div 16"
    by (simp_all add: div_mult2_eq [symmetric])
  moreover have "u = 16 * (u div 16) + u mod 16" "u div 16 = 16 * (u div 16 div 16) + u div 16 mod 16"
    "u div 16 div 16 = 16 * (u div 16 div 16 div 16) + u div 16 div 16 mod 16"
    by simp_all
  ultimately have "4096 * (u div 4096 mod 16) + 256 * (u div 256 mod 16) + 16 * (u div 16 mod 16) + u mod 16 = u"
    by (metis mod_less quad_sum)
  moreover have "hex4 (hex_quad u @ r) = Some (4096 * (u div 4096 mod 16) + 256 * (u div 256 mod 16)
      + 16 * (u div 16 mod 16) + u mod 16)"
    by (simp add: hex4_def hex_quad_def hex_val_digit)
  ultimately show ?thesis by (simp only:)
qed

lemma drop_hex_quad [simp]: "drop 4 (hex_quad u @ r) = r"
  by (simp add: hex_quad_def)

lemma length_hex_quad [simp]: "length (hex_quad u) = 4"
  by (simp add: hex_quad_def)

lemma json_string_u:
  "json_string (CHR 0x5C # CHR ''u'' # q) = (case hex4 q of None \<Rightarrow> None
     | Some u \<Rightarrow> case (if 55296 \<le> u \<and> u < 56320 \<and> starts_with [CHR 0x5C, CHR ''u''] (drop 4 q)
            then (case hex4 (drop 2 (drop 4 q)) of Some l \<Rightarrow>
                if 56320 \<le> l \<and> l < 57344 then Some l else None | None \<Rightarrow> None)
            else None) of
         Some l \<Rightarrow> map_option (apfst ((@) (utf8_encode (65536 + (u - 55296) * 1024 + (l - 56320)))))
           (json_string (drop 6 (drop 4 q)))
       | None \<Rightarrow> map_option (apfst ((@) (utf8_encode u))) (json_string (drop 4 q)))"
  by (subst json_string.simps) (simp add: byte_def Let_def cong: option.case_cong)

lemma json_string_unicode:
  assumes "u < 65536" "\<not> (55296 \<le> u \<and> u < 57344)"
  shows "json_string (unicode_escape u @ r) = map_option (apfst ((@) (utf8_encode u))) (json_string r)"
proof -
  have "\<not> (55296 \<le> u \<and> u < 56320 \<and> starts_with [CHR 0x5C, CHR ''u''] r)" using assms(2) by linarith
  then show ?thesis
    by (simp only: unicode_escape_def append_Cons json_string_u hex4_quad [OF assms(1)] drop_hex_quad
        option.case if_False)
qed

lemma json_string_pair:
  assumes "65536 \<le> u" "u < 1114112"
  shows "json_string (unicode_escape (55296 + (u - 65536) div 1024) @ unicode_escape (56320 + (u - 65536) mod 1024) @ r)
     = map_option (apfst ((@) (utf8_encode u))) (json_string r)"
proof -
  define h l where hl: "h = 55296 + (u - 65536) div 1024" "l = 56320 + (u - 65536) mod 1024"
  have h: "55296 \<le> h" "h < 56320" using assms by (simp_all add: hl div_less_iff_less_mult)
  have l: "56320 \<le> l" "l < 57344" by (simp_all add: hl)
  have hx: "hex4 (hex_quad h @ q) = Some h" "hex4 (hex_quad l @ q) = Some l" for q
    using h l by (simp_all add: hex4_quad)
  have eq: "65536 + (h - 55296) * 1024 + (l - 56320) = u"
    using assms(1) by (simp add: hl)
  have q: "starts_with [CHR 0x5C, CHR ''u''] (unicode_escape l @ r)" "drop 2 (unicode_escape l @ r) = hex_quad l @ r"
    "drop 6 (unicode_escape l @ r) = r"
    by (simp_all add: starts_with_def unicode_escape_def)
  show ?thesis unfolding hl(1) [symmetric] hl(2) [symmetric]
    by (simp only: unicode_escape_def [of h] append_Cons json_string_u hx drop_hex_quad q h l
        option.case if_True simp_thms eq)
qed

lemma json_string_plain:
  "32 \<le> byte c \<Longrightarrow> c \<noteq> CHR 0x22 \<Longrightarrow> c \<noteq> CHR 0x5C \<Longrightarrow>
    json_string (c # r) = map_option (apfst ((#) c)) (json_string r)"
  by (subst json_string.simps) simp

lemma json_string_short:
  "e \<noteq> CHR ''u'' \<Longrightarrow> unescape e = Some x \<Longrightarrow>
    json_string (CHR 0x5C # e # r) = map_option (apfst ((#) x)) (json_string r)"
  by (subst json_string.simps) (simp add: byte_def)

lemma json_string_close [simp]: "json_string (CHR 0x22 # r) = Some ([], r)"
  by (subst json_string.simps) simp

lemma append_single: "(@) [x] = (#) x"
  by auto

lemma utf8_encode_ascii: "u < 128 \<Longrightarrow> utf8_encode u = [char_of u]"
  by (simp add: utf8_encode_def chars_def)

lemma json_string_escape:
  assumes "scalar_value u"
  shows "json_string (escape_point u @ r) = map_option (apfst ((@) (utf8_encode u))) (json_string r)"
proof (cases "map_of short_escapes u")
  case (Some c)
  then have "u < 128" "c \<noteq> CHR ''u''" "unescape c = Some (char_of u)"
    by (auto simp: short_escapes_def unescape_def split: if_splits)
  then show ?thesis
    by (simp add: escape_point_def Some json_string_short utf8_encode_ascii append_single)
next
  case None
  then have n: "u \<noteq> 34" "u \<noteq> 92" by (auto simp: short_escapes_def)
  consider "32 \<le> u \<and> u < 127" | "\<not> (32 \<le> u \<and> u < 127)" "u < 65536" | "65536 \<le> u" by linarith
  then show ?thesis
  proof cases
    case 1
    have "byte (char_of u) \<noteq> byte (CHR 0x22)" "byte (char_of u) \<noteq> byte (CHR 0x5C)"
      using n 1 by (auto simp: byte_def)
    then have "char_of u \<noteq> CHR 0x22" "char_of u \<noteq> CHR 0x5C" by metis+
    with 1 show ?thesis
      by (simp add: escape_point_def None json_string_plain utf8_encode_ascii append_single)
  next
    case 2
    then have "escape_point u = unicode_escape u"
      by (simp only: escape_point_def None option.case if_False if_True)
    moreover have "\<not> (55296 \<le> u \<and> u < 57344)" using assms by (simp add: scalar_value_def)
    ultimately show ?thesis using 2(2) by (simp only: json_string_unicode not_False_eq_True)
  next
    case 3
    then show ?thesis using assms json_string_pair [of u r]
      by (simp add: escape_point_def None scalar_value_def)
  qed
qed

lemma json_string_points:
  "list_all scalar_value us \<Longrightarrow>
    json_string (concat (map escape_point us) @ CHR 0x22 # r) = Some (concat (map utf8_encode us), r)"
  by (induction us) (simp_all add: json_string_escape)

lemma json_string_dumps:
  "utf8_decode s \<noteq> None \<Longrightarrow> json_string (tl (dumps_string s) @ r) = Some (s, r)"
  using utf8_decode_encode [of s] by (auto simp: dumps_string_def json_string_points)

section \<open>A number survives\<close>

definition stops :: "string \<Rightarrow> bool" where
  "stops r \<longleftrightarrow> (case r of [] \<Rightarrow> True | c # _ \<Rightarrow> c = CHR '','' \<or> c = CHR '']'' \<or> c = CHR ''}'')"

lemma stops_simps [simp]: "stops []" "stops (CHR '','' # r)" "stops (CHR '']'' # r)" "stops (CHR ''}'' # r)"
  by (simp_all add: stops_def)

lemma starts_with_Cons [simp]: "starts_with (c # p) [] = False" "starts_with (c # p) (d # s) = (c = d \<and> starts_with p s)"
  "starts_with [] s"
  by (auto simp: starts_with_def)

lemma stops_cases: "stops r \<Longrightarrow> fraction_part r = [] \<and> exponent_part r = [] \<and> takeWhile is_digit r = []"
  by (auto simp: stops_def fraction_part_def exponent_part_def is_digit_def byte_def split: list.splits)

lemma dec_digits_head:
  "0 < n \<Longrightarrow> \<exists>c cs. dec_digits n = c # cs \<and> c \<noteq> CHR ''0'' \<and> c \<noteq> CHR ''-''"
proof (induction n rule: dec_digits.induct)
  case (1 n)
  show ?case
  proof (cases "n < 10")
    case True
    with 1(2) byte_digit_char [of n] have "byte (digit_char n) \<noteq> 48" "byte (digit_char n) \<noteq> 45" by auto
    then have "digit_char n \<noteq> CHR ''0''" "digit_char n \<noteq> CHR ''-''" by (auto simp: byte_def)
    with True show ?thesis by (simp add: dec_digits.simps [of n])
  next
    case False
    then have "0 < n div 10" by simp
    with 1(1) False show ?thesis by (fastforce simp: dec_digits.simps [of n])
  qed
qed

lemma takeWhile_dec_digits:
  assumes "0 \<le> n" "takeWhile is_digit r = []"
  shows "takeWhile is_digit (dec_digits n @ r) = dec_digits n"
proof -
  have "\<forall>c \<in> set (dec_digits n). is_digit c" using dec_digits_set [OF assms(1)] by (simp add: is_digit_def)
  then show ?thesis using assms(2) by (simp add: takeWhile_append)
qed

lemma dec_zero [simp]: "dec_digits 0 = ''0''"
  using char_of_byte [of "CHR ''0''"] by (simp add: dec_digits.simps [of 0] digit_char_def byte_def)

lemma json_number_nat:
  assumes "stops r" "0 \<le> m" "sg = [] \<or> sg = ''-''" "parse_int (sg @ dec_digits m) = Some n"
  shows "json_number (sg @ dec_digits m @ r) = Some (VInt n, r)"
proof -
  note r = stops_cases [OF assms(1)]
  obtain c cs where c: "dec_digits m = c # cs" by (cases "dec_digits m") auto
  have minus: "c \<noteq> CHR ''-''"
    using dec_digits_set [OF assms(2), of c] c by (auto simp: byte_def)
  then have sg: "(if starts_with ''-'' (sg @ dec_digits m @ r) then ''-'' else []) = sg"
    using assms(3) c by auto
  have ip: "(if starts_with ''0'' (dec_digits m @ r) then ''0'' else takeWhile is_digit (dec_digits m @ r)) = dec_digits m"
  proof (cases "m = 0")
    case True
    then show ?thesis by simp
  next
    case False
    then have "\<not> starts_with ''0'' (dec_digits m @ r)" using dec_digits_head [of m] assms(2) by auto
    then show ?thesis using takeWhile_dec_digits [OF assms(2), of r] r by simp
  qed
  have d: "drop (length xs) (xs @ ys) = ys" "drop (length []) ys = ys" for xs ys :: string by simp_all
  show ?thesis
    by (simp only: json_number_def Let_def sg d ip) (simp add: r assms(4))
qed

lemma json_number_dec:
  assumes "stops r"
  shows "json_number (dec n @ r) = Some (VInt n, r)"
proof (cases "n < 0")
  case True
  then show ?thesis using json_number_nat [OF assms, of "- n" "''-''" n] parse_int_dec [of n]
    by (simp add: dec_def)
next
  case False
  then show ?thesis using json_number_nat [OF assms, of n "[]" n] parse_int_dec [of n]
    by (simp add: dec_def)
qed

section \<open>Every JSON value survives\<close>

text \<open>
  The values the program puts into a payload: texts are UTF-8, keys are distinct, and floats are
  absent (their text is the interpreter's).
\<close>

fun json_ok :: "pyval \<Rightarrow> bool" where
  "json_ok (VStr s) = (utf8_decode s \<noteq> None)"
| "json_ok (VFloat f) = False"
| "json_ok (VList vs) = list_all json_ok vs"
| "json_ok (VDict kvs) = (distinct (map fst kvs) \<and> list_all (\<lambda>(k, v). utf8_decode k \<noteq> None \<and> json_ok v) kvs)"
| "json_ok _ = True"

lemma dumps_string_quote: "dumps_string s = CHR 0x22 # tl (dumps_string s)"
  by (simp add: dumps_string_def)

lemma dec_digits_digit: "0 \<le> n \<Longrightarrow> \<exists>c cs. dec_digits n = c # cs \<and> is_digit c"
  using dec_digits_set [of n "hd (dec_digits n)"] by (cases "dec_digits n") (auto simp: is_digit_def)

lemma digit_is_not:
  "is_digit c \<Longrightarrow> \<not> json_space c \<and> c \<noteq> CHR '']'' \<and> c \<noteq> CHR ''}'' \<and> c \<noteq> CHR ''n'' \<and> c \<noteq> CHR ''t'' \<and> c \<noteq> CHR ''f''
     \<and> c \<noteq> CHR ''N'' \<and> c \<noteq> CHR ''I'' \<and> c \<noteq> CHR ''-'' \<and> c \<noteq> CHR ''['' \<and> c \<noteq> CHR ''{'' \<and> c \<noteq> CHR 0x22"
  by (auto simp: is_digit_def byte_def json_space_def)

lemma dec_head:
  obtains (digit) c cs where "dec n = c # cs" "is_digit c"
  | (minus) c cs where "dec n = CHR ''-'' # c # cs" "is_digit c"
  using dec_digits_digit [of n] dec_digits_digit [of "- n"] by (cases "n < 0") (auto simp: dec_def)

lemma json_scalar_dec: "stops r \<Longrightarrow> json_scalar (dec n @ r) = Some (VInt n, r)"
proof -
  assume r: "stops r"
  have "List.find (\<lambda>(t, v). starts_with t (dec n @ r)) json_literals = None"
  proof (cases n rule: dec_head)
    case (digit c cs)
    then show ?thesis using digit_is_not [of c] by (auto simp: json_literals_def)
  next
    case (minus c cs)
    then show ?thesis using digit_is_not [of c] by (auto simp: json_literals_def)
  qed
  then show ?thesis by (simp add: json_scalar_def json_number_dec [OF r])
qed

lemma dumps_head:
  assumes "json_ok v"
  shows "\<exists>c cs. dumps ft v = c # cs \<and> \<not> json_space c \<and> c \<noteq> CHR '']''"
proof (cases v)
  case (VInt n)
  show ?thesis
  proof (cases n rule: dec_head)
    case (digit c cs)
    then show ?thesis using digit_is_not [of c] VInt by auto
  next
    case (minus c cs)
    then show ?thesis using VInt by (auto simp: json_space_def byte_def)
  qed
next
  case (VStr s)
  then show ?thesis using dumps_string_quote [of s] by (auto simp: json_space_def byte_def)
qed (use assms in \<open>auto simp: json_space_def byte_def\<close>)

lemma skip_ws_simps [simp]: "skip_ws [] = []" "skip_ws (c # s) = (if json_space c then skip_ws s else c # s)"
  by (simp_all add: skip_ws_def)

lemma not_space [simp]: "\<not> json_space CHR '','' " "\<not> json_space CHR '']''" "\<not> json_space CHR ''}''" "\<not> json_space CHR '':''"
  "\<not> json_space CHR 0x22"
  by (simp_all add: json_space_def byte_def)

lemma skip_ws_dumps [simp]: "json_ok v \<Longrightarrow> skip_ws (dumps ft v @ r) = dumps ft v @ r"
  using dumps_head [of v ft] by auto

lemma skip_ws_stops: "stops r \<Longrightarrow> skip_ws r = r"
  by (auto simp: stops_def split: list.splits)

definition survives :: "(rat \<Rightarrow> string) \<Rightarrow> pyval \<Rightarrow> bool" where
  "survives ft v \<longleftrightarrow> (\<forall>n r. stops r \<longrightarrow> 2 * length (dumps ft v @ r) \<le> n \<longrightarrow>
     json_value n (dumps ft v @ r) = Some (v, r))"

lemma survivesD:
  "survives ft v \<Longrightarrow> stops r \<Longrightarrow> 2 * length (dumps ft v @ r) \<le> n \<Longrightarrow> json_value n (dumps ft v @ r) = Some (v, r)"
  by (simp add: survives_def)

lemma json_elements_dumps:
  assumes "list_all json_ok vs" "list_all (survives ft) vs" "vs \<noteq> []"
    and "2 * length (join_comma (map (dumps ft) vs) @ CHR '']'' # r) + 1 \<le> n"
  shows "json_elements n (join_comma (map (dumps ft) vs) @ CHR '']'' # r) = Some (vs, r)"
  using assms
proof (induction vs arbitrary: n)
  case Nil
  then show ?case by simp
next
  case (Cons v vs)
  obtain m where n: "n = Suc m" using Cons.prems(4) by (cases n) auto
  show ?case
  proof (cases vs)
    case Nil
    then show ?thesis using Cons.prems n survivesD [of ft v "CHR '']'' # r" m] by simp
  next
    case (Cons w ws)
    let ?q = "join_comma (map (dumps ft) vs) @ CHR '']'' # r"
    have eq: "join_comma (map (dumps ft) (v # vs)) @ CHR '']'' # r = dumps ft v @ CHR '','' # ?q"
      using Cons by simp
    have "json_value m (dumps ft v @ CHR '','' # ?q) = Some (v, CHR '','' # ?q)"
      using Cons.prems(2,4) n eq by (intro survivesD) auto
    moreover have "skip_ws ?q = ?q"
      using Cons.prems(1) dumps_head [of w ft] by (cases ws) (auto simp: Cons)
    moreover have "json_elements m ?q = Some (vs, r)"
      using Cons.prems n eq by (intro Cons.IH) (auto simp: Cons)
    ultimately show ?thesis unfolding eq n by simp
  qed
qed

abbreviation member_text :: "(rat \<Rightarrow> string) \<Rightarrow> string \<times> pyval \<Rightarrow> string" where
  "member_text ft \<equiv> \<lambda>(k, v). dumps_string k @ CHR '':'' # dumps ft v"

lemma json_members_Suc_dumps:
  assumes "utf8_decode k \<noteq> None" "json_ok v"
  shows "json_members (Suc n) (member_text ft (k, v) @ r)
    = (case json_value n (dumps ft v @ r) of None \<Rightarrow> None
       | Some (v, r) \<Rightarrow>
          let q = skip_ws r
          in if starts_with ''}'' q then Some ([(k, v)], tl q)
             else if starts_with '','' q then map_option (apfst ((#) (k, v))) (json_members n (skip_ws (tl q)))
             else None)"
proof -
  have t: "member_text ft (k, v) @ r = CHR 0x22 # (tl (dumps_string k) @ CHR '':'' # dumps ft v @ r)"
    by (subst dumps_string_quote) simp
  show ?thesis
    unfolding t json_members.simps using assms by (simp add: json_string_dumps)
qed

lemma json_members_dumps:
  assumes "list_all (\<lambda>(k, v). utf8_decode k \<noteq> None \<and> json_ok v) kvs" "list_all (\<lambda>(k, v). survives ft v) kvs" "kvs \<noteq> []"
    and "2 * length (join_comma (map (member_text ft) kvs) @ CHR ''}'' # r) + 1 \<le> n"
  shows "json_members n (join_comma (map (member_text ft) kvs) @ CHR ''}'' # r) = Some (kvs, r)"
  using assms
proof (induction kvs arbitrary: n)
  case Nil
  then show ?case by simp
next
  case (Cons kv kvs)
  obtain k v where kv: "kv = (k, v)" by force
  obtain m where n: "n = Suc m" using Cons.prems(4) by (cases n) auto
  have ok: "utf8_decode k \<noteq> None" "json_ok v" "survives ft v" using Cons.prems(1,2) kv by auto
  show ?case
  proof (cases kvs)
    case Nil
    then have eq: "join_comma (map (member_text ft) (kv # kvs)) @ CHR ''}'' # r = member_text ft (k, v) @ CHR ''}'' # r"
      by (simp add: kv)
    have "json_value m (dumps ft v @ CHR ''}'' # r) = Some (v, CHR ''}'' # r)"
      using Cons.prems(4) n eq by (intro survivesD ok) auto
    then show ?thesis unfolding eq n json_members_Suc_dumps [OF ok(1,2)] using Nil kv by simp
  next
    case (Cons kw kws)
    let ?q = "join_comma (map (member_text ft) kvs) @ CHR ''}'' # r"
    have eq: "join_comma (map (member_text ft) (kv # kvs)) @ CHR ''}'' # r = member_text ft (k, v) @ CHR '','' # ?q"
      using Cons by (simp add: kv)
    have "json_value m (dumps ft v @ CHR '','' # ?q) = Some (v, CHR '','' # ?q)"
      using Cons.prems(4) n eq by (intro survivesD ok) auto
    moreover have "skip_ws ?q = ?q"
      by (cases kws; cases kw) (auto simp: Cons dumps_string_def)
    moreover have "json_members m ?q = Some (kvs, r)"
      using Cons.prems n eq by (intro Cons.IH) (auto simp: Cons)
    ultimately show ?thesis unfolding eq n json_members_Suc_dumps [OF ok(1,2)] by (simp add: kv)
  qed
qed

lemma update_new_key: "k \<notin> fst ` set d \<Longrightarrow> AList.update k v d = d @ [(k, v)]"
  by (induction d) auto

lemma dict_merge_distinct:
  "distinct (map fst (d @ e)) \<Longrightarrow> dict_merge d e = d @ e"
proof (induction d e rule: dict_merge.induct)
  case (1 d)
  then show ?case by simp
next
  case (2 d k v e)
  then show ?case by (simp add: update_new_key)
qed

lemma dumps_survives: "json_ok v \<Longrightarrow> survives ft v"
proof (induction v)
  case (VList vs)
  then have vs: "list_all json_ok vs" "list_all (survives ft) vs" by (auto simp: list_all_iff)
  show ?case unfolding survives_def
  proof (intro allI impI)
    fix n r assume fuel: "2 * length (dumps ft (VList vs) @ r) \<le> n"
    then obtain m where n: "n = Suc m" by (cases n) auto
    show "json_value n (dumps ft (VList vs) @ r) = Some (VList vs, r)"
    proof (cases vs)
      case Nil
      then show ?thesis by (simp add: n)
    next
      case (Cons w ws)
      let ?q = "join_comma (map (dumps ft) vs) @ CHR '']'' # r"
      obtain c cs where q: "?q = c # cs" "\<not> json_space c" "c \<noteq> CHR '']''"
        using dumps_head [of w ft] vs(1) by (cases ws) (auto simp: Cons)
      have "json_elements m ?q = Some (vs, r)"
        using json_elements_dumps [OF vs, of r m] Cons fuel n by simp
      then show ?thesis using q by (simp add: n)
    qed
  qed
next
  case (VDict kvs)
  then have kvs: "list_all (\<lambda>(k, v). utf8_decode k \<noteq> None \<and> json_ok v) kvs" "list_all (\<lambda>(k, v). survives ft v) kvs"
    by (fastforce simp: list_all_iff)+
  show ?case unfolding survives_def
  proof (intro allI impI)
    fix n r assume fuel: "2 * length (dumps ft (VDict kvs) @ r) \<le> n"
    then obtain m where n: "n = Suc m" by (cases n) auto
    show "json_value n (dumps ft (VDict kvs) @ r) = Some (VDict kvs, r)"
    proof (cases kvs)
      case Nil
      then show ?thesis by (simp add: n)
    next
      case (Cons kw kws)
      let ?q = "join_comma (map (member_text ft) kvs) @ CHR ''}'' # r"
      obtain cs where q: "?q = CHR 0x22 # cs"
        by (cases kws; cases kw) (auto simp: Cons dumps_string_def)
      have "json_members m ?q = Some (kvs, r)"
        using json_members_dumps [OF kvs, of r m] Cons fuel n by simp
      moreover have "dict_merge [] kvs = kvs"
        using dict_merge_distinct [of "[]" kvs] VDict.prems by simp
      ultimately show ?thesis using q by (simp add: n)
    qed
  qed
next
  case (VStr s)
  show ?case unfolding survives_def
  proof (intro allI impI)
    fix n r assume fuel: "2 * length (dumps ft (VStr s) @ r) \<le> n"
    have t: "dumps ft (VStr s) @ r = CHR 0x22 # tl (dumps_string s) @ r" using dumps_string_quote [of s] by simp
    with fuel obtain m where n: "n = Suc m" by (cases n) auto
    show "json_value n (dumps ft (VStr s) @ r) = Some (VStr s, r)"
      unfolding t n using VStr by (simp add: json_string_dumps)
  qed
next
  case (VInt k)
  show ?case unfolding survives_def
  proof (intro allI impI)
    fix n r assume r: "stops r" and fuel: "2 * length (dumps ft (VInt k) @ r) \<le> n"
    obtain c cs where d: "dec k = c # cs" "c \<noteq> CHR 0x22" "c \<noteq> CHR ''{''" "c \<noteq> CHR ''[''"
      using digit_is_not by (cases k rule: dec_head) auto
    with fuel obtain m where n: "n = Suc m" by (cases n) auto
    show "json_value n (dumps ft (VInt k) @ r) = Some (VInt k, r)"
      using json_scalar_dec [OF r, of k] d by (simp add: n)
  qed
next
  case VNone
  show ?case unfolding survives_def
    by (intro allI impI, rename_tac n r, case_tac n) (auto simp: json_scalar_def json_literals_def)
next
  case (VBool b)
  show ?case unfolding survives_def
    by (intro allI impI, rename_tac n r, case_tac n) (auto simp: json_scalar_def json_literals_def split: if_splits)
qed simp

lemma loads_dumps: "json_ok v \<Longrightarrow> loads (dumps ft v) = Some v"
  using survivesD [OF dumps_survives, of v "[]" ft "2 * length (dumps ft v) + 1"] skip_ws_dumps [of v ft "[]"]
  by (simp add: loads_def json_text_def)

section \<open>The fuel is enough\<close>

lemma json_string_shorter: "json_string s = Some (t, r) \<Longrightarrow> length r < length s"
proof (induction s arbitrary: t r rule: length_induct)
  case (1 s)
  have IH: "length r' < length s \<or> length s \<le> length q" if "json_string q = Some (t', r')" for q t' r'
    using 1(1) that by (meson less_trans not_le)
  from 1(2) show ?case
    unfolding json_string.simps [of s]
    by (auto simp: Let_def split: list.splits option.splits if_splits dest!: IH)
qed

lemma json_number_shorter:
  assumes "json_number s = Some (v, r)"
  shows "length r < length s"
proof -
  define sg where "sg = (if starts_with ''-'' s then ''-'' else [])"
  define t where "t = drop (length sg) s"
  define ip where "ip = (if starts_with ''0'' t then ''0'' else takeWhile is_digit t)"
  define fp where "fp = fraction_part (drop (length ip) t)"
  define ex where "ex = exponent_part (drop (length fp) (drop (length ip) t))"
  have "ip \<noteq> [] \<and> r = drop (length ex) (drop (length fp) (drop (length ip) t))"
    using assms unfolding json_number_def Let_def sg_def [symmetric] t_def [symmetric] ip_def [symmetric]
      fp_def [symmetric] ex_def [symmetric]
    by (cases "ip = []"; cases "fp = [] \<and> ex = []") (simp_all del: drop_drop, blast+)
  moreover from this have "t \<noteq> []" by (auto simp: ip_def)
  moreover have "length t \<le> length s" by (simp add: t_def)
  ultimately have "1 \<le> length ip" "1 \<le> length t" "length r \<le> length t - length ip" "length t \<le> length s"
    by (simp_all add: Suc_le_eq)
  then show ?thesis by linarith
qed

lemma starts_with_shorter: "starts_with t s \<Longrightarrow> t \<noteq> [] \<Longrightarrow> length (drop (length t) s) < length s"
  by (cases s) (auto simp: starts_with_def)

lemma json_scalar_shorter:
  assumes "json_scalar s = Some (v, r)"
  shows "length r < length s"
proof (cases "List.find (\<lambda>(t, v). starts_with t s) json_literals")
  case None
  then show ?thesis using assms json_number_shorter by (simp add: json_scalar_def)
next
  case (Some tv)
  then have "tv \<in> set json_literals" "starts_with (fst tv) s"
    using find_Some_iff [of "\<lambda>(t, v). starts_with t s" json_literals tv] nth_mem by (metis, auto)
  moreover from this(1) have "fst tv \<noteq> []" by (auto simp: json_literals_def)
  ultimately show ?thesis using assms Some starts_with_shorter [of "fst tv" s]
    by (auto simp: json_scalar_def split: prod.splits)
qed

lemma skip_ws_length: "length (skip_ws s) \<le> length s"
  by (simp add: skip_ws_def length_dropWhile_le)

lemma starts_with_nonempty: "starts_with [c] s \<Longrightarrow> 0 < length s"
  by (cases s) auto

lemma json_shorter:
  "json_value n s = Some (v, r) \<Longrightarrow> length r < length s"
  "json_elements n s = Some (vs, r) \<Longrightarrow> length r < length s"
  "json_members n s = Some (kvs, r) \<Longrightarrow> length r < length s"
proof (induction n s and n s and n s arbitrary: v r and vs r and kvs r
    rule: json_value_json_elements_json_members.induct)
  case (2 n s)
  let ?q = "skip_ws (tl s)"
  have q: "length ?q \<le> length s - 1" using skip_ws_length [of "tl s"] by simp
  consider "starts_with [CHR 0x22] s" | "starts_with ''{'' s" "\<not> starts_with [CHR 0x22] s"
    | "starts_with ''['' s" "\<not> starts_with [CHR 0x22] s" "\<not> starts_with ''{'' s"
    | "\<not> starts_with ''['' s" "\<not> starts_with [CHR 0x22] s" "\<not> starts_with ''{'' s" by blast
  then show ?case
  proof cases
    case 1
    then show ?thesis using 2(3) json_string_shorter [of "tl s"] by fastforce
  next
    case c: 2
    have "length r \<le> length ?q"
      using 2(1) [OF c(2,1) refl] 2(3) c by (auto simp: Let_def split: if_splits intro: less_imp_le)
    then show ?thesis using q starts_with_nonempty [OF c(1)] by linarith
  next
    case c: 3
    have "length r \<le> length ?q"
      using 2(2) [OF c(2,3,1) refl] 2(3) c by (auto simp: Let_def split: if_splits intro: less_imp_le)
    then show ?thesis using q starts_with_nonempty [OF c(1)] by linarith
  next
    case c: 4
    then show ?thesis using 2(3) json_scalar_shorter by simp
  qed
next
  case (4 n s)
  then obtain w q where w: "json_value n s = Some (w, q)" by (auto split: option.splits)
  have q: "length q < length s" using 4(1) w by blast
  have "length r \<le> length (skip_ws q)"
    using 4(2) [OF w refl refl] 4(3) w skip_ws_length [of "tl (skip_ws q)"]
    by (fastforce simp: Let_def split: if_splits)
  then show ?case using q skip_ws_length [of q] by linarith
next
  case (6 n s)
  from 6(3) obtain k q where k: "json_string (tl s) = Some (k, q)" "starts_with [CHR 0x22] s" "starts_with '':'' (skip_ws q)"
    by (auto split: option.splits if_splits)
  from 6(3) k obtain w u where w: "json_value n (skip_ws (tl (skip_ws q))) = Some (w, u)"
    by (auto split: option.splits if_splits)
  have u: "length u < length (skip_ws (tl (skip_ws q)))"
    using 6(1) k w by blast
  have "length r \<le> length (skip_ws u)"
    using 6(2) k w 6(3) skip_ws_length [of "tl (skip_ws u)"]
    by (auto simp: Let_def split: if_splits) fastforce
  then show ?case using u skip_ws_length [of u] skip_ws_length [of "tl (skip_ws q)"] skip_ws_length [of q]
      json_string_shorter [OF k(1)] by simp
qed simp_all

lemma json_fuel:
  "2 * length s \<le> n \<Longrightarrow> json_value (Suc n) s = json_value n s"
  "2 * length s + 1 \<le> n \<Longrightarrow> json_elements (Suc n) s = json_elements n s"
  "2 * length s + 1 \<le> n \<Longrightarrow> json_members (Suc n) s = json_members n s"
proof (induction n s and n s and n s rule: json_value_json_elements_json_members.induct)
  case (1 s)
  then show ?case by (simp add: json_scalar_def json_literals_def json_number_def)
next
  case (2 n s)
  have q: "2 * length (skip_ws (tl s)) + 1 \<le> n" if "0 < length s"
    using that 2(3) skip_ws_length [of "tl s"] by (cases s) auto
  show ?case
    unfolding json_value.simps
    using 2(1,2) q starts_with_nonempty [of _ s]
    by (cases "starts_with [CHR 0x22] s"; cases "starts_with ''{'' s"; cases "starts_with ''['' s")
      (simp_all add: Let_def del: json_elements.simps json_members.simps)
next
  case (4 n s)
  have v: "json_value (Suc n) s = json_value n s" using 4(1,3) by simp
  show ?case
  proof (cases "json_value n s")
    case None
    then show ?thesis using v by (simp only: json_elements.simps option.case)
  next
    case (Some w)
    obtain x r where w: "w = (x, r)" by force
    have r: "length r < length s" using json_shorter(1) Some w by blast
    have "2 * length (skip_ws (tl (skip_ws r))) + 1 \<le> n"
      using r 4(3) skip_ws_length [of "tl (skip_ws r)"] skip_ws_length [of r] by simp
    then show ?thesis using v Some w 4(2) [OF Some [unfolded w] refl refl]
      by (simp only: json_elements.simps option.case prod.case Let_def) (simp del: json_elements.simps)
  qed
next
  case (6 n s)
  show ?case
  proof (cases "starts_with [CHR 0x22] s \<and> (\<exists>k r. json_string (tl s) = Some (k, r) \<and> starts_with '':'' (skip_ws r))")
    case False
    then show ?thesis by (auto split: option.splits)
  next
    case True
    then obtain k r where k: "starts_with [CHR 0x22] s" "json_string (tl s) = Some (k, r)" "starts_with '':'' (skip_ws r)"
      by blast
    let ?q = "skip_ws (tl (skip_ws r))"
    have r: "length r < length (tl s)" using json_string_shorter k(2) by blast
    have q: "length ?q + 1 < length s"
      using r skip_ws_length [of "tl (skip_ws r)"] skip_ws_length [of r] starts_with_nonempty [OF k(3)] by simp
    have v: "json_value (Suc n) ?q = json_value n ?q" using 6(1) k q 6(3) by simp
    show ?thesis
    proof (cases "json_value n ?q")
      case None
      then show ?thesis using v k by (simp only: json_members.simps option.case prod.case)
    next
      case (Some w)
      obtain x u where w: "w = (x, u)" by force
      have u: "length u < length ?q" using json_shorter(1) Some w by blast
      have "2 * length (skip_ws (tl (skip_ws u))) + 1 \<le> n"
        using u q 6(3) skip_ws_length [of "tl (skip_ws u)"] skip_ws_length [of u] by simp
      then have "json_members (Suc n) (skip_ws (tl (skip_ws u))) = json_members n (skip_ws (tl (skip_ws u)))"
        if "\<not> starts_with ''}'' (skip_ws u)" "starts_with '','' (skip_ws u)"
        using 6(2) k Some w that by simp
      then show ?thesis using v k Some w
        by (simp only: json_members.simps option.case prod.case Let_def) (simp del: json_members.simps)
    qed
  qed
qed simp_all

lemma loads_fuel: "2 * length s + 1 \<le> n \<Longrightarrow> json_text n s = loads s"
proof -
  have "json_value n (skip_ws s) = json_value (2 * length s + 1) (skip_ws s)" if "2 * length s + 1 \<le> n" for n
    using that
  proof (induction n rule: dec_induct)
    case base
    then show ?case by simp
  next
    case (step m)
    then show ?case using json_fuel(1) [of "skip_ws s" m] skip_ws_length [of s] by simp
  qed
  then show "2 * length s + 1 \<le> n \<Longrightarrow> json_text n s = loads s"
    by (simp add: json_text_def loads_def)
qed

end
