(* ===== verification/Lan_Framing.thy ===== *)
theory Lan_Framing
  imports Json "HOL-Library.Word"
begin

text \<open>
  The frames of the binary protocol. \<^verbatim>\<open>lan/protocol.py\<close> is the codec of the gateway connection,
  \<^verbatim>\<open>packet.py\<close> (\<^verbatim>\<open>HomematePacket\<close>) the one of the cloud connection and \<^verbatim>\<open>lan/packet.py\<close> the older codec.
  A frame is \<^verbatim>\<open>hd\<close>, its length (two bytes), its type, the CRC of its payload (four bytes), the session
  id (32 bytes) and the encrypted payload. Bytes are strings.

  The CRC is \<^verbatim>\<open>binascii.crc32\<close>, bit by bit. The cipher and its padding are a third-party package: they
  are the record \<open>cipher\<close>, an argument of the codecs, and \<open>documented_cipher\<close> states what the package
  documents of them. The padded text and the decrypted text of whole blocks are what \<^verbatim>\<open>update\<close> and
  \<^verbatim>\<open>finalize\<close> return together; a decryptor keeps an incomplete last block back. Making a payload
  immutable, and mutable again, changes nothing that the model distinguishes.
\<close>

unbundle bit_operations_syntax

section \<open>Checksum and integers on the wire\<close>

definition CRC_POLY :: "32 word" where "CRC_POLY = 0xEDB88320"

definition crc_bit :: "32 word \<Rightarrow> 32 word" where
  "crc_bit c = (if bit c 0 then drop_bit 1 c XOR CRC_POLY else drop_bit 1 c)"

definition crc_byte :: "32 word \<Rightarrow> char \<Rightarrow> 32 word" where
  "crc_byte c b = (crc_bit ^^ 8) (c XOR word_of_nat (byte b))"

text \<open>\<^verbatim>\<open>binascii.crc32\<close>\<close>

definition crc32 :: "string \<Rightarrow> 32 word" where
  "crc32 bs = NOT (foldl crc_byte (NOT 0) bs)"

text \<open>\<^verbatim>\<open>struct.pack(">H", n)\<close> for \<open>n < 65536\<close>, \<^verbatim>\<open>struct.pack(">I", n)\<close> and \<^verbatim>\<open>struct.unpack(">H", b)\<close>.\<close>

definition pack_H :: "nat \<Rightarrow> string" where
  "pack_H n = chars [n div 256, n mod 256]"

definition pack_I :: "nat \<Rightarrow> string" where
  "pack_I n = chars [n div 16777216, n div 65536 mod 256, n div 256 mod 256, n mod 256]"

definition unpack_H :: "string \<Rightarrow> nat" where
  "unpack_H b = 256 * byte (b ! 0) + byte (b ! 1)"

definition unpack_I :: "string \<Rightarrow> nat" where
  "unpack_I b = 16777216 * byte (b ! 0) + 65536 * byte (b ! 1) + 256 * byte (b ! 2) + byte (b ! 3)"

definition crc_field :: "string \<Rightarrow> string" where
  "crc_field bs = pack_I (unat (crc32 bs))"

section \<open>The cipher\<close>

record cipher =
  pkcs7_pad :: "string \<Rightarrow> string"
  pkcs7_unpad :: "string \<Rightarrow> string option"
  aes_encrypt :: "string \<Rightarrow> string \<Rightarrow> string"
  aes_decrypt :: "string \<Rightarrow> string \<Rightarrow> string"

definition AES_KEY_LENGTHS :: "nat list" where
  "AES_KEY_LENGTHS = [16, 24, 32]"

definition documented_cipher :: "cipher \<Rightarrow> bool" where
  "documented_cipher C \<longleftrightarrow>
     (\<forall>p. 0 < length (pkcs7_pad C p) \<and> length (pkcs7_pad C p) mod 16 = 0
        \<and> length (pkcs7_pad C p) \<le> length p + 16 \<and> pkcs7_unpad C (pkcs7_pad C p) = Some p) \<and>
     (\<forall>k b. length k \<in> set AES_KEY_LENGTHS \<and> length b mod 16 = 0 \<longrightarrow>
        length (aes_encrypt C k b) = length b \<and> aes_decrypt C k (aes_encrypt C k b) = b)"

section \<open>The codec of the gateway connection\<close>

datatype frame_error =
    InvalidPacketTypeError | InvalidMagicError | InvalidLengthError | InvalidCrcError
  | InvalidSessionError | InvalidPayloadError | EncryptionError

definition MAGIC :: string where "MAGIC = ''hd''"
definition PK_TYPE :: string where "PK_TYPE = ''pk''"
definition DK_TYPE :: string where "DK_TYPE = ''dk''"
definition HEADER_LENGTH :: nat where "HEADER_LENGTH = 42"
definition SESSION_LENGTH :: nat where "SESSION_LENGTH = 32"
definition MAX_PACKET_LENGTH :: nat where "MAX_PACKET_LENGTH = 65535"

record decoded_packet =
  dp_packet_type :: string
  dp_session_id :: string
  dp_payload :: dict

definition check :: "bool \<Rightarrow> 'e \<Rightarrow> 'e + unit" where
  "check b e = (if b then Inr () else Inl e)"

definition validate_packet_type :: "string \<Rightarrow> frame_error + unit" where
  "validate_packet_type t = check (t \<in> {PK_TYPE, DK_TYPE}) InvalidPacketTypeError"

definition validate_key :: "string \<Rightarrow> frame_error + unit" where
  "validate_key k = check (length k \<in> set AES_KEY_LENGTHS) EncryptionError"

definition validate_session_id :: "string \<Rightarrow> frame_error + unit" where
  "validate_session_id s = check (length s = SESSION_LENGTH) InvalidSessionError"

definition encrypt :: "cipher \<Rightarrow> string \<Rightarrow> string \<Rightarrow> frame_error + string" where
  "encrypt C key plaintext = bindE (validate_key key) (\<lambda>_. Inr (aes_encrypt C key (pkcs7_pad C plaintext)))"

definition decrypt :: "cipher \<Rightarrow> string \<Rightarrow> string \<Rightarrow> frame_error + string" where
  "decrypt C key ciphertext =
     bindE (validate_key key) (\<lambda>_.
     bindE (check (ciphertext \<noteq> [] \<and> length ciphertext mod 16 = 0) InvalidLengthError) (\<lambda>_.
     case pkcs7_unpad C (aes_decrypt C key ciphertext) of
       None \<Rightarrow> Inl EncryptionError | Some plain \<Rightarrow> Inr plain))"

definition frame :: "string \<Rightarrow> string \<Rightarrow> string \<Rightarrow> string" where
  "frame packet_type session_id encrypted =
     MAGIC @ pack_H (HEADER_LENGTH + length encrypted) @ packet_type @ crc_field encrypted @ session_id @ encrypted"

definition build_packet ::
  "cipher \<Rightarrow> (rat \<Rightarrow> string) \<Rightarrow> string \<Rightarrow> string \<Rightarrow> string \<Rightarrow> pyval \<Rightarrow> frame_error + string" where
  "build_packet C float_text packet_type key session_id payload =
     bindE (validate_packet_type packet_type) (\<lambda>_.
     bindE (validate_key key) (\<lambda>_.
     bindE (validate_session_id session_id) (\<lambda>_.
     bindE (check (is_dict payload) InvalidPayloadError) (\<lambda>_.
     bindE (encrypt C key (dumps float_text payload)) (\<lambda>encrypted.
     bindE (check (HEADER_LENGTH + length encrypted \<le> MAX_PACKET_LENGTH) InvalidLengthError) (\<lambda>_.
     Inr (frame packet_type session_id encrypted)))))))"

definition slice :: "nat \<Rightarrow> nat \<Rightarrow> string \<Rightarrow> string" where
  "slice a b s = take (b - a) (drop a s)"

definition decode_payload :: "string \<Rightarrow> frame_error + dict" where
  "decode_payload plain =
     (case utf8_decode plain of None \<Rightarrow> Inl InvalidPayloadError
      | Some _ \<Rightarrow> (case loads plain of Some (VDict d) \<Rightarrow> Inr d | _ \<Rightarrow> Inl InvalidPayloadError))"

definition decode_packet ::
  "cipher \<Rightarrow> (string \<times> string) list \<Rightarrow> string \<Rightarrow> string \<Rightarrow> frame_error + decoded_packet" where
  "decode_packet C keys default_key data =
     bindE (check (HEADER_LENGTH + 16 \<le> length data) InvalidLengthError) (\<lambda>_.
     bindE (check (take 2 data = MAGIC) InvalidMagicError) (\<lambda>_.
     bindE (check (unpack_H (slice 2 4 data) = length data) InvalidLengthError) (\<lambda>_.
     let packet_type = slice 4 6 data; session_id = slice 10 HEADER_LENGTH data; encrypted = drop HEADER_LENGTH data
     in bindE (validate_packet_type packet_type) (\<lambda>_.
     bindE (validate_session_id session_id) (\<lambda>_.
     bindE (check (crc_field encrypted = slice 6 10 data) InvalidCrcError) (\<lambda>_.
     case (if packet_type = PK_TYPE then Some default_key else map_of keys session_id) of
       None \<Rightarrow> Inl InvalidSessionError
     | Some key \<Rightarrow>
         bindE (decrypt C key encrypted) (\<lambda>plain.
         bindE (decode_payload plain) (\<lambda>payload.
         Inr \<lparr>dp_packet_type = packet_type, dp_session_id = session_id, dp_payload = payload\<rparr>))))))))"

definition parse_packet ::
  "cipher \<Rightarrow> (string \<times> string) list \<Rightarrow> string \<Rightarrow> string \<Rightarrow> frame_error + dict" where
  "parse_packet C keys default_key data =
     bindE (decode_packet C keys default_key data) (\<lambda>d. Inr (dp_payload d))"

text \<open>
  \<^verbatim>\<open>_read_frame\<close> on the bytes that will arrive: the frame and the rest, an error, or \<open>Inl None\<close> when the
  stream ends within the frame (\<^verbatim>\<open>IncompleteReadError\<close>).
\<close>

definition read_frame :: "string \<Rightarrow> frame_error option + string \<times> string" where
  "read_frame stream =
     bindE (check (4 \<le> length stream) None) (\<lambda>_.
     bindE (check (take 2 stream = MAGIC) (Some InvalidMagicError)) (\<lambda>_.
     let n = unpack_H (slice 2 4 stream)
     in bindE (check (HEADER_LENGTH + 16 \<le> n) (Some InvalidLengthError)) (\<lambda>_.
        bindE (check (n \<le> length stream) None) (\<lambda>_.
        Inr (take n stream, drop n stream)))))"

section \<open>The older codec\<close>

definition struct_error :: py_exn where "struct_error = OtherError ''struct.error''"
definition index_error :: py_exn where "index_error = OtherError ''IndexError''"

definition legacy_build_packet ::
  "cipher \<Rightarrow> (rat \<Rightarrow> string) \<Rightarrow> string \<Rightarrow> string \<Rightarrow> string \<Rightarrow> pyval \<Rightarrow> string py" where
  "legacy_build_packet C float_text packet_type key session_id payload =
     bindE (check (length key \<in> set AES_KEY_LENGTHS) ValueError) (\<lambda>_.
     let encrypted = aes_encrypt C key (pkcs7_pad C (dumps float_text payload))
     in bindE (check (2 + 2 + 2 + 4 + 32 + length encrypted \<le> 65535) struct_error) (\<lambda>_.
        Inr (frame packet_type session_id encrypted)))"

definition rstrip_nul :: "string \<Rightarrow> string" where
  "rstrip_nul s = rev (dropWhile (\<lambda>c. byte c = 0) (rev s))"

definition legacy_parse_packet ::
  "cipher \<Rightarrow> (string \<times> string) list \<Rightarrow> string \<Rightarrow> string \<Rightarrow> dict option" where
  "legacy_parse_packet C keys default_key data =
     (if length data < 42 \<or> take 2 data \<noteq> MAGIC \<or> length data \<noteq> unpack_H (slice 2 4 data)
         \<or> crc_field (drop 42 data) \<noteq> slice 6 10 data then None
      else
        let key = (if slice 4 6 data = PK_TYPE then default_key
                   else case map_of keys (slice 10 42 data) of None \<Rightarrow> default_key | Some k \<Rightarrow> k)
        in if length key \<notin> set AES_KEY_LENGTHS \<or> length (drop 42 data) mod 16 \<noteq> 0 then None
           else case pkcs7_unpad C (aes_decrypt C key (drop 42 data)) of None \<Rightarrow> None
             | Some plain \<Rightarrow> (case decode_payload (rstrip_nul plain) of Inr d \<Rightarrow> Some d | Inl _ \<Rightarrow> None))"

section \<open>The codec of the cloud connection\<close>

record homemate_packet =
  hp_packet_type :: string
  hp_length :: nat
  hp_session_id :: string
  hp_payload :: "pyval option"

definition decrypt_payload :: "cipher \<Rightarrow> string \<Rightarrow> string \<Rightarrow> pyval py" where
  "decrypt_payload C key encrypted =
     bindE (check (length key \<in> set AES_KEY_LENGTHS) ValueError) (\<lambda>_.
     case pkcs7_unpad C (aes_decrypt C key (take (16 * (length encrypted div 16)) encrypted)) of
       None \<Rightarrow> Inl ValueError
     | Some unpad \<Rightarrow>
         if unpad = [] then Inl index_error
         else let plain = (if byte (last unpad) = 0 then butlast unpad else unpad)
           in case utf8_decode plain of None \<Rightarrow> Inl ValueError
              | Some _ \<Rightarrow> (case loads plain of None \<Rightarrow> Inl ValueError | Some v \<Rightarrow> Inr v))"

definition homemate_init :: "cipher \<Rightarrow> (string \<times> string) list \<Rightarrow> string \<Rightarrow> string \<Rightarrow> homemate_packet py" where
  "homemate_init C keys default_key data =
     (if data = [] then Inr \<lparr>hp_packet_type = PK_TYPE, hp_length = 0, hp_session_id = [], hp_payload = None\<rparr>
      else
        bindE (check (take 2 data = MAGIC) AssertionError) (\<lambda>_.
        bindE (check (4 \<le> length data) struct_error) (\<lambda>_.
        bindE (check (unpack_H (slice 2 4 data) = length data) AssertionError) (\<lambda>_.
        let packet_type = slice 4 6 data; session_id = slice 10 42 data
        in bindE (check (packet_type \<in> {PK_TYPE, DK_TYPE}) AssertionError) (\<lambda>_.
        bindE (check (10 \<le> length data) struct_error) (\<lambda>_.
        bindE (check (unat (crc32 (drop 42 data)) = unpack_I (slice 6 10 data)) AssertionError) (\<lambda>_.
        bindE (if packet_type = DK_TYPE then
                 (case utf8_decode session_id of None \<Rightarrow> Inl ValueError
                  | Some _ \<Rightarrow> (case map_of keys session_id of None \<Rightarrow> Inl KeyError | Some k \<Rightarrow> Inr k))
               else Inr default_key) (\<lambda>key.
        bindE (if drop 42 data = [] then Inr None
               else bindE (decrypt_payload C key (drop 42 data)) (\<lambda>v. Inr (Some v))) (\<lambda>payload.
        Inr \<lparr>hp_packet_type = packet_type, hp_length = length data, hp_session_id = session_id,
          hp_payload = payload\<rparr>)))))))))"

definition parse_length :: "string \<Rightarrow> nat py" where
  "parse_length data =
     bindE (check (take 2 data = MAGIC) AssertionError) (\<lambda>_.
     bindE (check (4 \<le> length data) struct_error) (\<lambda>_. Inr (unpack_H (slice 2 4 data))))"

definition cloud_build_packet ::
  "cipher \<Rightarrow> (rat \<Rightarrow> string) \<Rightarrow> string \<Rightarrow> string \<Rightarrow> string \<Rightarrow> pyval \<Rightarrow> string py" where
  "cloud_build_packet C float_text packet_type key session_id payload =
     bindE (check (length key \<in> set AES_KEY_LENGTHS) ValueError) (\<lambda>_.
     let encrypted = aes_encrypt C key (pkcs7_pad C (dumps float_text payload));
         n = length encrypted + length (MAGIC @ packet_type @ crc_field encrypted @ session_id) + 2
     in bindE (check (n \<le> 65535) struct_error) (\<lambda>_.
        Inr (MAGIC @ pack_H n @ packet_type @ crc_field encrypted @ session_id @ encrypted)))"

section \<open>The checksum\<close>

lemma bind_check [simp]: "bindE (check b e) f = (if b then f () else Inl e)"
  by (simp add: check_def)

lemma length_pack [simp]: "length (pack_H n) = 2" "length (pack_I n) = 4" "length (crc_field bs) = 4"
  by (simp_all add: pack_H_def pack_I_def chars_def crc_field_def)

lemma xor_cancel: "x XOR a = y XOR a \<Longrightarrow> x = (y :: 32 word)"
  by (metis xor.assoc xor.right_neutral xor_self_eq)

lemma crc_bit_inj: "crc_bit x = crc_bit y \<Longrightarrow> x = y"
proof -
  assume eq: "crc_bit x = crc_bit y"
  have msb: "bit (crc_bit z) 31 = bit z 0" for z
    by (simp add: crc_bit_def CRC_POLY_def bit_simps impossible_bit)
  have b0: "bit x 0 = bit y 0" using eq msb by metis
  then have "drop_bit 1 x = drop_bit 1 y"
    using eq xor_cancel [of "drop_bit 1 x" CRC_POLY "drop_bit 1 y"]
    by (cases "bit y 0") (simp_all add: crc_bit_def)
  then have suc: "bit x (Suc n) = bit y (Suc n)" for n
    by (metis bit_drop_bit_eq comp_apply plus_1_eq_Suc)
  show "x = y"
  proof (rule bit_eqI)
    fix n show "bit x n = bit y n" using b0 suc by (cases n) simp_all
  qed
qed

lemma crc_bits_inj: "(crc_bit ^^ n) x = (crc_bit ^^ n) y \<Longrightarrow> x = y"
  by (induction n) (auto dest: crc_bit_inj)

lemma word_of_byte_inj: "(word_of_nat (byte a) :: 32 word) = word_of_nat (byte b) \<Longrightarrow> a = b"
proof -
  assume "(word_of_nat (byte a) :: 32 word) = word_of_nat (byte b)"
  then have "byte a mod 2 ^ 32 = byte b mod 2 ^ 32" by (simp add: word_of_nat_eq_iff take_bit_eq_mod)
  moreover have "byte a < 2 ^ 32" "byte b < 2 ^ 32" by (rule less_trans [OF byte_less]; simp)+
  ultimately have "byte a = byte b" by simp
  then show "a = b" by (metis char_of_byte)
qed

lemma crc_byte_inj_state: "crc_byte x b = crc_byte y b \<Longrightarrow> x = y"
  unfolding crc_byte_def by (drule crc_bits_inj) (rule xor_cancel)

lemma crc_byte_inj_byte: "crc_byte x a = crc_byte x b \<Longrightarrow> a = b"
  unfolding crc_byte_def by (drule crc_bits_inj) (metis xor.commute xor_cancel word_of_byte_inj)

lemma foldl_crc_inj: "foldl crc_byte x bs = foldl crc_byte y bs \<Longrightarrow> x = y"
  by (induction bs arbitrary: x y) (auto dest: crc_byte_inj_state)

lemma crc32_one_byte:
  assumes "i < length bs" "bs ! i \<noteq> b"
  shows "crc32 (bs[i := b]) \<noteq> crc32 bs"
proof
  let ?f = "foldl crc_byte (NOT 0) (take i bs)"
  assume "crc32 (bs[i := b]) = crc32 bs"
  then have "foldl crc_byte (NOT 0) (bs[i := b]) = foldl crc_byte (NOT 0) bs"
    by (simp add: crc32_def)
  moreover have "bs = take i bs @ bs ! i # drop (Suc i) bs" "bs[i := b] = take i bs @ b # drop (Suc i) bs"
    using assms(1) by (simp_all add: id_take_nth_drop upd_conv_take_nth_drop)
  ultimately have "foldl crc_byte (crc_byte ?f b) (drop (Suc i) bs) = foldl crc_byte (crc_byte ?f (bs ! i)) (drop (Suc i) bs)"
    by (metis foldl_Cons foldl_append)
  then show False using foldl_crc_inj crc_byte_inj_byte assms(2) by metis
qed

lemma unpack_pack_H: "n < 65536 \<Longrightarrow> unpack_H (pack_H n) = n"
  by (simp add: unpack_H_def pack_H_def chars_def div_less_iff_less_mult mod_less)

lemma byte_sum:
  "n = 256 * a + x \<Longrightarrow> a = 256 * b + y \<Longrightarrow> b = 256 * c + z \<Longrightarrow>
    16777216 * c + 65536 * z + 256 * y + x = (n :: nat)"
  by simp

lemma unpack_pack_I: "n < 4294967296 \<Longrightarrow> unpack_I (pack_I n) = n"
proof -
  assume "n < 4294967296"
  then have "n div 16777216 < 256" by (simp add: div_less_iff_less_mult)
  moreover have "n div 65536 = n div 256 div 256" "n div 16777216 = n div 256 div 256 div 256"
    by (simp_all add: div_mult2_eq [symmetric])
  ultimately have "unpack_I (pack_I n) = 16777216 * (n div 256 div 256 div 256) + 65536 * (n div 256 div 256 mod 256)
      + 256 * (n div 256 mod 256) + n mod 256"
    by (simp add: unpack_I_def pack_I_def chars_def)
  also have "\<dots> = n" by (rule byte_sum) simp_all
  finally show ?thesis .
qed

lemma unat_crc32: "unat (crc32 bs) < 4294967296"
proof -
  have "unat (crc32 bs) < 2 ^ LENGTH(32)" by (rule unsigned_less)
  then show ?thesis by simp
qed

lemma crc_field_eq_iff: "crc_field a = crc_field b \<longleftrightarrow> crc32 a = crc32 b"
  using unpack_pack_I [OF unat_crc32, of a] unpack_pack_I [OF unat_crc32, of b]
  by (metis crc_field_def word_unat_eq_iff)

lemma pack_unpack_H:
  assumes "length b = 2"
  shows "pack_H (unpack_H b) = b"
proof -
  obtain x y where b: "b = [x, y]" using assms by (auto simp: length_Suc_conv numeral_2_eq_2)
  show ?thesis using byte_less [of y] by (simp add: b pack_H_def unpack_H_def chars_def)
qed

section \<open>The layout of a frame\<close>

lemma frame_layout:
  assumes "length t = 2" "length s = 32"
  shows "take 2 (frame t s e) = MAGIC" "slice 2 4 (frame t s e) = pack_H (42 + length e)"
    "slice 4 6 (frame t s e) = t" "slice 6 10 (frame t s e) = crc_field e" "slice 10 42 (frame t s e) = s"
    "drop 42 (frame t s e) = e" "length (frame t s e) = 42 + length e"
  using assms by (simp_all add: frame_def slice_def MAGIC_def HEADER_LENGTH_def)

lemma frame_recovered:
  assumes "42 \<le> length data" "take 2 data = MAGIC" "unpack_H (slice 2 4 data) = length data"
    and "crc_field (drop 42 data) = slice 6 10 data"
  shows "data = frame (slice 4 6 data) (slice 10 42 data) (drop 42 data)"
proof -
  have "pack_H (length data) = slice 2 4 data"
    using assms(1,3) pack_unpack_H [of "slice 2 4 data"] by (simp add: slice_def)
  then have "frame (slice 4 6 data) (slice 10 42 data) (drop 42 data)
     = take 2 data @ slice 2 4 data @ slice 4 6 data @ slice 6 10 data @ slice 10 42 data @ drop 42 data"
    using assms by (simp add: frame_def HEADER_LENGTH_def)
  also have "\<dots> = data"
  proof -
    have split: "drop a data = slice a b data @ drop b data" if "a \<le> b" for a b
      using that by (simp add: slice_def) (metis append_take_drop_id drop_drop le_add_diff_inverse2)
    show ?thesis
      by (metis append_take_drop_id split [of 2 4] split [of 4 6] split [of 6 10] split [of 10 42]
          numeral_le_iff semiring_norm(68-78))
  qed
  finally show ?thesis by simp
qed

lemma documented_padD:
  assumes "documented_cipher C"
  shows "0 < length (pkcs7_pad C p)" "length (pkcs7_pad C p) mod 16 = 0" "length (pkcs7_pad C p) \<le> length p + 16"
    "pkcs7_unpad C (pkcs7_pad C p) = Some p"
  using assms by (simp_all add: documented_cipher_def)

lemma documented_aesD:
  assumes "documented_cipher C" "length k \<in> set AES_KEY_LENGTHS" "length b mod 16 = 0"
  shows "length (aes_encrypt C k b) = length b" "aes_decrypt C k (aes_encrypt C k b) = b"
  using assms by (simp_all add: documented_cipher_def)

section \<open>A payload is ASCII\<close>

lemma utf8_decode_ascii: "list_all (\<lambda>c. byte c < 128) s \<Longrightarrow> utf8_decode s \<noteq> None"
  by (induction s) (simp_all add: utf8_decode.simps [of "[]"] utf8_decode.simps [of "_ # _"] utf8_first_def)

lemma ascii_hex_digit: "d < 16 \<Longrightarrow> byte (hex_digit d) < 128"
  by (simp add: hex_digit_def)

lemma ascii_hex_quad: "list_all (\<lambda>c. byte c < 128) (hex_quad u)"
  by (simp add: hex_quad_def ascii_hex_digit)

lemma ascii_escape_point: "list_all (\<lambda>c. byte c < 128) (escape_point u)"
  using ascii_hex_quad
  by (auto simp: escape_point_def unicode_escape_def short_escapes_def byte_def split: option.splits if_splits)

lemma ascii_dumps_string: "list_all (\<lambda>c. byte c < 128) (dumps_string s)"
  using ascii_escape_point
  by (auto simp: dumps_string_def byte_def list_all_iff split: option.splits)

lemma ascii_join: "list_all (list_all P) xs \<Longrightarrow> P CHR '','' \<Longrightarrow> list_all P (join_comma xs)"
  by (induction xs rule: join_comma.induct) simp_all

lemma ascii_dumps: "json_ok v \<Longrightarrow> list_all (\<lambda>c. byte c < 128) (dumps ft v)"
proof (induction v)
  case (VInt n)
  show ?case using dec_chars [of _ n] by (fastforce simp: list_all_iff byte_def)
next
  case (VStr s)
  show ?case by (simp add: ascii_dumps_string)
next
  case (VList vs)
  then have "list_all (\<lambda>c. byte c < 128) (join_comma (map (dumps ft) vs))"
    by (intro ascii_join) (auto simp: list_all_iff byte_def)
  then show ?case by (simp add: byte_def)
next
  case (VDict kvs)
  have "list_all (list_all (\<lambda>c. byte c < 128)) (map (member_text ft) kvs)"
  proof (rule list_all_iff [THEN iffD2], rule ballI)
    fix x assume "x \<in> set (map (member_text ft) kvs)"
    then obtain k v where kv: "(k, v) \<in> set kvs" "x = member_text ft (k, v)" by auto
    then have "list_all (\<lambda>c. byte c < 128) (dumps ft v)"
      using VDict by (fastforce simp: list_all_iff)
    then show "list_all (\<lambda>c. byte c < 128) x"
      using kv(2) ascii_dumps_string [of k] by (simp add: byte_def)
  qed
  then have "list_all (\<lambda>c. byte c < 128) (join_comma (map (member_text ft) kvs))"
    by (rule ascii_join) (simp add: byte_def)
  then show ?case by (simp add: byte_def)
qed (simp_all add: byte_def)

lemma decode_payload_dumps: "json_ok (VDict d) \<Longrightarrow> decode_payload (dumps ft (VDict d)) = Inr d"
  using utf8_decode_ascii [OF ascii_dumps, of "VDict d" ft] loads_dumps [of "VDict d" ft]
  by (auto simp: decode_payload_def)

lemma rstrip_dumps [simp]: "rstrip_nul (dumps ft (VDict d)) = dumps ft (VDict d)"
  by (simp add: rstrip_nul_def byte_def)

lemma dumps_dict_last: "dumps ft (VDict d) \<noteq> []" "byte (last (dumps ft (VDict d))) = 125"
  by (simp_all add: byte_def)

section \<open>What the codecs promise\<close>

lemma build_packet_valid:
  assumes "documented_cipher C" "t \<in> {PK_TYPE, DK_TYPE}" "length key \<in> set AES_KEY_LENGTHS" "length sid = 32"
    and "length (dumps ft (VDict d)) \<le> 65477"
  defines "e \<equiv> aes_encrypt C key (pkcs7_pad C (dumps ft (VDict d)))"
  shows "build_packet C ft t key sid (VDict d) = Inr (frame t sid e)"
    and "16 \<le> length e" "length e mod 16 = 0" "42 + length e \<le> 65535"
    and "aes_decrypt C key e = pkcs7_pad C (dumps ft (VDict d))"
proof -
  note p = documented_padD [OF assms(1), of "dumps ft (VDict d)"]
  note a = documented_aesD [OF assms(1,3) p(2)]
  have block: "16 \<le> m" if "0 < m" "m mod 16 = 0" for m :: nat using that by presburger
  show "length e mod 16 = 0" "16 \<le> length e" using p(1,2) a(1) block by (simp_all only: e_def)
  show n: "42 + length e \<le> 65535" using p(3) a(1) assms(5) by (simp add: e_def)
  show "aes_decrypt C key e = pkcs7_pad C (dumps ft (VDict d))" using a(2) by (simp add: e_def)
  show "build_packet C ft t key sid (VDict d) = Inr (frame t sid e)"
    using assms(2,3,4) n
    by (simp add: build_packet_def validate_packet_type_def validate_key_def validate_session_id_def encrypt_def
        SESSION_LENGTH_def HEADER_LENGTH_def MAX_PACKET_LENGTH_def e_def del: dumps.simps)
qed

lemma type_length: "t \<in> {PK_TYPE, DK_TYPE} \<Longrightarrow> length t = 2"
  by (auto simp: PK_TYPE_def DK_TYPE_def)

lemma decode_built:
  assumes "documented_cipher C" "json_ok (VDict d)" "length (dumps ft (VDict d)) \<le> 65477"
    and "t \<in> {PK_TYPE, DK_TYPE}" "length key \<in> set AES_KEY_LENGTHS" "length sid = 32"
    and "if t = PK_TYPE then key = default_key else map_of keys sid = Some key"
  shows "decode_packet C keys default_key (frame t sid (aes_encrypt C key (pkcs7_pad C (dumps ft (VDict d)))))
    = Inr \<lparr>dp_packet_type = t, dp_session_id = sid, dp_payload = d\<rparr>"
proof -
  define e where "e = aes_encrypt C key (pkcs7_pad C (dumps ft (VDict d)))"
  note b = build_packet_valid [OF assms(1,4,5,6,3), folded e_def]
  note lay = frame_layout [OF type_length [OF assms(4)] assms(6), of e]
  have n: "unpack_H (pack_H (42 + length e)) = 42 + length e" using b(4) by (intro unpack_pack_H) simp
  have key: "(if t = PK_TYPE then Some default_key else map_of keys sid) = Some key" using assms(7) by auto
  have "e \<noteq> []" using b(2) by auto
  then show ?thesis unfolding e_def [symmetric]
    using b assms(4-6) decode_payload_dumps [OF assms(2)] documented_padD(4) [OF assms(1)]
    by (simp add: decode_packet_def Let_def HEADER_LENGTH_def lay n validate_packet_type_def validate_session_id_def
        SESSION_LENGTH_def key decrypt_def validate_key_def del: dumps.simps)
qed

text \<open>C20. A payload survives the wire, whatever codec reads it: a frame that the gateway codec builds from
  a JSON object (at most 65,477 bytes of text) with a valid type, key and session id is decoded to the
  same type, session and object by the gateway codec and to the same object by the older codec and by the
  cloud codec, all given the same key; the frame reader takes exactly this frame from a stream that
  goes on after it.\<close>

theorem frame_roundtrip:
  assumes "documented_cipher C" "json_ok (VDict d)" "length (dumps ft (VDict d)) \<le> 65477"
    and "t \<in> {PK_TYPE, DK_TYPE}" "length key \<in> set AES_KEY_LENGTHS" "length sid = 32" "utf8_decode sid \<noteq> None"
    and "if t = PK_TYPE then key = default_key else map_of keys sid = Some key"
  shows "\<exists>data. build_packet C ft t key sid (VDict d) = Inr data
    \<and> decode_packet C keys default_key data = Inr \<lparr>dp_packet_type = t, dp_session_id = sid, dp_payload = d\<rparr>
    \<and> legacy_parse_packet C keys default_key data = Some d
    \<and> homemate_init C keys default_key data = Inr \<lparr>hp_packet_type = t, hp_length = length data,
        hp_session_id = sid, hp_payload = Some (VDict d)\<rparr>
    \<and> read_frame (data @ rest) = Inr (data, rest)"
proof -
  define e where "e = aes_encrypt C key (pkcs7_pad C (dumps ft (VDict d)))"
  note b = build_packet_valid [OF assms(1,4,5,6,3), folded e_def]
  note lay = frame_layout [OF type_length [OF assms(4)] assms(6), of e]
  have n: "unpack_H (pack_H (42 + length e)) = 42 + length e" using b(4) by (intro unpack_pack_H) simp
  have unpad: "pkcs7_unpad C (pkcs7_pad C (dumps ft (VDict d))) = Some (dumps ft (VDict d))"
    by (rule documented_padD(4) [OF assms(1)])
  have plain: "decode_payload (dumps ft (VDict d)) = Inr d" "utf8_decode (dumps ft (VDict d)) \<noteq> None"
    "loads (dumps ft (VDict d)) = Some (VDict d)"
    using decode_payload_dumps [OF assms(2)] utf8_decode_ascii [OF ascii_dumps, OF assms(2)] loads_dumps [OF assms(2)] by blast+
  have e0: "e \<noteq> []" using b(2) by auto
  note D = decode_built [OF assms(1-6,8), folded e_def]
  have kl: "(if t = PK_TYPE then default_key else case map_of keys sid of None \<Rightarrow> default_key | Some k \<Rightarrow> k) = key"
    using assms(8) by auto
  have L: "legacy_parse_packet C keys default_key (frame t sid e) = Some d"
    unfolding legacy_parse_packet_def Let_def lay n kl
    using b(2,3,5) assms(5) plain(1) unpad by (simp del: dumps.simps)
  have kc: "(if t = DK_TYPE then (case utf8_decode sid of None \<Rightarrow> Inl ValueError
         | Some _ \<Rightarrow> (case map_of keys sid of None \<Rightarrow> Inl KeyError | Some k \<Rightarrow> Inr k)) else Inr default_key) = Inr key"
    using assms(4,7,8) by (auto simp: PK_TYPE_def DK_TYPE_def)
  have "decrypt_payload C key e = Inr (VDict d)"
    using b(3,5) assms(5) plain(2,3) unpad dumps_dict_last [of ft d]
    by (auto simp: decrypt_payload_def Let_def mod_eq_0_iff_dvd simp del: dumps.simps)
  then have H: "homemate_init C keys default_key (frame t sid e) = Inr \<lparr>hp_packet_type = t, hp_length = length (frame t sid e),
      hp_session_id = sid, hp_payload = Some (VDict d)\<rparr>"
    using assms(4) e0 lay(7)
    by (simp add: homemate_init_def Let_def lay n kc crc_field_def unpack_pack_I unat_crc32)
      (simp add: frame_def MAGIC_def)
  have R: "read_frame (frame t sid e @ rest) = Inr (frame t sid e, rest)"
  proof -
    have "take 2 (frame t sid e @ rest) = MAGIC" "slice 2 4 (frame t sid e @ rest) = pack_H (42 + length e)"
      using lay(1,2,7) by (simp_all add: slice_def)
    then show ?thesis using b(2) lay(7) n by (simp add: read_frame_def Let_def HEADER_LENGTH_def)
  qed
  from b(1) D L H R show ?thesis by blast
qed

text \<open>C21. Whatever byte of a frame is damaged in its magic, its length, its checksum or its encrypted
  payload, the damage is detected before anything is decrypted: if a frame is accepted, the frame with
  one of those bytes changed is refused, a payload byte by the checksum.\<close>

theorem frame_corruption_detected:
  assumes "decode_packet C keys default_key data = Inr p"
    and "i < length data" "data ! i \<noteq> b" "i < 4 \<or> 6 \<le> i \<and> i < 10 \<or> 42 \<le> i"
  shows "decode_packet C keys default_key (data[i := b])
     = Inl (if i < 2 then InvalidMagicError else if i < 4 then InvalidLengthError else InvalidCrcError)"
proof -
  let ?d = "data[i := b]"
  have ok: "58 \<le> length data" "take 2 data = MAGIC" "unpack_H (slice 2 4 data) = length data"
    "slice 4 6 data \<in> {PK_TYPE, DK_TYPE}" "crc_field (drop 42 data) = slice 6 10 data"
    using assms(1) by (simp_all add: decode_packet_def Let_def HEADER_LENGTH_def validate_packet_type_def
        validate_session_id_def split: if_splits)
  have sl: "slice x y ?d = (if x \<le> i \<and> i < y then (slice x y data)[i - x := b] else slice x y data)" for x y
    by (cases "x \<le> i"; cases "i < y") (auto simp: slice_def drop_update_swap drop_update_cancel take_update_swap intro!: list_update_beyond)
  have lsl: "length (slice x y data) = y - x" if "y \<le> 58" for x y
    using that ok(1) by (simp add: slice_def)
  have nth: "slice x y data ! (i - x) = data ! i" if "x \<le> i" "i < y" "y \<le> length data" for x y
    using that by (simp add: slice_def)
  have tk: "take 2 ?d = (if i < 2 then (take 2 data)[i := b] else take 2 data)"
    by (cases "i < 2") (simp_all add: take_update_swap list_update_beyond)
  have changed: "xs[j := b] \<noteq> xs" if "j < length xs" "xs ! j \<noteq> b" for xs :: string and j
    using that by (metis nth_list_update_eq)
  consider "i < 2" | "2 \<le> i" "i < 4" | "6 \<le> i" "i < 10" | "42 \<le> i" using assms(4) by linarith
  then show ?thesis
  proof cases
    case 1
    then have "(take 2 data)[i := b] \<noteq> take 2 data" using ok(1) assms(3) by (intro changed) simp_all
    moreover have "take 2 ?d = (take 2 data)[i := b]" using 1 tk by simp
    ultimately have "take 2 ?d \<noteq> MAGIC" using ok(2) by metis
    then show ?thesis using 1 ok(1) by (simp add: decode_packet_def HEADER_LENGTH_def)
  next
    case 2
    have "slice 2 4 ?d \<noteq> slice 2 4 data"
      using changed [of "i - 2" "slice 2 4 data"] 2 assms(2,3) sl [of 2 4] lsl [of 4 2] nth [of 2 4] ok(1) by simp
    moreover have "length (slice 2 4 ?d) = 2" "length (slice 2 4 data) = 2" using lsl [of 4 2] sl [of 2 4] by simp_all
    ultimately have "unpack_H (slice 2 4 ?d) \<noteq> unpack_H (slice 2 4 data)"
      using pack_unpack_H by metis
    then show ?thesis using 2 ok tk by (simp add: decode_packet_def HEADER_LENGTH_def)
  next
    case 3
    have "slice 6 10 ?d \<noteq> slice 6 10 data"
      using changed [of "i - 6" "slice 6 10 data"] 3 assms(2,3) sl [of 6 10] lsl [of 10 6] nth [of 6 10] ok(1) by simp
    moreover have "drop 42 ?d = drop 42 data" using 3 by (simp add: drop_update_cancel)
    moreover have "slice 2 4 ?d = slice 2 4 data" "slice 4 6 ?d = slice 4 6 data" using 3 sl by simp_all
    ultimately show ?thesis using 3 ok tk lsl [of 42 10] sl [of 10 42]
      by (simp add: decode_packet_def HEADER_LENGTH_def Let_def validate_packet_type_def validate_session_id_def SESSION_LENGTH_def)
  next
    case 4
    have "drop 42 ?d = (drop 42 data)[i - 42 := b]" using 4 by (simp add: drop_update_swap)
    then have "crc_field (drop 42 ?d) \<noteq> crc_field (drop 42 data)"
      using crc32_one_byte [of "i - 42" "drop 42 data" b] 4 assms(2,3) by (simp add: crc_field_eq_iff)
    moreover have "slice 2 4 ?d = slice 2 4 data" "slice 4 6 ?d = slice 4 6 data" "slice 6 10 ?d = slice 6 10 data"
      using 4 sl by simp_all
    ultimately show ?thesis using 4 ok tk lsl [of 42 10] sl [of 10 42]
      by (simp add: decode_packet_def HEADER_LENGTH_def Let_def validate_packet_type_def validate_session_id_def SESSION_LENGTH_def)
  qed
qed

text \<open>The gateway codec writes what the older codecs write: with a valid type, key and session id a JSON
  object is either encoded by all three to the same bytes, or, when its frame would be longer than
  65,535 bytes, refused by all three.\<close>

lemma codecs_write_the_same:
  fixes C :: cipher and ft :: "rat \<Rightarrow> string" and d :: dict
  assumes "t \<in> {PK_TYPE, DK_TYPE}" "length key \<in> set AES_KEY_LENGTHS" "length sid = 32"
  defines "bytes \<equiv> frame t sid (aes_encrypt C key (pkcs7_pad C (dumps ft (VDict d))))"
  shows "if length bytes \<le> 65535
    then build_packet C ft t key sid (VDict d) = Inr bytes \<and> cloud_build_packet C ft t key sid (VDict d) = Inr bytes
      \<and> legacy_build_packet C ft t key sid (VDict d) = Inr bytes
    else build_packet C ft t key sid (VDict d) = Inl InvalidLengthError
      \<and> cloud_build_packet C ft t key sid (VDict d) = Inl struct_error
      \<and> legacy_build_packet C ft t key sid (VDict d) = Inl struct_error"
proof -
  have n: "length (MAGIC @ t @ crc_field e @ sid) + 2 = 42" for e
    using assms(3) type_length [OF assms(1)] by (simp add: MAGIC_def)
  show ?thesis unfolding bytes_def
    using assms(1-3) frame_layout(7) [OF type_length [OF assms(1)] assms(3)] n
    by (simp add: legacy_build_packet_def build_packet_def cloud_build_packet_def validate_packet_type_def validate_key_def
        validate_session_id_def encrypt_def SESSION_LENGTH_def MAX_PACKET_LENGTH_def HEADER_LENGTH_def Let_def
        frame_def add.assoc add.commute del: dumps.simps)
qed

text \<open>The gateway codec accepts only what it could have written: an accepted frame is, byte for byte,
  the layout of its type, its session id and its payload, with a matching length and checksum, between
  58 and 65,535 bytes long and of whole blocks; a derived key is only used for a session that is known.\<close>

lemma accepted_frame_is_canonical:
  assumes "decode_packet C keys default_key data = Inr p"
  shows "data = frame (dp_packet_type p) (dp_session_id p) (drop 42 data)
    \<and> 58 \<le> length data \<and> length data \<le> 65535 \<and> (length data - 42) mod 16 = 0
    \<and> (dp_packet_type p = PK_TYPE \<or> dp_packet_type p = DK_TYPE \<and> map_of keys (dp_session_id p) \<noteq> None)"
proof -
  have ok: "58 \<le> length data" "take 2 data = MAGIC" "unpack_H (slice 2 4 data) = length data"
    "slice 4 6 data \<in> {PK_TYPE, DK_TYPE}" "crc_field (drop 42 data) = slice 6 10 data"
    "dp_packet_type p = slice 4 6 data" "dp_session_id p = slice 10 42 data"
    "(if slice 4 6 data = PK_TYPE then Some default_key else map_of keys (slice 10 42 data)) \<noteq> None"
    "(length data - 42) mod 16 = 0"
    using assms by (auto simp: decode_packet_def Let_def HEADER_LENGTH_def validate_packet_type_def
        validate_session_id_def decrypt_def validate_key_def split: if_splits option.splits)
  have le: "byte c \<le> 255" for c using byte_less [of c] by linarith
  have "unpack_H b < 65536" for b
    using le [of "b ! 0"] le [of "b ! 1"] unfolding unpack_H_def by linarith
  then have "length data < 65536" using ok(3) by metis
  then show ?thesis using ok frame_recovered [OF _ ok(2,3,5)] by (auto split: if_splits)
qed

section \<open>A sample cipher\<close>

definition sample_cipher :: cipher where
  "sample_cipher = \<lparr>
     pkcs7_pad = (\<lambda>p. let n = 16 - length p mod 16 in p @ replicate n (char_of n)),
     pkcs7_unpad = (\<lambda>s. if s = [] \<or> byte (last s) = 0 \<or> 16 < byte (last s) \<or> length s < byte (last s) then None
        else Some (take (length s - byte (last s)) s)),
     aes_encrypt = (\<lambda>k b. rev b), aes_decrypt = (\<lambda>k b. rev b)\<rparr>"

lemma documented_sample_cipher: "documented_cipher sample_cipher"
proof -
  have pad: "pkcs7_pad sample_cipher p = p @ replicate (16 - length p mod 16) (char_of (16 - length p mod 16))" for p
    by (simp add: sample_cipher_def Let_def)
  have unpad: "pkcs7_unpad sample_cipher (pkcs7_pad sample_cipher p) = Some p" for p
  proof -
    let ?n = "16 - length p mod 16"
    obtain n where n: "n = ?n" "0 < n" "n \<le> 16" by simp
    then have p: "pkcs7_pad sample_cipher p = p @ replicate n (char_of n)" by (simp only: pad)
    show ?thesis unfolding p using n(2,3) by (simp add: sample_cipher_def)
  qed
  have whole: "(m + (16 - m mod 16)) mod 16 = (0 :: nat)" for m by presburger
  have pos: "length p mod 16 < length p + 16" for p :: string
    using mod_less_eq_dividend [of "length p" 16] by linarith
  show ?thesis unfolding documented_cipher_def
  proof (intro conjI allI impI; (elim conjE)?)
    fix p :: string
    show "0 < length (pkcs7_pad sample_cipher p)" using pos [of p] by (simp add: pad)
    show "length (pkcs7_pad sample_cipher p) mod 16 = 0" using whole [of "length p"] by (simp add: pad)
    show "length (pkcs7_pad sample_cipher p) \<le> length p + 16" by (simp add: pad)
    show "pkcs7_unpad sample_cipher (pkcs7_pad sample_cipher p) = Some p" by (rule unpad)
  next
    fix k b :: string
    show "length (aes_encrypt sample_cipher k b) = length b" "aes_decrypt sample_cipher k (aes_encrypt sample_cipher k b) = b"
      by (simp_all add: sample_cipher_def)
  qed
qed

lemma length_dumps_string: "length (dumps_string s) \<le> 12 * length s + 2"
proof (cases "utf8_decode s")
  case None
  then show ?thesis by (simp add: dumps_string_def)
next
  case (Some us)
  have "length (escape_point u) \<le> 12" for u
    by (simp add: escape_point_def unicode_escape_def split: option.splits)
  then have "length (concat (map escape_point us)) \<le> 12 * length us"
    by (induction us) (auto simp: add_mono)
  moreover have "length us \<le> length (concat (map utf8_encode us))"
  proof (induction us)
    case (Cons u us)
    have "1 \<le> length (utf8_encode u)" by (simp add: utf8_encode_def chars_def)
    with Cons show ?case by simp
  qed simp
  ultimately show ?thesis using utf8_decode_encode [OF Some] Some by (simp add: dumps_string_def)
qed

theorem frame_roundtrip_witness:
  "\<exists>data. build_packet sample_cipher (\<lambda>r. []) DK_TYPE (replicate 16 CHR ''k'') (replicate 32 CHR ''s'')
      (VDict [(''cmd'', VInt 15), (''name'', VStr ''lamp'')]) = Inr data
    \<and> decode_packet sample_cipher [(replicate 32 CHR ''s'', replicate 16 CHR ''k'')] [] data
      = Inr \<lparr>dp_packet_type = DK_TYPE, dp_session_id = replicate 32 CHR ''s'',
          dp_payload = [(''cmd'', VInt 15), (''name'', VStr ''lamp'')]\<rparr>"
proof -
  let ?d = "[(''cmd'', VInt 15), (''name'', VStr ''lamp'')]"
  have ascii: "utf8_decode ''cmd'' \<noteq> None" "utf8_decode ''name'' \<noteq> None" "utf8_decode ''lamp'' \<noteq> None"
    "utf8_decode (replicate 32 CHR ''s'') \<noteq> None"
    by (rule utf8_decode_ascii; simp add: byte_def list_all_iff)+
  have ok: "json_ok (VDict ?d)" using ascii by simp
  have "length (dec 15) = 2" by (simp add: dec_def dec_digits.simps)
  then have len: "length (dumps (\<lambda>r. []) (VDict ?d)) \<le> 65477"
    using length_dumps_string [of "''cmd''"] length_dumps_string [of "''name''"] length_dumps_string [of "''lamp''"]
    by simp
  have "DK_TYPE \<in> {PK_TYPE, DK_TYPE}" "length (replicate 16 CHR ''k'') \<in> set AES_KEY_LENGTHS"
    "length (replicate 32 CHR ''s'') = 32"
    "if DK_TYPE = PK_TYPE then replicate 16 CHR ''k'' = [] else
      map_of [(replicate 32 CHR ''s'', replicate 16 CHR ''k'')] (replicate 32 CHR ''s'') = Some (replicate 16 CHR ''k'')"
    by (simp_all add: AES_KEY_LENGTHS_def PK_TYPE_def DK_TYPE_def)
  from frame_roundtrip [OF documented_sample_cipher ok len this(1-3) ascii(4) this(4)] show ?thesis by blast
qed

definition sample_frame :: string where
  "sample_frame = frame PK_TYPE (replicate 32 CHR '' '')
     (aes_encrypt sample_cipher (replicate 16 CHR ''k'') (pkcs7_pad sample_cipher (dumps (\<lambda>r. []) (VDict []))))"

lemma sample_frame_facts:
  "length sample_frame = 58"
  "drop 42 sample_frame = rev (CHR ''{'' # CHR ''}'' # replicate 14 (char_of (14 :: nat)))"
  "decode_packet sample_cipher [] (replicate 16 CHR ''k'') sample_frame
     = Inr \<lparr>dp_packet_type = PK_TYPE, dp_session_id = replicate 32 CHR '' '', dp_payload = []\<rparr>"
proof -
  let ?k = "replicate 16 CHR ''k''" and ?s = "replicate 32 CHR '' ''"
  have e: "aes_encrypt sample_cipher ?k (pkcs7_pad sample_cipher (dumps (\<lambda>r. []) (VDict [])))
      = rev (CHR ''{'' # CHR ''}'' # replicate 14 (char_of (14 :: nat)))"
    by (simp add: sample_cipher_def)
  have t: "length PK_TYPE = 2" by (simp add: PK_TYPE_def)
  show "length sample_frame = 58"
    "drop 42 sample_frame = rev (CHR ''{'' # CHR ''}'' # replicate 14 (char_of (14 :: nat)))"
    unfolding sample_frame_def e using frame_layout(6,7) [OF t, of ?s] by simp_all
  have "length (dumps (\<lambda>r. []) (VDict [])) \<le> 65477" "length ?k \<in> set AES_KEY_LENGTHS" "length ?s = 32" "json_ok (VDict [])"
    by (simp_all add: AES_KEY_LENGTHS_def)
  from decode_built [OF documented_sample_cipher this(4,1) _ this(2,3), of PK_TYPE ?k "[]"]
  show "decode_packet sample_cipher [] ?k sample_frame
      = Inr \<lparr>dp_packet_type = PK_TYPE, dp_session_id = ?s, dp_payload = []\<rparr>"
    by (simp add: sample_frame_def del: dumps.simps)
qed

theorem frame_corruption_detected_witness:
  "decode_packet sample_cipher [] (replicate 16 CHR ''k'') (sample_frame[50 := CHR ''x'']) = Inl InvalidCrcError"
proof -
  have "sample_frame ! 50 = drop 42 sample_frame ! 8" using sample_frame_facts(1) by simp
  also have "\<dots> = char_of (14 :: nat)" unfolding sample_frame_facts(2) by (simp add: nth_append)
  also have "\<dots> \<noteq> CHR ''x''" by (simp add: char_of_def)
  finally show ?thesis
    using frame_corruption_detected [OF sample_frame_facts(3), of 50 "CHR ''x''"] sample_frame_facts(1) by simp
qed

end
