(* ===== verification/Light_Parsers.thy ===== *)
theory Light_Parsers
  imports Protocol_Profiles
begin

text \<open>
  \<^verbatim>\<open>parsers/light.py\<close>: the pure parsers of light and switch status packets.

  A parser takes the current state and the raw status and returns the patch: the dictionary of the
  normalized fields the packet determines. The fields of the packet are decoded JSON of any type;
  where the source does not guard a conversion or a \<^verbatim>\<open>.get\<close>, the parser raises.
\<close>

type_synonym state_patch = "dict py"

text \<open>\<^verbatim>\<open>StatePatch.apply_to\<close>\<close>

definition apply_to :: "dict \<Rightarrow> dict \<Rightarrow> dict" where
  "apply_to patch state = dict_merge state patch"

section \<open>Shared readers\<close>

definition subdevice_type :: "dict \<Rightarrow> pyval py" where
  "subdevice_type raw =
     (let v = dget raw ''subDeviceType'' (VInt 0)
      in if is_str v then bindE (py_int v) (\<lambda>n. Inr (VInt n)) else Inr v)"

text \<open>\<^verbatim>\<open>isinstance(onoff, dict) and onoff.get("status")\<close>: the reported power word, if any.\<close>

definition onoff_word :: "pyval \<Rightarrow> pyval option" where
  "onoff_word onoff = (case onoff of
      VDict d \<Rightarrow> if truthy (get d ''status'') then Some (get d ''status'') else None
    | _ \<Rightarrow> None)"

definition is_on_word :: "pyval \<Rightarrow> bool" where
  "is_on_word w \<longleftrightarrow> w = VStr ''on''"

definition state_patch_of :: "bool \<Rightarrow> dict" where
  "state_patch_of b = [(''state'', VBool b)]"

text \<open>\<^verbatim>\<open>int(v) == 0\<close>\<close>

definition int_is :: "int \<Rightarrow> pyval \<Rightarrow> bool py" where
  "int_is m v = bindE (py_int v) (\<lambda>n. Inr (n = m))"

definition parse_light :: "dict \<Rightarrow> dict \<Rightarrow> state_patch" where
  "parse_light current raw =
     (let props = dget raw ''properties'' (VDict [])
      in bindE (vget props ''onoff'' (VDict [])) (\<lambda>onoff.
         case onoff_word onoff of
           Some w \<Rightarrow> Inr (state_patch_of (is_on_word w))
         | None \<Rightarrow>
             bindE (vget props ''onoff_status'' VNone) (\<lambda>s.
               if is_str s then Inr (state_patch_of (is_on_word s))
               else if get raw ''value1'' \<noteq> VNone then
                 bindE (int_is 0 (get raw ''value1'')) (\<lambda>b. Inr (state_patch_of b))
               else Inr [])))"

text \<open>\<^verbatim>\<open>float(percent) * 255 / 100\<close>, each operation rounded.\<close>

definition scale_percent :: "pyfloat \<Rightarrow> pyfloat" where
  "scale_percent x = (case x of
      Fin r \<Rightarrow> (case to_double (r * 255) of Fin s \<Rightarrow> to_double (s / 100) | y \<Rightarrow> y)
    | _ \<Rightarrow> x)"

text \<open>\<^verbatim>\<open>next((raw[key] for key in keys if key in raw), None)\<close>\<close>

fun first_present :: "dict \<Rightarrow> string list \<Rightarrow> pyval" where
  "first_present d [] = VNone"
| "first_present d (k # ks) = (if has_key d k then get d k else first_present d ks)"

definition brightness_property :: "pyval \<Rightarrow> pyval" where
  "brightness_property raw_brightness =
     (case raw_brightness of
        VDict d \<Rightarrow>
          (if normalize_brightness (get d ''percent'') 100 \<noteq> None
           then (case py_float (get d ''percent'') of Inl e \<Rightarrow> VNone
                 | Inr x \<Rightarrow> of_opt_int (normalize_brightness (VFloat (scale_percent x)) 255))
           else first_present d [''value'', ''level'', ''brightness''])
      | v \<Rightarrow> v)"

definition legacy_brightness :: "dict \<Rightarrow> int option py" where
  "legacy_brightness raw =
     (let props = py_or (get raw ''properties'') (VDict [])
      in case normalize_brightness (get raw ''value2'') 255 of
           Some n \<Rightarrow> Inr (normalize_brightness (VInt n) 255)
         | None \<Rightarrow> bindE (vget props ''brightness'' VNone) (\<lambda>rb.
             Inr (normalize_brightness (brightness_property rb) 255)))"

definition positive_int :: "pyval \<Rightarrow> int option" where
  "positive_int v = (case py_int v of Inl e \<Rightarrow> None | Inr n \<Rightarrow> if n > 0 then Some n else None)"

text \<open>A colour temperature that is reported in mired is converted to kelvin.\<close>

definition mired_or_kelvin :: "int \<Rightarrow> int" where
  "mired_or_kelvin n = (if 150 \<le> n \<and> n \<le> 400 then 1000000 div n else n)"

definition opt_int_field :: "string \<Rightarrow> int option \<Rightarrow> dict" where
  "opt_int_field k v = (case v of None \<Rightarrow> [] | Some n \<Rightarrow> [(k, VInt n)])"

definition opt_bool_field :: "string \<Rightarrow> bool option \<Rightarrow> dict" where
  "opt_bool_field k v = (case v of None \<Rightarrow> [] | Some b \<Rightarrow> [(k, VBool b)])"

text \<open>\<^verbatim>\<open>v.get(key) if isinstance(v, dict) else v\<close>\<close>

definition raw_or_nested :: "pyval \<Rightarrow> string \<Rightarrow> pyval" where
  "raw_or_nested v k = (case v of VDict d \<Rightarrow> get d k | _ \<Rightarrow> v)"

section \<open>Tunable lights by value\<close>

definition dim_color_temperature :: "dict \<Rightarrow> pyval \<Rightarrow> int option py" where
  "dim_color_temperature raw props =
     bindE
       (case positive_int (get raw ''value3'') of
          Some n \<Rightarrow> Inr (Some (mired_or_kelvin n))
        | None \<Rightarrow>
            bindE (vget props ''colortemp'' VNone) (\<lambda>ct.
            bindE (if ct = VNone then vget props ''colorTemp'' VNone else Inr ct) (\<lambda>ct.
              Inr (positive_int (raw_or_nested ct ''value'')))))
       (\<lambda>ct. Inr (map_option (\<lambda>n. min 6500 (max 2700 n)) ct))"

definition dim_color_state :: "dict \<Rightarrow> pyval \<Rightarrow> int option \<Rightarrow> bool option py" where
  "dim_color_state raw props brightness =
     (let value1 = raw_or_nested (get raw ''value1'') ''value''
      in if value1 \<noteq> VNone then
           catchE [TypeError, ValueError] (bindE (int_is 0 value1) (\<lambda>b. Inr (Some b))) None
         else bindE (vget props ''onoff'' (VDict [])) (\<lambda>onoff.
           case onoff_word onoff of
             Some w \<Rightarrow> Inr (Some (is_on_word w))
           | None \<Rightarrow> Inr (map_option (\<lambda>n. n > 0) brightness)))"

definition parse_dim_color_light :: "dict \<Rightarrow> dict \<Rightarrow> state_patch" where
  "parse_dim_color_light current raw =
     (let props = py_or (get raw ''properties'') (VDict [])
      in bindE (legacy_brightness raw) (\<lambda>brightness.
         bindE (dim_color_temperature raw props) (\<lambda>color_temp.
         bindE (dim_color_state raw props brightness) (\<lambda>state.
           Inr (opt_bool_field ''state'' state @ opt_int_field ''brightness'' brightness @
             opt_int_field ''color_temp'' color_temp)))))"

text \<open>The level goes into the updates, and a level of 0 also overrides the power.\<close>

definition add_level :: "int option \<Rightarrow> dict \<Rightarrow> dict" where
  "add_level brightness u = (case brightness of None \<Rightarrow> u
     | Some n \<Rightarrow>
         (let u = AList.update ''brightness'' (VInt n) u
          in if n = 0 then AList.update ''state'' (VBool False) u else u))"

definition value1_state :: "dict \<Rightarrow> dict py" where
  "value1_state raw =
     (if get raw ''value1'' \<noteq> VNone
      then bindE (int_is 0 (get raw ''value1'')) (\<lambda>b. Inr (state_patch_of b)) else Inr [])"

definition value_light_updates :: "dict \<Rightarrow> dict py" where
  "value_light_updates raw =
     bindE (legacy_brightness raw) (\<lambda>brightness.
     bindE (value1_state raw) (\<lambda>u. Inr (add_level brightness u)))"

definition parse_fast_move_dim_color_light :: "dict \<Rightarrow> dict \<Rightarrow> state_patch" where
  "parse_fast_move_dim_color_light current raw =
     bindE (value_light_updates raw) (\<lambda>u.
       Inr (case positive_int (get raw ''value3'') of None \<Rightarrow> u
         | Some n \<Rightarrow>
             if 150 \<le> n \<and> n \<le> 400
             then AList.update ''color_temp'' (VInt (min 6000 (max 2700 (1000000 div n)))) u
             else if n \<ge> 1000 then AList.update ''color_temp'' (VInt (min 6000 (max 2700 n))) u
             else u))"

definition parse_zigbee_dimmable_light :: "dict \<Rightarrow> dict \<Rightarrow> state_patch" where
  "parse_zigbee_dimmable_light current raw = value_light_updates raw"

section \<open>Property lights\<close>

definition property_brightness :: "pyval \<Rightarrow> pyval py" where
  "property_brightness props =
     bindE (vget props ''brightness'' (VDict [])) (\<lambda>b. Inr (raw_or_nested b ''percent''))"

definition dimmable_state :: "dict \<Rightarrow> dict \<Rightarrow> pyval \<Rightarrow> dict py" where
  "dimmable_state current raw onoff =
     (case onoff_word onoff of
        Some w \<Rightarrow> Inr (state_patch_of (is_on_word w))
      | None \<Rightarrow>
          if list_ex (py_eq (get raw ''value1'')) [VInt 0, VInt 1, VStr ''0'', VStr ''1'']
          then bindE (int_is 0 (get raw ''value1'')) (\<lambda>b. Inr (state_patch_of b))
          else if \<not> has_key current ''state'' then Inr (state_patch_of False)
          else Inr [])"

definition parse_dimmable_light :: "dict \<Rightarrow> dict \<Rightarrow> state_patch" where
  "parse_dimmable_light current raw =
     (let props = dget raw ''properties'' (VDict [])
      in bindE (vget props ''onoff'' (VDict [])) (\<lambda>onoff.
         bindE (dimmable_state current raw onoff) (\<lambda>u.
         bindE (property_brightness props) (\<lambda>pb.
           Inr (add_level (normalize_brightness pb 100) u)))))"

text \<open>One of the two retained values of a native dimmer.\<close>

definition raw_value_field :: "dict \<Rightarrow> string \<Rightarrow> dict \<Rightarrow> dict" where
  "raw_value_field raw field u =
     (let v = get raw field
      in if is_bool v \<or> v = VNone then u
         else case py_int v of Inl e \<Rightarrow> u
           | Inr n \<Rightarrow> if n \<ge> 0 then AList.update (''raw_'' @ field) (VInt n) u else u)"

definition parse_native_dimmer :: "dict \<Rightarrow> dict \<Rightarrow> dict \<Rightarrow> state_patch" where
  "parse_native_dimmer current raw device =
     (let props = py_or (get raw ''properties'') (VDict []);
          power_status = AList.update ''properties'' props raw;
          power_status = (if normalize_brightness (get raw ''value1'') 255 = None
            then AList.delete ''value1'' power_status else power_status);
          maximum = (if pp_dimmer_scale (profile_for device) = Some 120 then 120 else 255)
      in bindE (parse_light current power_status) (\<lambda>u.
         let u = raw_value_field raw ''value4'' (raw_value_field raw ''value3'' u)
         in case normalize_brightness (get raw ''value2'') maximum of
              Some n \<Rightarrow> Inr (AList.update ''brightness'' (VInt n) u)
            | None \<Rightarrow>
                bindE (property_brightness props) (\<lambda>pb.
                  Inr (case normalize_brightness pb 100 of None \<Rightarrow> u
                    | Some percent \<Rightarrow>
                        AList.update ''brightness'' (VInt (light_wire_brightness percent device)) u))))"

definition parse_cct_light :: "dict \<Rightarrow> dict \<Rightarrow> state_patch" where
  "parse_cct_light current raw =
     (let props = dget raw ''properties'' (VDict [])
      in bindE (parse_dimmable_light current raw) (\<lambda>u.
         bindE (vget props ''colorTemp'' (VDict [])) (\<lambda>ct.
           let color_temp = (case positive_int (raw_or_nested ct ''value'') of
                 Some n \<Rightarrow> Some n
               | None \<Rightarrow> map_option mired_or_kelvin (positive_int (get raw ''value3'')))
           in Inr (case color_temp of None \<Rightarrow> u
             | Some n \<Rightarrow> AList.update ''color_temp'' (VInt (min 6500 (max 2000 n))) u))))"

definition parse_switch :: "dict \<Rightarrow> dict \<Rightarrow> state_patch" where
  "parse_switch current raw =
     (let props = dget raw ''properties'' (VDict [])
      in bindE (vget props ''onoff'' (VDict [])) (\<lambda>onoff.
         case onoff_word onoff of
           Some w \<Rightarrow> Inr (state_patch_of (is_on_word w))
         | None \<Rightarrow>
             if get raw ''value1'' \<noteq> VNone then
               bindE (subdevice_type raw) (\<lambda>sub.
               bindE (int_is (if py_eq sub (VInt (- 2)) then 0 else 1) (get raw ''value1'')) (\<lambda>b.
                 Inr (state_patch_of b)))
             else Inr []))"

lemmas light_parser_defs = parse_light_def parse_dim_color_light_def parse_fast_move_dim_color_light_def
  parse_zigbee_dimmable_light_def parse_dimmable_light_def parse_native_dimmer_def parse_cct_light_def
  parse_switch_def

section \<open>What a light patch may contain\<close>

definition field_in :: "string \<Rightarrow> int \<Rightarrow> int \<Rightarrow> dict \<Rightarrow> bool" where
  "field_in k lo hi u \<longleftrightarrow> (case map_of u k of None \<Rightarrow> True
     | Some v \<Rightarrow> (\<exists>n. v = VInt n \<and> lo \<le> n \<and> n \<le> hi))"

definition bool_field :: "string \<Rightarrow> dict \<Rightarrow> bool" where
  "bool_field k u \<longleftrightarrow> (case map_of u k of None \<Rightarrow> True | Some v \<Rightarrow> is_bool v)"

definition light_patch :: "int \<Rightarrow> int \<Rightarrow> int \<Rightarrow> dict \<Rightarrow> bool" where
  "light_patch mx ct_lo ct_hi u \<longleftrightarrow>
     bool_field ''state'' u \<and> field_in ''brightness'' 0 mx u \<and> field_in ''color_temp'' ct_lo ct_hi u"

lemma field_simps [simp]:
  "field_in k lo hi []" "bool_field k []"
  "field_in k lo hi ((k', v) # u)
     = (if k' = k then \<exists>n. v = VInt n \<and> lo \<le> n \<and> n \<le> hi else field_in k lo hi u)"
  "bool_field k ((k', v) # u) = (if k' = k then is_bool v else bool_field k u)"
  "field_in k lo hi (AList.update k' v u)
     = (if k' = k then \<exists>n. v = VInt n \<and> lo \<le> n \<and> n \<le> hi else field_in k lo hi u)"
  "bool_field k (AList.update k' v u) = (if k' = k then is_bool v else bool_field k u)"
  by (auto simp: field_in_def bool_field_def dict_simps)

lemma light_patch_nil [simp]: "light_patch mx lo hi []"
  by (simp add: light_patch_def)

lemma light_patch_state [simp]: "light_patch mx lo hi (state_patch_of b)"
  by (simp add: light_patch_def state_patch_of_def)

lemma light_patch_update [simp]:
  "light_patch mx lo hi u \<Longrightarrow> light_patch mx lo hi (AList.update ''state'' (VBool b) u)"
  "light_patch mx lo hi u \<Longrightarrow> light_patch mx lo hi (AList.update ''brightness'' (VInt n) u) \<longleftrightarrow> 0 \<le> n \<and> n \<le> mx"
  "light_patch mx lo hi u \<Longrightarrow> light_patch mx lo hi (AList.update ''color_temp'' (VInt n) u) \<longleftrightarrow> lo \<le> n \<and> n \<le> hi"
  "light_patch mx lo hi u \<Longrightarrow> light_patch mx lo hi (AList.update (''raw_'' @ k) v u)"
  by (auto simp: light_patch_def)

definition level_ok :: "int \<Rightarrow> int option \<Rightarrow> bool" where
  "level_ok mx b \<longleftrightarrow> (case b of None \<Rightarrow> True | Some n \<Rightarrow> 0 \<le> n \<and> n \<le> mx)"

lemma level_ok_normalize [simp]: "0 \<le> mx \<Longrightarrow> level_ok mx (normalize_brightness v mx)"
  using normalize_brightness_bounds [of v mx] by (auto simp: level_ok_def split: option.splits)

lemma legacy_brightness_bounds [simp]: "ensures (legacy_brightness raw) (level_ok 255)"
  unfolding legacy_brightness_def Let_def
proof (rule ensures_optionI)
  show "ensures (bindE (vget (py_or (get raw ''properties'') (VDict [])) ''brightness'' VNone)
      (\<lambda>rb. Inr (normalize_brightness (brightness_property rb) 255))) (level_ok 255)"
    by (rule ensures_bind_any) simp
  show "ensures (Inr (normalize_brightness (VInt n) 255)) (level_ok 255)" for n
    using level_ok_normalize [of 255 "VInt n"] by (simp del: level_ok_normalize)
qed

lemma add_level_patch [simp]:
  "light_patch mx lo hi u \<Longrightarrow> level_ok mx b \<Longrightarrow> light_patch mx lo hi (add_level b u)"
  by (auto simp: add_level_def level_ok_def Let_def split: option.splits)

lemma value1_state_patch [simp]: "ensures (value1_state raw) (light_patch mx lo hi)"
  unfolding value1_state_def by (intro wp_intros; simp)

lemma dimmable_state_patch [simp]: "ensures (dimmable_state current raw onoff) (light_patch mx lo hi)"
  unfolding dimmable_state_def by (intro wp_intros; simp)

lemma value_light_updates_patch [simp]: "ensures (value_light_updates raw) (light_patch 255 lo hi)"
  unfolding value_light_updates_def
  by (rule ensures_bind [OF legacy_brightness_bounds], rule ensures_bind [OF value1_state_patch [where mx = 255 and lo = lo and hi = hi]]) simp

lemma parse_light_patch [simp]: "ensures (parse_light current raw) (light_patch mx lo hi)"
  unfolding parse_light_def Let_def
  by (intro ensures_bind_any wp_intros; simp)

lemma parse_dimmable_patch [simp]: "ensures (parse_dimmable_light current raw) (light_patch 100 lo hi)"
  unfolding parse_dimmable_light_def Let_def
  by (rule ensures_bind_any, rule ensures_bind [OF dimmable_state_patch [where mx = 100 and lo = lo and hi = hi]], rule ensures_bind_any) simp

lemma parse_switch_patch [simp]: "ensures (parse_switch current raw) (light_patch mx lo hi)"
  unfolding parse_switch_def Let_def
  by (intro ensures_bind_any wp_intros; simp)

lemma parse_cct_patch: "ensures (parse_cct_light current raw) (light_patch 100 2000 6500)"
  unfolding parse_cct_light_def Let_def
  by (rule ensures_bind [OF parse_dimmable_patch [where lo = 2000 and hi = 6500]], rule ensures_bind_any)
     (auto split: option.splits)

lemma parse_fast_move_patch: "ensures (parse_fast_move_dim_color_light current raw) (light_patch 255 2700 6000)"
  unfolding parse_fast_move_dim_color_light_def
  by (rule ensures_bind [OF value_light_updates_patch [where lo = 2700 and hi = 6000]]) (auto split: option.splits)

lemma parse_zigbee_patch: "ensures (parse_zigbee_dimmable_light current raw) (light_patch 255 lo hi)"
  by (simp add: parse_zigbee_dimmable_light_def)

lemma dim_color_temperature_bounds:
  "ensures (dim_color_temperature raw props) (\<lambda>ct. case ct of None \<Rightarrow> True | Some n \<Rightarrow> 2700 \<le> n \<and> n \<le> 6500)"
  unfolding dim_color_temperature_def by (rule ensures_bind_any) (auto split: option.splits)

lemma parse_dim_color_patch: "ensures (parse_dim_color_light current raw) (light_patch 255 2700 6500)"
  unfolding parse_dim_color_light_def Let_def
  by (rule ensures_bind [OF legacy_brightness_bounds], rule ensures_bind [OF dim_color_temperature_bounds],
      rule ensures_bind_any)
     (auto simp: light_patch_def opt_bool_field_def opt_int_field_def level_ok_def split: option.splits)

lemma raw_value_field_patch [simp]:
  "light_patch mx lo hi u \<Longrightarrow> light_patch mx lo hi (raw_value_field raw k u)"
  by (auto simp: raw_value_field_def Let_def light_patch_def split: sum.splits)

lemma parse_native_dimmer_patch:
  assumes "mx = (if pp_dimmer_scale (profile_for device) = Some 120 then 120 else 255)"
    and "pp_dimmer_scale (profile_for device) \<noteq> None"
  shows "ensures (parse_native_dimmer current raw device) (light_patch mx lo hi)"
proof -
  have level: "0 \<le> light_wire_brightness p device \<and> light_wire_brightness p device \<le> mx" for p
    using light_wire_brightness_bounds [of p device] light_wire_brightness_116 [of device p] assms by auto
  have mx: "level_ok mx (normalize_brightness v mx)" for v using assms(1) by simp
  show ?thesis
    unfolding parse_native_dimmer_def Let_def assms(1) [symmetric]
    using mx [of "get raw ''value2''"] level
    by (intro ensures_bind [OF parse_light_patch [where mx = mx and lo = lo and hi = hi]] wp_intros ensures_bind_any)
       (auto simp: level_ok_def split: option.splits)
qed

section \<open>Properties\<close>

text \<open>Whatever a packet contains, a light parser that returns produces a well-typed patch: \<^verbatim>\<open>state\<close> is
  a bool, \<^verbatim>\<open>brightness\<close> an int on the scale of the device (0..255, 0..100 for property lights, the
  native scale for native dimmers) and \<^verbatim>\<open>color_temp\<close> an int in the range of the device, in kelvin.\<close>

lemma light_patches_in_range:
  "ensures (parse_dim_color_light current raw) (light_patch 255 2700 6500)
   \<and> ensures (parse_fast_move_dim_color_light current raw) (light_patch 255 2700 6000)
   \<and> ensures (parse_zigbee_dimmable_light current raw) (light_patch 255 lo hi)
   \<and> ensures (parse_dimmable_light current raw) (light_patch 100 lo hi)
   \<and> ensures (parse_cct_light current raw) (light_patch 100 2000 6500)
   \<and> ensures (parse_light current raw) (light_patch mx lo hi)
   \<and> ensures (parse_switch current raw) (light_patch mx lo hi)
   \<and> (case pp_dimmer_scale (profile_for device) of None \<Rightarrow> True
      | Some scale \<Rightarrow> ensures (parse_native_dimmer current raw device)
          (light_patch (if scale = 120 then 120 else 255) lo hi))"
  using parse_native_dimmer_patch [OF refl, of device current raw lo hi]
  by (auto simp: parse_dim_color_patch parse_fast_move_patch parse_zigbee_patch parse_cct_patch
      split: option.splits)

text \<open>The parser reads back what the integration sends: the level a native dimmer is sent for a
  percentage, reported by the device in either form, as \<^verbatim>\<open>value2\<close> or as a percentage property, gives
  the same stored brightness, and the power it reports in \<^verbatim>\<open>value1\<close> is active low.\<close>

lemma native_dimmer_reports_agree:
  assumes "0 \<le> p" "p \<le> 100" "pp_dimmer_scale (profile_for device) \<noteq> None"
  shows "\<exists>u v. parse_native_dimmer st [(''value1'', VInt (if on then 0 else 1)),
        (''value2'', VInt (light_wire_brightness p device))] device = Inr u
    \<and> parse_native_dimmer st [(''value1'', VInt (if on then 0 else 1)),
        (''properties'', VDict [(''brightness'', VDict [(''percent'', VInt p)])])] device = Inr v
    \<and> get u ''brightness'' = VInt (light_wire_brightness p device)
    \<and> get v ''brightness'' = VInt (light_wire_brightness p device)
    \<and> get u ''state'' = VBool on \<and> get v ''state'' = VBool on"
proof -
  have w: "0 \<le> light_wire_brightness p device" "light_wire_brightness p device \<le> 255"
    "pp_dimmer_scale (profile_for device) = Some 120 \<Longrightarrow> light_wire_brightness p device \<le> 120"
    using light_wire_brightness_bounds [of p device] light_wire_brightness_116 [of device p] by auto
  have nb: "normalize_brightness (VInt n) m = (if n < 0 then None else Some (min n m))"
    if "0 \<le> n" "n \<le> 255" for n m
    by (rule normalize_brightness_int) (use that in simp)
  have none: "normalize_brightness VNone m = None" for m by simp
  show ?thesis
    using assms w
    by (simp add: parse_native_dimmer_def Let_def nb none parse_light_def onoff_word_def int_is_def
        state_patch_of_def raw_value_field_def py_or_def property_brightness_def raw_or_nested_def
        del: normalize_brightness.simps normalize_brightness_int)
qed

end
