(* ===== verification/Device_Parsers.thy ===== *)
theory Device_Parsers
  imports Light_Parsers Control_Router Py_Text
begin

unbundle bit_operations_syntax

text \<open>
  \<^verbatim>\<open>parsers/cover.py\<close>, \<^verbatim>\<open>parsers/sensor.py\<close>, \<^verbatim>\<open>parsers/thermostat.py\<close> and \<^verbatim>\<open>parsers/appliance.py\<close>: the
  pure parsers of curtains, environmental and safety sensors, floor heating, air conditioning,
  ventilation and the clothes horse.
\<close>

section \<open>Curtains\<close>

definition curtain_position :: "dict \<Rightarrow> int option py" where
  "curtain_position raw =
     (let props = dget raw ''properties'' (VDict [])
      in bindE (if get raw ''value1'' = VNone then vget props ''percent'' VNone else Inr (get raw ''value1'')) (\<lambda>v.
         if v = VNone then Inr None
         else catchE [TypeError, ValueError] (bindE (py_int v) (\<lambda>n. Inr (Some n))) None))"

definition parse_curtain :: "dict \<Rightarrow> dict \<Rightarrow> state_patch" where
  "parse_curtain current raw =
     bindE (curtain_position raw) (\<lambda>position.
       let state = (if position = Some 100 then VBool True
            else if position = Some 0 \<or> position = None then VBool False
            else dget current ''state'' (VBool False))
       in Inr [(''position'', of_opt_int position), (''state'', state)])"

definition int_clamped :: "int \<Rightarrow> int \<Rightarrow> pyval \<Rightarrow> int py" where
  "int_clamped lo hi v = bindE (py_int v) (\<lambda>n. Inr (max lo (min hi n)))"

definition parse_dream_curtain :: "(pyval \<Rightarrow> string) \<Rightarrow> dict \<Rightarrow> dict \<Rightarrow> state_patch" where
  "parse_dream_curtain repr current raw =
     (let props = dget raw ''properties'' (VDict []);
          curtain = (case props of VDict d \<Rightarrow> dget d ''curtain'' (VDict []) | _ \<Rightarrow> VDict [])
      in case curtain of
           VDict c \<Rightarrow>
             bindE (if has_key c ''percent'' then
                 bindE (int_clamped 0 100 (get c ''percent'')) (\<lambda>p.
                   Inr [(''position'', VInt p), (''state'', VBool (p > 0))])
               else Inr []) (\<lambda>u.
             bindE (if has_key c ''angle'' then
                 bindE (int_clamped 0 180 (get c ''angle'')) (\<lambda>a. Inr (u @ [(''angle'', VInt a)]))
               else Inr u) (\<lambda>u.
               Inr (if has_key c ''action'' then u @ [(''cover_action'', VStr (py_str repr (get c ''action'')))]
                 else u)))
         | _ \<Rightarrow> Inr [])"

section \<open>Sensors\<close>

definition battery_value :: "pyval \<Rightarrow> pyval py" where
  "battery_value v0 =
     (let v = (case v0 of VDict d \<Rightarrow> py_or (get d ''power'') (get d ''value'') | _ \<Rightarrow> v0)
      in if v = VNone then Inr VNone
         else catchE [TypeError, ValueError]
           (bindE (py_float v) (\<lambda>x. bindE (py_int (VFloat x)) (\<lambda>n. Inr (VInt n)))) v)"

definition integer_or_raw :: "pyval \<Rightarrow> pyval py" where
  "integer_or_raw v = catchE [TypeError, ValueError] (bindE (py_int v) (\<lambda>n. Inr (VInt n))) v"

definition float_or_raw :: "pyval \<Rightarrow> pyval py" where
  "float_or_raw v = catchE [TypeError, ValueError] (bindE (py_float v) (\<lambda>x. Inr (VFloat x))) v"

definition optional_field :: "string \<Rightarrow> pyval \<Rightarrow> (pyval \<Rightarrow> pyval py) \<Rightarrow> dict \<Rightarrow> dict py" where
  "optional_field k v read u =
     (if v = VNone then Inr u else bindE (read v) (\<lambda>w. Inr (AList.update k w u)))"

definition parse_temp_humidity_sensor :: "dict \<Rightarrow> dict \<Rightarrow> state_patch" where
  "parse_temp_humidity_sensor current raw =
     (let props = dget raw ''properties'' (VDict [])
      in bindE (vget props ''temperature'' (VDict [])) (\<lambda>t.
         bindE (optional_field ''temperature'' (raw_or_nested t ''value'') float_or_raw (state_patch_of True)) (\<lambda>u.
         bindE (vget props ''humidity'' (VDict [])) (\<lambda>h.
         bindE (optional_field ''humidity'' (raw_or_nested h ''value'') float_or_raw u) (\<lambda>u.
         bindE (vget props ''battery'' (VDict [])) (\<lambda>b.
         bindE (battery_value b) (\<lambda>b.
           Inr (if b = VNone then u else AList.update ''battery'' b u))))))))"

text \<open>\<^verbatim>\<open>int(v) == 1\<close>, and \<^verbatim>\<open>False\<close> for what cannot be converted.\<close>

definition is_one :: "pyval \<Rightarrow> pyval py" where
  "is_one v = bindE (catchE [TypeError, ValueError] (int_is 1 v) False) (\<lambda>b. Inr (VBool b))"

text \<open>An alarm bit in one field of the packet and the battery in \<^verbatim>\<open>value4\<close>.\<close>

definition alarm_and_battery :: "dict \<Rightarrow> string \<Rightarrow> string \<Rightarrow> dict \<Rightarrow> dict py" where
  "alarm_and_battery raw value_field alarm_field u =
     bindE (optional_field alarm_field (get raw value_field) is_one u)
       (optional_field ''battery'' (get raw ''value4'') integer_or_raw)"

definition parse_door_window_sensor :: "dict \<Rightarrow> dict \<Rightarrow> state_patch" where
  "parse_door_window_sensor current raw =
     alarm_and_battery raw ''value1'' ''door_state'' (state_patch_of True)"

definition parse_motion_sensor :: "dict \<Rightarrow> dict \<Rightarrow> state_patch" where
  "parse_motion_sensor current raw =
     alarm_and_battery raw ''value3'' ''motion_detected'' (state_patch_of True)"

definition parse_emergency_button :: "dict \<Rightarrow> dict \<Rightarrow> state_patch" where
  "parse_emergency_button current raw = alarm_and_battery raw ''value1'' ''emergency_state'' []"

definition parse_alarm_sensor :: "dict \<Rightarrow> string \<Rightarrow> state_patch" where
  "parse_alarm_sensor raw alarm_field = alarm_and_battery raw ''value1'' alarm_field (state_patch_of True)"

definition parse_smoke_sensor :: "dict \<Rightarrow> dict \<Rightarrow> state_patch" where
  "parse_smoke_sensor current raw = parse_alarm_sensor raw ''smoke_detected''"

definition parse_water_leak_sensor :: "dict \<Rightarrow> dict \<Rightarrow> state_patch" where
  "parse_water_leak_sensor current raw = parse_alarm_sensor raw ''water_leak_detected''"

definition parse_gas_sensor :: "dict \<Rightarrow> dict \<Rightarrow> state_patch" where
  "parse_gas_sensor current raw = parse_alarm_sensor raw ''gas_detected''"

section \<open>Floor heating\<close>

fun copy_fields :: "(string \<times> string) list \<Rightarrow> dict \<Rightarrow> dict \<Rightarrow> dict" where
  "copy_fields [] src u = u"
| "copy_fields ((raw_key, state_key) # fs) src u =
     copy_fields fs src (if has_key src raw_key then AList.update state_key (get src raw_key) u else u)"

definition floor_heating_fields :: "(string \<times> string) list" where
  "floor_heating_fields =
     [(''targetTemp'', ''target_temperature''), (''localTemp'', ''current_temperature''),
      (''localHumidity'', ''current_humidity''), (''minHeatingTemp'', ''min_temperature''),
      (''maxHeatingTemp'', ''max_temperature''), (''runMode'', ''run_mode'')]"

definition parse_floor_heating :: "dict \<Rightarrow> dict \<Rightarrow> state_patch" where
  "parse_floor_heating current raw =
     (let props = dget raw ''properties'' (VDict [])
      in bindE (vget props ''onoff'' (VDict [])) (\<lambda>onoff.
         bindE (vget props ''thermostat'' (VDict [])) (\<lambda>thermostat.
         bindE (vget props ''combinedDevice'' (VDict [])) (\<lambda>combined.
           let u = (case onoff of
                 VDict d \<Rightarrow> if get d ''status'' \<in> {VStr ''on'', VStr ''off''}
                   then state_patch_of (is_on_word (get d ''status'')) else []
               | _ \<Rightarrow> []);
               u = (case thermostat of VDict d \<Rightarrow> copy_fields floor_heating_fields d u | _ \<Rightarrow> u)
           in Inr (case combined of
                 VDict d \<Rightarrow> copy_fields [(''runStatus'', ''run_status''), (''combinedStatus'', ''combined_status'')] d u
               | _ \<Rightarrow> u)))))"

definition legacy_floor_properties :: "pyval \<Rightarrow> dict \<Rightarrow> dict" where
  "legacy_floor_properties props u =
     (case props of
        VDict p \<Rightarrow>
          (let u = (if get p ''onoff'' \<in> {VStr ''on'', VStr ''off''}
                 then AList.update ''state'' (VBool (is_on_word (get p ''onoff''))) u else u);
               u = (if is_number (get p ''localTemperature'')
                 then AList.update ''current_temperature'' (get p ''localTemperature'') u else u)
           in if is_number (get p ''temperature'')
              then AList.update ''target_temperature'' (get p ''temperature'') u else u)
      | _ \<Rightarrow> u)"

text \<open>The packed temperatures: the local one in bits 8..15, the target above 10 degrees in bits 0..7.\<close>

definition unpack_temperatures :: "int \<Rightarrow> dict \<Rightarrow> dict" where
  "unpack_temperatures value2 u =
     (let local = drop_bit 8 value2 AND 255; offset = value2 AND 255;
          u = AList.update ''raw_value2'' (VInt value2) u;
          u = (if 0 \<le> local \<and> local \<le> 60 then AList.update ''current_temperature'' (VInt local) u else u)
      in if 0 \<le> offset \<and> offset \<le> 25 then AList.update ''target_temperature'' (VInt (offset + 10)) u else u)"

definition parse_legacy_floor_heating :: "dict \<Rightarrow> dict \<Rightarrow> state_patch" where
  "parse_legacy_floor_heating current raw =
     (let u = [(''min_temperature'', VInt 10), (''max_temperature'', VInt 35)];
          u = legacy_floor_properties (dget raw ''properties'' (VDict [])) u
      in bindE (if is_number (get raw ''value1'') then
             bindE (py_int (get raw ''value1'')) (\<lambda>n.
               Inr (AList.update ''state'' (VBool (n AND 8 \<noteq> 0)) (AList.update ''raw_value1'' (VInt n) u)))
           else Inr u) (\<lambda>u.
         if is_number (get raw ''value2'') then
           bindE (py_int (get raw ''value2'')) (\<lambda>n. Inr (unpack_temperatures n u))
         else Inr u))"

section \<open>Air conditioning, ventilation, clothes horse\<close>

definition named_code :: "(int \<times> string) list \<Rightarrow> int \<Rightarrow> string" where
  "named_code names n = (case map_of names n of Some s \<Rightarrow> s | None \<Rightarrow> ''unknown('' @ dec n @ '')'')"

text \<open>\<^verbatim>\<open>n / 100.0\<close>: the int is converted to a double, then divided.\<close>

definition hundredths :: "int \<Rightarrow> pyval py" where
  "hundredths n = bindE (float_of_int n) (\<lambda>x. Inr (VFloat (case x of Fin r \<Rightarrow> to_double (r / 100) | _ \<Rightarrow> x)))"

definition with_int_field :: "dict \<Rightarrow> string \<Rightarrow> (int \<Rightarrow> dict py) \<Rightarrow> dict \<Rightarrow> dict py" where
  "with_int_field raw k f u =
     (if get raw k = VNone then Inr u
      else bindE (py_int (get raw k)) (\<lambda>n. bindE (f n) (\<lambda>e. Inr (dict_merge u e))))"

definition parse_fan_coil_ac :: "dict \<Rightarrow> dict \<Rightarrow> state_patch" where
  "parse_fan_coil_ac current raw =
     bindE (with_int_field raw ''value1'' (\<lambda>n. Inr [(''state'', VBool (n = 0)), (''value1'', VInt n)]) []) (\<lambda>u.
     bindE (with_int_field raw ''value2'' (\<lambda>n. Inr
       [(''ac_mode'', VStr (named_code [(2, ''dehumidify''), (3, ''cool''), (4, ''heat''), (7, ''fan_only'')] n)),
        (''ac_mode_raw'', VInt n), (''value2'', VInt n)]) u) (\<lambda>u.
     bindE (with_int_field raw ''value3'' (\<lambda>n. Inr
       [(''fan_speed'', VStr (named_code [(1, ''low''), (2, ''medium''), (3, ''high'')] n)),
        (''fan_speed_raw'', VInt n), (''value3'', VInt n)]) u)
     (with_int_field raw ''value4'' (\<lambda>n.
       bindE (hundredths (drop_bit 16 n)) (\<lambda>target.
       bindE (hundredths (n AND 65535)) (\<lambda>cur.
         Inr [(''value4'', VInt n), (''temperature'', target), (''target_temperature'', target),
           (''current_temperature'', cur)]))))))"

definition ventilation_value_state :: "int \<Rightarrow> dict" where
  "ventilation_value_state n =
     (if n = 0 then [(''fan_speed'', VStr SPEED_SLOW), (''state'', VBool True)]
      else if n = 50 then [(''fan_speed'', VStr SPEED_STOP), (''state'', VBool False)]
      else if n = 100 then [(''fan_speed'', VStr SPEED_FAST), (''state'', VBool True)]
      else [])"

text \<open>A list or a dictionary is not hashable: \<^verbatim>\<open>{...}.get(v, v)\<close> raises.\<close>

definition fan_mode_speed :: "pyval \<Rightarrow> pyval py" where
  "fan_mode_speed v =
     (case v of
        VList xs \<Rightarrow> Inl TypeError
      | VDict d \<Rightarrow> Inl TypeError
      | VStr s \<Rightarrow> Inr (case map_of [(''off'', SPEED_STOP), (''low'', SPEED_SLOW), (''high'', SPEED_FAST)] s of
            None \<Rightarrow> v | Some t \<Rightarrow> VStr t)
      | _ \<Rightarrow> Inr v)"

definition parse_ventilation :: "dict \<Rightarrow> dict \<Rightarrow> state_patch" where
  "parse_ventilation current raw =
     (let group = (\<lambda>k. case dget raw ''properties'' (VDict []) of
            VDict p \<Rightarrow> dget p k (VDict []) | _ \<Rightarrow> VDict [])
      in bindE (if get raw ''value1'' \<noteq> VNone then
             bindE (py_int (get raw ''value1'')) (\<lambda>n. Inr (ventilation_value_state n @ [(''value1'', VInt n)]))
           else Inr []) (\<lambda>u.
         bindE (case group ''fanControl'' of
             VDict d \<Rightarrow>
               (let fan_mode = get d ''fanMode''
                in if truthy fan_mode then
                     bindE (fan_mode_speed fan_mode) (\<lambda>speed.
                       Inr (AList.update ''state'' (VBool (fan_mode \<noteq> VStr ''off''))
                         (AList.update ''fan_speed'' speed u)))
                   else Inr u)
           | _ \<Rightarrow> Inr u) (\<lambda>u.
         case group ''temperature'' of
           VDict d \<Rightarrow>
             (if get d ''value'' \<noteq> VNone then
                catchE [TypeError, ValueError]
                  (bindE (py_float (get d ''value'')) (\<lambda>x. Inr (AList.update ''temperature'' (VFloat x) u))) u
              else Inr u)
         | _ \<Rightarrow> Inr u)))"

fun copy_switches :: "string list \<Rightarrow> dict \<Rightarrow> dict \<Rightarrow> dict" where
  "copy_switches [] raw u = u"
| "copy_switches (k # ks) raw u =
     copy_switches ks raw (if has_key raw k then AList.update k (VBool (is_on_word (get raw k))) u else u)"

definition parse_clothes_horse :: "dict \<Rightarrow> dict \<Rightarrow> state_patch" where
  "parse_clothes_horse current raw =
     (let u = copy_fields [(''motor_state'', ''motor_state''), (''motor_position'', ''position'')] raw [];
          u = copy_switches [''lighting_state'', ''heat_drying_state'', ''wind_drying_state'',
                ''sterilizing_state'', ''main_switch_state''] raw u
      in Inr (if has_key u ''main_switch_state''
              then AList.update ''state'' (get u ''main_switch_state'') u else u))"

section \<open>Facts\<close>

lemma and_255: "(n :: int) AND 255 = n mod 256"
  using take_bit_eq_mask [of 8 n] by (simp add: take_bit_eq_mod mask_eq_exp_minus_1)

lemma and_65535: "(n :: int) AND 65535 = n mod 65536"
  using take_bit_eq_mask [of 16 n] by (simp add: take_bit_eq_mod mask_eq_exp_minus_1)

lemma pack_or: "0 \<le> t \<Longrightarrow> t < 256 \<Longrightarrow> push_bit 8 l OR t = l * 256 + (t :: int)"
proof -
  assume t: "0 \<le> t" "t < 256"
  have "push_bit 8 l AND t = 0"
  proof (rule bit_eqI)
    fix n
    have "\<not> bit t n" if "8 \<le> n"
    proof -
      have "take_bit 8 t = t" using t by (simp add: take_bit_eq_mod)
      then have "bit t n \<longleftrightarrow> bit (take_bit 8 t) n" by simp
      then show ?thesis using that by (simp add: bit_take_bit_iff)
    qed
    then show "bit (push_bit 8 l AND t) n \<longleftrightarrow> bit (0::int) n"
      by (auto simp: bit_and_iff bit_push_bit_iff)
  qed
  then have "push_bit 8 l OR t = push_bit 8 l + t" using plus_and_or [of "push_bit 8 l" t] by simp
  then show ?thesis by (simp add: push_bit_eq_mult)
qed

lemma unpack_packed:
  assumes "0 \<le> l" "l \<le> 60" "0 \<le> off" "off \<le> 25"
  shows "get (unpack_temperatures (push_bit 8 l OR off) u) ''target_temperature'' = VInt (off + 10)"
    and "get (unpack_temperatures (push_bit 8 l OR off) u) ''current_temperature'' = VInt l"
proof -
  have o: "(push_bit 8 l OR off) AND 255 = off"
    using assms by (simp add: and_255 pack_or)
  have l: "drop_bit 8 (push_bit 8 l OR off) AND 255 = l"
    using assms by (simp add: and_255 pack_or drop_bit_eq_div)
  show "get (unpack_temperatures (push_bit 8 l OR off) u) ''target_temperature'' = VInt (off + 10)"
    "get (unpack_temperatures (push_bit 8 l OR off) u) ''current_temperature'' = VInt l"
    unfolding unpack_temperatures_def o l Let_def using assms by simp_all
qed

lemma parse_legacy_value2:
  "parse_legacy_floor_heating st [(''value2'', VInt n)]
     = Inr (unpack_temperatures n [(''min_temperature'', VInt 10), (''max_temperature'', VInt 35)])"
  by (simp add: parse_legacy_floor_heating_def legacy_floor_properties_def)

lemma to_double_int: "0 \<le> m \<Longrightarrow> m < 2 ^ 53 \<Longrightarrow> to_double (of_int m) = Fin (of_int m)"
  using to_double_dyadic [of "of_int m" m 0] by (cases "m = 0") (simp_all add: to_double_def)

lemma to_double_half: "0 \<le> m \<Longrightarrow> m < 2 ^ 53 \<Longrightarrow> to_double (of_int m / 2) = Fin (of_int m / 2)"
  using to_double_dyadic [of "of_int m / 2" m "- 1"] by (cases "m = 0") (simp_all add: to_double_def)

lemma hundredths_of_half_degrees:
  assumes "0 \<le> k" "k \<le> 2000"
  shows "hundredths (50 * k) = Inr (VFloat (Fin (of_int k / 2)))"
  using assms to_double_half [of k] by (simp add: hundredths_def)

section \<open>Properties\<close>

text \<open>An alarm sensor reports its alarm exactly when the packet carries the number 1 in \<^verbatim>\<open>value1\<close>, clears
  it on every other value it can or cannot convert, and leaves the stored alarm untouched when the
  packet does not mention it.\<close>

lemma alarm_sensor_reports:
  assumes "alarm_field \<notin> {''state'', ''battery''}"
  shows "ensures (parse_alarm_sensor raw alarm_field) (\<lambda>u.
      map_of u alarm_field =
        (if get raw ''value1'' = VNone then None
         else Some (VBool (py_int (get raw ''value1'') = Inr 1))))"
proof -
  have one: "ensures (is_one v) (\<lambda>w. w = VBool (py_int v = Inr 1))" for v
    by (cases "py_int v") (auto simp: is_one_def int_is_def ensures_def)
  have batt: "ensures (optional_field ''battery'' v integer_or_raw u) (\<lambda>u'. map_of u' alarm_field = map_of u alarm_field)"
    for v u using assms by (auto simp: optional_field_def ensures_def)
  show ?thesis
    unfolding parse_alarm_sensor_def alarm_and_battery_def
  proof (rule ensures_bind)
    show "ensures (optional_field alarm_field (get raw ''value1'') is_one (state_patch_of True)) (\<lambda>u.
        map_of u alarm_field = (if get raw ''value1'' = VNone then None
          else Some (VBool (py_int (get raw ''value1'') = Inr 1))))"
      using one [of "get raw ''value1''"] assms
      by (auto simp: optional_field_def state_patch_of_def elim: ensures_mono)
  qed (rule ensures_mono [OF batt], simp)
qed

text \<open>The legacy floor heating's temperature protocol round-trips: the target the adapter sends for a
  temperature from 10 to 35 degrees (the value above 10), packed by the device with its local
  temperature and reported, is parsed back as that target and that local temperature.\<close>

lemma floor_temperature_roundtrip:
  assumes "10 \<le> t" "t \<le> 35" "0 \<le> local" "local \<le> 60"
  shows "\<exists>u. parse_legacy_floor_heating st [(''value2'', VInt (push_bit 8 local OR (t - 10)))] = Inr u
    \<and> get u ''target_temperature'' = VInt t \<and> get u ''current_temperature'' = VInt local"
  using assms unpack_packed [of local "t - 10"] by (simp add: parse_legacy_value2)

text \<open>The fallback packing of the power route does not follow that protocol: without a stored
  \<^verbatim>\<open>raw_value2\<close> it packs the target itself instead of the target above 10, so a device that keeps
  the state it is switched off with reports a target 10 degrees higher than the stored one.\<close>

lemma power_route_repack_shifts_target:
  assumes "10 \<le> t" "t \<le> 25" "0 < local" "local \<le> 60"
  shows "\<exists>r p u. power_route LEGACY_FLOOR_HEATING False
        [(''current_temperature'', VInt local), (''target_temperature'', VInt t)] None None None = Inr r
    \<and> rt_kwargs r = [(''packed_state'', VInt p)]
    \<and> parse_legacy_floor_heating st [(''value2'', VInt p)] = Inr u
    \<and> get u ''target_temperature'' = VInt (t + 10) \<and> get u ''current_temperature'' = VInt local"
  using assms unpack_packed [of local t]
  by (simp add: power_route_def has_dimmer_scale_def py_or_def parse_legacy_value2)

text \<open>The air conditioner's setpoint survives its fixed-point encoding: a setpoint in half degrees,
  encoded for a control and reported back in \<^verbatim>\<open>value4\<close> with any current temperature in the low half,
  is parsed as exactly that setpoint, in the code's double arithmetic.\<close>

lemma ac_setpoint_roundtrip:
  assumes "0 \<le> k" "k \<le> 2000" "0 \<le> low" "low < 65536"
  shows "\<exists>n u. ac_temperature_encode (Fin (of_int k / 2)) = Inr n
    \<and> parse_fan_coil_ac st [(''value4'', VInt (n + low))] = Inr u
    \<and> get u ''target_temperature'' = VFloat (Fin (of_int k / 2))"
proof -
  have "to_double (of_int k / 2 * 100) = Fin (of_int (50 * k))"
    using to_double_int [of "50 * k"] assms(1,2) by simp
  then have enc: "ac_temperature_encode (Fin (of_int k / 2)) = Inr (push_bit 16 (50 * k))"
    using rat_trunc_of_int [of "50 * k"] by (simp add: ac_temperature_encode_def del: of_int_mult rat_trunc_of_int)
  have hi: "drop_bit 16 (push_bit 16 (50 * k) + low) = 50 * k"
    using assms(3,4) by (simp add: drop_bit_eq_div push_bit_eq_mult)
  have "\<exists>cur. hundredths ((push_bit 16 (50 * k) + low) AND 65535) = Inr cur"
    by (simp add: hundredths_def and_65535)
  then obtain cur where cur: "hundredths ((push_bit 16 (50 * k) + low) AND 65535) = Inr cur" ..
  show ?thesis
    by (rule exI [where x = "push_bit 16 (50 * k)"])
       (simp add: enc parse_fan_coil_ac_def with_int_field_def hi cur hundredths_of_half_degrees [OF assms(1,2)])
qed

end
