(* ===== verification/Lock_Status.thy ===== *)
theory Lock_Status
  imports Light_Parsers Py_Text
begin

text \<open>
  \<^verbatim>\<open>lock_status.py\<close> and \<^verbatim>\<open>parsers/lock.py\<close>: the normalization of the two observed forms of lock
  properties, of battery managers, of lock events and push messages, the attribution of a door
  opening, the derived lock status and the door-lock parser.

  \<open>repr\<close> is the text of floats, lists and dictionaries (see \<open>py_str\<close>); \<open>loads\<close> is \<^verbatim>\<open>json.loads\<close>, with
  \<open>None\<close> for its \<^verbatim>\<open>ValueError\<close>. The Chinese labels are the UTF-8 bytes of the source's literals.
\<close>

section \<open>Values\<close>

definition TRUE_WORDS :: "string list" where
  "TRUE_WORDS = [''on'', ''open'', ''locked'', ''up'', ''1'', ''true'']"

definition FALSE_WORDS :: "string list" where
  "FALSE_WORDS = [''off'', ''closed'', ''unlocked'', ''down'', ''0'', ''false'']"

fun normalize_state :: "pyval \<Rightarrow> bool option" where
  "normalize_state (VBool b) = Some b"
| "normalize_state (VInt n) = (if n = 0 then Some False else if n = 1 then Some True else None)"
| "normalize_state (VStr s) =
     (let normalized = py_lower (py_strip s)
      in if normalized \<in> set TRUE_WORDS then Some True
         else if normalized \<in> set FALSE_WORDS then Some False else None)"
| "normalize_state _ = None"

fun mapping_of :: "pyval \<Rightarrow> dict" where
  "mapping_of (VDict d) = d"
| "mapping_of _ = []"

text \<open>A group of properties: the nested dictionary, overridden by the flat keys \<^verbatim>\<open>group_name\<close>.\<close>

definition property_group :: "dict \<Rightarrow> string \<Rightarrow> dict" where
  "property_group props grp =
     (let prefix = grp @ ''_''
      in dict_merge (mapping_of (get props grp))
           (map (\<lambda>(k, v). (drop (length prefix) k, v)) (filter (\<lambda>(k, v). starts_with prefix k) props)))"

fun normalize_battery_level :: "pyval \<Rightarrow> int option" where
  "normalize_battery_level (VBool b) = None"
| "normalize_battery_level VNone = None"
| "normalize_battery_level (VList xs) = None"
| "normalize_battery_level (VDict d) = None"
| "normalize_battery_level v =
     (case py_float v of
        Inr (Fin r) \<Rightarrow> if of_int \<lfloor>r\<rfloor> = r \<and> 0 \<le> r \<and> r \<le> 100 then Some \<lfloor>r\<rfloor> else None
      | _ \<Rightarrow> None)"

definition UNLOCK_METHODS :: "(string \<times> string) list" where
  "UNLOCK_METHODS =
     [(''fingerprint'', ''fingerprint''), (''password'', ''password''), (''card'', ''card''),
      (''key'', ''key''), (''face'', ''face''), (''temporary_password'', ''temporary_password''),
      (''temp password'', ''temporary_password''), (''temp_password'', ''temporary_password''),
      (''temppassword'', ''temporary_password''), (''emergency fingerprint'', ''fingerprint''),
      (''emergency password'', ''password''), (''emergency card'', ''card'')]"

definition normalize_unlock_method :: "pyval \<Rightarrow> string option" where
  "normalize_unlock_method v = (case v of
      VStr s \<Rightarrow> map_of UNLOCK_METHODS (py_lower (py_strip s)) | _ \<Rightarrow> None)"

definition OUTSIDE_METHODS :: "string list" where
  "OUTSIDE_METHODS = [''fingerprint'', ''password'', ''card'', ''key'', ''temporary_password'']"

definition unlock_direction :: "string option \<Rightarrow> string" where
  "unlock_direction method = (case method of
      Some m \<Rightarrow> if m \<in> set OUTSIDE_METHODS then ''outside'' else ''inside'' | None \<Rightarrow> ''inside'')"

section \<open>Lock and battery properties\<close>

record lock_properties =
  lp_locked :: "bool option"
  lp_door_open :: "bool option"
  lp_inside_locked :: "bool option"
  lp_child_locked :: "bool option"
  lp_leave_home_armed :: "bool option"
  lp_raw_door_lock :: "dict option"
  lp_raw_flat :: dict

definition override :: "bool option \<Rightarrow> bool option \<Rightarrow> bool option" where
  "override new old = (case new of None \<Rightarrow> old | Some b \<Rightarrow> Some b)"

definition FLAT_LOCK_KEYS :: "string list" where
  "FLAT_LOCK_KEYS = [''door_status'', ''reverse_lock'', ''handle'', ''clild_lock'', ''lock_state'',
     ''lockStatus'', ''leaveHomeAlarmCfg'']"

text \<open>The nested form inverts \<^verbatim>\<open>lockState\<close> and \<^verbatim>\<open>insideLockState\<close>; the flat form does not.\<close>

definition nested_lock_properties :: "dict \<Rightarrow> lock_properties" where
  "nested_lock_properties door_lock =
     (if door_lock = [] then \<lparr>lp_locked = None, lp_door_open = None, lp_inside_locked = None,
        lp_child_locked = None, lp_leave_home_armed = None, lp_raw_door_lock = None, lp_raw_flat = []\<rparr>
      else \<lparr>lp_locked = map_option Not (normalize_state (get door_lock ''lockState'')),
        lp_door_open = normalize_state (get door_lock ''doorState''),
        lp_inside_locked = map_option Not (normalize_state (get door_lock ''insideLockState'')),
        lp_child_locked = None, lp_leave_home_armed = None, lp_raw_door_lock = Some door_lock,
        lp_raw_flat = []\<rparr>)"

definition normalize_door_lock_properties :: "pyval \<Rightarrow> lock_properties" where
  "normalize_door_lock_properties properties =
     (let props = mapping_of properties;
          state = (\<lambda>k. normalize_state (get props k));
          door_lock = property_group props ''doorLock'';
          r = nested_lock_properties door_lock
      in \<lparr>lp_locked = override (state ''lockStatus'')
            (override (state ''lock_state'') (override (state ''handle'') (lp_locked r))),
          lp_door_open = override (state ''door_status'') (lp_door_open r),
          lp_inside_locked = override (state ''reverse_lock'') (lp_inside_locked r),
          lp_child_locked = state ''clild_lock'',
          lp_leave_home_armed = override (normalize_state (get door_lock ''leaveHomeAlarmCfg''))
            (state ''leaveHomeAlarmCfg''),
          lp_raw_door_lock = lp_raw_door_lock r,
          lp_raw_flat = map (\<lambda>k. (k, get props k)) (filter (has_key props) FLAT_LOCK_KEYS)\<rparr>)"

definition battery_manager :: "dict \<Rightarrow> string \<Rightarrow> string \<Rightarrow> dict \<Rightarrow> dict" where
  "battery_manager props source_key out_prefix r =
     (let manager = property_group props source_key
      in if manager = [] then r
         else
           (let r = (case normalize_battery_level (get manager ''level'') of None \<Rightarrow> r
                  | Some n \<Rightarrow> AList.update (out_prefix @ ''_battery_level'') (VInt n) r)
            in case normalize_state (get manager ''isSetupBattery'') of None \<Rightarrow> r
               | Some setup \<Rightarrow>
                   (let r = AList.update (out_prefix @ ''_battery_setup'') (VBool setup) r
                    in if \<not> setup then AList.update (out_prefix @ ''_battery_level'') VNone r else r)))"

definition normalize_battery_properties :: "pyval \<Rightarrow> dict" where
  "normalize_battery_properties properties =
     (let props = mapping_of properties;
          r = (case normalize_battery_level (get props ''battery_power'') of None \<Rightarrow> []
             | Some n \<Rightarrow> [(''dry_battery_level'', VInt n)])
      in battery_manager props ''batteryManager1'' ''lithium''
           (battery_manager props ''batteryManager'' ''dry'' r))"

section \<open>Events and messages\<close>

text \<open>\<^verbatim>\<open>str(v)\<close> where it is compared with a numeric code: only a string and an int can be one.\<close>

definition code_text :: "pyval \<Rightarrow> string option" where
  "code_text v = (case v of VStr s \<Rightarrow> Some s | VInt n \<Rightarrow> Some (dec n) | _ \<Rightarrow> None)"

definition LEGACY_METHODS :: "(string \<times> string) list" where
  "LEGACY_METHODS = [(''1'', ''fingerprint''), (''2'', ''password''), (''3'', ''card''),
     (''4'', ''temporary_password''), (''5'', ''key'')]"

definition legacy_unlock_event :: "dict \<Rightarrow> dict option" where
  "legacy_unlock_event payload =
     (let code = code_text (get payload ''value4'');
          method = (case code of None \<Rightarrow> None | Some c \<Rightarrow> map_of LEGACY_METHODS c)
      in if code = Some ''20'' \<or> method \<noteq> None then
           Some [(''kind'', VStr ''unlock''),
             (''unlock_type'', VStr (case method of None \<Rightarrow> ''inside'' | Some m \<Rightarrow> m)),
             (''unlock_method'', of_opt_str method),
             (''open_direction'', VStr (if code = Some ''20'' then ''inside'' else ''outside'')),
             (''unlock_user_id'', VNone), (''time'', get payload ''time'')]
         else None)"

definition unlock_user :: "dict \<Rightarrow> bool \<Rightarrow> string option \<Rightarrow> pyval" where
  "unlock_user v unlock_event method =
     (let user_id = (if unlock_event then dget v ''userId'' (get v ''userID'')
            else dget v ''userID'' (get v ''userId''));
          user_id = (if unlock_direction method = ''inside'' then VNone else user_id)
      in case user_id of VStr s \<Rightarrow> user_id | VInt n \<Rightarrow> user_id | _ \<Rightarrow> VNone)"

definition thing_event :: "pyval \<Rightarrow> pyval \<Rightarrow> dict \<Rightarrow> pyval \<Rightarrow> dict option" where
  "thing_event server name v event_time =
     (if (server = VStr ''doorLock'' \<and> name = VStr ''unlockEvent'') \<or>
         (server \<in> {VNone, VStr ''doorLock''} \<and> name = VStr ''unlock'') then
        (let method = normalize_unlock_method (get v ''type'')
         in Some [(''kind'', VStr ''unlock''), (''unlock_type'', get v ''type''),
              (''unlock_method'', of_opt_str method), (''open_direction'', VStr (unlock_direction method)),
              (''unlock_user_id'', unlock_user v (name = VStr ''unlockEvent'') method),
              (''pic_url'', py_or (get v ''picture_url'') (get v ''url'')), (''time'', event_time)])
      else if server \<in> {VStr ''doorLock'', VStr ''security''} \<and> name = VStr ''errorUnlockEvent'' then
        Some [(''kind'', VStr ''error_unlock''), (''unlock_type'', get v ''type''), (''time'', event_time)]
      else if server \<in> {VStr ''doorLock'', VStr ''security''} \<and>
          name \<in> {VStr ''doorUnclose'', VStr ''doorUnclosed''} then
        Some [(''kind'', VStr ''door_unclose''), (''time'', event_time)]
      else if server \<in> {VStr ''doorLock'', VStr ''security''} \<and> name = VStr ''picklockEvent'' then
        Some [(''kind'', VStr ''picklock''), (''video_url'', get v ''videoUrl''), (''pic_url'', get v ''url''),
          (''time'', event_time)]
      else if server \<in> {VStr ''doorLock'', VStr ''security''} \<and> name = VStr ''leaveHomeEvent'' then
        Some [(''kind'', VStr ''leave_home''), (''video_url'', get v ''videoUrl''), (''pic_url'', get v ''url''),
          (''time'', event_time)]
      else if server = VStr ''security'' \<and> name = VStr ''staying'' then
        Some [(''kind'', VStr ''loiter''), (''pic_url'', py_or (get v ''url'') (get v ''picture_url'')),
          (''video_url'', get v ''videoUrl''), (''time'', event_time)]
      else if (server = VStr ''doorbell'' \<and> name = VStr ''ring'') \<or>
          (server \<in> {VNone, VStr ''doorbell''} \<and> name = VStr ''doorbell_ring'') then
        Some [(''kind'', VStr ''ring''), (''doorbell_url'', py_or (get v ''url'') (get v ''picture_url'')),
          (''doorbell_ip'', get v ''doorbell_local_Ip''), (''time'', event_time)]
      else if server \<in> {VNone, VStr ''doorbell''} \<and> name = VStr ''answered'' then
        Some [(''kind'', VStr ''answered''), (''time'', event_time)]
      else if server \<in> {VNone, VStr ''doorbell''} \<and> name = VStr ''bye'' then
        Some [(''kind'', VStr ''bye''), (''time'', event_time)]
      else None)"

definition normalize_lock_event :: "pyval \<Rightarrow> dict option" where
  "normalize_lock_event payload0 =
     (case payload0 of
        VDict payload \<Rightarrow>
          (case (if \<not> is_dict (get payload ''event'') \<and> py_eq (get payload ''cmd'') (VInt 42) \<and>
                   code_text (get payload ''value2'') = Some ''65535''
                 then legacy_unlock_event payload else None) of
             Some e \<Rightarrow> Some e
           | None \<Rightarrow>
              (case get payload ''event'' of
                 VDict event \<Rightarrow>
                   thing_event (get event ''server'') (get event ''name'') (mapping_of (get event ''value''))
                     (if get payload ''time'' = VNone then get (mapping_of (get payload ''raw_data'')) ''time''
                      else get payload ''time'')
               | _ \<Rightarrow> None))
      | _ \<Rightarrow> None)"

definition normalize_message_event :: "(string \<Rightarrow> pyval option) \<Rightarrow> pyval \<Rightarrow> dict option" where
  "normalize_message_event loads payload0 =
     (case payload0 of
        VDict payload \<Rightarrow>
          if \<not> py_eq (get payload ''cmd'') (VInt 82) then None
          else
            (let data = mapping_of (case get payload ''data'' of
                   VStr s \<Rightarrow> (case loads s of None \<Rightarrow> VDict [] | Some v \<Rightarrow> v) | v \<Rightarrow> v)
             in if \<not> py_eq (get payload ''infoType'') (VInt 12) \<and>
                   \<not> in_ints (get data ''deviceType'') [522, 107, 300] then None
                else Some
                  [(''kind'', VStr ''message''),
                   (''device_id'', py_or (get data ''deviceId'') (py_or (get payload ''deviceId'') (VStr []))),
                   (''uid'', py_or (get data ''uid'') (py_or (get payload ''uid'') (VStr []))),
                   (''is_alarm'', get data ''isAlarm''), (''message_type'', get payload ''messageType''),
                   (''text'', get payload ''text''), (''pic_url'', get data ''picUrl''),
                   (''time'', get data ''time'')])
      | _ \<Rightarrow> None)"

definition resolve_opened_by ::
  "(pyval \<Rightarrow> string) \<Rightarrow> pyval \<Rightarrow> pyfloat \<Rightarrow> rat \<Rightarrow> (string \<times> pyval) option" where
  "resolve_opened_by repr last_unlock elapsed window =
     (case last_unlock of
        VDict u \<Rightarrow>
          (case elapsed of
             Fin r \<Rightarrow>
               if r < 0 \<or> r > window \<or> get u ''user_id'' = VNone then None
               else Some (py_str repr (get u ''user_id''), get u ''unlock_type'')
           | _ \<Rightarrow> None)
      | _ \<Rightarrow> None)"

section \<open>The derived status\<close>

definition derive_lock_status :: "pyval \<Rightarrow> pyval \<Rightarrow> pyval \<Rightarrow> string option" where
  "derive_lock_status locked door_open inside_locked =
     (if door_open = VBool True \<and> locked = VBool True then Some ''abnormal''
      else if door_open = VBool True then Some ''unlocked''
      else if inside_locked = VBool True then Some ''inside_locked''
      else if locked = VBool True then Some ''locked''
      else if locked = VBool False then Some ''unlocked''
      else None)"

definition LABEL_INSIDE :: string where "LABEL_INSIDE = [CHR 0xE5, CHR 0x86, CHR 0x85, CHR 0xE5, CHR 0xBC, CHR 0x80]"
definition LABEL_OUTSIDE :: string where "LABEL_OUTSIDE = [CHR 0xE5, CHR 0xA4, CHR 0x96, CHR 0xE5, CHR 0xBC, CHR 0x80]"
definition LABEL_USER :: string where "LABEL_USER = [CHR 0xE7, CHR 0x94, CHR 0xA8, CHR 0xE6, CHR 0x88, CHR 0xB7]"
definition LABEL_OPENED :: string where "LABEL_OPENED = [CHR 0xE5, CHR 0xBC, CHR 0x80, CHR 0xE9, CHR 0x97, CHR 0xA8]"
definition LABEL_NOBODY :: string where "LABEL_NOBODY = [CHR 0xE6, CHR 0x97, CHR 0xA0]"
definition LABEL_UNKNOWN_PERSON :: string where "LABEL_UNKNOWN_PERSON = [CHR 0xE4, CHR 0xBA, CHR 0xBA, CHR 0xE5, CHR 0x91, CHR 0x98, CHR 0xE6, CHR 0x9C, CHR 0xAA, CHR 0xE7, CHR 0x9F, CHR 0xA5]"
definition COMMA :: string where "COMMA = [CHR 0xEF, CHR 0xBC, CHR 0x8C]"
definition OPEN_BRACKET :: string where "OPEN_BRACKET = [CHR 0xEF, CHR 0xBC, CHR 0x88]"
definition CLOSE_BRACKET :: string where "CLOSE_BRACKET = [CHR 0xEF, CHR 0xBC, CHR 0x89]"

definition METHOD_LABELS :: "(string \<times> string) list" where
  "METHOD_LABELS =
     [(''fingerprint'', [CHR 0xE6, CHR 0x8C, CHR 0x87, CHR 0xE7, CHR 0xBA, CHR 0xB9]), (''password'', [CHR 0xE5, CHR 0xAF, CHR 0x86, CHR 0xE7, CHR 0xA0, CHR 0x81]),
      (''card'', [CHR 0xE5, CHR 0x8D, CHR 0xA1, CHR 0xE7, CHR 0x89, CHR 0x87]), (''key'', [CHR 0xE9, CHR 0x92, CHR 0xA5, CHR 0xE5, CHR 0x8C, CHR 0x99]),
      (''face'', [CHR 0xE4, CHR 0xBA, CHR 0xBA, CHR 0xE8, CHR 0x84, CHR 0xB8]),
      (''temporary_password'', [CHR 0xE4, CHR 0xB8, CHR 0xB4, CHR 0xE6, CHR 0x97, CHR 0xB6, CHR 0xE5, CHR 0xAF, CHR 0x86, CHR 0xE7, CHR 0xA0, CHR 0x81])]"

definition user_label :: "(pyval \<Rightarrow> string) \<Rightarrow> pyval \<Rightarrow> string" where
  "user_label repr user_id = (if user_id \<noteq> VNone \<and> user_id \<noteq> VStr [] then LABEL_USER @ py_str repr user_id else [])"

definition format_unlock_label ::
  "(pyval \<Rightarrow> string) \<Rightarrow> pyval \<Rightarrow> string option \<Rightarrow> string option \<Rightarrow> string option \<Rightarrow> string" where
  "format_unlock_label repr user_id name direction method =
     (let nm = (case name of None \<Rightarrow> [] | Some n \<Rightarrow> n)
      in if direction \<noteq> None then
           (if unlock_direction method = ''inside'' then LABEL_INSIDE
            else
              (let who = py_strip nm;
                   who = (if who = [] then user_label repr user_id else who);
                   method_label = (case method of None \<Rightarrow> None | Some m \<Rightarrow> map_of METHOD_LABELS m);
                   parts = (case method_label of None \<Rightarrow> [] | Some l \<Rightarrow> [l]) @
                     (if who = [] then [LABEL_UNKNOWN_PERSON] else []);
                   details = (case parts of [] \<Rightarrow> [] | [a] \<Rightarrow> a | a # b # _ \<Rightarrow> a @ COMMA @ b)
               in who @ LABEL_OUTSIDE @
                  (if details = [] then [] else OPEN_BRACKET @ details @ CLOSE_BRACKET)))
         else if py_strip nm \<noteq> [] then nm @ LABEL_OPENED
         else if user_id \<noteq> VNone \<and> user_id \<noteq> VStr [] then user_label repr user_id @ LABEL_OPENED
         else LABEL_NOBODY)"

section \<open>The door-lock parser\<close>

definition BATTERY_KEYS :: "string list" where
  "BATTERY_KEYS = [''dry_battery_level'', ''dry_battery_setup'', ''lithium_battery_level'',
     ''lithium_battery_setup'']"

definition lock_updates :: "lock_properties \<Rightarrow> dict" where
  "lock_updates lock =
     (case lp_locked lock of None \<Rightarrow> [] | Some b \<Rightarrow> [(''locked'', VBool b), (''lock_state'', VBool (\<not> b))]) @
     opt_bool_field ''door_state'' (lp_door_open lock) @
     opt_bool_field ''inside_lock_state'' (lp_inside_locked lock) @
     opt_bool_field ''child_lock_state'' (lp_child_locked lock) @
     opt_bool_field ''leave_home_armed'' (lp_leave_home_armed lock)"

definition parse_door_lock :: "dict \<Rightarrow> dict \<Rightarrow> state_patch" where
  "parse_door_lock current raw =
     (let lock = normalize_door_lock_properties (get raw ''properties'');
          battery = normalize_battery_properties (get raw ''properties'');
          updates = lock_updates lock @
            map (\<lambda>k. (k, get battery k)) (filter (has_key battery) BATTERY_KEYS);
          effective = dict_merge current updates
      in Inr (updates @
           [(''lock_status'', of_opt_str (derive_lock_status (get effective ''locked'')
               (get effective ''door_state'') (get effective ''inside_lock_state''))),
            (''state'', dget effective ''lock_state'' (VBool False))]))"

section \<open>Facts\<close>

lemma dict_merge_append: "dict_merge d (a @ b) = dict_merge (dict_merge d a) b"
  by (induction d a rule: dict_merge.induct) auto

lemma apply_door_lock:
  assumes "parse_door_lock current raw = Inr u"
  obtains effective where
    "apply_to u current = AList.update ''state'' (dget effective ''lock_state'' (VBool False))
       (AList.update ''lock_status'' (of_opt_str (derive_lock_status (get effective ''locked'')
         (get effective ''door_state'') (get effective ''inside_lock_state''))) effective)"
    "effective = dict_merge current (lock_updates (normalize_door_lock_properties (get raw ''properties'')) @
       map (\<lambda>k. (k, get (normalize_battery_properties (get raw ''properties'')) k))
         (filter (has_key (normalize_battery_properties (get raw ''properties''))) BATTERY_KEYS))"
proof -
  show ?thesis
    by (rule that [OF _ refl], use assms in \<open>simp add: parse_door_lock_def Let_def apply_to_def dict_merge_append\<close>)
       (auto simp: parse_door_lock_def Let_def apply_to_def dict_merge_append)
qed

lemma derive_cases:
  "derive_lock_status locked door inside = Some s \<Longrightarrow>
     s = (if door = VBool True then (if locked = VBool True then ''abnormal'' else ''unlocked'')
          else if inside = VBool True then ''inside_locked''
          else if locked = VBool True then ''locked'' else ''unlocked'')"
  by (auto simp: derive_lock_status_def split: if_splits)

definition level_field_ok :: "string \<Rightarrow> string \<Rightarrow> dict \<Rightarrow> bool" where
  "level_field_ok level setup r \<longleftrightarrow> (case map_of r level of None \<Rightarrow> True
     | Some v \<Rightarrow> (\<exists>n. v = VInt n \<and> 0 \<le> n \<and> n \<le> 100) \<or> v = VNone \<and> map_of r setup = Some (VBool False))"

lemma level_field_ok_cong:
  "(\<And>k. k \<in> {level, setup} \<Longrightarrow> map_of r k = map_of r' k) \<Longrightarrow>
     level_field_ok level setup r = level_field_ok level setup r'"
  by (auto simp: level_field_ok_def split: option.splits)

lemma battery_level_bounds:
  "normalize_battery_level v = Some n \<Longrightarrow> 0 \<le> n \<and> n \<le> 100"
  by (cases v) (auto simp: floor_le_iff split: sum.splits pyfloat.splits if_splits)

lemma battery_manager_own:
  assumes "case map_of r (out @ ''_battery_level'') of None \<Rightarrow> True
     | Some v \<Rightarrow> (\<exists>n. v = VInt n \<and> 0 \<le> n \<and> n \<le> 100)"
  shows "level_field_ok (out @ ''_battery_level'') (out @ ''_battery_setup'') (battery_manager props src out r)"
  using assms battery_level_bounds
  by (auto simp: battery_manager_def Let_def level_field_ok_def dict_simps
      split: option.splits if_splits)

lemma battery_manager_other:
  assumes "k \<noteq> out @ ''_battery_level''" "k \<noteq> out @ ''_battery_setup''"
  shows "map_of (battery_manager props src out r) k = map_of r k"
  using assms by (auto simp: battery_manager_def Let_def dict_simps split: option.splits)

lemma pred_option_if: "pred_option P m \<Longrightarrow> pred_option P m' \<Longrightarrow> pred_option P (if b then m else m')"
  by simp

lemma thing_event_unlock:
  assumes "thing_event srv name v t = Some e" "get e ''kind'' = VStr ''unlock''"
  shows "\<exists>m b. get e ''open_direction'' = VStr (unlock_direction m) \<and> get e ''unlock_method'' = of_opt_str m
      \<and> get e ''unlock_user_id'' = unlock_user v b m"
proof (cases "(srv = VStr ''doorLock'' \<and> name = VStr ''unlockEvent'') \<or>
    (srv \<in> {VNone, VStr ''doorLock''} \<and> name = VStr ''unlock'')")
  case True
  show ?thesis using assms(1) unfolding thing_event_def if_P [OF True] Let_def
    by (intro exI [where x = "normalize_unlock_method (get v ''type'')"]
        exI [where x = "name = VStr ''unlockEvent''"]) auto
next
  case False
  have "pred_option (\<lambda>e. get e ''kind'' \<noteq> VStr ''unlock'') (thing_event srv name v t)"
    unfolding thing_event_def if_not_P [OF False] by (intro pred_option_if) simp_all
  then show ?thesis using assms by simp
qed

section \<open>Properties\<close>

text \<open>C36. The patch the parser makes of a packet is consistent with the state it was parsed against: when the
  whole patch is applied to this state, \<^verbatim>\<open>lock_status\<close> is the status derived from the lock, door and
  deadbolt fields of the result, a status \<^verbatim>\<open>locked\<close> or \<^verbatim>\<open>inside_locked\<close> never comes with an open door, and an open door
  with a locked bolt gives \<^verbatim>\<open>abnormal\<close>. This is about one parsing and not about the state store, where the guard
  may let a part of the patch through.\<close>

theorem lock_status_consistent:
  "ensures (parse_door_lock current raw) (\<lambda>u.
     let st = apply_to u current; status = derive_lock_status (get st ''locked'') (get st ''door_state'') (get st ''inside_lock_state'')
     in get st ''lock_status'' = of_opt_str status
      \<and> (get st ''door_state'' = VBool True \<longrightarrow>
          get st ''lock_status'' = VStr (if get st ''locked'' = VBool True then ''abnormal'' else ''unlocked'')))"
  unfolding ensures_def
proof (intro allI impI)
  fix u assume "parse_door_lock current raw = Inr u"
  then obtain effective where st: "apply_to u current = AList.update ''state'' (dget effective ''lock_state'' (VBool False))
       (AList.update ''lock_status'' (of_opt_str (derive_lock_status (get effective ''locked'')
         (get effective ''door_state'') (get effective ''inside_lock_state''))) effective)"
    by (rule apply_door_lock)
  show "let st = apply_to u current; status = derive_lock_status (get st ''locked'') (get st ''door_state'') (get st ''inside_lock_state'')
     in get st ''lock_status'' = of_opt_str status
      \<and> (get st ''door_state'' = VBool True \<longrightarrow>
          get st ''lock_status'' = VStr (if get st ''locked'' = VBool True then ''abnormal'' else ''unlocked''))"
    unfolding Let_def st by (simp add: derive_lock_status_def)
qed

lemma lock_status_consistent_witness:
  "\<exists>u. parse_door_lock [(''locked'', VBool True)] [(''properties'', VDict [(''door_status'', VInt 1)])] = Inr u
    \<and> get (apply_to u [(''locked'', VBool True)]) ''door_state'' = VBool True
    \<and> get (apply_to u [(''locked'', VBool True)]) ''lock_status'' = VStr ''abnormal''"
proof -
  have "parse_door_lock [(''locked'', VBool True)] [(''properties'', VDict [(''door_status'', VInt 1)])]
      = Inr [(''door_state'', VBool True), (''lock_status'', VStr ''abnormal''), (''state'', VBool False)]"
    by code_simp
  then show ?thesis
    using lock_status_consistent [of "[(''locked'', VBool True)]" "[(''properties'', VDict [(''door_status'', VInt 1)])]"]
    by (simp add: ensures_def apply_to_def dget_def Let_def)
qed

text \<open>A lock packet changes only what it reports: each of the fields lock, door, deadbolt, child lock
  and leave-home alarm is overwritten with the reported value when the packet carries one in either
  form, and keeps its stored value otherwise.\<close>

lemma lock_packet_is_partial:
  "ensures (parse_door_lock current raw) (\<lambda>u.
     let st = apply_to u current; lock = normalize_door_lock_properties (get raw ''properties'')
     in get st ''locked'' = (case lp_locked lock of None \<Rightarrow> get current ''locked'' | Some b \<Rightarrow> VBool b)
      \<and> get st ''door_state'' = (case lp_door_open lock of None \<Rightarrow> get current ''door_state'' | Some b \<Rightarrow> VBool b)
      \<and> get st ''inside_lock_state'' = (case lp_inside_locked lock of None \<Rightarrow> get current ''inside_lock_state'' | Some b \<Rightarrow> VBool b)
      \<and> get st ''child_lock_state'' = (case lp_child_locked lock of None \<Rightarrow> get current ''child_lock_state'' | Some b \<Rightarrow> VBool b)
      \<and> get st ''leave_home_armed'' = (case lp_leave_home_armed lock of None \<Rightarrow> get current ''leave_home_armed'' | Some b \<Rightarrow> VBool b))"
  unfolding ensures_def
proof (intro allI impI)
  fix u assume u: "parse_door_lock current raw = Inr u"
  define b where "b = map (\<lambda>k. (k, get (normalize_battery_properties (get raw ''properties'')) k))
         (filter (has_key (normalize_battery_properties (get raw ''properties''))) BATTERY_KEYS)"
  define lock where "lock = normalize_door_lock_properties (get raw ''properties'')"
  have keys: "fst ` set b \<subseteq> set BATTERY_KEYS" by (auto simp: b_def)
  have bat: "get (dict_merge d b) k = get d k"
    if "k \<notin> {''dry_battery_level'', ''dry_battery_setup'', ''lithium_battery_level'', ''lithium_battery_setup''}" for d k
  proof -
    have "k \<notin> fst ` set b" using that keys by (auto simp: BATTERY_KEYS_def)
    then show ?thesis by (simp add: dget_def)
  qed
  obtain effective where st: "apply_to u current = AList.update ''state'' (dget effective ''lock_state'' (VBool False))
       (AList.update ''lock_status'' (of_opt_str (derive_lock_status (get effective ''locked'')
         (get effective ''door_state'') (get effective ''inside_lock_state''))) effective)"
    and e: "effective = dict_merge (dict_merge current (lock_updates lock)) b"
    using u unfolding lock_def b_def by (rule apply_door_lock) (simp add: dict_merge_append)
  show "let st = apply_to u current; lock = normalize_door_lock_properties (get raw ''properties'')
     in get st ''locked'' = (case lp_locked lock of None \<Rightarrow> get current ''locked'' | Some b \<Rightarrow> VBool b)
      \<and> get st ''door_state'' = (case lp_door_open lock of None \<Rightarrow> get current ''door_state'' | Some b \<Rightarrow> VBool b)
      \<and> get st ''inside_lock_state'' = (case lp_inside_locked lock of None \<Rightarrow> get current ''inside_lock_state'' | Some b \<Rightarrow> VBool b)
      \<and> get st ''child_lock_state'' = (case lp_child_locked lock of None \<Rightarrow> get current ''child_lock_state'' | Some b \<Rightarrow> VBool b)
      \<and> get st ''leave_home_armed'' = (case lp_leave_home_armed lock of None \<Rightarrow> get current ''leave_home_armed'' | Some b \<Rightarrow> VBool b)"
    unfolding Let_def st lock_def [symmetric]
    by (simp add: e bat) (simp add: lock_updates_def opt_bool_field_def dict_merge_append split: option.splits)
qed

text \<open>A battery percentage is a whole number from 0 to 100, and it is erased only for a battery the
  packet itself reports as not installed; an invalid or missing reading never appears.\<close>

lemma battery_levels_valid:
  "level_field_ok ''dry_battery_level'' ''dry_battery_setup'' (normalize_battery_properties p)
   \<and> level_field_ok ''lithium_battery_level'' ''lithium_battery_setup'' (normalize_battery_properties p)"
proof -
  let ?r = "case normalize_battery_level (get (mapping_of p) ''battery_power'') of None \<Rightarrow> []
     | Some n \<Rightarrow> [(''dry_battery_level'', VInt n)]"
  let ?dry = "battery_manager (mapping_of p) ''batteryManager'' ''dry'' ?r"
  have r: "case map_of ?r ''dry_battery_level'' of None \<Rightarrow> True
       | Some v \<Rightarrow> (\<exists>n. v = VInt n \<and> 0 \<le> n \<and> n \<le> 100)" "map_of ?r ''lithium_battery_level'' = None"
    using battery_level_bounds by (auto split: option.splits)
  then have dry: "level_field_ok ''dry_battery_level'' ''dry_battery_setup'' ?dry"
    using battery_manager_own [of ?r "''dry''"] by simp
  have "map_of ?dry ''lithium_battery_level'' = None"
    using r(2) battery_manager_other [of "''lithium_battery_level''" "''dry''" "mapping_of p" "''batteryManager''" ?r] by simp
  then have "level_field_ok ''lithium_battery_level'' ''lithium_battery_setup''
      (battery_manager (mapping_of p) ''batteryManager1'' ''lithium'' ?dry)"
    using battery_manager_own [of ?dry "''lithium''"] by simp
  moreover have "map_of (battery_manager (mapping_of p) ''batteryManager1'' ''lithium'' ?dry) k = map_of ?dry k"
    if "k \<in> {''dry_battery_level'', ''dry_battery_setup''}" for k
    using that by (intro battery_manager_other) auto
  then have "level_field_ok ''dry_battery_level'' ''dry_battery_setup''
      (battery_manager (mapping_of p) ''batteryManager1'' ''lithium'' ?dry)"
    using dry level_field_ok_cong by blast
  ultimately show ?thesis by (simp add: normalize_battery_properties_def Let_def)
qed

text \<open>An unlock event is attributed to a user only when it came from outside: every normalized unlock
  event is directed inside or outside, outside exactly for the four credential families or a legacy
  credential code, and an event directed inside carries no user id.\<close>

lemma inside_unlock_has_no_user:
  assumes "normalize_lock_event p = Some e" "get e ''kind'' = VStr ''unlock''"
  shows "get e ''open_direction'' \<in> {VStr ''inside'', VStr ''outside''}
    \<and> (get e ''open_direction'' = VStr ''inside'' \<longrightarrow> get e ''unlock_user_id'' = VNone)
    \<and> (get e ''open_direction'' = VStr ''outside'' \<longrightarrow>
        (\<exists>m \<in> set OUTSIDE_METHODS. get e ''unlock_method'' = VStr m))"
proof -
  have legacy: "get e ''open_direction'' \<in> {VStr ''inside'', VStr ''outside''}
      \<and> get e ''unlock_user_id'' = VNone
      \<and> (get e ''open_direction'' = VStr ''outside'' \<longrightarrow>
        (\<exists>m \<in> set OUTSIDE_METHODS. get e ''unlock_method'' = VStr m))"
    if "legacy_unlock_event q = Some e" for q
    using that by (auto simp: legacy_unlock_event_def Let_def LEGACY_METHODS_def OUTSIDE_METHODS_def
        split: if_splits option.splits)
  have direction: "unlock_direction m = ''inside'' \<or> (\<exists>s \<in> set OUTSIDE_METHODS. m = Some s \<and> unlock_direction m = ''outside'')" for m
    by (auto simp: unlock_direction_def split: option.splits)
  have thing: "\<exists>m b. get e ''open_direction'' = VStr (unlock_direction m) \<and> get e ''unlock_method'' = of_opt_str m
      \<and> get e ''unlock_user_id'' = unlock_user v b m"
    if "thing_event srv name v t = Some e" for srv name v t
    using thing_event_unlock [OF that assms(2)] by blast
  have user: "unlock_direction m = ''inside'' \<Longrightarrow> unlock_user v b m = VNone" for m v b
    by (simp add: unlock_user_def)
  from assms(1) consider q where "legacy_unlock_event q = Some e"
    | srv name v t where "thing_event srv name v t = Some e"
    by (auto simp: normalize_lock_event_def split: pyval.splits option.splits if_splits)
  then show ?thesis
  proof cases
    case 1
    then show ?thesis using legacy by blast
  next
    case 2
    from thing [OF this] obtain m b where m: "get e ''open_direction'' = VStr (unlock_direction m)"
      "get e ''unlock_method'' = of_opt_str m" "get e ''unlock_user_id'' = unlock_user v b m" by blast
    show ?thesis using direction [of m] user [of m v b] m by auto
  qed
qed

end
