(* ===== verification/Status_Dispatcher.thy ===== *)
theory Status_Dispatcher
  imports Device_Types Device_Parsers Lock_Status State_Store Effects
begin

text \<open>
  \<^verbatim>\<open>parsers/__init__.py\<close> and \<^verbatim>\<open>status_dispatcher.py\<close>: the registry of state parsers and the handling
  of one inbound status packet, from the resolution of its device to the merge into the state store.

  The dispatcher's world is its own state (devices, state store, times of the last updates,
  diagnostics) and an outside component for the listeners. Its callbacks are the parameter record
  \<open>callbacks\<close>: the three that parse a packet into the candidate return the fields they assign
  or raise; the listener for lock events may change the state store too, as the one of the coordinator does.
  What such a listener is held to is the locale \<open>status_listener\<close>.
\<close>

section \<open>The registry\<close>

definition get_state_parser ::
  "(pyval \<Rightarrow> string) \<Rightarrow> device_category \<Rightarrow> (dict \<Rightarrow> dict \<Rightarrow> state_patch) option" where
  "get_state_parser repr category = map_of
     [(SIMPLE_ZIGBEE_LIGHT, parse_light), (MONO_LIGHT, parse_light), (LIGHT_VIRTUAL_GROUP, parse_light),
      (LEGACY_LIGHT, parse_light), (DIM_COLOR_LIGHT, parse_dim_color_light),
      (FAST_MOVE_DIM_COLOR_LIGHT, parse_fast_move_dim_color_light),
      (DIMMABLE_LIGHT, parse_dimmable_light), (ZIGBEE_DIMMABLE_LIGHT, parse_zigbee_dimmable_light),
      (CCT_LIGHT_STRIP, parse_cct_light), (CCT_LIGHT, parse_cct_light), (ZIGBEE_CURTAIN, parse_curtain),
      (ZIGBEE_ROLLING_SHUTTER, parse_curtain), (DREAM_CURTAIN, parse_dream_curtain repr),
      (FLOOR_HEATING, parse_floor_heating), (LEGACY_FLOOR_HEATING, parse_legacy_floor_heating),
      (MIX_SWITCH, parse_switch), (TEMP_HUMIDITY_SENSOR, parse_temp_humidity_sensor),
      (DOOR_WINDOW_SENSOR, parse_door_window_sensor), (MOTION_SENSOR, parse_motion_sensor),
      (EMERGENCY_BUTTON, parse_emergency_button), (SMOKE_SENSOR, parse_smoke_sensor),
      (WATER_LEAK_SENSOR, parse_water_leak_sensor), (GAS_SENSOR, parse_gas_sensor),
      (FAN_COIL_AC, parse_fan_coil_ac), (VENTILATION_SYSTEM, parse_ventilation),
      (CLOTHES_HORSE, parse_clothes_horse), (DOOR_LOCK, parse_door_lock)] category"

section \<open>Merging properties\<close>

function deep_merge :: "dict \<Rightarrow> dict \<Rightarrow> dict" where
  "deep_merge merged [] = merged"
| "deep_merge merged ((k, v) # patch) =
     deep_merge
       (AList.update k
          (case v of
             VDict e \<Rightarrow> (case map_of merged k of Some (VDict b) \<Rightarrow> VDict (deep_merge b e) | _ \<Rightarrow> v)
           | _ \<Rightarrow> v) merged)
       patch"
  by pat_completeness auto
termination
  by (relation "measure (\<lambda>(b, p). size (VDict p))") auto

section \<open>The candidate\<close>

text \<open>A copy of the state that remembers the set of the fields that were assigned.\<close>

record candidate =
  cd_state :: dict
  cd_fields :: "string list"

definition new_candidate :: "dict \<Rightarrow> candidate" where
  "new_candidate state = \<lparr>cd_state = state, cd_fields = []\<rparr>"

definition assign :: "string \<Rightarrow> pyval \<Rightarrow> candidate \<Rightarrow> candidate" where
  "assign k v c = \<lparr>cd_state = AList.update k v (cd_state c),
     cd_fields = cd_fields c @ [k]\<rparr>"

fun assign_all :: "dict \<Rightarrow> candidate \<Rightarrow> candidate" where
  "assign_all [] c = c"
| "assign_all ((k, v) # kvs) c = assign_all kvs (assign k v c)"

definition candidate_patch :: "candidate \<Rightarrow> dict" where
  "candidate_patch c = map (\<lambda>k. (k, get (cd_state c) k)) (remdups (cd_fields c))"

section \<open>The dispatcher's world\<close>

record diagnostic =
  dg_ts :: rat
  dg_device_id :: string
  dg_raw :: dict

record 'x dispatcher =
  di_devices :: "(string, dict) pydict"
  di_store :: store
  di_last_update :: "(string, rat) pydict"
  di_diagnostics :: "diagnostic list"
  di_outside :: 'x

record 'x callbacks =
  on_motion :: "candidate \<Rightarrow> dict \<Rightarrow> string \<Rightarrow> ('x, dict) io"
  on_emergency :: "candidate \<Rightarrow> dict \<Rightarrow> string \<Rightarrow> ('x, dict) io"
  on_lock_transient :: "candidate \<Rightarrow> dict \<Rightarrow> string \<Rightarrow> ('x, dict) io"
  on_lock_message :: "string \<Rightarrow> dict \<Rightarrow> ('x, unit) io"
  on_lock_event :: "string \<Rightarrow> dict \<Rightarrow> (store \<times> 'x, unit) io"
  on_updated :: "'x \<Rightarrow> 'x"
  wall_clock :: "'x \<Rightarrow> rat"
  monotonic :: "'x \<Rightarrow> rat"
  known_models :: model_catalog
  text_of :: "pyval \<Rightarrow> string"
  diagnostic_limit :: nat

section \<open>Resolving the device\<close>

fun hashable :: "pyval \<Rightarrow> bool" where
  "hashable (VList xs) = False"
| "hashable (VDict d) = False"
| "hashable _ = True"

definition ALIAS_KEYS :: "string list" where
  "ALIAS_KEYS = [''status_id'', ''app_device_id'', ''ext_addr'']"

definition aliases_of :: "dict \<Rightarrow> dict \<Rightarrow> pyval list" where
  "aliases_of state device = map (get state) ALIAS_KEYS @ map (get device) ALIAS_KEYS"

definition is_candidate_id :: "string \<Rightarrow> string \<Rightarrow> pyval list \<Rightarrow> bool" where
  "is_candidate_id incoming stored aliases \<longleftrightarrow>
     VStr incoming \<in> set aliases \<or> (starts_with ''w-'' stored \<and> drop 2 stored = incoming)"

fun matching_ids :: "string \<Rightarrow> (string, dict) pydict \<Rightarrow> (string, dict) pydict \<Rightarrow> string list py" where
  "matching_ids incoming devices [] = Inr []"
| "matching_ids incoming devices ((stored, state) # states) =
     (let aliases = aliases_of state (case map_of devices stored of None \<Rightarrow> [] | Some d \<Rightarrow> d)
      in if \<not> list_all hashable aliases then Inl TypeError
         else bindE (matching_ids incoming devices states) (\<lambda>ids.
           Inr (if is_candidate_id incoming stored aliases then stored # ids else ids)))"

definition resolve_device_id ::
  "string \<Rightarrow> (string, dict) pydict \<Rightarrow> (string, dict) pydict \<Rightarrow> string option py" where
  "resolve_device_id incoming devices states =
     (if map_of states incoming \<noteq> None then Inr (Some incoming)
      else bindE (matching_ids incoming devices states) (\<lambda>ids.
        Inr (case remdups ids of [d] \<Rightarrow> Some d | _ \<Rightarrow> None)))"

section \<open>Parsing into the candidate\<close>

definition direct_categories :: "(int \<times> device_category) list" where
  "direct_categories =
     [(46, DOOR_WINDOW_SENSOR), (27, SMOKE_SENSOR), (54, WATER_LEAK_SENSOR), (522, DOOR_LOCK),
      (34, ZIGBEE_CURTAIN), (36, FAN_COIL_AC), (516, VENTILATION_SYSTEM), (135, MIX_SWITCH),
      (136, MIX_SWITCH)]"

fun find_code :: "pyval \<Rightarrow> (int \<times> 'a) list \<Rightarrow> 'a option" where
  "find_code v [] = None"
| "find_code v ((n, x) # ns) = (if py_eq v (VInt n) then Some x else find_code v ns)"

definition parser_category ::
  "(pyval \<Rightarrow> string) \<Rightarrow> pyval \<Rightarrow> pyval \<Rightarrow> device_category \<Rightarrow> device_category option py" where
  "parser_category repr device_type sub_type category =
     (if py_eq device_type (VInt 38) then
        Inr (Some (if py_eq sub_type (VInt 6) then FAST_MOVE_DIM_COLOR_LIGHT else DIM_COLOR_LIGHT))
      else if py_eq device_type (VInt 0) \<and> py_eq sub_type (VInt (- 2)) then Inr (Some ZIGBEE_DIMMABLE_LIGHT)
      else if py_eq device_type (VInt 116) then Inr (Some ZIGBEE_DIMMABLE_LIGHT)
      else if py_eq device_type (VInt 300) \<and> py_eq sub_type (VInt 491) then Inr (Some TEMP_HUMIDITY_SENSOR)
      else if \<not> hashable device_type then Inl TypeError
      else Inr (case find_code device_type direct_categories of Some c \<Rightarrow> Some c
        | None \<Rightarrow>
            if category = CLOTHES_HORSE then None
            else if get_state_parser repr category \<noteq> None then Some category else None))"

definition apply_parser ::
  "(pyval \<Rightarrow> string) \<Rightarrow> device_category \<Rightarrow> dict \<Rightarrow> candidate \<Rightarrow> candidate py" where
  "apply_parser repr category raw c =
     (case get_state_parser repr category of None \<Rightarrow> Inr c
      | Some parser \<Rightarrow> bindE (parser (cd_state c) raw) (\<lambda>patch. Inr (assign_all patch c)))"

definition generic_field :: "dict \<Rightarrow> dict \<Rightarrow> string \<times> string \<times> string \<Rightarrow> candidate \<Rightarrow> candidate" where
  "generic_field raw props f c =
     (let (field, raw_key, property_key) = f
      in if has_key raw raw_key then assign field (get raw raw_key) c
         else if has_key props property_key then assign field (get props property_key) c
         else c)"

definition apply_generic :: "dict \<Rightarrow> candidate \<Rightarrow> candidate" where
  "apply_generic raw c =
     (let props = (case get raw ''properties'' of VDict p \<Rightarrow> p | _ \<Rightarrow> []);
          c = (case onoff_word (dget props ''onoff'' (VDict [])) of
                 Some w \<Rightarrow> assign ''state'' (VBool (is_on_word w)) c
               | None \<Rightarrow> if has_key raw ''state'' then assign ''state'' (get raw ''state'') c else c)
      in fold (generic_field raw props)
           [(''brightness'', ''value2'', ''brightness''), (''color_temp'', ''value3'', ''colortemp''),
            (''position'', ''value1'', ''percent'')] c)"

text \<open>\<^verbatim>\<open>dict(v)\<close> for the stored properties. A list never occurs there and is refused.\<close>

fun dict_of :: "pyval \<Rightarrow> dict py" where
  "dict_of (VDict d) = Inr d"
| "dict_of (VList []) = Inr []"
| "dict_of (VStr s) = (if s = [] then Inr [] else Inl ValueError)"
| "dict_of _ = Inl TypeError"

definition start_candidate :: "dict \<Rightarrow> dict \<Rightarrow> candidate py" where
  "start_candidate state raw =
     bindE (case get raw ''properties'' of
         VDict incoming \<Rightarrow>
           bindE (dict_of (dget state ''properties'' (VDict []))) (\<lambda>base.
             Inr (assign ''properties'' (VDict (deep_merge base incoming)) (new_candidate state)))
       | _ \<Rightarrow> Inr (new_candidate state))
     (\<lambda>c. Inr (assign ''online'' (VBool True) c))"

definition with_sub_type :: "dict \<Rightarrow> pyval \<Rightarrow> dict" where
  "with_sub_type raw sub_type =
     (if sub_type \<noteq> VNone \<and> get raw ''subDeviceType'' = VNone
      then AList.update ''subDeviceType'' sub_type raw else raw)"

section \<open>Dispatching a packet\<close>

fun source_name :: "state_source \<Rightarrow> string" where
  "source_name INITIAL = ''initial''"
| "source_name OPTIMISTIC = ''optimistic''"
| "source_name CLOUD = ''cloud''"
| "source_name SSL = ''ssl''"
| "source_name LAN = ''lan''"

definition outsideS :: "('x, 'a) io \<Rightarrow> ('x dispatcher, 'a) io" where
  "outsideS m w = (case m (di_outside w) of (r, x) \<Rightarrow> (r, w\<lparr>di_outside := x\<rparr>))"

definition storeS :: "(store \<times> 'x, 'a) io \<Rightarrow> ('x dispatcher, 'a) io" where
  "storeS m w = (case m (di_store w, di_outside w) of (r, s, x) \<Rightarrow> (r, w\<lparr>di_store := s, di_outside := x\<rparr>))"

definition record_diagnostic :: "'x callbacks \<Rightarrow> string \<Rightarrow> dict \<Rightarrow> ('x dispatcher, unit) io" where
  "record_diagnostic cb incoming raw = modifyS (\<lambda>w.
     let d = di_diagnostics w @ [\<lparr>dg_ts = wall_clock cb (di_outside w), dg_device_id = incoming, dg_raw = raw\<rparr>]
     in w\<lparr>di_diagnostics := drop (length d - diagnostic_limit cb) d\<rparr>)"

definition merge_candidate :: "'x callbacks \<Rightarrow> string \<Rightarrow> state_source \<Rightarrow> candidate \<Rightarrow> ('x dispatcher, unit) io" where
  "merge_candidate cb d src c = modifyS (\<lambda>w. w\<lparr>di_store :=
     snd (merge d (candidate_patch c) src (monotonic cb (di_outside w)) False (di_store w))\<rparr>)"

definition parse_packet ::
  "'x callbacks \<Rightarrow> string \<Rightarrow> dict option \<Rightarrow> pyval \<Rightarrow> pyval \<Rightarrow> device_category \<Rightarrow> dict \<Rightarrow> candidate
     \<Rightarrow> ('x dispatcher, candidate) io" where
  "parse_packet cb d device device_type sub_type category raw c =
     (if truthy (get raw ''is_clothes_horse'') then liftE (apply_parser (text_of cb) CLOTHES_HORSE raw c)
      else if py_eq (get raw ''cmd'') (VInt 352) then
        bindS (outsideS (on_lock_transient cb c raw d)) (\<lambda>p. retS (assign_all p c))
      else if py_eq device_type (VInt 26) \<or> category = MOTION_SENSOR then
        bindS (outsideS (on_motion cb c raw d)) (\<lambda>p. retS (assign_all p c))
      else if py_eq device_type (VInt 56) \<or> category = EMERGENCY_BUTTON then
        bindS (outsideS (on_emergency cb c raw d)) (\<lambda>p. retS (assign_all p c))
      else if has_dimmer_scale device then
        bindS (liftE (parse_native_dimmer (cd_state c) raw (the device))) (\<lambda>p. retS (assign_all p c))
      else bindS (liftE (parser_category (text_of cb) device_type sub_type category)) (\<lambda>pc.
        case pc of None \<Rightarrow> retS (apply_generic raw c)
        | Some cat \<Rightarrow> liftE (apply_parser (text_of cb) cat (with_sub_type raw sub_type) c)))"

text \<open>\<^verbatim>\<open>raw_status["source"] = source.name.lower()\<close>, and whether the packet is one of a lock.\<close>

definition tagged :: "state_source \<Rightarrow> dict \<Rightarrow> dict" where
  "tagged src raw = AList.update ''source'' (VStr (source_name src)) raw"

definition device_type_of :: "dict option \<Rightarrow> pyval" where
  "device_type_of device = (case device of None \<Rightarrow> VInt 0 | Some dev \<Rightarrow> dget dev ''device_type_raw'' (VInt 0))"

definition category_of :: "'x callbacks \<Rightarrow> dict option \<Rightarrow> device_category py" where
  "category_of cb device =
     (case device of None \<Rightarrow> Inr UNKNOWN
      | Some dev \<Rightarrow> if dev = [] then Inr UNKNOWN else classify_device (known_models cb) (VDict dev))"

definition concerns_lock :: "dict option \<Rightarrow> device_category \<Rightarrow> dict \<Rightarrow> bool" where
  "concerns_lock device category raw \<longleftrightarrow>
     py_eq (device_type_of device) (VInt 522) \<or> category = DOOR_LOCK \<or> py_eq (get raw ''cmd'') (VInt 352)"

text \<open>What happens once the device is known: a message only publishes, everything else is parsed and merged, and
  then the listeners hear of it.\<close>

definition handle_packet ::
  "'x callbacks \<Rightarrow> dict \<Rightarrow> state_source \<Rightarrow> string \<Rightarrow> dict option \<Rightarrow> device_category \<Rightarrow> candidate \<Rightarrow> ('x dispatcher, unit) io" where
  "handle_packet cb raw src d device category c =
     (if py_eq (get raw ''cmd'') (VInt 82) then
        bindS (outsideS (on_lock_message cb d (tagged src raw))) (\<lambda>_. merge_candidate cb d src c)
      else bindS (parse_packet cb d device (device_type_of device)
          (case device of None \<Rightarrow> VNone | Some dev \<Rightarrow> get dev ''sub_device_type'') category raw c) (\<lambda>c.
        bindS (merge_candidate cb d src c) (\<lambda>_.
        bindS (if concerns_lock device category raw then storeS (on_lock_event cb d (tagged src raw)) else retS ()) (\<lambda>_.
          modifyS (\<lambda>w. w\<lparr>di_outside := on_updated cb (di_outside w)\<rparr>)))))"

definition dispatch_known ::
  "'x callbacks \<Rightarrow> dict \<Rightarrow> state_source \<Rightarrow> string \<Rightarrow> ('x dispatcher, unit) io" where
  "dispatch_known cb raw src d =
     bindS (getS (\<lambda>w. state_of (di_store w) d)) (\<lambda>state.
     bindS (liftE (start_candidate state raw)) (\<lambda>c.
     bindS (modifyS (\<lambda>w. w\<lparr>di_last_update := AList.update d (wall_clock cb (di_outside w)) (di_last_update w)\<rparr>)) (\<lambda>_.
     bindS (getS (\<lambda>w. map_of (di_devices w) d)) (\<lambda>device.
     bindS (liftE (category_of cb device)) (\<lambda>category.
       handle_packet cb raw src d device category c)))))"

definition dispatch ::
  "'x callbacks \<Rightarrow> string \<Rightarrow> dict \<Rightarrow> state_source \<Rightarrow> ('x dispatcher, unit) io" where
  "dispatch cb incoming raw src =
     bindS (record_diagnostic cb incoming raw) (\<lambda>_.
     bindS (\<lambda>w. (resolve_device_id incoming (di_devices w) (st_states (di_store w)), w)) (\<lambda>r.
       case r of None \<Rightarrow> retS () | Some d \<Rightarrow> dispatch_known cb raw src d))"

section \<open>What a dispatch does to the store\<close>

lemma distinct_candidate_patch [simp]: "distinct (map fst (candidate_patch c))"
  by (simp add: candidate_patch_def comp_def)

definition keeps_store :: "('x dispatcher, 'a) io \<Rightarrow> bool" where
  "keeps_store m \<longleftrightarrow> (\<forall>w r w'. m w = (r, w') \<longrightarrow> di_store w' = di_store w)"

lemma keeps_store_simps [simp]:
  "keeps_store (retS x)" "keeps_store (liftE r)" "keeps_store (getS f)" "keeps_store (outsideS m)"
  by (auto simp: keeps_store_def outsideS_def split: prod.splits)

lemma keeps_store_modify [simp]: "(\<And>w. di_store (f w) = di_store w) \<Longrightarrow> keeps_store (modifyS f)"
  by (auto simp: keeps_store_def)

lemma keeps_store_bind: "keeps_store m \<Longrightarrow> (\<And>x. keeps_store (f x)) \<Longrightarrow> keeps_store (bindS m f)"
  by (fastforce simp: keeps_store_def bindS_def split: prod.splits sum.splits)

lemma parse_packet_keeps: "keeps_store (parse_packet cb d device dt st cat raw c)"
  unfolding parse_packet_def
  by (simp add: keeps_store_bind split: option.splits)

text \<open>The store after the packet's own merge.\<close>

definition merged_store :: "'x callbacks \<Rightarrow> string \<Rightarrow> state_source \<Rightarrow> dict \<Rightarrow> 'x \<Rightarrow> store \<Rightarrow> store" where
  "merged_store cb d src vs x s = snd (merge d vs src (monotonic cb x) False s)"

lemma merge_candidate_run:
  "merge_candidate cb d src c w
     = (Inr (), w\<lparr>di_store := merged_store cb d src (candidate_patch c) (di_outside w) (di_store w)\<rparr>)"
  by (simp add: merge_candidate_def merged_store_def)

lemma merged_store_changes:
  assumes "distinct (map fst vs)" "cell (merged_store cb d src vs x s) d' f \<noteq> cell s d' f"
  shows "d' = d \<and> f \<in> set (map fst vs)
    \<and> (\<exists>t. snd (cell (merged_store cb d src vs x s) d' f) = Some \<lparr>rev_source = src, rev_updated_at = t\<rparr>)"
proof -
  have d: "d' = d" using assms by (auto simp: merged_store_def cell_merge split: if_splits)
  then obtain v where v: "map_of vs f = Some v" using assms by (auto simp: merged_store_def cell_merge split: option.splits)
  then have "f \<in> set (map fst vs)" by (metis map_of_SomeD fst_conv image_eqI set_map)
  with d v assms show ?thesis by (auto simp: merged_store_def cell_merge merge_cell_def split: if_splits)
qed

lemma merged_store_keeps:
  assumes "snd (cell s d f) = Some \<lparr>rev_source = strong, rev_updated_at = t\<rparr>" "src < strong"
    and "monotonic cb x - t < st_guard s" "distinct (map fst vs)"
  shows "cell (merged_store cb d' src vs x s) d f = cell s d f" "st_guard (merged_store cb d' src vs x s) = st_guard s"
proof -
  let ?u = "\<lparr>up_device = d', up_values = vs, up_source = src, up_now = monotonic cb x, up_force = False\<rparr>"
  have "cell (store_update ?u s) d f = cell s d f"
    using assms by (intro ps.weaker_update_keeps [OF assms(1)]) (simp add: ps.weaker_def)
  then show "cell (merged_store cb d' src vs x s) d f = cell s d f" by (simp add: store_update_def merged_store_def)
  show "st_guard (merged_store cb d' src vs x s) = st_guard s" using assms(4) by (simp add: merged_store_def merge_guard)
qed

lemma handle_packet_merges:
  assumes "handle_packet cb raw src d device category c w = (r, w')"
  shows "di_store w' = di_store w \<and> \<not> returns r \<or>
    (\<exists>vs x. distinct (map fst vs) \<and>
      (di_store w' = merged_store cb d src vs x (di_store w) \<and> returns r \<or>
       concerns_lock device category raw \<and> (\<exists>y r' y'.
         on_lock_event cb d (tagged src raw) (merged_store cb d src vs x (di_store w), y) = (r', di_store w', y')
         \<and> returns r' = returns r)))"
proof (cases "py_eq (get raw ''cmd'') (VInt 82)")
  case True
  obtain q w1 where m: "outsideS (on_lock_message cb d (tagged src raw)) w = (q, w1)" by force
  then have s: "di_store w1 = di_store w" by (auto simp: outsideS_def split: prod.splits)
  show ?thesis
  proof (cases q)
    case (Inl e)
    then show ?thesis using assms m s True by (auto simp: handle_packet_def bindS_def)
  next
    case (Inr x)
    then have "r = Inr ()" "di_store w' = merged_store cb d src (candidate_patch c) (di_outside w1) (di_store w)"
      using assms m s True by (auto simp: handle_packet_def bindS_def merge_candidate_run)
    then show ?thesis by (intro disjI2 exI [where x = "candidate_patch c"] exI [where x = "di_outside w1"]) simp
  qed
next
  case False
  obtain q w1 where m: "parse_packet cb d device (device_type_of device)
      (case device of None \<Rightarrow> VNone | Some dev \<Rightarrow> get dev ''sub_device_type'') category raw c w = (q, w1)" by force
  then have s: "di_store w1 = di_store w" using parse_packet_keeps unfolding keeps_store_def by blast
  show ?thesis
  proof (cases q)
    case (Inl e)
    then show ?thesis using assms m s False by (auto simp: handle_packet_def bindS_def)
  next
    case (Inr c1)
    let ?s = "merged_store cb d src (candidate_patch c1) (di_outside w1) (di_store w)"
    have rest: "bindS (if concerns_lock device category raw then storeS (on_lock_event cb d (tagged src raw)) else retS ())
        (\<lambda>_. modifyS (\<lambda>w. w\<lparr>di_outside := on_updated cb (di_outside w)\<rparr>)) (w1\<lparr>di_store := ?s\<rparr>) = (r, w')"
      using assms m s False Inr by (simp add: handle_packet_def bindS_def merge_candidate_run cong: if_cong)
    show ?thesis
    proof (cases "concerns_lock device category raw")
      case True
      obtain r' s' y' where l: "on_lock_event cb d (tagged src raw) (?s, di_outside w1) = (r', s', y')"
        by (metis prod.exhaust)
      then have "di_store w' = s' \<and> returns r' = returns r"
        using rest True by (cases r') (auto simp: bindS_def storeS_def)
      with l True show ?thesis
        by (intro disjI2 exI [where x = "candidate_patch c1"] exI [where x = "di_outside w1"]) auto
    next
      case False
      then have "di_store w' = ?s" "r = Inr ()" using rest by auto
      then show ?thesis by (intro disjI2 exI [where x = "candidate_patch c1"] exI [where x = "di_outside w1"]) simp
    qed
  qed
qed

lemma dispatch_merges:
  assumes "dispatch cb incoming raw src w = (r, w')"
  shows "di_store w' = di_store w \<or>
    (\<exists>d vs x. resolve_device_id incoming (di_devices w) (st_states (di_store w)) = Inr (Some d) \<and> distinct (map fst vs) \<and>
      (di_store w' = merged_store cb d src vs x (di_store w) \<and> returns r \<or>
       (\<exists>category. category_of cb (map_of (di_devices w) d) = Inr category
          \<and> concerns_lock (map_of (di_devices w) d) category raw) \<and>
       (\<exists>y r' y'. on_lock_event cb d (tagged src raw) (merged_store cb d src vs x (di_store w), y) = (r', di_store w', y')
         \<and> returns r' = returns r)))"
proof -
  obtain w1 where w1: "record_diagnostic cb incoming raw w = (Inr (), w1)" "di_store w1 = di_store w"
    "di_devices w1 = di_devices w"
    by (simp add: record_diagnostic_def Let_def)
  show ?thesis
  proof (cases "resolve_device_id incoming (di_devices w) (st_states (di_store w))")
    case (Inl e)
    then show ?thesis using assms w1 by (simp add: dispatch_def bindS_def)
  next
    case (Inr res)
    show ?thesis
    proof (cases res)
      case None
      then show ?thesis using Inr assms w1 by (simp add: dispatch_def bindS_def)
    next
      case (Some d)
      then have known: "dispatch_known cb raw src d w1 = (r, w')"
        using Inr assms w1 by (simp add: dispatch_def bindS_def)
      show ?thesis
      proof (cases "start_candidate (state_of (di_store w) d) raw")
        case (Inl e)
        then show ?thesis using known w1 by (simp add: dispatch_known_def bindS_def)
      next
        case c: (Inr c)
        show ?thesis
        proof (cases "category_of cb (map_of (di_devices w) d)")
          case (Inl e)
          then show ?thesis using known w1 c by (auto simp: dispatch_known_def bindS_def)
        next
          case cat: (Inr category)
          have "handle_packet cb raw src d (map_of (di_devices w) d) category c
              (w1\<lparr>di_last_update := AList.update d (wall_clock cb (di_outside w1)) (di_last_update w1)\<rparr>) = (r, w')"
            using known w1 c cat by (simp add: dispatch_known_def bindS_def)
          from handle_packet_merges [OF this] Inr Some cat w1(2) show ?thesis by auto
        qed
      qed
    qed
  qed
qed

lemma matching_ids_sound:
  "matching_ids incoming devices states = Inr ids \<Longrightarrow> d \<in> set ids \<Longrightarrow>
     d \<in> fst ` set states"
  by (induction states arbitrary: ids) (auto simp: Let_def split: if_splits)

lemma deep_merge_leaf:
  assumes "distinct (map fst patch)" "map_of patch k = Some v" "\<not> is_dict v"
  shows "map_of (deep_merge merged patch) k = Some v"
  using assms
proof (induction patch arbitrary: merged)
  case Nil
  then show ?case by simp
next
  case (Cons p patch)
  obtain k' v' where p: "p = (k', v')" by (cases p)
  have keep: "map_of (deep_merge m patch) k' = map_of m k'" if "k' \<notin> fst ` set patch" for m k'
    using that by (induction patch arbitrary: m) (auto simp: dict_simps)
  show ?case
  proof (cases "k' = k")
    case True
    then have "v' = v" "k \<notin> fst ` set patch" using Cons.prems p by auto
    then show ?thesis using p True keep [of k] Cons.prems(3) by (cases v) (auto simp: dict_simps)
  next
    case False
    then show ?thesis using Cons p by auto
  qed
qed

text \<open>Callbacks that do nothing, for examples.\<close>

definition sample_callbacks :: "unit callbacks" where
  "sample_callbacks =
     \<lparr>on_motion = \<lambda>c raw d. retS [], on_emergency = \<lambda>c raw d. retS [], on_lock_transient = \<lambda>c raw d. retS [],
      on_lock_message = \<lambda>d raw. retS (), on_lock_event = \<lambda>d raw. retS (), on_updated = \<lambda>x. x,
      wall_clock = \<lambda>x. 0, monotonic = \<lambda>x. 10, known_models = \<lambda>k. None, text_of = \<lambda>v. [],
      diagnostic_limit = 200\<rparr>"

definition sample_dispatcher :: "store \<Rightarrow> unit dispatcher" where
  "sample_dispatcher s = \<lparr>di_devices = [], di_store = s, di_last_update = [], di_diagnostics = [], di_outside = ()\<rparr>"

section \<open>Listeners that only merge\<close>

text \<open>A listener for lock events is held to the rules of the store: it leaves the store alone or makes one unforced
  merge for the device of the packet, under \<open>SSL\<close> and with fields from a fixed list.\<close>

locale status_listener =
  fixes cb :: "'x callbacks" and listed :: "string list"
  assumes listener_merges: "on_lock_event cb d raw (s, y) = (r, s', y') \<Longrightarrow>
    s' = s \<or> (\<exists>vs x. map fst vs = listed \<and> s' = merged_store cb d SSL vs x s)"
    and listed_distinct: "distinct listed"
begin

text \<open>The store a dispatch can lead to.\<close>

lemma dispatch_stores:
  assumes "dispatch cb incoming raw src w = (r, w')"
  shows "di_store w' = di_store w \<or>
    (\<exists>d vs x. resolve_device_id incoming (di_devices w) (st_states (di_store w)) = Inr (Some d) \<and> distinct (map fst vs) \<and>
      (di_store w' = merged_store cb d src vs x (di_store w) \<and> (returns r \<or> (\<exists>category.
          category_of cb (map_of (di_devices w) d) = Inr category \<and> concerns_lock (map_of (di_devices w) d) category raw)) \<or>
       (\<exists>category. category_of cb (map_of (di_devices w) d) = Inr category
          \<and> concerns_lock (map_of (di_devices w) d) category raw) \<and>
       (\<exists>vs' x'. map fst vs' = listed \<and>
          di_store w' = merged_store cb d SSL vs' x' (merged_store cb d src vs x (di_store w)))))"
  using dispatch_merges [OF assms] listener_merges by blast

lemma dispatch_frame:
  assumes "dispatch cb incoming raw src w = (r, w')"
    and "resolve_device_id incoming (di_devices w) (st_states (di_store w)) \<noteq> Inr (Some d)"
  shows "cell (di_store w') d f = cell (di_store w) d f"
  using dispatch_stores [OF assms(1)] assms(2) listed_distinct by (auto simp: cell_merge merged_store_def)

text \<open>A field that a dispatch changes carries the source of one of the merges.\<close>

lemma dispatch_changes:
  assumes "dispatch cb incoming raw src w = (r, w')" "cell (di_store w') d f \<noteq> cell (di_store w) d f"
  shows "resolve_device_id incoming (di_devices w) (st_states (di_store w)) = Inr (Some d)
    \<and> (\<exists>t. snd (cell (di_store w') d f) = Some \<lparr>rev_source = src, rev_updated_at = t\<rparr>
        \<or> f \<in> set listed \<and> snd (cell (di_store w') d f) = Some \<lparr>rev_source = SSL, rev_updated_at = t\<rparr>
          \<and> (\<exists>category. category_of cb (map_of (di_devices w) d) = Inr category
              \<and> concerns_lock (map_of (di_devices w) d) category raw))"
proof -
  have d: "resolve_device_id incoming (di_devices w) (st_states (di_store w)) = Inr (Some d)"
    using dispatch_frame [OF assms(1), of d f] assms(2) by blast
  have one: ?thesis if "distinct (map fst vs)" "di_store w' = merged_store cb d src vs x (di_store w)" for vs x
    using merged_store_changes [OF that(1), of cb d src x "di_store w" d f] assms(2) d unfolding that(2) by blast
  have two: ?thesis if "distinct (map fst vs)" "map fst vs' = listed"
      "di_store w' = merged_store cb d SSL vs' x' (merged_store cb d src vs x (di_store w))"
      "\<exists>category. category_of cb (map_of (di_devices w) d) = Inr category
         \<and> concerns_lock (map_of (di_devices w) d) category raw" for vs x vs' x'
  proof (cases "cell (di_store w') d f = cell (merged_store cb d src vs x (di_store w)) d f")
    case True
    then show ?thesis
      using merged_store_changes [OF that(1), of cb d src x "di_store w" d f] assms(2) d by (metis (full_types))
  next
    case False
    then show ?thesis
      using merged_store_changes [of vs' cb d SSL x' "merged_store cb d src vs x (di_store w)" d f] that d listed_distinct
      unfolding that(3) by blast
  qed
  have "di_store w' \<noteq> di_store w" using assms(2) by auto
  with dispatch_stores [OF assms(1)] obtain d' vs x where
    "resolve_device_id incoming (di_devices w) (st_states (di_store w)) = Inr (Some d')" "distinct (map fst vs)"
    "di_store w' = merged_store cb d' src vs x (di_store w) \<or>
      (\<exists>category. category_of cb (map_of (di_devices w) d') = Inr category
          \<and> concerns_lock (map_of (di_devices w) d') category raw) \<and>
       (\<exists>vs' x'. map fst vs' = listed \<and>
          di_store w' = merged_store cb d' SSL vs' x' (merged_store cb d' src vs x (di_store w)))" by blast
  with one two d show ?thesis by auto
qed

text \<open>A value that a source stronger than the packet's and \<open>SSL\<close> has just set survives the packet.\<close>

lemma dispatch_respects_stronger_source:
  assumes "dispatch cb incoming raw src w = (r, w')"
    and "snd (cell (di_store w) d f) = Some \<lparr>rev_source = strong, rev_updated_at = t\<rparr>" "src < strong" "SSL < strong"
    and "\<And>x. monotonic cb x - t < st_guard (di_store w)"
  shows "cell (di_store w') d f = cell (di_store w) d f"
proof -
  have one: "cell (merged_store cb d' src vs x (di_store w)) d f = cell (di_store w) d f
      \<and> st_guard (merged_store cb d' src vs x (di_store w)) = st_guard (di_store w)" if "distinct (map fst vs)" for d' vs x
    using merged_store_keeps [OF assms(2,3) assms(5) that] by simp
  have "cell (merged_store cb d' SSL vs' x' s) d f = cell (di_store w) d f"
    if "cell s d f = cell (di_store w) d f" "st_guard s = st_guard (di_store w)" "distinct (map fst vs')" for d' vs' x' s
    using merged_store_keeps(1) [of s d f strong t SSL cb x' vs' d'] that assms(2,4,5) by simp
  with one dispatch_stores [OF assms(1)] listed_distinct show ?thesis by metis
qed

end

text \<open>The diagnostics never outgrow their limit, and a packet that is dispatched is the newest entry.\<close>

lemma diagnostics_bounded:
  "record_diagnostic cb incoming raw w = (r, w') \<Longrightarrow>
     length (di_diagnostics w') \<le> diagnostic_limit cb
     \<and> (0 < diagnostic_limit cb \<longrightarrow> dg_raw (last (di_diagnostics w')) = raw \<and> di_diagnostics w' \<noteq> [])"
  by (auto simp: record_diagnostic_def Let_def last_drop)

end
