(* ===== verification/Cloud_Inventory.thy ===== *)
theory Cloud_Inventory
  imports Json "HOL-Library.List_Lexorder" "HOL-Library.Char_ord"
begin

text \<open>
  \<^verbatim>\<open>protocol.py\<close>: what the cloud answers, read into normalized devices. \<open>parse_families\<close> and
  \<open>parse_readtable_devices\<close> read the tables of the web API, \<open>extract_devices\<close> the nested payloads of the
  binary protocol, \<open>device_to_dict\<close> turns a device into the record the rest of the program uses.

  \<open>repr\<close> is the text of floats and containers (see \<open>py_str\<close>). Reading an integer may raise: the code
  catches \<^verbatim>\<open>TypeError\<close> and \<^verbatim>\<open>ValueError\<close>, not the \<^verbatim>\<open>OverflowError\<close> of an infinite float. The nested
  functions of \<open>extract_devices\<close>, which share dictionaries, pass these along. UTF-8 bytes order
  strings as their code points do. MD5 and HMAC are arguments.
\<close>

section \<open>Fields\<close>

fun field_text :: "(pyval \<Rightarrow> string) \<Rightarrow> dict \<Rightarrow> string list \<Rightarrow> string" where
  "field_text repr item [] = []"
| "field_text repr item (k # ks) =
     (if get item k = VNone \<or> get item k = VStr [] then field_text repr item ks
      else py_strip (py_str repr (get item k)))"

definition safe_int_opt :: "pyval \<Rightarrow> int option py" where
  "safe_int_opt v = (if v = VNone then Inr None
     else catchE [TypeError, ValueError] (bindE (py_int v) (\<lambda>n. Inr (Some n))) None)"

fun parse_online :: "pyval \<Rightarrow> bool option" where
  "parse_online (VBool b) = Some b"
| "parse_online (VInt n) = (if n = 0 \<or> n = 1 then Some (n = 1) else None)"
| "parse_online (VStr s) =
     (let normalized = py_lower (py_strip s)
      in if normalized \<in> {''1'', ''true'', ''online'', ''connected''} then Some True
         else if normalized \<in> {''0'', ''false'', ''offline'', ''disconnected''} then Some False
         else None)"
| "parse_online _ = None"

fun parse_bool :: "pyval \<Rightarrow> bool" where
  "parse_bool (VBool b) = b"
| "parse_bool (VInt n) = (n = 1)"
| "parse_bool (VStr s) = (py_lower (py_strip s) \<in> {''1'', ''true'', ''yes'', ''on''})"
| "parse_bool _ = False"

definition parse_room :: "(pyval \<Rightarrow> string) \<Rightarrow> dict \<Rightarrow> (string, string) pydict \<Rightarrow> string" where
  "parse_room repr item room_names =
     (let room_name = field_text repr item [''roomName'', ''room'']
      in if room_name \<noteq> [] then room_name
         else let room_id = field_text repr item [''roomId'', ''roomID'']
           in if room_id \<noteq> [] then (case map_of room_names room_id of None \<Rightarrow> [] | Some n \<Rightarrow> n) else [])"

text \<open>\<^verbatim>\<open>row.get("delFlag") in (1, "1")\<close>\<close>

definition deleted :: "dict \<Rightarrow> bool" where
  "deleted row \<longleftrightarrow> py_eq (get row ''delFlag'') (VInt 1) \<or> py_eq (get row ''delFlag'') (VStr ''1'')"

fun dict_of_val :: "pyval \<Rightarrow> dict option" where
  "dict_of_val (VDict d) = Some d"
| "dict_of_val _ = None"

section \<open>Families\<close>

record orvibo_family =
  of_family_id :: string
  of_name :: string

definition first_truthy :: "pyval list \<Rightarrow> pyval" where
  "first_truthy vs = (case List.find truthy vs of Some v \<Rightarrow> v | None \<Rightarrow> last vs)"

definition add_family ::
  "(pyval \<Rightarrow> string) \<Rightarrow> pyval \<Rightarrow> orvibo_family list \<Rightarrow> orvibo_family list" where
  "add_family repr item families =
     (case dict_of_val item of None \<Rightarrow> families
      | Some d \<Rightarrow>
          let family_id = py_strip (py_str repr (first_truthy
                (map (get d) [''familyId'', ''family_id'', ''id''] @ [VStr []])))
          in if family_id = [] \<or> family_id \<in> set (map of_family_id families) then families
             else
               let name = py_strip (py_str repr (first_truthy
                     (map (get d) [''familyName'', ''family_name'', ''name''] @ [VStr family_id])))
               in families @ [\<lparr>of_family_id = family_id, of_name = if name = [] then family_id else name\<rparr>])"

definition parse_families :: "(pyval \<Rightarrow> string) \<Rightarrow> dict \<Rightarrow> orvibo_family list" where
  "parse_families repr payload =
     (let raw = dget payload ''data'' (VList []);
          raw = (case raw of VDict d \<Rightarrow> first_truthy (map (get d) [''families'', ''familyList'', ''list''] @ [VList []])
                 | _ \<Rightarrow> raw)
      in case raw of VList items \<Rightarrow> fold (add_family repr) items [] | _ \<Rightarrow> [])"

definition parse_families_to_dicts :: "(pyval \<Rightarrow> string) \<Rightarrow> dict \<Rightarrow> dict list" where
  "parse_families_to_dicts repr payload =
     map (\<lambda>f. [(''familyId'', VStr (of_family_id f)), (''familyName'', VStr (of_name f))]) (parse_families repr payload)"

section \<open>Tables\<close>

text \<open>A list of rows or a table keyed by the identifier: the rows with their key.\<close>

fun table_entries :: "pyval \<Rightarrow> (string option \<times> pyval) list" where
  "table_entries (VList rows) = map (\<lambda>r. (None, r)) rows"
| "table_entries (VDict d) = map (\<lambda>(k, r). (Some k, r)) d"
| "table_entries _ = []"

definition sdk_type :: "pyval \<Rightarrow> int option" where
  "sdk_type value =
     (case value of
        VInt n \<Rightarrow> Some n
      | VStr s \<Rightarrow>
          (let t = py_strip s; ds = (if starts_with ''+'' t \<or> starts_with ''-'' t then tl t else t)
           in if ds \<noteq> [] \<and> length ds \<le> 10 \<and> list_all (\<lambda>c. digit_val c \<noteq> None) ds then parse_int s else None)
      | _ \<Rightarrow> None)"

definition add_camera_type ::
  "string option \<times> pyval \<Rightarrow> (string, int option) pydict \<Rightarrow> (string, int option) pydict" where
  "add_camera_type entry result =
     (case dict_of_val (snd entry) of None \<Rightarrow> result
      | Some row \<Rightarrow>
          (case dget row ''uid'' (case fst entry of None \<Rightarrow> VNone | Some k \<Rightarrow> VStr k) of
             VStr uid \<Rightarrow>
               if py_strip uid = [] then result
               else AList.update (py_strip uid) (if deleted row then None else sdk_type (get row ''type'')) result
           | _ \<Rightarrow> result))"

definition parse_camera_types :: "pyval \<Rightarrow> (string, int option) pydict" where
  "parse_camera_types raw = fold add_camera_type (table_entries raw) []"

definition table_row :: "string option \<Rightarrow> string option \<times> pyval \<Rightarrow> dict list" where
  "table_row key_field entry =
     (case (dict_of_val (snd entry), key_field, fst entry) of
        (None, _, _) \<Rightarrow> []
      | (Some row, Some f, Some key) \<Rightarrow>
          (if f \<noteq> [] \<and> \<not> truthy (get row f) then
             let alias = (if drop (length f - 2) f = ''Id'' then get row (take (length f - 2) f @ ''ID'') else VNone)
             in [AList.update f (py_or alias (VStr key)) row]
           else [row])
      | (Some row, _, _) \<Rightarrow> [row])"

definition table_rows :: "pyval \<Rightarrow> string option \<Rightarrow> dict list" where
  "table_rows raw key_field = concat (map (table_row key_field) (table_entries raw))"

definition or_zero :: "int option \<Rightarrow> int" where
  "or_zero x = (case x of None \<Rightarrow> 0 | Some n \<Rightarrow> n)"

lemma or_zero_simps [simp]: "or_zero None = 0" "or_zero (Some n) = n"
  by (simp_all add: or_zero_def)

definition row_update_time :: "dict \<Rightarrow> int py" where
  "row_update_time row =
     bindE (safe_int_opt (get row ''updateTimeSec'')) (\<lambda>seconds.
     if or_zero seconds \<noteq> 0 then Inr (or_zero seconds * 1000)
     else bindE (safe_int_opt (get row ''updateTime'')) (\<lambda>t. Inr (or_zero t)))"

section \<open>Properties\<close>

function merge_properties :: "dict \<Rightarrow> dict \<Rightarrow> dict" where
  "merge_properties base [] = base"
| "merge_properties base ((k, v) # patch) =
     merge_properties
       (AList.update k (case (v, map_of base k) of
            (VDict pv, Some (VDict bv)) \<Rightarrow> VDict (merge_properties bv pv) | _ \<Rightarrow> v) base) patch"
  by pat_completeness auto
termination
  by (relation "measure (\<lambda>(b, p). size_list (size_prod (\<lambda>_. 0) size) p)") auto

type_synonym timed_properties = "dict \<times> (string, int) pydict"

definition inline_property :: "int \<Rightarrow> string \<times> pyval \<Rightarrow> timed_properties \<Rightarrow> timed_properties" where
  "inline_property timestamp kv pt =
     (if timestamp \<noteq> 0 \<and> timestamp < or_zero (map_of (snd pt) (fst kv)) then pt
      else (merge_properties (fst pt) [kv], AList.update (fst kv) timestamp (snd pt)))"

definition inline_properties :: "dict \<Rightarrow> timed_properties \<Rightarrow> timed_properties py" where
  "inline_properties owner pt =
     (case get owner ''properties'' of
        VDict raw \<Rightarrow> bindE (row_update_time owner) (\<lambda>timestamp. Inr (fold (inline_property timestamp) raw pt))
      | _ \<Rightarrow> Inr pt)"

text \<open>A text that looks like a JSON container is read as one, when it is one.\<close>

fun decoded_value :: "pyval \<Rightarrow> pyval" where
  "decoded_value (VStr s) =
     (let t = dropWhile is_space s
      in if starts_with ''{'' t \<or> starts_with ''['' t
         then (case loads s of None \<Rightarrow> VStr s | Some v \<Rightarrow> v) else VStr s)"
| "decoded_value v = v"

definition property_row :: "dict \<Rightarrow> timed_properties \<Rightarrow> timed_properties py" where
  "property_row row pt =
     (case get row ''property'' of
        VStr key \<Rightarrow>
          if py_strip key = [] \<or> \<not> deleted row \<and> \<not> has_key row ''value'' then Inr pt
          else bindE (row_update_time row) (\<lambda>timestamp.
            if timestamp \<noteq> 0 \<and> timestamp < or_zero (map_of (snd pt) key) then Inr pt
            else Inr (if deleted row then AList.delete key (fst pt)
                      else merge_properties (fst pt) [(key, decoded_value (get row ''value''))],
                      AList.update key timestamp (snd pt)))
      | _ \<Rightarrow> Inr pt)"

definition readtable_properties :: "dict \<Rightarrow> dict \<Rightarrow> dict list \<Rightarrow> dict py" where
  "readtable_properties device status rows =
     bindE (foldE inline_properties [device, status] ([], [])) (\<lambda>pt.
     bindE (foldE property_row rows pt) (\<lambda>pt. Inr (fst pt)))"

section \<open>Devices of the web API\<close>

record orvibo_device =
  od_uid :: string
  od_name :: string
  od_model :: string
  od_device_type :: string
  od_sub_device_type :: string
  od_room :: string
  od_parent_uid :: string
  od_online :: "bool option"
  od_cloud_uid :: string
  od_value1 :: "int option"
  od_value2 :: "int option"
  od_value3 :: "int option"
  od_value4 :: "int option"
  od_class_id :: "int option"
  od_ui_model :: pyval
  od_ext_addr :: string
  od_status_id :: string
  od_app_device_id :: string
  od_gateway_id :: string
  od_class_name :: string
  od_device_flag :: "int option"
  od_is_rf_curtain :: bool
  od_combined_code :: "int option"
  od_endpoint :: int
  od_properties :: dict
  od_camera_type :: "int option"
  od_room_id :: string
  od_status :: dict

definition room_table :: "(pyval \<Rightarrow> string) \<Rightarrow> pyval \<Rightarrow> (string, string) pydict" where
  "room_table repr raw = fold (\<lambda>row names.
     if deleted row then names
     else let room_id = field_text repr row [''roomId'', ''roomID'']
       in if room_id = [] then names
          else AList.update room_id (field_text repr row [''roomName'']) names)
     (table_rows raw (Some ''roomId'')) []"

definition add_status ::
  "(pyval \<Rightarrow> string) \<Rightarrow> dict \<Rightarrow> (string, dict) pydict \<Rightarrow> (string, dict) pydict py" where
  "add_status repr row statuses =
     (let device_id = field_text repr row [''deviceId'', ''deviceID'']
      in if device_id = [] then Inr statuses
         else let previous = (case map_of statuses device_id of None \<Rightarrow> [] | Some p \<Rightarrow> p)
           in bindE (row_update_time row) (\<lambda>timestamp.
              if timestamp = 0 then Inr (AList.update device_id row statuses)
              else bindE (row_update_time previous) (\<lambda>before.
                Inr (if before \<le> timestamp then AList.update device_id row statuses else statuses))))"

definition status_table :: "(pyval \<Rightarrow> string) \<Rightarrow> pyval \<Rightarrow> (string, dict) pydict py" where
  "status_table repr raw = foldE (add_status repr) (table_rows raw (Some ''deviceId'')) []"

definition property_table :: "(pyval \<Rightarrow> string) \<Rightarrow> pyval \<Rightarrow> (string, dict list) pydict" where
  "property_table repr raw = fold (\<lambda>row table.
     let device_id = field_text repr row [''deviceId'', ''deviceID'']
     in if device_id = [] then table
        else AList.update device_id ((case map_of table device_id of None \<Rightarrow> [] | Some rows \<Rightarrow> rows) @ [row]) table)
     (table_rows raw None) []"

definition joined_status :: "dict \<Rightarrow> dict option \<Rightarrow> dict" where
  "joined_status item table_status =
     (let status = (case get item ''status'' of VDict d \<Rightarrow> d | _ \<Rightarrow> []);
          status = (case table_status of None \<Rightarrow> status
             | Some row \<Rightarrow> if deleted row then [] else dict_merge status row)
      in if deleted status then [] else status)"

definition class_id_of :: "dict \<Rightarrow> dict \<Rightarrow> int option py" where
  "class_id_of item properties =
     bindE (safe_int_opt (get item ''classId'')) (\<lambda>c.
     if c \<noteq> None then Inr c
     else case dget properties ''Descriptor'' (VDict []) of
            VDict descriptor \<Rightarrow> safe_int_opt (get descriptor ''classId'') | _ \<Rightarrow> Inr None)"

definition NAME_KEYS :: "string list" where
  "NAME_KEYS = [''deviceName'', ''devName'', ''name'', ''nickName'', ''nickname'']"
definition MODEL_KEYS :: "string list" where
  "MODEL_KEYS = [''model'', ''modelName'', ''modelId'', ''modelID'', ''productName'', ''productId'', ''productID'']"
definition TYPE_KEYS :: "string list" where
  "TYPE_KEYS = [''deviceType'', ''devType'', ''type'', ''category'', ''deviceCategory'']"
definition PARENT_KEYS :: "string list" where
  "PARENT_KEYS = [''parentUid'', ''parentId'', ''parentID'', ''gatewayUid'', ''hubUid'']"

definition readtable_device ::
  "(pyval \<Rightarrow> string) \<Rightarrow> (string, string) pydict \<Rightarrow> (string, int option) pydict \<Rightarrow> string \<Rightarrow> dict \<Rightarrow> dict
     \<Rightarrow> dict list \<Rightarrow> orvibo_device py" where
  "readtable_device repr room_names camera_types device_id item status rows =
     (let value_of = (\<lambda>k. safe_int_opt (dget status k (get item k)))
      in bindE (value_of ''value1'') (\<lambda>v1. bindE (value_of ''value2'') (\<lambda>v2.
         bindE (value_of ''value3'') (\<lambda>v3. bindE (value_of ''value4'') (\<lambda>v4.
         bindE (readtable_properties item status rows) (\<lambda>properties.
         bindE (class_id_of item properties) (\<lambda>class_id.
         bindE (safe_int_opt (get item ''deviceFlag'')) (\<lambda>device_flag.
         bindE (safe_int_opt (dget item ''combinedCode'' (get item ''combineCode''))) (\<lambda>combined_code.
         bindE (safe_int_opt (get item ''endpoint'')) (\<lambda>endpoint.
         Inr \<lparr>od_uid = device_id,
           od_name = field_text repr item NAME_KEYS,
           od_model = field_text repr item MODEL_KEYS,
           od_device_type = field_text repr item TYPE_KEYS,
           od_sub_device_type = field_text repr item [''subDeviceType'', ''subDevType''],
           od_room = parse_room repr item room_names,
           od_parent_uid = field_text repr item PARENT_KEYS,
           od_online = parse_online (dget status ''online'' (get item ''online'')),
           od_cloud_uid = field_text repr item [''uid''],
           od_value1 = v1, od_value2 = v2, od_value3 = v3, od_value4 = v4,
           od_class_id = class_id,
           od_ui_model = (case dget item ''ui'' (VDict []) of
              VDict ui \<Rightarrow> dget ui ''model'' (VStr []) | _ \<Rightarrow> VStr []),
           od_ext_addr = field_text repr item [''extAddr'', ''extAddress''],
           od_status_id = field_text repr item [''statusId'', ''statusID''],
           od_app_device_id = field_text repr item [''appDeviceId'', ''appDeviceID''],
           od_gateway_id = field_text repr item [''gatewayId'', ''gatewayID''],
           od_class_name = field_text repr item [''className''],
           od_device_flag = device_flag,
           od_is_rf_curtain = parse_bool (dget item ''isRFCurtain'' (get item ''is_rf_curtain'')),
           od_combined_code = combined_code,
           od_endpoint = or_zero endpoint,
           od_properties = properties,
           od_camera_type = (case map_of camera_types (field_text repr item [''uid'']) of None \<Rightarrow> None | Some t \<Rightarrow> t),
           od_room_id = field_text repr item [''roomId'', ''roomID''],
           od_status = (if has_key status ''properties'' then AList.update ''properties'' (VDict properties) status
                        else status)\<rparr>))))))))))"

definition add_readtable_device ::
  "(pyval \<Rightarrow> string) \<Rightarrow> (string, string) pydict \<Rightarrow> (string, int option) pydict \<Rightarrow> (string, dict) pydict
     \<Rightarrow> (string, dict list) pydict \<Rightarrow> dict \<Rightarrow> (string, orvibo_device) pydict \<Rightarrow> (string, orvibo_device) pydict py" where
  "add_readtable_device repr room_names camera_types statuses property_rows item devices =
     (if deleted item then Inr devices
      else
        let device_id = field_text repr item [''deviceId'', ''deviceID'', ''deviceUid'', ''deviceUUID'', ''uid'']
        in if device_id = [] then Inr devices
           else bindE (readtable_device repr room_names camera_types device_id item
                  (joined_status item (map_of statuses device_id))
                  (case map_of property_rows device_id of None \<Rightarrow> [] | Some rows \<Rightarrow> rows))
                (\<lambda>dev. Inr (AList.update device_id dev devices)))"

definition by_uid :: "(string, orvibo_device) pydict \<Rightarrow> orvibo_device list" where
  "by_uid devices = sort_key od_uid (map snd devices)"

definition parse_readtable_devices :: "(pyval \<Rightarrow> string) \<Rightarrow> dict \<Rightarrow> orvibo_device list py" where
  "parse_readtable_devices repr payload =
     (case get payload ''data'' of
        VDict data \<Rightarrow>
          bindE (status_table repr (get data ''deviceStatus'')) (\<lambda>statuses.
          bindE (foldE (add_readtable_device repr (room_table repr (get data ''room''))
                   (parse_camera_types (get data ''cameraInfo'')) statuses
                   (property_table repr (get data ''devicePropertyStatus'')))
                 (table_rows (get data ''device'') (Some ''deviceId'')) []) (\<lambda>devices.
          Inr (by_uid devices)))
      | _ \<Rightarrow> Inr [])"

definition parse_readtable_rooms :: "(pyval \<Rightarrow> string) \<Rightarrow> dict \<Rightarrow> (string, string) pydict" where
  "parse_readtable_rooms repr payload =
     (case get payload ''data'' of
        VDict data \<Rightarrow>
          (case dget data ''room'' (VList []) of
             VList items \<Rightarrow> fold (\<lambda>item rooms.
               case dict_of_val item of None \<Rightarrow> rooms
               | Some row \<Rightarrow>
                   if deleted row then rooms
                   else let room_id = field_text repr row [''roomId'', ''roomID''];
                            room_name = field_text repr row [''roomName'']
                     in if room_id \<noteq> [] \<and> room_name \<noteq> [] then AList.update room_id room_name rooms else rooms)
               items []
           | _ \<Rightarrow> [])
      | _ \<Rightarrow> [])"

section \<open>Devices of the binary protocol\<close>

definition table_tag :: "string \<Rightarrow> string" where
  "table_tag s = filter (\<lambda>c. c \<noteq> CHR ''_'') (py_lower s)"

lemma size_snd_less: "kv \<in> set d \<Longrightarrow> size (snd kv) < Suc (size_list (size_prod (\<lambda>_. 0) size) d)"
  by (induction d) auto

lemma size_elem_less: "v \<in> set vs \<Longrightarrow> size v < Suc (size_list size vs)"
  by (induction vs) auto

function collect_camera_types ::
  "(pyval \<Rightarrow> string) \<Rightarrow> pyval \<Rightarrow> (string, int option) pydict \<Rightarrow> (string, int option) pydict" where
  "collect_camera_types repr v t =
     (case v of
        VList vs \<Rightarrow> fold (\<lambda>v t. collect_camera_types repr v t) vs t
      | VDict d \<Rightarrow>
          fold (\<lambda>kv t. if table_tag (fst kv) = ''camerainfo'' then dict_merge t (parse_camera_types (snd kv))
                 else collect_camera_types repr (snd kv) t) d
            (if table_tag (py_strip (py_str repr (dget d ''tableName'' (VStr [])))) = ''camerainfo''
             then dict_merge t (parse_camera_types (get d ''dataList'')) else t)
      | _ \<Rightarrow> t)"
  by pat_completeness auto
termination
  by (relation "measure (\<lambda>(repr, v, t). size v)") (auto simp: size_elem_less dest: size_snd_less)

function collect_room_names ::
  "(pyval \<Rightarrow> string) \<Rightarrow> pyval \<Rightarrow> (string, string) pydict \<Rightarrow> (string, string) pydict" where
  "collect_room_names repr v t =
     (case v of
        VList vs \<Rightarrow> fold (\<lambda>v t. collect_room_names repr v t) vs t
      | VDict d \<Rightarrow>
          (let room_id = field_text repr d [''roomId'', ''roomID'']; room_name = field_text repr d [''roomName'']
           in fold (\<lambda>kv t. collect_room_names repr (snd kv) t) d
                (if room_id \<noteq> [] \<and> room_name \<noteq> [] then AList.update room_id room_name t else t))
      | _ \<Rightarrow> t)"
  by pat_completeness auto
termination
  by (relation "measure (\<lambda>(repr, v, t). size v)") (auto simp: size_elem_less dest: size_snd_less)

declare collect_camera_types.simps [simp del] collect_room_names.simps [simp del]

lemma foldE_cong [fundef_cong]:
  "xs = ys \<Longrightarrow> (\<And>x s. x \<in> set ys \<Longrightarrow> f x s = g x s) \<Longrightarrow> foldE f xs = foldE g ys"
proof (induction xs arbitrary: ys)
  case (Cons x xs)
  have "foldE f xs = foldE g xs"
    using Cons.prems(2) by (intro Cons.IH) (simp_all flip: Cons.prems(1))
  then show ?case using Cons.prems by (auto intro!: ext)
qed auto

definition BINARY_ID_KEYS :: "string list" where
  "BINARY_ID_KEYS = [''deviceId'', ''deviceID'', ''deviceUid'', ''deviceUUID'', ''deviceUuid'', ''uuid'', ''uid'']"
definition DEVICE_MARKERS :: "string list" where
  "DEVICE_MARKERS = [''uid'', ''extAddr'', ''deviceName'', ''devName'', ''deviceType'', ''devType'', ''model'',
     ''modelName'', ''productId'', ''productID'']"
definition DEVICE_TABLES :: "string list" where
  "DEVICE_TABLES = [''device'', ''devices'', ''devicelist'', ''privacydevice'', ''privacydevices'']"

definition binary_device ::
  "(pyval \<Rightarrow> string) \<Rightarrow> (string, string) pydict \<Rightarrow> string \<Rightarrow> dict \<Rightarrow> orvibo_device py" where
  "binary_device repr room_names uid value =
     (let int_of = (\<lambda>k. safe_int_opt (get value k))
      in bindE (int_of ''value1'') (\<lambda>v1. bindE (int_of ''value2'') (\<lambda>v2.
         bindE (int_of ''value3'') (\<lambda>v3. bindE (int_of ''value4'') (\<lambda>v4.
         bindE (int_of ''classId'') (\<lambda>class_id. bindE (int_of ''deviceFlag'') (\<lambda>device_flag.
         bindE (safe_int_opt (dget value ''combinedCode'' (get value ''combineCode''))) (\<lambda>combined_code.
         bindE (int_of ''endpoint'') (\<lambda>endpoint.
         Inr \<lparr>od_uid = uid,
           od_name = field_text repr value NAME_KEYS,
           od_model = field_text repr value MODEL_KEYS,
           od_device_type = field_text repr value TYPE_KEYS,
           od_sub_device_type = field_text repr value [''subDeviceType'', ''subDevType''],
           od_room = parse_room repr value room_names,
           od_parent_uid = field_text repr value PARENT_KEYS,
           od_online = parse_online (case List.find (has_key value) [''online'', ''isOnline'', ''connected''] of
              None \<Rightarrow> VNone | Some k \<Rightarrow> get value k),
           od_cloud_uid = field_text repr value [''uid''],
           od_value1 = v1, od_value2 = v2, od_value3 = v3, od_value4 = v4,
           od_class_id = class_id,
           od_ui_model = VStr (case get value ''ui'' of VDict ui \<Rightarrow> py_str repr (dget ui ''model'' (VStr [])) | _ \<Rightarrow> []),
           od_ext_addr = field_text repr value [''extAddr'', ''extAddress''],
           od_status_id = field_text repr value [''statusId'', ''statusID''],
           od_app_device_id = field_text repr value [''appDeviceId'', ''appDeviceID''],
           od_gateway_id = field_text repr value [''gatewayId'', ''gatewayID''],
           od_class_name = field_text repr value [''className''],
           od_device_flag = device_flag,
           od_is_rf_curtain = parse_bool (dget value ''isRFCurtain'' (get value ''is_rf_curtain'')),
           od_combined_code = combined_code,
           od_endpoint = or_zero endpoint,
           od_properties = (case get value ''properties'' of VDict p \<Rightarrow> p | _ \<Rightarrow> []),
           od_camera_type = None, od_room_id = [], od_status = []\<rparr>)))))))))"

definition or_text :: "string \<Rightarrow> string \<Rightarrow> string" where
  "or_text a b = (if a = [] then b else a)"

definition or_option :: "'a option \<Rightarrow> 'a option \<Rightarrow> 'a option" where
  "or_option a b = (if a = None then b else a)"

definition merge_device :: "orvibo_device \<Rightarrow> orvibo_device \<Rightarrow> orvibo_device" where
  "merge_device candidate previous =
     \<lparr>od_uid = od_uid candidate,
      od_name = or_text (od_name candidate) (od_name previous),
      od_model = or_text (od_model candidate) (od_model previous),
      od_device_type = or_text (od_device_type candidate) (od_device_type previous),
      od_sub_device_type = or_text (od_sub_device_type candidate) (od_sub_device_type previous),
      od_room = or_text (od_room candidate) (od_room previous),
      od_parent_uid = or_text (od_parent_uid candidate) (od_parent_uid previous),
      od_online = or_option (od_online candidate) (od_online previous),
      od_cloud_uid = or_text (od_cloud_uid candidate) (od_cloud_uid previous),
      od_value1 = or_option (od_value1 candidate) (od_value1 previous),
      od_value2 = or_option (od_value2 candidate) (od_value2 previous),
      od_value3 = or_option (od_value3 candidate) (od_value3 previous),
      od_value4 = or_option (od_value4 candidate) (od_value4 previous),
      od_class_id = (if or_zero (od_class_id candidate) = 0 then od_class_id previous else od_class_id candidate),
      od_ui_model = py_or (od_ui_model candidate) (od_ui_model previous),
      od_ext_addr = or_text (od_ext_addr candidate) (od_ext_addr previous),
      od_status_id = or_text (od_status_id candidate) (od_status_id previous),
      od_app_device_id = or_text (od_app_device_id candidate) (od_app_device_id previous),
      od_gateway_id = or_text (od_gateway_id candidate) (od_gateway_id previous),
      od_class_name = or_text (od_class_name candidate) (od_class_name previous),
      od_device_flag = or_option (od_device_flag candidate) (od_device_flag previous),
      od_is_rf_curtain = (od_is_rf_curtain candidate \<or> od_is_rf_curtain previous),
      od_combined_code = or_option (od_combined_code candidate) (od_combined_code previous),
      od_endpoint = (if od_endpoint candidate = 0 then od_endpoint previous else od_endpoint candidate),
      od_properties = (if od_properties candidate = [] then od_properties previous else od_properties candidate),
      od_camera_type = None, od_room_id = [], od_status = []\<rparr>"

definition table_of_row :: "dict \<Rightarrow> string option \<Rightarrow> string option" where
  "table_of_row value table_name =
     (case get value ''tableName'' of
        VStr s \<Rightarrow> if py_strip s = [] then table_name else Some (table_tag (py_strip s))
      | _ \<Rightarrow> table_name)"

definition visit_row ::
  "(pyval \<Rightarrow> string) \<Rightarrow> (string, string) pydict \<Rightarrow> dict \<Rightarrow> string option
     \<Rightarrow> (string, orvibo_device) pydict \<Rightarrow> (string, orvibo_device) pydict py" where
  "visit_row repr room_names value table_name devices =
     (let uid = field_text repr value BINARY_ID_KEYS;
          is_device_row = list_ex (\<lambda>k. get value k \<noteq> VNone \<and> get value k \<noteq> VStr []) DEVICE_MARKERS;
          is_device_table = (case table_name of None \<Rightarrow> True | Some t \<Rightarrow> t \<in> set DEVICE_TABLES)
      in if 6 \<le> py_len uid \<and> is_device_row \<and> is_device_table then
           bindE (binary_device repr room_names uid value) (\<lambda>candidate.
             Inr (AList.update uid (case map_of devices uid of None \<Rightarrow> candidate
                 | Some previous \<Rightarrow> merge_device candidate previous) devices))
         else Inr devices)"

fun is_container :: "pyval \<Rightarrow> bool" where
  "is_container (VList _) = True"
| "is_container (VDict _) = True"
| "is_container _ = False"

function visit ::
  "(pyval \<Rightarrow> string) \<Rightarrow> (string, string) pydict \<Rightarrow> pyval \<Rightarrow> string option
     \<Rightarrow> (string, orvibo_device) pydict \<Rightarrow> (string, orvibo_device) pydict py" where
  "visit repr room_names value table_name devices =
     (case value of
        VList vs \<Rightarrow> foldE (\<lambda>v t. visit repr room_names v table_name t) vs devices
      | VDict d \<Rightarrow>
          (let table = table_of_row d table_name
           in bindE (visit_row repr room_names d table devices) (\<lambda>devices.
              foldE (\<lambda>kv t. if is_container (snd kv)
                       then visit repr room_names (snd kv) (if table_tag (fst kv) = ''camerainfo'' then Some ''camerainfo'' else table) t
                       else Inr t) d devices))
      | _ \<Rightarrow> Inr devices)"
  by pat_completeness auto
termination
  by (relation "measure (\<lambda>(repr, r, v, n, t). size v)") (auto simp: size_elem_less dest: size_snd_less)

declare visit.simps [simp del]

definition extract_devices :: "(pyval \<Rightarrow> string) \<Rightarrow> pyval \<Rightarrow> orvibo_device list py" where
  "extract_devices repr payloads =
     (let camera_types = collect_camera_types repr payloads [];
          room_names = collect_room_names repr payloads []
      in bindE (visit repr room_names payloads None []) (\<lambda>devices.
         Inr (map (\<lambda>d. d\<lparr>od_camera_type :=
             (case map_of camera_types (od_cloud_uid d) of None \<Rightarrow> None | Some t \<Rightarrow> t)\<rparr>) (by_uid devices))))"

section \<open>The records of the program\<close>

definition STOPPED :: string where "STOPPED = chars [229, 129, 156]"

definition HA_DEVICE_TYPES :: "(int \<times> string) list" where
  "HA_DEVICE_TYPES =
     [(1, ''light''), (34, ''cover''), (35, ''cover''), (36, ''climate''), (38, ''light''), (43, ''switch''),
      (14, ''sensor''), (162, ''sensor''), (46, ''sensor''), (52, ''clothes_horse''), (25, ''sensor''),
      (26, ''sensor''), (27, ''sensor''), (56, ''sensor''), (54, ''sensor''), (501, ''light''), (502, ''light''),
      (503, ''light''), (516, ''fan''), (522, ''sensor''), (116, ''light''), (506, ''cover''), (22, ''sensor''),
      (23, ''sensor''), (81, ''climate'')]"

definition HA_CLASS_IDS :: "(int \<times> string) list" where
  "HA_CLASS_IDS = [(426, ''light''), (429, ''light''), (436, ''light''), (1114, ''fan'')]"

definition infer_ha_device_type :: "orvibo_device \<Rightarrow> string py" where
  "infer_ha_device_type device =
     bindE (safe_int_opt (VStr (od_device_type device))) (\<lambda>dt.
     bindE (safe_int_opt (VStr (od_sub_device_type device))) (\<lambda>sub. Inr
       (if dt = Some 0 then ''light''
        else if dt = Some 102 then ''light''
        else if dt = Some 112 then
          (if sub = Some (- 2) \<and> (py_eq (od_ui_model device) (VStr ''orb_floorheat'')
               \<or> od_model device = ''2ac836760da10748856a7e4eafb91efa'') then ''climate'' else ''unknown'')
        else if dt = Some 10086 then ''unknown''
        else if dt = Some 300 then
          (if sub = Some 481 then ''climate'' else if sub = Some 491 then ''sensor'' else ''unknown'')
        else if dt = Some 506 then (if sub = Some 408 then ''cover'' else ''unknown'')
        else if dt = Some 501 then (if sub = Some 426 \<or> sub = Some 429 then ''light'' else ''unknown'')
        else if dt = Some 502 then (if sub = Some 431 then ''light'' else ''unknown'')
        else if dt = Some 503 then (if sub = Some 436 \<or> sub = Some 461 then ''light'' else ''unknown'')
        else if dt = Some 522 then (if sub = Some 463 then ''sensor'' else ''unknown'')
        else case (if or_zero dt = 0 then None else map_of HA_DEVICE_TYPES (or_zero dt)) of
            Some platform \<Rightarrow> platform
          | None \<Rightarrow>
              (case (if or_zero (od_class_id device) = 0 then None else map_of HA_CLASS_IDS (or_zero (od_class_id device))) of
                 Some platform \<Rightarrow> platform | None \<Rightarrow> ''unknown''))))"

definition infer_initial_state :: "orvibo_device \<Rightarrow> bool py" where
  "infer_initial_state device =
     bindE (safe_int_opt (VStr (od_device_type device))) (\<lambda>dt. Inr
       (case od_value1 device of None \<Rightarrow> False
        | Some v1 \<Rightarrow>
            if dt \<in> Some ` {1, 102, 38, 503, 0, 43} then v1 = 0
            else if dt \<in> Some ` {135, 136, 137, 143, 518} then v1 = 1
            else if dt = Some 112 then bit v1 3
            else if dt = Some 34 \<or> dt = Some 52 then 0 < v1
            else False))"

definition device_to_dict :: "orvibo_device \<Rightarrow> dict py" where
  "device_to_dict device =
     bindE (infer_initial_state device) (\<lambda>initial_state.
     bindE (infer_ha_device_type device) (\<lambda>platform.
     bindE (safe_int_opt (VStr (od_device_type device))) (\<lambda>dt.
     bindE (safe_int_opt (VStr (od_sub_device_type device))) (\<lambda>sub.
     Inr [(''device_id'', VStr (od_uid device)),
       (''device_name'', VStr (od_name device)),
       (''device_type'', VStr platform),
       (''device_type_raw'', of_opt_int dt),
       (''camera_type'', of_opt_int (od_camera_type device)),
       (''sub_device_type'', of_opt_int sub),
       (''class_id'', of_opt_int (od_class_id device)),
       (''uid'', VStr (od_cloud_uid device)),
       (''status_id'', VStr (od_status_id device)),
       (''app_device_id'', VStr (od_app_device_id device)),
       (''gateway_id'', VStr (od_gateway_id device)),
       (''ext_addr'', VStr (od_ext_addr device)),
       (''model'', VStr (od_model device)),
       (''ui_model'', od_ui_model device),
       (''room_id'', VStr (od_room_id device)),
       (''room_name'', VStr (od_room device)),
       (''online'', VBool (od_online device = Some True)),
       (''state'', VBool initial_state),
       (''position'', VInt (or_zero (od_value1 device))),
       (''brightness'', of_opt_int (od_value2 device)),
       (''color_temp'', of_opt_int (od_value3 device)),
       (''fan_speed'', VStr STOPPED),
       (''temperature'', VNone),
       (''properties'', VDict (od_properties device)),
       (''endpoint'', VInt (od_endpoint device)),
       (''class_name'', VStr (od_class_name device)),
       (''device_flag'', of_opt_int (od_device_flag device)),
       (''is_rf_curtain'', VBool (od_is_rf_curtain device)),
       (''combined_code'', of_opt_int (od_combined_code device)),
       (''status'', VDict (od_status device)),
       (''value1'', of_opt_int (od_value1 device)),
       (''value2'', of_opt_int (od_value2 device)),
       (''value3'', of_opt_int (od_value3 device)),
       (''value4'', of_opt_int (od_value4 device))]))))"

fun mapE :: "('a \<Rightarrow> 'e + 'b) \<Rightarrow> 'a list \<Rightarrow> 'e + 'b list" where
  "mapE f [] = Inr []"
| "mapE f (x # xs) = bindE (f x) (\<lambda>y. bindE (mapE f xs) (\<lambda>ys. Inr (y # ys)))"

definition parse_readtable_to_device_dicts :: "(pyval \<Rightarrow> string) \<Rightarrow> dict \<Rightarrow> dict list py" where
  "parse_readtable_to_device_dicts repr payload =
     bindE (parse_readtable_devices repr payload) (mapE device_to_dict)"

section \<open>Credentials and signed requests\<close>

definition upper_char :: "char \<Rightarrow> char" where
  "upper_char c = (if 97 \<le> byte c \<and> byte c \<le> 122 then char_of (byte c - 32) else c)"

definition py_upper :: "string \<Rightarrow> string" where
  "py_upper s = map upper_char s"

definition is_digest :: "string \<Rightarrow> bool" where
  "is_digest s \<longleftrightarrow> length s = 32 \<and> list_all (\<lambda>c. c \<in> set ''ABCDEF0123456789'') s"

definition password_hash :: "(string \<Rightarrow> string) \<Rightarrow> string \<Rightarrow> string" where
  "password_hash md5_hex password = py_upper (md5_hex password)"

definition normalize_password_hash :: "(pyval \<Rightarrow> string) \<Rightarrow> pyval \<Rightarrow> string py" where
  "normalize_password_hash repr value =
     (let digest = py_upper (py_strip (py_str repr (py_or value (VStr []))))
      in if is_digest digest then Inr digest else Inl ValueError)"

definition migrate_password_credentials :: "(pyval \<Rightarrow> string) \<Rightarrow> (string \<Rightarrow> string) \<Rightarrow> dict \<Rightarrow> dict py" where
  "migrate_password_credentials repr md5_hex data =
     bindE (if truthy (get data ''password_hash'') then normalize_password_hash repr (get data ''password_hash'')
            else case get data ''password'' of
              VStr plaintext \<Rightarrow> if plaintext = [] then Inl ValueError else Inr (password_hash md5_hex plaintext)
            | _ \<Rightarrow> Inl ValueError) (\<lambda>digest.
     Inr (AList.delete ''password'' (AList.update ''password_hash'' (VStr digest) data)))"

definition HMAC_SECRET :: string where "HMAC_SECRET = ''nQ45RjPtOws96jmH''"

fun join_amp :: "string list \<Rightarrow> string" where
  "join_amp [] = []"
| "join_amp [x] = x"
| "join_amp (x # xs) = x @ CHR ''&'' # join_amp xs"

definition sign_request ::
  "(pyval \<Rightarrow> string) \<Rightarrow> (string \<Rightarrow> string \<Rightarrow> string) \<Rightarrow> dict \<Rightarrow> string" where
  "sign_request repr hmac_hex body =
     (let canonical = join_amp (map (\<lambda>k. k @ ''='' @ py_str repr (get body k)) (sort (map fst body)))
      in py_upper (hmac_hex HMAC_SECRET (canonical @ ''&key='' @ HMAC_SECRET)))"

definition build_family_request ::
  "(pyval \<Rightarrow> string) \<Rightarrow> (string \<Rightarrow> string \<Rightarrow> string) \<Rightarrow> string \<Rightarrow> string \<Rightarrow> int \<Rightarrow> int \<Rightarrow> dict" where
  "build_family_request repr hmac_hex access_token user_id timestamp_ms nonce =
     (let body = [(''accessToken'', VStr access_token), (''userId'', VStr user_id),
            (''timestamp'', VStr (dec timestamp_ms)), (''random'', VStr (dec nonce))]
      in AList.update ''sign'' (VStr (sign_request repr hmac_hex body)) body)"

definition build_readtable_request ::
  "(pyval \<Rightarrow> string) \<Rightarrow> (string \<Rightarrow> string \<Rightarrow> string) \<Rightarrow> string \<Rightarrow> string \<Rightarrow> string \<Rightarrow> string \<Rightarrow> int \<Rightarrow> int
     \<Rightarrow> string \<Rightarrow> string \<Rightarrow> dict" where
  "build_readtable_request repr hmac_hex access_token user_id family_id session_id timestamp_ms serial nonce version =
     (let body = [(''accessToken'', VStr access_token), (''dataType'', VStr ''all''), (''deviceFlag'', VInt 0),
            (''familyId'', VStr family_id), (''lastUpdateTime'', VInt 0), (''pageIndex'', VInt 0),
            (''random'', VStr nonce), (''serial'', VInt serial), (''sessionId'', VStr session_id),
            (''timestamp'', VInt timestamp_ms), (''userId'', VStr user_id), (''userName'', VStr user_id),
            (''ver'', VStr version)]
      in AList.update ''sign'' (VStr (sign_request repr hmac_hex body)) body)"

section \<open>The inventory is a set of devices\<close>

declare field_text.simps [simp del]

text \<open>A table of devices under their own, non-empty identifiers, each of which satisfies \<open>P\<close>.\<close>

definition device_table :: "(orvibo_device \<Rightarrow> bool) \<Rightarrow> (string, orvibo_device) pydict \<Rightarrow> bool" where
  "device_table P t \<longleftrightarrow> distinct (map fst t) \<and> (\<forall>(k, d) \<in> set t. od_uid d = k \<and> k \<noteq> [] \<and> P d)"

lemma device_table_empty [simp]: "device_table P []"
  by (simp add: device_table_def)

lemma device_table_update:
  "device_table P t \<Longrightarrow> od_uid d = k \<Longrightarrow> k \<noteq> [] \<Longrightarrow> P d \<Longrightarrow> device_table P (AList.update k d t)"
  using set_update_subset [of k d t] by (auto simp: device_table_def)

lemma device_table_by_uid:
  assumes "device_table P t"
  shows "sorted (map od_uid (by_uid t)) \<and> distinct (map od_uid (by_uid t)) \<and>
    (\<forall>d \<in> set (by_uid t). od_uid d \<noteq> [] \<and> P d)"
proof -
  have "map od_uid (map snd t) = map fst t" using assms by (auto simp: device_table_def)
  moreover have "distinct (map fst t)" using assms by (simp add: device_table_def)
  ultimately have "distinct (map od_uid (map snd t))" by metis
  then have "distinct (map od_uid (by_uid t))"
    unfolding by_uid_def by (metis distinct_map distinct_sort set_sort)
  then show ?thesis using assms by (auto simp: by_uid_def device_table_def)
qed

lemma readtable_device_uid: "readtable_device repr rooms cams i item st rows = Inr d \<Longrightarrow> od_uid d = i"
  unfolding readtable_device_def Let_def by (elim bindE_InrE) auto

definition READTABLE_ID_KEYS :: "string list" where
  "READTABLE_ID_KEYS = [''deviceId'', ''deviceID'', ''deviceUid'', ''deviceUUID'', ''uid'']"

definition listed :: "(pyval \<Rightarrow> string) \<Rightarrow> dict list \<Rightarrow> orvibo_device \<Rightarrow> bool" where
  "listed repr rows d \<longleftrightarrow> (\<exists>row \<in> set rows. \<not> deleted row \<and> field_text repr row READTABLE_ID_KEYS = od_uid d)"

lemma add_readtable_device_table:
  assumes "add_readtable_device repr rooms cams sts prs item t = Inr t'" "device_table (listed repr rows) t"
    and "item \<in> set rows"
  shows "device_table (listed repr rows) t'"
proof (cases "t' = t")
  case False
  let ?uid = "field_text repr item READTABLE_ID_KEYS"
  obtain d st ps where d: "\<not> deleted item" "?uid \<noteq> []" "readtable_device repr rooms cams ?uid item st ps = Inr d"
    and t': "t' = AList.update ?uid d t"
    using assms(1) False by (auto simp: add_readtable_device_def Let_def READTABLE_ID_KEYS_def split: if_splits)
  have "od_uid d = ?uid" by (rule readtable_device_uid [OF d(3)])
  then show ?thesis unfolding t' using assms(2,3) d(1,2)
    by (intro device_table_update) (auto simp: listed_def)
qed (use assms in simp)

definition device_rows :: "dict \<Rightarrow> dict list" where
  "device_rows payload = (case get payload ''data'' of
     VDict data \<Rightarrow> table_rows (get data ''device'') (Some ''deviceId'') | _ \<Rightarrow> [])"

text \<open>C22. What the cloud lists is read as a set: the devices of a readtable answer come sorted by their
  identifiers, no identifier is empty or occurs twice, and each belongs to a row of the device table that
  is not marked as deleted, however the tables repeat, key or mix their rows.\<close>

theorem inventory_is_a_set:
  assumes "parse_readtable_devices repr payload = Inr ds"
  shows "sorted (map od_uid ds) \<and> distinct (map od_uid ds) \<and>
    (\<forall>d \<in> set ds. od_uid d \<noteq> [] \<and> listed repr (device_rows payload) d)"
proof (cases "get payload ''data''")
  case (VDict data)
  from assms obtain sts t where t:
    "foldE (add_readtable_device repr (room_table repr (get data ''room'')) (parse_camera_types (get data ''cameraInfo'')) sts
       (property_table repr (get data ''devicePropertyStatus''))) (device_rows payload) [] = Inr t" "ds = by_uid t"
    by (auto simp: parse_readtable_devices_def VDict device_rows_def)
  have "device_table (listed repr (device_rows payload)) t"
    using t(1) by (rule foldE_invariant) (auto intro: add_readtable_device_table)
  from device_table_by_uid [OF this] show ?thesis by (simp add: t(2))
qed (use assms in \<open>simp_all add: parse_readtable_devices_def\<close>)

section \<open>Binary payloads\<close>

text \<open>What is known of a device stays known.\<close>

definition keeps :: "orvibo_device \<Rightarrow> orvibo_device \<Rightarrow> bool" where
  "keeps d d' \<longleftrightarrow> od_uid d' = od_uid d \<and>
     (\<forall>f \<in> {od_name, od_model, od_device_type, od_sub_device_type, od_room, od_parent_uid, od_cloud_uid,
        od_ext_addr, od_status_id, od_app_device_id, od_gateway_id, od_class_name}. f d \<noteq> [] \<longrightarrow> f d' \<noteq> []) \<and>
     (\<forall>f \<in> {od_value1, od_value2, od_value3, od_value4, od_device_flag, od_combined_code}. f d \<noteq> None \<longrightarrow> f d' \<noteq> None) \<and>
     (od_online d \<noteq> None \<longrightarrow> od_online d' \<noteq> None) \<and> (od_is_rf_curtain d \<longrightarrow> od_is_rf_curtain d') \<and>
     (od_endpoint d \<noteq> 0 \<longrightarrow> od_endpoint d' \<noteq> 0) \<and> (od_properties d \<noteq> [] \<longrightarrow> od_properties d' \<noteq> [])"

lemma keeps_refl [simp]: "keeps d d"
  by (simp add: keeps_def)

lemma keeps_trans: "keeps a b \<Longrightarrow> keeps b c \<Longrightarrow> keeps a c"
  by (simp add: keeps_def)

lemma keeps_merge: "od_uid c = od_uid p \<Longrightarrow> keeps p (merge_device c p) \<and> keeps c (merge_device c p)"
  by (simp add: keeps_def merge_device_def or_text_def or_option_def)

definition extends :: "(string, orvibo_device) pydict \<Rightarrow> (string, orvibo_device) pydict \<Rightarrow> bool" where
  "extends t t' \<longleftrightarrow> (\<forall>k d. map_of t k = Some d \<longrightarrow> (\<exists>d'. map_of t' k = Some d' \<and> keeps d d'))"

lemma extends_refl [simp]: "extends t t"
  by (auto simp: extends_def)

lemma extends_trans: "extends a b \<Longrightarrow> extends b c \<Longrightarrow> extends a c"
  unfolding extends_def by (meson keeps_trans)

definition binary_ok :: "orvibo_device \<Rightarrow> bool" where
  "binary_ok d \<longleftrightarrow> 6 \<le> py_len (od_uid d) \<and> od_room_id d = []"

lemma binary_device_uid: "binary_device repr rooms uid v = Inr d \<Longrightarrow> od_uid d = uid \<and> od_room_id d = []"
  unfolding binary_device_def Let_def by (elim bindE_InrE) auto

lemma py_len_nonempty: "6 \<le> py_len s \<Longrightarrow> s \<noteq> []"
  by (auto simp: py_len_def utf8_decode.simps [of "[]"])

lemma visit_row_step:
  assumes "visit_row repr rooms v n t = Inr t'" "device_table binary_ok t"
  shows "device_table binary_ok t' \<and> extends t t'"
proof (cases "t' = t")
  case False
  let ?uid = "field_text repr v BINARY_ID_KEYS"
  obtain c where c: "binary_device repr rooms ?uid v = Inr c" "6 \<le> py_len ?uid"
    and t': "t' = AList.update ?uid (case map_of t ?uid of None \<Rightarrow> c | Some p \<Rightarrow> merge_device c p) t"
    using assms(1) False by (auto simp: visit_row_def Let_def split: if_splits)
  have uid: "od_uid c = ?uid" "od_room_id c = []" using binary_device_uid [OF c(1)] by auto
  have prev: "od_uid p = ?uid" if "map_of t ?uid = Some p" for p
    using assms(2) map_of_SomeD [OF that] by (auto simp: device_table_def)
  have "device_table binary_ok t'"
    unfolding t' using assms(2) c(2) uid
    by (intro device_table_update) (auto simp: binary_ok_def merge_device_def py_len_nonempty split: option.splits)
  moreover have "extends t t'"
    unfolding extends_def t'
  proof (intro allI impI)
    fix k d assume d: "map_of t k = Some d"
    show "\<exists>d'. map_of (AList.update ?uid (case map_of t ?uid of None \<Rightarrow> c | Some p \<Rightarrow> merge_device c p) t) k = Some d' \<and> keeps d d'"
    proof (cases "k = ?uid")
      case True
      then show ?thesis using d prev keeps_merge [of c d] uid by auto
    next
      case False
      then show ?thesis using d by simp
    qed
  qed
  ultimately show ?thesis by blast
qed (use assms in simp)

lemma foldE_chain:
  assumes "foldE f xs s = Inr t" "P s"
    and "\<And>x s t. x \<in> set xs \<Longrightarrow> P s \<Longrightarrow> f x s = Inr t \<Longrightarrow> P t \<and> extends s t"
  shows "P t \<and> extends s t"
  using assms
proof (induction xs arbitrary: s)
  case (Cons x xs)
  from Cons.prems(1) obtain u where u: "f x s = Inr u" "foldE f xs u = Inr t" by auto
  have pu: "P u \<and> extends s u" using Cons.prems(2,3) u(1) by (meson list.set_intros(1))
  then have "P t \<and> extends u t" using u(2) Cons.prems(3) by (intro Cons.IH) auto
  with pu show ?case using extends_trans by blast
qed simp

lemma visit_step:
  "visit repr rooms v n t = Inr t' \<Longrightarrow> device_table binary_ok t \<Longrightarrow> device_table binary_ok t' \<and> extends t t'"
proof (induction repr rooms v n t arbitrary: t' rule: visit.induct)
  case (1 repr rooms v n t)
  show ?case
  proof (cases v)
    case (VList vs)
    then have "foldE (\<lambda>v t. visit repr rooms v n t) vs t = Inr t'" using 1(3) by (simp add: visit.simps [of _ _ "VList vs"])
    from foldE_chain [OF this, of "device_table binary_ok"] show ?thesis using 1(1) [OF VList] 1(4) by blast
  next
    case (VDict d)
    let ?n = "table_of_row d n"
    obtain u where u: "visit_row repr rooms d ?n t = Inr u"
      "foldE (\<lambda>kv t. if is_container (snd kv)
         then visit repr rooms (snd kv) (if table_tag (fst kv) = ''camerainfo'' then Some ''camerainfo'' else ?n) t
         else Inr t) d u = Inr t'"
      using 1(3) VDict by (auto simp: visit.simps [of _ _ "VDict d"] Let_def)
    note row = visit_row_step [OF u(1) 1(4)]
    have "device_table binary_ok t' \<and> extends u t'"
      using u(2) row [THEN conjunct1]
    proof (rule foldE_chain)
      fix kv s s' assume "kv \<in> set d" "device_table binary_ok s"
        "(if is_container (snd kv)
          then visit repr rooms (snd kv) (if table_tag (fst kv) = ''camerainfo'' then Some ''camerainfo'' else ?n) s
          else Inr s) = Inr s'"
      then show "device_table binary_ok s' \<and> extends s s'"
        using 1(2) [OF VDict refl] by (cases "is_container (snd kv)") auto
    qed
    with row show ?thesis using extends_trans by blast
  qed (use 1(3,4) in \<open>simp_all add: visit.simps\<close>)
qed

text \<open>The binary protocol lists devices in nested, partial and repeated rows; what is read from them is a
  sorted set of devices with identifiers of at least six characters, and a later row never takes anything
  away: visiting any further value keeps every device found so far, with every text, number, flag and
  property that was known of it.\<close>

lemma partial_rows_accumulate:
  assumes "visit repr rooms v n [] = Inr t" "visit repr rooms v' n' t = Inr t'"
  shows "sorted (map od_uid (by_uid t')) \<and> distinct (map od_uid (by_uid t'))
    \<and> (\<forall>d \<in> set (by_uid t). 6 \<le> py_len (od_uid d) \<and> (\<exists>d' \<in> set (by_uid t'). keeps d d'))"
proof -
  have t: "device_table binary_ok t" using visit_step [OF assms(1)] by simp
  with visit_step [OF assms(2)] have t': "device_table binary_ok t'" "extends t t'" by auto
  show ?thesis
  proof (intro conjI ballI)
    fix d assume "d \<in> set (by_uid t)"
    then have d: "(od_uid d, d) \<in> set t" using t by (auto simp: by_uid_def device_table_def)
    then have "map_of t (od_uid d) = Some d" using t by (simp add: device_table_def)
    then obtain d' where d': "map_of t' (od_uid d) = Some d'" "keeps d d'" using t'(2) by (auto simp: extends_def)
    show "6 \<le> py_len (od_uid d)" using d t by (auto simp: device_table_def binary_ok_def)
    show "\<exists>d' \<in> set (by_uid t'). keeps d d'"
      using d' map_of_SomeD [OF d'(1)] by (force simp: by_uid_def)
  qed (use device_table_by_uid [OF t'(1)] in simp_all)
qed

text \<open>The room of a device is lost on this path: \<^verbatim>\<open>extract_devices\<close> reads the room id of a row but does not
  pass it on, so every device it returns, and the record made of it, has an empty room id.\<close>

lemma binary_devices_have_no_room_id:
  assumes "extract_devices repr payloads = Inr ds" "d \<in> set ds" "device_to_dict d = Inr r"
  shows "od_room_id d = [] \<and> get r ''room_id'' = VStr []"
proof -
  obtain t where t: "visit repr (collect_room_names repr payloads []) payloads None [] = Inr t"
    "ds = map (\<lambda>d. d\<lparr>od_camera_type := (case map_of (collect_camera_types repr payloads []) (od_cloud_uid d) of
        None \<Rightarrow> None | Some t \<Rightarrow> t)\<rparr>) (by_uid t)"
    using assms(1) by (auto simp: extract_devices_def Let_def)
  have "device_table binary_ok t" using visit_step [OF t(1)] by simp
  then have "od_room_id d = []"
    using assms(2) by (auto simp: t(2) by_uid_def device_table_def binary_ok_def)
  moreover have "get r ''room_id'' = VStr (od_room_id d)"
    using assms(3) unfolding device_to_dict_def by (elim bindE_InrE) auto
  ultimately show ?thesis by simp
qed

section \<open>The newest property row wins\<close>

lemma foldE_split:
  "foldE f (xs @ x # ys) s = Inr t \<Longrightarrow> \<exists>u v. foldE f xs s = Inr u \<and> f x u = Inr v \<and> foldE f ys v = Inr t"
proof (induction xs arbitrary: s)
  case Nil
  then show ?case by auto
next
  case (Cons y xs)
  then obtain w where w: "f y s = Inr w" "foldE f (xs @ x # ys) w = Inr t" by auto
  from Cons.IH [OF w(2)] w(1) show ?case by auto
qed

definition about :: "string \<Rightarrow> dict \<Rightarrow> bool" where
  "about key row \<longleftrightarrow> get row ''property'' = VStr key \<and> py_strip key \<noteq> [] \<and> (deleted row \<or> has_key row ''value'')"

lemma merge_properties_single:
  "map_of (merge_properties base [(k, v)]) k' =
     (if k' = k then Some (case (v, map_of base k) of
        (VDict pv, Some (VDict bv)) \<Rightarrow> VDict (merge_properties bv pv) | _ \<Rightarrow> v) else map_of base k')"
  by simp

declare merge_properties.simps [simp del]

abbreviation time_of :: "timed_properties \<Rightarrow> string \<Rightarrow> int" where
  "time_of pt key \<equiv> or_zero (map_of (snd pt) key)"

lemma property_row_other:
  assumes "property_row row pt = Inr pt'" "\<not> about key row" "distinct (map fst (fst pt))"
  shows "map_of (fst pt') key = map_of (fst pt) key \<and> time_of pt' key = time_of pt key"
  using assms
  by (auto simp: property_row_def about_def merge_properties_single delete_conv' dict_simps split: pyval.splits if_splits)

lemma property_row_older:
  assumes "property_row row pt = Inr pt'" "row_update_time row = Inr t" "0 < t" "t < time_of pt key"
    and "about key row"
  shows "pt' = pt"
  using assms by (auto simp: property_row_def about_def)

lemma property_row_distinct:
  "property_row row pt = Inr pt' \<Longrightarrow> distinct (map fst (fst pt)) \<Longrightarrow> distinct (map fst (fst pt'))"
  by (auto simp: property_row_def merge_properties.simps distinct_update distinct_delete split: pyval.splits if_splits)

lemma property_row_time:
  assumes "property_row row pt = Inr pt'" "about key row" "row_update_time row = Inr t" "t \<le> T" "time_of pt key \<le> T"
  shows "time_of pt' key \<le> T"
  using assms by (auto simp: property_row_def about_def or_zero_def split: if_splits)

lemma property_rows_before:
  assumes "foldE property_row rows pt = Inr pt'" "time_of pt key \<le> T" "distinct (map fst (fst pt))"
    and "\<forall>x \<in> set rows. about key x \<longrightarrow> (\<exists>t. row_update_time x = Inr t \<and> 0 < t \<and> t < T)"
  shows "time_of pt' key \<le> T \<and> distinct (map fst (fst pt'))"
  using assms
proof (induction rows arbitrary: pt)
  case (Cons x xs)
  from Cons.prems(1) obtain u where u: "property_row x pt = Inr u" "foldE property_row xs u = Inr pt'" by auto
  have "time_of u key \<le> T"
  proof (cases "about key x")
    case True
    then obtain t where "row_update_time x = Inr t" "t < T" using Cons.prems(4) by auto
    then show ?thesis using property_row_time [OF u(1) True, of t T] Cons.prems(2) by simp
  next
    case False
    then show ?thesis using property_row_other [OF u(1) False Cons.prems(3)] Cons.prems(2) by simp
  qed
  then show ?case using u(2) property_row_distinct [OF u(1) Cons.prems(3)] Cons.prems(4) by (intro Cons.IH) auto
qed simp

lemma property_rows_after:
  assumes "foldE property_row rows pt = Inr pt'" "time_of pt key = T" "distinct (map fst (fst pt))"
    and "\<forall>x \<in> set rows. about key x \<longrightarrow> (\<exists>t. row_update_time x = Inr t \<and> 0 < t \<and> t < T)"
  shows "map_of (fst pt') key = map_of (fst pt) key"
  using assms
proof (induction rows arbitrary: pt)
  case (Cons x xs)
  from Cons.prems(1) obtain u where u: "property_row x pt = Inr u" "foldE property_row xs u = Inr pt'" by auto
  have "map_of (fst u) key = map_of (fst pt) key \<and> time_of u key = T"
  proof (cases "about key x")
    case True
    then obtain t where "row_update_time x = Inr t" "0 < t" "t < T" using Cons.prems(4) by auto
    then have "u = pt" using property_row_older [OF u(1)] Cons.prems(2) True by blast
    then show ?thesis using Cons.prems(2) by simp
  next
    case False
    then show ?thesis using property_row_other [OF u(1) False Cons.prems(3)] Cons.prems(2) by simp
  qed
  then show ?case using Cons.IH [OF u(2)] property_row_distinct [OF u(1) Cons.prems(3)] Cons.prems(4) by auto
qed simp

definition inline_ok :: "string \<Rightarrow> int \<Rightarrow> timed_properties \<Rightarrow> bool" where
  "inline_ok key T pt \<longleftrightarrow> time_of pt key \<le> T \<and> distinct (map fst (fst pt))"

lemma inline_property_ok: "inline_ok key T pt \<Longrightarrow> t \<le> T \<Longrightarrow> inline_ok key T (inline_property t kv pt)"
  by (cases kv) (auto simp: inline_ok_def inline_property_def merge_properties.simps distinct_update dict_simps)

lemma inline_properties_ok:
  assumes "inline_properties owner pt = Inr pt'" "inline_ok key T pt"
    and "\<And>t. row_update_time owner = Inr t \<Longrightarrow> t \<le> T"
  shows "inline_ok key T pt'"
proof -
  have "inline_ok key T (fold (inline_property t) raw pt)" if "t \<le> T" "inline_ok key T pt" for t raw pt
    using that by (induction raw arbitrary: pt) (simp_all add: inline_property_ok)
  note folded = this
  show ?thesis
  proof (cases "\<exists>raw. get owner ''properties'' = VDict raw")
    case True
    then obtain raw t where "row_update_time owner = Inr t" "pt' = fold (inline_property t) raw pt"
      using assms(1) by (auto simp: inline_properties_def)
    then show ?thesis using folded assms(2,3) by blast
  next
    case False
    then show ?thesis using assms(1,2) by (simp add: inline_properties_def split: pyval.splits)
  qed
qed

text \<open>The newest report of a property decides, in whatever order the rows come: if one row of a property is
  strictly newer than every other row of it and not older than the inline properties, then after the
  join the property is gone if that row deletes it, and is exactly its (decoded) value otherwise, unless
  that value is itself a table, which is merged into an older one.\<close>

lemma newest_property_row_wins:
  assumes "readtable_properties device status (before @ row # after) = Inr props"
    and "about key row" "row_update_time row = Inr T" "0 < T"
    and "\<forall>x \<in> set (before @ after). about key x \<longrightarrow> (\<exists>t. row_update_time x = Inr t \<and> 0 < t \<and> t < T)"
    and "\<forall>owner \<in> {device, status}. \<forall>t. row_update_time owner = Inr t \<longrightarrow> t \<le> T"
    and "\<not> is_dict (decoded_value (get row ''value''))"
  shows "map_of props key = (if deleted row then None else Some (decoded_value (get row ''value'')))"
proof -
  define rows where "rows = before @ row # after"
  have "\<exists>p1 p4. foldE inline_properties [device, status] ([], []) = Inr p1 \<and> foldE property_row rows p1 = Inr p4
      \<and> props = fst p4"
    using assms(1) unfolding rows_def [symmetric] readtable_properties_def by (simp only: bindE_Inr_iff sum.inject) metis
  then obtain p1 p4 where p1: "foldE inline_properties [device, status] ([], []) = Inr p1"
    and p4: "foldE property_row rows p1 = Inr p4" "props = fst p4"
    by blast
  have "inline_ok key T ([], [])" using assms(4) by (simp add: inline_ok_def)
  with p1 have ok1: "inline_ok key T p1"
  proof (rule foldE_invariant)
    fix x s t assume "x \<in> set [device, status]" "inline_ok key T s" "inline_properties x s = Inr t"
    then show "inline_ok key T t" using assms(6) by (intro inline_properties_ok [of x s t]) auto
  qed
  obtain p2 p3 where p: "foldE property_row before p1 = Inr p2" "property_row row p2 = Inr p3"
    "foldE property_row after p3 = Inr p4"
    using foldE_split [OF p4(1) [unfolded rows_def]] by blast
  have p2: "time_of p2 key \<le> T" "distinct (map fst (fst p2))"
    using property_rows_before [OF p(1)] ok1 assms(5) unfolding inline_ok_def by auto
  have "p3 = (if deleted row then AList.delete key (fst p2) else merge_properties (fst p2) [(key, decoded_value (get row ''value''))],
      AList.update key T (snd p2))"
    using p(2) assms(2-4) p2(1) by (auto simp: property_row_def about_def)
  then have p3: "time_of p3 key = T"
    "map_of (fst p3) key = (if deleted row then None else Some (decoded_value (get row ''value'')))"
    using assms(7) by (auto simp: or_zero_def merge_properties_single split: pyval.splits)
  have "map_of (fst p4) key = map_of (fst p3) key"
    using property_rows_after [OF p(3) p3(1) property_row_distinct [OF p(2) p2(2)]] assms(5) by auto
  then show ?thesis using p4(2) p3(2) by simp
qed

section \<open>Infinite numbers\<close>

lemma foldE_raises: "x \<in> set xs \<Longrightarrow> (\<And>s. \<not> returns (f x s)) \<Longrightarrow> \<not> returns (foldE f xs s)"
  by (induction xs arbitrary: s) (auto simp: returns_def)

text \<open>One infinite number makes the whole inventory unreadable: JSON allows it (\<^verbatim>\<open>1e400\<close>), \<^verbatim>\<open>_safe_int\<close> does not
  catch the \<^verbatim>\<open>OverflowError\<close>, and so the parse of an answer raises as soon as any listed row has one as
  its first value, however many good rows there are besides.\<close>

lemma infinite_value_loses_inventory:
  assumes "row \<in> set (device_rows payload)" "\<not> deleted row" "field_text repr row READTABLE_ID_KEYS \<noteq> []"
    and "get row ''value1'' = VFloat PosInf" "get row ''status'' = VNone"
    and "\<forall>data. get payload ''data'' = VDict data \<longrightarrow> get data ''deviceStatus'' = VNone"
  shows "\<not> returns (parse_readtable_devices repr payload)"
proof -
  have raises: "\<not> returns (add_readtable_device repr rooms cams [] prs row t)" for rooms cams prs t
  proof -
    have "joined_status row None = []" using assms(5) by (simp add: joined_status_def deleted_def)
    moreover have "safe_int_opt (VFloat PosInf) = Inl OverflowError" by (simp add: safe_int_opt_def)
    ultimately show ?thesis using assms(2-4)
      by (simp add: add_readtable_device_def READTABLE_ID_KEYS_def Let_def readtable_device_def)
  qed
  show ?thesis
  proof (cases "get payload ''data''")
    case (VDict data)
    have "status_table repr VNone = Inr []" by (simp add: status_table_def table_rows_def)
    moreover have "\<not> returns (foldE (add_readtable_device repr rooms cams [] prs) (device_rows payload) [])" for rooms cams prs
      using assms(1) raises by (rule foldE_raises)
    ultimately show ?thesis using assms(6) by (simp add: parse_readtable_devices_def VDict device_rows_def)
  qed (use assms(1) in \<open>simp_all add: device_rows_def\<close>)
qed

section \<open>Credentials\<close>

text \<open>Migrating the credentials of a configuration leaves no password in it: when it succeeds, the result
  has no password, its digest is 32 upper-case hexadecimal digits, every other entry is unchanged, and
  migrating it again changes nothing.\<close>

lemma migration_drops_the_password:
  assumes "migrate_password_credentials repr md5_hex data = Inr migrated"
    and "\<forall>s. length (md5_hex s) = 32 \<and> set (md5_hex s) \<subseteq> set ''0123456789abcdef''"
    and "distinct (map fst data)"
  shows "\<not> has_key migrated ''password''
    \<and> (\<exists>digest. get migrated ''password_hash'' = VStr digest \<and> is_digest digest)
    \<and> (\<forall>k. k \<notin> {''password'', ''password_hash''} \<longrightarrow> map_of migrated k = map_of data k)
    \<and> migrate_password_credentials repr md5_hex migrated = Inr migrated"
proof -
  have "list_all (\<lambda>c. upper_char c \<in> set ''ABCDEF0123456789'') ''0123456789abcdef''" by code_simp
  then have hex: "upper_char c \<in> set ''ABCDEF0123456789''" if "c \<in> set ''0123456789abcdef''" for c
    using that unfolding list_all_iff by blast
  have fresh: "is_digest (password_hash md5_hex s)" for s
    using assms(2) hex unfolding is_digest_def password_hash_def py_upper_def list_all_iff by (simp del: set_simps) blast
  obtain digest where d: "is_digest digest" "migrated = AList.delete ''password'' (AList.update ''password_hash'' (VStr digest) data)"
    using assms(1) fresh by (auto simp: migrate_password_credentials_def normalize_password_hash_def Let_def
        split: if_splits pyval.splits)
  have get: "get migrated ''password_hash'' = VStr digest" by (simp add: d(2) dget_def delete_conv')
  have id: "py_upper (py_strip digest) = digest"
  proof -
    have "list_all (\<lambda>c. upper_char c = c \<and> \<not> is_space c) ''ABCDEF0123456789''" by code_simp
    then have c: "upper_char c = c \<and> \<not> is_space c" if "c \<in> set ''ABCDEF0123456789''" for c
      using that unfolding list_all_iff by blast
    then have "\<forall>c \<in> set digest. upper_char c = c \<and> \<not> is_space c" using d(1) unfolding is_digest_def list_all_iff by blast
    then show ?thesis by (simp add: py_strip_id py_upper_def map_idI)
  qed
  have "digest \<noteq> []" using d(1) by (auto simp: is_digest_def)
  then have "normalize_password_hash repr (VStr digest) = Inr digest"
    using id d(1) by (simp add: normalize_password_hash_def py_or_def)
  moreover have "AList.delete ''password'' (AList.update ''password_hash'' (VStr digest) migrated) = migrated"
  proof -
    have up: "AList.update k v t = t" if "distinct (map fst t)" "(k, v) \<in> set t" for k and v :: pyval and t
      using that by (induction t) (auto, force)
    have "distinct (map fst migrated)" using assms(3) d(2) by (auto intro: distinct_update distinct_delete)
    moreover have "(''password_hash'', VStr digest) \<in> set migrated"
      using get by (auto simp: dget_def dest: map_of_SomeD split: option.splits)
    moreover have "''password'' \<notin> fst ` set migrated" by (simp add: d(2) delete_notin_dom)
    ultimately show ?thesis using up [of migrated] by simp
  qed
  ultimately have "migrate_password_credentials repr md5_hex migrated = Inr migrated"
    using \<open>digest \<noteq> []\<close> by (simp add: migrate_password_credentials_def get)
  then show ?thesis using d get by (auto simp: has_key_def delete_conv' update_conv')
qed

section \<open>Samples\<close>

definition sample_inventory :: dict where
  "sample_inventory = [(''data'', VDict [(''device'', VDict [(''lamp02'', VDict []), (''lamp01'', VDict [])])])]"

theorem inventory_is_a_set_witness:
  "case parse_readtable_devices (\<lambda>v. []) sample_inventory of Inl _ \<Rightarrow> False
     | Inr ds \<Rightarrow> sorted (map od_uid ds) \<and> map od_uid ds = [''lamp01'', ''lamp02'']"
proof -
  have "case parse_readtable_devices (\<lambda>v. []) sample_inventory of Inl _ \<Rightarrow> False
     | Inr ds \<Rightarrow> map od_uid ds = [''lamp01'', ''lamp02'']"
    by code_simp
  then show ?thesis
    using inventory_is_a_set [of "\<lambda>v. []" sample_inventory] by (auto split: sum.splits)
qed

definition sample_row :: "int \<Rightarrow> pyval \<Rightarrow> dict" where
  "sample_row t v = [(''property'', VStr ''onOff''), (''value'', v), (''updateTime'', VInt t)]"

definition sample_row1 :: pyval where
  "sample_row1 = VDict [(''uid'', VStr ''lamp01''), (''name'', VStr ''Lamp''), (''roomId'', VStr ''7'')]"

definition sample_row2 :: pyval where
  "sample_row2 = VDict [(''uid'', VStr ''lamp01''), (''value1'', VInt 0)]"

end
