(* ===== verification/Device_Inventory.thy ===== *)
theory Device_Inventory
  imports Status_Dispatcher Cloud_Inventory
begin

text \<open>
  \<^verbatim>\<open>device_inventory.py\<close>: the devices the cloud lists and what a listing does to the stored states.
  \<open>initialize\<close> fills the dictionaries once; \<open>merge_cloud\<close> reconciles a later snapshot with the state
  store, in which the pushed values of the SSL channel and of the gateways outrank it for the guard
  interval. The dictionary of states is the one the store holds.

  \<open>iv_tick\<close> is \<^verbatim>\<open>time.monotonic()\<close> as \<open>merge\<close> reads it, \<open>iv_removed\<close> the callback for a removed
  device; both act on the outside world. A device record has a text under \<^verbatim>\<open>device_id\<close>
  (\<open>device_to_dict\<close> writes one).
\<close>

record 'x inventory =
  iv_devices :: "(string, dict) pydict"
  iv_store :: store
  iv_outside :: 'x

record 'x inventory_env =
  iv_tick :: "'x \<Rightarrow> rat \<times> 'x"
  iv_removed :: "string \<Rightarrow> 'x \<Rightarrow> 'x"
  iv_catalog :: model_catalog
  iv_text :: "pyval \<Rightarrow> string"

definition DIMMABLE_LIGHT_CATEGORIES :: "device_category list" where
  "DIMMABLE_LIGHT_CATEGORIES = [DIM_COLOR_LIGHT, FAST_MOVE_DIM_COLOR_LIGHT, DIMMABLE_LIGHT, ZIGBEE_DIMMABLE_LIGHT,
     CCT_LIGHT, CCT_LIGHT_STRIP]"

section \<open>States made of a device record\<close>

definition device_id_of :: "dict \<Rightarrow> string py" where
  "device_id_of device = (case map_of device ''device_id'' of
     None \<Rightarrow> Inl KeyError | Some (VStr d) \<Rightarrow> Inr d | Some _ \<Rightarrow> Inl TypeError)"

fun online_value :: "pyval \<Rightarrow> bool" where
  "online_value (VStr s) = (py_lower (py_strip s) \<in> {''online'', ''1'', ''true'', ''yes''})"
| "online_value v = truthy v"

definition initial_state :: "dict \<Rightarrow> dict py" where
  "initial_state device =
     bindE (dict_of (py_or (get device ''properties'') (VDict []))) (\<lambda>properties.
     Inr [(''state'', dget device ''state'' (VBool False)),
       (''online'', VBool (online_value (dget device ''online'' (VBool False)))),
       (''position'', dget device ''position'' (VInt 0)),
       (''brightness'', get device ''brightness''),
       (''color_temp'', get device ''color_temp''),
       (''uid'', dget device ''uid'' (VStr [])),
       (''status_id'', dget device ''status_id'' (VStr [])),
       (''app_device_id'', dget device ''app_device_id'' (VStr [])),
       (''gateway_id'', dget device ''gateway_id'' (VStr [])),
       (''ext_addr'', get device ''ext_addr''),
       (''properties'', VDict properties),
       (''raw_value1'', get device ''value1''),
       (''raw_value2'', get device ''value2''),
       (''raw_value3'', get device ''value3''),
       (''raw_value4'', get device ''value4'')])"

definition periodic_initial_state :: "dict \<Rightarrow> dict py" where
  "periodic_initial_state device =
     bindE (dict_of (py_or (get device ''properties'') (VDict []))) (\<lambda>properties.
     Inr [(''state'', dget device ''state'' (VBool False)),
       (''online'', dget device ''online'' (VBool False)),
       (''position'', dget device ''position'' (VInt 0)),
       (''brightness'', get device ''brightness''),
       (''color_temp'', get device ''color_temp''),
       (''properties'', VDict properties)])"

definition battery_state :: "dict \<Rightarrow> dict" where
  "battery_state device =
     (let normalized = normalize_battery_properties (py_or (get device ''properties'') (VDict []))
      in map (\<lambda>f. (f, get normalized f)) (filter (has_key normalized) BATTERY_KEYS))"

definition light_snapshot :: "(pyval \<Rightarrow> string) \<Rightarrow> dict \<Rightarrow> dict \<Rightarrow> device_category \<Rightarrow> dict py" where
  "light_snapshot repr device current_state category =
     (let raw = [(''properties'', py_or (get device ''properties'') (VDict [])),
                 (''subDeviceType'', get device ''sub_device_type''),
                 (''value1'', get device ''value1''),
                 (''value2'', dget device ''value2'' (get device ''brightness'')),
                 (''value3'', dget device ''value3'' (get device ''color_temp'')),
                 (''value4'', get device ''value4'')];
          raw = (case get device ''status'' of VDict status \<Rightarrow> dict_merge raw status | _ \<Rightarrow> raw)
      in if pp_dimmer_scale (profile_for device) \<noteq> None then parse_native_dimmer current_state raw device
         else
           let maximum = (if in_ints (get device ''device_type_raw'') [502, 503] then 100 else 255);
               updates = (case normalize_brightness (get raw ''value2'') maximum of
                  None \<Rightarrow> [] | Some b \<Rightarrow> [(''brightness'', VInt b)])
           in case get_state_parser repr category of None \<Rightarrow> Inr updates
              | Some parser \<Rightarrow> bindE (parser current_state raw) (\<lambda>patch. Inr (dict_merge updates patch)))"

definition no_levels :: dict where
  "no_levels = [(''brightness'', VNone), (''color_temp'', VNone)]"

definition parser_input :: "dict \<Rightarrow> dict" where
  "parser_input device =
     [(''properties'', dget device ''properties'' (VDict [])),
      (''value1'', get device ''value1''), (''value2'', get device ''value2''),
      (''value3'', get device ''value3''), (''value4'', get device ''value4'')]"

section \<open>The first listing\<close>

definition category_defaults :: "dict \<Rightarrow> device_category \<Rightarrow> dict" where
  "category_defaults device category =
     (if category = DOOR_LOCK then battery_state device
      else if category = CLOTHES_HORSE then
        [(''motor_state'', VStr ''stop''), (''lighting_state'', VBool False), (''heat_drying_state'', VBool False),
         (''wind_drying_state'', VBool False), (''sterilizing_state'', VBool False), (''main_switch_state'', VBool False)]
      else if category = VENTILATION_SYSTEM then
        [(''fan_speed'', dget device ''fan_speed'' (VStr STOPPED)), (''temperature'', get device ''temperature'')]
      else [])"

definition discovered_state :: "(pyval \<Rightarrow> string) \<Rightarrow> dict \<Rightarrow> device_category \<Rightarrow> dict py" where
  "discovered_state repr device category =
     bindE (initial_state device) (\<lambda>state.
     bindE (if category \<in> set DIMMABLE_LIGHT_CATEGORIES then
              let state = dict_merge state no_levels
              in bindE (light_snapshot repr device state category) (\<lambda>snapshot. Inr (dict_merge state snapshot))
            else case get_state_parser repr category of None \<Rightarrow> Inr state
              | Some parser \<Rightarrow>
                  bindE (parser state (AList.update ''subDeviceType'' (get device ''sub_device_type'') (parser_input device)))
                    (\<lambda>patch. Inr (apply_to patch state))) (\<lambda>state.
     Inr (dict_merge state (category_defaults device category))))"

definition initialize_device :: "'x inventory_env \<Rightarrow> dict \<Rightarrow> ('x inventory, unit) io" where
  "initialize_device env device =
     bindS (liftE (device_id_of device)) (\<lambda>d.
     bindS (liftE (classify_device (iv_catalog env) (VDict device))) (\<lambda>category.
     if is_hidden_category category then retS ()
     else bindS (modifyS (\<lambda>w. w\<lparr>iv_devices := AList.update d device (iv_devices w)\<rparr>)) (\<lambda>_.
          bindS (liftE (discovered_state (iv_text env) device category)) (\<lambda>state.
          modifyS (\<lambda>w. w\<lparr>iv_store := (iv_store w)\<lparr>st_states := AList.update d state (st_states (iv_store w))\<rparr>\<rparr>)))))"

fun for_each :: "('a \<Rightarrow> ('w, unit) io) \<Rightarrow> 'a list \<Rightarrow> ('w, unit) io" where
  "for_each f [] = retS ()"
| "for_each f (x # xs) = bindS (f x) (\<lambda>_. for_each f xs)"

definition initialize :: "'x inventory_env \<Rightarrow> dict list \<Rightarrow> ('x inventory, unit) io" where
  "initialize env discovered = for_each (initialize_device env) discovered"

section \<open>A periodic snapshot\<close>

definition remove_device :: "'x inventory_env \<Rightarrow> string \<Rightarrow> ('x inventory, unit) io" where
  "remove_device env d = modifyS (\<lambda>w. w\<lparr>
     iv_devices := AList.delete d (iv_devices w),
     iv_store := remove d ((iv_store w)\<lparr>st_states := AList.delete d (st_states (iv_store w))\<rparr>),
     iv_outside := iv_removed env d (iv_outside w)\<rparr>)"

definition merge_state :: "'x inventory_env \<Rightarrow> string \<Rightarrow> dict \<Rightarrow> ('x inventory, unit) io" where
  "merge_state env d values = modifyS (\<lambda>w.
     let (now, x) = iv_tick env (iv_outside w)
     in w\<lparr>iv_store := snd (merge d values CLOUD now False (iv_store w)), iv_outside := x\<rparr>)"

definition CLOUD_FIELDS :: "string list" where
  "CLOUD_FIELDS = [''state'', ''online'', ''position'', ''brightness'', ''color_temp'', ''temperature'', ''humidity'']"

definition cloud_state_of :: "(pyval \<Rightarrow> string) \<Rightarrow> dict \<Rightarrow> dict \<Rightarrow> device_category \<Rightarrow> dict py" where
  "cloud_state_of repr device current_state category =
     (let cloud_state = map (\<lambda>f. (f, get device f)) (filter (\<lambda>f. get device f \<noteq> VNone) CLOUD_FIELDS);
          cloud_state = (case dget device ''status'' (VDict []) of
             VDict status \<Rightarrow> dict_merge cloud_state status | _ \<Rightarrow> cloud_state)
      in if category \<in> set DIMMABLE_LIGHT_CATEGORIES then
           bindE (light_snapshot repr device current_state category) (\<lambda>snapshot.
             Inr (dict_merge (fold AList.delete [''state'', ''brightness'', ''color_temp''] cloud_state) snapshot))
         else Inr cloud_state)"

definition merge_lock :: "'x inventory_env \<Rightarrow> string \<Rightarrow> dict \<Rightarrow> ('x inventory, unit) io" where
  "merge_lock env d device =
     bindS (merge_state env d (battery_state device)) (\<lambda>_.
     bindS (getS (\<lambda>w. state_of (iv_store w) d)) (\<lambda>state.
     bindS (liftE (case get_state_parser (iv_text env) DOOR_LOCK of None \<Rightarrow> Inr []
              | Some parser \<Rightarrow> bindE (parser state (parser_input device)) (\<lambda>patch. Inr (apply_to patch [])))) (\<lambda>lock_state.
     if lock_state = [] then retS () else merge_state env d lock_state)))"

definition add_state :: "'x inventory_env \<Rightarrow> string \<Rightarrow> dict \<Rightarrow> device_category \<Rightarrow> ('x inventory, unit) io" where
  "add_state env d device category =
     bindS (getS (\<lambda>w. map_of (st_states (iv_store w)) d)) (\<lambda>known.
     if known \<noteq> None then retS ()
     else bindS (liftE (periodic_initial_state device)) (\<lambda>state.
       modifyS (\<lambda>w. w\<lparr>iv_store := (iv_store w)\<lparr>st_states := AList.update d
         (if category \<in> set DIMMABLE_LIGHT_CATEGORIES then dict_merge state no_levels else state)
         (st_states (iv_store w))\<rparr>\<rparr>)))"

definition merge_device_snapshot :: "'x inventory_env \<Rightarrow> dict \<Rightarrow> ('x inventory, unit) io" where
  "merge_device_snapshot env device =
     bindS (liftE (device_id_of device)) (\<lambda>d.
     bindS (liftE (classify_device (iv_catalog env) (VDict device))) (\<lambda>category.
     if is_hidden_category category then remove_device env d
     else bindS (modifyS (\<lambda>w. w\<lparr>iv_devices := AList.update d device (iv_devices w)\<rparr>)) (\<lambda>_.
          bindS (add_state env d device category) (\<lambda>_.
          bindS (getS (\<lambda>w. state_of (iv_store w) d)) (\<lambda>state.
          bindS (liftE (cloud_state_of (iv_text env) device state category)) (\<lambda>cloud_state.
          bindS (if cloud_state = [] then retS () else merge_state env d cloud_state) (\<lambda>_.
          if category = DOOR_LOCK then merge_lock env d device else retS ())))))))"

definition merge_cloud :: "'x inventory_env \<Rightarrow> dict list \<Rightarrow> ('x inventory, unit) io" where
  "merge_cloud env discovered = for_each (merge_device_snapshot env) discovered"

definition sample_env :: "rat inventory_env" where
  "sample_env = \<lparr>iv_tick = (\<lambda>x. (x, x)), iv_removed = (\<lambda>d x. x), iv_catalog = (\<lambda>m. None), iv_text = (\<lambda>v. [])\<rparr>"

definition sample_world :: "store \<Rightarrow> rat \<Rightarrow> rat inventory" where
  "sample_world s x = \<lparr>iv_devices = [], iv_store = s, iv_outside = x\<rparr>"

definition plain_light :: dict where
  "plain_light = [(''device_id'', VStr ''d''), (''device_type_raw'', VInt 501), (''sub_device_type'', VInt 426),
     (''state'', VBool False)]"

definition plain_gateway :: dict where
  "plain_gateway = [(''device_id'', VStr ''g''), (''device_type_raw'', VInt 114)]"

definition gateway_state :: "(string, dict) pydict" where
  "gateway_state = [(''g'', [(''online'', VBool True)])]"

definition open_lock :: dict where
  "open_lock = [(''device_id'', VStr ''d''), (''device_type_raw'', VInt 107),
     (''properties'', VDict [(''lockStatus'', VInt 0), (''door_status'', VInt 1)])]"

definition locked_states :: "(string, dict) pydict" where
  "locked_states = [(''d'', [(''locked'', VBool True), (''lock_state'', VBool False), (''door_state'', VBool False),
     (''lock_status'', VStr ''locked'')])]"

definition door_push :: "(string, dict) pydict \<Rightarrow> store" where
  "door_push states =
     (case parse_door_lock (state_of (new_store states) ''d'') [(''properties'', VDict [(''door_status'', VInt 1)])] of
        Inl e \<Rightarrow> new_store states | Inr u \<Rightarrow> snd (merge ''d'' u SSL 100 False (new_store states)))"

section \<open>What a snapshot leaves alone\<close>

lemma always_for_each: "(\<And>x. x \<in> set xs \<Longrightarrow> always I (f x)) \<Longrightarrow> always I (for_each f xs)"
  by (induction xs) (auto intro: always_bind)

text \<open>A value that a source above the cloud has just set survives a merge of the cloud.\<close>

lemma merge_keeps_fresh:
  assumes "cell s d f = (Some v, Some r)" "CLOUD < rev_source r" "now - rev_updated_at r < st_guard s"
  shows "cell (snd (merge d' values CLOUD now False s)) d f = (Some v, Some r)
    \<and> st_guard (snd (merge d' values CLOUD now False s)) = st_guard s"
proof -
  have "cell (snd (fold (merge_field d' CLOUD now False) vs cs)) d f = (Some v, Some r)
      \<and> st_guard (snd (fold (merge_field d' CLOUD now False) vs cs)) = st_guard (snd cs)"
    if "cell (snd cs) d f = (Some v, Some r)" "now - rev_updated_at r < st_guard (snd cs)" for vs cs
    using that
  proof (induction vs arbitrary: cs)
    case Nil
    then show ?case by simp
  next
    case (Cons gu vs)
    obtain g u where gu: "gu = (g, u)" by force
    obtain ch s where cs: "cs = (ch, s)" by force
    have skip: "skips CLOUD now False (st_guard s) (Some v, Some r)"
      using Cons.prems(2) assms(2) cs by (simp add: skips_def protected_def)
    have "cell (snd (merge_field d' CLOUD now False gu cs)) d f = (Some v, Some r)"
    proof (cases "d = d' \<and> f = g")
      case True
      then show ?thesis using Cons.prems(1) skip by (simp only: gu cs cell_merge_field snd_conv merge_cell_def if_True simp_thms)
    next
      case False
      then show ?thesis using Cons.prems(1) by (simp only: gu cs cell_merge_field snd_conv if_False)
    qed
    then show ?case using Cons.IH [of "merge_field d' CLOUD now False gu cs"] Cons.prems(2) by simp
  qed
  from this [of "({}, s\<lparr>st_states := dict_setdefault d' [] (st_states s)\<rparr>)" "values"] assms(1,3)
  show ?thesis by (simp add: merge_def)
qed

lemma cell_states_other:
  "d' \<noteq> d \<Longrightarrow> cell (s\<lparr>st_states := AList.update d' st (st_states s)\<rparr>) d f = cell s d f"
  "d' \<noteq> d \<Longrightarrow> cell (s\<lparr>st_states := AList.delete d' (st_states s)\<rparr>) d f = cell s d f"
  by (simp_all add: cell_def state_of_def dict_simps)

lemma remove_frame [simp]:
  "st_guard (remove d s) = st_guard s" "st_states (remove d s) = st_states s"
  by (simp_all add: remove_def)

lemma always_add_state:
  assumes "\<And>w st. I w \<Longrightarrow> map_of (st_states (iv_store w)) d = None \<Longrightarrow>
      I (w\<lparr>iv_store := (iv_store w)\<lparr>st_states := AList.update d st (st_states (iv_store w))\<rparr>\<rparr>)"
  shows "always I (add_state env d device category)"
  unfolding always_def
proof (intro allI impI)
  fix w assume "I w"
  then show "I (snd (add_state env d device category w))"
    using assms [of w] by (cases "periodic_initial_state device") (auto simp: add_state_def bindS_def)
qed

lemma always_merge_device_snapshot:
  assumes id: "device_id_of device = Inr d" and category: "classify_device (iv_catalog env) (VDict device) = Inr c"
    and removed: "is_hidden_category c \<Longrightarrow> always I (remove_device env d)"
    and device: "\<And>w. I w \<Longrightarrow> I (w\<lparr>iv_devices := AList.update d device (iv_devices w)\<rparr>)"
    and state: "\<And>w st. I w \<Longrightarrow> map_of (st_states (iv_store w)) d = None \<Longrightarrow>
      I (w\<lparr>iv_store := (iv_store w)\<lparr>st_states := AList.update d st (st_states (iv_store w))\<rparr>\<rparr>)"
    and merged: "\<And>values. always I (merge_state env d values)"
  shows "always I (merge_device_snapshot env device)"
proof -
  have "always I (add_state env d device c)" by (rule always_add_state) (rule state)
  moreover have "always I (modifyS (\<lambda>w. w\<lparr>iv_devices := AList.update d device (iv_devices w)\<rparr>))"
    by (rule always_modify) (rule device)
  moreover have "always I (merge_lock env d device)"
    unfolding merge_lock_def using merged by (intro always_bind) auto
  ultimately have rest: "always I (bindS (modifyS (\<lambda>w. w\<lparr>iv_devices := AList.update d device (iv_devices w)\<rparr>)) (\<lambda>_.
      bindS (add_state env d device c) (\<lambda>_. bindS (getS (\<lambda>w. state_of (iv_store w) d)) (\<lambda>state.
      bindS (liftE (cloud_state_of (iv_text env) device state c)) (\<lambda>cloud_state.
      bindS (if cloud_state = [] then retS () else merge_state env d cloud_state) (\<lambda>_.
      if c = DOOR_LOCK then merge_lock env d device else retS ()))))))"
    using merged by (intro always_bind) simp_all
  show ?thesis
  proof (cases "is_hidden_category c")
    case True
    then show ?thesis using removed by (simp only: merge_device_snapshot_def id category bindS_simps if_True)
  next
    case False
    then show ?thesis using rest by (simp only: merge_device_snapshot_def id category bindS_simps if_False)
  qed
qed

lemma always_merge_cloud:
  assumes "\<And>device d c. device \<in> set discovered \<Longrightarrow> device_id_of device = Inr d \<Longrightarrow>
      classify_device (iv_catalog env) (VDict device) = Inr c \<Longrightarrow> always I (merge_device_snapshot env device)"
  shows "always I (merge_cloud env discovered)"
  unfolding merge_cloud_def
proof (rule always_for_each)
  fix device assume d: "device \<in> set discovered"
  show "always I (merge_device_snapshot env device)"
  proof (cases "device_id_of device")
    case (Inl e)
    then show ?thesis by (simp add: merge_device_snapshot_def always_def bindS_def)
  next
    case (Inr i)
    then show ?thesis using assms [OF d Inr]
      by (cases "classify_device (iv_catalog env) (VDict device)") (simp_all add: merge_device_snapshot_def always_def bindS_def)
  qed
qed

text \<open>C6. A periodic snapshot of the cloud never takes back what was pushed: a field that the SSL channel or a
  gateway has set within the guard interval (as the clock reads at every merge) keeps its value and its
  revision through the whole snapshot, whatever the snapshot lists, in whatever order, and even if it
  stops at a record it cannot read, as long as the device is not listed as a hidden one.\<close>

theorem snapshot_respects_pushed_values:
  fixes w :: "'x inventory"
  assumes "cell (iv_store w) d f = (Some v, Some r)" "CLOUD < rev_source r"
    and "\<forall>x. fst (iv_tick env x) - rev_updated_at r < st_guard (iv_store w)"
    and "\<forall>device \<in> set discovered. \<forall>c. device_id_of device = Inr d \<longrightarrow>
      classify_device (iv_catalog env) (VDict device) = Inr c \<longrightarrow> \<not> is_hidden_category c"
  shows "cell (iv_store (snd (merge_cloud env discovered w))) d f = (Some v, Some r)"
proof -
  define I :: "'x inventory \<Rightarrow> bool" where "I = (\<lambda>w'. cell (iv_store w') d f = (Some v, Some r) \<and> st_guard (iv_store w') = st_guard (iv_store w))"
  have "always I (merge_cloud env discovered)"
  proof (rule always_merge_cloud, rule always_merge_device_snapshot)
    fix device d' c
    assume device: "device \<in> set discovered" "device_id_of device = Inr d'"
      "classify_device (iv_catalog env) (VDict device) = Inr c"
    show "always I (remove_device env d')" if "is_hidden_category c"
    proof -
      have "d' \<noteq> d" using assms(4) device that by blast
      then show ?thesis
        unfolding remove_device_def by (intro always_modify) (simp add: I_def cell_remove cell_states_other)
    qed
    show "I (w'\<lparr>iv_devices := AList.update d' device (iv_devices w')\<rparr>)" if "I w'" for w'
      using that by (simp add: I_def)
    show "I (w'\<lparr>iv_store := (iv_store w')\<lparr>st_states := AList.update d' st (st_states (iv_store w'))\<rparr>\<rparr>)"
      if "I w'" "map_of (st_states (iv_store w')) d' = None" for w' st
    proof -
      have "d' \<noteq> d" using that by (auto simp: I_def cell_def state_of_def)
      then show ?thesis using that by (simp add: I_def cell_states_other)
    qed
    show "always I (merge_state env d' values)" for "values"
      unfolding merge_state_def
    proof (rule always_modify)
      fix w' assume "I w'"
      then show "I (let (now, x) = iv_tick env (iv_outside w') in w'\<lparr>iv_store := snd (merge d' values CLOUD now False (iv_store w')),
          iv_outside := x\<rparr>)"
        using merge_keeps_fresh [OF _ assms(2), of "iv_store w'" d f v] assms(3) unfolding I_def
        by (auto split: prod.splits) (metis fst_conv)+
    qed
  qed
  from alwaysD [OF this, of w] show ?thesis using assms(1) by (simp add: I_def)
qed


theorem snapshot_respects_pushed_values_witness:
  "cell (iv_store (snd (merge_cloud (sample_env\<lparr>iv_tick := \<lambda>x. (9, x)\<rparr>) [plain_light]
      (sample_world (snd (merge ''d'' [(''state'', VBool True)] SSL 5 False (new_store []))) 0)))) ''d'' ''state''
   = (Some (VBool True), Some \<lparr>rev_source = SSL, rev_updated_at = 5\<rparr>)"
proof (rule snapshot_respects_pushed_values)
  let ?s = "snd (merge ''d'' [(''state'', VBool True)] SSL 5 False (new_store []))"
  show "cell (iv_store (sample_world ?s (0::rat))) ''d'' ''state'' = (Some (VBool True), Some \<lparr>rev_source = SSL, rev_updated_at = 5\<rparr>)"
    by (simp add: sample_world_def cell_merge)
       (simp add: merge_cell_def new_store_def cell_def state_of_def skips_def protected_def differs_def)
  show "\<forall>x. fst (iv_tick (sample_env\<lparr>iv_tick := \<lambda>x. (9, x)\<rparr>) x) - rev_updated_at \<lparr>rev_source = SSL, rev_updated_at = 5\<rparr>
      < st_guard (iv_store (sample_world ?s (0::rat)))"
    by (simp add: sample_world_def merge_guard new_store_def)
  have "classify_device (\<lambda>m. None) (VDict plain_light) = Inr MONO_LIGHT" by code_simp
  moreover have "\<not> is_hidden_category MONO_LIGHT" by code_simp
  ultimately show "\<forall>device \<in> set [plain_light]. \<forall>c. device_id_of device = Inr ''d'' \<longrightarrow>
      classify_device (iv_catalog (sample_env\<lparr>iv_tick := \<lambda>x. (9, x)\<rparr>)) (VDict device) = Inr c \<longrightarrow> \<not> is_hidden_category c"
    by (simp add: sample_env_def)
qed (simp add: source_order)

section \<open>What a snapshot brings\<close>

text \<open>What the inventory holds of a device: its record, its state and the revisions of its fields.\<close>

definition entry :: "'x inventory \<Rightarrow> string \<Rightarrow> dict option \<times> dict option \<times> (string \<Rightarrow> field_revision option)" where
  "entry w d = (map_of (iv_devices w) d, map_of (st_states (iv_store w)) d,
     \<lambda>f. map_of (st_revisions (iv_store w)) (d, f))"

lemma merge_field_other:
  "d \<noteq> d' \<Longrightarrow> map_of (st_states (snd (merge_field d' src now force fv cs))) d = map_of (st_states (snd cs)) d
    \<and> map_of (st_revisions (snd (merge_field d' src now force fv cs))) (d, f) = map_of (st_revisions (snd cs)) (d, f)"
  by (cases fv; cases cs) (simp add: merge_field_def Let_def dict_simps)

lemma merge_other:
  assumes "d \<noteq> d'"
  shows "map_of (st_states (snd (merge d' values src now force s))) d = map_of (st_states s) d
    \<and> map_of (st_revisions (snd (merge d' values src now force s))) (d, f) = map_of (st_revisions s) (d, f)"
proof -
  have "map_of (st_states (snd (fold (merge_field d' src now force) vs cs))) d = map_of (st_states (snd cs)) d
      \<and> map_of (st_revisions (snd (fold (merge_field d' src now force) vs cs))) (d, f) = map_of (st_revisions (snd cs)) (d, f)" for vs cs
    by (induction vs arbitrary: cs) (simp_all add: merge_field_other [OF assms])
  then show ?thesis using assms by (simp add: merge_def dict_simps)
qed

lemma merge_field_keeps_state:
  "map_of (st_states (snd cs)) d \<noteq> None \<Longrightarrow> map_of (st_states (snd (merge_field d' src now force fv cs))) d \<noteq> None"
  by (cases fv; cases cs) (simp add: merge_field_def Let_def dict_simps)

lemma merge_keeps_state:
  assumes "map_of (st_states s) d \<noteq> None"
  shows "map_of (st_states (snd (merge d' values src now force s))) d \<noteq> None"
proof -
  have "map_of (st_states (snd cs)) d \<noteq> None \<Longrightarrow>
      map_of (st_states (snd (fold (merge_field d' src now force) vs cs))) d \<noteq> None" for vs cs
    by (induction vs arbitrary: cs) (simp_all add: merge_field_keeps_state del: not_None_eq)
  then show ?thesis using assms by (simp add: merge_def dict_simps split: option.splits del: not_None_eq)
qed

lemma remove_entry:
  "entry (snd (remove_device env d w)) d' = (if d' = d then (None, None, \<lambda>f. None) else entry w d')"
  using cell_remove [of d "iv_store w\<lparr>st_states := AList.delete d (st_states (iv_store w))\<rparr>" d']
  by (auto simp: remove_device_def entry_def dict_simps cell_def fun_eq_iff)

lemma always_other:
  assumes "device_id_of device \<noteq> Inr d"
  shows "always (\<lambda>w. entry w d = e) (merge_device_snapshot env device)"
proof (cases "device_id_of device")
  case (Inl x)
  then show ?thesis by (simp add: merge_device_snapshot_def always_def bindS_def)
next
  case id: (Inr d')
  then have d: "d \<noteq> d'" using assms by auto
  show ?thesis
  proof (cases "classify_device (iv_catalog env) (VDict device)")
    case (Inl x)
    then show ?thesis using id by (simp add: merge_device_snapshot_def always_def bindS_def)
  next
    case (Inr c)
    show ?thesis
    proof (rule always_merge_device_snapshot [OF id Inr])
      show "always (\<lambda>w. entry w d = e) (remove_device env d')"
        using d by (simp add: always_def remove_entry)
      show "always (\<lambda>w. entry w d = e) (merge_state env d' values)" for "values"
        using merge_other [OF d] by (simp add: always_def merge_state_def entry_def split: prod.split)
    qed (use d in \<open>simp_all add: entry_def dict_simps\<close>)
  qed
qed

lemma always_known:
  "always (\<lambda>w. map_of (iv_devices w) d = x \<and> map_of (st_states (iv_store w)) d \<noteq> None) (merge_state env d' values)"
  using merge_keeps_state by (simp add: always_def merge_state_def split: prod.split del: not_None_eq)


lemma add_state_known:
  assumes "add_state env d device c w = (Inr (), w')"
  shows "map_of (st_states (iv_store w')) d \<noteq> None \<and> iv_devices w' = iv_devices w"
proof (cases "map_of (st_states (iv_store w)) d")
  case None
  then show ?thesis using assms
    by (cases "periodic_initial_state device") (auto simp: add_state_def dict_simps)
next
  case (Some st)
  then show ?thesis using assms by (auto simp: add_state_def)
qed

lemma snapshot_visible:
  assumes id: "device_id_of device = Inr d" and category: "classify_device (iv_catalog env) (VDict device) = Inr c"
    and visible: "\<not> is_hidden_category c" and run: "merge_device_snapshot env device w = (Inr (), w')"
  shows "map_of (iv_devices w') d = Some device \<and> map_of (st_states (iv_store w')) d \<noteq> None"
proof -
  let ?I = "\<lambda>w. map_of (iv_devices w) d = Some device \<and> map_of (st_states (iv_store w)) d \<noteq> None"
  define rest where "rest = bindS (getS (\<lambda>w. state_of (iv_store w) d)) (\<lambda>state.
      bindS (liftE (cloud_state_of (iv_text env) device state c)) (\<lambda>cloud_state.
      bindS (if cloud_state = [] then retS () else merge_state env d cloud_state) (\<lambda>_.
      if c = DOOR_LOCK then merge_lock env d device else retS ())))"
  have "always ?I (merge_lock env d device)"
    unfolding merge_lock_def using always_known by (intro always_bind) auto
  then have rest: "always ?I rest"
    unfolding rest_def by (intro always_bind) (simp_all add: always_known del: not_None_eq)
  define w1 where "w1 = w\<lparr>iv_devices := AList.update d device (iv_devices w)\<rparr>"
  have run: "bindS (add_state env d device c) (\<lambda>_. rest) w1 = (Inr (), w')"
    using run visible by (simp only: merge_device_snapshot_def id category bindS_simps bindS_modifyS if_False rest_def w1_def)
  obtain r w2 where w2: "add_state env d device c w1 = (r, w2)" by force
  then have "r = Inr ()" using run by (cases r) (simp_all add: bindS_def)
  then have "?I w2" using add_state_known [of env d device c w1 w2] w2 by (simp add: w1_def dict_simps)
  moreover have "snd (rest w2) = w'" using run w2 \<open>r = Inr ()\<close> by (simp add: bindS_def)
  ultimately show ?thesis using alwaysD [OF rest, of w2] by simp
qed

lemma snapshot_hidden:
  assumes "device_id_of device = Inr d" "classify_device (iv_catalog env) (VDict device) = Inr c" "is_hidden_category c"
    and "merge_device_snapshot env device w = (r, w')"
  shows "entry w' d = (None, None, \<lambda>f. None)"
  using assms remove_entry [of env d w d] by (simp add: merge_device_snapshot_def)

definition in_step :: "'x inventory_env \<Rightarrow> dict \<Rightarrow> 'x inventory \<Rightarrow> bool" where
  "in_step env device w \<longleftrightarrow> (\<forall>d c. device_id_of device = Inr d \<and> classify_device (iv_catalog env) (VDict device) = Inr c \<longrightarrow>
     (if is_hidden_category c then entry w d = (None, None, \<lambda>f. None)
      else map_of (iv_devices w) d = Some device \<and> map_of (st_states (iv_store w)) d \<noteq> None))"

lemma snapshot_in_step: "merge_device_snapshot env device w = (Inr (), w') \<Longrightarrow> in_step env device w'"
  unfolding in_step_def by (auto dest: snapshot_visible snapshot_hidden simp del: not_None_eq)

lemma in_step_entry: "(\<And>d. device_id_of device = Inr d \<Longrightarrow> entry w' d = entry w d) \<Longrightarrow> in_step env device w \<Longrightarrow> in_step env device w'"
  unfolding in_step_def entry_def by (smt (verit) prod.inject)

lemma merge_cloud_other:
  assumes "Inr d \<notin> device_id_of ` set discovered"
  shows "entry (snd (merge_cloud env discovered w)) d = entry w d"
proof -
  have "always (\<lambda>w'. entry w' d = entry w d) (merge_cloud env discovered)"
    unfolding merge_cloud_def using assms by (intro always_for_each always_other) force
  from alwaysD [OF this, of w] show ?thesis by simp
qed

lemma merge_cloud_in_step:
  assumes "fst (merge_cloud env discovered w) = Inr ()" "distinct (map device_id_of discovered)" "device \<in> set discovered"
  shows "in_step env device (snd (merge_cloud env discovered w))"
  using assms
proof (induction discovered arbitrary: w)
  case Nil
  then show ?case by simp
next
  case (Cons x xs)
  obtain r w1 where x: "merge_device_snapshot env x w = (r, w1)" by force
  then have r: "r = Inr ()" using Cons.prems(1) by (cases r) (simp_all add: merge_cloud_def bindS_def)
  have tail: "merge_cloud env (x # xs) w = merge_cloud env xs w1"
    using x r by (simp add: merge_cloud_def bindS_def)
  show ?case
  proof (cases "device \<in> set xs")
    case True
    then show ?thesis using Cons.IH [of w1] Cons.prems(1,2) by (simp add: tail)
  next
    case False
    then have "device = x" using Cons.prems(3) by simp
    then have "in_step env device w1" using snapshot_in_step x r by blast
    moreover have "entry (snd (merge_cloud env xs w1)) d = entry w1 d" if "device_id_of device = Inr d" for d
      using merge_cloud_other [of d xs env w1] Cons.prems(2) that \<open>device = x\<close> by auto
    ultimately show ?thesis unfolding tail by (rule in_step_entry [rotated]) 
  qed
qed

section \<open>Properties\<close>

text \<open>After a snapshot has been merged without an exception, the inventory is in step with it: a listed
  device of a visible category is known with exactly its listed record and has a state, a listed device of a
  hidden category has neither, and no revision is left of its fields; a device that was not listed keeps its
  record, its state and its revisions.\<close>

lemma snapshot_syncs_devices:
  assumes "merge_cloud env discovered w = (Inr (), w')" "distinct (map device_id_of discovered)"
    and "device \<in> set discovered" "device_id_of device = Inr d"
    and "classify_device (iv_catalog env) (VDict device) = Inr c" "Inr d' \<notin> device_id_of ` set discovered"
  shows "(if is_hidden_category c
      then map_of (iv_devices w') d = None \<and> map_of (st_states (iv_store w')) d = None
        \<and> (\<nexists>f r. map_of (st_revisions (iv_store w')) (d, f) = Some r)
      else map_of (iv_devices w') d = Some device \<and> map_of (st_states (iv_store w')) d \<noteq> None)
    \<and> map_of (iv_devices w') d' = map_of (iv_devices w) d'
    \<and> map_of (st_states (iv_store w')) d' = map_of (st_states (iv_store w)) d'
    \<and> map_of (st_revisions (iv_store w')) (d', f) = map_of (st_revisions (iv_store w)) (d', f)"
proof -
  have "in_step env device w'" using merge_cloud_in_step [of env discovered w device] assms(1-3) by simp
  moreover have "entry w' d' = entry w d'" using merge_cloud_other [OF assms(6), of env w] assms(1) by simp
  ultimately show ?thesis using assms(4,5) unfolding in_step_def entry_def by (auto simp: fun_eq_iff)
qed


text \<open>The derived status of a lock can contradict the fields it is derived from: when the SSL channel has
  pushed only that the door of a locked lock is open, a cloud snapshot within the guard interval moves the
  unguarded lock field to unlocked, while the guarded status keeps reporting an open door with a locked bolt.
  The next snapshot after the guard interval repairs it.\<close>

lemma snapshot_splits_lock_status:
  "let s = door_push locked_states;
       st = state_of (iv_store (snd (merge_cloud sample_env [open_lock] (sample_world s 110)))) ''d'';
       later = state_of (iv_store (snd (merge_cloud sample_env [open_lock] (sample_world s 131)))) ''d''
   in get st ''locked'' = VBool False \<and> get st ''door_state'' = VBool True \<and> get st ''lock_status'' = VStr ''abnormal''
     \<and> derive_lock_status (get st ''locked'') (get st ''door_state'') (get st ''inside_lock_state'') = Some ''unlocked''
     \<and> get later ''lock_status'' = VStr ''unlocked''"
  by code_simp

end
