(* ===== verification/Lock_Events.thy ===== *)
theory Lock_Events
  imports Lock_Status Effects
begin

text \<open>
  \<^verbatim>\<open>lock_manager.py\<close>: the events of a door lock. Packets are normalized, replays are dropped, and the
  opening of a door is attributed to the unlock that preceded it.

  The manager's state is the record \<open>lock_manager\<close>; a signature is the list of the values of the
  Python tuple. Its world has an outside component for the clock (\<^verbatim>\<open>time.monotonic()\<close>), the time of day
  (\<open>le_time\<close> is \<^verbatim>\<open>int(time.time())\<close>) and \<^verbatim>\<open>uuid4\<close>; clock readings are rationals and their difference
  is exact. \<open>le_digest\<close> is the SHA-256 of the text of a signature, \<open>le_user\<close> and \<open>le_credential\<close> are the
  callbacks that look up names. No operation raises on a packet that is a dictionary, save for the classification
  of a message whose text is not a text.
\<close>

section \<open>State\<close>

record unlock =
  un_fields :: dict
  un_at :: rat

record lock_manager =
  lm_signatures :: "(string, pyval list) pydict"
  lm_unlocks :: "(string, unlock) pydict"
  lm_latest :: "(string, rat) pydict"
  lm_doors :: "(string, bool) pydict"
  lm_seen :: "(string, (string list, rat) pydict) pydict"

definition new_lock_manager :: lock_manager where
  "new_lock_manager = \<lparr>lm_signatures = [], lm_unlocks = [], lm_latest = [], lm_doors = [], lm_seen = []\<rparr>"

record 'x lock_world =
  lw_manager :: lock_manager
  lw_outside :: 'x

record 'x lock_env =
  le_clock :: "'x \<Rightarrow> rat \<times> 'x"
  le_time :: "'x \<Rightarrow> int \<times> 'x"
  le_uuid :: "'x \<Rightarrow> string \<times> 'x"
  le_digest :: "pyval list \<Rightarrow> string"
  le_text :: "pyval \<Rightarrow> string"
  le_user :: "string \<Rightarrow> pyval \<Rightarrow> string option"
  le_credential :: "(string \<Rightarrow> pyval \<Rightarrow> pyval \<Rightarrow> string option) option"
  le_window :: rat

definition ask :: "('x \<Rightarrow> 'a \<times> 'x) \<Rightarrow> ('x lock_world, 'a) io" where
  "ask f w = (let (a, x) = f (lw_outside w) in (Inr a, w\<lparr>lw_outside := x\<rparr>))"

definition fresh_id :: "'x lock_env \<Rightarrow> ('x lock_world, string) io" where
  "fresh_id env = bindS (ask (le_uuid env)) (\<lambda>h. retS (take 16 h))"

definition onM :: "(lock_manager \<Rightarrow> lock_manager) \<Rightarrow> ('x lock_world, unit) io" where
  "onM f = modifyS (\<lambda>w. w\<lparr>lw_manager := f (lw_manager w)\<rparr>)"

section \<open>Replays\<close>

definition event_signature :: "dict \<Rightarrow> pyval list" where
  "event_signature e = [get e ''kind'', get e ''unlock_type'', get e ''unlock_user_id'', get e ''time'',
     py_or (get e ''pic_url'') (get e ''doorbell_url'')]"

definition state_signature :: "lock_properties \<Rightarrow> pyval list" where
  "state_signature lock = [VStr ''state'', of_opt_bool (lp_locked lock), of_opt_bool (lp_door_open lock),
     of_opt_bool (lp_inside_locked lock), of_opt_bool (lp_child_locked lock), of_opt_bool (lp_leave_home_armed lock)]"

definition SEEN_LIMIT :: nat where "SEEN_LIMIT = 64"

definition seen_key :: "'x lock_env \<Rightarrow> dict \<Rightarrow> string list" where
  "seen_key env e = map (py_str (le_text env)) (event_signature e)"

definition seen_of :: "string \<Rightarrow> lock_manager \<Rightarrow> (string list, rat) pydict" where
  "seen_of d m = (case map_of (lm_seen m) d of None \<Rightarrow> [] | Some seen \<Rightarrow> seen)"

text \<open>An admitted event goes to the end of the device's log, which is cut to its newest 64 entries.\<close>

definition admit_event :: "'x lock_env \<Rightarrow> string \<Rightarrow> dict \<Rightarrow> rat \<Rightarrow> lock_manager \<Rightarrow> bool \<times> lock_manager" where
  "admit_event env d e now m =
     (let seen = seen_of d m;
          key = seen_key env e
      in if (case map_of seen key of None \<Rightarrow> False | Some seen_at \<Rightarrow> get e ''time'' \<noteq> VNone \<or> now - seen_at < 1)
         then (False, m\<lparr>lm_seen := dict_setdefault d [] (lm_seen m)\<rparr>)
         else
           let seen = AList.delete key seen @ [(key, now)]
           in (True, m\<lparr>lm_seen := AList.update d (drop (length seen - SEEN_LIMIT) seen) (lm_seen m)\<rparr>))"

definition admit_state :: "string \<Rightarrow> lock_properties \<Rightarrow> lock_manager \<Rightarrow> bool" where
  "admit_state d lock m = (case map_of (lm_signatures m) d of None \<Rightarrow> True
     | Some old \<Rightarrow> \<not> py_eq_list old (state_signature lock))"

definition reports_nothing :: "lock_properties \<Rightarrow> bool" where
  "reports_nothing lock \<longleftrightarrow> lp_locked lock = None \<and> lp_door_open lock = None \<and> lp_inside_locked lock = None
     \<and> lp_child_locked lock = None \<and> lp_leave_home_armed lock = None"

section \<open>Unlocks\<close>

definition resolve_name :: "'x lock_env \<Rightarrow> string \<Rightarrow> pyval \<Rightarrow> pyval \<Rightarrow> string option" where
  "resolve_name env d user_id method = (case le_credential env of
     Some credential \<Rightarrow> credential d user_id method | None \<Rightarrow> le_user env d user_id)"

definition name_field :: "string \<Rightarrow> string option \<Rightarrow> dict \<Rightarrow> dict" where
  "name_field k name data = (case name of None \<Rightarrow> data
     | Some n \<Rightarrow> if n = [] then data else AList.update k (VStr n) data)"

text \<open>The producer's time of an event, when it is a finite number that is not negative.\<close>

definition event_time :: "dict \<Rightarrow> rat option" where
  "event_time e = (case py_float (get e ''time'') of Inr (Fin r) \<Rightarrow> if r < 0 then None else Some r | _ \<Rightarrow> None)"

definition unlock_of :: "dict \<Rightarrow> dict \<Rightarrow> rat \<Rightarrow> unlock" where
  "unlock_of e data now = \<lparr>un_fields =
     [(''user_id'', get e ''unlock_user_id''), (''unlock_type'', get e ''unlock_type''),
      (''open_direction'', dget e ''open_direction'' (VStr ''inside'')), (''unlock_method'', get e ''unlock_method''),
      (''time'', get data ''time''), (''opening_id'', get data ''opening_id'')], un_at = now\<rparr>"

text \<open>The flag says that the event is historical: \<^verbatim>\<open>build_event\<close> returns at once.\<close>

definition note_unlock ::
  "'x lock_env \<Rightarrow> string \<Rightarrow> dict \<Rightarrow> rat \<Rightarrow> dict \<Rightarrow> ('x lock_world, dict \<times> bool) io" where
  "note_unlock env d e now data =
     (let t = event_time e
      in bindS (case t of None \<Rightarrow> ask (le_time env) | Some r \<Rightarrow> retS (rat_trunc r)) (\<lambda>seconds.
         bindS (case t of None \<Rightarrow> fresh_id env | Some r \<Rightarrow> retS (take 16 (le_digest env (event_signature e)))) (\<lambda>opening_id.
         bindS (getS (\<lambda>w. map_of (lm_latest (lw_manager w)) d)) (\<lambda>latest.
           let data = name_field ''unlock_user_name'' (resolve_name env d (get e ''unlock_user_id'') (get e ''unlock_method''))
                 (AList.update ''opening_id'' (VStr opening_id) (AList.update ''time'' (VInt seconds) data));
               historical = (case (t, latest) of (Some r, Some l) \<Rightarrow> r < l | _ \<Rightarrow> False)
           in if historical then retS (AList.update ''historical'' (VBool True) data, True)
              else bindS (onM (\<lambda>m. m\<lparr>
                  lm_latest := (case t of None \<Rightarrow> lm_latest m | Some r \<Rightarrow> AList.update d r (lm_latest m)),
                  lm_unlocks := AList.update d (unlock_of e data now) (lm_unlocks m)\<rparr>)) (\<lambda>_. retS (data, False))))))"

section \<open>Openings\<close>

definition opening_time :: "'x lock_env \<Rightarrow> dict \<Rightarrow> ('x lock_world, int) io" where
  "opening_time env raw = (case py_int (get raw ''time'') of
      Inr n \<Rightarrow> if n < 0 then ask (le_time env) else retS n
    | Inl e \<Rightarrow> if e \<in> {TypeError, ValueError, OverflowError} then ask (le_time env) else raiseS e)"

text \<open>The time between the unlock and the opening: by the clock, or by the producer's timestamps when both
  packets carry one and they are further apart. Timestamps that do not make sense rule the unlock out.\<close>

definition elapsed_since :: "'x lock_env \<Rightarrow> dict \<Rightarrow> unlock \<Rightarrow> rat \<Rightarrow> rat" where
  "elapsed_since env raw u now =
     (let elapsed = now - un_at u
      in if get raw ''time'' \<noteq> VNone \<and> get (un_fields u) ''time'' \<noteq> VNone then
           (case (py_float (get raw ''time''), py_float (get (un_fields u) ''time'')) of
              (Inr (Fin a), Inr (Fin b)) \<Rightarrow>
                (case to_double (a - b) of
                   Fin produced \<Rightarrow> if 0 \<le> produced then max elapsed produced else le_window env + 1
                 | _ \<Rightarrow> le_window env + 1)
            | _ \<Rightarrow> le_window env + 1)
         else elapsed)"

definition text_of :: "pyval \<Rightarrow> string option" where
  "text_of v = (case v of VStr s \<Rightarrow> Some s | _ \<Rightarrow> None)"

definition unlock_method_of :: "dict \<Rightarrow> pyval" where
  "unlock_method_of fs = py_or (get fs ''unlock_method'') (of_opt_str (normalize_unlock_method (get fs ''unlock_type'')))"

definition match_unlock :: "dict \<Rightarrow> dict \<Rightarrow> dict" where
  "match_unlock fs data =
     (let method = unlock_method_of fs;
          direction = unlock_direction (text_of method);
          direction = (if get fs ''open_direction'' = VStr ''inside'' \<and> direction \<noteq> ''outside'' then ''inside'' else direction)
      in dict_merge data [(''opening_id'', get fs ''opening_id''), (''time'', get fs ''time''),
           (''open_direction'', VStr direction), (''unlock_method'', method), (''unlock_type'', get fs ''unlock_type'')])"

definition attribute :: "'x lock_env \<Rightarrow> string \<Rightarrow> unlock option \<Rightarrow> rat \<Rightarrow> dict \<Rightarrow> dict" where
  "attribute env d recent elapsed data =
     (let data = (case recent of None \<Rightarrow> data
            | Some u \<Rightarrow> if 0 \<le> elapsed \<and> elapsed \<le> le_window env then match_unlock (un_fields u) data else data)
      in case (case recent of
                 Some u \<Rightarrow> if get data ''open_direction'' = VStr ''outside''
                   then resolve_opened_by (le_text env) (VDict (un_fields u)) (Fin elapsed) (le_window env) else None
               | None \<Rightarrow> None) of
           None \<Rightarrow> data
         | Some (user_id, unlock_type) \<Rightarrow>
             name_field ''opened_by_name'' (resolve_name env d (VStr user_id) (get data ''unlock_method''))
               (dict_merge data [(''unlock_user_id'', VStr user_id), (''opened_by_user_id'', VStr user_id),
                  (''opened_by_type'', unlock_type)]))"

definition door_event ::
  "'x lock_env \<Rightarrow> string \<Rightarrow> dict \<Rightarrow> lock_properties \<Rightarrow> rat \<Rightarrow> dict \<Rightarrow> ('x lock_world, dict) io" where
  "door_event env d raw lock now data =
     bindS (getS (\<lambda>w. map_of (lm_doors (lw_manager w)) d)) (\<lambda>previous.
     case lp_door_open lock of
       None \<Rightarrow> retS data
     | Some False \<Rightarrow>
         bindS (onM (\<lambda>m. m\<lparr>lm_doors := AList.update d False (lm_doors m),
           lm_unlocks := (if previous = Some True then AList.delete d (lm_unlocks m) else lm_unlocks m)\<rparr>)) (\<lambda>_. retS data)
     | Some True \<Rightarrow>
         bindS (onM (\<lambda>m. m\<lparr>lm_doors := AList.update d True (lm_doors m)\<rparr>)) (\<lambda>_.
         if previous = Some True then retS data
         else
           bindS (fresh_id env) (\<lambda>opening_id.
           bindS (opening_time env raw) (\<lambda>seconds.
           bindS (getS (\<lambda>w. map_of (lm_unlocks (lw_manager w)) d)) (\<lambda>recent.
           bindS (onM (\<lambda>m. m\<lparr>lm_unlocks := AList.delete d (lm_unlocks m)\<rparr>)) (\<lambda>_.
           retS (attribute env d recent (case recent of None \<Rightarrow> 0 | Some u \<Rightarrow> elapsed_since env raw u now)
             (dict_merge data [(''door_opened'', VBool True), (''opening_id'', VStr opening_id), (''time'', VInt seconds),
                (''open_direction'', VStr ''inside''), (''unlock_method'', VNone), (''unlock_user_id'', VNone),
                (''unlock_type'', VNone)]))))))))"

section \<open>One packet\<close>

definition base_event :: "string \<Rightarrow> dict \<Rightarrow> lock_properties \<Rightarrow> dict option \<Rightarrow> dict" where
  "base_event d raw lock event = dict_merge
     [(''device_id'', VStr d), (''uid'', dget raw ''uid'' (VStr [])), (''locked'', of_opt_bool (lp_locked lock)),
      (''door_open'', of_opt_bool (lp_door_open lock)), (''inside_locked'', of_opt_bool (lp_inside_locked lock)),
      (''child_locked'', of_opt_bool (lp_child_locked lock)),
      (''leave_home_armed'', of_opt_bool (lp_leave_home_armed lock))]
     (case event of None \<Rightarrow> [] | Some e \<Rightarrow> e)"

definition admit :: "'x lock_env \<Rightarrow> string \<Rightarrow> dict option \<Rightarrow> lock_properties \<Rightarrow> rat \<Rightarrow> ('x lock_world, bool) io" where
  "admit env d event lock now w =
     (case event of
        Some e \<Rightarrow> (let (new, m) = admit_event env d e now (lw_manager w)
          in (Inr new, w\<lparr>lw_manager := (if new then m\<lparr>lm_signatures := AList.update d (event_signature e) (lm_signatures m)\<rparr> else m)\<rparr>))
      | None \<Rightarrow> if admit_state d lock (lw_manager w)
          then (Inr True, w\<lparr>lw_manager := (lw_manager w)\<lparr>lm_signatures :=
            AList.update d (state_signature lock) (lm_signatures (lw_manager w))\<rparr>\<rparr>)
          else (Inr False, w))"

definition publish ::
  "'x lock_env \<Rightarrow> string \<Rightarrow> dict \<Rightarrow> lock_properties \<Rightarrow> dict option \<Rightarrow> rat \<Rightarrow> ('x lock_world, dict) io" where
  "publish env d raw lock event now =
     (let data = base_event d raw lock event
      in case event of
           Some e \<Rightarrow>
             if get e ''kind'' = VStr ''unlock'' then
               bindS (note_unlock env d e now data) (\<lambda>(data, historical).
                 if historical then retS data else door_event env d raw lock now data)
             else door_event env d raw lock now data
         | None \<Rightarrow> door_event env d raw lock now data)"

definition build_event :: "'x lock_env \<Rightarrow> string \<Rightarrow> dict \<Rightarrow> ('x lock_world, dict option) io" where
  "build_event env d raw =
     (let lock = normalize_door_lock_properties (get raw ''properties'');
          event = normalize_lock_event (VDict raw)
      in if event = None \<and> reports_nothing lock then retS None
         else
           bindS (ask (le_clock env)) (\<lambda>now.
           bindS (admit env d event lock now) (\<lambda>new.
           if \<not> new then retS None
           else bindS (publish env d raw lock event now) (\<lambda>data. retS (Some data)))))"

definition forget_device :: "string \<Rightarrow> lock_manager \<Rightarrow> lock_manager" where
  "forget_device d m = \<lparr>lm_signatures = AList.delete d (lm_signatures m), lm_unlocks = AList.delete d (lm_unlocks m),
     lm_latest = AList.delete d (lm_latest m), lm_doors = AList.delete d (lm_doors m), lm_seen = AList.delete d (lm_seen m)\<rparr>"

section \<open>Messages and transient flags\<close>

definition LOITER :: string where "LOITER = [CHR 0xE9, CHR 0x80, CHR 0x97, CHR 0xE7, CHR 0x95, CHR 0x99]"
definition VISIT :: string where "VISIT = [CHR 0xE6, CHR 0x9D, CHR 0xA5, CHR 0xE8, CHR 0xAE, CHR 0xBF]"
definition VISITOR :: string where "VISITOR = [CHR 0xE8, CHR 0xAE, CHR 0xBF, CHR 0xE5, CHR 0xAE, CHR 0xA2]"

definition snapshot_kind :: "pyval \<Rightarrow> string py" where
  "snapshot_kind v =
     bindE (text_in LOITER v) (\<lambda>loiter. if loiter then Inr ''loiter'' else
     bindE (text_in VISIT v) (\<lambda>visit. if visit then Inr ''visit'' else
     bindE (text_in VISITOR v) (\<lambda>visitor. Inr (if visitor then ''visit'' else ''message''))))"

definition build_message :: "(string \<Rightarrow> pyval option) \<Rightarrow> string \<Rightarrow> dict \<Rightarrow> dict option py" where
  "build_message loads d raw = (case normalize_message_event loads (VDict raw) of
      None \<Rightarrow> Inr None
    | Some event \<Rightarrow>
        let event = AList.update ''device_id'' (py_or (VStr d) (get event ''device_id'')) event
        in bindE (snapshot_kind (py_or (get event ''text'') (VStr []))) (\<lambda>kind.
           Inr (Some (AList.update ''snapshot_kind'' (VStr kind) event))))"

definition transient_update :: "dict \<Rightarrow> dict \<times> string option" where
  "transient_update raw = (case normalize_lock_event (VDict raw) of
      None \<Rightarrow> ([], None)
    | Some event \<Rightarrow>
        let kind = get event ''kind''
        in if kind = VStr ''ring'' then
             ([(''doorbell_ring'', VBool True), (''doorbell_url'', get event ''doorbell_url''),
               (''doorbell_ip'', get event ''doorbell_ip'')], Some ''doorbell'')
           else if kind = VStr ''answered'' then ([(''doorbell_answered'', VBool True)], None)
           else if kind = VStr ''bye'' then ([(''doorbell_answered'', VBool False)], None)
           else if kind = VStr ''unlock'' then ([(''unlock_event'', VBool True)], Some ''unlock'')
           else ([], None))"


section \<open>Samples\<close>

definition sample_lock_env :: "rat lock_env" where
  "sample_lock_env = \<lparr>le_clock = (\<lambda>x. (x, x)), le_time = (\<lambda>x. (1000, x)), le_uuid = (\<lambda>x. (''0123456789abcdef0'', x)),
     le_digest = (\<lambda>sig. ''fedcba98765432100''), le_text = (\<lambda>v. []), le_user = (\<lambda>d u. None), le_credential = None, le_window = 30\<rparr>"

definition unlock_packet :: dict where
  "unlock_packet = [(''event'', VDict [(''server'', VStr ''doorLock''), (''name'', VStr ''unlockEvent''),
     (''value'', VDict [(''type'', VStr ''fingerprint''), (''userId'', VInt 7)])]), (''time'', VInt 100)]"

definition door_packet :: dict where
  "door_packet = [(''properties'', VDict [(''door_status'', VInt 1)])]"

definition new_world :: "rat lock_world" where
  "new_world = \<lparr>lw_manager = new_lock_manager, lw_outside = 0\<rparr>"

definition unlocked_world :: "rat lock_world" where
  "unlocked_world = snd (build_event sample_lock_env ''d'' unlock_packet new_world)"

section \<open>No packet raises\<close>

lemma total_ask [simp]: "totalS (ask h)" "totalS (onM k)"
  by (auto simp: totalS_def ask_def onM_def split: prod.splits)

lemma py_int_errors: "py_int v = Inl e \<Longrightarrow> e \<in> {TypeError, ValueError, OverflowError}"
  by (cases v rule: py_int.cases) (auto split: option.splits)

lemma total_fresh_id: "totalS (fresh_id env)"
  by (simp add: fresh_id_def totalS_bind)

lemma total_opening_time: "totalS (opening_time env raw)"
  using py_int_errors by (auto simp: opening_time_def split: sum.split)

lemma total_note_unlock: "totalS (note_unlock env d e now data)"
  unfolding note_unlock_def Let_def
  by (intro totalS_bind) (auto simp: total_fresh_id intro!: totalS_bind split: option.split)

lemma total_door_event: "totalS (door_event env d raw lock now data)"
  unfolding door_event_def
  by (intro totalS_bind) (auto simp: total_fresh_id total_opening_time intro!: totalS_bind split: option.split bool.split)

lemma total_publish: "totalS (publish env d raw lock event now)"
  unfolding publish_def Let_def
  by (auto simp: total_door_event total_note_unlock intro!: totalS_bind split: option.split)

lemma total_admit: "totalS (admit env d event lock now)"
  by (auto simp: totalS_def admit_def split: option.split prod.split)

lemma total_build_event: "totalS (build_event env d raw)"
  unfolding build_event_def Let_def by (auto simp: total_publish total_admit intro!: totalS_bind)

lemma build_event_returns: obtains r w' where "build_event env d raw w = (Inr r, w')"
  using total_build_event unfolding totalS_def by blast

section \<open>What a packet does to the manager\<close>

definition opens :: "dict option \<Rightarrow> bool" where
  "opens r \<longleftrightarrow> (case r of None \<Rightarrow> False | Some data \<Rightarrow> get data ''door_opened'' \<noteq> VNone)"

lemma lock_event_cases:
  assumes "normalize_lock_event v = Some e"
  obtains p where "legacy_unlock_event p = Some e" | srv name u t where "thing_event srv name u t = Some e"
  using assms by (auto simp: normalize_lock_event_def split: pyval.splits option.splits if_splits)

lemma event_keys:
  assumes "normalize_lock_event v = Some e"
  shows "\<not> has_key e ''door_opened''" "\<not> has_key e ''opened_by_user_id''"
proof -
  let ?P = "pred_option (\<lambda>e. \<not> has_key e ''door_opened'' \<and> \<not> has_key e ''opened_by_user_id'')"
  have thing: "?P (thing_event srv n u t)" for srv n u t
    unfolding thing_event_def Let_def by (intro pred_option_if) simp_all
  have legacy: "?P (legacy_unlock_event p)" for p
    unfolding legacy_unlock_event_def Let_def by (intro pred_option_if) simp_all
  from assms have "\<not> has_key e ''door_opened'' \<and> \<not> has_key e ''opened_by_user_id''"
  proof (cases rule: lock_event_cases)
    case (1 p)
    then show ?thesis using legacy [of p] by simp
  next
    case (2 srv name u t)
    then show ?thesis using thing [of srv name u t] by simp
  qed
  then show "\<not> has_key e ''door_opened''" "\<not> has_key e ''opened_by_user_id''" by simp_all
qed

lemma get_merge: "k \<notin> fst ` set e \<Longrightarrow> get (dict_merge d e) k = get d k"
  by (induction d e rule: dict_merge.induct) auto

lemma ask_manager: "ask f w = (r, w') \<Longrightarrow> lw_manager w' = lw_manager w"
  by (auto simp: ask_def split: prod.splits)

lemma opening_time_manager: "opening_time env raw w = (r, w') \<Longrightarrow> lw_manager w' = lw_manager w"
  by (auto simp: opening_time_def ask_manager split: sum.splits if_splits)

lemma fresh_id_manager: "fresh_id env w = (r, w') \<Longrightarrow> lw_manager w' = lw_manager w"
  by (auto simp: fresh_id_def bindS_def ask_manager split: prod.splits sum.splits)


lemma name_field_other: "k \<noteq> k' \<Longrightarrow> get (name_field k' name data) k = get data k"
  by (simp add: name_field_def split: option.split)

lemma note_unlock_run:
  assumes "note_unlock env d e now data w = (Inr (data', historical), w')"
  shows "(k \<notin> {''time'', ''opening_id'', ''unlock_user_name'', ''historical''} \<longrightarrow> get data' k = get data k)
    \<and> (if historical then lw_manager w' = lw_manager w
       else lw_manager w' = (lw_manager w)\<lparr>
         lm_latest := (case event_time e of None \<Rightarrow> lm_latest (lw_manager w) | Some r \<Rightarrow> AList.update d r (lm_latest (lw_manager w))),
         lm_unlocks := AList.update d (unlock_of e data' now) (lm_unlocks (lw_manager w))\<rparr>)
    \<and> (historical \<longleftrightarrow> (\<exists>r l. event_time e = Some r \<and> map_of (lm_latest (lw_manager w)) d = Some l \<and> r < l))"
proof -
  obtain seconds w1 opening_id w2 where
    s: "(case event_time e of None \<Rightarrow> ask (le_time env) | Some r \<Rightarrow> retS (rat_trunc r)) w = (Inr seconds, w1)"
    and i: "(case event_time e of None \<Rightarrow> fresh_id env | Some r \<Rightarrow> retS (take 16 (le_digest env (event_signature e)))) w1
        = (Inr opening_id, w2)"
    and rest: "(let data = name_field ''unlock_user_name'' (resolve_name env d (get e ''unlock_user_id'') (get e ''unlock_method''))
                 (AList.update ''opening_id'' (VStr opening_id) (AList.update ''time'' (VInt seconds) data));
               historical = (case (event_time e, map_of (lm_latest (lw_manager w2)) d) of (Some r, Some l) \<Rightarrow> r < l | _ \<Rightarrow> False)
           in if historical then retS (AList.update ''historical'' (VBool True) data, True)
              else bindS (onM (\<lambda>m. m\<lparr>
                  lm_latest := (case event_time e of None \<Rightarrow> lm_latest m | Some r \<Rightarrow> AList.update d r (lm_latest m)),
                  lm_unlocks := AList.update d (unlock_of e data now) (lm_unlocks m)\<rparr>)) (\<lambda>_. retS (data, False))) w2
          = (Inr (data', historical), w')"
    using assms unfolding note_unlock_def Let_def by (elim bindS_InrE) (simp only: getS_run prod.inject sum.inject, blast)
  have m: "lw_manager w2 = lw_manager w"
    using s i by (cases "event_time e") (auto simp: ask_manager fresh_id_manager)
  show ?thesis
    using rest unfolding Let_def m
    by (cases "case (event_time e, map_of (lm_latest (lw_manager w)) d) of (Some r, Some l) \<Rightarrow> r < l | _ \<Rightarrow> False")
       (use m in \<open>auto simp: onM_def name_field_other bindS_def split: option.splits\<close>)
qed

definition opened_fields :: "dict \<Rightarrow> string \<Rightarrow> int \<Rightarrow> dict" where
  "opened_fields data opening_id seconds =
     dict_merge data [(''door_opened'', VBool True), (''opening_id'', VStr opening_id), (''time'', VInt seconds),
       (''open_direction'', VStr ''inside''), (''unlock_method'', VNone), (''unlock_user_id'', VNone), (''unlock_type'', VNone)]"

lemma door_event_run:
  assumes "door_event env d raw lock now data w = (Inr data', w')"
  shows "if lp_door_open lock = Some True \<and> map_of (lm_doors (lw_manager w)) d \<noteq> Some True
    then (\<exists>opening_id seconds. data' = attribute env d (map_of (lm_unlocks (lw_manager w)) d)
            (case map_of (lm_unlocks (lw_manager w)) d of None \<Rightarrow> 0 | Some u \<Rightarrow> elapsed_since env raw u now)
            (opened_fields data opening_id seconds))
      \<and> lw_manager w' = (lw_manager w)\<lparr>lm_doors := AList.update d True (lm_doors (lw_manager w)),
          lm_unlocks := AList.delete d (lm_unlocks (lw_manager w))\<rparr>
    else data' = data
      \<and> lm_unlocks (lw_manager w') \<in> {lm_unlocks (lw_manager w), AList.delete d (lm_unlocks (lw_manager w))}
      \<and> lm_seen (lw_manager w') = lm_seen (lw_manager w) \<and> lm_latest (lw_manager w') = lm_latest (lw_manager w)"
proof (cases "lp_door_open lock = Some True \<and> map_of (lm_doors (lw_manager w)) d \<noteq> Some True")
  case False
  then show ?thesis
    using assms unfolding if_not_P [OF False] door_event_def
    by (cases "lp_door_open lock"; cases "the (lp_door_open lock)")
       (auto simp: bindS_def onM_def)
next
  case True
  define w1 where "w1 = w\<lparr>lw_manager := (lw_manager w)\<lparr>lm_doors := AList.update d True (lm_doors (lw_manager w))\<rparr>\<rparr>"
  from assms True obtain opening_id seconds w2 w3 where
    i: "fresh_id env w1 = (Inr opening_id, w2)" and s: "opening_time env raw w2 = (Inr seconds, w3)"
    and rest: "bindS (onM (\<lambda>m. m\<lparr>lm_unlocks := AList.delete d (lm_unlocks m)\<rparr>)) (\<lambda>_.
       retS (attribute env d (map_of (lm_unlocks (lw_manager w3)) d)
         (case map_of (lm_unlocks (lw_manager w3)) d of None \<Rightarrow> 0 | Some u \<Rightarrow> elapsed_since env raw u now)
         (opened_fields data opening_id seconds))) w3 = (Inr data', w')"
    unfolding door_event_def opened_fields_def w1_def
    by (auto simp: onM_def elim!: bindS_InrE)
  have m: "lw_manager w3 = lw_manager w1" using i s by (simp add: fresh_id_manager opening_time_manager)
  show ?thesis
    using rest True unfolding if_P [OF True] m by (auto simp: w1_def bindS_def onM_def m)
qed


lemma elapsed_within:
  "elapsed_since env raw u now \<le> le_window env \<Longrightarrow> now - un_at u \<le> le_window env"
  by (auto simp: elapsed_since_def Let_def split: if_splits sum.splits pyfloat.splits)

lemma attribute_frame: "get (attribute env d recent elapsed data) ''door_opened'' = get data ''door_opened''"
  by (auto simp: attribute_def Let_def match_unlock_def get_merge name_field_other split: option.split prod.split)

lemma attributed_to:
  assumes "get (attribute env d recent elapsed data) ''opened_by_user_id'' \<noteq> VNone"
    and "get data ''opened_by_user_id'' = VNone" "get data ''open_direction'' = VStr ''inside''"
  obtains u m where "recent = Some u" "elapsed \<le> le_window env"
    "text_of (unlock_method_of (un_fields u)) = Some m" "m \<in> set OUTSIDE_METHODS"
    "get (attribute env d recent elapsed data) ''opened_by_user_id'' = VStr (py_str (le_text env) (get (un_fields u) ''user_id''))"
proof (cases recent)
  case None
  then show ?thesis using assms by (simp add: attribute_def)
next
  case (Some u)
  let ?data = "if 0 \<le> elapsed \<and> elapsed \<le> le_window env then match_unlock (un_fields u) data else data"
  let ?who = "if get ?data ''open_direction'' = VStr ''outside''
    then resolve_opened_by (le_text env) (VDict (un_fields u)) (Fin elapsed) (le_window env) else None"
  have run: "attribute env d recent elapsed data = (case ?who of None \<Rightarrow> ?data
      | Some (user_id, unlock_type) \<Rightarrow> name_field ''opened_by_name'' (resolve_name env d (VStr user_id) (get ?data ''unlock_method''))
          (dict_merge ?data [(''unlock_user_id'', VStr user_id), (''opened_by_user_id'', VStr user_id),
            (''opened_by_type'', unlock_type)]))"
    by (simp only: attribute_def Some option.case Let_def)
  have none: "get ?data ''opened_by_user_id'' = VNone"
    using assms(2) by (simp add: match_unlock_def Let_def get_merge)
  obtain user_id unlock_type where who: "?who = Some (user_id, unlock_type)"
    using assms(1) none unfolding run by (cases ?who) auto
  have some_if: "(if b then x else None) = Some y \<Longrightarrow> b \<and> x = Some y" for b and x :: "(string \<times> pyval) option" and y
    by (cases b) simp_all
  have outside: "get ?data ''open_direction'' = VStr ''outside''"
    and resolved: "resolve_opened_by (le_text env) (VDict (un_fields u)) (Fin elapsed) (le_window env) = Some (user_id, unlock_type)"
    using some_if [OF who] by blast+
  have near: "0 \<le> elapsed \<and> elapsed \<le> le_window env" and user: "user_id = py_str (le_text env) (get (un_fields u) ''user_id'')"
    using resolved by (auto simp: resolve_opened_by_def split: if_splits)
  have "unlock_direction (text_of (unlock_method_of (un_fields u))) = ''outside''"
    using outside near by (auto simp: match_unlock_def Let_def split: if_splits)
  then obtain m where "text_of (unlock_method_of (un_fields u)) = Some m" "m \<in> set OUTSIDE_METHODS"
    by (auto simp: unlock_direction_def split: option.splits if_splits)
  moreover have "get (attribute env d recent elapsed data) ''opened_by_user_id'' = VStr user_id"
    unfolding run who by (simp add: name_field_other)
  ultimately show ?thesis using that Some near user by simp
qed

definition source_of :: "'x lock_env \<Rightarrow> string \<Rightarrow> dict \<Rightarrow> lock_manager \<Rightarrow> rat \<Rightarrow> unlock \<Rightarrow> bool" where
  "source_of env d raw m now u \<longleftrightarrow> map_of (lm_unlocks m) d = Some u \<or>
     (\<exists>e data. normalize_lock_event (VDict raw) = Some e \<and> get e ''kind'' = VStr ''unlock'' \<and> u = unlock_of e data now)"

definition credited :: "'x lock_env \<Rightarrow> unlock \<Rightarrow> rat \<Rightarrow> pyval \<Rightarrow> bool" where
  "credited env u now user \<longleftrightarrow> now - un_at u \<le> le_window env \<and> user = VStr (py_str (le_text env) (get (un_fields u) ''user_id''))
     \<and> (\<exists>m \<in> set OUTSIDE_METHODS. text_of (unlock_method_of (un_fields u)) = Some m)"

lemma door_event_effect:
  assumes run: "door_event env d raw lock now data w = (Inr data', w')"
    and none: "get data ''door_opened'' = VNone" "get data ''opened_by_user_id'' = VNone"
  shows "lm_seen (lw_manager w') = lm_seen (lw_manager w) \<and> lm_latest (lw_manager w') = lm_latest (lw_manager w)
    \<and> lm_unlocks (lw_manager w') \<in> {lm_unlocks (lw_manager w), AList.delete d (lm_unlocks (lw_manager w))}
    \<and> (opens (Some data') \<longrightarrow> lm_unlocks (lw_manager w') = AList.delete d (lm_unlocks (lw_manager w)))
    \<and> (get data' ''opened_by_user_id'' \<noteq> VNone \<longrightarrow> opens (Some data') \<and>
        (\<exists>u. map_of (lm_unlocks (lw_manager w)) d = Some u \<and> credited env u now (get data' ''opened_by_user_id'')))"
proof (cases "lp_door_open lock = Some True \<and> map_of (lm_doors (lw_manager w)) d \<noteq> Some True")
  case False
  then show ?thesis using door_event_run [OF run] none unfolding if_not_P [OF False] by (simp add: opens_def)
next
  case True
  let ?recent = "map_of (lm_unlocks (lw_manager w)) d"
  let ?elapsed = "case ?recent of None \<Rightarrow> 0 | Some u \<Rightarrow> elapsed_since env raw u now"
  obtain opening_id seconds where
    data': "data' = attribute env d ?recent ?elapsed (opened_fields data opening_id seconds)"
    and m: "lw_manager w' = (lw_manager w)\<lparr>lm_doors := AList.update d True (lm_doors (lw_manager w)),
          lm_unlocks := AList.delete d (lm_unlocks (lw_manager w))\<rparr>"
    using door_event_run [OF run] unfolding if_P [OF True] by blast
  have opened: "opens (Some data')" by (simp add: opens_def data' attribute_frame opened_fields_def)
  have "\<exists>u. ?recent = Some u \<and> credited env u now (get data' ''opened_by_user_id'')" if "get data' ''opened_by_user_id'' \<noteq> VNone"
  proof -
    have "get (opened_fields data opening_id seconds) ''opened_by_user_id'' = VNone"
      "get (opened_fields data opening_id seconds) ''open_direction'' = VStr ''inside''"
      using none by (simp_all add: opened_fields_def get_merge)
    from attributed_to [OF that [unfolded data'] this] obtain u m where
      u: "?recent = Some u" "?elapsed \<le> le_window env" "text_of (unlock_method_of (un_fields u)) = Some m" "m \<in> set OUTSIDE_METHODS"
      "get data' ''opened_by_user_id'' = VStr (py_str (le_text env) (get (un_fields u) ''user_id''))"
      unfolding data' by metis
    then show ?thesis using elapsed_within [of env raw u now] by (auto simp: credited_def)
  qed
  then show ?thesis using m opened by simp
qed


definition effect ::
  "'x lock_env \<Rightarrow> string \<Rightarrow> dict \<Rightarrow> rat \<Rightarrow> lock_manager \<Rightarrow> dict option \<Rightarrow> lock_manager \<Rightarrow> bool" where
  "effect env d raw now m r m' \<longleftrightarrow>
     (\<forall>d'. d' \<noteq> d \<longrightarrow> map_of (lm_unlocks m') d' = map_of (lm_unlocks m) d')
     \<and> (\<forall>u. map_of (lm_unlocks m') d = Some u \<longrightarrow> source_of env d raw m now u)
     \<and> (opens r \<longrightarrow> map_of (lm_unlocks m') d = None)
     \<and> (\<forall>data. r = Some data \<and> get data ''opened_by_user_id'' \<noteq> VNone \<longrightarrow> opens r \<and>
          (\<exists>u. source_of env d raw m now u \<and> credited env u now (get data ''opened_by_user_id'')))"

lemma effectI:
  assumes "\<And>d'. d' \<noteq> d \<Longrightarrow> map_of (lm_unlocks mid) d' = map_of (lm_unlocks m) d'"
    and "\<And>u. map_of (lm_unlocks mid) d = Some u \<Longrightarrow> source_of env d raw m now u"
    and "lm_unlocks m' \<in> {lm_unlocks mid, AList.delete d (lm_unlocks mid)}"
    and "opens (Some data) \<longrightarrow> lm_unlocks m' = AList.delete d (lm_unlocks mid)"
    and "get data ''opened_by_user_id'' \<noteq> VNone \<longrightarrow> opens (Some data) \<and>
        (\<exists>u. map_of (lm_unlocks mid) d = Some u \<and> credited env u now (get data ''opened_by_user_id''))"
  shows "effect env d raw now m (Some data) m'"
  using assms unfolding effect_def by (auto simp: dict_simps split: if_splits)

lemma base_event_plain:
  assumes "event = normalize_lock_event v"
  shows "get (base_event d raw lock event) ''door_opened'' = VNone
    \<and> get (base_event d raw lock event) ''opened_by_user_id'' = VNone"
  using event_keys [of v] unfolding base_event_def assms by (cases "normalize_lock_event v") (simp_all add: get_merge has_key_iff)

lemma publish_effect:
  assumes run: "publish env d raw lock event now w = (Inr data', w')" and event: "event = normalize_lock_event (VDict raw)"
  shows "effect env d raw now (lw_manager w) (Some data') (lw_manager w') \<and> lm_seen (lw_manager w') = lm_seen (lw_manager w)"
proof (cases "\<exists>e. event = Some e \<and> get e ''kind'' = VStr ''unlock''")
  case False
  then have "door_event env d raw lock now (base_event d raw lock event) w = (Inr data', w')"
    using run by (auto simp: publish_def Let_def split: option.splits)
  note door = door_event_effect [OF this] base_event_plain [OF event, of d raw lock]
  show ?thesis by (intro conjI effectI [where mid = "lw_manager w"]) (use door in \<open>simp_all add: source_of_def\<close>)
next
  case True
  then obtain e where e: "event = Some e" "get e ''kind'' = VStr ''unlock''" by blast
  obtain data1 historical w1 where
    n: "note_unlock env d e now (base_event d raw lock event) w = (Inr (data1, historical), w1)"
    and rest: "(if historical then retS data1 else door_event env d raw lock now data1) w1 = (Inr data', w')"
    using run e unfolding publish_def Let_def by (auto elim!: bindS_InrE)
  note n1 = note_unlock_run [OF n] and n2 = note_unlock_run [OF n, THEN conjunct2, THEN conjunct1]
  have plain: "get data1 ''door_opened'' = VNone" "get data1 ''opened_by_user_id'' = VNone"
    using n1 [of "''door_opened''"] n1 [of "''opened_by_user_id''"] base_event_plain [OF event, of d raw lock] by simp_all
  show ?thesis
  proof (cases historical)
    case True
    then have "lw_manager w' = lw_manager w" "data' = data1" using rest n2 by simp_all
    then show ?thesis using plain
      by (intro conjI effectI [where mid = "lw_manager w"]) (simp_all add: source_of_def opens_def)
  next
    case False
    then have "door_event env d raw lock now data1 w1 = (Inr data', w')" using rest by simp
    note door = door_event_effect [OF this plain]
    have m1: "lm_unlocks (lw_manager w1) = AList.update d (unlock_of e data1 now) (lm_unlocks (lw_manager w))"
      "lm_seen (lw_manager w1) = lm_seen (lw_manager w)"
      using n2 False by simp_all
    have source: "source_of env d raw (lw_manager w) now (unlock_of e data1 now)"
      using e event unfolding source_of_def by metis
    show ?thesis
      by (intro conjI effectI [where mid = "lw_manager w1"]) (use door source in \<open>simp_all add: m1 dict_simps\<close>)
  qed
qed

lemma effect_nothing: "lm_unlocks m' = lm_unlocks m \<Longrightarrow> effect env d raw now m None m'"
  by (simp add: effect_def source_of_def opens_def)

text \<open>The cases of \<open>build_event\<close>: nothing to tell, a replay, or one published event.\<close>

lemma build_event_cases:
  assumes "build_event env d raw w = (Inr r, w')"
  obtains "r = None" "w' = w"
  | now x where "r = None" "le_clock env (lw_outside w) = (now, x)"
      "admit env d (normalize_lock_event (VDict raw)) (normalize_door_lock_properties (get raw ''properties'')) now
        (w\<lparr>lw_outside := x\<rparr>) = (Inr False, w')"
  | now x w1 data where "r = Some data" "le_clock env (lw_outside w) = (now, x)"
      "admit env d (normalize_lock_event (VDict raw)) (normalize_door_lock_properties (get raw ''properties'')) now
        (w\<lparr>lw_outside := x\<rparr>) = (Inr True, w1)"
      "publish env d raw (normalize_door_lock_properties (get raw ''properties'')) (normalize_lock_event (VDict raw)) now w1
        = (Inr data, w')"
proof (cases "normalize_lock_event (VDict raw) = None \<and> reports_nothing (normalize_door_lock_properties (get raw ''properties''))")
  case True
  then show ?thesis using assms that(1) by (simp add: build_event_def)
next
  case False
  obtain now x where clock: "le_clock env (lw_outside w) = (now, x)" by force
  obtain b w1 where a: "admit env d (normalize_lock_event (VDict raw)) (normalize_door_lock_properties (get raw ''properties''))
      now (w\<lparr>lw_outside := x\<rparr>) = (Inr b, w1)"
    using total_admit unfolding totalS_def by blast
  have "(if \<not> b then retS None else bindS (publish env d raw (normalize_door_lock_properties (get raw ''properties''))
      (normalize_lock_event (VDict raw)) now) (\<lambda>data. retS (Some data))) w1 = (Inr r, w')"
    using assms False clock a by (simp add: build_event_def Let_def bindS_def ask_def)
  then show ?thesis using that(2,3) clock a
    by (cases b) (auto elim!: bindS_InrE)
qed

lemma admit_unlocks: "admit env d event lock now w = (Inr b, w') \<Longrightarrow> lm_unlocks (lw_manager w') = lm_unlocks (lw_manager w)"
  by (auto simp: admit_def admit_event_def Let_def split: option.splits prod.splits if_splits)

lemma build_event_effect:
  assumes "build_event env d raw w = (Inr r, w')"
  shows "effect env d raw (fst (le_clock env (lw_outside w))) (lw_manager w) r (lw_manager w')"
  using assms
proof (cases rule: build_event_cases)
  case 1
  then show ?thesis by (simp add: effect_nothing)
next
  case (2 now x)
  then show ?thesis using admit_unlocks [OF 2(3)] by (simp add: effect_nothing)
next
  case (3 now x w1 data)
  have "lm_unlocks (lw_manager w1) = lm_unlocks (lw_manager w)" using admit_unlocks [OF 3(3)] by simp
  then show ?thesis using publish_effect [OF 3(4) refl] 3(1,2) by (simp add: effect_def source_of_def)
qed


section \<open>Histories\<close>

text \<open>A history of the manager: the packets it was given, with the clock reading at which it saw them and what
  it published, and the devices it was told to forget. The outside world moves between the steps.\<close>

datatype lock_step = Packet string dict rat "dict option" | Removed string

inductive lock_history :: "'x lock_env \<Rightarrow> 'x lock_world \<Rightarrow> lock_step list \<Rightarrow> 'x lock_world \<Rightarrow> bool"
  for env :: "'x lock_env" and w0 :: "'x lock_world" where
  start: "lock_history env w0 [] w0"
| packet: "lock_history env w0 h w \<Longrightarrow> build_event env d raw w = (Inr r, w') \<Longrightarrow>
    lock_history env w0 (h @ [Packet d raw (fst (le_clock env (lw_outside w))) r]) w'"
| removed: "lock_history env w0 h w \<Longrightarrow>
    lock_history env w0 (h @ [Removed d]) (w\<lparr>lw_manager := forget_device d (lw_manager w)\<rparr>)"
| outside: "lock_history env w0 h w \<Longrightarrow> lock_history env w0 h (w\<lparr>lw_outside := x\<rparr>)"

text \<open>A step after which an unlock of the device is still waiting for its opening.\<close>

definition quiet :: "string \<Rightarrow> lock_step \<Rightarrow> bool" where
  "quiet d s = (case s of Removed d' \<Rightarrow> d' \<noteq> d | Packet d' raw seen_at r \<Rightarrow> d' = d \<longrightarrow> \<not> opens r)"

text \<open>The step at which an unlock came in, in a history or in the packet under way.\<close>

definition came_in :: "lock_step list \<Rightarrow> string \<Rightarrow> unlock \<Rightarrow> bool" where
  "came_in h d u \<longleftrightarrow> (\<exists>before raw r after e data. h = before @ Packet d raw (un_at u) r # after
     \<and> normalize_lock_event (VDict raw) = Some e \<and> get e ''kind'' = VStr ''unlock'' \<and> u = unlock_of e data (un_at u)
     \<and> \<not> opens r \<and> (\<forall>s \<in> set after. quiet d s))"

lemma came_inI:
  assumes "h = before @ Packet d raw seen_at r # after" "normalize_lock_event (VDict raw) = Some e"
    and "get e ''kind'' = VStr ''unlock''" "u = unlock_of e data seen_at" "\<not> opens r" "\<forall>s \<in> set after. quiet d s"
  shows "came_in h d u"
proof -
  have "un_at u = seen_at" by (simp add: assms(4) unlock_of_def)
  then show ?thesis unfolding came_in_def using assms by blast
qed

lemma came_in_append: "came_in h d u \<Longrightarrow> quiet d s \<Longrightarrow> came_in (h @ [s]) d u"
  unfolding came_in_def [of h]
proof (elim exE conjE)
  fix before raw r after e data
  assume "h = before @ Packet d raw (un_at u) r # after" "normalize_lock_event (VDict raw) = Some e"
    "get e ''kind'' = VStr ''unlock''" "u = unlock_of e data (un_at u)" "\<not> opens r" "\<forall>s \<in> set after. quiet d s" "quiet d s"
  then show ?thesis by (intro came_inI [of _ before _ raw _ r "after @ [s]"]) auto
qed

lemma unlocks_came_in:
  assumes "lock_history env w0 h w" "lw_manager w0 = new_lock_manager"
  shows "\<forall>d u. map_of (lm_unlocks (lw_manager w)) d = Some u \<longrightarrow> came_in h d u"
  using assms(1)
proof (induction rule: lock_history.induct)
  case start
  then show ?case by (simp add: assms(2) new_lock_manager_def)
next
  case (packet h w d raw r w')
  note eff = build_event_effect [OF packet.hyps(2), unfolded effect_def]
  show ?case
  proof (intro allI impI)
    fix d' u assume u: "map_of (lm_unlocks (lw_manager w')) d' = Some u"
    let ?s = "Packet d raw (fst (le_clock env (lw_outside w))) r"
    show "came_in (h @ [?s]) d' u"
    proof (cases "d' = d")
      case False
      then have "map_of (lm_unlocks (lw_manager w)) d' = Some u" using eff u by simp
      then show ?thesis using packet.IH False by (intro came_in_append) (auto simp: quiet_def)
    next
      case True
      then have closed: "\<not> opens r" and "source_of env d raw (lw_manager w) (fst (le_clock env (lw_outside w))) u"
        using eff u by auto
      from this(2) show ?thesis unfolding source_of_def
      proof
        assume "map_of (lm_unlocks (lw_manager w)) d = Some u"
        then show ?thesis using packet.IH True closed by (intro came_in_append) (auto simp: quiet_def)
      next
        assume "\<exists>e data. normalize_lock_event (VDict raw) = Some e \<and> get e ''kind'' = VStr ''unlock''
          \<and> u = unlock_of e data (fst (le_clock env (lw_outside w)))"
        then show ?thesis using True closed by (elim exE conjE) (rule came_inI [of _ h _ raw _ r "[]"], auto)
      qed
    qed
  qed
next
  case (removed h w d)
  then show ?case by (auto simp: forget_device_def dict_simps quiet_def intro!: came_in_append split: if_splits)
next
  case (outside h w x)
  then show ?case by simp
qed

section \<open>Remembered replays\<close>

definition remembered :: "string \<Rightarrow> string list \<Rightarrow> nat \<Rightarrow> lock_manager \<Rightarrow> bool" where
  "remembered d key n m \<longleftrightarrow> (\<exists>older t newer. seen_of d m = older @ (key, t) # newer \<and> length newer \<le> n)"

lemma drop_keeps_tail: "length (a # ys) \<le> n \<Longrightarrow> \<exists>zs. drop (length (xs @ a # ys) - n) (xs @ a # ys) = zs @ a # ys"
  by (rule exI [where x = "drop (length (xs @ a # ys) - n) xs"]) simp

lemma remembered_mono: "remembered d key n m \<Longrightarrow> n \<le> k \<Longrightarrow> remembered d key k m"
  unfolding remembered_def by (meson le_trans)

lemma admit_event_remembers:
  assumes "remembered d key n m" "Suc n < SEEN_LIMIT" "admit_event env d e now m = (b, m')"
  shows "remembered d key (Suc n) m'"
proof -
  obtain older t newer where seen: "seen_of d m = older @ (key, t) # newer" and n: "length newer \<le> n"
    using assms(1) unfolding remembered_def by blast
  show ?thesis
  proof (cases b)
    case False
    then have "m' = m\<lparr>lm_seen := dict_setdefault d [] (lm_seen m)\<rparr>"
      using assms(3) by (auto simp: admit_event_def Let_def split: if_splits)
    then have "seen_of d m' = seen_of d m" by (simp add: seen_of_def dict_simps split: option.split)
    then have "remembered d key n m'" using assms(1) by (simp add: remembered_def)
    then show ?thesis by (rule remembered_mono) simp
  next
    case True
    let ?seen = "AList.delete (seen_key env e) (seen_of d m) @ [(seen_key env e, now)]"
    have seen_after: "seen_of d m' = drop (length ?seen - SEEN_LIMIT) ?seen"
      using assms(3) True by (auto simp: admit_event_def Let_def seen_of_def split: if_splits)
    show ?thesis
    proof (cases "seen_key env e = key")
      case True
      have "\<exists>zs. seen_of d m' = zs @ [(key, now)]"
        unfolding seen_after True using drop_keeps_tail [of "(key, now)" "[]" SEEN_LIMIT] by (simp add: SEEN_LIMIT_def)
      then show ?thesis unfolding remembered_def by force
    next
      case False
      let ?newer = "AList.delete (seen_key env e) newer @ [(seen_key env e, now)]"
      have l: "length ?newer \<le> Suc n"
        using n length_delete_le [of "seen_key env e" newer] by simp
      have split: "?seen = AList.delete (seen_key env e) older @ (key, t) # ?newer"
        using False by (simp add: seen AList.delete_eq)
      have "\<exists>zs. seen_of d m' = zs @ (key, t) # ?newer"
        unfolding seen_after split by (rule drop_keeps_tail) (use l assms(2) in simp)
      then show ?thesis unfolding remembered_def using l by blast
    qed
  qed
qed

lemma admitted_is_remembered:
  assumes "admit_event env d e now m = (True, m')"
  shows "remembered d (seen_key env e) 0 m'"
proof -
  let ?seen = "AList.delete (seen_key env e) (seen_of d m) @ [(seen_key env e, now)]"
  have "seen_of d m' = drop (length ?seen - SEEN_LIMIT) ?seen"
    using assms by (auto simp: admit_event_def Let_def seen_of_def split: if_splits)
  moreover have "\<exists>zs. drop (length ?seen - SEEN_LIMIT) ?seen = zs @ [(seen_key env e, now)]"
    by (rule drop_keeps_tail) (simp add: SEEN_LIMIT_def)
  ultimately show ?thesis unfolding remembered_def by force
qed


lemma admit_other: "admit env d event lock now w = (Inr b, w') \<Longrightarrow> d' \<noteq> d \<Longrightarrow>
    seen_of d' (lw_manager w') = seen_of d' (lw_manager w)"
  by (auto simp: admit_def admit_event_def Let_def seen_of_def dict_simps split: option.splits prod.splits if_splits)

lemma admit_remembers:
  assumes "admit env d event lock now w = (Inr b, w')" "remembered d key n (lw_manager w)" "Suc n < SEEN_LIMIT"
  shows "remembered d key (Suc n) (lw_manager w')"
proof (cases event)
  case None
  then have "seen_of d (lw_manager w') = seen_of d (lw_manager w)"
    using assms(1) by (auto simp: admit_def seen_of_def split: if_splits)
  then have "remembered d key n (lw_manager w')" using assms(2) by (simp add: remembered_def)
  then show ?thesis by (rule remembered_mono) simp
next
  case (Some e)
  obtain new m where a: "admit_event env d e now (lw_manager w) = (new, m)" by force
  have "seen_of d (lw_manager w') = seen_of d m"
    using assms(1) Some a by (auto simp: admit_def seen_of_def split: if_splits)
  then show ?thesis using admit_event_remembers [OF assms(2,3) a] by (simp add: remembered_def)
qed

lemma build_event_seen:
  assumes "build_event env d raw w = (Inr r, w')"
  obtains "lm_seen (lw_manager w') = lm_seen (lw_manager w)"
  | event lock now x b w1 where "admit env d event lock now (w\<lparr>lw_outside := x\<rparr>) = (Inr b, w1)"
      "lm_seen (lw_manager w') = lm_seen (lw_manager w1)"
  using assms
proof (cases rule: build_event_cases)
  case 1
  then show ?thesis using that(1) by simp
next
  case (2 now x)
  then show ?thesis using that(2) by blast
next
  case (3 now x w1 data)
  then show ?thesis using that(2) publish_effect [OF 3(4) refl] by blast
qed

lemma build_event_other:
  assumes "build_event env d raw w = (Inr r, w')" "d' \<noteq> d"
  shows "seen_of d' (lw_manager w') = seen_of d' (lw_manager w)"
  using assms(1)
proof (cases rule: build_event_seen)
  case 1
  then show ?thesis by (simp add: seen_of_def)
next
  case (2 event lock now x b w1)
  then show ?thesis using admit_other [OF 2(1) assms(2)] by (simp add: seen_of_def)
qed

lemma build_event_remembers:
  assumes "build_event env d raw w = (Inr r, w')" "remembered d key n (lw_manager w)" "Suc n < SEEN_LIMIT"
  shows "remembered d key (Suc n) (lw_manager w')"
  using assms(1)
proof (cases rule: build_event_seen)
  case 1
  then have "remembered d key n (lw_manager w')" using assms(2) by (simp add: remembered_def seen_of_def)
  then show ?thesis by (rule remembered_mono) simp
next
  case (2 event lock now x b w1)
  then show ?thesis using admit_remembers [OF 2(1) _ assms(3)] assms(2) by (simp add: remembered_def seen_of_def)
qed

definition packets_for :: "string \<Rightarrow> lock_step list \<Rightarrow> nat" where
  "packets_for d h = length (filter (\<lambda>s. case s of Packet d' raw seen_at r \<Rightarrow> d' = d | Removed d' \<Rightarrow> False) h)"

lemma history_remembers:
  assumes "lock_history env w0 h w" "remembered d key 0 (lw_manager w0)"
    and "packets_for d h < SEEN_LIMIT" "Removed d \<notin> set h"
  shows "remembered d key (packets_for d h) (lw_manager w)"
  using assms
proof (induction rule: lock_history.induct)
  case start
  then show ?case by (simp add: packets_for_def)
next
  case (packet h w d' raw r w')
  show ?case
  proof (cases "d' = d")
    case True
    then have n: "packets_for d (h @ [Packet d' raw (fst (le_clock env (lw_outside w))) r]) = Suc (packets_for d h)"
      by (simp add: packets_for_def)
    have "remembered d key (packets_for d h) (lw_manager w)" using packet.IH packet.prems n by simp
    then show ?thesis unfolding n
      using build_event_remembers [of env d raw w r w'] packet.hyps(2) packet.prems(2) True n by simp
  next
    case False
    then show ?thesis using packet build_event_other [OF packet.hyps(2), of d]
      by (simp add: packets_for_def remembered_def)
  qed
next
  case (removed h w d')
  then have "d' \<noteq> d" by auto
  then have "seen_of d (forget_device d' (lw_manager w)) = seen_of d (lw_manager w)"
    by (simp add: seen_of_def forget_device_def)
  then show ?case using removed by (simp add: packets_for_def remembered_def)
next
  case (outside h w x)
  then show ?case by simp
qed

lemma published_is_remembered:
  assumes "build_event env d raw w = (Inr (Some data), w')" "normalize_lock_event (VDict raw) = Some e"
  shows "remembered d (seen_key env e) 0 (lw_manager w')"
  using assms(1)
proof (cases rule: build_event_cases)
  case (3 now x w1 data')
  obtain new m where a: "admit_event env d e now (lw_manager w) = (new, m)" by force
  with 3(3) assms(2) have "new" "lm_seen (lw_manager w1) = lm_seen m" by (auto simp: admit_def)
  then show ?thesis using admitted_is_remembered [of env d e now "lw_manager w" m] a publish_effect [OF 3(4) refl]
    by (simp add: remembered_def seen_of_def)
qed simp_all

lemma remembered_is_dropped:
  assumes "remembered d (seen_key env e) n (lw_manager w)" "normalize_lock_event (VDict raw) = Some e"
    and "get e ''time'' \<noteq> VNone"
  shows "fst (build_event env d raw w) = Inr None"
proof -
  obtain t where t: "map_of (seen_of d (lw_manager w)) (seen_key env e) = Some t"
    using assms(1) unfolding remembered_def by (metis (no_types, lifting) in_set_conv_decomp map_of_eq_None_iff fst_conv image_eqI not_None_eq)
  obtain now x where clock: "le_clock env (lw_outside w) = (now, x)" by force
  have "admit_event env d e now (lw_manager w) = (False, (lw_manager w)\<lparr>lm_seen := dict_setdefault d [] (lm_seen (lw_manager w))\<rparr>)"
    using t assms(3) by (simp add: admit_event_def Let_def)
  then show ?thesis
    using assms(2) clock by (simp add: build_event_def Let_def bindS_def ask_def admit_def)
qed


lemma unlock_event_method:
  assumes "normalize_lock_event v = Some e" "get e ''kind'' = VStr ''unlock''"
  shows "unlock_method_of (un_fields (unlock_of e data now)) = get e ''unlock_method''"
proof -
  have nonempty: "truthy (of_opt_str (normalize_unlock_method x)) \<or> of_opt_str (normalize_unlock_method x) = VNone" for x
    by (auto simp: normalize_unlock_method_def UNLOCK_METHODS_def split: pyval.splits if_splits)
  from assms(1) show ?thesis
  proof (cases rule: lock_event_cases)
    case (1 p)
    have "pred_option (\<lambda>e. truthy (get e ''unlock_method'') \<or> get e ''unlock_type'' = VStr ''inside'' \<and> get e ''unlock_method'' = VNone)
        (legacy_unlock_event p)"
      unfolding legacy_unlock_event_def Let_def by (auto simp: LEGACY_METHODS_def split: if_splits option.splits)
    then show ?thesis
      using 1 by (auto simp: unlock_method_of_def unlock_of_def py_or_def normalize_unlock_method_def UNLOCK_METHODS_def py_strip_def
          py_lower_def lower_char_def byte_def is_space_def)
  next
    case (2 srv name u t)
    have "pred_option (\<lambda>e. get e ''kind'' = VStr ''unlock'' \<longrightarrow>
        get e ''unlock_method'' = of_opt_str (normalize_unlock_method (get e ''unlock_type''))) (thing_event srv name u t)"
      unfolding thing_event_def Let_def by (intro pred_option_if) simp_all
    then have "get e ''unlock_method'' = of_opt_str (normalize_unlock_method (get e ''unlock_type''))" using 2 assms(2) by simp
    then show ?thesis using nonempty [of "get e ''unlock_type''"] by (simp add: unlock_method_of_def unlock_of_def py_or_def)
  qed
qed

section \<open>Properties\<close>

text \<open>C25. Whoever a door opening is credited to has unlocked that door from outside, shortly before, and for this
  opening only: in any history of a manager, an opening with a user id goes back to one unlock event of the
  same lock, by an outside credential and with that user id, at most the window (30 seconds) ago on the clock;
  and since that event the lock was not forgotten and no packet has opened its door.\<close>

theorem opening_credited_to_one_unlock:
  assumes "lock_history env w0 h w" "lw_manager w0 = new_lock_manager"
    and "build_event env d raw w = (Inr (Some data), w')" "get data ''opened_by_user_id'' \<noteq> VNone"
  shows "\<exists>raw1 seen_at e. ((\<exists>before r after. h = before @ Packet d raw1 seen_at r # after \<and> \<not> opens r \<and> (\<forall>s \<in> set after. quiet d s))
        \<or> raw1 = raw \<and> seen_at = fst (le_clock env (lw_outside w)))
      \<and> normalize_lock_event (VDict raw1) = Some e \<and> get e ''kind'' = VStr ''unlock''
      \<and> (\<exists>m \<in> set OUTSIDE_METHODS. get e ''unlock_method'' = VStr m)
      \<and> fst (le_clock env (lw_outside w)) - seen_at \<le> le_window env
      \<and> get data ''opened_by_user_id'' = VStr (py_str (le_text env) (get e ''unlock_user_id''))"
proof -
  let ?now = "fst (le_clock env (lw_outside w))"
  obtain u where source: "source_of env d raw (lw_manager w) ?now u"
    and credit: "credited env u ?now (get data ''opened_by_user_id'')"
    using build_event_effect [OF assms(3)] assms(4) unfolding effect_def by blast
  have "\<exists>raw1 e data1. ((\<exists>before r after. h = before @ Packet d raw1 (un_at u) r # after \<and> \<not> opens r \<and> (\<forall>s \<in> set after. quiet d s))
        \<or> raw1 = raw \<and> un_at u = ?now)
      \<and> normalize_lock_event (VDict raw1) = Some e \<and> get e ''kind'' = VStr ''unlock'' \<and> u = unlock_of e data1 (un_at u)"
    using source unfolding source_of_def
  proof
    assume "map_of (lm_unlocks (lw_manager w)) d = Some u"
    then have "came_in h d u" using unlocks_came_in [OF assms(1,2)] by blast
    then show ?thesis unfolding came_in_def by blast
  next
    assume "\<exists>e data1. normalize_lock_event (VDict raw) = Some e \<and> get e ''kind'' = VStr ''unlock'' \<and> u = unlock_of e data1 ?now"
    then obtain e data1 where "normalize_lock_event (VDict raw) = Some e" "get e ''kind'' = VStr ''unlock''"
      "u = unlock_of e data1 ?now" by blast
    moreover then have "un_at u = ?now" by (simp add: unlock_of_def)
    ultimately show ?thesis by metis
  qed
  then obtain raw1 e data1 where e: "(\<exists>before r after. h = before @ Packet d raw1 (un_at u) r # after \<and> \<not> opens r \<and> (\<forall>s \<in> set after. quiet d s))
        \<or> raw1 = raw \<and> un_at u = ?now"
      "normalize_lock_event (VDict raw1) = Some e" "get e ''kind'' = VStr ''unlock''" "u = unlock_of e data1 (un_at u)" by blast
  have fs: "un_fields u = un_fields (unlock_of e data1 (un_at u))" using e(4) by (rule arg_cong)
  have "unlock_method_of (un_fields u) = get e ''unlock_method''"
    unfolding fs by (rule unlock_event_method [OF e(2,3)])
  moreover have "get (un_fields u) ''user_id'' = get e ''unlock_user_id''" unfolding fs by (simp add: unlock_of_def)
  ultimately have "\<exists>m \<in> set OUTSIDE_METHODS. get e ''unlock_method'' = VStr m"
    "?now - un_at u \<le> le_window env" "get data ''opened_by_user_id'' = VStr (py_str (le_text env) (get e ''unlock_user_id''))"
    using credit by (auto simp: credited_def text_of_def split: pyval.splits)
  then show ?thesis using e by blast
qed

theorem opening_credited_to_one_unlock_witness:
  "\<exists>data. fst (build_event sample_lock_env ''d'' door_packet (unlocked_world\<lparr>lw_outside := 3\<rparr>)) = Inr (Some data)
     \<and> get data ''opened_by_user_id'' = VStr ''7''
     \<and> (\<exists>raw1 e. normalize_lock_event (VDict raw1) = Some e \<and> get e ''kind'' = VStr ''unlock''
         \<and> (\<exists>m \<in> set OUTSIDE_METHODS. get e ''unlock_method'' = VStr m) \<and> py_str (\<lambda>v. []) (get e ''unlock_user_id'') = ''7'')"
proof -
  let ?r = "build_event sample_lock_env ''d'' unlock_packet new_world"
  let ?q = "build_event sample_lock_env ''d'' door_packet (unlocked_world\<lparr>lw_outside := 3\<rparr>)"
  obtain r where r: "?r = (Inr r, unlocked_world)"
    using build_event_returns [of sample_lock_env "''d''" unlock_packet new_world] by (metis unlocked_world_def snd_conv)
  have h: "lock_history sample_lock_env new_world ([] @ [Packet ''d'' unlock_packet (fst (le_clock sample_lock_env (lw_outside new_world))) r])
      (unlocked_world\<lparr>lw_outside := 3\<rparr>)"
    by (rule lock_history.outside, rule lock_history.packet [OF lock_history.start r])
  have d: "(case fst ?q of Inr (Some data) \<Rightarrow> get data ''opened_by_user_id'' = VStr ''7'' | _ \<Rightarrow> False)" by code_simp
  then obtain data where data: "fst ?q = Inr (Some data)" "get data ''opened_by_user_id'' = VStr ''7''"
    by (auto split: sum.splits option.splits)
  then have q: "?q = (Inr (Some data), snd ?q)" by (metis prod.collapse)
  have "lw_manager new_world = new_lock_manager" by (simp add: new_world_def)
  moreover have "get data ''opened_by_user_id'' \<noteq> VNone" using data by simp
  ultimately obtain raw1 e where e: "normalize_lock_event (VDict raw1) = Some e" "get e ''kind'' = VStr ''unlock''"
    "\<exists>m \<in> set OUTSIDE_METHODS. get e ''unlock_method'' = VStr m"
    "get data ''opened_by_user_id'' = VStr (py_str (le_text sample_lock_env) (get e ''unlock_user_id''))"
    using opening_credited_to_one_unlock [OF h _ q] by blast
  have "le_text sample_lock_env = (\<lambda>v. [])" by (simp add: sample_lock_env_def)
  then have "py_str (\<lambda>v. []) (get e ''unlock_user_id'') = ''7''" using e(4) data(2) by simp
  then show ?thesis using data e by blast
qed

text \<open>C26. A lock event with a timestamp that was published is not published again: its redelivery is dropped, whatever
  happened in between, as long as the lock was not forgotten and fewer than 64 packets of the same lock came in
  (packets of other locks do not count). An event without a timestamp is only held back for a second, and is not meant.\<close>

theorem event_published_once:
  assumes "build_event env d raw w = (Inr (Some data), w1)" "normalize_lock_event (VDict raw) = Some e"
    and "get e ''time'' \<noteq> VNone" "lock_history env w1 h w2" "Removed d \<notin> set h" "packets_for d h < 64"
  shows "fst (build_event env d raw w2) = Inr None"
proof (rule remembered_is_dropped [OF _ assms(2,3)])
  show "remembered d (seen_key env e) (packets_for d h) (lw_manager w2)"
    by (rule history_remembers [OF assms(4) published_is_remembered [OF assms(1,2)]]) (use assms(5,6) in \<open>simp_all add: SEEN_LIMIT_def\<close>)
qed


theorem event_published_once_witness:
  "fst (build_event sample_lock_env ''d'' unlock_packet unlocked_world) = Inr None"
proof -
  let ?r = "build_event sample_lock_env ''d'' unlock_packet new_world"
  have d: "(case fst ?r of Inr (Some data) \<Rightarrow> True | _ \<Rightarrow> False)" by code_simp
  then obtain data where "fst ?r = Inr (Some data)" by (auto split: sum.splits option.splits)
  then have r: "?r = (Inr (Some data), unlocked_world)" by (metis prod.collapse unlocked_world_def)
  have "case normalize_lock_event (VDict unlock_packet) of None \<Rightarrow> False | Some e \<Rightarrow> get e ''time'' \<noteq> VNone" by code_simp
  then obtain e where e: "normalize_lock_event (VDict unlock_packet) = Some e" "get e ''time'' \<noteq> VNone"
    by (auto split: option.splits)
  show ?thesis
    by (rule event_published_once [OF r e lock_history.start]) (simp_all add: packets_for_def)
qed

end
