(* ===== verification/Temp_Passwords.thy ===== *)
theory Temp_Passwords
  imports Device_Types Py_Text Effects
begin

text \<open>
  \<^verbatim>\<open>temp_password.py\<close> and \<^verbatim>\<open>temp_password_manager.py\<close>: temporary passwords of door locks.

  The manager keeps a list of records per device. The coroutines hold on to these lists across an \<^verbatim>\<open>await\<close> and
  change them in place, so a list is an object of the store \<open>tp_heap\<close> and \<open>tp_records\<close> holds its address.
  An operation with an \<^verbatim>\<open>await\<close> is split at it into segments, between which other operations may run;
  the whole operation is their composition. \<open>tp_time\<close> is \<^verbatim>\<open>time.time()\<close>, \<open>tp_label\<close> the text of
  the default user name, \<open>tp_ready\<close> says that there is an SSL client, \<open>tp_logged_in\<close> that there is a web client with a
  session; \<open>tp_readtable\<close>, \<open>tp_send\<close> and \<open>tp_delete\<close> are the requests. A result is an error or a
  dictionary; the texts of the errors are for display and are constructors here. A \<^verbatim>\<open>deviceId\<close> that is a number
  is a key of its own.
\<close>

section \<open>Records\<close>

definition no_error_status :: "pyval \<Rightarrow> bool" where
  "no_error_status status \<longleftrightarrow> status = VNone \<or> py_eq status (VInt 0) \<or> status = VStr ''0''"

definition int_or :: "int \<Rightarrow> pyval \<Rightarrow> int py" where
  "int_or dflt v = (if truthy v then py_int v else Inr dflt)"

definition int_unless_none :: "pyval \<Rightarrow> int py" where
  "int_unless_none v = (if v = VNone then Inr 0 else py_int v)"

definition parse_grant_response :: "(pyval \<Rightarrow> string) \<Rightarrow> int \<Rightarrow> pyval \<Rightarrow> dict option py" where
  "parse_grant_response repr now response = (case response of
     VDict resp \<Rightarrow>
       if \<not> no_error_status (get resp ''status'') then Inr None
       else
         let code = py_or (get resp ''code'') (VStr []);
             (password, authorized_id, authorized_unlock_id, start, end_time, number, unlock_num) =
               (case get resp ''authorizedUnlock'' of
                  VDict auth \<Rightarrow> (py_or (py_or code (get auth ''password'')) (VStr []), get auth ''authorizedId'',
                    py_or (get auth ''authorizedUnlockId'') (VStr []), get auth ''startTime'', get auth ''endTime'',
                    get auth ''number'', get auth ''unlockNum'')
                | _ \<Rightarrow> (code, VNone, VStr [], get resp ''startTime'', get resp ''endTime'', get resp ''number'', VInt 0))
         in if \<not> truthy password \<or> authorized_id = VNone then Inr None
            else
              bindE (py_int authorized_id) (\<lambda>aid.
              bindE (int_or 2 (get resp ''type'')) (\<lambda>t.
              bindE (int_or now start) (\<lambda>s.
              bindE (int_or 0 end_time) (\<lambda>e.
              bindE (int_unless_none number) (\<lambda>n.
              bindE (int_unless_none unlock_num) (\<lambda>u.
              Inr (Some [(''password'', VStr (py_str repr password)), (''authorized_id'', VInt aid),
                (''authorized_unlock_id'', VStr (py_str repr authorized_unlock_id)), (''type'', VInt t),
                (''start_time'', VInt s), (''end_time'', VInt e), (''number'', VInt n), (''unlock_num'', VInt u),
                (''phone'', py_or (get resp ''phone'') (VStr [])), (''name'', py_or (get resp ''userName'') (VStr []))])))))))
   | _ \<Rightarrow> Inr None)"

definition authorization_type :: "pyval \<Rightarrow> int py" where
  "authorization_type v = catchE [TypeError, ValueError] (int_or 0 v) 0"

definition parse_authorization_item :: "(pyval \<Rightarrow> string) \<Rightarrow> pyval \<Rightarrow> dict option py" where
  "parse_authorization_item repr v = (case v of
     VDict item \<Rightarrow>
       if truthy (get item ''delFlag'') \<or> \<not> no_error_status (get item ''authorizeStatus'') \<or> get item ''authorizedId'' = VNone
       then Inr None
       else
         bindE (authorization_type (get item ''type'')) (\<lambda>t.
         bindE (py_int (get item ''authorizedId'')) (\<lambda>aid.
         bindE (int_or 0 (get item ''startTime'')) (\<lambda>s.
         bindE (int_or 0 (get item ''endTime'')) (\<lambda>e.
         bindE (int_or 0 (get item ''number'')) (\<lambda>n.
         bindE (int_or 0 (get item ''unlockNum'')) (\<lambda>u.
         Inr (Some [(''password'', VStr (py_str repr (py_or (get item ''password'') (VStr [])))), (''authorized_id'', VInt aid),
           (''authorized_unlock_id'', py_or (get item ''authorizedUnlockId'') (VStr [])), (''type'', VInt t),
           (''start_time'', VInt s), (''end_time'', VInt e), (''number'', VInt n), (''unlock_num'', VInt u),
           (''phone'', py_or (get item ''phone'') (VStr [])),
           (''name'', py_or (py_or (get item ''userName'') (get item ''name'')) (VStr [])),
           (''authorize_status'', get item ''authorizeStatus'')])))))))
   | _ \<Rightarrow> Inr None)"

definition is_expired :: "dict \<Rightarrow> int \<Rightarrow> bool py" where
  "is_expired record now =
     bindE (int_or 0 (get record ''end_time'')) (\<lambda>e.
     if 0 < e \<and> e \<le> now then Inr True
     else
       bindE (int_or 0 (get record ''number'')) (\<lambda>n.
       bindE (int_or 0 (get record ''unlock_num'')) (\<lambda>u.
       Inr (0 < n \<and> n \<le> u))))"

definition describe_record :: "dict \<Rightarrow> int \<Rightarrow> dict py" where
  "describe_record record now =
     bindE (int_or 0 (get record ''start_time'')) (\<lambda>s.
     bindE (int_or 0 (get record ''end_time'')) (\<lambda>e.
     bindE (is_expired record now) (\<lambda>expired.
     Inr (map (\<lambda>k. (k, get record k))
         [''password'', ''authorized_id'', ''name'', ''phone'', ''type'', ''number'', ''unlock_num''] @
       [(''start_time'', VInt s), (''end_time'', VInt e), (''expired'', VBool expired)]))))"

section \<open>The manager\<close>

record 'x passwords =
  tp_heap :: "dict list list"
  tp_records :: "(pyval, nat) pydict"
  tp_states :: "(string, dict) pydict"
  tp_outside :: 'x

record 'x password_env =
  tp_devices :: "(string, dict) pydict"
  tp_catalog :: model_catalog
  tp_text :: "pyval \<Rightarrow> string"
  tp_time :: "'x \<Rightarrow> rat"
  tp_label :: "'x \<Rightarrow> string"
  tp_ready :: "'x \<Rightarrow> bool"
  tp_logged_in :: "'x \<Rightarrow> bool"
  tp_readtable :: "'x \<Rightarrow> pyval py \<times> 'x"
  tp_send :: "dict \<Rightarrow> 'x \<Rightarrow> pyval py \<times> 'x"
  tp_delete :: "dict \<Rightarrow> 'x \<Rightarrow> pyval py \<times> 'x"
  tp_fire :: "dict \<Rightarrow> 'x \<Rightarrow> 'x"
  tp_updated :: "'x \<Rightarrow> 'x"

datatype password_error =
    Not_Ready | Not_A_Lock | Bad_Type | Bad_Minutes | Bad_Number | Bad_Id | Limit_Reached | No_Response
  | Refused pyval pyval | No_Id

type_synonym 'a outcome = "password_error + 'a"

definition MAX_ACTIVE :: nat where "MAX_ACTIVE = 4"

definition records_of :: "'x passwords \<Rightarrow> pyval \<Rightarrow> dict list" where
  "records_of w d = (case map_of (tp_records w) d of None \<Rightarrow> [] | Some a \<Rightarrow> tp_heap w ! a)"

text \<open>\<^verbatim>\<open>self._records[d] = rs\<close> for a new list\<close>

definition put_list :: "pyval \<Rightarrow> dict list \<Rightarrow> 'x passwords \<Rightarrow> 'x passwords" where
  "put_list d rs w = w\<lparr>tp_heap := tp_heap w @ [rs], tp_records := AList.update d (length (tp_heap w)) (tp_records w)\<rparr>"

text \<open>\<^verbatim>\<open>self._records.setdefault(d, [])\<close>\<close>

definition list_for :: "pyval \<Rightarrow> ('x passwords, nat) io" where
  "list_for d w = (case map_of (tp_records w) d of
      Some a \<Rightarrow> (Inr a, w) | None \<Rightarrow> (Inr (length (tp_heap w)), put_list d [] w))"

definition append_to :: "nat \<Rightarrow> dict \<Rightarrow> ('x passwords, unit) io" where
  "append_to a record = modifyS (\<lambda>w. w\<lparr>tp_heap := (tp_heap w)[a := tp_heap w ! a @ [record]]\<rparr>)"

definition outside :: "('x \<Rightarrow> 'a \<times> 'x) \<Rightarrow> ('x passwords, 'a) io" where
  "outside f w = (case f (tp_outside w) of (a, x) \<Rightarrow> (Inr a, w\<lparr>tp_outside := x\<rparr>))"

definition clock :: "'x password_env \<Rightarrow> ('x passwords, int) io" where
  "clock env = getS (\<lambda>w. rat_trunc (tp_time env (tp_outside w)))"

definition touch :: "'x password_env \<Rightarrow> string \<Rightarrow> ('x passwords, unit) io" where
  "touch env d = modifyS (\<lambda>w.
     let state = (case map_of (tp_states w) d of None \<Rightarrow> [] | Some st \<Rightarrow> st)
     in w\<lparr>tp_states := AList.update d (AList.update ''temp_password_ts'' (VFloat (Fin (tp_time env (tp_outside w)))) state) (tp_states w),
          tp_outside := tp_updated env (tp_outside w)\<rparr>)"

definition uid_of :: "'x password_env \<Rightarrow> string \<Rightarrow> pyval \<Rightarrow> pyval" where
  "uid_of env d device_uid = py_or device_uid
     (dget (case map_of (tp_devices env) d of None \<Rightarrow> [] | Some device \<Rightarrow> device) ''uid'' (VStr []))"

definition known_lock :: "'x password_env \<Rightarrow> string \<Rightarrow> bool py" where
  "known_lock env d = (case map_of (tp_devices env) d of None \<Rightarrow> Inr False
     | Some device \<Rightarrow> bindE (classify_device (tp_catalog env) (VDict device)) (\<lambda>c. Inr (c = DOOR_LOCK)))"

section \<open>The server's list\<close>

text \<open>\<^verbatim>\<open>for item in authorizations or []\<close>\<close>

definition items_of :: "pyval \<Rightarrow> pyval list py" where
  "items_of v = (if \<not> truthy v then Inr [] else case v of
      VList vs \<Rightarrow> Inr vs | VDict e \<Rightarrow> Inr (map (\<lambda>(k, _). VStr k) e) | VStr s \<Rightarrow> Inr (map (\<lambda>c. VStr [c]) s)
    | _ \<Rightarrow> Inl TypeError)"

fun parse_listing :: "(pyval \<Rightarrow> string) \<Rightarrow> pyval list \<Rightarrow> dict list py" where
  "parse_listing repr [] = Inr []"
| "parse_listing repr (v # vs) =
     bindE (parse_authorization_item repr v) (\<lambda>r.
     bindE (parse_listing repr vs) (\<lambda>rs.
     Inr (case r of None \<Rightarrow> rs
        | Some record \<Rightarrow> (record @ [(''device_id'', py_or (case v of VDict item \<Rightarrow> get item ''deviceId'' | _ \<Rightarrow> VNone) (VStr []))]) # rs)))"

fun find_authorized :: "pyval \<Rightarrow> dict list \<Rightarrow> dict option py" where
  "find_authorized aid [] = Inr None"
| "find_authorized aid (r # rs) =
     bindE (py_int (dget r ''authorized_id'' (VInt (- 1)))) (\<lambda>n.
     if VInt n = aid then Inr (Some r) else find_authorized aid rs)"

definition hash_key :: "pyval \<Rightarrow> pyval py" where
  "hash_key v = (case v of VList _ \<Rightarrow> Inl TypeError | VDict _ \<Rightarrow> Inl TypeError | _ \<Rightarrow> Inr v)"

text \<open>A record of the server with the name and the type that were known of it.\<close>

definition merged_record :: "dict \<Rightarrow> dict option \<Rightarrow> dict" where
  "merged_record record existing = (case existing of
      None \<Rightarrow> record
    | Some e \<Rightarrow> if e = [] then record
        else AList.update ''type'' (py_or (py_or (get e ''type'') (get record ''type'')) (VInt 0))
          (AList.update ''name'' (py_or (py_or (get e ''name'') (get record ''name'')) (VStr [])) record))"

fun merge_listing :: "(pyval \<Rightarrow> dict list) \<Rightarrow> dict list \<Rightarrow> ('x passwords, dict list) io" where
  "merge_listing previous [] = retS []"
| "merge_listing previous (record # rs) =
     bindS (liftE (hash_key (get record ''device_id''))) (\<lambda>d.
     bindS (liftE (find_authorized (get record ''authorized_id'') (previous d))) (\<lambda>existing.
     bindS (list_for d) (\<lambda>a.
     bindS (append_to a (merged_record record existing)) (\<lambda>_.
     bindS (merge_listing previous rs) (\<lambda>merged.
     retS (merged_record record existing # merged))))))"

text \<open>What follows the answer of \<^verbatim>\<open>_readtable\<close>.\<close>

definition receive_listing :: "'x password_env \<Rightarrow> pyval py \<Rightarrow> ('x passwords, dict list) io" where
  "receive_listing env answer = (case answer of
     Inr (VDict data) \<Rightarrow>
       bindS (liftE (bindE (items_of (get data ''authorizedUnlock'')) (parse_listing (tp_text env)))) (\<lambda>rs.
       bindS (getS records_of) (\<lambda>previous.
       bindS (modifyS (\<lambda>w. w\<lparr>tp_records := []\<rparr>)) (\<lambda>_.
       merge_listing previous rs)))
   | _ \<Rightarrow> retS [])"

definition fetch_server_records :: "'x password_env \<Rightarrow> ('x passwords, dict list) io" where
  "fetch_server_records env =
     bindS (getS (\<lambda>w. tp_logged_in env (tp_outside w))) (\<lambda>logged_in.
     if \<not> logged_in then retS []
     else bindS (outside (tp_readtable env)) (receive_listing env))"

section \<open>Granting\<close>

definition check_grant :: "'x password_env \<Rightarrow> string \<Rightarrow> int \<Rightarrow> int \<Rightarrow> int \<Rightarrow> ('x passwords, password_error option) io" where
  "check_grant env d auth_type minutes number =
     bindS (getS (\<lambda>w. tp_ready env (tp_outside w))) (\<lambda>ready.
     if \<not> ready then retS (Some Not_Ready)
     else bindS (liftE (known_lock env d)) (\<lambda>lock.
       retS (if \<not> lock then Some Not_A_Lock
         else if auth_type \<notin> {1, 2} then Some Bad_Type
         else if \<not> (1 \<le> minutes \<and> minutes \<le> 525600) then Some Bad_Minutes
         else if \<not> (0 \<le> number \<and> number \<le> 100) then Some Bad_Number
         else None)))"

record grant_args =
  ga_type :: int
  ga_minutes :: int
  ga_number :: int
  ga_name :: string
  ga_phone :: string
  ga_start :: "int option"
  ga_end :: "int option"
  ga_uid :: string

text \<open>The segment between the list of the server and the request: the address of the device's list and the request.\<close>

definition prepare_grant ::
  "'x password_env \<Rightarrow> string \<Rightarrow> grant_args \<Rightarrow> dict list \<Rightarrow> ('x passwords, (nat \<times> dict) outcome) io" where
  "prepare_grant env d args server_records =
     (if MAX_ACTIVE \<le> length (filter (\<lambda>r. get r ''device_id'' = VStr d) server_records) then retS (Inl Limit_Reached)
      else
        bindS (list_for (VStr d)) (\<lambda>a.
        bindS (getS (\<lambda>w. tp_label env (tp_outside w))) (\<lambda>label.
        retS (Inr (a, [(''device_id'', VStr d), (''device_uid'', uid_of env d (VStr (ga_uid args))),
          (''name'', py_or (VStr (ga_name args)) (VStr label)), (''auth_type'', VInt (ga_type args)),
          (''minutes'', VInt (ga_minutes args)), (''number'', VInt (ga_number args)), (''phone'', VStr (ga_phone args)),
          (''start_time'', of_opt_int (ga_start args)), (''end_time'', of_opt_int (ga_end args))])))))"

definition public_info :: "dict \<Rightarrow> dict" where
  "public_info info = AList.delete ''password'' info"

definition store_grant :: "'x password_env \<Rightarrow> string \<Rightarrow> nat \<Rightarrow> dict \<Rightarrow> int \<Rightarrow> ('x passwords, dict outcome) io" where
  "store_grant env d a record now =
     bindS (append_to a record) (\<lambda>_.
     bindS (modifyS (\<lambda>w. let rs = tp_heap w ! a
       in if 10 < length rs then put_list (VStr d) (drop (length rs - 10) rs) w else w)) (\<lambda>_.
     bindS (liftE (describe_record record now)) (\<lambda>info.
     bindS (modifyS (\<lambda>w. w\<lparr>tp_outside :=
       tp_fire env (dict_merge [(''device_id'', VStr d)] (public_info info)) (tp_outside w)\<rparr>)) (\<lambda>_.
     bindS (touch env d) (\<lambda>_. retS (Inr info))))))"

text \<open>The segment after the answer: \<open>a\<close> is the list that was taken before the request.\<close>

definition finish_grant :: "'x password_env \<Rightarrow> string \<Rightarrow> nat \<Rightarrow> pyval \<Rightarrow> ('x passwords, dict outcome) io" where
  "finish_grant env d a response =
     (if \<not> truthy response then retS (Inl No_Response)
      else
        bindS (liftE (vget response ''status'' VNone)) (\<lambda>status.
        if \<not> no_error_status status
        then bindS (liftE (vget response ''msg'' VNone)) (\<lambda>msg. retS (Inl (Refused status msg)))
        else
          bindS (clock env) (\<lambda>now.
          bindS (liftE (parse_grant_response (tp_text env) now response)) (\<lambda>parsed.
          case parsed of
            None \<Rightarrow> retS (Inl No_Id)
          | Some record \<Rightarrow> store_grant env d a (AList.update ''device_id'' (VStr d) record) now))))"

definition grant :: "'x password_env \<Rightarrow> string \<Rightarrow> grant_args \<Rightarrow> ('x passwords, dict outcome) io" where
  "grant env d args =
     bindS (check_grant env d (ga_type args) (ga_minutes args) (ga_number args)) (\<lambda>refused.
     case refused of
       Some e \<Rightarrow> retS (Inl e)
     | None \<Rightarrow>
         bindS (fetch_server_records env) (\<lambda>server_records.
         bindS (prepare_grant env d args server_records) (\<lambda>prepared.
         case prepared of
           Inl e \<Rightarrow> retS (Inl e)
         | Inr (a, request) \<Rightarrow>
             bindS (outside (tp_send env request)) (\<lambda>answer.
             bindS (liftE answer) (finish_grant env d a)))))"

section \<open>Revoking, listing, reclaiming\<close>

fun without_id :: "int \<Rightarrow> dict list \<Rightarrow> dict list py" where
  "without_id aid [] = Inr []"
| "without_id aid (r # rs) =
     bindE (py_int (dget r ''authorized_id'' (VInt (- 1)))) (\<lambda>n.
     bindE (without_id aid rs) (\<lambda>kept. Inr (if n \<noteq> aid then r # kept else kept)))"

definition finish_revoke :: "'x password_env \<Rightarrow> string \<Rightarrow> int \<Rightarrow> pyval \<Rightarrow> ('x passwords, dict outcome) io" where
  "finish_revoke env d aid response =
     (if \<not> truthy response then retS (Inl No_Response)
      else
        bindS (liftE (vget response ''status'' VNone)) (\<lambda>status.
        if \<not> no_error_status status then retS (Inl (Refused status VNone))
        else
          bindS (getS (\<lambda>w. records_of w (VStr d))) (\<lambda>rs.
          bindS (liftE (without_id aid rs)) (\<lambda>kept.
          bindS (modifyS (put_list (VStr d) kept)) (\<lambda>_.
          bindS (touch env d) (\<lambda>_. retS (Inr [(''ok'', VBool True), (''authorized_id'', VInt aid)])))))))"

definition revoke :: "'x password_env \<Rightarrow> string \<Rightarrow> int \<Rightarrow> string \<Rightarrow> ('x passwords, dict outcome) io" where
  "revoke env d aid device_uid =
     bindS (getS (\<lambda>w. tp_ready env (tp_outside w))) (\<lambda>ready.
     if \<not> ready then retS (Inl Not_Ready)
     else bindS (liftE (known_lock env d)) (\<lambda>lock.
       if \<not> lock then retS (Inl Not_A_Lock)
       else if aid \<le> 0 then retS (Inl Bad_Id)
       else
         bindS (outside (tp_delete env [(''device_id'', VStr d), (''device_uid'', uid_of env d (VStr device_uid)),
           (''authorized_id'', VInt aid)])) (\<lambda>answer.
         bindS (liftE answer) (finish_revoke env d aid))))"

fun list_infos :: "int \<Rightarrow> dict list \<Rightarrow> (pyval, dict list) pydict \<Rightarrow> (pyval, dict list) pydict py" where
  "list_infos now [] result = Inr result"
| "list_infos now (r # rs) result =
     bindE (describe_record r now) (\<lambda>info.
       let target = py_or (get r ''device_id'') (VStr ''unknown'');
           known = (case map_of result target of None \<Rightarrow> [] | Some infos \<Rightarrow> infos)
       in list_infos now rs (AList.update target (known @ [public_info info]) result))"

definition list_passwords :: "'x password_env \<Rightarrow> string \<Rightarrow> ('x passwords, (pyval, dict list) pydict) io" where
  "list_passwords env d =
     bindS (fetch_server_records env) (\<lambda>rs.
     bindS (clock env) (\<lambda>now.
     liftE (list_infos now (if d = [] then rs else filter (\<lambda>r. get r ''device_id'' = VStr d) rs) [])))"

fun unexpired :: "int \<Rightarrow> dict list \<Rightarrow> dict list py" where
  "unexpired now [] = Inr []"
| "unexpired now (r # rs) = bindE (is_expired r now) (\<lambda>e. bindE (unexpired now rs) (\<lambda>kept. Inr (if e then kept else r # kept)))"

definition password_state :: "'x password_env \<Rightarrow> string \<Rightarrow> ('x passwords, dict option) io" where
  "password_state env d =
     bindS (clock env) (\<lambda>now.
     bindS (getS (\<lambda>w. records_of w (VStr d))) (\<lambda>rs.
     bindS (liftE (unexpired now rs)) (\<lambda>active.
     if active = [] then retS None
     else bindS (liftE (describe_record (last active) now)) (\<lambda>info. retS (Some info)))))"

text \<open>The periodic reclaim: every expired record is revoked; an error of a revocation is logged and passed over.\<close>

fun reclaim_records :: "'x password_env \<Rightarrow> pyval \<Rightarrow> dict list \<Rightarrow> ('x passwords, unit) io" where
  "reclaim_records env d [] = retS ()"
| "reclaim_records env d (r # rs) =
     bindS (clock env) (\<lambda>now.
     bindS (liftE (is_expired r now)) (\<lambda>expired.
     bindS (if expired
       then except_any (bindS (liftE (case map_of r ''authorized_id'' of None \<Rightarrow> Inl KeyError | Some v \<Rightarrow> py_int v))
                     (\<lambda>aid. case d of VStr s \<Rightarrow> bindS (revoke env s aid []) (\<lambda>_. retS ()) | _ \<Rightarrow> retS ())) (\<lambda>e. retS ())
       else retS ()) (\<lambda>_.
     reclaim_records env d rs)))"

fun reclaim_all :: "'x password_env \<Rightarrow> (pyval \<times> nat) list \<Rightarrow> ('x passwords, unit) io" where
  "reclaim_all env [] = retS ()"
| "reclaim_all env ((d, a) # ds) =
     bindS (getS (\<lambda>w. tp_heap w ! a)) (\<lambda>rs.
     bindS (reclaim_records env d rs) (\<lambda>_. reclaim_all env ds))"

definition reclaim :: "'x password_env \<Rightarrow> ('x passwords, unit) io" where
  "reclaim env = bindS (getS tp_records) (reclaim_all env)"


section \<open>Lists and addresses\<close>

text \<open>Every list that a device holds is an object, and no two devices hold the same one.\<close>

definition passwords_ok :: "'x passwords \<Rightarrow> bool" where
  "passwords_ok w \<longleftrightarrow> (\<forall>k a. map_of (tp_records w) k = Some a \<longrightarrow> a < length (tp_heap w))
     \<and> (\<forall>k k' a. map_of (tp_records w) k = Some a \<and> map_of (tp_records w) k' = Some a \<longrightarrow> k = k')"

lemma put_list_ok: "passwords_ok w \<Longrightarrow> passwords_ok (put_list d rs w)"
  unfolding passwords_ok_def put_list_def
  by (simp add: dict_simps) (metis less_SucI less_irrefl option.inject)

lemma records_of_put [simp]:
  "passwords_ok w \<Longrightarrow> records_of (put_list d rs w) k = (if k = d then rs else records_of w k)"
  by (auto simp: passwords_ok_def records_of_def put_list_def dict_simps nth_append split: option.split)

lemma records_of_outside [simp]: "records_of (w\<lparr>tp_outside := x\<rparr>) k = records_of w k"
  "records_of (w\<lparr>tp_states := s\<rparr>) k = records_of w k"
  by (simp_all add: records_of_def split: option.split)

lemma passwords_ok_outside [simp]: "passwords_ok (w\<lparr>tp_outside := x\<rparr>) = passwords_ok w"
  "passwords_ok (w\<lparr>tp_states := s\<rparr>) = passwords_ok w"
  by (simp_all add: passwords_ok_def)

lemma list_for_run:
  assumes "passwords_ok w" "list_for d w = (r, w')"
  shows "\<exists>a. r = Inr a \<and> a < length (tp_heap w') \<and> passwords_ok w' \<and> map_of (tp_records w') d = Some a
    \<and> records_of w' = records_of w \<and> tp_outside w' = tp_outside w \<and> length (tp_heap w) \<le> length (tp_heap w')"
proof (cases "map_of (tp_records w) d")
  case None
  then have w': "w' = put_list d [] w" "r = Inr (length (tp_heap w))" using assms(2) by (auto simp: list_for_def)
  have "records_of w d = []" using None by (simp add: records_of_def)
  then have "records_of w' = records_of w" using assms(1) by (auto simp: w' fun_eq_iff)
  then show ?thesis using put_list_ok [OF assms(1)] by (simp add: w') (simp add: put_list_def dict_simps)
next
  case (Some a)
  then show ?thesis using assms by (auto simp: list_for_def passwords_ok_def)
qed

lemma append_to_run:
  assumes "passwords_ok w" "map_of (tp_records w) d = Some a"
  shows "passwords_ok (snd (append_to a r w))"
    and "records_of (snd (append_to a r w)) k = (if k = d then records_of w d @ [r] else records_of w k)"
proof -
  have a: "a < length (tp_heap w)" using assms by (auto simp: passwords_ok_def)
  show "passwords_ok (snd (append_to a r w))" using assms(1) by (simp add: append_to_def passwords_ok_def)
  show "records_of (snd (append_to a r w)) k = (if k = d then records_of w d @ [r] else records_of w k)"
  proof (cases "k = d")
    case True
    then show ?thesis using a assms(2) by (simp add: append_to_def records_of_def)
  next
    case False
    then have "map_of (tp_records w) k \<noteq> Some a" using assms unfolding passwords_ok_def by blast
    then show ?thesis using False by (auto simp: append_to_def records_of_def nth_list_update split: option.split)
  qed
qed

text \<open>An object that no device holds.\<close>

definition detached :: "nat \<Rightarrow> 'x passwords \<Rightarrow> bool" where
  "detached a w \<longleftrightarrow> a < length (tp_heap w) \<and> (\<forall>k. map_of (tp_records w) k \<noteq> Some a)"

lemma append_to_detached:
  "detached a w \<Longrightarrow> records_of (snd (append_to a r w)) = records_of w"
  by (auto simp: fun_eq_iff detached_def append_to_def records_of_def nth_list_update split: option.split)

lemma detached_put: "detached a w \<Longrightarrow> detached a (put_list d rs w)"
  by (auto simp: detached_def put_list_def dict_simps)

lemma detached_list_for: "detached a w \<Longrightarrow> list_for d w = (s, w') \<Longrightarrow> detached a w'"
  using detached_put [of a w d "[]"] by (auto simp: list_for_def split: option.splits)

lemma detached_append: "detached a w \<Longrightarrow> detached a (snd (append_to b r w))"
  by (simp add: detached_def append_to_def)


lemma always_ok_append: "always passwords_ok (append_to a r)"
  by (simp add: always_def append_to_def passwords_ok_def)

lemma always_ok_list_for: "always passwords_ok (list_for d)"
  using put_list_ok by (auto simp: always_def list_for_def split: option.split)

lemma always_ok_outside: "always passwords_ok (outside f)"
  by (simp add: always_def outside_def split: prod.split)

lemma always_ok_touch: "always passwords_ok (touch env d)"
  by (simp add: always_def touch_def Let_def passwords_ok_def)

lemma always_ok_merge: "always passwords_ok (merge_listing previous rs)"
proof (induction rs)
  case (Cons r rs)
  then show ?case by (simp add: always_bind always_ok_append always_ok_list_for)
qed (simp only: merge_listing.simps always_simps)

lemma always_ok_receive: "always passwords_ok (receive_listing env answer)"
proof -
  have "always passwords_ok (modifyS (\<lambda>w. w\<lparr>tp_records := []\<rparr>))" by (simp add: always_def passwords_ok_def)
  note steps = always_bind always_ok_merge this
  show ?thesis unfolding receive_listing_def
    by (cases answer; cases "projr answer") (simp_all only: sum.case sum.sel pyval.case always_simps, intro steps, simp_all add: steps)
qed

lemma always_ok_fetch: "always passwords_ok (fetch_server_records env)"
  unfolding fetch_server_records_def by (auto intro!: always_bind always_ok_outside always_ok_receive)

lemma always_ok_finish: "always passwords_ok (finish_grant env d a response)"
proof -
  have "always passwords_ok (store_grant env d a r now)" for r now
    unfolding store_grant_def
    by (intro always_bind) (auto simp: Let_def intro!: always_modify always_ok_append always_ok_touch put_list_ok)
  then show ?thesis unfolding finish_grant_def clock_def
    by (auto intro!: always_bind split: option.split)
qed

lemma detached_merge: "always (detached a) (merge_listing previous rs)"
proof (induction rs)
  case (Cons r rs)
  have take_list: "always (detached a) (list_for d)" for d
    unfolding always_def by (metis detached_list_for prod.collapse)
  have append: "always (detached a) (append_to b r)" for b r
    by (simp add: always_def detached_append)
  show ?case by (simp only: merge_listing.simps) (intro always_bind always_simps take_list append Cons.IH)
qed (simp only: merge_listing.simps always_simps)

lemma receive_detaches:
  assumes "a < length (tp_heap w)" "receive_listing env (Inr (VDict data)) w = (Inr rs, w')"
  shows "detached a w'"
proof -
  obtain items w1 where "merge_listing (records_of w) items (w\<lparr>tp_records := []\<rparr>) = (Inr rs, w')"
    using assms(2) unfolding receive_listing_def by (auto elim!: bindS_InrE)
  moreover have "detached a (w\<lparr>tp_records := []\<rparr>)" using assms(1) by (simp add: detached_def)
  ultimately show ?thesis using detached_merge [unfolded always_def] by (metis snd_conv)
qed

text \<open>What \<open>finish_grant\<close> does when it succeeds.\<close>

lemma store_grant_run:
  assumes "store_grant env d a r now w = (Inr (Inr info), w')"
  shows "describe_record r now = Inr info
    \<and> records_of w' = (let w1 = snd (append_to a r w); rs = tp_heap w1 ! a
       in records_of (if 10 < length rs then put_list (VStr d) (drop (length rs - 10) rs) w1 else w1))"
proof -
  define w1 where "w1 = snd (append_to a r w)"
  define w2 where "w2 = (let rs = tp_heap w1 ! a in if 10 < length rs then put_list (VStr d) (drop (length rs - 10) rs) w1 else w1)"
  have append: "append_to a r w = (Inr (), w1)" by (simp add: w1_def append_to_def)
  have "bindS (liftE (describe_record r now)) (\<lambda>info.
      bindS (modifyS (\<lambda>w. w\<lparr>tp_outside := tp_fire env (dict_merge [(''device_id'', VStr d)] (public_info info)) (tp_outside w)\<rparr>)) (\<lambda>_.
      bindS (touch env d) (\<lambda>_. retS (Inr info)))) w2 = (Inr (Inr info :: dict outcome), w')"
    using assms by (simp only: store_grant_def bindS_run(2) [of "append_to a r" w "()" w1, OF append] bindS_modifyS w2_def)
  then have "describe_record r now = Inr info" and "records_of w' = records_of w2"
    by (auto simp: touch_def Let_def fun_eq_iff bindS_def split: sum.splits)
  then show ?thesis by (simp add: w1_def w2_def Let_def)
qed

lemma finish_grant_run:
  assumes "finish_grant env d a response w = (Inr (Inr info), w')"
  obtains r now where "parse_grant_response (tp_text env) now response = Inr (Some r)"
    "store_grant env d a (AList.update ''device_id'' (VStr d) r) now w = (Inr (Inr info), w')"
proof -
  have response: "truthy response" using assms by (auto simp: finish_grant_def split: if_splits)
  then obtain status where "(if \<not> no_error_status status
        then bindS (liftE (vget response ''msg'' VNone)) (\<lambda>msg. retS (Inl (Refused status msg)))
        else bindS (clock env) (\<lambda>now.
          bindS (liftE (parse_grant_response (tp_text env) now response)) (\<lambda>parsed.
          case parsed of None \<Rightarrow> retS (Inl No_Id)
          | Some record \<Rightarrow> store_grant env d a (AList.update ''device_id'' (VStr d) record) now))) w = (Inr (Inr info), w')"
    using assms unfolding finish_grant_def by (auto elim!: bindS_InrE)
  then obtain parsed where "parse_grant_response (tp_text env) (rat_trunc (tp_time env (tp_outside w))) response = Inr parsed"
    "(case parsed of None \<Rightarrow> retS (Inl No_Id)
      | Some record \<Rightarrow> store_grant env d a (AList.update ''device_id'' (VStr d) record) (rat_trunc (tp_time env (tp_outside w)))) w
      = (Inr (Inr info), w')"
    unfolding clock_def by (auto elim!: bindS_InrE split: if_splits)
  then show ?thesis using that by (cases parsed) auto
qed


lemma prepare_grant_run:
  assumes "passwords_ok w" "prepare_grant env d args rs w = (Inr (Inr (a, request)), w')"
  shows "passwords_ok w' \<and> map_of (tp_records w') (VStr d) = Some a \<and> a < length (tp_heap w')
    \<and> records_of w' = records_of w \<and> tp_outside w' = tp_outside w"
proof -
  obtain r w1 where take_list: "list_for (VStr d) w = (r, w1)" by force
  have "r = Inr a \<and> w' = w1"
    using assms(2) take_list list_for_run [OF assms(1) take_list]
    by (auto simp: prepare_grant_def bindS_def split: if_splits)
  then show ?thesis using list_for_run [OF assms(1) take_list] by auto
qed

lemma is_expired_mono: "is_expired r now = Inr True \<Longrightarrow> now \<le> later \<Longrightarrow> is_expired r later = Inr True"
  by (auto simp: is_expired_def bindE_Inr_iff split: if_splits)

lemma receive_send [simp]: "receive_listing (env\<lparr>tp_send := f\<rparr>) = receive_listing env"
  by (simp add: fun_eq_iff receive_listing_def split: sum.split pyval.split)

lemma lock_send [simp]: "known_lock (env\<lparr>tp_send := f\<rparr>) = known_lock env" "uid_of (env\<lparr>tp_send := f\<rparr>) = uid_of env"
  by (simp_all add: fun_eq_iff known_lock_def uid_of_def split: option.split)

lemma fields_send: "tp_ready (env\<lparr>tp_send := f\<rparr>) = tp_ready env" "tp_logged_in (env\<lparr>tp_send := f\<rparr>) = tp_logged_in env"
  "tp_readtable (env\<lparr>tp_send := f\<rparr>) = tp_readtable env" "tp_label (env\<lparr>tp_send := f\<rparr>) = tp_label env"
  by simp_all

lemma send_irrelevant [simp]:
  "check_grant (env\<lparr>tp_send := f\<rparr>) d t m n = check_grant env d t m n"
  "fetch_server_records (env\<lparr>tp_send := f\<rparr>) = fetch_server_records env"
  "prepare_grant (env\<lparr>tp_send := f\<rparr>) d args rs = prepare_grant env d args rs"
  by (simp_all only: check_grant_def fetch_server_records_def prepare_grant_def fields_send lock_send receive_send)

lemma dict_merge_other: "k \<notin> fst ` set e \<Longrightarrow> map_of (dict_merge d e) k = map_of d k"
  by (induction d e rule: dict_merge.induct) (auto simp: dict_simps)

lemma list_infos_private:
  assumes "list_infos now rs result = Inr result'"
    and "\<And>d infos info. map_of result d = Some infos \<Longrightarrow> info \<in> set infos \<Longrightarrow> \<not> has_key info ''password''"
    and "map_of result' d = Some infos" "info \<in> set infos"
  shows "\<not> has_key info ''password''"
  using assms
proof (induction rs arbitrary: result)
  case Nil
  then show ?case by simp
next
  case (Cons r rs)
  let ?target = "py_or (get r ''device_id'') (VStr ''unknown'')"
  let ?known = "case map_of result ?target of None \<Rightarrow> [] | Some infos \<Rightarrow> infos"
  obtain i where rest: "list_infos now rs (AList.update ?target (?known @ [public_info i]) result) = Inr result'"
    using Cons.prems(1) by (auto simp: Let_def)
  have "\<not> has_key (public_info i) ''password''" by (simp add: public_info_def has_key_def)
  then show ?case using Cons.prems(2) 
    by (intro Cons.IH [OF rest _ Cons.prems(3,4)]) (auto simp: dict_simps split: if_splits option.splits)
qed


section \<open>Samples\<close>

definition sample_answer :: pyval where
  "sample_answer = VDict [(''status'', VInt 0), (''code'', VStr ''123456''), (''authorizedUnlock'', VDict [(''authorizedId'', VInt 9)])]"

definition sample_item :: "int \<Rightarrow> pyval" where
  "sample_item n = VDict [(''authorizedId'', VInt n), (''deviceId'', VStr ''d''), (''password'', VStr ''654321'')]"

definition sample_listing :: dict where
  "sample_listing = [(''authorizedUnlock'', VList (map sample_item [1, 2, 3, 4]))]"

text \<open>The outside says whether the web client has a session.\<close>

definition sample_env :: "bool password_env" where
  "sample_env = \<lparr>tp_devices = [(''d'', [(''device_type_raw'', VInt 107)])], tp_catalog = (\<lambda>m. None), tp_text = (\<lambda>v. []),
     tp_time = (\<lambda>x. 1000), tp_label = (\<lambda>x. ''user''), tp_ready = (\<lambda>x. True), tp_logged_in = (\<lambda>x. x),
     tp_readtable = (\<lambda>x. (Inr (VDict sample_listing), x)), tp_send = (\<lambda>request x. (Inr sample_answer, x)),
     tp_delete = (\<lambda>request x. (Inr sample_answer, x)), tp_fire = (\<lambda>e x. x), tp_updated = (\<lambda>x. x)\<rparr>"

definition sample_args :: grant_args where
  "sample_args = \<lparr>ga_type = 2, ga_minutes = 60, ga_number = 1, ga_name = [], ga_phone = [], ga_start = None, ga_end = None, ga_uid = []\<rparr>"

definition sample_passwords :: "bool \<Rightarrow> bool passwords" where
  "sample_passwords x = \<lparr>tp_heap = [[]], tp_records = [(VStr ''d'', 0)], tp_states = [], tp_outside = x\<rparr>"

lemma sample_ok: "passwords_ok (sample_passwords x)"
  by (simp add: passwords_ok_def sample_passwords_def)

lemma case_Inr: "(case r of (Inr x, w) \<Rightarrow> P x w | _ \<Rightarrow> False) \<Longrightarrow> \<exists>x. r = (Inr x, snd r) \<and> P x (snd r)"
  by (cases r; cases "fst r") auto

lemma case_Inr2: "(case r of (Inr (Inr x), w) \<Rightarrow> P x w | _ \<Rightarrow> False) \<Longrightarrow> \<exists>x. r = (Inr (Inr x), snd r) \<and> P x (snd r)"
  by (cases r; cases "fst r"; cases "projr (fst r)") auto

section \<open>Properties\<close>

text \<open>C30. No request for a temporary password is sent when the device is not a known door lock, the type is not 1 or 2,
  the validity is not between 1 and 525,600 minutes or the number of uses is not between 0 and 100, nor when the
  list of the server can be had and has four passwords of the lock already: the outcome is then the same whatever
  sending would do. When the list cannot be had, the limit of four is not looked at (\<open>limit_fails_open\<close>).\<close>

theorem grant_respects_limits:
  assumes "known_lock env d \<noteq> Inr True \<or> ga_type args \<notin> {1, 2} \<or> ga_minutes args \<notin> {1..525600} \<or> ga_number args \<notin> {0..100}
    \<or> (\<exists>rs w1. fetch_server_records env w = (Inr rs, w1) \<and> 4 \<le> length (filter (\<lambda>r. get r ''device_id'' = VStr d) rs))"
  shows "grant (env\<lparr>tp_send := f\<rparr>) d args w = grant env d args w"
proof -
  obtain c w1 where c: "check_grant env d (ga_type args) (ga_minutes args) (ga_number args) w = (c, w1)" by force
  show ?thesis
  proof (cases "c = Inr None")
    case False
    then show ?thesis using c by (cases c) (auto simp: grant_def bindS_def)
  next
    case True
    then have w1: "w1 = w" and "known_lock env d = Inr True \<and> ga_type args \<in> {1, 2} \<and> ga_minutes args \<in> {1..525600} \<and> ga_number args \<in> {0..100}"
      using c by (auto simp: check_grant_def bindS_def split: if_splits sum.splits)
    then obtain rs w2 where rs: "fetch_server_records env w = (Inr rs, w2)"
      "4 \<le> length (filter (\<lambda>r. get r ''device_id'' = VStr d) rs)" using assms by blast
    then have "prepare_grant env d args rs w2 = (Inr (Inl Limit_Reached), w2)"
      by (simp add: prepare_grant_def MAX_ACTIVE_def)
    then show ?thesis using c rs(1) by (simp add: grant_def True w1 bindS_run)
  qed
qed

theorem grant_respects_limits_witness:
  "grant (sample_env\<lparr>tp_send := \<lambda>request x. (Inl TypeError, x)\<rparr>) ''d'' sample_args (sample_passwords True)
     = grant sample_env ''d'' sample_args (sample_passwords True)"
proof (rule grant_respects_limits)
  have c: "case fetch_server_records sample_env (sample_passwords True) of
      (Inr rs, w) \<Rightarrow> 4 \<le> length (filter (\<lambda>r. get r ''device_id'' = VStr ''d'') rs) | _ \<Rightarrow> False" by code_simp
  from case_Inr [of "\<lambda>rs w. 4 \<le> length (filter (\<lambda>r. get r ''device_id'' = VStr ''d'') rs)", OF c]
  obtain rs where rs: "fetch_server_records sample_env (sample_passwords True)
      = (Inr rs, snd (fetch_server_records sample_env (sample_passwords True)))"
    "4 \<le> length (filter (\<lambda>r. get r ''device_id'' = VStr ''d'') rs)"
    by (elim exE conjE that)
  show "known_lock sample_env ''d'' \<noteq> Inr True \<or> ga_type sample_args \<notin> {1, 2} \<or> ga_minutes sample_args \<notin> {1..525600}
    \<or> ga_number sample_args \<notin> {0..100}
    \<or> (\<exists>rs w1. fetch_server_records sample_env (sample_passwords True) = (Inr rs, w1)
        \<and> 4 \<le> length (filter (\<lambda>r. get r ''device_id'' = VStr ''d'') rs))"
    by (intro disjI2 exI conjI) (rule rs)+
qed

text \<open>The limit of four passwords fails open: when the server's list cannot be had (no session of the web client,
  an exception, an answer that is not a dictionary), an otherwise valid request is sent however many passwords of the lock are
  known.\<close>

lemma limit_fails_open:
  assumes "passwords_ok w" "tp_ready env (tp_outside w)" "known_lock env d = Inr True" "ga_type args \<in> {1, 2}"
    and "ga_minutes args \<in> {1..525600}" "ga_number args \<in> {0..100}" "\<not> tp_logged_in env (tp_outside w)"
  shows "\<exists>a request w1. grant env d args w = bindS (outside (tp_send env request)) (\<lambda>answer. bindS (liftE answer) (finish_grant env d a)) w1
    \<and> get request ''device_id'' = VStr d \<and> records_of w1 = records_of w \<and> tp_outside w1 = tp_outside w"
proof -
  have c: "check_grant env d (ga_type args) (ga_minutes args) (ga_number args) w = (Inr None, w)"
    using assms(2-6) by (auto simp: check_grant_def)
  have fetch: "fetch_server_records env w = (Inr [], w)" using assms(7) by (simp add: fetch_server_records_def)
  obtain r w1 where "list_for (VStr d) w = (r, w1)" by force
  with list_for_run [OF assms(1) this] obtain a where l: "list_for (VStr d) w = (Inr a, w1)" by blast
  obtain request where p: "prepare_grant env d args [] w = (Inr (Inr (a, request)), w1)" "get request ''device_id'' = VStr d"
    using l by (simp add: prepare_grant_def MAX_ACTIVE_def bindS_def)
  have "grant env d args w = bindS (outside (tp_send env request)) (\<lambda>answer. bindS (liftE answer) (finish_grant env d a)) w1"
    using c fetch p(1) by (simp add: grant_def bindS_run)
  then show ?thesis using p(2) prepare_grant_run [OF assms(1) p(1)] by blast
qed

text \<open>A granted password is recorded at the end of the list of its lock, which keeps its ten newest, and no other
  list changes, when no other operation replaced the lists since the request was sent.\<close>

lemma granted_password_is_recorded:
  assumes "passwords_ok w" "map_of (tp_records w) (VStr d) = Some a" "finish_grant env d a response w = (Inr (Inr info), w')"
  shows "\<exists>r. get r ''authorized_id'' = get info ''authorized_id'' \<and> get r ''device_id'' = VStr d
    \<and> records_of w' (VStr d) = (let rs = records_of w (VStr d) @ [r] in drop (length rs - 10) rs)
    \<and> (\<forall>k. k \<noteq> VStr d \<longrightarrow> records_of w' k = records_of w k)"
proof -
  from finish_grant_run [OF assms(3)] obtain r now where
    "store_grant env d a (AList.update ''device_id'' (VStr d) r) now w = (Inr (Inr info), w')" by metis
  define new where "new = AList.update ''device_id'' (VStr d) r"
  note s = store_grant_run [OF \<open>store_grant env d a (AList.update ''device_id'' (VStr d) r) now w = (Inr (Inr info), w')\<close>, folded new_def]
  define w1 where "w1 = snd (append_to a new w)"
  have w1: "passwords_ok w1" "\<And>k. records_of w1 k = (if k = VStr d then records_of w (VStr d) @ [new] else records_of w k)"
    unfolding w1_def using append_to_run [OF assms(1,2)] by blast+
  have "map_of (tp_records w1) (VStr d) = Some a" using assms(2) by (simp add: w1_def append_to_def)
  then have rs: "tp_heap w1 ! a = records_of w (VStr d) @ [new]" using w1(2) [of "VStr d"] by (simp add: records_of_def)
  have "get new ''authorized_id'' = get info ''authorized_id''"
    using s by (auto simp: describe_record_def)
  moreover have "get new ''device_id'' = VStr d" by (simp add: new_def)
  moreover have "records_of w' k = (if k = VStr d then (let rs = records_of w (VStr d) @ [new] in drop (length rs - 10) rs) else records_of w k)" for k
    using s w1 unfolding w1_def [symmetric] Let_def rs by auto
  ultimately show ?thesis by auto
qed

text \<open>C37. A listing that is received while a request is under way loses the granted password: the grant writes to the
  list it took before the request, which no lock holds any more, so the records are what they were before the answer
  (when the old list is not full; a full one replaces the listing by stale records).\<close>

theorem listing_loses_granted_password:
  assumes "passwords_ok w" "prepare_grant env d args rs w = (Inr (Inr (a, request)), w1)"
    and "receive_listing env (Inr (VDict data)) w1 = (Inr rs', w2)" "length (tp_heap w2 ! a) < 10"
    and "finish_grant env d a response w2 = (Inr (Inr info), w3)"
  shows "records_of w3 = records_of w2"
proof -
  have "a < length (tp_heap w1)" using prepare_grant_run [OF assms(1,2)] by simp
  then have d: "detached a w2" by (rule receive_detaches [OF _ assms(3)])
  from finish_grant_run [OF assms(5)] obtain r now where
    "store_grant env d a (AList.update ''device_id'' (VStr d) r) now w2 = (Inr (Inr info), w3)" by metis
  note s = store_grant_run [OF this]
  have "length (tp_heap (snd (append_to a (AList.update ''device_id'' (VStr d) r) w2)) ! a) \<le> 10"
    using assms(4) d by (simp add: append_to_def detached_def)
  then have "records_of w3 = records_of (snd (append_to a (AList.update ''device_id'' (VStr d) r) w2))"
    using s by (simp add: Let_def)
  then show ?thesis using append_to_detached [OF d] by simp
qed

theorem listing_loses_granted_password_witness:
  "let w2 = snd (receive_listing sample_env (Inr (VDict sample_listing)) (sample_passwords True))
   in (case finish_grant sample_env ''d'' 0 sample_answer w2 of (Inr (Inr info), w3) \<Rightarrow> records_of w3 = records_of w2 | _ \<Rightarrow> False)"
proof -
  let ?w1 = "sample_passwords True"
  let ?r = "receive_listing sample_env (Inr (VDict sample_listing)) ?w1"
  let ?f = "finish_grant sample_env ''d'' 0 sample_answer (snd ?r)"
  have "case prepare_grant sample_env ''d'' sample_args [] ?w1 of (Inr (Inr (a, request)), w) \<Rightarrow> a = 0 \<and> tp_heap w = [[]]
      \<and> tp_records w = [(VStr ''d'', 0)] \<and> tp_states w = [] \<and> tp_outside w | _ \<Rightarrow> False" by code_simp
  then obtain request where p: "prepare_grant sample_env ''d'' sample_args [] ?w1 = (Inr (Inr (0, request)), ?w1)"
    by (auto simp: sample_passwords_def split: prod.splits sum.splits)
  have c: "case ?r of (Inr rs, w) \<Rightarrow> length (tp_heap w ! 0) < 10 | _ \<Rightarrow> False" by code_simp
  from case_Inr [of "\<lambda>rs w. length (tp_heap w ! 0) < 10" ?r, OF c] obtain rs where r: "?r = (Inr rs, snd ?r)" "length (tp_heap (snd ?r) ! 0) < 10"
    by (elim exE conjE that)
  have e: "case ?f of (Inr (Inr info), w) \<Rightarrow> True | _ \<Rightarrow> False" by code_simp
  from case_Inr2 [of "\<lambda>info w. True" ?f, OF e] obtain info where f: "?f = (Inr (Inr info), snd ?f)"
    by (elim exE conjE that)
  have "records_of (snd ?f) = records_of (snd ?r)"
    by (rule listing_loses_granted_password [OF sample_ok p r f])
  then show ?thesis unfolding Let_def by (subst f) simp
qed

text \<open>Passwords stay private: no entry of a listing has one, and what a grant publishes as an event does not depend on it.\<close>

lemma passwords_stay_private:
  assumes "list_passwords env d w = (Inr result, w')" "map_of result k = Some infos" "i \<in> set infos"
  shows "\<not> has_key i ''password''
    \<and> finish_grant (env\<lparr>tp_fire := \<lambda>e. tp_fire env (AList.delete ''password'' e)\<rparr>) = finish_grant env"
proof
  obtain rs now where "list_infos now rs [] = Inr result"
    using assms(1) unfolding list_passwords_def clock_def by (auto elim!: bindS_InrE)
  then show "\<not> has_key i ''password''" by (rule list_infos_private) (use assms(2,3) in simp_all)
  have "AList.delete ''password'' (dict_merge [(''device_id'', VStr d)] (public_info info)) = dict_merge [(''device_id'', VStr d)] (public_info info)"
    for d info
  proof (rule delete_id)
    have "''password'' \<notin> fst ` set (public_info info)" by (auto simp: public_info_def AList.delete_eq)
    from dict_merge_other [OF this] show "''password'' \<notin> fst ` set (dict_merge [(''device_id'', VStr d)] (public_info info))"
      by (simp flip: map_of_eq_None_iff)
  qed
  then have "store_grant (env\<lparr>tp_fire := \<lambda>e. tp_fire env (AList.delete ''password'' e)\<rparr>) = store_grant env"
    by (simp add: fun_eq_iff store_grant_def touch_def)
  moreover have "clock (env\<lparr>tp_fire := \<lambda>e. tp_fire env (AList.delete ''password'' e)\<rparr>) = clock env"
    "tp_text (env\<lparr>tp_fire := \<lambda>e. tp_fire env (AList.delete ''password'' e)\<rparr>) = tp_text env"
    by (simp_all add: clock_def)
  ultimately show "finish_grant (env\<lparr>tp_fire := \<lambda>e. tp_fire env (AList.delete ''password'' e)\<rparr>) = finish_grant env"
    by (intro ext) (simp only: finish_grant_def)
qed


end
