(* ===== verification/Gateway_Discovery.thy ===== *)
theory Gateway_Discovery
  imports Lan_Framing Gateway_Connection
begin

text \<open>
  The search for gateways of \<^verbatim>\<open>lan/discovery.py\<close> and the test for the endpoints that \<^verbatim>\<open>lan/gateway_manager.py\<close>
  takes from the cloud. Addresses are those of \<^verbatim>\<open>ipaddress\<close> (Python 3.13): an IPv4 address is a 32-bit word,
  a network a word and the length of its prefix; a text that is not an IPv4 address is either no
  address or an IPv6 address, which both users reject alike. The datagrams that arrive while the search
  sleeps are a list of payload and sender; the socket itself is not modelled.
\<close>

section \<open>Addresses\<close>

fun split_on :: "char \<Rightarrow> string \<Rightarrow> string list" where
  "split_on sep [] = [[]]"
| "split_on sep (c # s) =
     (if c = sep then [] # split_on sep s
      else case split_on sep s of [] \<Rightarrow> [[c]] | part # parts \<Rightarrow> (c # part) # parts)"

definition octet_value :: "string \<Rightarrow> int" where
  "octet_value s = foldl (\<lambda>n c. 10 * n + (int (byte c) - 48)) 0 s"

definition octet :: "string \<Rightarrow> int option" where
  "octet s =
     (if s = [] \<or> (\<exists>c \<in> set s. digit_val c = None) \<or> 3 < length s \<or> s \<noteq> ''0'' \<and> hd s = CHR ''0''
         \<or> 255 < octet_value s
      then None else Some (octet_value s))"

type_synonym ip4 = "32 word"

definition ip4_of :: "int \<Rightarrow> int \<Rightarrow> int \<Rightarrow> int \<Rightarrow> ip4" where
  "ip4_of a b c d = word_of_int (((256 * a + b) * 256 + c) * 256 + d)"

definition parse_ip4 :: "string \<Rightarrow> ip4 option" where
  "parse_ip4 s =
     (case map octet (split_on CHR ''.'' s) of
        [Some a, Some b, Some c, Some d] \<Rightarrow> Some (ip4_of a b c d)
      | _ \<Rightarrow> None)"

text \<open>The \<open>n\<close> leading bits of a word, and the private networks of the address registry with their exceptions.\<close>

definition in_network :: "ip4 \<Rightarrow> ip4 \<times> nat \<Rightarrow> bool" where
  "in_network a net = (drop_bit (32 - snd net) a = drop_bit (32 - snd net) (fst net))"

definition PRIVATE_NETWORKS :: "(ip4 \<times> nat) list" where
  "PRIVATE_NETWORKS =
     [(ip4_of 0 0 0 0, 8), (ip4_of 10 0 0 0, 8), (ip4_of 127 0 0 0, 8), (ip4_of 169 254 0 0, 16),
      (ip4_of 172 16 0 0, 12), (ip4_of 192 0 0 0, 24), (ip4_of 192 0 0 170, 31), (ip4_of 192 0 2 0, 24),
      (ip4_of 192 168 0 0, 16), (ip4_of 198 18 0 0, 15), (ip4_of 198 51 100 0, 24), (ip4_of 203 0 113 0, 24),
      (ip4_of 240 0 0 0, 4), (ip4_of 255 255 255 255, 32)]"

definition PRIVATE_EXCEPTIONS :: "(ip4 \<times> nat) list" where
  "PRIVATE_EXCEPTIONS = [(ip4_of 192 0 0 9, 32), (ip4_of 192 0 0 10, 32)]"

definition is_private :: "ip4 \<Rightarrow> bool" where
  "is_private a \<longleftrightarrow> list_ex (in_network a) PRIVATE_NETWORKS \<and> \<not> list_ex (in_network a) PRIVATE_EXCEPTIONS"

definition is_loopback :: "ip4 \<Rightarrow> bool" where
  "is_loopback a = in_network a (ip4_of 127 0 0 0, 8)"

definition is_multicast :: "ip4 \<Rightarrow> bool" where
  "is_multicast a = in_network a (ip4_of 224 0 0 0, 4)"

definition local_address :: "ip4 \<Rightarrow> bool" where
  "local_address a \<longleftrightarrow> is_private a \<and> \<not> is_loopback a \<and> a \<noteq> 0 \<and> \<not> is_multicast a"

definition local_host :: "string \<Rightarrow> bool" where
  "local_host host = (case parse_ip4 host of None \<Rightarrow> False | Some a \<Rightarrow> local_address a)"

text \<open>\<^verbatim>\<open>_private_host\<close>: one port may follow the address.\<close>

definition private_host :: "string \<Rightarrow> string option" where
  "private_host raw =
     (let host = (if length (filter (\<lambda>c. c = CHR '':'') raw) = 1 then takeWhile (\<lambda>c. c \<noteq> CHR '':'') raw else raw)
      in if local_host host then Some host else None)"

lemma private_host_local: "private_host raw = Some host \<Longrightarrow> local_host host"
  by (auto simp: private_host_def Let_def split: if_splits)

section \<open>The search\<close>

text \<open>One datagram: \<^verbatim>\<open>datagram_received\<close>. A candidate is its UID and the address of the sender.\<close>

definition datagram_received ::
  "cipher \<Rightarrow> string set \<Rightarrow> string \<times> string \<Rightarrow> (string, string) pydict \<Rightarrow> (string, string) pydict" where
  "datagram_received C known datagram candidates =
     (let (data, host) = datagram
      in if \<not> local_host host then candidates
         else case parse_packet C [(ID_UNSET, DEFAULT_KEY)] DEFAULT_KEY data of
             Inl e \<Rightarrow> candidates
           | Inr payload \<Rightarrow>
               (case get payload ''uid'' of
                  VStr uid \<Rightarrow> if uid \<in> known then AList.update uid host candidates else candidates
                | _ \<Rightarrow> candidates))"

definition search ::
  "cipher \<Rightarrow> string set \<Rightarrow> (string \<times> string) list \<Rightarrow> (string, string) pydict" where
  "search C known datagrams =
     (if known = {} then [] else fold (datagram_received C known) datagrams [])"

text \<open>The request that is broadcast.\<close>

definition request_packet :: "cipher \<Rightarrow> (rat \<Rightarrow> string) \<Rightarrow> int \<Rightarrow> frame_error + string" where
  "request_packet C float_text serial =
     build_packet C float_text PK_TYPE DEFAULT_KEY ID_UNSET (VDict
       [(''cmd'', VInt 86), (''serial'', VInt serial), (''uniSerial'', VInt serial), (''clientType'', VInt 1),
        (''serverRecord'', VBool False), (''ver'', VStr SOFTWARE_VER)])"

text \<open>What the manager may rely on: known gateways at local addresses, one candidate each.\<close>

definition proper_candidates :: "string set \<Rightarrow> (string, string) pydict \<Rightarrow> bool" where
  "proper_candidates known cs \<longleftrightarrow>
     distinct (map fst cs) \<and> list_all (\<lambda>(uid, host). uid \<in> known \<and> local_host host) cs"

lemma proper_update:
  assumes "proper_candidates known cs" "uid \<in> known" "local_host host"
  shows "proper_candidates known (AList.update uid host cs)"
proof -
  have "set (AList.update uid host cs) \<subseteq> insert (uid, host) (set cs)"
    by (induction cs) auto
  from subsetD [OF this] assms show ?thesis
    by (auto simp: proper_candidates_def list_all_iff simp del: split_paired_All) fastforce+
qed

lemma datagram_proper: "proper_candidates known cs \<Longrightarrow> proper_candidates known (datagram_received C known dg cs)"
  by (auto simp: datagram_received_def Let_def proper_update split: prod.splits sum.splits pyval.splits)

lemma search_proper: "proper_candidates known (search C known datagrams)"
proof -
  have "proper_candidates known cs \<Longrightarrow> proper_candidates known (fold (datagram_received C known) datagrams cs)" for cs
    by (induction datagrams arbitrary: cs) (auto intro: datagram_proper)
  then show ?thesis by (simp add: search_def proper_candidates_def)
qed

end
