(* ===== verification/Gateway_Manager.thy ===== *)
theory Gateway_Manager
  imports Gateway_Discovery
begin

text \<open>
  The lifecycle of the gateway connections: \<^verbatim>\<open>lan/gateway_manager.py\<close>. Each call of the manager is a coroutine,
  a \<open>job\<close> that names the await where it stands, and a turn of the event loop runs one job from its await
  to the next. The records are objects on a heap, since \<^verbatim>\<open>discover\<close> keeps one across an await while others
  replace it; the connections are a second heap, each reduced to what the manager sees of it: dialing,
  ready (with the identity confirmed or not) or down. What a handshake may answer is \<open>login_accepts\<close>,
  which \<open>handshake_accepts\<close> proves of the model of \<^verbatim>\<open>GatewayConnection\<close>. The lock of a UID is the queue of the jobs
  at it, its holder first: \<^verbatim>\<open>asyncio.Lock\<close> is fair. \<^verbatim>\<open>GatewayConnection.close\<close> takes effect before its first
  await, and never raises.

  \<^verbatim>\<open>send\<close> is \<^verbatim>\<open>ensure\<close> followed by a request of the connection (\<open>Gateway_Connection\<close>). \<open>gm_listed\<close> and \<open>gm_logins\<close>
  are for the theorems alone: the endpoints the cloud has listed, and those whose login confirmed the UID.
\<close>

section \<open>Connections, records and jobs\<close>

datatype link_state = Dialing | Ready bool | Down

record link =
  ln_uid :: string
  ln_host :: string
  ln_pushes :: bool
  ln_state :: link_state

text \<open>\<open>gr_uid\<close> is the key the record was made for.\<close>

record gw_record =
  gr_uid :: string
  gr_cloud :: string
  gr_active :: string
  gr_link :: "nat option"

datatype fault = Gateway_Fault string | Unknown_Gateway | Other_Fault py_exn | Task_Cancelled

definition closed_fault :: fault where
  "closed_fault = Gateway_Fault ''manager_closed''"

fun is_gateway_fault :: "fault \<Rightarrow> bool" where
  "is_gateway_fault (Gateway_Fault reason) = True"
| "is_gateway_fault _ = False"

type_synonym candidates = "(string \<times> string) list"

text \<open>
  At which await a job stands. \<open>Ensure\<close>, \<open>Reconnect\<close>, \<open>Contend\<close>, \<open>Drop\<close> and \<open>Detach\<close> wait for the lock; \<open>Redial\<close>
  waits for the close of the old connection, \<open>Dial\<close> and \<open>Try\<close> for a handshake, \<open>Leave\<close>, \<open>Refuse\<close> and \<open>Reject\<close> for the
  close of a new connection, all holding the lock; \<open>Search\<close> waits for the datagrams, \<open>Retire\<close>, \<open>Dropped\<close> and
  \<open>Detached\<close> for the close of a connection after the lock was released. The rest are ends.
\<close>

datatype job =
    Ensure string | Reconnect string
  | Redial string nat | Dial string nat nat bool | Leave string fault
  | Search "string set" | Contend string string nat candidates | Try string string nat nat candidates
  | Refuse string fault candidates | Reject string candidates | Retire candidates
  | Drop "string list" | Dropped "string list" | Detach string nat | Detached
  | Returned nat | Raised fault | Ended | Abandoned string nat

fun lock_uid :: "job \<Rightarrow> string option" where
  "lock_uid (Ensure uid) = Some uid"
| "lock_uid (Reconnect uid) = Some uid"
| "lock_uid (Redial uid obj) = Some uid"
| "lock_uid (Dial uid obj l allow) = Some uid"
| "lock_uid (Leave uid e) = Some uid"
| "lock_uid (Contend uid host obj rest) = Some uid"
| "lock_uid (Try uid host obj l rest) = Some uid"
| "lock_uid (Refuse uid e rest) = Some uid"
| "lock_uid (Reject uid rest) = Some uid"
| "lock_uid (Drop uids) = (case uids of [] \<Rightarrow> None | uid # rest \<Rightarrow> Some uid)"
| "lock_uid (Detach uid obj) = Some uid"
| "lock_uid _ = None"

fun waiting :: "job \<Rightarrow> bool" where
  "waiting (Ensure uid) = True"
| "waiting (Reconnect uid) = True"
| "waiting (Contend uid host obj rest) = True"
| "waiting (Drop uids) = True"
| "waiting (Detach uid obj) = True"
| "waiting _ = False"

fun finished :: "job \<Rightarrow> bool" where
  "finished (Returned l) = True"
| "finished (Raised e) = True"
| "finished Ended = True"
| "finished (Abandoned uid obj) = True"
| "finished _ = False"

fun dialing_link :: "job \<Rightarrow> nat option" where
  "dialing_link (Dial uid obj l allow) = Some l"
| "dialing_link (Try uid host obj l rest) = Some l"
| "dialing_link _ = None"

record manager =
  gm_objects :: "gw_record list"
  gm_records :: "(string, nat) pydict"
  gm_links :: "link list"
  gm_queues :: "string \<Rightarrow> nat list"
  gm_jobs :: "job list"
  gm_closed :: bool
  gm_callback :: bool
  gm_listed :: "(string \<times> string) set"
  gm_logins :: "(string \<times> string) set"

section \<open>Small steps\<close>

definition set_link :: "nat \<Rightarrow> link \<Rightarrow> manager \<Rightarrow> manager" where
  "set_link l c s = s\<lparr>gm_links := (gm_links s)[l := c]\<rparr>"

definition set_object :: "nat \<Rightarrow> gw_record \<Rightarrow> manager \<Rightarrow> manager" where
  "set_object obj r s = s\<lparr>gm_objects := (gm_objects s)[obj := r]\<rparr>"

text \<open>\<^verbatim>\<open>connection.close()\<close> and \<^verbatim>\<open>connection.connected\<close>\<close>

definition shut :: "nat \<Rightarrow> manager \<Rightarrow> manager" where
  "shut l s = set_link l ((gm_links s ! l)\<lparr>ln_state := Down\<rparr>) s"

definition link_connected :: "nat \<Rightarrow> manager \<Rightarrow> bool" where
  "link_connected l s = (case ln_state (gm_links s ! l) of Ready c \<Rightarrow> True | _ \<Rightarrow> False)"

text \<open>\<open>stay\<close> moves a job on within its lock, \<open>leave\<close> also releases the lock and queues for the next one, if any.\<close>

definition enqueue :: "nat \<Rightarrow> job \<Rightarrow> (string \<Rightarrow> nat list) \<Rightarrow> string \<Rightarrow> nat list" where
  "enqueue i j q = (case lock_uid j of None \<Rightarrow> q | Some uid \<Rightarrow> q(uid := q uid @ [i]))"

definition dequeue :: "nat \<Rightarrow> job \<Rightarrow> (string \<Rightarrow> nat list) \<Rightarrow> string \<Rightarrow> nat list" where
  "dequeue i j q = (case lock_uid j of None \<Rightarrow> q | Some uid \<Rightarrow> q(uid := remove1 i (q uid)))"

definition stay :: "nat \<Rightarrow> job \<Rightarrow> manager \<Rightarrow> manager" where
  "stay i j s = s\<lparr>gm_jobs := (gm_jobs s)[i := j]\<rparr>"

definition leave :: "nat \<Rightarrow> job \<Rightarrow> manager \<Rightarrow> manager" where
  "leave i j s = s\<lparr>gm_jobs := (gm_jobs s)[i := j],
     gm_queues := enqueue i j (dequeue i (gm_jobs s ! i) (gm_queues s))\<rparr>"

definition spawn :: "job \<Rightarrow> manager \<Rightarrow> manager" where
  "spawn j s = s\<lparr>gm_jobs := gm_jobs s @ [j], gm_queues := enqueue (length (gm_jobs s)) j (gm_queues s)\<rparr>"

section \<open>Records\<close>

definition list_gateway :: "string \<times> string \<Rightarrow> manager \<Rightarrow> manager" where
  "list_gateway entry s =
     (let (uid, raw_host) = entry
      in case private_host raw_host of
          None \<Rightarrow> s
        | Some host \<Rightarrow>
            if uid = [] then s
            else let s1 = s\<lparr>gm_listed := insert (uid, host) (gm_listed s)\<rparr>
              in case map_of (gm_records s) uid of
                  None \<Rightarrow> s1\<lparr>
                    gm_objects := gm_objects s @ [\<lparr>gr_uid = uid, gr_cloud = host, gr_active = host, gr_link = None\<rparr>],
                    gm_records := AList.update uid (length (gm_objects s)) (gm_records s)\<rparr>
                | Some obj \<Rightarrow>
                    let r = gm_objects s ! obj
                    in set_object obj (r\<lparr>gr_cloud := host,
                      gr_active := (if gr_active r = gr_cloud r then host else gr_active r)\<rparr>) s1)"

definition update_cloud_gateways :: "(string \<times> string) list \<Rightarrow> manager \<Rightarrow> manager" where
  "update_cloud_gateways gateways = fold list_gateway gateways"

definition new_manager :: "bool \<Rightarrow> (string \<times> string) list \<Rightarrow> manager" where
  "new_manager callback gateways = update_cloud_gateways gateways
     \<lparr>gm_objects = [], gm_records = [], gm_links = [], gm_queues = (\<lambda>uid. []), gm_jobs = [],
      gm_closed = False, gm_callback = callback, gm_listed = {}, gm_logins = {}\<rparr>"

definition gateway_hosts :: "manager \<Rightarrow> (string, string) pydict" where
  "gateway_hosts s = map (\<lambda>(uid, obj). (uid, gr_active (gm_objects s ! obj))) (gm_records s)"

definition is_connected :: "string \<Rightarrow> manager \<Rightarrow> bool" where
  "is_connected uid s =
     (case map_of (gm_records s) uid of
        None \<Rightarrow> False
      | Some obj \<Rightarrow> (case gr_link (gm_objects s ! obj) of None \<Rightarrow> False | Some l \<Rightarrow> link_connected l s))"

section \<open>Dialing\<close>

definition new_link :: "string \<Rightarrow> string \<Rightarrow> bool \<Rightarrow> manager \<Rightarrow> manager" where
  "new_link uid host pushes s = s\<lparr>gm_links := gm_links s @
     [\<lparr>ln_uid = uid, ln_host = host, ln_pushes = pushes \<and> gm_callback s, ln_state = Dialing\<rparr>]\<rparr>"

definition login_accepts :: "string \<Rightarrow> bool \<Rightarrow> string option \<Rightarrow> bool" where
  "login_accepts uid allow_missing peer \<longleftrightarrow> peer = Some uid \<or> allow_missing \<and> peer = None"

text \<open>
  The handshake succeeds; the transport may be lost again before the turn of the job. When it is lost before the
  last step of \<^verbatim>\<open>connect\<close>, that step still confirms the identity, of a connection that is dead; when it is lost
  after it, the confirmation is withdrawn.
\<close>

datatype fate = Alive | Cut_Early | Cut_Late

definition accept_login :: "nat \<Rightarrow> string option \<Rightarrow> fate \<Rightarrow> manager \<Rightarrow> manager" where
  "accept_login l peer fate s =
     (let c = gm_links s ! l; confirmed = (peer = Some (ln_uid c))
      in set_link l (c\<lparr>ln_state := (if fate = Alive then Ready confirmed else Down)\<rparr>)
           (s\<lparr>gm_logins := (if confirmed then insert (ln_uid c, ln_host c) (gm_logins s) else gm_logins s)\<rparr>))"

text \<open>The second half of \<^verbatim>\<open>_reconnect_locked\<close>, up to the handshake and after it.\<close>

definition dial :: "nat \<Rightarrow> string \<Rightarrow> nat \<Rightarrow> manager \<Rightarrow> manager" where
  "dial i uid obj s =
     (let r = gm_objects s ! obj
      in if gm_closed s then leave i (Raised closed_fault) s
         else stay i (Dial uid obj (length (gm_links s)) (gr_active r = gr_cloud r))
                (new_link uid (gr_active r) True s))"

definition dialed :: "nat \<Rightarrow> string \<Rightarrow> nat \<Rightarrow> nat \<Rightarrow> string option \<Rightarrow> fate \<Rightarrow> manager \<Rightarrow> manager" where
  "dialed i uid obj l peer fate s =
     (let s1 = accept_login l peer fate s
      in if gm_closed s then stay i (Leave uid closed_fault) (shut l s1)
         else leave i (Returned l) (set_object obj ((gm_objects s ! obj)\<lparr>gr_link := Some l\<rparr>) s1))"

definition reconnect_locked :: "nat \<Rightarrow> string \<Rightarrow> nat \<Rightarrow> nat option \<Rightarrow> manager \<Rightarrow> manager" where
  "reconnect_locked i uid obj failed s =
     (if gm_closed s then leave i (Raised closed_fault) s
      else case gr_link (gm_objects s ! obj) of
          None \<Rightarrow> dial i uid obj s
        | Some l \<Rightarrow>
            if Some l \<noteq> failed \<and> link_connected l s then leave i (Returned l) s
            else stay i (Redial uid obj) (shut l s))"

definition ensure_locked :: "nat \<Rightarrow> string \<Rightarrow> nat \<Rightarrow> manager \<Rightarrow> manager" where
  "ensure_locked i uid obj s =
     (case gr_link (gm_objects s ! obj) of
        Some l \<Rightarrow> if link_connected l s then leave i (Returned l) s else reconnect_locked i uid obj (Some l) s
      | None \<Rightarrow> reconnect_locked i uid obj None s)"

text \<open>\<^verbatim>\<open>ensure\<close> and \<^verbatim>\<open>reconnect\<close> once they hold the lock.\<close>

definition with_record :: "nat \<Rightarrow> string \<Rightarrow> (nat \<Rightarrow> manager \<Rightarrow> manager) \<Rightarrow> manager \<Rightarrow> manager" where
  "with_record i uid f s =
     (if gm_closed s then leave i (Raised closed_fault) s
      else case map_of (gm_records s) uid of
          None \<Rightarrow> leave i (Raised Unknown_Gateway) s
        | Some obj \<Rightarrow> f obj s)"

definition ensure :: "nat \<Rightarrow> string \<Rightarrow> manager \<Rightarrow> manager" where
  "ensure i uid = with_record i uid (ensure_locked i uid)"

definition reconnect :: "nat \<Rightarrow> string \<Rightarrow> manager \<Rightarrow> manager" where
  "reconnect i uid = with_record i uid (\<lambda>obj s. reconnect_locked i uid obj (gr_link (gm_objects s ! obj)) s)"

text \<open>\<^verbatim>\<open>send\<close> once \<^verbatim>\<open>ensure\<close> has returned the connection \<open>l\<close>: where the request goes, or why it is not sent.\<close>

definition send_on :: "nat \<Rightarrow> manager \<Rightarrow> fault + nat" where
  "send_on l s =
     (if gm_closed s then Inl closed_fault
      else if link_connected l s then Inr l else Inl (Gateway_Fault ''login_incomplete''))"

section \<open>Discovery\<close>

text \<open>The head of the loop: it fetches the record of the next candidate worth a try, and queues for its lock.\<close>

fun next_candidate :: "nat \<Rightarrow> candidates \<Rightarrow> manager \<Rightarrow> manager" where
  "next_candidate i [] s = leave i Ended s"
| "next_candidate i ((uid, host) # rest) s =
     (case map_of (gm_records s) uid of
        None \<Rightarrow> next_candidate i rest s
      | Some obj \<Rightarrow>
          if host = gr_active (gm_objects s ! obj) then next_candidate i rest s
          else leave i (Contend uid host obj rest) s)"

definition searched :: "nat \<Rightarrow> candidates \<Rightarrow> manager \<Rightarrow> manager" where
  "searched i cs s = (if gm_closed s then leave i (Raised closed_fault) s else next_candidate i cs s)"

definition contend :: "nat \<Rightarrow> string \<Rightarrow> string \<Rightarrow> nat \<Rightarrow> candidates \<Rightarrow> manager \<Rightarrow> manager" where
  "contend i uid host obj rest s =
     (if gm_closed s then leave i (Raised closed_fault) s
      else stay i (Try uid host obj (length (gm_links s)) rest) (new_link uid host False s))"

text \<open>The candidate confirmed its UID: it becomes the connection of the record, and the previous one is closed.\<close>

definition promote :: "nat \<Rightarrow> string \<Rightarrow> nat \<Rightarrow> nat \<Rightarrow> candidates \<Rightarrow> manager \<Rightarrow> manager" where
  "promote i host obj l rest s =
     (let r = gm_objects s ! obj;
          s1 = set_object obj (r\<lparr>gr_link := Some l, gr_active := host\<rparr>) s;
          s2 = set_link l ((gm_links s ! l)\<lparr>ln_pushes := gm_callback s\<rparr>) s1
      in case gr_link r of
          None \<Rightarrow> next_candidate i rest s2
        | Some previous \<Rightarrow> leave i (Retire rest) (shut previous s2))"

definition tried ::
  "nat \<Rightarrow> string \<Rightarrow> string \<Rightarrow> nat \<Rightarrow> nat \<Rightarrow> candidates \<Rightarrow> string option \<Rightarrow> fate \<Rightarrow> manager \<Rightarrow> manager" where
  "tried i uid host obj l rest peer fate s =
     (let s1 = accept_login l peer fate s
      in if peer \<noteq> Some (ln_uid (gm_links s ! l)) \<or> fate = Cut_Late then stay i (Reject uid rest) (shut l s1)
         else if gm_closed s then stay i (Leave uid closed_fault) (shut l s1)
         else promote i host obj l rest s1)"

definition refused :: "nat \<Rightarrow> fault \<Rightarrow> candidates \<Rightarrow> manager \<Rightarrow> manager" where
  "refused i e rest s =
     (if is_gateway_fault e \<and> \<not> gm_closed s then next_candidate i rest s else leave i (Raised e) s)"

section \<open>Dropping and closing\<close>

definition drop_next :: "nat \<Rightarrow> string list \<Rightarrow> manager \<Rightarrow> manager" where
  "drop_next i uids s = leave i (if uids = [] then Ended else Drop uids) s"

fun drop_record :: "nat \<Rightarrow> string list \<Rightarrow> manager \<Rightarrow> manager" where
  "drop_record i [] s = leave i Ended s"
| "drop_record i (uid # rest) s =
     (let s1 = s\<lparr>gm_records := AList.delete uid (gm_records s)\<rparr>
      in case map_of (gm_records s) uid of
          None \<Rightarrow> drop_next i rest s1
        | Some obj \<Rightarrow>
            (case gr_link (gm_objects s ! obj) of
               None \<Rightarrow> drop_next i rest s1
             | Some l \<Rightarrow> leave i (Dropped rest) (shut l s1)))"

definition detach :: "nat \<Rightarrow> nat \<Rightarrow> manager \<Rightarrow> manager" where
  "detach i obj s =
     (let r = gm_objects s ! obj; s1 = set_object obj (r\<lparr>gr_link := None\<rparr>) s
      in case gr_link r of None \<Rightarrow> leave i Ended s1 | Some l \<Rightarrow> leave i Detached (shut l s1))"

section \<open>The event loop\<close>

text \<open>How an await ends: \<open>Go\<close> (a lock, a close), the outcome of a handshake, or the candidates of a search.\<close>

datatype reply = Go | Answer "string option" fate | Fault fault | Found candidates

definition on_go :: "reply \<Rightarrow> manager \<Rightarrow> manager option" where
  "on_go r t = (if r = Go then Some t else None)"

fun resume :: "nat \<Rightarrow> job \<Rightarrow> reply \<Rightarrow> manager \<Rightarrow> manager option" where
  "resume i (Ensure uid) r s = on_go r (ensure i uid s)"
| "resume i (Reconnect uid) r s = on_go r (reconnect i uid s)"
| "resume i (Redial uid obj) r s = on_go r (dial i uid obj s)"
| "resume i (Dial uid obj l allow) r s =
     (case r of
        Answer peer fate \<Rightarrow> if login_accepts uid allow peer then Some (dialed i uid obj l peer fate s) else None
      | Fault e \<Rightarrow> Some (stay i (Leave uid e) (shut l s))
      | _ \<Rightarrow> None)"
| "resume i (Leave uid e) r s = on_go r (leave i (Raised e) s)"
| "resume i (Search known) r s =
     (case r of Found cs \<Rightarrow> if proper_candidates known cs then Some (searched i cs s) else None | _ \<Rightarrow> None)"
| "resume i (Contend uid host obj rest) r s = on_go r (contend i uid host obj rest s)"
| "resume i (Try uid host obj l rest) r s =
     (case r of
        Answer peer fate \<Rightarrow>
          if login_accepts uid False peer then Some (tried i uid host obj l rest peer fate s) else None
      | Fault e \<Rightarrow> Some (stay i (Refuse uid e rest) (shut l s))
      | _ \<Rightarrow> None)"
| "resume i (Refuse uid e rest) r s = on_go r (refused i e rest s)"
| "resume i (Reject uid rest) r s = on_go r (next_candidate i rest s)"
| "resume i (Retire rest) r s = on_go r (next_candidate i rest s)"
| "resume i (Drop uids) r s = on_go r (drop_record i uids s)"
| "resume i (Dropped uids) r s = on_go r (drop_next i uids s)"
| "resume i (Detach uid obj) r s = on_go r (detach i obj s)"
| "resume i Detached r s = on_go r (leave i Ended s)"
| "resume i _ r s = None"

text \<open>A task that is cancelled at its await; a connection that dials is closed before the lock is released.\<close>

fun cancel :: "nat \<Rightarrow> job \<Rightarrow> manager \<Rightarrow> manager option" where
  "cancel i (Dial uid obj l allow) s = Some (stay i (Leave uid Task_Cancelled) (shut l s))"
| "cancel i (Try uid host obj l rest) s = Some (stay i (Refuse uid Task_Cancelled rest) (shut l s))"
| "cancel i (Detach uid obj) s = Some (leave i (Abandoned uid obj) s)"
| "cancel i j s = (if finished j then None else Some (leave i (Raised Task_Cancelled) s))"

text \<open>A job that waits for a lock may go on when it is the first in the queue.\<close>

definition may_resume :: "nat \<Rightarrow> manager \<Rightarrow> bool" where
  "may_resume i s =
     (waiting (gm_jobs s ! i) \<longrightarrow>
        (case lock_uid (gm_jobs s ! i) of
           None \<Rightarrow> True | Some uid \<Rightarrow> gm_queues s uid \<noteq> [] \<and> hd (gm_queues s uid) = i))"

datatype call =
    Call_Ensure string | Call_Reconnect string | Call_Discover
  | Call_Update "(string \<times> string) list" | Call_Reconcile "(string \<times> string) list" "string list" | Call_Close

definition start :: "job \<Rightarrow> manager \<Rightarrow> manager" where
  "start j s = (if gm_closed s then spawn (Raised closed_fault) s else spawn j s)"

definition trusted_uids :: "(string \<times> string) list \<Rightarrow> string set" where
  "trusted_uids gateways =
     set (map fst (filter (\<lambda>(uid, raw). uid \<noteq> [] \<and> private_host raw \<noteq> None) gateways))"

text \<open>
  The calls up to their first await. \<open>Call_Reconcile gateways order\<close> is \<^verbatim>\<open>async_update_cloud_gateways\<close>, with the order
  in which it visits the set of UIDs that are no longer listed; \<open>Call_Update\<close> is the synchronous update.
\<close>

fun begin_call :: "call \<Rightarrow> manager \<Rightarrow> manager option" where
  "begin_call (Call_Ensure uid) s = Some (start (Ensure uid) s)"
| "begin_call (Call_Reconnect uid) s = Some (start (Reconnect uid) s)"
| "begin_call Call_Discover s = Some (start (Search (dict_keys (gm_records s))) s)"
| "begin_call (Call_Update gateways) s = Some (update_cloud_gateways gateways s)"
| "begin_call (Call_Reconcile gateways order) s =
     (let s1 = update_cloud_gateways gateways s
      in if gm_closed s then Some (spawn (Raised closed_fault) s)
         else if distinct order \<and> set order = dict_keys (gm_records s1) - trusted_uids gateways
         then Some (spawn (if order = [] then Ended else Drop order) s1) else None)"
| "begin_call Call_Close s =
     Some (fold (\<lambda>(uid, obj). spawn (Detach uid obj)) (gm_records s) (s\<lparr>gm_closed := True\<rparr>))"

datatype event = Call call | Turn nat reply | Cancel_Task nat | Lost nat

definition handle :: "event \<Rightarrow> manager \<Rightarrow> manager option" where
  "handle e s =
     (case e of
        Call c \<Rightarrow> begin_call c s
      | Turn i r \<Rightarrow> if i < length (gm_jobs s) \<and> may_resume i s then resume i (gm_jobs s ! i) r s else None
      | Cancel_Task i \<Rightarrow> if i < length (gm_jobs s) then cancel i (gm_jobs s ! i) s else None
      | Lost l \<Rightarrow> if l < length (gm_links s) \<and> link_connected l s then Some (shut l s) else None)"

fun run_events :: "event list \<Rightarrow> manager \<Rightarrow> manager option" where
  "run_events [] s = Some s"
| "run_events (e # es) s = (case handle e s of None \<Rightarrow> None | Some t \<Rightarrow> run_events es t)"

inductive manager_step :: "manager \<Rightarrow> manager \<Rightarrow> bool" where
  handle_event: "handle e s = Some t \<Longrightarrow> manager_step s t"

inductive_cases manager_stepE: "manager_step s t"

lemma run_events_steps: "run_events es s = Some t \<Longrightarrow> manager_step\<^sup>*\<^sup>* s t"
  by (induction es s rule: run_events.induct)
    (auto split: option.splits intro: handle_event converse_rtranclp_into_rtranclp)


text \<open>What the model of the connection promises of a handshake.\<close>

lemma handshake_accepts:
  "login_received (Some uid) allow_missing g hello_uid m s = (Inr (), t) \<Longrightarrow>
     login_accepts uid allow_missing (cn_peer_uid t)
       \<and> (cn_identity_confirmed t \<longleftrightarrow> cn_peer_uid t = Some uid)"
  by (auto simp: login_received_def login_accepts_def Let_def split: if_splits)

section \<open>What a small step leaves alone\<close>

lemma small_frames [simp, frame_simps]:
  "gm_jobs (set_link l c s) = gm_jobs s" "gm_queues (set_link l c s) = gm_queues s"
  "gm_objects (set_link l c s) = gm_objects s" "gm_records (set_link l c s) = gm_records s"
  "gm_closed (set_link l c s) = gm_closed s" "gm_listed (set_link l c s) = gm_listed s"
  "gm_logins (set_link l c s) = gm_logins s" "gm_callback (set_link l c s) = gm_callback s"
  "gm_links (set_link l c s) = (gm_links s)[l := c]"
  "gm_jobs (set_object obj r s) = gm_jobs s" "gm_queues (set_object obj r s) = gm_queues s"
  "gm_objects (set_object obj r s) = (gm_objects s)[obj := r]" "gm_records (set_object obj r s) = gm_records s"
  "gm_closed (set_object obj r s) = gm_closed s" "gm_listed (set_object obj r s) = gm_listed s"
  "gm_logins (set_object obj r s) = gm_logins s" "gm_callback (set_object obj r s) = gm_callback s"
  "gm_links (set_object obj r s) = gm_links s"
  by (simp_all add: set_link_def set_object_def)

lemma shut_frames [simp, frame_simps]:
  "gm_jobs (shut l s) = gm_jobs s" "gm_queues (shut l s) = gm_queues s"
  "gm_objects (shut l s) = gm_objects s" "gm_records (shut l s) = gm_records s"
  "gm_closed (shut l s) = gm_closed s" "gm_listed (shut l s) = gm_listed s"
  "gm_logins (shut l s) = gm_logins s" "gm_callback (shut l s) = gm_callback s"
  "gm_links (shut l s) = (gm_links s)[l := (gm_links s ! l)\<lparr>ln_state := Down\<rparr>]"
  by (simp_all add: shut_def)

lemma new_link_frames [simp, frame_simps]:
  "gm_jobs (new_link uid host pushes s) = gm_jobs s" "gm_queues (new_link uid host pushes s) = gm_queues s"
  "gm_objects (new_link uid host pushes s) = gm_objects s" "gm_records (new_link uid host pushes s) = gm_records s"
  "gm_closed (new_link uid host pushes s) = gm_closed s" "gm_listed (new_link uid host pushes s) = gm_listed s"
  "gm_logins (new_link uid host pushes s) = gm_logins s" "gm_callback (new_link uid host pushes s) = gm_callback s"
  by (simp_all add: new_link_def)

lemma accept_login_frames [simp, frame_simps]:
  "gm_jobs (accept_login l peer fate s) = gm_jobs s" "gm_queues (accept_login l peer fate s) = gm_queues s"
  "gm_objects (accept_login l peer fate s) = gm_objects s" "gm_records (accept_login l peer fate s) = gm_records s"
  "gm_closed (accept_login l peer fate s) = gm_closed s" "gm_listed (accept_login l peer fate s) = gm_listed s"
  "gm_callback (accept_login l peer fate s) = gm_callback s"
  by (simp_all add: accept_login_def Let_def)

text \<open>\<open>stay\<close>, \<open>leave\<close> and \<open>spawn\<close> touch nothing but jobs and queues.\<close>

lemma move_frames [simp, frame_simps]:
  "gm_objects (stay i j s) = gm_objects s" "gm_records (stay i j s) = gm_records s"
  "gm_links (stay i j s) = gm_links s" "gm_closed (stay i j s) = gm_closed s"
  "gm_listed (stay i j s) = gm_listed s" "gm_logins (stay i j s) = gm_logins s"
  "gm_callback (stay i j s) = gm_callback s" "gm_jobs (stay i j s) = (gm_jobs s)[i := j]"
  "gm_queues (stay i j s) = gm_queues s"
  "gm_objects (leave i j s) = gm_objects s" "gm_records (leave i j s) = gm_records s"
  "gm_links (leave i j s) = gm_links s" "gm_closed (leave i j s) = gm_closed s"
  "gm_listed (leave i j s) = gm_listed s" "gm_logins (leave i j s) = gm_logins s"
  "gm_callback (leave i j s) = gm_callback s" "gm_jobs (leave i j s) = (gm_jobs s)[i := j]"
  "gm_objects (spawn j s) = gm_objects s" "gm_records (spawn j s) = gm_records s"
  "gm_links (spawn j s) = gm_links s" "gm_closed (spawn j s) = gm_closed s"
  "gm_listed (spawn j s) = gm_listed s" "gm_logins (spawn j s) = gm_logins s"
  "gm_callback (spawn j s) = gm_callback s" "gm_jobs (spawn j s) = gm_jobs s @ [j]"
  by (simp_all add: stay_def leave_def spawn_def)

section \<open>The locks\<close>

text \<open>
  A job stands in the queue of the lock it holds or waits for, once, and nowhere else; who holds a lock
  is the first in its queue. Nothing but jobs and queues is mentioned.
\<close>

definition queues_ok :: "job list \<Rightarrow> (string \<Rightarrow> nat list) \<Rightarrow> bool" where
  "queues_ok js q \<longleftrightarrow>
     (\<forall>uid. distinct (q uid) \<and> set (q uid) = {i. i < length js \<and> lock_uid (js ! i) = Some uid}) \<and>
     (\<forall>i uid. i < length js \<and> lock_uid (js ! i) = Some uid \<and> \<not> waiting (js ! i) \<longrightarrow> hd (q uid) = i)"

definition locks_ok :: "manager \<Rightarrow> bool" where
  "locks_ok s \<longleftrightarrow> queues_ok (gm_jobs s) (gm_queues s)"

definition at_turn :: "nat \<Rightarrow> manager \<Rightarrow> bool" where
  "at_turn i s \<longleftrightarrow> i < length (gm_jobs s) \<and> (\<forall>uid. lock_uid (gm_jobs s ! i) = Some uid \<longrightarrow> hd (gm_queues s uid) = i)"

lemma lock_frames [simp]:
  "locks_ok (set_link l c s) = locks_ok s" "at_turn i (set_link l c s) = at_turn i s"
  "locks_ok (set_object obj r s) = locks_ok s" "at_turn i (set_object obj r s) = at_turn i s"
  "locks_ok (shut l s) = locks_ok s" "at_turn i (shut l s) = at_turn i s"
  "locks_ok (new_link uid host pushes s) = locks_ok s" "at_turn i (new_link uid host pushes s) = at_turn i s"
  "locks_ok (accept_login l peer fate s) = locks_ok s" "at_turn i (accept_login l peer fate s) = at_turn i s"
  "locks_ok (s\<lparr>gm_records := rs\<rparr>) = locks_ok s" "locks_ok (s\<lparr>gm_closed := b\<rparr>) = locks_ok s"
  by (simp_all add: locks_ok_def at_turn_def)

lemma may_resume_at_turn: "locks_ok s \<Longrightarrow> i < length (gm_jobs s) \<Longrightarrow> may_resume i s \<Longrightarrow> at_turn i s"
  by (auto simp: at_turn_def may_resume_def locks_ok_def queues_ok_def)

lemma at_turn_bound: "at_turn i s \<Longrightarrow> i < length (gm_jobs s)"
  by (simp add: at_turn_def)

lemma holder_at_turn: "locks_ok s \<Longrightarrow> i < length (gm_jobs s) \<Longrightarrow> \<not> waiting (gm_jobs s ! i) \<Longrightarrow> at_turn i s"
  by (auto simp: at_turn_def locks_ok_def queues_ok_def)

lemma stay_locks:
  assumes "locks_ok s" "at_turn i s" "lock_uid j = lock_uid (gm_jobs s ! i)"
  shows "locks_ok (stay i j s)"
  using assms by (auto simp: locks_ok_def queues_ok_def at_turn_def nth_list_update split: if_splits)

lemma enqueue_apply:
  "enqueue i j q uid = (if lock_uid j = Some uid then q uid @ [i] else q uid)"
  by (auto simp: enqueue_def split: option.splits)

lemma dequeue_apply:
  "dequeue i j q uid = (if lock_uid j = Some uid then remove1 i (q uid) else q uid)"
  by (auto simp: dequeue_def split: option.splits)

lemma hd_remove1_other: "hd xs \<noteq> i \<Longrightarrow> xs \<noteq> [] \<Longrightarrow> hd (remove1 i xs) = hd xs"
  by (cases xs) auto

lemma leave_locks:
  assumes ok: "locks_ok s" and i: "i < length (gm_jobs s)" and j: "waiting j \<or> lock_uid j = None"
  shows "locks_ok (leave i j s)"
proof -
  let ?old = "gm_jobs s ! i" and ?q = "enqueue i j (dequeue i (gm_jobs s ! i) (gm_queues s))"
  have mem: "set (gm_queues s uid) = {k. k < length (gm_jobs s) \<and> lock_uid (gm_jobs s ! k) = Some uid}"
    and dist: "distinct (gm_queues s uid)" for uid
    using ok unfolding locks_ok_def queues_ok_def by blast+
  have set_deq: "set (dequeue i ?old (gm_queues s) uid) = set (gm_queues s uid) - {i}" for uid
    using mem [of uid] dist [of uid] by (auto simp: dequeue_apply)
  have dist_deq: "distinct (dequeue i ?old (gm_queues s) uid)" for uid
    using dist [of uid] by (auto simp: dequeue_apply)
  have 1: "distinct (?q uid) \<and>
      set (?q uid) = {k. k < length (gm_jobs s) \<and> lock_uid ((gm_jobs s)[i := j] ! k) = Some uid}" for uid
    using set_deq [of uid] dist_deq [of uid] mem [of uid] i
    by (auto simp: enqueue_apply nth_list_update split: if_splits)
  have 2: "hd (?q uid) = k"
    if "k < length (gm_jobs s)" "lock_uid ((gm_jobs s)[i := j] ! k) = Some uid" "\<not> waiting ((gm_jobs s)[i := j] ! k)" for k uid
  proof -
    from that j i have k: "k \<noteq> i" "lock_uid (gm_jobs s ! k) = Some uid" "\<not> waiting (gm_jobs s ! k)"
      by (auto simp: nth_list_update split: if_splits)
    with that(1) ok have head: "hd (gm_queues s uid) = k" by (auto simp: locks_ok_def queues_ok_def)
    have "k \<in> set (gm_queues s uid)" using mem k that(1) by auto
    then have ne: "gm_queues s uid \<noteq> []" by auto
    have "hd (dequeue i ?old (gm_queues s) uid) = k"
      using head ne k(1) by (auto simp: dequeue_apply hd_remove1_other)
    moreover have "k \<in> set (dequeue i ?old (gm_queues s) uid)"
      unfolding set_deq using \<open>k \<in> set (gm_queues s uid)\<close> k(1) by blast
    then have "dequeue i ?old (gm_queues s) uid \<noteq> []" by auto
    ultimately show ?thesis by (simp add: enqueue_apply)
  qed
  from 1 2 show ?thesis by (simp add: locks_ok_def queues_ok_def leave_def)
qed

lemma spawn_locks:
  assumes ok: "locks_ok s" and j: "waiting j \<or> lock_uid j = None"
  shows "locks_ok (spawn j s)"
proof -
  let ?n = "length (gm_jobs s)" and ?q = "enqueue (length (gm_jobs s)) j (gm_queues s)"
  have mem: "set (gm_queues s uid) = {k. k < ?n \<and> lock_uid (gm_jobs s ! k) = Some uid}"
    and dist: "distinct (gm_queues s uid)" for uid
    using ok unfolding locks_ok_def queues_ok_def by blast+
  have 1: "distinct (?q uid) \<and>
      set (?q uid) = {k. k < Suc ?n \<and> lock_uid ((gm_jobs s @ [j]) ! k) = Some uid}" for uid
  proof -
    have "?n \<notin> set (gm_queues s uid)" using mem by simp
    moreover have "set (?q uid) = {k. k < Suc ?n \<and> lock_uid ((gm_jobs s @ [j]) ! k) = Some uid}"
      by (simp add: enqueue_apply mem) (auto simp: nth_append less_Suc_eq)
    ultimately show ?thesis using dist [of uid] by (simp add: enqueue_apply)
  qed
  have 2: "hd (?q uid) = k"
    if "k < Suc ?n" "lock_uid ((gm_jobs s @ [j]) ! k) = Some uid" "\<not> waiting ((gm_jobs s @ [j]) ! k)" for k uid
  proof -
    from that j have k: "k < ?n" "lock_uid (gm_jobs s ! k) = Some uid" "\<not> waiting (gm_jobs s ! k)"
      by (auto simp: nth_append less_Suc_eq split: if_splits)
    with ok have "hd (gm_queues s uid) = k" by (auto simp: locks_ok_def queues_ok_def)
    moreover have "k \<in> set (gm_queues s uid)" unfolding mem using k by blast
    then have "gm_queues s uid \<noteq> []" by auto
    ultimately show ?thesis by (simp add: enqueue_apply)
  qed
  from 1 2 show ?thesis by (simp add: locks_ok_def queues_ok_def spawn_def)
qed


lemma lock_uid_None_or_waiting [simp]: "waiting (Drop uids)" "lock_uid Ended = None"
  by simp_all

lemma on_go_Some [simp]: "on_go r t = Some u \<longleftrightarrow> r = Go \<and> u = t"
  by (auto simp: on_go_def)

lemma dial_locks:
  "locks_ok s \<Longrightarrow> at_turn i s \<Longrightarrow> lock_uid (gm_jobs s ! i) = Some uid \<Longrightarrow> locks_ok (dial i uid obj s)"
  by (simp add: dial_def Let_def leave_locks stay_locks at_turn_bound)

lemma reconnect_locked_locks:
  "locks_ok s \<Longrightarrow> at_turn i s \<Longrightarrow> lock_uid (gm_jobs s ! i) = Some uid \<Longrightarrow>
     locks_ok (reconnect_locked i uid obj failed s)"
  by (simp add: reconnect_locked_def leave_locks stay_locks dial_locks at_turn_bound split: option.split)

lemma with_record_locks:
  assumes "locks_ok s" "i < length (gm_jobs s)" "\<And>obj. locks_ok (f obj s)"
  shows "locks_ok (with_record i uid f s)"
  using assms by (simp add: with_record_def leave_locks split: option.split)

lemma ensure_locks:
  "locks_ok s \<Longrightarrow> at_turn i s \<Longrightarrow> lock_uid (gm_jobs s ! i) = Some uid \<Longrightarrow> locks_ok (ensure i uid s)"
  by (simp add: ensure_def with_record_locks ensure_locked_def at_turn_bound leave_locks reconnect_locked_locks
      split: option.split)

lemma reconnect_locks:
  "locks_ok s \<Longrightarrow> at_turn i s \<Longrightarrow> lock_uid (gm_jobs s ! i) = Some uid \<Longrightarrow> locks_ok (reconnect i uid s)"
  by (simp add: reconnect_def with_record_locks at_turn_bound reconnect_locked_locks)

lemma next_candidate_locks: "locks_ok s \<Longrightarrow> i < length (gm_jobs s) \<Longrightarrow> locks_ok (next_candidate i cs s)"
  by (induction i cs s rule: next_candidate.induct) (simp_all add: leave_locks split: option.split)

lemma tried_locks:
  "locks_ok s \<Longrightarrow> at_turn i s \<Longrightarrow> lock_uid (gm_jobs s ! i) = Some uid \<Longrightarrow>
     locks_ok (tried i uid host obj l rest peer fate s)"
  by (simp add: tried_def promote_def Let_def at_turn_bound leave_locks stay_locks next_candidate_locks
      split: option.split)

lemma drop_next_locks: "locks_ok s \<Longrightarrow> i < length (gm_jobs s) \<Longrightarrow> locks_ok (drop_next i uids s)"
  by (simp add: drop_next_def leave_locks)

lemma drop_locks: "locks_ok s \<Longrightarrow> i < length (gm_jobs s) \<Longrightarrow> locks_ok (drop_record i uids s)"
  by (cases uids) (simp_all add: drop_next_locks Let_def leave_locks split: option.split)

lemmas segment_locks = leave_locks stay_locks ensure_locks reconnect_locks dial_locks next_candidate_locks
  tried_locks drop_locks drop_next_locks

lemma resume_locks:
  assumes "resume i (gm_jobs s ! i) r s = Some t" "locks_ok s" "at_turn i s"
  shows "locks_ok t"
  using assms at_turn_bound [OF assms(3)]
  by (cases "gm_jobs s ! i")
    (auto simp: segment_locks dialed_def searched_def contend_def refused_def detach_def Let_def
      split: reply.splits if_splits option.splits)

lemma cancel_locks:
  assumes "cancel i (gm_jobs s ! i) s = Some t" "locks_ok s" "i < length (gm_jobs s)"
  shows "locks_ok t"
  using assms holder_at_turn [OF assms(2,3)]
  by (cases "gm_jobs s ! i") (auto simp: leave_locks stay_locks split: if_splits)

lemma list_gateway_frames [simp]:
  "gm_jobs (list_gateway e s) = gm_jobs s" "gm_queues (list_gateway e s) = gm_queues s"
  "gm_links (list_gateway e s) = gm_links s" "gm_closed (list_gateway e s) = gm_closed s"
  "gm_logins (list_gateway e s) = gm_logins s" "gm_callback (list_gateway e s) = gm_callback s"
  by (auto simp: list_gateway_def Let_def split: prod.splits option.splits)

lemma update_frames [simp]:
  "gm_jobs (update_cloud_gateways es s) = gm_jobs s" "gm_queues (update_cloud_gateways es s) = gm_queues s"
  "gm_links (update_cloud_gateways es s) = gm_links s" "gm_closed (update_cloud_gateways es s) = gm_closed s"
  "gm_logins (update_cloud_gateways es s) = gm_logins s" "gm_callback (update_cloud_gateways es s) = gm_callback s"
  unfolding update_cloud_gateways_def by (induction es arbitrary: s) auto

lemma close_locks: "locks_ok s \<Longrightarrow> locks_ok (fold (\<lambda>(uid, obj). spawn (Detach uid obj)) records s)"
  by (induction records arbitrary: s) (auto simp: spawn_locks)

lemma update_locks [simp]: "locks_ok (update_cloud_gateways es s) = locks_ok s"
  by (simp add: locks_ok_def)

lemma begin_locks: "begin_call c s = Some t \<Longrightarrow> locks_ok s \<Longrightarrow> locks_ok t"
  by (cases c) (auto simp: start_def Let_def spawn_locks close_locks split: if_splits)

lemma handle_locks: "handle e s = Some t \<Longrightarrow> locks_ok s \<Longrightarrow> locks_ok t"
  by (auto simp: handle_def split: event.splits if_splits
      intro: begin_locks resume_locks cancel_locks may_resume_at_turn)


section \<open>Who owns a connection, and where it leads\<close>

definition trusted :: "manager \<Rightarrow> string \<Rightarrow> string \<Rightarrow> bool" where
  "trusted s uid host \<longleftrightarrow> (uid, host) \<in> gm_listed s \<union> gm_logins s"

definition obj_for :: "manager \<Rightarrow> string \<Rightarrow> nat \<Rightarrow> bool" where
  "obj_for s uid obj \<longleftrightarrow> obj < length (gm_objects s) \<and> gr_uid (gm_objects s ! obj) = uid"

definition link_down :: "manager \<Rightarrow> nat \<Rightarrow> bool" where
  "link_down s obj \<longleftrightarrow> (\<forall>l. gr_link (gm_objects s ! obj) = Some l \<longrightarrow> ln_state (gm_links s ! l) = Down)"

definition dials :: "manager \<Rightarrow> string \<Rightarrow> nat \<Rightarrow> bool" where
  "dials s uid l \<longleftrightarrow> l < length (gm_links s) \<and> ln_uid (gm_links s ! l) = uid \<and> ln_state (gm_links s ! l) = Dialing"

definition local_rest :: "candidates \<Rightarrow> bool" where
  "local_rest rest \<longleftrightarrow> list_all (\<lambda>(uid, host). local_host host) rest"

fun job_ok :: "manager \<Rightarrow> job \<Rightarrow> bool" where
  "job_ok s (Redial uid obj) \<longleftrightarrow> obj_for s uid obj \<and> link_down s obj"
| "job_ok s (Dial uid obj l allow) \<longleftrightarrow>
     obj_for s uid obj \<and> link_down s obj \<and> dials s uid l \<and> trusted s uid (ln_host (gm_links s ! l))"
| "job_ok s (Contend uid host obj rest) \<longleftrightarrow> obj_for s uid obj \<and> local_host host \<and> local_rest rest"
| "job_ok s (Try uid host obj l rest) \<longleftrightarrow>
     obj_for s uid obj \<and> dials s uid l \<and> ln_host (gm_links s ! l) = host \<and> local_rest rest"
| "job_ok s (Refuse uid e rest) \<longleftrightarrow> local_rest rest"
| "job_ok s (Reject uid rest) \<longleftrightarrow> local_rest rest"
| "job_ok s (Retire rest) \<longleftrightarrow> local_rest rest"
| "job_ok s (Detach uid obj) \<longleftrightarrow> obj_for s uid obj"
| "job_ok s _ \<longleftrightarrow> True"

definition object_ok :: "manager \<Rightarrow> gw_record \<Rightarrow> bool" where
  "object_ok s r \<longleftrightarrow> trusted s (gr_uid r) (gr_active r) \<and> (gr_uid r, gr_cloud r) \<in> gm_listed s \<and>
     (\<forall>l. gr_link r = Some l \<longrightarrow> l < length (gm_links s) \<and> ln_uid (gm_links s ! l) = gr_uid r
        \<and> ln_state (gm_links s ! l) \<noteq> Dialing \<and> trusted s (gr_uid r) (ln_host (gm_links s ! l)))"

definition link_ok :: "manager \<Rightarrow> link \<Rightarrow> bool" where
  "link_ok s c \<longleftrightarrow> local_host (ln_host c) \<and> (ln_pushes c \<longrightarrow> trusted s (ln_uid c) (ln_host c))"

definition base_ok :: "manager \<Rightarrow> bool" where
  "base_ok s \<longleftrightarrow>
     (\<forall>(uid, host) \<in> gm_listed s \<union> gm_logins s. local_host host) \<and>
     (\<forall>(uid, obj) \<in> set (gm_records s). obj_for s uid obj) \<and>
     (\<forall>r \<in> set (gm_objects s). object_ok s r) \<and>
     (\<forall>c \<in> set (gm_links s). link_ok s c)"

definition holds_link :: "manager \<Rightarrow> nat \<Rightarrow> bool" where
  "holds_link s l \<longleftrightarrow> (\<exists>r \<in> set (gm_objects s). gr_link r = Some l)"

definition owned :: "manager \<Rightarrow> bool" where
  "owned s \<longleftrightarrow> (\<forall>l < length (gm_links s). ln_state (gm_links s ! l) \<noteq> Down \<longrightarrow>
     holds_link s l \<or> (\<exists>j \<in> set (gm_jobs s). dialing_link j = Some l))"

definition closing_ok :: "manager \<Rightarrow> bool" where
  "closing_ok s \<longleftrightarrow> (gm_closed s \<longrightarrow> (\<forall>(uid, obj) \<in> set (gm_records s).
     gr_link (gm_objects s ! obj) = None \<or> {Detach uid obj, Abandoned uid obj} \<inter> set (gm_jobs s) \<noteq> {}))"

definition jobs_ok :: "nat option \<Rightarrow> manager \<Rightarrow> bool" where
  "jobs_ok except s \<longleftrightarrow> (\<forall>i < length (gm_jobs s). Some i \<noteq> except \<longrightarrow> job_ok s (gm_jobs s ! i))"

text \<open>The invariant while job \<open>i\<close> is between two awaits: what holds of the other jobs.\<close>

definition between :: "nat option \<Rightarrow> manager \<Rightarrow> bool" where
  "between except s \<longleftrightarrow> locks_ok s \<and> base_ok s \<and> owned s \<and> closing_ok s \<and> jobs_ok except s"

definition manager_inv :: "manager \<Rightarrow> bool" where
  "manager_inv s \<longleftrightarrow> between None s"

text \<open>What may change under a job that does not hold the lock \<open>u\<close>.\<close>

definition grows :: "string option \<Rightarrow> manager \<Rightarrow> manager \<Rightarrow> bool" where
  "grows u s t \<longleftrightarrow>
     length (gm_objects s) \<le> length (gm_objects t) \<and> length (gm_links s) \<le> length (gm_links t) \<and>
     gm_listed s \<subseteq> gm_listed t \<and> gm_logins s \<subseteq> gm_logins t \<and>
     (\<forall>obj < length (gm_objects s). gr_uid (gm_objects t ! obj) = gr_uid (gm_objects s ! obj) \<and>
        (Some (gr_uid (gm_objects s ! obj)) \<noteq> u \<longrightarrow> gr_link (gm_objects t ! obj) = gr_link (gm_objects s ! obj))) \<and>
     (\<forall>l < length (gm_links s). ln_uid (gm_links t ! l) = ln_uid (gm_links s ! l) \<and>
        ln_host (gm_links t ! l) = ln_host (gm_links s ! l) \<and>
        (ln_state (gm_links s ! l) = Down \<longrightarrow> ln_state (gm_links t ! l) = Down) \<and>
        (Some (ln_uid (gm_links s ! l)) \<noteq> u \<longrightarrow> ln_state (gm_links s ! l) = Dialing \<longrightarrow> ln_state (gm_links t ! l) = Dialing))"

lemma trusted_grows: "grows u s t \<Longrightarrow> trusted s uid host \<Longrightarrow> trusted t uid host"
  by (auto simp: grows_def trusted_def)

lemma obj_for_grows: "grows u s t \<Longrightarrow> obj_for s uid obj \<Longrightarrow> obj_for t uid obj"
  by (auto simp: grows_def obj_for_def)

lemma dials_grows: "grows u s t \<Longrightarrow> Some uid \<noteq> u \<Longrightarrow> dials s uid l \<Longrightarrow> dials t uid l"
  by (auto simp: grows_def dials_def)

lemma link_down_grows:
  assumes "grows u s t" "obj_for s uid obj" "Some uid \<noteq> u" "base_ok s" "link_down s obj"
  shows "link_down t obj"
proof -
  have o: "obj < length (gm_objects s)" "gr_uid (gm_objects s ! obj) = uid" using assms(2) by (auto simp: obj_for_def)
  then have "gr_link (gm_objects t ! obj) = gr_link (gm_objects s ! obj)" using assms(1,3) by (auto simp: grows_def)
  moreover have "l < length (gm_links s)" if "gr_link (gm_objects s ! obj) = Some l" for l
    using assms(4) o that by (auto simp: base_ok_def object_ok_def)
  ultimately show ?thesis using assms(1,5) by (auto simp: link_down_def grows_def)
qed

lemma job_ok_grows:
  assumes "grows u s t" "job_ok s j" "base_ok s" "waiting j \<or> lock_uid j \<noteq> u \<or> u = None"
  shows "job_ok t j"
  using assms trusted_grows [OF assms(1)] obj_for_grows [OF assms(1)] dials_grows [OF assms(1)]
    link_down_grows [OF assms(1) _ _ assms(3)]
  by (cases j) (auto simp: dials_def grows_def)


section \<open>How the small steps keep the invariant\<close>

lemma only_holder:
  assumes "locks_ok s" "at_turn i s" "k < length (gm_jobs s)" "k \<noteq> i"
    "lock_uid (gm_jobs s ! k) = Some uid" "lock_uid (gm_jobs s ! i) = Some uid"
  shows "waiting (gm_jobs s ! k)"
  using assms by (auto simp: locks_ok_def queues_ok_def at_turn_def)

text \<open>The job that has its turn, or the environment (\<open>None\<close>), may use the connections and records of \<open>u\<close>.\<close>

definition may_use :: "nat option \<Rightarrow> string option \<Rightarrow> manager \<Rightarrow> bool" where
  "may_use except u s \<longleftrightarrow>
     (case u of None \<Rightarrow> True
      | Some uid \<Rightarrow> (\<exists>i. except = Some i \<and> at_turn i s \<and> lock_uid (gm_jobs s ! i) = Some uid))"

lemma between_keep:
  assumes "between except s" "may_use except u s" "grows u s t"
    and same: "gm_jobs t = gm_jobs s" "gm_queues t = gm_queues s"
    and "base_ok t" "owned t" "closing_ok t"
  shows "between except t"
proof -
  have s: "locks_ok s" "base_ok s" "jobs_ok except s" using assms(1) by (auto simp: between_def)
  have "job_ok t (gm_jobs s ! k)" if "k < length (gm_jobs s)" "Some k \<noteq> except" for k
  proof (rule job_ok_grows [OF assms(3) _ s(2)])
    show "job_ok s (gm_jobs s ! k)" using s(3) that by (simp add: jobs_ok_def)
    show "waiting (gm_jobs s ! k) \<or> lock_uid (gm_jobs s ! k) \<noteq> u \<or> u = None"
    proof (cases u)
      case (Some uid)
      with assms(2) obtain i where i: "except = Some i" "at_turn i s" "lock_uid (gm_jobs s ! i) = Some uid"
        by (auto simp: may_use_def)
      show ?thesis using only_holder [OF s(1) i(2) that(1) _ _ i(3)] that(2) i(1) Some by blast
    qed simp
  qed
  with assms(6-8) s(1) show ?thesis by (simp add: between_def jobs_ok_def locks_ok_def same)
qed

lemma set_update_nth: "x \<in> set (xs[i := y]) \<Longrightarrow> x = y \<or> x \<in> set xs"
  by (meson set_update_subset_insert insertE subsetD)

text \<open>A change of one connection that leaves its endpoint alone.\<close>

lemma set_link_keeps:
  assumes b: "between except s" and l: "l < length (gm_links s)" and u: "may_use except u s"
    and same: "ln_uid c = ln_uid (gm_links s ! l)" "ln_host c = ln_host (gm_links s ! l)"
    and state: "ln_state (gm_links s ! l) = Down \<longrightarrow> ln_state c = Down" "ln_state c = Dialing \<longrightarrow> ln_state (gm_links s ! l) = Dialing"
    and who: "Some (ln_uid c) = u \<or> ln_state (gm_links s ! l) \<noteq> Dialing"
    and push: "ln_pushes c \<longrightarrow> ln_pushes (gm_links s ! l) \<or> trusted s (ln_uid c) (ln_host c)"
  shows "between except (set_link l c s)"
proof (rule between_keep [OF b u])
  have s: "base_ok s" "owned s" "closing_ok s" using b by (auto simp: between_def)
  show "grows u s (set_link l c s)"
    using same state who l by (auto simp: grows_def nth_list_update)
  have c: "link_ok s c"
    using s(1) nth_mem [OF l] push same by (auto simp: base_ok_def link_ok_def)
  have upd: "ln_uid ((gm_links s)[l := c] ! m) = ln_uid (gm_links s ! m)"
    "ln_host ((gm_links s)[l := c] ! m) = ln_host (gm_links s ! m)"
    "ln_state ((gm_links s)[l := c] ! m) = Dialing \<Longrightarrow> ln_state (gm_links s ! m) = Dialing"
    "ln_state (gm_links s ! m) = Down \<Longrightarrow> ln_state ((gm_links s)[l := c] ! m) = Down" for m
    using same state l by (cases "m = l"; simp)+
  have "object_ok (set_link l c s) r" if "r \<in> set (gm_objects s)" for r
  proof -
    have "object_ok s r" using s(1) that by (simp add: base_ok_def)
    with upd(3) show ?thesis by (auto simp: object_ok_def trusted_def upd(1,2))
  qed
  with s(1) c show "base_ok (set_link l c s)"
    by (auto simp: base_ok_def link_ok_def trusted_def obj_for_def dest!: set_update_nth)
  show "owned (set_link l c s)"
    using s(2) upd(4) by (auto simp: owned_def holds_link_def)
  show "closing_ok (set_link l c s)" using s(3) by (simp add: closing_ok_def)
qed simp_all

lemma shut_keeps:
  assumes "between except s" "l < length (gm_links s)" "may_use except u s"
    "Some (ln_uid (gm_links s ! l)) = u \<or> ln_state (gm_links s ! l) \<noteq> Dialing"
  shows "between except (shut l s)"
  unfolding shut_def using assms by (intro set_link_keeps) auto

lemma logins_keeps:
  assumes b: "between except s" and h: "local_host host"
  shows "between except (s\<lparr>gm_logins := insert (uid, host) (gm_logins s)\<rparr>)"
proof (rule between_keep [OF b, where u = None])
  let ?t = "s\<lparr>gm_logins := insert (uid, host) (gm_logins s)\<rparr>"
  have s: "base_ok s" "owned s" "closing_ok s" using b by (auto simp: between_def)
  show "may_use except None s" by (simp add: may_use_def)
  show "grows None s ?t" by (auto simp: grows_def)
  show "base_ok ?t" using s(1) h
    by (auto simp: base_ok_def object_ok_def link_ok_def trusted_def obj_for_def)
  show "owned ?t" using s(2) by (auto simp: owned_def holds_link_def)
  show "closing_ok ?t" using s(3) by (auto simp: closing_ok_def)
qed simp_all

lemma accept_login_keeps:
  assumes b: "between except s" and l: "l < length (gm_links s)" "ln_state (gm_links s ! l) = Dialing"
    and u: "may_use except (Some (ln_uid (gm_links s ! l))) s"
  shows "between except (accept_login l peer fate s)"
proof -
  let ?c = "gm_links s ! l"
  let ?s = "s\<lparr>gm_logins := (if peer = Some (ln_uid ?c) then insert (ln_uid ?c, ln_host ?c) (gm_logins s) else gm_logins s)\<rparr>"
  have "local_host (ln_host ?c)" using b nth_mem [OF l(1)] by (auto simp: between_def base_ok_def link_ok_def)
  then have 1: "between except ?s" using b by (auto intro: logins_keeps)
  have 2: "may_use except (Some (ln_uid ?c)) ?s" using u by (auto simp: may_use_def at_turn_def)
  show ?thesis
    unfolding accept_login_def Let_def
    by (rule set_link_keeps [OF 1 _ 2]) (use l in auto)
qed

lemma accept_login_links:
  "l < length (gm_links s) \<Longrightarrow> gm_links (accept_login l peer fate s) ! l =
     (gm_links s ! l)\<lparr>ln_state := (if fate = Alive then Ready (peer = Some (ln_uid (gm_links s ! l))) else Down)\<rparr>"
  "length (gm_links (accept_login l peer fate s)) = length (gm_links s)"
  by (simp_all add: accept_login_def Let_def)

lemma accept_login_trusts:
  "peer = Some (ln_uid (gm_links s ! l)) \<or> trusted s (ln_uid (gm_links s ! l)) (ln_host (gm_links s ! l)) \<Longrightarrow>
     trusted (accept_login l peer fate s) (ln_uid (gm_links s ! l)) (ln_host (gm_links s ! l))"
  by (auto simp: accept_login_def Let_def trusted_def)

text \<open>A change of one record: the connection it loses must be down.\<close>

lemma set_object_keeps:
  assumes b: "between except s" and o: "obj_for s uid obj" and u: "may_use except u s"
    and who: "u = Some uid \<or> gr_link r = gr_link (gm_objects s ! obj)" and r: "gr_uid r = uid" "object_ok s r"
    and loses: "gr_link r = gr_link (gm_objects s ! obj) \<or> link_down s obj"
    and gains: "gr_link r = gr_link (gm_objects s ! obj) \<or> \<not> gm_closed s \<or> gr_link r = None"
  shows "between except (set_object obj r s)"
proof (rule between_keep [OF b u])
  let ?t = "set_object obj r s"
  have s: "base_ok s" "owned s" "closing_ok s" using b by (auto simp: between_def)
  have obj: "obj < length (gm_objects s)" "gr_uid (gm_objects s ! obj) = uid" using o by (auto simp: obj_for_def)
  show "grows u s ?t" using obj r(1) who by (auto simp: grows_def nth_list_update)
  have ok: "object_ok ?t r' = object_ok s r'" "link_ok ?t c = link_ok s c" for r' c
    by (auto simp: object_ok_def link_ok_def trusted_def)
  have "obj_for ?t v p" if "obj_for s v p" for v p
    using that obj r(1) by (auto simp: obj_for_def nth_list_update)
  then show "base_ok ?t"
    using s(1) r(2) by (auto simp: base_ok_def ok dest!: set_update_nth)
  show "owned ?t"
    unfolding owned_def
  proof (intro allI impI)
    fix l assume l: "l < length (gm_links ?t)" "ln_state (gm_links ?t ! l) \<noteq> Down"
    have "holds_link ?t l" if "holds_link s l"
    proof -
      from that obtain p where p: "p < length (gm_objects s)" "gr_link (gm_objects s ! p) = Some l"
        by (auto simp: holds_link_def in_set_conv_nth)
      have "p = obj \<Longrightarrow> gr_link r = Some l" using loses p(2) l(2) by (auto simp: link_down_def)
      then have "gr_link (gm_objects ?t ! p) = Some l" using p by (cases "p = obj") simp_all
      moreover have "gm_objects ?t ! p \<in> set (gm_objects ?t)" by (rule nth_mem) (use p in simp)
      ultimately show ?thesis by (auto simp: holds_link_def)
    qed
    with s(2) l show "holds_link ?t l \<or> (\<exists>j \<in> set (gm_jobs ?t). dialing_link j = Some l)"
      by (auto simp: owned_def)
  qed
  show "closing_ok ?t"
    using s(3) gains obj by (fastforce simp: closing_ok_def nth_list_update)
qed simp_all


text \<open>What depends on objects and connections alone does not see jobs and queues.\<close>

lemma move_state [simp]:
  "obj_for (s\<lparr>gm_jobs := js, gm_queues := q\<rparr>) = obj_for s" "link_down (s\<lparr>gm_jobs := js, gm_queues := q\<rparr>) = link_down s"
  "dials (s\<lparr>gm_jobs := js, gm_queues := q\<rparr>) = dials s" "trusted (s\<lparr>gm_jobs := js, gm_queues := q\<rparr>) = trusted s"
  "object_ok (s\<lparr>gm_jobs := js, gm_queues := q\<rparr>) = object_ok s" "link_ok (s\<lparr>gm_jobs := js, gm_queues := q\<rparr>) = link_ok s"
  "base_ok (s\<lparr>gm_jobs := js, gm_queues := q\<rparr>) = base_ok s" "holds_link (s\<lparr>gm_jobs := js, gm_queues := q\<rparr>) = holds_link s"
  by (auto simp: fun_eq_iff obj_for_def link_down_def dials_def trusted_def object_ok_def link_ok_def
      base_ok_def holds_link_def)

lemma move_job_ok [simp]: "job_ok (s\<lparr>gm_jobs := js, gm_queues := q\<rparr>) j = job_ok s j"
  by (cases j) simp_all

lemma move_inv:
  assumes s: "base_ok s" "closing_ok s" "jobs_ok (Some i) s" and i: "i < length (gm_jobs s)"
    and t: "t = s\<lparr>gm_jobs := (gm_jobs s)[i := j], gm_queues := q\<rparr>" "locks_ok t" and j: "job_ok s j"
    and owned: "\<And>l. l < length (gm_links s) \<Longrightarrow> ln_state (gm_links s ! l) \<noteq> Down \<Longrightarrow>
       holds_link s l \<or> dialing_link j = Some l \<or> (\<exists>k < length (gm_jobs s). k \<noteq> i \<and> dialing_link (gm_jobs s ! k) = Some l)"
    and closing: "\<And>uid obj. gm_jobs s ! i = Detach uid obj \<or> gm_jobs s ! i = Abandoned uid obj \<Longrightarrow>
       j = Abandoned uid obj \<or> gr_link (gm_objects s ! obj) = None"
  shows "manager_inv t"
proof -
  have keep: "x \<in> set ((gm_jobs s)[i := j])" if "x \<in> set (gm_jobs s)" "x \<noteq> gm_jobs s ! i" for x
    using that by (metis in_set_conv_nth length_list_update nth_list_update_neq)
  have jin: "j \<in> set ((gm_jobs s)[i := j])" using i by (rule set_update_memI)
  have "jobs_ok None t"
    using s(3) j i by (simp add: t(1) jobs_ok_def nth_list_update)
  moreover have "owned t"
    unfolding owned_def
  proof (intro allI impI)
    fix l assume "l < length (gm_links t)" "ln_state (gm_links t ! l) \<noteq> Down"
    then have "holds_link s l \<or> dialing_link j = Some l \<or>
        (\<exists>k < length (gm_jobs s). k \<noteq> i \<and> dialing_link (gm_jobs s ! k) = Some l)"
      by (intro owned) (simp_all add: t(1))
    moreover have "gm_jobs s ! k \<in> set ((gm_jobs s)[i := j])" if "k < length (gm_jobs s)" "k \<noteq> i" for k
      using that by (metis length_list_update nth_list_update_neq nth_mem)
    ultimately show "holds_link t l \<or> (\<exists>j \<in> set (gm_jobs t). dialing_link j = Some l)"
      using jin by (auto simp: t(1))
  qed
  moreover have "closing_ok t"
  proof -
    have "gr_link (gm_objects t ! obj) = None"
      if c: "gm_closed t" "(uid, obj) \<in> set (gm_records t)"
        and no: "{Detach uid obj, Abandoned uid obj} \<inter> set (gm_jobs t) = {}" for uid obj
    proof (cases "{Detach uid obj, Abandoned uid obj} \<inter> set (gm_jobs s) = {}")
      case True
      with s(2) c show ?thesis by (auto simp: closing_ok_def t(1))
    next
      case False
      then obtain x where x: "x \<in> {Detach uid obj, Abandoned uid obj}" "x \<in> set (gm_jobs s)" by blast
      with no have "x \<notin> set ((gm_jobs s)[i := j])" by (auto simp: t(1))
      with keep x(2) have "x = gm_jobs s ! i" by blast
      with x(1) have "gm_jobs s ! i = Detach uid obj \<or> gm_jobs s ! i = Abandoned uid obj" by auto
      from closing [OF this] no jin show ?thesis by (auto simp: t(1))
    qed
    then show ?thesis unfolding closing_ok_def by blast
  qed
  ultimately show ?thesis using s(1) t by (simp add: manager_inv_def between_def)
qed

lemma leave_as: "leave i j s = s\<lparr>gm_jobs := (gm_jobs s)[i := j],
     gm_queues := enqueue i j (dequeue i (gm_jobs s ! i) (gm_queues s))\<rparr>"
  by (simp add: leave_def)

lemma stay_as: "stay i j s = s\<lparr>gm_jobs := (gm_jobs s)[i := j], gm_queues := gm_queues s\<rparr>"
  by (simp add: stay_def)

text \<open>The connection the job dialed, if any, must be down or belong to a record when the job moves on.\<close>

definition released :: "manager \<Rightarrow> nat \<Rightarrow> bool" where
  "released s i \<longleftrightarrow> (\<forall>l < length (gm_links s). dialing_link (gm_jobs s ! i) = Some l \<longrightarrow>
     holds_link s l \<or> ln_state (gm_links s ! l) = Down)"

lemma released_idle [simp]: "dialing_link (gm_jobs s ! i) = None \<Longrightarrow> released s i"
  by (simp add: released_def)

lemma released_owned:
  assumes "owned s" "released s i" "l < length (gm_links s)" "ln_state (gm_links s ! l) \<noteq> Down"
  shows "holds_link s l \<or> (\<exists>k < length (gm_jobs s). k \<noteq> i \<and> dialing_link (gm_jobs s ! k) = Some l)"
  using assms by (fastforce simp: owned_def released_def in_set_conv_nth)

definition not_closing :: "job \<Rightarrow> bool" where
  "not_closing j \<longleftrightarrow> (\<forall>uid obj. j \<noteq> Detach uid obj \<and> j \<noteq> Abandoned uid obj)"

lemma leave_inv:
  assumes "between (Some i) s" "i < length (gm_jobs s)" "job_ok s j" "waiting j \<or> lock_uid j = None" "released s i"
    "not_closing (gm_jobs s ! i)"
  shows "manager_inv (leave i j s)"
  using assms
  by (intro move_inv [OF _ _ _ _ leave_as])
    (auto simp: between_def leave_locks not_closing_def dest!: released_owned)

lemma stay_inv:
  assumes "between (Some i) s" "at_turn i s" "job_ok s j" "lock_uid j = lock_uid (gm_jobs s ! i)" "released s i"
    "not_closing (gm_jobs s ! i)"
  shows "manager_inv (stay i j s)"
  using assms
  by (intro move_inv [OF _ _ _ _ stay_as])
    (auto simp: between_def stay_locks not_closing_def at_turn_bound dest!: released_owned)

text \<open>A job starts to dial.\<close>

lemma new_link_inv:
  assumes b: "between (Some i) s" and i: "at_turn i s" "lock_uid (gm_jobs s ! i) = Some uid"
    and idle: "dialing_link (gm_jobs s ! i) = None" "not_closing (gm_jobs s ! i)"
    and host: "local_host host" "pushes \<longrightarrow> trusted s uid host"
    and j: "job_ok (new_link uid host pushes s) j" "lock_uid j = Some uid" "dialing_link j = Some (length (gm_links s))"
  shows "manager_inv (stay i j (new_link uid host pushes s))"
proof -
  let ?t = "new_link uid host pushes s"
  have s: "base_ok s" "owned s" "closing_ok s" "jobs_ok (Some i) s" "locks_ok s"
    using b by (auto simp: between_def)
  have g: "grows None s ?t" by (auto simp: grows_def new_link_def nth_append)
  have obj: "object_ok ?t r" if "object_ok s r" for r
    using that by (auto simp: object_ok_def new_link_def nth_append trusted_def)
  have lnk: "link_ok ?t c = link_ok s c" for c by (simp add: link_ok_def trusted_def)
  have "base_ok ?t"
    using s(1) obj host by (auto simp: base_ok_def lnk obj_for_def)
      (auto simp: new_link_def link_ok_def base_ok_def)
  moreover have "closing_ok ?t" using s(3) by (simp add: closing_ok_def)
  moreover have "jobs_ok (Some i) ?t"
    using s(4) job_ok_grows [OF g _ s(1)] by (auto simp: jobs_ok_def)
  moreover have "holds_link ?t l \<or> dialing_link j = Some l \<or>
      (\<exists>k < length (gm_jobs ?t). k \<noteq> i \<and> dialing_link (gm_jobs ?t ! k) = Some l)"
    if "l < length (gm_links ?t)" "ln_state (gm_links ?t ! l) \<noteq> Down" for l
  proof (cases "l = length (gm_links s)")
    case False
    with that have "l < length (gm_links s)" "ln_state (gm_links s ! l) \<noteq> Down"
      by (auto simp: new_link_def nth_append split: if_splits)
    from released_owned [OF s(2) released_idle [OF idle(1)] this] show ?thesis by (auto simp: holds_link_def)
  qed (use j(3) in simp)
  ultimately show ?thesis
    using i idle(2) j s(5)
    by (intro move_inv [OF _ _ _ _ stay_as]) (auto simp: not_closing_def at_turn_bound stay_locks)
qed


section \<open>How the turns keep the invariant\<close>

lemma between_state: "between except s \<Longrightarrow> locks_ok s \<and> base_ok s \<and> owned s"
  by (simp add: between_def)

lemma trusted_local: "base_ok s \<Longrightarrow> trusted s uid host \<Longrightarrow> local_host host"
  by (auto simp: base_ok_def trusted_def)

lemma record_of: "base_ok s \<Longrightarrow> obj_for s uid obj \<Longrightarrow> object_ok s (gm_objects s ! obj) \<and> gr_uid (gm_objects s ! obj) = uid"
  by (auto simp: base_ok_def obj_for_def)

lemma known_record: "base_ok s \<Longrightarrow> map_of (gm_records s) uid = Some obj \<Longrightarrow> obj_for s uid obj"
  by (auto simp: base_ok_def dest: map_of_SomeD)

lemma own_link:
  assumes "base_ok s" "obj_for s uid obj" "gr_link (gm_objects s ! obj) = Some l"
  shows "l < length (gm_links s)" "ln_uid (gm_links s ! l) = uid" "ln_state (gm_links s ! l) \<noteq> Dialing"
    "trusted s uid (ln_host (gm_links s ! l))"
  using record_of [OF assms(1,2)] assms(3) by (auto simp: object_ok_def)

text \<open>A turn of a job that dials nothing, and of one that stands in the queue of a lock.\<close>

definition turn_of :: "nat \<Rightarrow> manager \<Rightarrow> bool" where
  "turn_of i s \<longleftrightarrow> between (Some i) s \<and> at_turn i s \<and> not_closing (gm_jobs s ! i)"

definition idle_turn :: "nat \<Rightarrow> string \<Rightarrow> manager \<Rightarrow> bool" where
  "idle_turn i uid s \<longleftrightarrow> turn_of i s \<and> lock_uid (gm_jobs s ! i) = Some uid \<and> dialing_link (gm_jobs s ! i) = None"

lemma leave_turn:
  "turn_of i s \<Longrightarrow> released s i \<Longrightarrow> job_ok s j \<Longrightarrow> waiting j \<or> lock_uid j = None \<Longrightarrow> manager_inv (leave i j s)"
  by (auto simp: turn_of_def at_turn_bound intro: leave_inv)

lemma stay_turn:
  "turn_of i s \<Longrightarrow> released s i \<Longrightarrow> job_ok s j \<Longrightarrow> lock_uid j = lock_uid (gm_jobs s ! i) \<Longrightarrow> manager_inv (stay i j s)"
  by (auto simp: turn_of_def intro: stay_inv)

lemma shut_turn:
  assumes "turn_of i s" "l < length (gm_links s)"
    "Some (ln_uid (gm_links s ! l)) = lock_uid (gm_jobs s ! i) \<or> ln_state (gm_links s ! l) \<noteq> Dialing"
  shows "turn_of i (shut l s)"
proof -
  have "may_use (Some i) (lock_uid (gm_jobs s ! i)) s"
    using assms(1) by (auto simp: may_use_def turn_of_def split: option.split)
  from shut_keeps [OF _ assms(2) this assms(3)] assms(1) show ?thesis by (simp add: turn_of_def)
qed

lemma idle_shut:
  assumes "idle_turn i uid s" "obj_for s uid obj" "gr_link (gm_objects s ! obj) = Some l"
  shows "idle_turn i uid (shut l s)" "obj_for (shut l s) uid obj" "link_down (shut l s) obj"
  using assms own_link [OF _ assms(2,3)]
  by (auto simp: idle_turn_def turn_of_def shut_turn [unfolded turn_of_def] between_state obj_for_def link_down_def)

lemma dial_turn:
  assumes "idle_turn i uid s" "obj_for s uid obj" "link_down s obj"
  shows "manager_inv (dial i uid obj s)"
proof -
  let ?r = "gm_objects s ! obj"
  have t: "turn_of i s" "lock_uid (gm_jobs s ! i) = Some uid" "dialing_link (gm_jobs s ! i) = None"
    using assms(1) by (auto simp: idle_turn_def)
  then have base: "base_ok s" by (simp add: turn_of_def between_def)
  from record_of [OF base assms(2)] have trust: "trusted s uid (gr_active ?r)" by (auto simp: object_ok_def)
  have down: "link_down (new_link uid host pushes s) obj" for host pushes
    using assms(3) own_link(1) [OF base assms(2)] by (auto simp: link_down_def new_link_def nth_append)
  have "obj_for (new_link uid host pushes s) uid obj" "dials (new_link uid host pushes s) uid (length (gm_links s))"
    "trusted (new_link uid host pushes s) uid (ln_host (gm_links (new_link uid host pushes s) ! length (gm_links s)))
       = trusted s uid host" for host pushes
    using assms(2) by (auto simp: obj_for_def dials_def new_link_def trusted_def)
  then show ?thesis
    using t trust trusted_local [OF base trust] down
    by (auto simp: dial_def Let_def leave_turn turn_of_def intro!: new_link_inv)
qed

lemma reconnect_turn:
  assumes "idle_turn i uid s" "obj_for s uid obj"
  shows "manager_inv (reconnect_locked i uid obj failed s)"
proof (cases "gr_link (gm_objects s ! obj)")
  case None
  then show ?thesis
    using assms by (auto simp: reconnect_locked_def link_down_def idle_turn_def intro!: leave_turn dial_turn)
next
  case (Some l)
  note sh = idle_shut [OF assms Some]
  from sh have "manager_inv (stay i (Redial uid obj) (shut l s))"
    by (intro stay_turn) (auto simp: idle_turn_def)
  with Some assms(1) show ?thesis by (auto simp: reconnect_locked_def idle_turn_def intro!: leave_turn)
qed

lemma with_record_turn:
  assumes "idle_turn i uid s" "\<And>obj. obj_for s uid obj \<Longrightarrow> manager_inv (f obj s)"
  shows "manager_inv (with_record i uid f s)"
proof -
  have "base_ok s" using assms(1) by (auto simp: idle_turn_def turn_of_def between_def)
  with assms show ?thesis
    by (auto simp: with_record_def idle_turn_def intro!: leave_turn dest: known_record split: option.splits)
qed

lemma ensure_turn:
  assumes "idle_turn i uid s"
  shows "manager_inv (ensure i uid s)"
  unfolding ensure_def
proof (rule with_record_turn [OF assms])
  fix obj assume "obj_for s uid obj"
  then show "manager_inv (ensure_locked i uid obj s)"
    using assms reconnect_turn [OF assms]
    by (auto simp: ensure_locked_def idle_turn_def intro!: leave_turn split: option.splits)
qed

lemma reconnect_call_turn: "idle_turn i uid s \<Longrightarrow> manager_inv (reconnect i uid s)"
  unfolding reconnect_def by (rule with_record_turn) (auto intro: reconnect_turn)


lemma next_candidate_turn:
  "turn_of i s \<Longrightarrow> released s i \<Longrightarrow> local_rest cs \<Longrightarrow> manager_inv (next_candidate i cs s)"
proof (induction i cs s rule: next_candidate.induct)
  case (1 i s)
  then show ?case by (auto intro: leave_turn)
next
  case (2 i uid host rest s)
  then have "base_ok s" by (simp add: turn_of_def between_def)
  with 2 show ?case by (auto simp: local_rest_def intro!: leave_turn dest: known_record split: option.splits)
qed

lemma contend_turn:
  assumes "idle_turn i uid s" "job_ok s (Contend uid host obj rest)"
  shows "manager_inv (contend i uid host obj rest s)"
proof (cases "gm_closed s")
  case False
  have "job_ok (new_link uid host False s) (Try uid host obj (length (gm_links s)) rest)"
    using assms(2) by (auto simp: obj_for_def dials_def new_link_def)
  with False assms show ?thesis
    by (auto simp: contend_def idle_turn_def turn_of_def intro!: new_link_inv)
qed (use assms(1) in \<open>auto simp: contend_def idle_turn_def intro!: leave_turn\<close>)

text \<open>A handshake has succeeded.\<close>

definition dial_turn_of :: "nat \<Rightarrow> string \<Rightarrow> nat \<Rightarrow> manager \<Rightarrow> bool" where
  "dial_turn_of i uid l s \<longleftrightarrow>
     turn_of i s \<and> lock_uid (gm_jobs s ! i) = Some uid \<and> dialing_link (gm_jobs s ! i) = Some l \<and> dials s uid l"

lemma shut_dial:
  assumes "turn_of i s" "dialing_link (gm_jobs s ! i) = Some l" "l < length (gm_links s)"
    "lock_uid (gm_jobs s ! i) = Some (ln_uid (gm_links s ! l))"
  shows "turn_of i (shut l s)" "released (shut l s) i"
  using assms by (auto simp: released_def shut_turn)

lemma accept_turn:
  assumes "dial_turn_of i uid l s"
  shows "turn_of i (accept_login l peer fate s)"
  using assms accept_login_keeps [of "Some i" s l peer fate]
  by (auto simp: dial_turn_of_def turn_of_def dials_def may_use_def)

lemma accept_obj:
  assumes "dials s uid l"
  shows "obj_for s uid' obj \<Longrightarrow> obj_for (accept_login l peer fate s) uid' obj"
    and "link_down s obj \<Longrightarrow> link_down (accept_login l peer fate s) obj"
  using assms by (auto simp: obj_for_def link_down_def dials_def accept_login_def Let_def nth_list_update)

lemma take_link:
  assumes t: "turn_of i s" "lock_uid (gm_jobs s ! i) = Some uid" "dialing_link (gm_jobs s ! i) = Some l"
    and o: "obj_for s uid obj" "link_down s obj" "\<not> gm_closed s"
    and l: "l < length (gm_links s)" "ln_uid (gm_links s ! l) = uid" "ln_state (gm_links s ! l) \<noteq> Dialing"
    "trusted s uid (ln_host (gm_links s ! l))"
    and r: "gr_uid r = uid" "gr_link r = Some l" "trusted s uid (gr_active r)" "gr_cloud r = gr_cloud (gm_objects s ! obj)"
  shows "turn_of i (set_object obj r s)" "released (set_object obj r s) i"
proof -
  have b: "base_ok s" "between (Some i) s" using t(1) by (auto simp: turn_of_def between_def)
  have "object_ok s r" using record_of [OF b(1) o(1)] r l by (auto simp: object_ok_def)
  moreover have "may_use (Some i) (Some uid) s" using t by (auto simp: may_use_def turn_of_def)
  ultimately show "turn_of i (set_object obj r s)"
    using set_object_keeps [OF b(2) o(1), of "Some uid"] r(1) o(2,3) t(1) by (simp add: turn_of_def)
  have "r \<in> set (gm_objects (set_object obj r s))"
    using o(1) by (auto simp: obj_for_def intro: set_update_memI)
  then show "released (set_object obj r s) i" using t(3) r(2) by (auto simp: released_def holds_link_def)
qed

lemma dialed_turn:
  assumes "dial_turn_of i uid l s" "job_ok s (Dial uid obj l allow)"
  shows "manager_inv (dialed i uid obj l peer fate s)"
proof -
  let ?s = "accept_login l peer fate s"
  have d: "dials s uid l" "lock_uid (gm_jobs s ! i) = Some uid" "dialing_link (gm_jobs s ! i) = Some l"
    "turn_of i ?s" "trusted ?s uid (ln_host (gm_links s ! l))"
    using assms accept_turn [OF assms(1)] accept_login_trusts [of peer s l fate]
    by (auto simp: dial_turn_of_def dials_def)
  then have l: "l < length (gm_links s)" "ln_uid (gm_links s ! l) = uid" by (auto simp: dials_def)
  show ?thesis
  proof (cases "gm_closed s")
    case True
    then show ?thesis using d l shut_dial [OF d(4)]
      by (auto simp: dialed_def Let_def accept_login_links intro!: stay_turn)
  next
    case False
    have o: "obj_for ?s uid obj" "link_down ?s obj" using assms(2) accept_obj [OF d(1)] by auto
    have base: "base_ok ?s" using d(4) by (simp add: turn_of_def between_def)
    from record_of [OF base o(1)] take_link [OF d(4) _ _ o] False d l show ?thesis
      by (auto simp: dialed_def Let_def accept_login_links object_ok_def intro!: leave_turn)
  qed
qed

lemma promote_turn:
  assumes t: "turn_of i s" "lock_uid (gm_jobs s ! i) = Some uid" "dialing_link (gm_jobs s ! i) = Some l"
    and o: "obj_for s uid obj" "\<not> gm_closed s"
    and l: "l < length (gm_links s)" "ln_uid (gm_links s ! l) = uid" "ln_host (gm_links s ! l) = host"
      "ln_state (gm_links s ! l) \<noteq> Dialing" "trusted s uid host"
    and free: "gr_link (gm_objects s ! obj) \<noteq> Some l" and rest: "local_rest rest"
  shows "manager_inv (promote i host obj l rest s)"
proof -
  let ?r = "gm_objects s ! obj"
  let ?new = "?r\<lparr>gr_link := Some l, gr_active := host\<rparr>" and ?c = "(gm_links s ! l)\<lparr>ln_pushes := gm_callback s\<rparr>"
  have base: "base_ok s" using t(1) by (simp add: turn_of_def between_def)
  have uid: "gr_uid ?r = uid" using record_of [OF base o(1)] by simp
  have done1: "turn_of i (set_link l ?c (set_object obj ?new u))" "released (set_link l ?c (set_object obj ?new u)) i"
    if u: "turn_of i u" "gm_jobs u = gm_jobs s" "gm_objects u = gm_objects s" "gm_closed u = gm_closed s"
      "gm_links u ! l = gm_links s ! l" "length (gm_links u) = length (gm_links s)"
      "trusted u = trusted s" "link_down u obj" for u
  proof -
    have "obj_for u uid obj" using o(1) u(3) by (simp add: obj_for_def)
    from take_link [OF u(1) _ _ this u(8)] t o l u uid
    have 1: "turn_of i (set_object obj ?new u)" "released (set_object obj ?new u) i" by auto
    have "between (Some i) (set_link l ?c (set_object obj ?new u))"
      by (rule set_link_keeps [where u = None])
        (use 1(1) l u in \<open>auto simp: turn_of_def may_use_def trusted_def fun_eq_iff\<close>)
    with 1(1) show "turn_of i (set_link l ?c (set_object obj ?new u))" by (simp add: turn_of_def)
    show "released (set_link l ?c (set_object obj ?new u)) i"
      using 1(2) u(5) l(1,4) u(6) by (auto simp: released_def holds_link_def nth_list_update split: if_splits)
  qed
  show ?thesis
  proof (cases "gr_link ?r")
    case None
    then have "link_down s obj" by (simp add: link_down_def)
    with None done1 [of s] t(1) rest show ?thesis
      by (auto simp: promote_def Let_def intro!: next_candidate_turn)
  next
    case (Some p)
    note own = own_link [OF base o(1) Some]
    have "p \<noteq> l" using free Some by simp
    then have swap: "shut p (set_link l ?c (set_object obj ?new s)) = set_link l ?c (set_object obj ?new (shut p s))"
      by (simp add: shut_def set_link_def set_object_def list_update_swap)
    have "turn_of i (shut p s)" using shut_turn [OF t(1) own(1)] own(3) by blast
    moreover have "link_down (shut p s) obj" using Some own(1) by (simp add: link_down_def)
    ultimately show ?thesis
      using done1 [of "shut p s"] Some rest \<open>p \<noteq> l\<close>
      by (auto simp: promote_def Let_def swap trusted_def fun_eq_iff intro!: leave_turn)
  qed
qed

lemma tried_turn:
  assumes "dial_turn_of i uid l s" "job_ok s (Try uid host obj l rest)"
  shows "manager_inv (tried i uid host obj l rest peer fate s)"
proof -
  let ?s = "accept_login l peer fate s"
  have d: "dials s uid l" "lock_uid (gm_jobs s ! i) = Some uid" "dialing_link (gm_jobs s ! i) = Some l"
    "turn_of i ?s" using assms(1) accept_turn [OF assms(1)] by (auto simp: dial_turn_of_def)
  then have l: "l < length (gm_links s)" "ln_uid (gm_links s ! l) = uid" "ln_state (gm_links s ! l) = Dialing"
    by (auto simp: dials_def)
  have links: "length (gm_links ?s) = length (gm_links s)" "gm_links ?s ! l =
      (gm_links s ! l)\<lparr>ln_state := (if fate = Alive then Ready (peer = Some uid) else Down)\<rparr>"
    using l(1,2) by (simp_all add: accept_login_links)
  have out: "turn_of i (shut l ?s)" "released (shut l ?s) i" using shut_dial [OF d(4)] d l links by auto
  show ?thesis
  proof (cases "peer = Some uid \<and> fate \<noteq> Cut_Late \<and> \<not> gm_closed s")
    case False
    then show ?thesis using out d l assms(2) by (auto simp: tried_def Let_def intro!: stay_turn)
  next
    case True
    then have peer: "peer = Some uid" by simp
    have base: "base_ok s" using assms(1) by (simp add: dial_turn_of_def turn_of_def between_def)
    have "gr_link (gm_objects s ! obj) \<noteq> Some l"
      using own_link(3) [OF base] assms(2) l(3) by auto
    then show ?thesis
      using True peer d l assms(2) accept_login_trusts [of peer s l fate] accept_obj(1) [OF d(1)]
      by (auto simp: tried_def Let_def accept_login_links intro!: promote_turn split: if_splits)
  qed
qed


lemma drop_next_turn: "turn_of i s \<Longrightarrow> released s i \<Longrightarrow> manager_inv (drop_next i uids s)"
  by (auto simp: drop_next_def intro!: leave_turn)

lemma records_keeps:
  assumes b: "between except s" and rs: "set rs \<subseteq> set (gm_records s)"
  shows "between except (s\<lparr>gm_records := rs\<rparr>)"
proof (rule between_keep [OF b, where u = None])
  have s: "base_ok s" "owned s" "closing_ok s" using b by (auto simp: between_def)
  show "may_use except None s" by (simp add: may_use_def)
  show "grows None s (s\<lparr>gm_records := rs\<rparr>)" by (simp add: grows_def)
  show "base_ok (s\<lparr>gm_records := rs\<rparr>)" using s(1) rs
    by (auto simp: base_ok_def object_ok_def link_ok_def trusted_def obj_for_def dest!: subsetD)
  show "owned (s\<lparr>gm_records := rs\<rparr>)" using s(2) by (simp add: owned_def holds_link_def)
  show "closing_ok (s\<lparr>gm_records := rs\<rparr>)" using s(3) rs by (auto simp: closing_ok_def dest!: subsetD)
qed simp_all

lemma drop_turn:
  assumes t: "turn_of i s" "gm_jobs s ! i = Drop uids"
  shows "manager_inv (drop_record i uids s)"
proof (cases uids)
  case Nil
  with t show ?thesis by (auto intro!: leave_turn)
next
  case (Cons uid rest)
  let ?s = "s\<lparr>gm_records := AList.delete uid (gm_records s)\<rparr>"
  have b: "between (Some i) s" "base_ok s" using t(1) by (auto simp: turn_of_def between_def)
  have "between (Some i) ?s" using b(1) by (rule records_keeps) (auto simp: AList.delete_eq)
  then have s: "turn_of i ?s" "released ?s i" "lock_uid (gm_jobs ?s ! i) = Some uid"
    using t Cons by (auto simp: turn_of_def at_turn_def)
  show ?thesis
  proof (cases "map_of (gm_records s) uid")
    case None
    with Cons s show ?thesis by (simp add: drop_next_turn)
  next
    case (Some obj)
    note o = known_record [OF b(2) Some]
    have "turn_of i (shut l ?s)" if "gr_link (gm_objects s ! obj) = Some l" for l
      using shut_turn [OF s(1), of l] own_link [OF b(2) o that] by auto
    with Cons Some s t(2) show ?thesis
      by (auto simp: Let_def drop_next_turn intro!: leave_turn split: option.split)
  qed
qed

lemma shut_set_object: "shut l (set_object obj r s) = set_object obj r (shut l s)"
  by (cases s) (simp add: shut_def set_link_def set_object_def)

text \<open>Only \<^verbatim>\<open>close\<close> detaches; the job it leaves behind must have emptied its record.\<close>

lemma detach_turn:
  assumes b: "between (Some i) s" and i: "at_turn i s" "gm_jobs s ! i = Detach uid obj" and o: "obj_for s uid obj"
  shows "manager_inv (detach i obj s)"
proof -
  let ?r = "(gm_objects s ! obj)\<lparr>gr_link := None\<rparr>"
  have base: "base_ok s" using b by (simp add: between_def)
  have use: "may_use (Some i) (Some uid) s" using i by (simp add: may_use_def)
  have empty: "between (Some i) (set_object obj ?r u)"
    if u: "between (Some i) u" "gm_objects u = gm_objects s" "link_down u obj" "may_use (Some i) (Some uid) u" for u
  proof (rule set_object_keeps [OF u(1) _ u(4)])
    show ou: "obj_for u uid obj" using o u(2) by (simp add: obj_for_def)
    have "base_ok u" using u(1) by (simp add: between_def)
    from record_of [OF this ou] show "object_ok u ?r" by (auto simp: object_ok_def u(2))
    show "gr_uid ?r = uid" using record_of [OF base o] by simp
  qed (use u(3) in auto)
  have leave: "manager_inv (leave i j (set_object obj ?r u))"
    if u: "between (Some i) (set_object obj ?r u)" "gm_jobs u = gm_jobs s" "gm_objects u = gm_objects s"
      and j: "j = Ended \<or> j = Detached" for u j
    using u j i o
    by (intro move_inv [OF _ _ _ _ leave_as])
      (auto simp: between_def leave_locks at_turn_bound obj_for_def dest!: released_owned [OF _ released_idle])
  show ?thesis
  proof (cases "gr_link (gm_objects s ! obj)")
    case None
    then have "between (Some i) (set_object obj ?r s)" using b use by (intro empty) (auto simp: link_down_def)
    with None show ?thesis by (auto simp: detach_def Let_def intro!: leave)
  next
    case (Some l)
    note own = own_link [OF base o Some]
    have "between (Some i) (shut l s)" using shut_keeps [OF b own(1) use] own(2) by simp
    then have "between (Some i) (set_object obj ?r (shut l s))"
      using Some own(1) use by (intro empty) (auto simp: link_down_def may_use_def)
    then have "manager_inv (leave i Detached (set_object obj ?r (shut l s)))" by (intro leave) auto
    moreover have "detach i obj s = leave i Detached (set_object obj ?r (shut l s))"
      by (simp add: detach_def Let_def Some shut_set_object)
    ultimately show ?thesis by simp
  qed
qed

lemma inv_turn:
  assumes "manager_inv s" "i < length (gm_jobs s)"
  shows "between (Some i) s" "job_ok s (gm_jobs s ! i)"
  using assms by (auto simp: manager_inv_def between_def jobs_ok_def)

lemma resume_inv:
  assumes r: "resume i (gm_jobs s ! i) r s = Some t" and s: "manager_inv s" and i: "at_turn i s"
  shows "manager_inv t"
proof -
  note b = inv_turn [OF s at_turn_bound [OF i]]
  have turn: "turn_of i s" if "not_closing (gm_jobs s ! i)" using b(1) i that by (simp add: turn_of_def)
  have idle: "idle_turn i uid s" if "lock_uid (gm_jobs s ! i) = Some uid" "dialing_link (gm_jobs s ! i) = None"
      "not_closing (gm_jobs s ! i)" for uid
    using turn that by (simp add: idle_turn_def)
  show ?thesis
  proof (cases "gm_jobs s ! i")
    case (Detach uid obj)
    with r b i show ?thesis by (auto intro: detach_turn)
  next
    case (Dial uid obj l allow)
    then have "dial_turn_of i uid l s" using b(2) turn by (auto simp: dial_turn_of_def not_closing_def)
    with r b(2) Dial shut_dial [of i s l] show ?thesis
      by (auto simp: dials_def dial_turn_of_def dest: dialed_turn [OF \<open>dial_turn_of i uid l s\<close>]
          intro!: stay_turn dialed_turn split: reply.splits if_splits)
  next
    case (Try uid host obj l rest)
    then have "dial_turn_of i uid l s" using b(2) turn by (auto simp: dial_turn_of_def not_closing_def)
    with r b(2) Try shut_dial [of i s l] show ?thesis
      by (auto simp: dials_def dial_turn_of_def intro!: stay_turn tried_turn split: reply.splits if_splits)
  next
    case (Search known)
    with r b(2) turn show ?thesis
      by (auto simp: searched_def not_closing_def proper_candidates_def local_rest_def list_all_iff
          intro!: leave_turn next_candidate_turn split: reply.splits if_splits)
  qed (use r b(2) turn idle in \<open>auto simp: not_closing_def refused_def
      intro!: ensure_turn reconnect_call_turn dial_turn leave_turn next_candidate_turn contend_turn drop_turn drop_next_turn\<close>)
qed


lemma cancel_inv:
  assumes c: "cancel i (gm_jobs s ! i) s = Some t" and s: "manager_inv s" and i: "i < length (gm_jobs s)"
  shows "manager_inv t"
proof -
  note b = inv_turn [OF s i]
  have hold: "turn_of i s" if "\<not> waiting (gm_jobs s ! i)" "not_closing (gm_jobs s ! i)"
    using b(1) that holder_at_turn [OF _ i] by (simp add: turn_of_def between_def)
  show ?thesis
  proof (cases "gm_jobs s ! i")
    case (Detach uid obj)
    have "manager_inv (leave i (Abandoned uid obj) s)"
      using b i Detach
      by (intro move_inv [OF _ _ _ _ leave_as])
        (auto simp: between_def leave_locks dest!: released_owned [OF _ released_idle])
    with c Detach show ?thesis by simp
  next
    case (Dial uid obj l allow)
    then have "turn_of i s" using hold by (simp add: not_closing_def)
    with Dial b(2) c shut_dial [of i s l] show ?thesis by (auto simp: dials_def intro!: stay_turn)
  next
    case (Try uid host obj l rest)
    then have "turn_of i s" using hold by (simp add: not_closing_def)
    with Try b(2) c shut_dial [of i s l] show ?thesis by (auto simp: dials_def intro!: stay_turn)
  qed (use b i c in \<open>auto simp: not_closing_def intro!: leave_inv\<close>)
qed

section \<open>Calls and events\<close>

lemma listed_keeps:
  assumes b: "between except s" and h: "local_host host"
  shows "between except (s\<lparr>gm_listed := insert (uid, host) (gm_listed s)\<rparr>)"
proof (rule between_keep [OF b, where u = None])
  let ?t = "s\<lparr>gm_listed := insert (uid, host) (gm_listed s)\<rparr>"
  have s: "base_ok s" "owned s" "closing_ok s" using b by (auto simp: between_def)
  show "may_use except None s" by (simp add: may_use_def)
  show "grows None s ?t" by (auto simp: grows_def)
  show "base_ok ?t" using s(1) h
    by (auto simp: base_ok_def object_ok_def link_ok_def trusted_def obj_for_def)
  show "owned ?t" using s(2) by (auto simp: owned_def holds_link_def)
  show "closing_ok ?t" using s(3) by (auto simp: closing_ok_def)
qed simp_all

lemma new_object_keeps:
  assumes b: "between except s" and r: "gr_uid r = uid" "gr_link r = None" "object_ok s r"
  shows "between except (s\<lparr>gm_objects := gm_objects s @ [r],
    gm_records := AList.update uid (length (gm_objects s)) (gm_records s)\<rparr>)" (is "between except ?t")
proof (rule between_keep [OF b, where u = None])
  have s: "base_ok s" "owned s" "closing_ok s" using b by (auto simp: between_def)
  have ok: "object_ok ?t r' = object_ok s r'" "link_ok ?t c = link_ok s c" for r' c
    by (auto simp: object_ok_def link_ok_def trusted_def)
  have recs: "x \<in> set (AList.update k v al) \<Longrightarrow> x = (k, v) \<or> x \<in> set al" for x k v and al :: "(string \<times> nat) list"
    by (induction al) (auto split: if_splits)
  have objs: "obj_for s v p \<Longrightarrow> obj_for ?t v p" "obj_for ?t uid (length (gm_objects s))" for v p
    using r(1) by (auto simp: obj_for_def nth_append)
  show "may_use except None s" by (simp add: may_use_def)
  show "grows None s ?t" by (auto simp: grows_def nth_append)
  show "base_ok ?t" using s(1) r(3) objs by (auto simp: base_ok_def ok dest!: recs)
  show "owned ?t" using s(2) by (fastforce simp: owned_def holds_link_def)
  show "closing_ok ?t"
    using s(1,3) r(2) by (fastforce simp: closing_ok_def base_ok_def obj_for_def nth_append dest!: recs)
qed simp_all

lemma list_gateway_keeps:
  assumes b: "between None s"
  shows "between None (list_gateway entry s)"
proof -
  obtain uid raw where e: "entry = (uid, raw)" by fastforce
  show ?thesis
  proof (cases "private_host raw = None \<or> uid = []")
    case False
    then obtain host where h: "private_host raw = Some host" "uid \<noteq> []" by auto
    let ?s = "s\<lparr>gm_listed := insert (uid, host) (gm_listed s)\<rparr>"
    have 1: "between None ?s" using listed_keeps [OF b private_host_local [OF h(1)]] .
    have trust: "trusted ?s uid host" by (simp add: trusted_def)
    show ?thesis
    proof (cases "map_of (gm_records s) uid")
      case None
      with 1 e h trust show ?thesis
        using new_object_keeps [OF 1, of "\<lparr>gr_uid = uid, gr_cloud = host, gr_active = host, gr_link = None\<rparr>"]
        by (simp add: list_gateway_def object_ok_def)
    next
      case (Some obj)
      have base: "base_ok ?s" using 1 by (simp add: between_def)
      have o: "obj_for ?s uid obj" using known_record [OF base] Some by simp
      let ?r = "gm_objects s ! obj"
      let ?new = "?r\<lparr>gr_cloud := host, gr_active := (if gr_active ?r = gr_cloud ?r then host else gr_active ?r)\<rparr>"
      have "between None (set_object obj ?new ?s)"
        using record_of [OF base o] trust
        by (intro set_object_keeps [OF 1 o, where u = None]) (auto simp: may_use_def object_ok_def)
      with Some e h show ?thesis by (simp add: list_gateway_def Let_def)
    qed
  qed (use b e in \<open>auto simp: list_gateway_def split: option.split\<close>)
qed

lemma update_inv: "manager_inv s \<Longrightarrow> manager_inv (update_cloud_gateways entries s)"
  unfolding manager_inv_def update_cloud_gateways_def
  by (induction entries arbitrary: s) (simp_all add: list_gateway_keeps)

lemma spawn_base:
  assumes "base_ok s" "owned s" "jobs_ok None s" "locks_ok s" "job_ok s j" "waiting j \<or> lock_uid j = None"
  shows "base_ok (spawn j s)" "owned (spawn j s)" "jobs_ok None (spawn j s)" "locks_ok (spawn j s)"
proof -
  have as: "spawn j s = s\<lparr>gm_jobs := gm_jobs s @ [j], gm_queues := enqueue (length (gm_jobs s)) j (gm_queues s)\<rparr>"
    by (simp add: spawn_def)
  show "base_ok (spawn j s)" using assms(1) by (simp add: as)
  show "owned (spawn j s)" using assms(2) by (auto simp: as owned_def)
  show "jobs_ok None (spawn j s)" using assms(3,5) by (auto simp: as jobs_ok_def nth_append less_Suc_eq)
  show "locks_ok (spawn j s)" using assms(4,6) by (rule spawn_locks)
qed

lemma spawn_inv:
  assumes "manager_inv s" "job_ok s j" "waiting j \<or> lock_uid j = None"
  shows "manager_inv (spawn j s)"
  using assms spawn_base [of s j] by (auto simp: manager_inv_def between_def closing_ok_def)

lemma close_jobs:
  assumes s: "base_ok s" "owned s" "jobs_ok None s" "locks_ok s" and rs: "\<forall>(uid, obj) \<in> set rs. obj_for s uid obj"
  defines "t \<equiv> fold (\<lambda>(uid, obj). spawn (Detach uid obj)) rs s"
  shows "base_ok t \<and> owned t \<and> jobs_ok None t \<and> locks_ok t \<and> gm_records t = gm_records s
    \<and> set (gm_jobs t) = set (gm_jobs s) \<union> (\<lambda>(uid, obj). Detach uid obj) ` set rs"
  using s rs unfolding t_def
proof (induction rs arbitrary: s)
  case (Cons r rs)
  obtain uid obj where r: "r = (uid, obj)" by fastforce
  with Cons.prems have "job_ok s (Detach uid obj)" by simp
  note sp = spawn_base [OF Cons.prems(1-4) this]
  have "\<forall>x \<in> set rs. case x of (v, p) \<Rightarrow> obj_for (spawn (Detach uid obj) s) v p"
    using Cons.prems(5) by (auto simp: obj_for_def)
  from Cons.IH [OF sp this] show ?case by (simp add: r)
qed simp

lemma call_inv:
  assumes "begin_call c s = Some t" "manager_inv s"
  shows "manager_inv t"
proof (cases c)
  case Call_Close
  let ?s = "s\<lparr>gm_closed := True\<rparr>"
  have b: "base_ok s" "owned s" "jobs_ok None s" "locks_ok s"
    using assms(2) by (auto simp: manager_inv_def between_def)
  have eqs: "obj_for ?s = obj_for s" "link_down ?s = link_down s" "dials ?s = dials s" "trusted ?s = trusted s"
    "object_ok ?s = object_ok s" "link_ok ?s = link_ok s" "holds_link ?s = holds_link s"
    by (auto simp: fun_eq_iff obj_for_def link_down_def dials_def trusted_def object_ok_def link_ok_def holds_link_def)
  have jobs: "job_ok ?s j = job_ok s j" for j by (cases j) (simp_all add: eqs)
  have "base_ok ?s" "owned ?s" "jobs_ok None ?s" "locks_ok ?s"
    using b by (auto simp: base_ok_def owned_def jobs_ok_def eqs jobs)
  moreover have "\<forall>(uid, obj) \<in> set (gm_records s). obj_for ?s uid obj" using b(1) by (simp add: base_ok_def eqs)
  ultimately have "base_ok t \<and> owned t \<and> jobs_ok None t \<and> locks_ok t \<and> gm_records t = gm_records s
      \<and> set (gm_jobs t) = set (gm_jobs s) \<union> (\<lambda>(uid, obj). Detach uid obj) ` set (gm_records s)"
    using close_jobs [of ?s "gm_records s"] assms(1) Call_Close by auto
  moreover from this have "closing_ok t" by (auto simp: closing_ok_def)
  ultimately show ?thesis by (simp add: manager_inv_def between_def)
qed (use assms in \<open>auto simp: start_def Let_def intro!: spawn_inv update_inv split: if_splits\<close>)

lemma handle_inv:
  assumes "handle e s = Some t" "manager_inv s"
  shows "manager_inv t"
proof (cases e)
  case (Lost l)
  with assms have "l < length (gm_links s)" "ln_state (gm_links s ! l) \<noteq> Dialing" "t = shut l s"
    by (auto simp: handle_def link_connected_def split: if_splits link_state.splits)
  with assms(2) show ?thesis
    using shut_keeps [of None s l None] by (simp add: manager_inv_def may_use_def)
next
  case (Turn i r)
  with assms have "locks_ok s" by (simp add: manager_inv_def between_def)
  with Turn assms show ?thesis
    by (auto simp: handle_def intro: resume_inv may_resume_at_turn split: if_splits)
qed (use assms in \<open>auto simp: handle_def intro: call_inv cancel_inv split: if_splits\<close>)

lemma new_manager_inv: "manager_inv (new_manager callback gateways)"
  unfolding new_manager_def
  by (rule update_inv) (simp add: manager_inv_def between_def locks_ok_def queues_ok_def base_ok_def owned_def
      closing_ok_def jobs_ok_def)

interpretation gm: state_machine "new_manager callback gateways" manager_step manager_inv
  by unfold_locales (auto intro: new_manager_inv handle_inv elim!: manager_stepE)


section \<open>Properties\<close>

lemma dialing_job:
  assumes "manager_inv s" "l < length (gm_links s)" "ln_state (gm_links s ! l) = Dialing"
  shows "\<exists>i < length (gm_jobs s). dialing_link (gm_jobs s ! i) = Some l
    \<and> lock_uid (gm_jobs s ! i) = Some (ln_uid (gm_links s ! l)) \<and> \<not> waiting (gm_jobs s ! i)"
proof -
  have s: "base_ok s" "owned s" "jobs_ok None s" using assms(1) by (auto simp: manager_inv_def between_def)
  have "\<not> holds_link s l" using s(1) assms(3) by (auto simp: holds_link_def base_ok_def object_ok_def)
  with s(2) assms(2,3) obtain j where j: "j \<in> set (gm_jobs s)" "dialing_link j = Some l"
    by (auto simp: owned_def)
  then obtain i where i: "i < length (gm_jobs s)" "gm_jobs s ! i = j" by (auto simp: in_set_conv_nth)
  then have "job_ok s j" using s(3) by (auto simp: jobs_ok_def)
  with i j show ?thesis by (cases j) (auto simp: dials_def)
qed

text \<open>C18. A gateway is dialed once at a time: in every reachable state two connections of the same UID whose
  handshake is under way are the same connection, however calls, searches, updates, losses and
  cancellations interleave.\<close>

theorem one_dial_per_gateway:
  assumes "manager_step\<^sup>*\<^sup>* (new_manager callback gateways) s"
    and "l < length (gm_links s)" "ln_state (gm_links s ! l) = Dialing"
    and "m < length (gm_links s)" "ln_state (gm_links s ! m) = Dialing"
    and "ln_uid (gm_links s ! l) = ln_uid (gm_links s ! m)"
  shows "l = m"
proof -
  have inv: "manager_inv s" using gm.reachable_inv assms(1) .
  obtain i k where ik: "i < length (gm_jobs s)" "dialing_link (gm_jobs s ! i) = Some l"
      "lock_uid (gm_jobs s ! i) = Some (ln_uid (gm_links s ! l))" "\<not> waiting (gm_jobs s ! i)"
      "k < length (gm_jobs s)" "dialing_link (gm_jobs s ! k) = Some m"
      "lock_uid (gm_jobs s ! k) = Some (ln_uid (gm_links s ! l))" "\<not> waiting (gm_jobs s ! k)"
    using dialing_job [OF inv assms(2,3)] dialing_job [OF inv assms(4,5)] assms(6) by auto
  have locks: "locks_ok s" using inv by (simp add: manager_inv_def between_def)
  have "i = k" using only_holder [OF locks holder_at_turn [OF locks ik(1,4)] ik(5) _ ik(7,3)] ik(8) by blast
  with ik show ?thesis by simp
qed

text \<open>C16. Connections lead to trusted gateways only: in every reachable state each connection goes to a host in a
  private network, pushed messages are accepted only from endpoints that the cloud has listed for the UID or
  whose login confirmed it, and the same holds of the endpoint and of the connection of every managed
  record. What a datagram claims is never enough.\<close>

theorem gateways_stay_trusted:
  assumes "manager_step\<^sup>*\<^sup>* (new_manager callback gateways) s"
  shows "(\<forall>c \<in> set (gm_links s). local_host (ln_host c)
      \<and> (ln_pushes c \<longrightarrow> (ln_uid c, ln_host c) \<in> gm_listed s \<union> gm_logins s)) \<and>
    (\<forall>(uid, host) \<in> set (gateway_hosts s). local_host host \<and> (uid, host) \<in> gm_listed s \<union> gm_logins s) \<and>
    (\<forall>(uid, obj) \<in> set (gm_records s). \<forall>l. gr_link (gm_objects s ! obj) = Some l \<longrightarrow>
      ln_uid (gm_links s ! l) = uid \<and> (uid, ln_host (gm_links s ! l)) \<in> gm_listed s \<union> gm_logins s)"
proof -
  have base: "base_ok s" using gm.reachable_inv [OF assms] by (simp add: manager_inv_def between_def)
  have rec: "trusted s uid (gr_active (gm_objects s ! obj)) \<and> (\<forall>l. gr_link (gm_objects s ! obj) = Some l \<longrightarrow>
      ln_uid (gm_links s ! l) = uid \<and> trusted s uid (ln_host (gm_links s ! l)))"
    if "(uid, obj) \<in> set (gm_records s)" for uid obj
  proof -
    from that base have "obj_for s uid obj" by (auto simp: base_ok_def)
    from record_of [OF base this] show ?thesis by (auto simp: object_ok_def)
  qed
  have "\<forall>c \<in> set (gm_links s). local_host (ln_host c) \<and> (ln_pushes c \<longrightarrow> trusted s (ln_uid c) (ln_host c))"
    using base by (simp add: base_ok_def link_ok_def)
  moreover have "\<forall>(uid, host) \<in> set (gateway_hosts s). local_host host \<and> trusted s uid host"
    using rec trusted_local [OF base] by (fastforce simp: gateway_hosts_def)
  moreover have "\<forall>(uid, obj) \<in> set (gm_records s). \<forall>l. gr_link (gm_objects s ! obj) = Some l \<longrightarrow>
      ln_uid (gm_links s ! l) = uid \<and> trusted s uid (ln_host (gm_links s ! l))"
    using rec by blast
  ultimately show ?thesis unfolding trusted_def by (intro conjI)
qed

text \<open>\<^verbatim>\<open>close\<close> closes every managed connection: once the manager is closed and all its jobs have come to an
  end, none of them abandoned, a connection that is still open belongs to the record of a gateway that
  had been dropped before; no managed record has one.\<close>

lemma closed_manager_leaves_only_dropped:
  assumes "manager_step\<^sup>*\<^sup>* (new_manager callback gateways) s" "gm_closed s"
    and "\<forall>j \<in> set (gm_jobs s). finished j \<and> (\<forall>uid obj. j \<noteq> Abandoned uid obj)"
    and "l < length (gm_links s)" "ln_state (gm_links s ! l) \<noteq> Down"
  shows "(\<exists>obj < length (gm_objects s). gr_link (gm_objects s ! obj) = Some l)
    \<and> (\<forall>(uid, obj) \<in> set (gm_records s). gr_link (gm_objects s ! obj) = None)"
proof
  have inv: "base_ok s" "owned s" "closing_ok s"
    using gm.reachable_inv [OF assms(1)] by (auto simp: manager_inv_def between_def)
  have "dialing_link j = None" if "finished j" for j using that by (cases j) auto
  with assms(3) inv(2) assms(4,5) have "holds_link s l" by (fastforce simp: owned_def)
  then show "\<exists>obj < length (gm_objects s). gr_link (gm_objects s ! obj) = Some l"
    by (auto simp: holds_link_def in_set_conv_nth)
  show "\<forall>(uid, obj) \<in> set (gm_records s). gr_link (gm_objects s ! obj) = None"
    using inv(3) assms(2,3) by (fastforce simp: closing_ok_def)
qed

lemma resume_enabled: "\<not> finished j \<Longrightarrow> \<exists>r t. resume i j r s = Some t"
proof (cases j)
  case (Search known)
  have "resume i j (Found []) s = Some (searched i [] s)" using Search by (simp add: proper_candidates_def)
  then show ?thesis by blast
next
  case (Dial uid obj l allow)
  then have "resume i j (Fault Task_Cancelled) s = Some (stay i (Leave uid Task_Cancelled) (shut l s))" by simp
  then show ?thesis by blast
next
  case (Try uid host obj l rest)
  then have "resume i j (Fault Task_Cancelled) s = Some (stay i (Refuse uid Task_Cancelled rest) (shut l s))" by simp
  then show ?thesis by blast
qed auto

text \<open>C19. The locks never deadlock: in every reachable state in which some job has not come to its end, some such job
  can be resumed, whoever waits for which lock.\<close>

theorem manager_never_stuck:
  assumes "manager_step\<^sup>*\<^sup>* (new_manager callback gateways) s"
    and "k < length (gm_jobs s)" "\<not> finished (gm_jobs s ! k)"
  shows "\<exists>i r t. i < length (gm_jobs s) \<and> \<not> finished (gm_jobs s ! i) \<and> handle (Turn i r) s = Some t"
proof -
  have locks: "locks_ok s" using gm.reachable_inv [OF assms(1)] by (simp add: manager_inv_def between_def)
  have run: "\<exists>r t. handle (Turn i r) s = Some t"
    if "i < length (gm_jobs s)" "\<not> finished (gm_jobs s ! i)" "may_resume i s" for i
    using resume_enabled [OF that(2)] that by (auto simp: handle_def)
  show ?thesis
  proof (cases "may_resume k s")
    case False
    then obtain uid where uid: "lock_uid (gm_jobs s ! k) = Some uid" by (auto simp: may_resume_def split: option.splits)
    have mem: "set (gm_queues s uid) = {i. i < length (gm_jobs s) \<and> lock_uid (gm_jobs s ! i) = Some uid}"
      using locks unfolding locks_ok_def queues_ok_def by blast
    then have "k \<in> set (gm_queues s uid)" using uid assms(2) by simp
    then have ne: "gm_queues s uid \<noteq> []" by auto
    define i where "i = hd (gm_queues s uid)"
    have "i \<in> set (gm_queues s uid)" using ne by (simp add: i_def)
    then have i: "i < length (gm_jobs s)" "lock_uid (gm_jobs s ! i) = Some uid" unfolding mem by auto
    then have "\<not> finished (gm_jobs s ! i)" by (cases "gm_jobs s ! i") auto
    moreover have "may_resume i s" using i ne by (simp add: may_resume_def i_def)
    ultimately show ?thesis using run i(1) by blast
  qed (use run assms(2,3) in blast)
qed

section \<open>Runs\<close>

definition sample_manager :: manager where
  "sample_manager = new_manager True [(''gw'', ''192.168.1.2'')]"

text \<open>
  A gateway is dialed while the cloud stops listing it and a search finds it elsewhere: the drop queues
  for the lock first, then the search, which has fetched the record by then.
\<close>

definition stale_search :: "event list" where
  "stale_search =
     [Call (Call_Ensure ''gw''), Turn 0 Go, Call Call_Discover, Call (Call_Reconcile [] [''gw'']),
      Turn 1 (Found [(''gw'', ''192.168.1.9'')]), Turn 0 (Answer (Some ''gw'') Alive), Turn 2 Go, Turn 2 Go,
      Turn 1 Go, Turn 1 (Answer (Some ''gw'') Alive), Turn 1 Go, Call Call_Close]"

definition run_of :: "event list \<Rightarrow> manager" where
  "run_of es = (case run_events es sample_manager of Some s \<Rightarrow> s | None \<Rightarrow> sample_manager)"

lemma run_reaches: "run_events es sample_manager \<noteq> None \<Longrightarrow> manager_step\<^sup>*\<^sup>* sample_manager (run_of es)"
  by (auto simp: run_of_def dest: run_events_steps)


text \<open>A search that waits for a lock revives a dropped gateway: \<^verbatim>\<open>discover\<close> fetches the record before it acquires
  the lock, so that a drop which comes first leaves it with a record nobody manages. There is a reachable state
  with the manager closed, all jobs returned or ended, and the connection of the dropped gateway still
  open and accepting pushed messages; nothing will ever close it.\<close>

lemma stale_search_leaks_connection:
  "\<exists>s. manager_step\<^sup>*\<^sup>* sample_manager s \<and> gm_closed s
     \<and> list_all (\<lambda>j. j = Ended \<or> (\<exists>l. j = Returned l)) (gm_jobs s) \<and> gm_records s = []
     \<and> list_ex (\<lambda>c. ln_uid c = ''gw'' \<and> ln_state c = Ready True \<and> ln_pushes c) (gm_links s)"
proof -
  let ?s = "run_of stale_search"
  have ends: "gm_jobs ?s = [Returned 0, Ended, Ended]" by code_simp
  have "run_events stale_search sample_manager \<noteq> None" by code_simp
  moreover have "gm_closed ?s" by code_simp
  moreover have "gm_records ?s = []" by code_simp
  moreover have "list_ex (\<lambda>c. ln_uid c = ''gw'' \<and> ln_state c = Ready True \<and> ln_pushes c) (gm_links ?s)" by code_simp
  ultimately show ?thesis using run_reaches ends by (intro exI [of _ ?s]) simp
qed

text \<open>One unreachable candidate ends the search: when the handshake with a candidate fails, a fault of the
  gateway lets \<^verbatim>\<open>discover\<close> go on to the remaining candidates, but any other fault, such as the \<^verbatim>\<open>OSError\<close> of a refused
  connection, is raised from it and none of them is tried. A candidate is only a datagram that names
  a known UID.\<close>

lemma unreachable_candidate_ends_search:
  assumes "i < length (gm_jobs s)" "gm_jobs s ! i = Try uid host obj l rest" "\<not> gm_closed s"
  shows "run_events [Turn i (Fault (Other_Fault e)), Turn i Go] s
      = Some (leave i (Raised (Other_Fault e)) (stay i (Refuse uid (Other_Fault e) rest) (shut l s)))
    \<and> run_events [Turn i (Fault (Gateway_Fault reason)), Turn i Go] s
      = Some (next_candidate i rest (stay i (Refuse uid (Gateway_Fault reason) rest) (shut l s)))"
  using assms by (simp add: handle_def may_resume_def refused_def on_go_def)

definition two_candidates :: manager where
  "two_candidates = (let s = new_manager True [(''gw'', ''192.168.1.2''), (''hub'', ''192.168.1.3'')]
     in case run_events [Call Call_Discover,
          Turn 0 (Found [(''gw'', ''192.168.1.66''), (''hub'', ''192.168.1.4'')]), Turn 0 Go] s of
        Some t \<Rightarrow> t | None \<Rightarrow> s)"

definition while_dialing :: "event list" where
  "while_dialing = [Call (Call_Ensure ''gw''), Turn 0 Go, Call (Call_Reconnect ''gw'')]"

lemma while_dialing:
  "manager_step\<^sup>*\<^sup>* sample_manager (run_of while_dialing)"
  "gm_jobs (run_of while_dialing) = [Dial ''gw'' 0 0 True, Reconnect ''gw'']"
  "map ln_state (gm_links (run_of while_dialing)) = [Dialing]"
proof -
  have "run_events while_dialing sample_manager \<noteq> None" by code_simp
  then show "manager_step\<^sup>*\<^sup>* sample_manager (run_of while_dialing)" by (rule run_reaches)
  show "gm_jobs (run_of while_dialing) = [Dial ''gw'' 0 0 True, Reconnect ''gw'']"
    "map ln_state (gm_links (run_of while_dialing)) = [Dialing]" by code_simp+
qed

theorem one_dial_per_gateway_witness:
  "{m. m < length (gm_links (run_of while_dialing)) \<and> ln_uid (gm_links (run_of while_dialing) ! m) = ''gw''
      \<and> ln_state (gm_links (run_of while_dialing) ! m) = Dialing} = {0}"
proof -
  have first: "ln_uid (gm_links (run_of while_dialing) ! 0) = ''gw''" "ln_state (gm_links (run_of while_dialing) ! 0) = Dialing"
    "0 < length (gm_links (run_of while_dialing))" by code_simp+
  have "m = 0" if "m < length (gm_links (run_of while_dialing))" "ln_uid (gm_links (run_of while_dialing) ! m) = ''gw''"
    "ln_state (gm_links (run_of while_dialing) ! m) = Dialing" for m
    using one_dial_per_gateway [OF while_dialing(1) [unfolded sample_manager_def] that(1,3) first(3,2)] that(2) first(1)
    by simp
  with first show ?thesis by blast
qed

theorem manager_never_stuck_witness:
  "\<exists>i r t. i < 2 \<and> handle (Turn i r) (run_of while_dialing) = Some t"
  using manager_never_stuck [OF while_dialing(1) [unfolded sample_manager_def], of 1]
  by (simp add: while_dialing(2) numeral_2_eq_2) blast

definition promoted :: manager where
  "promoted = run_of [Call Call_Discover, Turn 0 (Found [(''gw'', ''192.168.1.9'')]), Turn 0 Go,
     Turn 0 (Answer (Some ''gw'') Alive)]"

theorem gateways_stay_trusted_witness:
  "gateway_hosts promoted = [(''gw'', ''192.168.1.9'')] \<and> (''gw'', ''192.168.1.9'') \<in> gm_listed promoted \<union> gm_logins promoted"
proof -
  have "run_events [Call Call_Discover, Turn 0 (Found [(''gw'', ''192.168.1.9'')]), Turn 0 Go,
     Turn 0 (Answer (Some ''gw'') Alive)] sample_manager \<noteq> None" by code_simp
  from gateways_stay_trusted [OF run_reaches [OF this, unfolded sample_manager_def]]
  have "\<forall>(uid, host) \<in> set (gateway_hosts promoted). (uid, host) \<in> gm_listed promoted \<union> gm_logins promoted"
    by (auto simp: promoted_def)
  moreover have "gateway_hosts promoted = [(''gw'', ''192.168.1.9'')]" by code_simp
  ultimately show ?thesis by simp
qed

end
