(* ===== verification/Cloud_Client.thy ===== *)
theory Cloud_Client
  imports Lan_Control_Adapter Lan_Framing Gateway_Connection
begin

text \<open>
  The controls and requests of the cloud connection: the sending half of \<^verbatim>\<open>ssl_client.py\<close>. A method is an
  effect on the client's state \<open>cloud\<close>; what happens while it awaits is a parameter, so that any other
  coroutine may run there: \<open>ce_login\<close> while the connection is made (the model of it is in \<open>Cloud_Session\<close>),
  \<open>ce_drain\<close> while the bytes are written and \<open>ce_wait\<close> while an answer is awaited (it tells whether the
  task was cancelled). Packets are built by the codec of \<open>Lan_Framing\<close>, answers are kept by the registry of
  \<open>Pending_Requests\<close>. Serial numbers and the clock are read from the outside. Messages for the log are
  not modelled.
\<close>

section \<open>The client\<close>

text \<open>
  \<open>cl_writer\<close>: there is a writer and it is not closing. \<open>cl_reader\<close>: there is a reader. \<open>cl_listening\<close>,
  \<open>cl_beating\<close>: the task of the client exists and has not ended. \<open>cl_awaited\<close>: a login waits for its event.
\<close>

record 'x cloud =
  cl_connected :: bool
  cl_writer :: bool
  cl_reader :: bool
  cl_session_id :: "string option"
  cl_session_key :: "string option"
  cl_closed :: bool
  cl_keys :: "(string, string) pydict"
  cl_pending :: "dict registry"
  cl_meari :: "dict option"
  cl_awaited :: bool
  cl_login_result :: bool
  cl_login_status :: pyval
  cl_login_msg :: pyval
  cl_listening :: bool
  cl_beating :: bool
  cl_failures :: nat
  cl_outside :: 'x

record 'x cloud_env =
  ce_user :: string
  ce_password :: string
  ce_family :: string
  ce_text :: "pyval \<Rightarrow> string"
  ce_float_text :: "rat \<Rightarrow> string"
  ce_cipher :: cipher
  ce_serials :: "'x \<Rightarrow> int \<times> int"
  ce_now :: "'x \<Rightarrow> int"
  ce_login :: "('x cloud, bool) io"
  ce_drain :: "string \<Rightarrow> ('x cloud, unit) io"
  ce_wait :: "string \<Rightarrow> ('x cloud, bool) io"
  ce_report :: "pyval \<Rightarrow> dict \<Rightarrow> ('x, unit) io"

text \<open>The errors of a stream are subclasses of \<^verbatim>\<open>OSError\<close>.\<close>

definition connection_error :: py_exn where "connection_error = OtherError ''ConnectionError''"

definition STREAM_ERRORS :: "py_exn list" where
  "STREAM_ERRORS = map OtherError [''OSError'', ''ConnectionError'', ''ConnectionResetError'', ''ConnectionAbortedError'',
     ''ConnectionRefusedError'', ''BrokenPipeError'', ''TimeoutError'', ''SSLError'']"

definition on_pending :: "(dict registry, 'a) io \<Rightarrow> ('x cloud, 'a) io" where
  "on_pending m w = (case m (cl_pending w) of (r, p) \<Rightarrow> (r, w\<lparr>cl_pending := p\<rparr>))"

definition resolve_request :: "string \<Rightarrow> dict option \<Rightarrow> ('x cloud, bool) io" where
  "resolve_request key result = on_pending (\<lambda>p. case resolve key result p of (b, p') \<Rightarrow> (Inr b, p'))"

definition cancel_requests :: "('x cloud, unit) io" where
  "cancel_requests = modifyS (\<lambda>w. w\<lparr>cl_pending := cancel_all (cl_pending w)\<rparr>)"

section \<open>One packet\<close>

definition control_key :: "'x cloud_env \<Rightarrow> dict \<Rightarrow> string option" where
  "control_key env data =
     (let device_id = ce_text env (py_or (get data ''deviceId'') (VStr []))
      in if py_eq (get data ''cmd'') (VInt CMD_CONTROL) \<and> device_id \<noteq> [] then Some (''control:'' @ device_id) else None)"

definition register_control :: "string option \<Rightarrow> ('x cloud, unit) io" where
  "register_control key =
     (case key of None \<Rightarrow> retS () | Some k \<Rightarrow> bindS (on_pending (register k True)) (\<lambda>f. retS ()))"

text \<open>The packet type, and for the default key the unset session id.\<close>

definition choose_type :: "string \<Rightarrow> ('x cloud, string) io" where
  "choose_type key =
     (if key = DEFAULT_KEY then bindS (modifyS (\<lambda>w. w\<lparr>cl_session_id := Some ID_UNSET\<rparr>)) (\<lambda>_. retS PK_TYPE)
      else retS DK_TYPE)"

definition write_packet :: "'x cloud_env \<Rightarrow> dict \<Rightarrow> string \<Rightarrow> ('x cloud, unit) io" where
  "write_packet env data key =
     bindS (choose_type key) (\<lambda>packet_type.
     bindS (getS cl_session_id) (\<lambda>sid. case sid of
         None \<Rightarrow> raiseS AttributeError
       | Some sid \<Rightarrow>
           bindS (liftE (cloud_build_packet (ce_cipher env) (ce_float_text env) packet_type key sid (VDict data)))
             (ce_drain env)))"

text \<open>The handler: a failed write has an unknown outcome, and is always reported as a lost connection.\<close>

definition send_failed :: "string option \<Rightarrow> py_exn \<Rightarrow> ('x cloud, unit) io" where
  "send_failed key e =
     bindS (case key of None \<Rightarrow> retS False | Some k \<Rightarrow> resolve_request k None) (\<lambda>_.
     bindS (if e \<in> set STREAM_ERRORS
            then bindS (modifyS (\<lambda>w. w\<lparr>cl_connected := False\<rparr>)) (\<lambda>_.
                 bindS cancel_requests (\<lambda>_. modifyS (\<lambda>w. w\<lparr>cl_writer := False\<rparr>)))
            else retS ()) (\<lambda>_.
     raiseS connection_error))"

definition send_packet :: "'x cloud_env \<Rightarrow> dict \<Rightarrow> string \<Rightarrow> ('x cloud, unit) io" where
  "send_packet env data key =
     bindS (getS cl_writer) (\<lambda>open.
     if \<not> open then send_failed None connection_error
     else let ck = control_key env data
       in bindS (register_control ck) (\<lambda>_.
          catchS (write_packet env data key)
            (\<lambda>e. if e = cancelled_error then raiseS e else send_failed ck e)))"

section \<open>Controls\<close>

definition connect_and_login :: "'x cloud_env \<Rightarrow> ('x cloud, bool) io" where
  "connect_and_login env = bindS (getS cl_connected) (\<lambda>b. if b then retS True else ce_login env)"

definition key_ready :: "string option \<Rightarrow> bool" where
  "key_ready key \<longleftrightarrow> key \<noteq> None \<and> key \<noteq> Some [] \<and> key \<noteq> Some DEFAULT_KEY"

definition fresh_ids :: "'x cloud_env \<Rightarrow> string \<Rightarrow> pyval \<Rightarrow> 'x cloud \<Rightarrow> ids" where
  "fresh_ids env d uid w =
     (case ce_serials env (cl_outside w) of (s, us) \<Rightarrow>
        \<lparr>user_of = ce_user env, dev_of = d, uid_of = uid, serial_of = s, uni_serial_of = us\<rparr>)"

text \<open>What the requests do once the client is connected and has a session key; without one they return \<open>none\<close>.\<close>

definition with_session :: "'x cloud_env \<Rightarrow> 'a \<Rightarrow> (string \<Rightarrow> ('x cloud, 'a) io) \<Rightarrow> ('x cloud, 'a) io" where
  "with_session env none body =
     bindS (connect_and_login env) (\<lambda>_.
     bindS (getS cl_session_key) (\<lambda>key. if key_ready key then body (the key) else retS none))"

definition send_built :: "'x cloud_env \<Rightarrow> string \<Rightarrow> pyval \<Rightarrow> (ids \<Rightarrow> dict py) \<Rightarrow> ('x cloud, bool) io" where
  "send_built env d uid build =
     with_session env False (\<lambda>key.
       bindS (getS (fresh_ids env d uid)) (\<lambda>e.
       bindS (liftE (build e)) (\<lambda>payload.
       bindS (send_packet env payload key) (\<lambda>_. retS True))))"

text \<open>\<^verbatim>\<open>_send_property_control\<close>: its argument is built before the connection is made.\<close>

definition send_property_control :: "'x cloud_env \<Rightarrow> dict \<Rightarrow> ('x cloud, bool) io" where
  "send_property_control env payload =
     with_session env False (\<lambda>key. bindS (send_packet env payload key) (\<lambda>_. retS True))"

definition send_property :: "'x cloud_env \<Rightarrow> string \<Rightarrow> pyval \<Rightarrow> (ids \<Rightarrow> dict py) \<Rightarrow> ('x cloud, bool) io" where
  "send_property env d uid build =
     bindS (getS (fresh_ids env d uid)) (\<lambda>e. bindS (liftE (build e)) (send_property_control env))"


section \<open>The methods\<close>

definition cloud_send_control_switch ::
  "'x cloud_env \<Rightarrow> string \<Rightarrow> pyval \<Rightarrow> pyval \<Rightarrow> ('x cloud, bool) io" where
  "cloud_send_control_switch env d uid state =
     send_built env d uid (\<lambda>e. ssl_control_switch e state)"

definition cloud_send_control_cct_light_onoff ::
  "'x cloud_env \<Rightarrow> string \<Rightarrow> pyval \<Rightarrow> pyval \<Rightarrow> ('x cloud, bool) io" where
  "cloud_send_control_cct_light_onoff env d uid state =
     send_built env d uid (\<lambda>e. ssl_control_cct_light_onoff e state)"

definition cloud_send_control_cct_light_brightness ::
  "'x cloud_env \<Rightarrow> string \<Rightarrow> pyval \<Rightarrow> pyval \<Rightarrow> ('x cloud, bool) io" where
  "cloud_send_control_cct_light_brightness env d uid brightness_percent =
     send_built env d uid (\<lambda>e. ssl_control_cct_light_brightness e brightness_percent)"

definition cloud_send_control_cct_light_colortemp ::
  "'x cloud_env \<Rightarrow> string \<Rightarrow> pyval \<Rightarrow> pyval \<Rightarrow> ('x cloud, bool) io" where
  "cloud_send_control_cct_light_colortemp env d uid colortemp_k =
     send_built env d uid (\<lambda>e. ssl_control_cct_light_colortemp e colortemp_k)"

definition cloud_send_control_floor_heating_power ::
  "'x cloud_env \<Rightarrow> string \<Rightarrow> pyval \<Rightarrow> pyval \<Rightarrow> ('x cloud, bool) io" where
  "cloud_send_control_floor_heating_power env d uid state =
     send_property env d uid (\<lambda>e. ssl_control_floor_heating_power e state)"

definition cloud_send_control_floor_heating_temperature ::
  "'x cloud_env \<Rightarrow> string \<Rightarrow> pyval \<Rightarrow> pyval \<Rightarrow> ('x cloud, bool) io" where
  "cloud_send_control_floor_heating_temperature env d uid temperature =
     send_property env d uid (\<lambda>e. ssl_control_floor_heating_temperature e temperature)"

definition cloud_send_control_dream_curtain_action ::
  "'x cloud_env \<Rightarrow> string \<Rightarrow> pyval \<Rightarrow> pyval \<Rightarrow> ('x cloud, bool) io" where
  "cloud_send_control_dream_curtain_action env d uid action =
     send_property env d uid (\<lambda>e. ssl_control_dream_curtain_action e action)"

definition cloud_send_control_dream_curtain_percent ::
  "'x cloud_env \<Rightarrow> string \<Rightarrow> pyval \<Rightarrow> pyval \<Rightarrow> ('x cloud, bool) io" where
  "cloud_send_control_dream_curtain_percent env d uid percent =
     send_property env d uid (\<lambda>e. ssl_control_dream_curtain_percent e percent)"

definition cloud_send_control_dream_curtain_angle ::
  "'x cloud_env \<Rightarrow> string \<Rightarrow> pyval \<Rightarrow> pyval \<Rightarrow> ('x cloud, bool) io" where
  "cloud_send_control_dream_curtain_angle env d uid angle =
     send_property env d uid (\<lambda>e. ssl_control_dream_curtain_angle e angle)"

definition cloud_send_control_dimmable_light_brightness ::
  "'x cloud_env \<Rightarrow> string \<Rightarrow> pyval \<Rightarrow> pyval \<Rightarrow> ('x cloud, bool) io" where
  "cloud_send_control_dimmable_light_brightness env d uid brightness_percent =
     send_built env d uid (\<lambda>e. ssl_control_dimmable_light_brightness e brightness_percent)"

definition cloud_send_control_zigbee_dimmable_light_onoff ::
  "'x cloud_env \<Rightarrow> string \<Rightarrow> pyval \<Rightarrow> pyval \<Rightarrow> pyval \<Rightarrow> pyval \<Rightarrow> pyval \<Rightarrow> ('x cloud, bool) io" where
  "cloud_send_control_zigbee_dimmable_light_onoff env d uid state brightness value3 value4 =
     send_built env d uid (\<lambda>e. ssl_control_zigbee_dimmable_light_onoff e state brightness value3 value4)"

definition cloud_send_control_zigbee_dimmable_light_brightness ::
  "'x cloud_env \<Rightarrow> string \<Rightarrow> pyval \<Rightarrow> pyval \<Rightarrow> pyval \<Rightarrow> pyval \<Rightarrow> ('x cloud, bool) io" where
  "cloud_send_control_zigbee_dimmable_light_brightness env d uid brightness_255 value3 value4 =
     send_built env d uid (\<lambda>e. ssl_control_zigbee_dimmable_light_brightness e brightness_255 value3 value4)"

definition cloud_send_control_fast_move_dim_color_light_onoff ::
  "'x cloud_env \<Rightarrow> string \<Rightarrow> pyval \<Rightarrow> pyval \<Rightarrow> pyval \<Rightarrow> pyval \<Rightarrow> ('x cloud, bool) io" where
  "cloud_send_control_fast_move_dim_color_light_onoff env d uid state brightness colortemp_mired =
     send_built env d uid (\<lambda>e. ssl_control_fast_move_dim_color_light_onoff e state brightness colortemp_mired)"

definition cloud_send_control_fast_move_dim_color_light_brightness ::
  "'x cloud_env \<Rightarrow> string \<Rightarrow> pyval \<Rightarrow> pyval \<Rightarrow> pyval \<Rightarrow> ('x cloud, bool) io" where
  "cloud_send_control_fast_move_dim_color_light_brightness env d uid brightness colortemp_mired =
     send_built env d uid (\<lambda>e. ssl_control_fast_move_dim_color_light_brightness e brightness colortemp_mired)"

definition cloud_send_control_fast_move_dim_color_light_colortemp ::
  "'x cloud_env \<Rightarrow> string \<Rightarrow> pyval \<Rightarrow> pyval \<Rightarrow> pyval \<Rightarrow> ('x cloud, bool) io" where
  "cloud_send_control_fast_move_dim_color_light_colortemp env d uid brightness colortemp_mired =
     send_built env d uid (\<lambda>e. ssl_control_fast_move_dim_color_light_colortemp e brightness colortemp_mired)"

definition cloud_send_control_light ::
  "'x cloud_env \<Rightarrow> string \<Rightarrow> pyval \<Rightarrow> pyval \<Rightarrow> pyval \<Rightarrow> pyval \<Rightarrow> ('x cloud, bool) io" where
  "cloud_send_control_light env d uid state brightness colortemp_mired =
     send_built env d uid (\<lambda>e. ssl_control_light e state brightness colortemp_mired)"

definition cloud_send_control_light_brightness ::
  "'x cloud_env \<Rightarrow> string \<Rightarrow> pyval \<Rightarrow> pyval \<Rightarrow> ('x cloud, bool) io" where
  "cloud_send_control_light_brightness env d uid brightness =
     send_built env d uid (\<lambda>e. ssl_control_light_brightness e brightness)"

definition cloud_send_control_light_colortemp ::
  "'x cloud_env \<Rightarrow> string \<Rightarrow> pyval \<Rightarrow> pyval \<Rightarrow> pyval \<Rightarrow> ('x cloud, bool) io" where
  "cloud_send_control_light_colortemp env d uid colortemp_k brightness =
     send_built env d uid (\<lambda>e. ssl_control_light_colortemp e colortemp_k brightness)"

text \<open>\<^verbatim>\<open>power\<close> follows the level unless the caller gives it.\<close>

definition bri_ct_power :: "pyval \<Rightarrow> pyval \<Rightarrow> pyval py" where
  "bri_ct_power brightness is_on =
     (if is_on \<noteq> VNone then Inr is_on
      else if brightness \<noteq> VNone then bindE (py_gt brightness 0) (\<lambda>b. Inr (VBool b))
      else Inr (VBool True))"

definition cloud_send_light_bri_ct ::
  "'x cloud_env \<Rightarrow> string \<Rightarrow> pyval \<Rightarrow> pyval \<Rightarrow> pyval \<Rightarrow> pyval \<Rightarrow> ('x cloud, bool) io" where
  "cloud_send_light_bri_ct env d uid brightness color_temp_k is_on =
     send_built env d uid (\<lambda>e. bindE (bri_ct_power brightness is_on) (\<lambda>p.
       ssl_control_light_full e brightness color_temp_k p))"

definition cloud_send_control_cover ::
  "'x cloud_env \<Rightarrow> string \<Rightarrow> pyval \<Rightarrow> pyval \<Rightarrow> pyval \<Rightarrow> pyval \<Rightarrow> pyval \<Rightarrow> ('x cloud, bool) io" where
  "cloud_send_control_cover env d uid position stop_value2 ord wire_value1 =
     send_built env d uid (\<lambda>e. ssl_control_cover e position stop_value2 ord wire_value1)"

text \<open>The arguments of \<^verbatim>\<open>_send_legacy_floor_heating\<close> are computed before it is entered.\<close>

definition send_legacy_floor_heating ::
  "'x cloud_env \<Rightarrow> string \<Rightarrow> pyval \<Rightarrow> pyval \<Rightarrow> pyval \<Rightarrow> pyval \<Rightarrow> ('x cloud, bool) io" where
  "send_legacy_floor_heating env d uid ord value1 value2 =
     send_built env d uid (\<lambda>e. ssl_control_legacy_floor_heating e ord value1 value2)"

definition cloud_send_control_legacy_floor_heating_power ::
  "'x cloud_env \<Rightarrow> string \<Rightarrow> pyval \<Rightarrow> pyval \<Rightarrow> pyval \<Rightarrow> ('x cloud, bool) io" where
  "cloud_send_control_legacy_floor_heating_power env d uid is_on packed_state =
     bindS (liftE (if truthy is_on then Inr 0 else bindE (py_int packed_state) (\<lambda>n. Inr (max 0 n)))) (\<lambda>v2.
       send_legacy_floor_heating env d uid (on_off_val is_on) (active_low_val is_on) (VInt v2))"

definition cloud_send_control_legacy_floor_heating_temperature ::
  "'x cloud_env \<Rightarrow> string \<Rightarrow> pyval \<Rightarrow> pyval \<Rightarrow> ('x cloud, bool) io" where
  "cloud_send_control_legacy_floor_heating_temperature env d uid temperature =
     bindS (liftE (py_round temperature)) (\<lambda>t.
       let target = max 10 (min 35 t)
       in send_legacy_floor_heating env d uid (VStr ''temperature setting'') (VInt 8) (VInt (target - 10)))"

definition cloud_send_control_ventilation :: "'x cloud_env \<Rightarrow> string \<Rightarrow> pyval \<Rightarrow> pyval \<Rightarrow> ('x cloud, bool) io" where
  "cloud_send_control_ventilation env d uid value1 = send_built env d uid (\<lambda>e. ssl_control_ventilation e value1)"

text \<open>The drying rack has commands of its own, outside the registry of controls.\<close>

definition send_clothes_horse_control ::
  "'x cloud_env \<Rightarrow> string \<Rightarrow> pyval \<Rightarrow> string \<Rightarrow> pyval \<Rightarrow> ('x cloud, bool) io" where
  "send_clothes_horse_control env d uid ctrl_field ctrl_value =
     send_built env d uid (\<lambda>e. Inr (ssl_clothes_horse_control e ctrl_field ctrl_value))"

definition send_clothes_horse_query :: "'x cloud_env \<Rightarrow> string \<Rightarrow> ('x cloud, bool) io" where
  "send_clothes_horse_query env d = send_built env d VNone (\<lambda>e. Inr (ssl_clothes_horse_query e))"

section \<open>Calling a control by name\<close>

text \<open>The signatures differ from those of the adapter in two methods.\<close>

definition cloud_signatures :: "(string \<times> params \<times> params) list" where
  "cloud_signatures =
     (let state = (''state'', None); bri = (''brightness'', None);
          pct = (''brightness_percent'', None); zero = Some (VInt 0);
          v34 = [(''value3'', Some (VInt 0)), (''value4'', Some (VInt 0))]
      in
       [(''send_control_switch'', [state], []),
        (''send_control_cct_light_onoff'', [state], []),
        (''send_control_cct_light_brightness'', [pct], []),
        (''send_control_cct_light_colortemp'', [(''colortemp_k'', None)], []),
        (''send_control_floor_heating_power'', [state], []),
        (''send_control_floor_heating_temperature'', [(''temperature'', None)], []),
        (''send_control_dream_curtain_action'', [(''action'', None)], []),
        (''send_control_dream_curtain_percent'', [(''percent'', None)], []),
        (''send_control_dream_curtain_angle'', [(''angle'', None)], []),
        (''send_control_dimmable_light_brightness'', [pct], []),
        (''send_control_zigbee_dimmable_light_onoff'', [state, (''brightness'', Some (VInt 255))], v34),
        (''send_control_zigbee_dimmable_light_brightness'', [(''brightness_255'', None)], v34),
        (''send_control_fast_move_dim_color_light_onoff'',
           [state, (''brightness'', zero), (''colortemp_mired'', zero)], []),
        (''send_control_fast_move_dim_color_light_brightness'', [bri, (''colortemp_mired'', zero)], []),
        (''send_control_fast_move_dim_color_light_colortemp'', [bri, (''colortemp_mired'', None)], []),
        (''send_control_light'', [state, (''brightness'', zero), (''colortemp_mired'', zero)], []),
        (''send_control_light_brightness'', [bri], []),
        (''send_control_light_colortemp'', [(''colortemp_k'', None), (''brightness'', zero)], []),
        (''send_control_cover'', [(''position'', None), (''stop_value2'', zero)],
           [(''order'', Some VNone), (''wire_value1'', Some VNone)]),
        (''send_control_legacy_floor_heating_power'', [(''is_on'', None)], [(''packed_state'', zero)]),
        (''send_control_legacy_floor_heating_temperature'', [(''temperature'', None)], []),
        (''send_control_ventilation'', [(''value1'', None)], []),
        (''send_light_bri_ct'', [bri, (''color_temp_k'', None), (''power'', Some VNone)], [])])"

definition cloud_bodies :: "'x cloud_env \<Rightarrow> string \<Rightarrow> pyval \<Rightarrow> dict \<Rightarrow> (string \<times> ('x cloud, bool) io) list" where
  "cloud_bodies env d uid b =
     [(''send_control_switch'', cloud_send_control_switch env d uid (get b ''state'')),
      (''send_control_cct_light_onoff'', cloud_send_control_cct_light_onoff env d uid (get b ''state'')),
      (''send_control_cct_light_brightness'', cloud_send_control_cct_light_brightness env d uid (get b ''brightness_percent'')),
      (''send_control_cct_light_colortemp'', cloud_send_control_cct_light_colortemp env d uid (get b ''colortemp_k'')),
      (''send_control_floor_heating_power'', cloud_send_control_floor_heating_power env d uid (get b ''state'')),
      (''send_control_floor_heating_temperature'', cloud_send_control_floor_heating_temperature env d uid (get b ''temperature'')),
      (''send_control_dream_curtain_action'', cloud_send_control_dream_curtain_action env d uid (get b ''action'')),
      (''send_control_dream_curtain_percent'', cloud_send_control_dream_curtain_percent env d uid (get b ''percent'')),
      (''send_control_dream_curtain_angle'', cloud_send_control_dream_curtain_angle env d uid (get b ''angle'')),
      (''send_control_dimmable_light_brightness'', cloud_send_control_dimmable_light_brightness env d uid (get b ''brightness_percent'')),
      (''send_control_zigbee_dimmable_light_onoff'', cloud_send_control_zigbee_dimmable_light_onoff env d uid (get b ''state'') (get b ''brightness'') (get b ''value3'') (get b ''value4'')),
      (''send_control_zigbee_dimmable_light_brightness'', cloud_send_control_zigbee_dimmable_light_brightness env d uid (get b ''brightness_255'') (get b ''value3'') (get b ''value4'')),
      (''send_control_fast_move_dim_color_light_onoff'', cloud_send_control_fast_move_dim_color_light_onoff env d uid (get b ''state'') (get b ''brightness'') (get b ''colortemp_mired'')),
      (''send_control_fast_move_dim_color_light_brightness'', cloud_send_control_fast_move_dim_color_light_brightness env d uid (get b ''brightness'') (get b ''colortemp_mired'')),
      (''send_control_fast_move_dim_color_light_colortemp'', cloud_send_control_fast_move_dim_color_light_colortemp env d uid (get b ''brightness'') (get b ''colortemp_mired'')),
      (''send_control_light'', cloud_send_control_light env d uid (get b ''state'') (get b ''brightness'') (get b ''colortemp_mired'')),
      (''send_control_light_brightness'', cloud_send_control_light_brightness env d uid (get b ''brightness'')),
      (''send_control_light_colortemp'', cloud_send_control_light_colortemp env d uid (get b ''colortemp_k'') (get b ''brightness'')),
      (''send_control_cover'', cloud_send_control_cover env d uid (get b ''position'') (get b ''stop_value2'') (get b ''order'')
         (get b ''wire_value1'')),
      (''send_control_legacy_floor_heating_power'',
         cloud_send_control_legacy_floor_heating_power env d uid (get b ''is_on'') (get b ''packed_state'')),
      (''send_control_legacy_floor_heating_temperature'',
         cloud_send_control_legacy_floor_heating_temperature env d uid (get b ''temperature'')),
      (''send_control_ventilation'', cloud_send_control_ventilation env d uid (get b ''value1'')),
      (''send_light_bri_ct'', cloud_send_light_bri_ct env d uid (get b ''brightness'') (get b ''color_temp_k'') (get b ''power''))]"

definition cloud_invoke ::
  "'x cloud_env \<Rightarrow> string \<Rightarrow> pyval \<Rightarrow> string \<Rightarrow> pyval list \<Rightarrow> dict \<Rightarrow> ('x cloud, bool) io" where
  "cloud_invoke env d uid name args kwargs =
     (case map_of cloud_signatures name of None \<Rightarrow> raiseS AttributeError
      | Some (pos, kwonly) \<Rightarrow>
          bindS (liftE (bind_args pos kwonly args kwargs)) (\<lambda>b. the (map_of (cloud_bodies env d uid b) name)))"

lemma cloud_signature_bodies: "map fst cloud_signatures = map fst (cloud_bodies env d uid b)"
  by (simp add: cloud_signatures_def cloud_bodies_def Let_def)


section \<open>Requests that wait for an answer\<close>

definition finallyS :: "('w, 'a) io \<Rightarrow> ('w, unit) io \<Rightarrow> ('w, 'a) io" where
  "finallyS m f w = (case m w of (r, w1) \<Rightarrow> (case f w1 of (Inl e, w2) \<Rightarrow> (Inl e, w2) | (Inr u, w2) \<Rightarrow> (r, w2)))"

text \<open>\<^verbatim>\<open>except Exception: cleanup; raise\<close>\<close>

definition on_exception :: "('w, 'a) io \<Rightarrow> ('w, unit) io \<Rightarrow> ('w, 'a) io" where
  "on_exception m cleanup =
     catchS m (\<lambda>e. if e = cancelled_error then raiseS e else bindS cleanup (\<lambda>_. raiseS e))"

definition await_answer :: "'x cloud_env \<Rightarrow> string \<Rightarrow> nat \<Rightarrow> ('x cloud, dict option) io" where
  "await_answer env key f = bindS (ce_wait env key) (\<lambda>interrupted. on_pending (wait key f interrupted))"

text \<open>One request at a time: \<open>None\<close> when another one is under way.\<close>

definition try_register :: "string \<Rightarrow> ('x cloud, nat option) io" where
  "try_register key = catchS (bindS (on_pending (register key False)) (\<lambda>f. retS (Some f)))
     (\<lambda>e. if e = RuntimeError then retS None else raiseS e)"

definition wait_for_control_response :: "'x cloud_env \<Rightarrow> string \<Rightarrow> ('x cloud, dict option) io" where
  "wait_for_control_response env d =
     bindS (getS (\<lambda>w. get_request (''control:'' @ d) (cl_pending w))) (\<lambda>f. case f of
         None \<Rightarrow> retS None
       | Some f \<Rightarrow> await_answer env (''control:'' @ d) f)"

definition send_and_wait :: "'x cloud_env \<Rightarrow> dict \<Rightarrow> string \<Rightarrow> ('x cloud, dict option) io" where
  "send_and_wait env payload key =
     bindS (try_register ''temp_authorization'') (\<lambda>f. case f of
         None \<Rightarrow> retS None
       | Some f \<Rightarrow> bindS (send_packet env payload key) (\<lambda>_. await_answer env ''temp_authorization'' f))"

text \<open>The period of validity: the caller's for a timed password with both ends, else from now on.\<close>

definition grant_period :: "int \<Rightarrow> int \<Rightarrow> int \<Rightarrow> int option \<Rightarrow> int option \<Rightarrow> int \<times> int" where
  "grant_period now auth_type minutes start_time end_time =
     (case (start_time, end_time) of
        (Some s, Some t) \<Rightarrow> if auth_type = 1 then (s, t) else (now, 0)
      | _ \<Rightarrow> (now, if auth_type = 1 then now + minutes * 60 else 0))"

definition send_temp_password ::
  "'x cloud_env \<Rightarrow> string \<Rightarrow> pyval \<Rightarrow> string \<Rightarrow> int \<Rightarrow> int \<Rightarrow> int \<Rightarrow> string \<Rightarrow> int option \<Rightarrow> int option
     \<Rightarrow> ('x cloud, dict option) io" where
  "send_temp_password env d uid name auth_type minutes num phone start_time end_time =
     with_session env None (\<lambda>key.
       bindS (getS (\<lambda>w. ce_now env (cl_outside w))) (\<lambda>now.
       bindS (getS (fresh_ids env d uid)) (\<lambda>e.
       let (start_ts, end_ts) = grant_period now auth_type minutes start_time end_time
       in send_and_wait env (ssl_temp_password e name auth_type minutes num phone start_ts end_ts) key)))"

definition delete_authorization :: "'x cloud_env \<Rightarrow> string \<Rightarrow> pyval \<Rightarrow> int \<Rightarrow> ('x cloud, dict option) io" where
  "delete_authorization env d uid authorized_id =
     with_session env None (\<lambda>key.
       bindS (getS (fresh_ids env d uid)) (\<lambda>e. send_and_wait env (ssl_delete_authorization e authorized_id) key))"

definition CMD_COS_AUTH :: int where "CMD_COS_AUTH = 313"

definition ssl_cos_auth :: "(rat \<Rightarrow> string) \<Rightarrow> ids \<Rightarrow> string \<Rightarrow> string \<Rightarrow> string \<Rightarrow> dict" where
  "ssl_cos_auth float_text e request_id user_id family_id =
     (''request'', VStr (dumps float_text (VDict
       [(''namespace'', VStr ''Skill.GetCOSAuthorization''), (''requestId'', VStr request_id), (''version'', VInt 1),
        (''userId'', VStr user_id), (''deviceId'', VStr (dev_of e)), (''familyId'', VStr family_id),
        (''uid'', uid_of e), (''type'', VStr ''lock'')]))) # trailer_fields CMD_COS_AUTH e"

definition send_cos_auth ::
  "'x cloud_env \<Rightarrow> ('x \<Rightarrow> string) \<Rightarrow> string \<Rightarrow> string \<Rightarrow> pyval \<Rightarrow> ('x cloud, dict option) io" where
  "send_cos_auth env uuid user_id d uid =
     with_session env None (\<lambda>key.
       bindS (getS (fresh_ids env d uid)) (\<lambda>e.
       bindS (getS (\<lambda>w. uuid (cl_outside w))) (\<lambda>request_id.
       bindS (try_register ''cos_auth'') (\<lambda>f. case f of
           None \<Rightarrow> retS None
         | Some f \<Rightarrow>
             on_exception
               (bindS (send_packet env (ssl_cos_auth (ce_float_text env) e request_id user_id (ce_family env)) key)
                  (\<lambda>_. await_answer env ''cos_auth'' f))
               cancel_requests))))"

definition CMD_MEARI_SESSION :: int where "CMD_MEARI_SESSION = 148"

definition build_session_request :: "string \<Rightarrow> string \<Rightarrow> string \<Rightarrow> string \<Rightarrow> int \<Rightarrow> int \<Rightarrow> dict py" where
  "build_session_request family_id country_code phone_code language serial uni_serial =
     (if family_id = [] then Inl ValueError
      else Inr [(''cmd'', VInt CMD_MEARI_SESSION), (''familyId'', VStr family_id), (''thirdAppType'', VStr ''1''),
        (''clientType'', VInt 1), (''countryCode'', VStr country_code), (''phoneCode'', VStr phone_code),
        (''iotType'', VStr ''4''), (''lngType'', VStr language), (''serial'', VInt serial),
        (''uniSerial'', VInt uni_serial), (''serverRecord'', VBool False), (''ver'', VStr SOFTWARE_VER),
        (''debugInfo'', VStr DEBUG_INFO)])"

definition send_meari_session ::
  "'x cloud_env \<Rightarrow> string \<Rightarrow> string \<Rightarrow> string \<Rightarrow> ('x cloud, dict option) io" where
  "send_meari_session env country_code phone_code language =
     bindS (getS (\<lambda>w. cl_connected w \<and> key_ready (cl_session_key w))) (\<lambda>ready.
     if \<not> ready then retS None
     else
       bindS (getS (\<lambda>w. ce_serials env (cl_outside w))) (\<lambda>serials.
       bindS (liftE (build_session_request (ce_family env) country_code phone_code language (fst serials) (snd serials))) (\<lambda>payload.
       bindS (on_pending (register ''meari_session'' False)) (\<lambda>f.
       bindS (modifyS (\<lambda>w. w\<lparr>cl_meari := Some payload\<rparr>)) (\<lambda>_.
       finallyS
         (bindS (getS cl_session_key) (\<lambda>key.
            bindS (send_packet env payload (case key of None \<Rightarrow> [] | Some k \<Rightarrow> k)) (\<lambda>_. await_answer env ''meari_session'' f)))
         (modifyS (\<lambda>w. w\<lparr>cl_pending := discard ''meari_session'' f (cl_pending w), cl_meari := None\<rparr>)))))))"


section \<open>What a control sends\<close>

text \<open>
  Either the arguments are refused before the client connects, or it connects and then raises, finds no
  session key or sends one control message for the device, encrypted with the key of the session.
\<close>

definition cloud_sends_once :: "'x cloud_env \<Rightarrow> string \<Rightarrow> pyval \<Rightarrow> ('x cloud, bool) io \<Rightarrow> bool" where
  "cloud_sends_once env d uid m \<longleftrightarrow>
     (\<forall>w. (\<exists>err. m w = (Inl err, w)) \<or>
       (\<exists>r w1. connect_and_login env w = (r, w1) \<and>
         ((\<exists>err. m w = (Inl err, w1)) \<or> m w = (Inr False, w1) \<and> \<not> key_ready (cl_session_key w1) \<or>
          (\<exists>e p k. control_message e p \<and> dev_of e = d \<and> uid_of e = uid \<and> cl_session_key w1 = Some k \<and> k \<noteq> DEFAULT_KEY
             \<and> m w = bindS (send_packet env p k) (\<lambda>_. retS True) w1))))"

lemma fresh_ids_device [simp]: "dev_of (fresh_ids env d uid w) = d" "uid_of (fresh_ids env d uid w) = uid"
  by (simp_all add: fresh_ids_def split: prod.split)

lemma key_readyE: "key_ready key \<Longrightarrow> (\<And>k. key = Some k \<Longrightarrow> k \<noteq> [] \<Longrightarrow> k \<noteq> DEFAULT_KEY \<Longrightarrow> thesis) \<Longrightarrow> thesis"
  by (auto simp: key_ready_def)

lemma with_session_run:
  assumes "connect_and_login env w = (r, w1)"
  shows "with_session env none body w = (case r of
      Inl e \<Rightarrow> (Inl e, w1)
    | Inr b \<Rightarrow> if key_ready (cl_session_key w1) then body (the (cl_session_key w1)) w1 else (Inr none, w1))"
  using assms by (simp add: with_session_def bindS_def split: sum.split)

lemma send_built_sends_once [simp]:
  assumes "\<And>e. ensures (build e) (control_message e)"
  shows "cloud_sends_once env d uid (send_built env d uid build)"
  unfolding cloud_sends_once_def
proof
  fix w
  obtain r w1 where c: "connect_and_login env w = (r, w1)" by fastforce
  let ?e = "fresh_ids env d uid w1"
  show "(\<exists>err. send_built env d uid build w = (Inl err, w)) \<or>
       (\<exists>r w1. connect_and_login env w = (r, w1) \<and>
         ((\<exists>err. send_built env d uid build w = (Inl err, w1)) \<or>
          send_built env d uid build w = (Inr False, w1) \<and> \<not> key_ready (cl_session_key w1) \<or>
          (\<exists>e p k. control_message e p \<and> dev_of e = d \<and> uid_of e = uid \<and> cl_session_key w1 = Some k \<and> k \<noteq> DEFAULT_KEY
             \<and> send_built env d uid build w = bindS (send_packet env p k) (\<lambda>_. retS True) w1)))"
  proof (cases "\<exists>b. r = Inr b \<and> key_ready (cl_session_key w1)")
    case False
    then show ?thesis using c by (cases r) (auto simp: send_built_def with_session_run [OF c])
  next
    case True
    then obtain b k where r: "r = Inr b" "cl_session_key w1 = Some k" "k \<noteq> DEFAULT_KEY" "key_ready (Some k)"
      by (cases "cl_session_key w1") (auto simp: key_ready_def)
    show ?thesis
    proof (cases "build ?e")
      case (Inl err)
      then show ?thesis using c r by (auto simp: send_built_def with_session_run [OF c])
    next
      case (Inr p)
      then have "control_message ?e p" using assms [of ?e] by simp
      moreover have "send_built env d uid build w = bindS (send_packet env p k) (\<lambda>_. retS True) w1"
        using r Inr by (simp add: send_built_def with_session_run [OF c])
      ultimately show ?thesis using c r(2,3) fresh_ids_device by blast
    qed
  qed
qed

lemma send_property_sends_once [simp]:
  assumes "\<And>e. ensures (build e) (control_message e)"
  shows "cloud_sends_once env d uid (send_property env d uid build)"
  unfolding cloud_sends_once_def
proof
  fix w
  let ?e = "fresh_ids env d uid w"
  show "(\<exists>err. send_property env d uid build w = (Inl err, w)) \<or>
       (\<exists>r w1. connect_and_login env w = (r, w1) \<and>
         ((\<exists>err. send_property env d uid build w = (Inl err, w1)) \<or>
          send_property env d uid build w = (Inr False, w1) \<and> \<not> key_ready (cl_session_key w1) \<or>
          (\<exists>e p k. control_message e p \<and> dev_of e = d \<and> uid_of e = uid \<and> cl_session_key w1 = Some k \<and> k \<noteq> DEFAULT_KEY
             \<and> send_property env d uid build w = bindS (send_packet env p k) (\<lambda>_. retS True) w1)))"
  proof (cases "build ?e")
    case (Inl err)
    then show ?thesis by (simp add: send_property_def)
  next
    case (Inr p)
    then have p: "control_message ?e p" using assms [of ?e] by simp
    obtain r w1 where c: "connect_and_login env w = (r, w1)" by fastforce
    have run: "send_property env d uid build w = send_property_control env p w"
      using Inr by (simp add: send_property_def)
    show ?thesis
    proof (cases "\<exists>b. r = Inr b \<and> key_ready (cl_session_key w1)")
      case False
      then show ?thesis using c by (cases r) (auto simp: run send_property_control_def with_session_run [OF c])
    next
      case True
      then obtain b k where r: "r = Inr b" "cl_session_key w1 = Some k" "k \<noteq> DEFAULT_KEY" "key_ready (Some k)"
        by (cases "cl_session_key w1") (auto simp: key_ready_def)
      have "send_property env d uid build w = bindS (send_packet env p k) (\<lambda>_. retS True) w1"
        using r by (simp add: run send_property_control_def with_session_run [OF c])
      with p c r(2,3) show ?thesis using fresh_ids_device by blast
    qed
  qed
qed

lemma argument_refused [simp]: "cloud_sends_once env d uid (bindS (liftE (Inl err)) f)"
  by (simp add: cloud_sends_once_def)

lemma argument_accepted [simp]:
  "(\<And>x. cloud_sends_once env d uid (f x)) \<Longrightarrow> cloud_sends_once env d uid (bindS (liftE m) f)"
  by (cases m) (auto simp: cloud_sends_once_def)

lemma bri_ct_payload [simp]:
  "ensures (bindE (bri_ct_power br p) (\<lambda>p. ssl_control_light_full e br ct p)) (control_message e)"
  by (cases "bri_ct_power br p") simp_all

lemmas cloud_method_defs = cloud_send_control_switch_def cloud_send_control_cct_light_onoff_def
  cloud_send_control_cct_light_brightness_def cloud_send_control_cct_light_colortemp_def
  cloud_send_control_floor_heating_power_def cloud_send_control_floor_heating_temperature_def
  cloud_send_control_dream_curtain_action_def cloud_send_control_dream_curtain_percent_def
  cloud_send_control_dream_curtain_angle_def cloud_send_control_dimmable_light_brightness_def
  cloud_send_control_zigbee_dimmable_light_onoff_def cloud_send_control_zigbee_dimmable_light_brightness_def
  cloud_send_control_fast_move_dim_color_light_onoff_def cloud_send_control_fast_move_dim_color_light_brightness_def
  cloud_send_control_fast_move_dim_color_light_colortemp_def cloud_send_control_light_def
  cloud_send_control_light_brightness_def cloud_send_control_light_colortemp_def cloud_send_light_bri_ct_def
  cloud_send_control_cover_def cloud_send_control_legacy_floor_heating_power_def
  cloud_send_control_legacy_floor_heating_temperature_def cloud_send_control_ventilation_def
  send_legacy_floor_heating_def

lemma cloud_bodies_send_once: "list_all (\<lambda>(name, m). cloud_sends_once env d uid m) (cloud_bodies env d uid b)"
  by (simp add: cloud_bodies_def cloud_method_defs Let_def)

lemma cloud_invoke_sends_once: "cloud_sends_once env d uid (cloud_invoke env d uid name args kwargs)"
proof (cases "map_of cloud_signatures name")
  case None
  then show ?thesis by (simp add: cloud_invoke_def cloud_sends_once_def)
next
  case (Some sig)
  obtain pos kwonly where sig: "sig = (pos, kwonly)" by force
  have "cloud_sends_once env d uid (the (map_of (cloud_bodies env d uid b) name))" for b
  proof -
    have "name \<in> fst ` set (cloud_bodies env d uid b)"
      using Some cloud_signature_bodies [of env d uid b] by (metis list.set_map map_of_eq_None_iff option.simps(3))
    then obtain m where m: "map_of (cloud_bodies env d uid b) name = Some m"
      by (metis map_of_eq_None_iff not_None_eq)
    then show ?thesis using cloud_bodies_send_once [of env d uid b] map_of_SomeD [OF m] by (auto simp: list_all_iff)
  qed
  then show ?thesis using Some sig by (simp add: cloud_invoke_def)
qed

section \<open>The two transports\<close>

text \<open>\<open>agree\<close>: over the LAN and in the cloud the two methods build the same payload.\<close>

definition agree ::
  "'x cloud_env \<Rightarrow> 'x cloud \<Rightarrow> string \<Rightarrow> ids \<Rightarrow> ('v gateway \<Rightarrow> ('v, bool) io) \<Rightarrow> ('x cloud, bool) io \<Rightarrow> bool" where
  "agree env w k e lan cloud \<longleftrightarrow>
     (\<exists>m. (\<forall>gw. lan gw = lan_send gw m)
        \<and> cloud w = bindS (liftE m) (\<lambda>p. bindS (send_packet env p k) (\<lambda>_. retS True)) w)"

definition ready :: "'x cloud \<Rightarrow> string \<Rightarrow> bool" where
  "ready w k \<longleftrightarrow> cl_connected w \<and> cl_session_key w = Some k \<and> k \<noteq> [] \<and> k \<noteq> DEFAULT_KEY"

lemma ready_session: "ready w k \<Longrightarrow> with_session env none body w = body k w"
  by (simp add: ready_def with_session_def connect_and_login_def bindS_def key_ready_def)

lemma agree_raise [simp]: "agree env w k e (\<lambda>gw. raiseS err) (raiseS err)"
  unfolding agree_def by (rule exI [of _ "Inl err"]) (simp add: lan_send_def)

lemma agree_built [simp]:
  assumes "ready w k" "fresh_ids env d uid w = e" "m = build e"
  shows "agree env w k e (\<lambda>gw. lan_send gw m) (send_built env d uid build)"
  unfolding agree_def using assms by (intro exI [of _ "build e"]) (simp add: send_built_def ready_session)

lemma agree_property [simp]:
  assumes "ready w k" "fresh_ids env d uid w = e" "m = build e"
  shows "agree env w k e (\<lambda>gw. lan_send gw m) (send_property env d uid build)"
  unfolding agree_def using assms
  by (intro exI [of _ "build e"])
    (cases "build e"; simp add: send_property_def send_property_control_def ready_session bindS_def)

lemma agree_argument [simp]:
  assumes "\<And>x. m = Inr x \<Longrightarrow> agree env w k e (\<lambda>gw :: 'v gateway. lan_send gw (f x)) (cloud x)"
  shows "agree env w k e (\<lambda>gw :: 'v gateway. lan_send gw (bindE m f)) (bindS (liftE m) cloud)"
proof (cases m)
  case (Inl err)
  then show ?thesis unfolding agree_def by (intro exI [of _ "Inl err"]) (simp add: lan_send_def)
next
  case (Inr x)
  with assms show ?thesis by simp
qed

lemmas lan_method_defs = send_control_switch_def send_control_cct_light_onoff_def
  send_control_cct_light_brightness_def send_control_cct_light_colortemp_def
  send_control_floor_heating_power_def send_control_floor_heating_temperature_def
  send_control_dream_curtain_action_def send_control_dream_curtain_percent_def
  send_control_dream_curtain_angle_def send_control_dimmable_light_brightness_def
  send_control_zigbee_dimmable_light_onoff_def send_control_zigbee_dimmable_light_brightness_def
  send_control_fast_move_dim_color_light_onoff_def send_control_fast_move_dim_color_light_brightness_def
  send_control_fast_move_dim_color_light_colortemp_def send_control_light_brightness_def
  send_control_light_colortemp_def send_control_cover_def send_control_legacy_floor_heating_power_def
  send_control_legacy_floor_heating_temperature_def send_control_ventilation_def
  legacy_floor_power_payload_def legacy_floor_temperature_payload_def

definition OWN_METHODS :: "string list" where
  "OWN_METHODS = [''send_control_light'', ''send_light_bri_ct'', ''send_ac_control'']"

lemma bodies_agree:
  assumes "ready w k" "fresh_ids env d uid w = e" "name \<notin> set OWN_METHODS" "map_of cloud_signatures name = Some sig"
  shows "agree env w k e (\<lambda>gw. the (map_of (lan_bodies gw e b) name)) (the (map_of (cloud_bodies env d uid b) name))"
  using assms
  by (simp add: cloud_signatures_def OWN_METHODS_def Let_def split: if_splits)
    (simp_all add: lan_bodies_def cloud_bodies_def cloud_method_defs lan_method_defs Let_def)

lemma signatures_agree: "name \<notin> set OWN_METHODS \<Longrightarrow> map_of cloud_signatures name = map_of signatures name"
  by (simp add: cloud_signatures_def signatures_def OWN_METHODS_def Let_def)

section \<open>Properties\<close>

text \<open>C7. A control sent through the cloud, whatever its name and arguments, either is refused before the client
  connects, or the client connects and then raises, finds no session key and returns \<^verbatim>\<open>False\<close>, or writes exactly
  one packet: a control message for the device, under the key of the session and never under the default key.\<close>

theorem cloud_control_sends_once:
  "(\<exists>err. cloud_invoke env d uid name args kwargs w = (Inl err, w)) \<or>
   (\<exists>r w1. connect_and_login env w = (r, w1) \<and>
     ((\<exists>err. cloud_invoke env d uid name args kwargs w = (Inl err, w1)) \<or>
      cloud_invoke env d uid name args kwargs w = (Inr False, w1) \<and> \<not> key_ready (cl_session_key w1) \<or>
      (\<exists>e p k. control_message e p \<and> dev_of e = d \<and> uid_of e = uid \<and> cl_session_key w1 = Some k \<and> k \<noteq> DEFAULT_KEY
         \<and> cloud_invoke env d uid name args kwargs w = bindS (send_packet env p k) (\<lambda>_. retS True) w1)))"
  using cloud_invoke_sends_once [of env d uid name args kwargs] by (simp add: cloud_sends_once_def)

text \<open>C8. Where the cloud client is connected and has a session key, the LAN adapter and the cloud client agree on every
  control but the three of \<open>OWN_METHODS\<close>, in which they differ, whatever its name and arguments: they refuse the same
  arguments with the same error, and build the same payload from the same identifiers, which the adapter sends to the
  gateway without the cloud-only fields and the client in one packet.\<close>

theorem transports_agree:
  assumes "name \<notin> set OWN_METHODS"
    and "cl_connected w" "cl_session_key w = Some k" "k \<noteq> []" "k \<noteq> DEFAULT_KEY"
    and "e = fresh_ids env d uid w"
  shows "\<exists>m. (\<forall>gw :: 'v gateway. lan_invoke gw e name args kwargs = lan_send gw m) \<and>
     cloud_invoke env d uid name args kwargs w
       = bindS (liftE m) (\<lambda>p. bindS (send_packet env p k) (\<lambda>_. retS True)) w"
proof -
  have r: "ready w k" and e: "fresh_ids env d uid w = e" using assms by (simp_all add: ready_def)
  have "agree env w k e (\<lambda>gw :: 'v gateway. lan_invoke gw e name args kwargs) (cloud_invoke env d uid name args kwargs)"
  proof (cases "map_of cloud_signatures name")
    case None
    then show ?thesis using signatures_agree [OF assms(1)] by (simp add: lan_invoke_def cloud_invoke_def)
  next
    case (Some sig)
    obtain pos kwonly where sig: "sig = (pos, kwonly)" by force
    show ?thesis
    proof (cases "bind_args pos kwonly args kwargs")
      case (Inl err)
      then show ?thesis using Some sig signatures_agree [OF assms(1)] by (simp add: lan_invoke_def cloud_invoke_def)
    next
      case (Inr b)
      then show ?thesis using Some sig signatures_agree [OF assms(1)] bodies_agree [OF r e assms(1) Some, of b]
        by (simp add: lan_invoke_def cloud_invoke_def)
    qed
  qed
  then show ?thesis by (simp add: agree_def)
qed


section \<open>Failures\<close>

definition disconnected :: "'x cloud \<Rightarrow> bool" where
  "disconnected w \<longleftrightarrow> \<not> cl_connected w \<and> \<not> cl_writer w \<and> rg_table (cl_pending w) = []"

lemma cancel_all_table [simp]: "rg_table (cancel_all p) = []"
  by (simp add: cancel_all_def)

lemma send_failed_run:
  obtains w' where "send_failed key e w = (Inl connection_error, w')"
    and "e \<in> set STREAM_ERRORS \<Longrightarrow> disconnected w'"
    and "key = Some k \<Longrightarrow> get_request k (cl_pending w') = Some f \<Longrightarrow> \<not> is_waiting (rg_futs (cl_pending w')) f"
proof (rule that)
  show "send_failed key e w = (Inl connection_error, snd (send_failed key e w))"
    by (cases key) (simp_all add: send_failed_def bindS_def resolve_request_def on_pending_def cancel_requests_def
        split: prod.split)
  show "e \<in> set STREAM_ERRORS \<Longrightarrow> disconnected (snd (send_failed key e w))"
    by (cases key) (simp_all add: send_failed_def bindS_def resolve_request_def on_pending_def cancel_requests_def
        disconnected_def split: prod.split)
  show "key = Some k \<Longrightarrow> get_request k (cl_pending (snd (send_failed key e w))) = Some f
      \<Longrightarrow> \<not> is_waiting (rg_futs (cl_pending (snd (send_failed key e w)))) f"
    by (auto simp: send_failed_def bindS_def resolve_request_def on_pending_def cancel_requests_def resolve_def
        get_request_def future_simps split: option.splits if_splits)
qed

lemma cancelled_not_connection [simp]: "connection_error \<noteq> cancelled_error" "cancelled_error \<noteq> connection_error"
  by (simp_all add: connection_error_def cancelled_error_def)

lemma connection_is_stream [simp]: "connection_error \<in> set STREAM_ERRORS"
  by (simp add: connection_error_def STREAM_ERRORS_def)

lemma register_control_returns: "\<exists>w1. register_control ck w = (Inr (), w1)"
proof (cases ck)
  case (Some k)
  have "\<exists>f p'. register k True p = (Inr f, p')" for p :: "dict registry"
    by (cases "map_of (rg_table p) k") (simp_all add: register_def new_request_def)
  then obtain f p' where "register k True (cl_pending w) = (Inr f, p')" by blast
  then show ?thesis using Some by (simp add: register_control_def bindS_def on_pending_def)
qed (simp add: register_control_def)

text \<open>A packet that could not be sent, for whatever reason save a cancellation, is reported as a lost
  connection and leaves nobody waiting for the answer to it. When there was no stream to write to, the client is
  disconnected afterwards and no request of any kind is left in the registry.\<close>

lemma failed_send_releases:
  assumes "send_packet env data key w = (Inl e, w')" "e \<noteq> cancelled_error"
  shows "e = connection_error
    \<and> (\<forall>k f. control_key env data = Some k \<longrightarrow> get_request k (cl_pending w') = Some f
          \<longrightarrow> \<not> is_waiting (rg_futs (cl_pending w')) f)
    \<and> (cl_writer w \<or> disconnected w')"
proof (cases "cl_writer w")
  case False
  obtain w2 where "send_failed None connection_error w = (Inl connection_error, w2)" "disconnected w2"
    using send_failed_run [of None connection_error w] connection_is_stream by metis
  then show ?thesis using assms False by (simp add: send_packet_def get_request_def disconnected_def)
next
  case True
  let ?ck = "control_key env data"
  obtain w1 where w1: "register_control ?ck w = (Inr (), w1)"
    using register_control_returns [of ?ck w] by blast
  have run: "catchS (write_packet env data key) (\<lambda>e. if e = cancelled_error then raiseS e else send_failed ?ck e) w1 = (Inl e, w')"
    using assms(1) True w1 by (simp add: send_packet_def Let_def bindS_def)
  then obtain e1 w2 where "write_packet env data key w1 = (Inl e1, w2)" "e1 \<noteq> cancelled_error" "send_failed ?ck e1 w2 = (Inl e, w')"
    using assms(2) by (auto simp: catchS_def split: prod.splits sum.splits if_splits)
  then show ?thesis using True send_failed_run [of ?ck e1 w2] by (metis prod.inject sum.inject(1))
qed

section \<open>Requests one at a time\<close>

definition answers_pending :: "'x cloud \<Rightarrow> bool" where
  "answers_pending w \<longleftrightarrow> (\<exists>f. get_request ''temp_authorization'' (cl_pending w) = Some f
     \<and> is_waiting (rg_futs (cl_pending w)) f)"

lemma pending_refuses: "answers_pending w \<Longrightarrow> send_and_wait env payload key w = (Inr None, w)"
  by (auto simp: answers_pending_def send_and_wait_def try_register_def bindS_def catchS_def on_pending_def
      register_def get_request_def)


lemma temp_password_key: "control_key env (ssl_temp_password e name auth_type minutes num phone s t) = None"
  by (simp add: control_key_def ssl_temp_password_def trailer_fields_def CMD_CONTROL_def Let_def)

lemma send_failed_result:
  "\<exists>w'. send_failed key e w = (Inl connection_error, w')"
  using send_failed_run [of key e w] by metis

lemma cancelled_send_frame:
  assumes "control_key env data = None" "k \<noteq> DEFAULT_KEY" "\<And>bytes w. ce_drain env bytes w = (Inl cancelled_error, w)"
  obtains e w1 where "send_packet env data k w = (Inl e, w1)" "e = cancelled_error \<longrightarrow> w1 = w"
proof (cases "cl_writer w")
  case False
  then show ?thesis using that send_failed_result [of None connection_error w] by (auto simp: send_packet_def)
next
  case True
  have "\<exists>e. write_packet env data k w = (Inl e, w)" using assms(2,3)
    by (auto simp: write_packet_def choose_type_def bindS_def split: option.split sum.split)
  then obtain e where e: "write_packet env data k w = (Inl e, w)" by blast
  have run: "send_packet env data k w = (if e = cancelled_error then raiseS e else send_failed None e) w"
    using True e assms(1) by (simp add: send_packet_def register_control_def catchS_def)
  obtain w' where "send_failed None e w = (Inl connection_error, w')" using send_failed_result by blast
  with run show ?thesis by (cases "e = cancelled_error") (auto intro: that)
qed

text \<open>Temporary passwords and their withdrawals go out one at a time, and a request that was given up while its
  packet was being written is never taken back: it stays in the registry although nobody waits for it, and from then on
  every such request, by any caller and for any lock, returns \<^verbatim>\<open>None\<close> at once and sends nothing, until the
  connection is lost. (\<^verbatim>\<open>send_meari_session\<close> has a \<^verbatim>\<open>finally\<close> for this case; these two have none.)\<close>

lemma interrupted_request_blocks:
  assumes "send_temp_password env d uid name auth_type minutes num phone start_time end_time w = (Inl cancelled_error, w1)"
    and "cl_connected w" "cl_session_key w = Some k" "k \<noteq> []" "k \<noteq> DEFAULT_KEY"
    and "get_request ''temp_authorization'' (cl_pending w) = None"
    and "\<And>bytes w. ce_drain env bytes w = (Inl cancelled_error, w)"
  shows "send_temp_password env' d' uid' name' auth_type' minutes' num' phone' start_time' end_time' w1 = (Inr None, w1)
    \<and> delete_authorization env' d' uid' authorized_id w1 = (Inr None, w1)"
proof -
  have r: "ready w k" using assms by (simp add: ready_def)
  obtain w2 where w2: "try_register ''temp_authorization'' w = (Inr (Some (length (rg_futs (cl_pending w)))), w2)"
    and w2_def: "w2 = w\<lparr>cl_pending := snd (new_request ''temp_authorization'' (cl_pending w))\<rparr>"
    using assms(6) by (simp add: try_register_def bindS_def catchS_def on_pending_def register_def get_request_def new_request_def)
  have pending: "ready w2 k" "answers_pending w2"
    using r by (simp_all add: w2_def ready_def answers_pending_def get_request_def new_request_def update_conv' is_waiting_def)
  obtain s t where "send_and_wait env (ssl_temp_password (fresh_ids env d uid w) name auth_type minutes num phone s t) k w
      = (Inl cancelled_error, w1)"
    using assms(1) r by (auto simp: send_temp_password_def ready_session split: prod.splits)
  moreover obtain e w3 where "send_packet env (ssl_temp_password (fresh_ids env d uid w) name auth_type minutes num phone s t) k w2
      = (Inl e, w3)" "e = cancelled_error \<longrightarrow> w3 = w2"
    using cancelled_send_frame [OF temp_password_key assms(5,7)] by blast
  ultimately have "w1 = w2" using w2 by (simp add: send_and_wait_def bindS_def)
  then show ?thesis using pending
    by (simp add: pending_refuses send_temp_password_def delete_authorization_def ready_session split: prod.split)
qed

section \<open>Witnesses\<close>

text \<open>A connected client. Its cipher drops all but the first block, which bounds the length of a packet.\<close>

definition sample_cloud_at :: "'x \<Rightarrow> 'x cloud" where
  "sample_cloud_at x = \<lparr>cl_connected = True, cl_writer = True, cl_reader = True, cl_session_id = Some (replicate 32 CHR ''s''),
     cl_session_key = Some (replicate 16 CHR ''k''), cl_closed = False, cl_keys = [], cl_pending = new_registry,
     cl_meari = None, cl_awaited = False, cl_login_result = True, cl_login_status = VInt 0, cl_login_msg = VNone,
     cl_listening = True, cl_beating = True, cl_failures = 0, cl_outside = x\<rparr>"

abbreviation sample_cloud :: "unit cloud" where "sample_cloud \<equiv> sample_cloud_at ()"

definition block_cipher :: cipher where
  "block_cipher = sample_cipher\<lparr>aes_encrypt := (\<lambda>k. take 16)\<rparr>"

definition sample_cloud_env :: "py_exn option \<Rightarrow> 'x cloud_env" where
  "sample_cloud_env err = \<lparr>ce_user = ''user'', ce_password = ''D41D'', ce_family = ''family'',
     ce_text = (\<lambda>v. case v of VStr s \<Rightarrow> s | _ \<Rightarrow> []), ce_float_text = (\<lambda>r. []),
     ce_cipher = block_cipher,
     ce_serials = (\<lambda>x. (1, 2)), ce_now = (\<lambda>x. 1000), ce_login = retS False,
     ce_drain = (\<lambda>bytes. case err of None \<Rightarrow> retS () | Some e \<Rightarrow> raiseS e), ce_wait = (\<lambda>key. retS False),
     ce_report = (\<lambda>d s. retS ())\<rparr>"

lemma sample_key: "replicate 16 CHR ''k'' \<noteq> DEFAULT_KEY"
  unfolding DEFAULT_KEY_def by code_simp

lemma sample_ready: "ready sample_cloud (replicate 16 CHR ''k'')"
  using sample_key by (simp add: ready_def sample_cloud_at_def)

lemma sample_cloud_simps [simp]:
  "ce_cipher (sample_cloud_env err) = block_cipher" "ce_float_text (sample_cloud_env err) = (\<lambda>r. [])"
  by (simp_all add: sample_cloud_env_def)

lemma block_packet:
  "length t = 2 \<Longrightarrow> length key = 16 \<Longrightarrow> length sid = 32 \<Longrightarrow>
     \<exists>bytes. cloud_build_packet block_cipher ft t key sid v = Inr bytes"
  by (simp add: cloud_build_packet_def block_cipher_def AES_KEY_LENGTHS_def Let_def MAGIC_def min_le_iff_disj
      del: dumps.simps)

lemma sample_write:
  "write_packet (sample_cloud_env (Some e)) data (replicate 16 CHR ''k'') (sample_cloud\<lparr>cl_pending := p\<rparr>)
     = (Inl e, sample_cloud\<lparr>cl_pending := p\<rparr>)"
proof -
  have "ce_drain (sample_cloud_env (Some e)) bytes w = (Inl e, w)" for bytes w by (simp add: sample_cloud_env_def)
  moreover have "cl_session_id (sample_cloud\<lparr>cl_pending := p\<rparr>) = Some (replicate 32 CHR ''s'')" by (simp add: sample_cloud_at_def)
  moreover obtain bytes where "cloud_build_packet block_cipher (\<lambda>r. []) DK_TYPE (replicate 16 CHR ''k'') (replicate 32 CHR ''s'')
      (VDict data) = Inr bytes"
    using block_packet [of DK_TYPE "replicate 16 CHR ''k''" "replicate 32 CHR ''s''"] by (auto simp: DK_TYPE_def)
  ultimately show ?thesis using sample_key
    by (simp add: write_packet_def choose_type_def bindS_def del: dumps.simps)
qed

theorem transports_agree_witness:
  "\<exists>m. (\<forall>gw :: unit gateway. lan_invoke gw (fresh_ids (sample_cloud_env None) ''lamp'' VNone sample_cloud) ''send_control_switch'' [VBool True] []
       = lan_send gw m) \<and>
     cloud_invoke (sample_cloud_env None) ''lamp'' VNone ''send_control_switch'' [VBool True] [] sample_cloud
       = bindS (liftE m) (\<lambda>p. bindS (send_packet (sample_cloud_env None) p (replicate 16 CHR ''k'')) (\<lambda>_. retS True)) sample_cloud"
  using sample_ready by (intro transports_agree) (simp_all add: ready_def OWN_METHODS_def)

end
