(* ===== verification/Cloud_Session.thy ===== *)
theory Cloud_Session
  imports Cloud_Client
begin

text \<open>
  The session of the cloud connection: \<^verbatim>\<open>ssl_transport.py\<close> and the rest of \<^verbatim>\<open>ssl_client.py\<close>, that is the login,
  the two background tasks (heartbeat and listener), the recovery of a lost connection and the handlers of the
  packets that arrive. \<open>session_cloud\<close> ties the login to the controls of \<open>Cloud_Client\<close>.

  As there, every await is a parameter of \<open>session_env\<close>, at which any other coroutine may run and which may
  raise; a cancelled task gets \<open>cancelled_error\<close> from it. A task is one turn of its loop. The opening of the
  TLS stream, its bytes and the consumer of the reports are parameters; log messages are not modelled.
\<close>

section \<open>The stream\<close>

datatype task = Listener | Heartbeat

record 'x session_env =
  se_cloud :: "'x cloud_env"
  se_retry :: int
  se_beat :: int
  se_uuid :: "'x \<Rightarrow> string"
  se_expired :: "'x \<Rightarrow> bool"
  se_session :: "string option \<Rightarrow> ('x, unit) io"
  se_open :: "('x cloud, unit) io"
  se_wait_closed :: "('x cloud, unit) io"
  se_read :: "nat \<Rightarrow> ('x cloud, string) io"
  se_sleep :: "int \<Rightarrow> ('x cloud, unit) io"
  se_lock :: "('x cloud, unit) io"
  se_join :: "task \<Rightarrow> ('x cloud, unit) io"
  se_login_answer :: "('x cloud, bool) io"

definition timeout_error :: py_exn where "timeout_error = OtherError ''TimeoutError''"
definition incomplete_read :: py_exn where "incomplete_read = OtherError ''IncompleteReadError''"

definition CONNECTION_ERRORS :: "py_exn list" where
  "CONNECTION_ERRORS = map OtherError [''ConnectionError'', ''ConnectionResetError'', ''ConnectionAbortedError'',
     ''ConnectionRefusedError'', ''BrokenPipeError'']"

text \<open>\<^verbatim>\<open>except CancelledError\<close>\<close>

definition except_cancelled :: "('w, 'a) io \<Rightarrow> ('w, 'a) io \<Rightarrow> ('w, 'a) io" where
  "except_cancelled m h = catchS m (\<lambda>e. if e = cancelled_error then h else raiseS e)"

definition transport_connect :: "'x session_env \<Rightarrow> ('x cloud, bool) io" where
  "transport_connect env =
     bindS (getS cl_connected) (\<lambda>b. if b then retS True
       else bindS (se_open env) (\<lambda>_.
            bindS (modifyS (\<lambda>w. w\<lparr>cl_reader := True, cl_writer := True, cl_connected := True\<rparr>)) (\<lambda>_. retS True)))"

definition transport_close :: "'x session_env \<Rightarrow> ('x cloud, unit) io" where
  "transport_close env =
     finallyS
       (bindS (getS cl_writer) (\<lambda>open. if \<not> open then retS ()
          else bindS (modifyS (\<lambda>w. w\<lparr>cl_writer := False\<rparr>)) (\<lambda>_.
               catchS (se_wait_closed env) (\<lambda>e. if e \<in> set STREAM_ERRORS then retS () else raiseS e))))
       (modifyS (\<lambda>w. w\<lparr>cl_reader := False, cl_writer := False, cl_connected := False\<rparr>))"


section \<open>Connecting and disconnecting\<close>

definition connect :: "'x session_env \<Rightarrow> ('x cloud, bool) io" where
  "connect env = bindS (getS cl_connected) (\<lambda>b. if b then retS True
     else except_any (transport_connect env) (\<lambda>e. retS False))"

definition end_task :: "'x session_env \<Rightarrow> task \<Rightarrow> ('x cloud, unit) io" where
  "end_task env t =
     bindS (getS (case t of Listener \<Rightarrow> cl_listening | Heartbeat \<Rightarrow> cl_beating)) (\<lambda>running.
       if running then except_cancelled (se_join env t) (retS ()) else retS ())"

definition disconnect :: "'x session_env \<Rightarrow> task option \<Rightarrow> bool \<Rightarrow> ('x cloud, unit) io" where
  "disconnect env current permanent =
     bindS (modifyS (\<lambda>w. w\<lparr>cl_connected := False, cl_closed := permanent\<rparr>)) (\<lambda>_.
     bindS (if current = Some Listener then retS () else end_task env Listener) (\<lambda>_.
     bindS (if current = Some Heartbeat then retS () else end_task env Heartbeat) (\<lambda>_.
     bindS (modifyS (\<lambda>w. w\<lparr>cl_listening := False, cl_beating := False\<rparr>)) (\<lambda>_.
     bindS (getS cl_writer) (\<lambda>open.
     bindS (if open then except_any (transport_close env) (\<lambda>e. retS ()) else transport_close env) (\<lambda>_.
     bindS (modifyS (\<lambda>w. w\<lparr>cl_session_id := None, cl_session_key := None\<rparr>)) (\<lambda>_.
     cancel_requests)))))))"

section \<open>Logging in\<close>

definition ssl_get_session :: "string \<Rightarrow> int \<times> int \<Rightarrow> dict" where
  "ssl_get_session identifier serials =
     [(''source'', VStr ''ZhiJia365''), (''softwareVersion'', VStr ''50103309''),
      (''sysVersion'', VStr ''Android14_34''), (''hardwareVersion'', VStr ''Google Pixel 8''),
      (''language'', VStr ''zh''), (''identifier'', VStr (take 12 identifier)), (''phoneName'', VStr ''Pixel 8''),
      (''cmd'', VInt CMD_HELLO), (''serial'', VInt (fst serials)), (''clientType'', VInt 1),
      (''uniSerial'', VInt (snd serials)), (''serverRecord'', VBool False), (''ver'', VStr SOFTWARE_VER),
      (''debugInfo'', VStr DEBUG_INFO)]"

definition ssl_login :: "string \<Rightarrow> string \<Rightarrow> string \<Rightarrow> int \<Rightarrow> dict" where
  "ssl_login username password_md5 family_id serial =
     [(''userName'', VStr username), (''password'', VStr password_md5), (''cmd'', VInt CMD_LOGIN),
      (''serial'', VInt serial), (''clientType'', VInt 1), (''source'', VStr SOFTWARE_VER),
      (''familyId'', VStr family_id), (''type'', VInt 4), (''needAccountDetailError'', VBool True)]"

definition CMD_HEARTBEAT :: int where "CMD_HEARTBEAT = 32"

definition ssl_heartbeat :: "int \<times> int \<Rightarrow> dict" where
  "ssl_heartbeat serials =
     [(''cmd'', VInt CMD_HEARTBEAT), (''serial'', VInt (fst serials)), (''clientType'', VInt 1),
      (''uniSerial'', VInt (snd serials)), (''serverRecord'', VBool False), (''ver'', VStr SOFTWARE_VER),
      (''debugInfo'', VStr DEBUG_INFO)]"

definition new_serials :: "'x session_env \<Rightarrow> ('x cloud, int \<times> int) io" where
  "new_serials env = getS (\<lambda>w. ce_serials (se_cloud env) (cl_outside w))"

definition send_hello :: "'x session_env \<Rightarrow> ('x cloud, unit) io" where
  "send_hello env =
     bindS (new_serials env) (\<lambda>serials. bindS (getS (\<lambda>w. se_uuid env (cl_outside w))) (\<lambda>uuid.
       send_packet (se_cloud env) (ssl_get_session uuid serials) DEFAULT_KEY))"

definition send_login :: "'x session_env \<Rightarrow> ('x cloud, bool) io" where
  "send_login env =
     bindS (getS cl_connected) (\<lambda>b. if \<not> b then retS False
     else
       let c = se_cloud env
       in bindS (new_serials env) (\<lambda>serials.
          bindS (getS cl_session_key) (\<lambda>key.
            if \<not> key_ready key then retS False
            else
              bindS (modifyS (\<lambda>w. w\<lparr>cl_awaited := True\<rparr>)) (\<lambda>_.
              bindS (send_packet c (ssl_login (ce_user c) (ce_password c) (ce_family c) (fst serials)) (the key)) (\<lambda>_.
              finallyS
                (bindS (se_login_answer env) (\<lambda>late. if late then retS False else getS cl_login_result))
                (modifyS (\<lambda>w. w\<lparr>cl_awaited := False\<rparr>)))))))"

text \<open>One attempt: \<open>False\<close> when the loop goes on with the next one.\<close>

definition login_attempt :: "'x session_env \<Rightarrow> ('x cloud, bool) io" where
  "login_attempt env =
     bindS (connect env) (\<lambda>b.
     bindS (modifyS (\<lambda>w. w\<lparr>cl_connected := b\<rparr>)) (\<lambda>_.
     if \<not> b then retS False
     else
       bindS (send_hello env) (\<lambda>_.
       bindS (modifyS (\<lambda>w. w\<lparr>cl_listening := True\<rparr>)) (\<lambda>_.
       bindS (se_sleep env 3) (\<lambda>_.
       bindS (send_login env) (\<lambda>ok.
         if ok then bindS (modifyS (\<lambda>w. w\<lparr>cl_beating := True\<rparr>)) (\<lambda>_. retS True)
         else bindS (disconnect env None False) (\<lambda>_. raiseS connection_error)))))))"

fun login_rounds :: "'x session_env \<Rightarrow> int \<Rightarrow> nat \<Rightarrow> ('x cloud, bool) io" where
  "login_rounds env retry 0 = retS False"
| "login_rounds env retry (Suc n) =
     bindS (except_any (login_attempt env)
              (\<lambda>e. bindS (se_sleep env (se_retry env * (retry + 1))) (\<lambda>_. retS False)))
       (\<lambda>ok. if ok then retS True else login_rounds env (retry + 1) n)"

definition connect_session :: "'x session_env \<Rightarrow> ('x cloud, bool) io" where
  "connect_session env =
     bindS (modifyS (\<lambda>w. w\<lparr>cl_closed := False\<rparr>)) (\<lambda>_.
     bindS (end_task env Listener) (\<lambda>_. bindS (modifyS (\<lambda>w. w\<lparr>cl_listening := False\<rparr>)) (\<lambda>_.
     bindS (end_task env Heartbeat) (\<lambda>_. bindS (modifyS (\<lambda>w. w\<lparr>cl_beating := False\<rparr>)) (\<lambda>_.
     login_rounds env 0 3)))))"

definition session_cloud :: "'x session_env \<Rightarrow> 'x cloud_env" where
  "session_cloud env = (se_cloud env)\<lparr>ce_login := connect_session env\<rparr>"

section \<open>The heartbeat\<close>

datatype turn = Again | Break | Return

definition HEARTBEAT_MAX_FAILURES :: nat where "HEARTBEAT_MAX_FAILURES = 2"

definition beat_once :: "'x session_env \<Rightarrow> ('x cloud, turn) io" where
  "beat_once env =
     bindS (se_sleep env (se_beat env)) (\<lambda>_.
     bindS (getS (\<lambda>w. (cl_connected w, cl_session_key w))) (\<lambda>(b, key).
       if \<not> b then retS Break
       else if \<not> key_ready key then retS Again
       else bindS (new_serials env) (\<lambda>serials.
            bindS (send_packet (se_cloud env) (ssl_heartbeat serials) (the key)) (\<lambda>_.
            bindS (modifyS (\<lambda>w. w\<lparr>cl_failures := 0\<rparr>)) (\<lambda>_. retS Again)))))"

definition beat_failed :: "'x session_env \<Rightarrow> ('x cloud, turn) io" where
  "beat_failed env =
     bindS (modifyS (\<lambda>w. w\<lparr>cl_failures := Suc (cl_failures w)\<rparr>)) (\<lambda>_.
     bindS (getS cl_failures) (\<lambda>n.
       if HEARTBEAT_MAX_FAILURES \<le> n
       then bindS (modifyS (\<lambda>w. w\<lparr>cl_failures := 0, cl_connected := False\<rparr>)) (\<lambda>_. retS Return)
       else bindS (se_sleep env 1) (\<lambda>_. retS Again)))"

definition heartbeat_turn :: "'x session_env \<Rightarrow> ('x cloud, turn) io" where
  "heartbeat_turn env =
     bindS (getS cl_connected) (\<lambda>b. if \<not> b then retS Break
       else catchS (beat_once env) (\<lambda>e. if e = cancelled_error then retS Return else beat_failed env))"

section \<open>Recovery\<close>

text \<open>\<^verbatim>\<open>asyncio.wait_for\<close>: a cancellation that its timer has caused becomes a timeout.\<close>

definition wait_for :: "'x session_env \<Rightarrow> ('x cloud, 'a) io \<Rightarrow> ('x cloud, 'a) io" where
  "wait_for env m =
     catchS m (\<lambda>e. bindS (getS (\<lambda>w. e = cancelled_error \<and> se_expired env (cl_outside w)))
       (\<lambda>late. raiseS (if late then timeout_error else e)))"

definition reconnect :: "'x session_env \<Rightarrow> ('x cloud, bool) io" where
  "reconnect env =
     bindS (se_lock env) (\<lambda>_.
     bindS (getS cl_connected) (\<lambda>b. if b then retS True
     else
       bindS (except_any (disconnect env (Some Listener) False) (\<lambda>e. retS ())) (\<lambda>_.
       if 0 < se_retry env then
         bindS (se_sleep env (se_retry env)) (\<lambda>_.
         bindS (catchS (wait_for env (connect_and_login (session_cloud env)))
                  (\<lambda>e. raiseS (if e = timeout_error then connection_error else e))) (\<lambda>success.
           if success then retS True else raiseS connection_error))
       else raiseS connection_error)))"

definition MAX_RECONNECT :: nat where "MAX_RECONNECT = 5"

definition recovery_failed :: "'x session_env \<Rightarrow> nat \<Rightarrow> py_exn \<Rightarrow> ('x cloud, bool) io" where
  "recovery_failed env count e =
     (if e \<in> set CONNECTION_ERRORS
      then bindS (se_sleep env (min (se_retry env * 2 ^ count) 60)) (\<lambda>_. retS False)
      else if e = cancelled_error then retS True else raiseS e)"

fun recover :: "'x session_env \<Rightarrow> nat \<Rightarrow> nat \<Rightarrow> ('x cloud, unit) io" where
  "recover env count 0 = retS ()"
| "recover env count (Suc n) =
     bindS (getS cl_closed) (\<lambda>closed. if closed then retS ()
     else bindS (catchS (bindS (reconnect env) (\<lambda>_. retS True)) (recovery_failed env count))
       (\<lambda>over. if over then retS () else recover env (Suc count) n))"

definition stream_lost :: "'x session_env \<Rightarrow> ('x cloud, unit) io" where
  "stream_lost env =
     bindS (modifyS (\<lambda>w. w\<lparr>cl_connected := False\<rparr>)) (\<lambda>_.
     bindS cancel_requests (\<lambda>_. recover env 0 MAX_RECONNECT))"

section \<open>What arrives\<close>

definition report :: "'x cloud_env \<Rightarrow> pyval \<Rightarrow> dict \<Rightarrow> ('x cloud, unit) io" where
  "report env dev status w = (case ce_report env dev status (cl_outside w) of (r, x) \<Rightarrow> (r, w\<lparr>cl_outside := x\<rparr>))"



text \<open>The answer to the login is set once the event of the login is.\<close>

definition handle_login :: "dict \<Rightarrow> ('x cloud, bool) io" where
  "handle_login data =
     (let status = get data ''status''; result = (py_eq status (VInt 0) \<or> truthy (get data ''userId''))
      in bindS (modifyS (\<lambda>w. w\<lparr>cl_login_result := result, cl_login_status := status, cl_login_msg := get data ''msg''\<rparr>))
         (\<lambda>_. retS result))"

text \<open>The elements a \<^verbatim>\<open>for\<close> loop visits.\<close>

fun py_iter :: "pyval \<Rightarrow> pyval list py" where
  "py_iter (VList vs) = Inr vs"
| "py_iter (VDict d) = Inr (map (VStr \<circ> fst) d)"
| "py_iter (VStr s) = Inr (map (\<lambda>c. VStr [c]) s)"
| "py_iter _ = Inl TypeError"

fun py_word :: "pyval \<Rightarrow> string py" where
  "py_word (VStr s) = Inr (py_lower (py_strip s))"
| "py_word _ = Inl AttributeError"

definition uploaded_status :: "pyval \<Rightarrow> dict py" where
  "uploaded_status dev =
     bindE (vget dev ''properties'' (VDict [])) (\<lambda>props.
     bindE (vget props ''onoff'' (VDict [])) (\<lambda>onoff.
     bindE (vget onoff ''status'' VNone) (\<lambda>status.
     bindE (vget props ''value2'' VNone) (\<lambda>value2. bindE (vget props ''brightness'' value2) (\<lambda>brightness.
     bindE (vget props ''value3'' VNone) (\<lambda>value3. bindE (vget props ''colortemp'' value3) (\<lambda>color_temp.
     bindE (vget props ''percent'' VNone) (\<lambda>position.
     bindE (vget dev ''online'' (VStr [])) (\<lambda>online. bindE (py_word online) (\<lambda>online.
     Inr [(''properties'', props), (''state'', VBool (status = VStr ''on'')), (''brightness'', brightness),
          (''color_temp'', color_temp), (''position'', position),
          (''online'', VBool (online \<in> {''online'', ''1'', ''true''}))]))))))))))"

fun upload_devices :: "'x cloud_env \<Rightarrow> pyval list \<Rightarrow> ('x cloud, unit) io" where
  "upload_devices env [] = retS ()"
| "upload_devices env (dev # devs) =
     bindS (liftE (vget dev ''deviceId'' VNone)) (\<lambda>dev_id.
     if \<not> truthy dev_id then upload_devices env devs
     else bindS (liftE (uploaded_status dev)) (\<lambda>status.
          bindS (report env dev_id status) (\<lambda>_. upload_devices env devs)))"

definition handle_upload_device_list :: "'x cloud_env \<Rightarrow> dict \<Rightarrow> ('x cloud, unit) io" where
  "handle_upload_device_list env data =
     bindS (liftE (vget (dget data ''data'' (VDict [])) ''deviceList'' (VList []))) (\<lambda>device_list.
     bindS (liftE (py_iter device_list)) (upload_devices env))"

definition handle_device_status_report :: "'x cloud_env \<Rightarrow> dict \<Rightarrow> ('x cloud, unit) io" where
  "handle_device_status_report env data =
     (let dev_data = dget data ''data'' (VDict [])
      in bindS (liftE (vget dev_data ''deviceId'' VNone)) (\<lambda>dev_id.
         if \<not> truthy dev_id then retS ()
         else bindS (liftE (vget dev_data ''properties'' (VDict []))) (\<lambda>props.
              bindS (liftE (vget dev_data ''uid'' (VStr []))) (\<lambda>uid.
              report env dev_id
                [(''raw_data'', VDict data), (''properties'', props), (''deviceId'', dev_id), (''uid'', uid),
                 (''cmd'', get data ''cmd''), (''action'', get data ''action''), (''event'', get data ''event''),
                 (''online'', VBool True)]))))"

definition state_status :: "dict \<Rightarrow> dict" where
  "state_status data =
     [(''raw_data'', VDict data), (''properties'', dget data ''properties'' (VDict []))]
     @ map (\<lambda>k. (k, get data k)) [''value1'', ''value2'', ''value3'', ''value4'', ''statusType'', ''subDeviceType'',
         ''cmd'', ''action'', ''event'', ''time'']
     @ [(''deviceId'', dget data ''deviceId'' (VStr [])), (''uid'', dget data ''uid'' (VStr [])), (''online'', VBool True)]"

text \<open>The echo of a control only wakes the one who waits for it, unless it carries an event.\<close>

definition is_echo :: "dict \<Rightarrow> bool" where
  "is_echo data \<longleftrightarrow> get data ''respByAcc'' = VBool False \<and> \<not> is_dict (get data ''event'')"

definition handle_state_update :: "'x cloud_env \<Rightarrow> dict \<Rightarrow> ('x cloud, unit) io" where
  "handle_state_update env data =
     (let dev_id = dget data ''deviceId'' (VStr [])
      in bindS (resolve_request (''control:'' @ ce_text env dev_id) (Some data)) (\<lambda>_.
         if is_echo data then retS () else report env dev_id (state_status data)))"

definition handle_clothes_horse_state :: "'x cloud_env \<Rightarrow> dict \<Rightarrow> ('x cloud, unit) io" where
  "handle_clothes_horse_state env data =
     (let dev_id = dget data ''deviceId'' (VStr []); off = VStr ''off''
      in if \<not> truthy dev_id then retS ()
         else report env dev_id
           [(''raw_data'', VDict data), (''is_clothes_horse'', VBool True),
            (''motor_state'', dget data ''motorState'' (VStr ''stop'')),
            (''motor_position'', dget data ''motorPosition'' (VInt 0)),
            (''lighting_state'', dget data ''lightingState'' off),
            (''heat_drying_state'', dget data ''heatDryingState'' off),
            (''wind_drying_state'', dget data ''windDryingState'' off),
            (''sterilizing_state'', dget data ''sterilizingState'' off),
            (''main_switch_state'', dget data ''mainSwitchState'' off),
            (''deviceId'', dev_id), (''uid'', dget data ''uid'' (VStr [])), (''online'', VBool True)])"

definition handle_push_message :: "'x cloud_env \<Rightarrow> dict \<Rightarrow> ('x cloud, unit) io" where
  "handle_push_message env data =
     (let dev_id = dget data ''deviceId'' (VStr [])
      in report env (py_or dev_id (VStr []))
           [(''raw_data'', VDict data), (''cmd'', VInt 82), (''data'', get data ''data''), (''text'', get data ''text''),
            (''infoType'', get data ''infoType''), (''messageType'', get data ''messageType''), (''deviceId'', dev_id),
            (''uid'', dget data ''uid'' (VStr [])), (''online'', VBool True)])"

definition handle_meari_session_response :: "'x cloud_env \<Rightarrow> dict \<Rightarrow> ('x cloud, unit) io" where
  "handle_meari_session_response env data =
     bindS (getS cl_meari) (\<lambda>m. case m of
         None \<Rightarrow> retS ()
       | Some expected \<Rightarrow>
           if list_ex (\<lambda>k. has_key data k \<and> ce_text env (get data k) \<noteq> ce_text env (get expected k))
                [''serial'', ''uniSerial'', ''familyId'']
           then retS ()
           else bindS (resolve_request ''meari_session'' (Some data)) (\<lambda>_. retS ()))"

definition answer_request :: "string \<Rightarrow> dict \<Rightarrow> ('x cloud, unit) io" where
  "answer_request key data = bindS (resolve_request key (Some data)) (\<lambda>_. retS ())"

section \<open>The listener\<close>







section \<open>Helper lemmas\<close>

lemma always_catch: "always I m \<Longrightarrow> (\<And>e. always I (h e)) \<Longrightarrow> always I (catchS m h)"
  unfolding always_def catchS_def by (auto split: prod.splits sum.splits; metis snd_conv)

lemma always_raise [simp]: "always I (raiseS e)"
  by (simp add: always_def)

lemma always_pair [simp]: "always I (Pair r)"
  by (simp add: always_def)

lemmas always_intros = always_bind always_catch always_if always_option

text \<open>The handlers other than that of the hello leave the session alone.\<close>

definition keeps_key :: "string \<Rightarrow> 'x cloud \<Rightarrow> bool" where
  "keeps_key k w \<longleftrightarrow> cl_session_key w = Some k"

lemma report_keeps [simp]: "always (keeps_key k) (report env dev status)"
  by (simp add: always_def report_def keeps_key_def split: prod.split)

lemma resolve_keeps [simp]: "always (keeps_key k) (resolve_request key r)"
  by (simp add: always_def resolve_request_def on_pending_def keeps_key_def split: prod.split)

lemma modify_keeps: "(\<And>w. cl_session_key (f w) = cl_session_key w) \<Longrightarrow> always (keeps_key k) (modifyS f)"
  by (simp add: always_def keeps_key_def)

lemma upload_keeps: "always (keeps_key k) (upload_devices env devs)"
  by (induction devs) (auto intro!: always_intros)

lemma handlers_keep [simp]:
  "always (keeps_key k) (handle_login data)"
  "always (keeps_key k) (handle_upload_device_list c data)"
  "always (keeps_key k) (handle_device_status_report c data)"
  "always (keeps_key k) (handle_state_update c data)"
  "always (keeps_key k) (handle_clothes_horse_state c data)"
  "always (keeps_key k) (handle_push_message c data)"
  "always (keeps_key k) (handle_meari_session_response c data)"
  "always (keeps_key k) (answer_request key data)"
  unfolding handle_login_def handle_upload_device_list_def handle_device_status_report_def handle_state_update_def
    handle_clothes_horse_state_def handle_push_message_def handle_meari_session_response_def answer_request_def Let_def
  by (auto intro!: always_intros modify_keeps upload_keeps)








lemma except_any_Inr:
  assumes "except_any m h w = (Inr x, w')"
  obtains "m w = (Inr x, w')" | e w1 where "m w = (Inl e, w1)" "h e w1 = (Inr x, w')"
  using assms by (auto simp: except_any_def catchS_def split: prod.splits sum.splits if_splits)

lemma send_login_accepted:
  assumes "send_login env w = (Inr True, w')"
  shows "cl_login_result w'"
  using assms by (auto simp: send_login_def Let_def new_serials_def finallyS_def bindS_def
      split: if_splits prod.splits sum.splits)

lemma login_attempt_accepted:
  assumes "login_attempt env w = (Inr True, w')"
  shows "cl_login_result w' \<and> cl_beating w'"
proof -
  from assms obtain b w1 where b: "(if \<not> b then retS False else bindS (send_hello env) (\<lambda>_.
       bindS (modifyS (\<lambda>w. w\<lparr>cl_listening := True\<rparr>)) (\<lambda>_. bindS (se_sleep env 3) (\<lambda>_.
       bindS (send_login env) (\<lambda>ok. if ok then bindS (modifyS (\<lambda>w. w\<lparr>cl_beating := True\<rparr>)) (\<lambda>_. retS True)
         else bindS (disconnect env None False) (\<lambda>_. raiseS connection_error)))))) w1 = (Inr True, w')"
    unfolding login_attempt_def by (elim bindS_InrE)
  then have b by (cases b) auto
  with b obtain w2 ok w3 where ok: "send_login env w2 = (Inr ok, w3)"
    "(if ok then bindS (modifyS (\<lambda>w. w\<lparr>cl_beating := True\<rparr>)) (\<lambda>_. retS True)
         else bindS (disconnect env None False) (\<lambda>_. raiseS connection_error)) w3 = (Inr True, w')"
    by (auto elim!: bindS_InrE)
  have ok by (rule ccontr) (use ok(2) in \<open>auto elim!: bindS_InrE\<close>)
  then show ?thesis using ok send_login_accepted [of env w2 w3] by auto
qed

lemma login_rounds_accepted: "login_rounds env retry n w = (Inr True, w') \<Longrightarrow> cl_login_result w' \<and> cl_beating w'"
proof (induction n arbitrary: retry w)
  case (Suc n)
  then obtain ok w1 where ok: "except_any (login_attempt env)
        (\<lambda>e. bindS (se_sleep env (se_retry env * (retry + 1))) (\<lambda>_. retS False)) w = (Inr ok, w1)"
      "(if ok then retS True else login_rounds env (retry + 1) n) w1 = (Inr True, w')"
    by (auto elim!: bindS_InrE)
  show ?case
  proof (cases ok)
    case True
    with ok(1) have "login_attempt env w = (Inr True, w1)" by (auto elim!: except_any_Inr bindS_InrE)
    then show ?thesis using login_attempt_accepted ok(2) True by auto
  next
    case False
    with ok(2) Suc.IH show ?thesis by simp
  qed
qed simp

lemma connect_session_accepted: "connect_session env w = (Inr True, w') \<Longrightarrow> cl_login_result w' \<and> cl_beating w'"
  unfolding connect_session_def by (elim bindS_InrE) (erule login_rounds_accepted)

lemma disconnect_clean:
  assumes "disconnect env current permanent w = (Inr (), w')"
  shows "cl_session_key w' = None \<and> cl_session_id w' = None \<and> rg_table (cl_pending w') = []"
  using assms unfolding disconnect_def cancel_requests_def by (auto elim!: bindS_InrE)


section \<open>A server that refuses every connection\<close>

datatype effort = Slept int | Dialled

definition logged :: "effort \<Rightarrow> effort list cloud \<Rightarrow> effort list cloud" where
  "logged x w = w\<lparr>cl_outside := cl_outside w @ [x]\<rparr>"

text \<open>The connection is refused, and no other coroutine interferes.\<close>

definition refusing :: "effort list session_env \<Rightarrow> effort list session_env" where
  "refusing env = env\<lparr>se_open := \<lambda>w. (Inl (OtherError ''ConnectionRefusedError''), logged Dialled w),
     se_sleep := \<lambda>n w. (Inr (), logged (Slept n) w), se_lock := retS (), se_join := \<lambda>t. retS (),
     se_wait_closed := retS ()\<rparr>"

lemma refusing_simps [simp]:
  "se_open (refusing env) w = (Inl (OtherError ''ConnectionRefusedError''), logged Dialled w)"
  "se_sleep (refusing env) n w = (Inr (), logged (Slept n) w)"
  "se_lock (refusing env) = retS ()" "se_join (refusing env) t = retS ()" "se_wait_closed (refusing env) = retS ()"
  "se_retry (refusing env) = se_retry env" "se_cloud (refusing env) = se_cloud env"
  by (simp_all add: refusing_def)

lemma logged_simps [simp]:
  "cl_connected (logged x w) = cl_connected w" "cl_closed (logged x w) = cl_closed w"
  "cl_session_key (logged x w) = cl_session_key w" "cl_outside (logged x w) = cl_outside w @ [x]"
  "cl_listening (logged x w) = cl_listening w" "cl_beating (logged x w) = cl_beating w"
  by (simp_all add: logged_def)

definition down :: "'x cloud \<Rightarrow> bool" where
  "down w \<longleftrightarrow> \<not> cl_connected w \<and> \<not> cl_closed w \<and> cl_session_key w = None"

lemma end_task_refusing [simp]: "end_task (refusing env) t = retS ()"
  by (cases t) (simp_all add: end_task_def except_cancelled_def catchS_def fun_eq_iff)

lemma disconnect_refusing:
  "\<exists>w'. disconnect (refusing env) current False w = (Inr (), w') \<and> down w' \<and> cl_outside w' = cl_outside w"
  by (simp add: disconnect_def transport_close_def finallyS_def except_any_def catchS_def cancel_requests_def
      down_def bindS_def)

lemma rounds_refusing:
  "down w \<Longrightarrow> \<exists>w'. login_rounds (refusing env) retry n w = (Inr False, w') \<and> down w'
     \<and> cl_outside w' = cl_outside w @ replicate n Dialled"
proof (induction n arbitrary: retry w)
  case (Suc n)
  then have "login_attempt (refusing env) w = (Inr False, (logged Dialled w)\<lparr>cl_connected := False\<rparr>)"
    by (simp add: login_attempt_def connect_def transport_connect_def except_any_def catchS_def bindS_def down_def
        cancelled_error_def)
  moreover have "down ((logged Dialled w)\<lparr>cl_connected := False\<rparr>)" using Suc.prems by (simp add: down_def)
  from Suc.IH [OF this, of "retry + 1"] obtain w' where
    "login_rounds (refusing env) (retry + 1) n ((logged Dialled w)\<lparr>cl_connected := False\<rparr>) = (Inr False, w')" "down w'"
    "cl_outside w' = cl_outside w @ [Dialled] @ replicate n Dialled" by auto
  ultimately show ?case by (simp add: bindS_def except_any_def catchS_def)
qed simp

lemma reconnect_refusing:
  assumes "\<not> cl_connected w" "0 < se_retry env"
  shows "\<exists>w'. reconnect (refusing env) w = (Inl connection_error, w') \<and> down w'
    \<and> cl_outside w' = cl_outside w @ [Slept (se_retry env), Dialled, Dialled, Dialled]"
proof -
  obtain w1 where w1: "disconnect (refusing env) (Some Listener) False w = (Inr (), w1)" "down w1" "cl_outside w1 = cl_outside w"
    using disconnect_refusing by blast
  let ?w2 = "(logged (Slept (se_retry env)) w1)\<lparr>cl_closed := False, cl_listening := False, cl_beating := False\<rparr>"
  have "down ?w2" using w1(2) by (simp add: down_def)
  from rounds_refusing [OF this, of env 0 3] obtain w3 where w3:
    "login_rounds (refusing env) 0 3 ?w2 = (Inr False, w3)" "down w3" "cl_outside w3 = cl_outside ?w2 @ replicate 3 Dialled"
    by blast
  have "connect_session (refusing env) (logged (Slept (se_retry env)) w1) = (Inr False, w3)"
    using w3(1) by (simp add: connect_session_def)
  then have "wait_for (refusing env) (connect_and_login (session_cloud (refusing env))) (logged (Slept (se_retry env)) w1) = (Inr False, w3)"
    using w1(2) by (simp add: wait_for_def catchS_def connect_and_login_def session_cloud_def down_def)
  then have "reconnect (refusing env) w = (Inl connection_error, w3)"
    using assms w1(1) by (simp add: reconnect_def except_any_def catchS_def bindS_def)
  then show ?thesis using w3(2,3) w1(3) by (simp add: numeral_3_eq_3)
qed

definition one_round :: "int \<Rightarrow> nat \<Rightarrow> effort list" where
  "one_round r i = [Slept r, Dialled, Dialled, Dialled, Slept (min (r * 2 ^ i) 60)]"

lemma recover_refusing:
  assumes "0 < se_retry env"
  shows "\<not> cl_connected w \<Longrightarrow> \<not> cl_closed w \<Longrightarrow> \<exists>w'. recover (refusing env) count n w = (Inr (), w')
    \<and> \<not> cl_connected w' \<and> \<not> cl_closed w' \<and> (0 < n \<longrightarrow> cl_session_key w' = None)
    \<and> cl_outside w' = cl_outside w @ concat (map (one_round (se_retry env)) [count..<count + n])"
proof (induction n arbitrary: count w)
  case (Suc n)
  obtain w1 where w1: "reconnect (refusing env) w = (Inl connection_error, w1)" "down w1"
    "cl_outside w1 = cl_outside w @ [Slept (se_retry env), Dialled, Dialled, Dialled]"
    using reconnect_refusing [OF Suc.prems(1) assms] by blast
  let ?w2 = "logged (Slept (min (se_retry env * 2 ^ count) 60)) w1"
  have d: "\<not> cl_connected ?w2" "\<not> cl_closed ?w2" "cl_session_key ?w2 = None" using w1(2) by (simp_all add: down_def)
  from Suc.IH [OF d(1,2), of "Suc count"] obtain w' where w': "recover (refusing env) (Suc count) n ?w2 = (Inr (), w')"
    "\<not> cl_connected w'" "\<not> cl_closed w'" "0 < n \<longrightarrow> cl_session_key w' = None"
    "cl_outside w' = cl_outside ?w2 @ concat (map (one_round (se_retry env)) [Suc count..<Suc count + n])" by blast
  have e: "connection_error \<in> set CONNECTION_ERRORS" by (simp add: connection_error_def CONNECTION_ERRORS_def)
  have run: "recover (refusing env) count (Suc n) w = (Inr (), w')"
    using Suc.prems w1(1) w'(1) e by (simp add: bindS_def catchS_def recovery_failed_def)
  have key: "cl_session_key w' = None"
  proof (cases n)
    case 0
    then show ?thesis using w'(1) d(3) by simp
  qed (use w'(4) in simp)
  have "cl_outside w' = cl_outside w @ concat (map (one_round (se_retry env)) [count..<count + Suc n])"
    using w'(5) w1(3) by (simp add: upt_conv_Cons one_round_def del: upt_Suc)
  with run key w'(2,3) show ?case by blast
qed simp

section \<open>Properties\<close>

text \<open>A login succeeds only if the server has accepted it: whatever the other coroutines do at the awaits, when
  a disconnected client reports that it has connected and logged in, the last answer to a login was positive and the
  heartbeat has been started.\<close>

lemma login_needs_acceptance:
  assumes "connect_and_login (session_cloud env) w = (Inr True, w')" "\<not> cl_connected w"
  shows "cl_login_result w' \<and> cl_beating w'"
  using assms connect_session_accepted by (simp add: connect_and_login_def session_cloud_def)

text \<open>C38. When the server refuses every connection, the recovery of a lost connection ends, without an error, after
  five rounds: each waits for the retry interval, dials three times without any pause in between (the growing pauses
  between the attempts of one login are only made when an attempt raises, which a refused connection does not) and
  waits for the backoff, which doubles from the retry interval up to one minute. After that the client is
  disconnected and has no session key.\<close>

theorem refused_server_schedule:
  assumes "0 < se_retry env" "\<not> cl_closed w"
  shows "\<exists>w'. stream_lost (refusing env) w = (Inr (), w') \<and> \<not> cl_connected w' \<and> cl_session_key w' = None
    \<and> cl_outside w' = cl_outside w @ concat (map (\<lambda>i. [Slept (se_retry env), Dialled, Dialled, Dialled,
        Slept (min (se_retry env * 2 ^ i) 60)]) [0..<5])"
proof -
  let ?w = "w\<lparr>cl_connected := False, cl_pending := cancel_all (cl_pending w)\<rparr>"
  have "\<not> cl_connected ?w" "\<not> cl_closed ?w" using assms(2) by simp_all
  from recover_refusing [OF assms(1) this, of 0 5] obtain w' where
    "recover (refusing env) 0 5 ?w = (Inr (), w')" "\<not> cl_connected w'" "cl_session_key w' = None"
    "cl_outside w' = cl_outside w @ concat (map (one_round (se_retry env)) [0..<5])" by auto
  then show ?thesis by (simp add: stream_lost_def cancel_requests_def MAX_RECONNECT_def one_round_def [abs_def] del: recover.simps upt_rec_numeral)
qed



section \<open>Witnesses\<close>

text \<open>A server that hands out a key and accepts the login while the client waits.\<close>

definition sample_session :: "'x session_env" where
  "sample_session = \<lparr>se_cloud = sample_cloud_env None, se_retry = 5, se_beat = 120, se_uuid = (\<lambda>x. replicate 32 CHR ''a''),
     se_expired = (\<lambda>x. False), se_session = (\<lambda>sid. retS ()), se_open = retS (), se_wait_closed = retS (),
     se_read = (\<lambda>n. raiseS incomplete_read),
     se_sleep = (\<lambda>n. modifyS (\<lambda>w. w\<lparr>cl_session_key := Some (replicate 16 CHR ''k'')\<rparr>)),
     se_lock = retS (), se_join = (\<lambda>t. retS ()),
     se_login_answer = bindS (modifyS (\<lambda>w. w\<lparr>cl_login_result := True\<rparr>)) (\<lambda>_. retS False)\<rparr>"

lemma sample_send:
  fixes w :: "'x cloud"
  assumes "cl_writer w" "control_key (sample_cloud_env None :: 'x cloud_env) data = None" "length key = 16"
    and "cl_session_id w = Some sid" "length sid = 32"
  shows "send_packet (sample_cloud_env None) data key w
    = (Inr (), if key = DEFAULT_KEY then w\<lparr>cl_session_id := Some ID_UNSET\<rparr> else w)"
proof -
  have l: "length PK_TYPE = 2" "length DK_TYPE = 2" "length ID_UNSET = 32" by (simp_all add: PK_TYPE_def DK_TYPE_def ID_UNSET_def)
  obtain b1 b2 where b: "cloud_build_packet block_cipher (\<lambda>r. []) PK_TYPE key ID_UNSET (VDict data) = Inr b1"
    "cloud_build_packet block_cipher (\<lambda>r. []) DK_TYPE key sid (VDict data) = Inr b2"
    using block_packet l assms(3,5) by metis
  have drain: "ce_drain (sample_cloud_env None) bytes v = (Inr (), v)" for bytes and v :: "'x cloud"
    by (simp add: sample_cloud_env_def)
  have "write_packet (sample_cloud_env None) data key w
      = (Inr (), if key = DEFAULT_KEY then w\<lparr>cl_session_id := Some ID_UNSET\<rparr> else w)"
    using b drain assms(4) by (cases "key = DEFAULT_KEY") (simp_all add: write_packet_def choose_type_def bindS_def)
  then show ?thesis using assms(1,2) by (simp add: send_packet_def register_control_def catchS_def)
qed


theorem refused_server_schedule_witness:
  "\<exists>w'. stream_lost (refusing (sample_session\<lparr>se_retry := 20\<rparr>)) (sample_cloud_at []) = (Inr (), w') \<and> cl_outside w' =
     [Slept 20, Dialled, Dialled, Dialled, Slept 20, Slept 20, Dialled, Dialled, Dialled, Slept 40,
      Slept 20, Dialled, Dialled, Dialled, Slept 60, Slept 20, Dialled, Dialled, Dialled, Slept 60,
      Slept 20, Dialled, Dialled, Dialled, Slept 60]"
proof -
  let ?env = "sample_session\<lparr>se_retry := 20\<rparr> :: effort list session_env" and ?w = "sample_cloud_at [] :: effort list cloud"
  have w: "\<not> cl_closed ?w" "cl_outside ?w = []" "0 < se_retry ?env" "se_retry ?env = 20" by (simp_all add: sample_cloud_at_def)
  from refused_server_schedule [OF w(3,1)] obtain w' where "stream_lost (refusing ?env) ?w = (Inr (), w')"
    "cl_outside w' = concat (map (\<lambda>i. [Slept 20, Dialled, Dialled, Dialled, Slept (min (20 * 2 ^ i) 60)]) [0..<5])"
    by (auto simp: w)
  then show ?thesis by (intro exI [of _ w']) (simp add: upt_rec)
qed

text \<open>A stream of bytes that nobody else touches; its server greets with a new key.\<close>

definition stream_session :: "string session_env" where
  "stream_session = sample_session\<lparr>se_cloud := (sample_cloud_env None)\<lparr>ce_cipher := sample_cipher\<rparr>,
     se_read := (\<lambda>n w. (Inr (take n (cl_outside w)), w\<lparr>cl_outside := drop n (cl_outside w)\<rparr>)),
     se_sleep := (\<lambda>n. retS ())\<rparr>"

lemma stream_session_simps [simp]:
  "se_read stream_session n w = (Inr (take n (cl_outside w)), w\<lparr>cl_outside := drop n (cl_outside w)\<rparr>)"
  "se_sleep stream_session n = retS ()" "ce_cipher (se_cloud stream_session) = sample_cipher"
  "ce_text (se_cloud stream_session) (VStr s) = s" "se_session stream_session sid = retS ()"
  by (simp_all add: stream_session_def sample_session_def sample_cloud_env_def)




end
