(* ===== verification/Https_Client.thy ===== *)
theory Https_Client
  imports Gateway_Connection Device_Inventory
begin

text \<open>
  \<^verbatim>\<open>https_client.py\<close>, \<^verbatim>\<open>cloud.py\<close>, \<^verbatim>\<open>models.py\<close> and the requests of the web API in \<^verbatim>\<open>packet.py\<close>: the account
  partitions, the login with its families, the search for the partition of an account, the tables of a
  home and the discovery of its devices, of \<^verbatim>\<open>device_inventory.py\<close>. A method is an effect on the client's
  state \<open>https\<close>. What an exchange answers, and what other tasks do to the client meanwhile, are parameters;
  random texts, serial numbers and the time are read from the outside. A body is the dictionary that is
  serialized into the request, an answer is read by the \<open>loads\<close> of \<open>Json\<close>.
\<close>

section \<open>Partitions\<close>

datatype cloud_region = CHINA | GLOBAL

record cloud_endpoint =
  ep_region :: cloud_region
  ep_api_host :: string
  ep_ssl_host :: string

fun region_value :: "cloud_region \<Rightarrow> string" where
  "region_value CHINA = ''china''"
| "region_value GLOBAL = ''global''"

definition CHINA_CLOUD :: cloud_endpoint where
  "CHINA_CLOUD = \<lparr>ep_region = CHINA, ep_api_host = ''china.orvibo.com'', ep_ssl_host = ''china.orvibo.com''\<rparr>"

definition GLOBAL_CLOUD :: cloud_endpoint where
  "GLOBAL_CLOUD = \<lparr>ep_region = GLOBAL, ep_api_host = ''homemate.orvibo.com'', ep_ssl_host = ''homemate.orvibo.com''\<rparr>"

definition CLOUD_ENDPOINTS :: "cloud_endpoint list" where
  "CLOUD_ENDPOINTS = [CHINA_CLOUD, GLOBAL_CLOUD]"

definition cloud_for_region :: "(pyval \<Rightarrow> string) \<Rightarrow> pyval \<Rightarrow> cloud_endpoint" where
  "cloud_for_region repr value =
     (let normalized = py_lower (py_strip (py_str repr (py_or value (VStr []))))
      in case List.find (\<lambda>e. normalized = region_value (ep_region e)) CLOUD_ENDPOINTS of
        None \<Rightarrow> CHINA_CLOUD | Some e \<Rightarrow> e)"

definition cloud_for_api_host :: "string \<Rightarrow> cloud_endpoint py" where
  "cloud_for_api_host host =
     (let normalized = py_lower (py_strip host)
      in case List.find (\<lambda>e. normalized = py_lower (ep_api_host e)) CLOUD_ENDPOINTS of
        None \<Rightarrow> Inl ValueError | Some e \<Rightarrow> Inr e)"

definition cloud_candidates :: "cloud_endpoint option \<Rightarrow> cloud_endpoint list" where
  "cloud_candidates preferred =
     (let first = (case preferred of None \<Rightarrow> CHINA_CLOUD | Some e \<Rightarrow> e)
      in first # filter (\<lambda>e. e \<noteq> first) CLOUD_ENDPOINTS)"

section \<open>Credentials\<close>

record account_credentials =
  ac_username :: string
  ac_password_hash :: string
  ac_family_id :: string

definition account_credentials_of ::
  "(pyval \<Rightarrow> string) \<Rightarrow> string \<Rightarrow> string \<Rightarrow> string \<Rightarrow> account_credentials py" where
  "account_credentials_of repr username digest family_id =
     (if py_strip username = [] then Inl ValueError
      else bindE (normalize_password_hash repr (VStr digest)) (\<lambda>h.
        Inr \<lparr>ac_username = py_strip username, ac_password_hash = h, ac_family_id = py_strip family_id\<rparr>))"

section \<open>The requests\<close>

text \<open>The URL of a request is \<^verbatim>\<open>https://\<close>, its host and its path. A request without a body is a \<^verbatim>\<open>GET\<close>.\<close>

record http_request =
  rq_host :: string
  rq_path :: string
  rq_params :: dict
  rq_body :: "dict option"

text \<open>What the helper functions draw for one request: two random texts, a serial number and the time.\<close>

record request_draw =
  dr_random :: string
  dr_request_id :: string
  dr_serial :: int
  dr_timestamp :: int

definition text_utils_is_empty :: "(pyval \<Rightarrow> string) \<Rightarrow> pyval \<Rightarrow> bool" where
  "text_utils_is_empty repr v \<longleftrightarrow> v = VNone \<or> py_strip (py_str repr v) = []"

definition create_sign ::
  "(pyval \<Rightarrow> string) \<Rightarrow> (string \<Rightarrow> string \<Rightarrow> string) \<Rightarrow> dict \<Rightarrow> string \<Rightarrow> string" where
  "create_sign repr hmac_hex params key =
     py_upper (hmac_hex key
       (concat (map (\<lambda>k. k @ ''='' @ py_str repr (get params k) @ ''&'')
          (filter (\<lambda>k. \<not> text_utils_is_empty repr (get params k)) (sort (map fst params)))) @ ''key='' @ key))"

definition get_access_token_by_password :: "string \<Rightarrow> string \<Rightarrow> string \<Rightarrow> http_request" where
  "get_access_token_by_password username password_md5 host =
     \<lparr>rq_host = host, rq_path = ''/getOauthToken'',
      rq_params = [(''userName'', VStr username), (''type'', VStr ''0''), (''password'', VStr password_md5)],
      rq_body = None\<rparr>"

definition get_access_token_by_session_id :: "string \<Rightarrow> string \<Rightarrow> http_request" where
  "get_access_token_by_session_id session_id host =
     \<lparr>rq_host = host, rq_path = ''/getOauthToken'',
      rq_params = [(''type'', VStr ''0''), (''sessionId'', VStr session_id)], rq_body = None\<rparr>"

definition get_family_statistics_users ::
  "(dict \<Rightarrow> string) \<Rightarrow> request_draw \<Rightarrow> pyval \<Rightarrow> pyval \<Rightarrow> string \<Rightarrow> http_request" where
  "get_family_statistics_users sign r user_id access_token host =
     (let params = [(''requestId'', VStr (dr_request_id r)), (''userId'', user_id), (''accessToken'', access_token),
            (''random'', VStr (dr_random r)), (''timestamp'', VInt (dr_timestamp r))]
      in \<lparr>rq_host = host, rq_path = ''/v2/family/statistics/users'', rq_params = [],
          rq_body = Some [(''accessToken'', access_token), (''random'', VStr (dr_random r)), (''userId'', user_id),
            (''sign'', VStr (sign params)), (''timestamp'', VInt (dr_timestamp r)),
            (''requestId'', VStr (dr_request_id r))]\<rparr>)"

definition get_homepage_data ::
  "(dict \<Rightarrow> string) \<Rightarrow> request_draw \<Rightarrow> pyval \<Rightarrow> pyval \<Rightarrow> pyval \<Rightarrow> string \<Rightarrow> http_request" where
  "get_homepage_data sign r family_id user_id access_token host =
     (let params = [(''requestId'', VStr (dr_request_id r)), (''userId'', user_id), (''accessToken'', access_token),
            (''familyId'', family_id), (''random'', VStr (dr_random r)), (''timestamp'', VInt (dr_timestamp r))]
      in \<lparr>rq_host = host, rq_path = ''/v2/family/config/queryHomepageData'', rq_params = [],
          rq_body = Some [(''accessToken'', access_token), (''random'', VStr (dr_random r)), (''userId'', user_id),
            (''familyId'', family_id), (''sign'', VStr (sign params)), (''timestamp'', VInt (dr_timestamp r)),
            (''requestId'', VStr (dr_request_id r))]\<rparr>)"

text \<open>All fields of the body but the signature are signed.\<close>

definition get_devices_status ::
  "(dict \<Rightarrow> string) \<Rightarrow> request_draw \<Rightarrow> pyval \<Rightarrow> pyval \<Rightarrow> pyval \<Rightarrow> string \<Rightarrow> pyval \<Rightarrow> int \<Rightarrow> string
     \<Rightarrow> http_request" where
  "get_devices_status sign r access_token session_id user_id user_name family_id device_flag host =
     (let body = [(''accessToken'', access_token), (''random'', VStr (dr_random r)), (''serial'', VInt (dr_serial r)),
            (''userId'', user_id), (''userName'', VStr user_name), (''lastUpdateTime'', VInt 0),
            (''ver'', VStr SOFTWARE_VER), (''sign'', VStr ''1234567890''), (''timestamp'', VInt (dr_timestamp r)),
            (''sessionId'', session_id), (''deviceFlag'', VInt device_flag), (''familyId'', family_id),
            (''pageIndex'', VInt 0), (''dataType'', VStr ''all'')]
      in \<lparr>rq_host = host, rq_path = ''/v2/cmd/app/readtable'', rq_params = [],
          rq_body = Some (AList.update ''sign'' (VStr (sign (AList.delete ''sign'' body))) body)\<rparr>)"

section \<open>The client\<close>

record 'x https =
  hc_cloud :: cloud_endpoint
  hc_user_id :: pyval
  hc_session_id :: "string option"
  hc_access_token :: pyval
  hc_family_id :: pyval
  hc_family_name :: pyval
  hc_families :: "dict list"
  hc_gateway_ips :: "(string, string) pydict"
  hc_outside :: 'x

text \<open>
  \<open>he_exchange\<close>: the status and the text of an answer, or what the exchange raises. \<open>he_describe\<close>: the same
  for a host and a path of \<^verbatim>\<open>getDeviceDesc\<close>, whose body is decoded by the HTTP library.
\<close>

record 'x https_env =
  he_user :: string
  he_password :: string
  he_text :: "pyval \<Rightarrow> string"
  he_hmac :: "string \<Rightarrow> string \<Rightarrow> string"
  he_draw :: "'x \<Rightarrow> request_draw"
  he_exchange :: "http_request \<Rightarrow> ('x https, int \<times> string) io"
  he_describe :: "string \<Rightarrow> string \<Rightarrow> ('x https, int \<times> pyval py) io"

definition new_https :: "cloud_endpoint \<Rightarrow> 'x \<Rightarrow> 'x https" where
  "new_https cloud x = \<lparr>hc_cloud = cloud, hc_user_id = VNone, hc_session_id = None, hc_access_token = VNone,
     hc_family_id = VNone, hc_family_name = VNone, hc_families = [], hc_gateway_ips = [], hc_outside = x\<rparr>"

definition is_logged_in :: "'x https \<Rightarrow> bool" where
  "is_logged_in w \<longleftrightarrow> hc_access_token w \<noteq> VNone \<and> hc_user_id w \<noteq> VNone"

definition close :: "('x https, unit) io" where
  "close = modifyS (\<lambda>w. w\<lparr>hc_access_token := VNone\<rparr>)"

definition set_session_id :: "string \<Rightarrow> ('x https, unit) io" where
  "set_session_id session_id = modifyS (\<lambda>w. w\<lparr>hc_session_id := Some session_id\<rparr>)"

definition api_host :: "'x https \<Rightarrow> string" where
  "api_host w = ep_api_host (hc_cloud w)"

definition SIGN_KEY :: string where "SIGN_KEY = ''nQ45RjPtOws96jmH''"

definition sign_with :: "'x https_env \<Rightarrow> dict \<Rightarrow> string" where
  "sign_with env params = create_sign (he_text env) (he_hmac env) params SIGN_KEY"

text \<open>\<^verbatim>\<open>raise_for_status\<close> raises from 400 on; a text that is no JSON raises a \<^verbatim>\<open>ValueError\<close>.\<close>

definition send_request :: "'x https_env \<Rightarrow> http_request \<Rightarrow> ('x https, pyval) io" where
  "send_request env rq =
     bindS (he_exchange env rq) (\<lambda>(status, response_text).
       if 400 \<le> status then raiseS (OtherError ''ClientResponseError'')
       else liftE (case loads response_text of None \<Rightarrow> Inl ValueError | Some v \<Rightarrow> Inr v))"

text \<open>\<^verbatim>\<open>resp[key]\<close>\<close>

fun py_item :: "pyval \<Rightarrow> string \<Rightarrow> pyval py" where
  "py_item (VDict d) k = (case map_of d k of None \<Rightarrow> Inl KeyError | Some v \<Rightarrow> Inr v)"
| "py_item v k = Inl TypeError"

text \<open>The data of an answer, if it carries no error message. The message is logged.\<close>

definition response_data :: "pyval \<Rightarrow> pyval option py" where
  "response_data resp =
     bindE (text_in ''message'' resp) (\<lambda>refused.
       if refused then bindE (py_item resp ''message'') (\<lambda>_. Inr None)
       else bindE (text_in ''data'' resp) (\<lambda>there. if \<not> there then Inr None
         else bindE (py_item resp ''data'') (\<lambda>v. Inr (Some v))))"

section \<open>Login and families\<close>

definition draw :: "'x https_env \<Rightarrow> 'x https \<Rightarrow> request_draw" where
  "draw env w = he_draw env (hc_outside w)"

definition token_request :: "'x https_env \<Rightarrow> 'x https \<Rightarrow> http_request" where
  "token_request env w =
     (case hc_session_id w of
        None \<Rightarrow> get_access_token_by_password (he_user env) (he_password env) (api_host w)
      | Some s \<Rightarrow>
          if s = ID_UNSET then get_access_token_by_password (he_user env) (he_password env) (api_host w)
          else get_access_token_by_session_id s (api_host w))"

definition fetch_access_token :: "'x https_env \<Rightarrow> ('x https, pyval) io" where
  "fetch_access_token env =
     except_any
       (bindS (getS (token_request env)) (\<lambda>rq.
        bindS (send_request env rq) (\<lambda>resp.
        bindS (liftE (response_data resp)) (\<lambda>data. case data of
            None \<Rightarrow> retS (VDict [])
          | Some v \<Rightarrow> bindS (liftE (text_in ''access_token'' v)) (\<lambda>there. retS (if there then v else VDict []))))))
       (\<lambda>e. retS (VDict []))"

text \<open>``Unknown family''\<close>

definition UNKNOWN_FAMILY :: string where
  "UNKNOWN_FAMILY = [CHR 0xE6, CHR 0x9C, CHR 0xAA, CHR 0xE7, CHR 0x9F, CHR 0xA5, CHR 0xE5, CHR 0xAE, CHR 0xB6,
     CHR 0xE5, CHR 0xBA, CHR 0xAD]"

definition family_row :: "pyval \<Rightarrow> dict list py" where
  "family_row item =
     bindE (vget item ''familyId'' VNone) (\<lambda>i.
       if truthy i then bindE (vget item ''familyName'' (VStr UNKNOWN_FAMILY)) (\<lambda>n.
         Inr [[(''familyId'', i), (''familyName'', n)]])
       else Inr [])"

definition family_rows :: "pyval list \<Rightarrow> dict list py" where
  "family_rows items = bindE (mapE family_row items) (\<lambda>rows. Inr (concat rows))"

definition find_family :: "pyval \<Rightarrow> dict list \<Rightarrow> dict option" where
  "find_family i families = List.find (\<lambda>f. py_eq (get f ''familyId'') i) families"

text \<open>A family that was asked for must be one of the account's; otherwise the first one is taken.\<close>

definition choose_family :: "('x https, dict) io" where
  "choose_family =
     bindS (getS hc_family_id) (\<lambda>fid.
     bindS (getS hc_families) (\<lambda>families.
       if truthy fid then
         (case find_family fid families of
            None \<Rightarrow> retS []
          | Some f \<Rightarrow> bindS (modifyS (\<lambda>w. w\<lparr>hc_family_name := get f ''familyName''\<rparr>)) (\<lambda>_.
              getS (\<lambda>w. [(''familyId'', hc_family_id w), (''familyName'', hc_family_name w)])))
       else
         (case families of
            [] \<Rightarrow> retS []
          | f # fs \<Rightarrow> bindS (modifyS (\<lambda>w. w\<lparr>hc_family_id := get f ''familyId'', hc_family_name := get f ''familyName''\<rparr>))
              (\<lambda>_. getS (\<lambda>w. [(''familyId'', hc_family_id w), (''familyName'', hc_family_name w)])))))"

definition receive_families :: "pyval \<Rightarrow> ('x https, dict) io" where
  "receive_families data =
     (case data of
        VList items \<Rightarrow>
          bindS (liftE (family_rows items)) (\<lambda>families.
          bindS (modifyS (\<lambda>w. w\<lparr>hc_families := families\<rparr>)) (\<lambda>_. choose_family))
      | _ \<Rightarrow> retS [])"

definition has_tokens :: "'x https \<Rightarrow> bool" where
  "has_tokens w \<longleftrightarrow> truthy (hc_access_token w) \<and> truthy (hc_user_id w)"

definition fetch_family :: "'x https_env \<Rightarrow> ('x https, dict) io" where
  "fetch_family env =
     except_any
       (bindS (getS has_tokens) (\<lambda>b. if \<not> b then retS []
        else bindS (getS (\<lambda>w. get_family_statistics_users (sign_with env) (draw env w) (hc_user_id w)
              (hc_access_token w) (api_host w))) (\<lambda>rq.
          bindS (send_request env rq) (\<lambda>resp.
          bindS (liftE (response_data resp)) (\<lambda>data.
            case data of None \<Rightarrow> retS [] | Some v \<Rightarrow> receive_families v)))))
       (\<lambda>e. retS [])"

definition store_token :: "pyval \<Rightarrow> ('x https, unit) io" where
  "store_token data =
     (if truthy data then
        bindS (liftE (vget data ''access_token'' (VStr []))) (\<lambda>t.
        bindS (modifyS (\<lambda>w. w\<lparr>hc_access_token := t\<rparr>)) (\<lambda>_.
        bindS (liftE (vget data ''user_id'' (VStr []))) (\<lambda>u.
        modifyS (\<lambda>w. w\<lparr>hc_user_id := u\<rparr>))))
      else retS ())"

definition authenticate :: "'x https_env \<Rightarrow> ('x https, bool) io" where
  "authenticate env =
     bindS (getS has_tokens) (\<lambda>b. if b then retS True
       else bindS (fetch_access_token env) (\<lambda>data. bindS (store_token data) (\<lambda>_. getS has_tokens)))"

definition ensure_login :: "'x https_env \<Rightarrow> ('x https, bool) io" where
  "ensure_login env =
     bindS (authenticate env) (\<lambda>ok. if \<not> ok then retS False
       else bindS (fetch_family env) (\<lambda>data.
         bindS (if data \<noteq> [] then modifyS (\<lambda>w. w
               \<lparr>hc_family_id := if truthy (hc_family_id w) then hc_family_id w else dget data ''familyId'' (VStr []),
                hc_family_name := dget data ''familyName'' (VStr [])\<rparr>)
            else retS ()) (\<lambda>_.
         getS (\<lambda>w. has_tokens w \<and> truthy (hc_family_id w)))))"

definition set_family :: "string \<Rightarrow> ('x https, unit) io" where
  "set_family family_id =
     modifyS (\<lambda>w. w\<lparr>hc_family_id := VStr family_id,
       hc_family_name := (case find_family (VStr family_id) (hc_families w) of
         None \<Rightarrow> hc_family_name w | Some f \<Rightarrow> get f ''familyName'')\<rparr>)"

section \<open>Partitions of the account\<close>

definition switch_cloud :: "cloud_endpoint \<Rightarrow> pyval \<Rightarrow> ('x https, unit) io" where
  "switch_cloud cloud family_id =
     modifyS (\<lambda>w. w\<lparr>hc_cloud := cloud, hc_access_token := VNone, hc_user_id := VNone, hc_session_id := None,
       hc_family_id := family_id, hc_family_name := VNone, hc_families := []\<rparr>)"

definition switch_host :: "string \<Rightarrow> ('x https, unit) io" where
  "switch_host host = bindS (liftE (cloud_for_api_host host)) (\<lambda>cloud. switch_cloud cloud VNone)"

fun try_clouds :: "'x https_env \<Rightarrow> pyval \<Rightarrow> cloud_endpoint list \<Rightarrow> ('x https, bool) io" where
  "try_clouds env family_id [] = retS False"
| "try_clouds env family_id (c # cs) =
     bindS (switch_cloud c family_id) (\<lambda>_.
     bindS (ensure_login env) (\<lambda>ok. if ok then retS True else try_clouds env family_id cs))"

definition preferred_family :: "(pyval \<Rightarrow> string) \<Rightarrow> pyval \<Rightarrow> pyval" where
  "preferred_family repr v =
     (let t = py_strip (py_str repr (py_or v (VStr []))) in if t = [] then VNone else VStr t)"

definition async_detect_cloud :: "'x https_env \<Rightarrow> pyval \<Rightarrow> ('x https, bool) io" where
  "async_detect_cloud env family_id =
     bindS (getS (\<lambda>w. preferred_family (he_text env) (py_or family_id (hc_family_id w)))) (\<lambda>preferred.
     bindS (getS (\<lambda>w. cloud_candidates (Some (hc_cloud w)))) (try_clouds env preferred))"


section \<open>The tables of a home\<close>

text \<open>The answer may come in blocks: rows of the same table are joined, a table that changes its kind keeps
  its first block.\<close>

definition join_tables :: "pyval \<Rightarrow> pyval \<Rightarrow> pyval" where
  "join_tables a b =
     (case (a, b) of
        (VList xs, VList ys) \<Rightarrow> VList (xs @ ys)
      | (VDict d, VDict e) \<Rightarrow> VDict (dict_merge d e)
      | _ \<Rightarrow> a)"

fun add_tables :: "dict \<Rightarrow> dict \<Rightarrow> dict" where
  "add_tables merged [] = merged"
| "add_tables merged ((k, v) # block) =
     add_tables (AList.update k (case map_of merged k of None \<Rightarrow> v | Some a \<Rightarrow> join_tables a v) merged) block"

definition add_block :: "dict \<Rightarrow> pyval \<Rightarrow> dict" where
  "add_block merged element = (case element of VDict block \<Rightarrow> add_tables merged block | _ \<Rightarrow> merged)"

definition merge_blocks :: "pyval list \<Rightarrow> dict" where
  "merge_blocks elements = foldl add_block [] elements"

definition readtable :: "'x https_env \<Rightarrow> int \<Rightarrow> ('x https, dict option) io" where
  "readtable env device_flag =
     bindS (getS (\<lambda>w. get_devices_status (sign_with env) (draw env w) (hc_access_token w)
         (VStr (case hc_session_id w of None \<Rightarrow> [] | Some s \<Rightarrow> s)) (hc_user_id w) (he_user env) (hc_family_id w)
         device_flag (api_host w))) (\<lambda>rq.
     bindS (send_request env rq) (\<lambda>resp.
     bindS (liftE (response_data resp)) (\<lambda>data. retS (case data of
         Some (VList elements) \<Rightarrow> Some (merge_blocks elements)
       | Some (VDict d) \<Rightarrow> Some d
       | _ \<Rightarrow> None))))"

text \<open>The gateways: the MixPads of the device table, at the address the gateway table has for them.\<close>

definition mixpad_uid :: "(pyval \<Rightarrow> string) \<Rightarrow> dict \<Rightarrow> string list py" where
  "mixpad_uid repr item =
     bindE (safe_int_opt (get item ''deviceType'')) (\<lambda>t.
       Inr (if t = Some 114 \<and> truthy (get item ''uid'') \<and> \<not> deleted item
            then [py_str repr (get item ''uid'')] else []))"

definition gateway_address :: "string list \<Rightarrow> dict \<Rightarrow> (string \<times> string) option" where
  "gateway_address mixpads gateway =
     (if deleted gateway then None
      else case (get gateway ''uid'', py_or (get gateway ''localStaticIP'') (get gateway ''ip'')) of
          (VStr uid, VStr raw_ip) \<Rightarrow>
            if uid \<in> set mixpads \<and> raw_ip \<noteq> [] then Some (uid, takeWhile (\<lambda>c. c \<noteq> CHR '':'') raw_ip) else None
        | _ \<Rightarrow> None)"

definition add_gateway :: "string list \<Rightarrow> dict \<Rightarrow> (string, string) pydict \<Rightarrow> (string, string) pydict" where
  "add_gateway mixpads gateway result =
     (case gateway_address mixpads gateway of None \<Rightarrow> result | Some (uid, ip) \<Rightarrow> AList.update uid ip result)"

definition extract_gateway_ips :: "(pyval \<Rightarrow> string) \<Rightarrow> dict \<Rightarrow> (string, string) pydict py" where
  "extract_gateway_ips repr data =
     bindE (mapE (mixpad_uid repr) (table_rows (get data ''device'') (Some ''deviceId''))) (\<lambda>uids.
       Inr (fold (add_gateway (concat uids)) (table_rows (get data ''gateway'') (Some ''uid'')) []))"

text \<open>The tables of the account may come without the devices; the second flag asks for those.\<close>

definition all_tables :: "'x https_env \<Rightarrow> dict \<Rightarrow> ('x https, dict) io" where
  "all_tables env data =
     (if has_key data ''device'' then retS data
      else bindS (readtable env 1) (\<lambda>more. retS (case more of None \<Rightarrow> data | Some e \<Rightarrow> dict_merge data e)))"

definition fetch_device_status :: "'x https_env \<Rightarrow> ('x https, dict option) io" where
  "fetch_device_status env =
     except_any
       (bindS (ensure_login env) (\<lambda>ok. if \<not> ok then retS None
        else bindS (readtable env 0) (\<lambda>data. case data of None \<Rightarrow> retS None
          | Some d \<Rightarrow>
              bindS (all_tables env d) (\<lambda>d.
              bindS (liftE (extract_gateway_ips (he_text env) d)) (\<lambda>ips.
              bindS (modifyS (\<lambda>w. w\<lparr>hc_gateway_ips := ips\<rparr>)) (\<lambda>_. retS (Some d)))))))
       (\<lambda>e. retS None)"

section \<open>Fallbacks of the discovery\<close>

text \<open>What the log wants to know of the answer may raise, and the answer is dropped then.\<close>

definition describable :: "pyval \<Rightarrow> unit py" where
  "describable data =
     (case data of
        VDict d \<Rightarrow>
          (if \<not> has_key d ''devices'' then Inr ()
           else case get d ''devices'' of
               VList xs \<Rightarrow> Inr ()
             | VStr s \<Rightarrow> Inr ()
             | VDict e \<Rightarrow> if e = [] then Inr () else Inl KeyError
             | _ \<Rightarrow> Inl TypeError)
      | _ \<Rightarrow> Inr ())"

definition describe_path :: "(pyval \<Rightarrow> string) \<Rightarrow> int \<Rightarrow> pyval \<Rightarrow> string" where
  "describe_path repr last_update_time token =
     ''/getDeviceDesc?source=ZhiJia365&lastUpdateTime='' @ dec last_update_time @ ''&accessToken='' @ py_str repr token"

definition fetch_device_desc :: "'x https_env \<Rightarrow> int \<Rightarrow> ('x https, pyval) io" where
  "fetch_device_desc env last_update_time =
     except_any
       (bindS (ensure_login env) (\<lambda>ok. if \<not> ok then retS VNone
        else bindS (getS (\<lambda>w. (hc_access_token w, api_host w))) (\<lambda>(token, host).
          if \<not> truthy token then retS VNone
          else bindS (he_describe env host (describe_path (he_text env) last_update_time token)) (\<lambda>(status, body).
            if status \<noteq> 200 then retS VNone
            else bindS (liftE body) (\<lambda>data. bindS (liftE (describable data)) (\<lambda>_. retS data))))))
       (\<lambda>e. retS VNone)"

definition fetch_homepage_data :: "'x https_env \<Rightarrow> ('x https, pyval) io" where
  "fetch_homepage_data env =
     except_any
       (bindS (ensure_login env) (\<lambda>ok. if \<not> ok then retS VNone
        else bindS (getS (\<lambda>w. get_homepage_data (sign_with env) (draw env w) (hc_family_id w) (hc_user_id w)
              (hc_access_token w) (api_host w))) (\<lambda>rq.
          bindS (send_request env rq) (\<lambda>resp.
          bindS (liftE (response_data resp)) (\<lambda>data. retS (case data of None \<Rightarrow> VNone | Some v \<Rightarrow> v))))))
       (\<lambda>e. retS VNone)"

text \<open>A parent of switch channels has no properties of its own.\<close>

definition parent_switch :: "dict \<Rightarrow> bool" where
  "parent_switch dev \<longleftrightarrow>
     in_ints (get dev ''device_type_raw'') [135, 136] \<and> dget dev ''properties'' (VDict []) = VDict []"

definition parse_device_status_list :: "(pyval \<Rightarrow> string) \<Rightarrow> dict \<Rightarrow> dict list py" where
  "parse_device_status_list repr data =
     bindE (parse_readtable_devices repr [(''code'', VInt 0), (''data'', VDict data)]) (\<lambda>devices.
     bindE (mapE device_to_dict devices) (\<lambda>dicts. Inr (filter (\<lambda>d. \<not> parent_switch d) dicts)))"

definition parse_device_list :: "(pyval \<Rightarrow> string) \<Rightarrow> dict \<Rightarrow> dict list py" where
  "parse_device_list repr homepage =
     parse_device_status_list repr (AList.update ''device''
       (py_or (get homepage ''deviceList'') (py_or (get homepage ''device'') (VList []))) homepage)"

fun parse_online_status :: "pyval \<Rightarrow> bool" where
  "parse_online_status (VBool b) = b"
| "parse_online_status (VInt n) = (n = 1)"
| "parse_online_status (VStr s) = (py_lower (py_strip s) \<in> {''online'', ''1'', ''true'', ''yes''})"
| "parse_online_status _ = False"

section \<open>Descriptions of devices\<close>

text \<open>A property is a number, or an object that has it under a name of its own or as \<^verbatim>\<open>value\<close>.\<close>

definition described_value :: "string option \<Rightarrow> dict \<Rightarrow> pyval" where
  "described_value inner d = (case inner of None \<Rightarrow> get d ''value'' | Some k \<Rightarrow> dget d k (get d ''value''))"

definition described_number ::
  "dict \<Rightarrow> string \<Rightarrow> string option \<Rightarrow> (pyval \<Rightarrow> bool py) \<Rightarrow> (pyval \<Rightarrow> pyval py) \<Rightarrow> string \<Rightarrow> dict py" where
  "described_number properties key inner accept conv field =
     (let v = (case get properties key of
            VDict d \<Rightarrow> described_value inner d
          | v \<Rightarrow> if is_number v then v else VNone)
      in if v = VNone then Inr []
         else bindE (accept v) (\<lambda>ok. if ok then bindE (conv v) (\<lambda>x. Inr [(field, x)]) else Inr []))"

definition int_val :: "pyval \<Rightarrow> pyval py" where "int_val v = bindE (py_int v) (\<lambda>n. Inr (VInt n))"
definition float_val :: "pyval \<Rightarrow> pyval py" where "float_val v = bindE (py_float v) (\<lambda>x. Inr (VFloat x))"

definition described_power :: "dict \<Rightarrow> dict" where
  "described_power properties =
     (case get properties ''onoff'' of
        VDict d \<Rightarrow> [(''state'', VBool (dget d ''status'' (VStr ''off'') = VStr ''on''))]
      | VStr s \<Rightarrow> [(''state'', VBool (s = ''on''))]
      | VBool b \<Rightarrow> [(''state'', VBool b)]
      | VInt n \<Rightarrow> [(''state'', VBool (n = 1))]
      | _ \<Rightarrow> [])"

definition described_properties :: "dict \<Rightarrow> dict py" where
  "described_properties p =
     (let any = (\<lambda>v. Inr True) in
     bindE (described_number p ''brightness'' (Some ''brightness'') any int_val ''brightness'') (\<lambda>a.
     bindE (described_number p ''colortemp'' (Some ''colortemp'') (\<lambda>v. py_gt v 0) int_val ''color_temp'') (\<lambda>b.
     bindE (described_number p ''percent'' (Some ''percent'') any int_val ''position'') (\<lambda>c.
     bindE (described_number p ''temperature'' None any float_val ''temperature'') (\<lambda>d.
     bindE (described_number p ''humidity'' None any float_val ''humidity'') (\<lambda>e.
     bindE (described_number p ''battery'' (Some ''power'') any (\<lambda>v. bindE (float_val v) int_val) ''battery'') (\<lambda>f.
     bindE (described_number p ''value3'' None any int_val ''value3'') (\<lambda>g.
     bindE (described_number p ''value4'' None any int_val ''value4'') (\<lambda>h.
       Inr (described_power p @ a @ b @ c @ d @ e @ f @ g @ h))))))))))"

definition given_field :: "dict \<Rightarrow> string \<Rightarrow> string \<Rightarrow> dict" where
  "given_field device key field = (let v = dget device key (VStr []) in if truthy v then [(field, v)] else [])"

definition described_status :: "dict \<Rightarrow> dict py" where
  "described_status device =
     bindE (case dget device ''properties'' (VDict []) of VDict p \<Rightarrow> described_properties p | _ \<Rightarrow> Inr []) (\<lambda>info.
       Inr (info @ (if get device ''online'' = VNone then [] else [(''online'', VBool (parse_online_status (get device ''online'')))])
         @ given_field device ''uid'' ''uid'' @ given_field device ''statusId'' ''status_id''
         @ given_field device ''extAddr'' ''ext_addr''))"

text \<open>Identifiers are texts; another value that can be a key is taken as it is.\<close>

definition add_described :: "pyval \<Rightarrow> (pyval, dict) pydict \<Rightarrow> (pyval, dict) pydict py" where
  "add_described device result =
     (case device of
        VDict d \<Rightarrow>
          (let i = dget d ''deviceId'' (VStr [])
           in if \<not> truthy i then Inr result
              else bindE (described_status d) (\<lambda>info.
                if hashable i then Inr (AList.update i info result) else Inl TypeError))
      | _ \<Rightarrow> Inr result)"

definition parse_device_desc :: "dict \<Rightarrow> (pyval, dict) pydict py" where
  "parse_device_desc data =
     (case dget data ''deviceDescList'' (dget data ''devices'' (VList [])) of
        VList devices \<Rightarrow> foldE add_described devices []
      | _ \<Rightarrow> Inr [])"

section \<open>Discovering the devices\<close>

text \<open>A fallback counts only if it lists devices.\<close>

definition listed_devices :: "(pyval \<Rightarrow> string) \<Rightarrow> pyval \<Rightarrow> dict list py" where
  "listed_devices repr rows =
     (case rows of
        VList xs \<Rightarrow> if xs = [] then Inr [] else parse_device_status_list repr [(''device'', rows), (''deviceStatus'', VDict [])]
      | _ \<Rightarrow> Inr [])"

definition described_devices :: "'x https_env \<Rightarrow> ('x https, dict list) io" where
  "described_devices env =
     bindS (fetch_device_desc env 0) (\<lambda>description.
       if \<not> truthy description then retS []
       else bindS (liftE (vget description ''devices'' (VList []))) (\<lambda>ds.
         bindS (liftE (vget description ''deviceDescList'' ds)) (\<lambda>described.
         liftE (listed_devices (he_text env) described))))"

definition homepage_devices :: "'x https_env \<Rightarrow> ('x https, dict list) io" where
  "homepage_devices env =
     bindS (fetch_homepage_data env) (\<lambda>homepage. case homepage of
         VDict d \<Rightarrow> liftE (listed_devices (he_text env)
           (py_or (dget d ''deviceList'' (dget d ''device'' (VList []))) (VList [])))
       | _ \<Rightarrow> retS [])"

definition or_else :: "dict list \<Rightarrow> ('x https, dict list) io \<Rightarrow> ('x https, dict list) io" where
  "or_else devices m = (if devices = [] then m else retS devices)"

definition discover :: "'x https_env \<Rightarrow> ('x https, dict option \<times> dict list) io" where
  "discover env =
     bindS (fetch_device_status env) (\<lambda>status_data. case status_data of
         None \<Rightarrow> retS (None, [])
       | Some data \<Rightarrow>
           if data = [] then retS (None, [])
           else bindS (liftE (parse_device_status_list (he_text env) data)) (\<lambda>devices.
             bindS (or_else devices (described_devices env)) (\<lambda>devices.
             bindS (or_else devices (homepage_devices env)) (\<lambda>devices. retS (Some data, devices)))))"


section \<open>The rows of the blocks\<close>

lemma map_of_add_tables:
  assumes "distinct (map fst block)"
  shows "map_of (add_tables merged block) k =
    (case map_of block k of None \<Rightarrow> map_of merged k
     | Some v \<Rightarrow> Some (case map_of merged k of None \<Rightarrow> v | Some a \<Rightarrow> join_tables a v))"
  using assms
proof (induction block arbitrary: merged)
  case Nil
  then show ?case by simp
next
  case (Cons p block)
  obtain k' v' where p: "p = (k', v')" by (cases p)
  have "map_of block k' = None" using Cons.prems p by (auto simp: map_of_eq_None_iff)
  then show ?case using Cons p by (cases "k' = k") (auto simp: update_conv' split: option.splits)
qed

text \<open>The rows an element of the answer has for a table.\<close>

definition block_rows :: "string \<Rightarrow> pyval \<Rightarrow> pyval list" where
  "block_rows k element = (case element of
       VDict block \<Rightarrow> (case map_of block k of Some (VList rows) \<Rightarrow> rows | _ \<Rightarrow> []) | _ \<Rightarrow> [])"

definition block_has :: "string \<Rightarrow> pyval \<Rightarrow> bool" where
  "block_has k element = (case element of VDict block \<Rightarrow> has_key block k | _ \<Rightarrow> False)"

text \<open>A block is a decoded JSON object, in which the table, if it is there, is a list.\<close>

definition lists_table :: "string \<Rightarrow> pyval \<Rightarrow> bool" where
  "lists_table k element = (case element of
       VDict block \<Rightarrow> distinct (map fst block) \<and>
         (case map_of block k of None \<Rightarrow> True | Some (VList rows) \<Rightarrow> True | _ \<Rightarrow> False)
     | _ \<Rightarrow> True)"

lemma add_block_rows:
  assumes "lists_table k element" "map_of merged k = (if started then Some (VList rows) else None)" "\<not> started \<longrightarrow> rows = []"
  shows "map_of (add_block merged element) k =
    (if started \<or> block_has k element then Some (VList (rows @ block_rows k element)) else None)"
  using assms
  by (auto simp: add_block_def block_has_def block_rows_def lists_table_def has_key_def join_tables_def
      map_of_add_tables simp del: map_of_eq_Some_iff split: pyval.splits option.splits)

lemma fold_block_rows:
  assumes "list_all (lists_table k) elements" "map_of merged k = (if started then Some (VList rows) else None)"
    "\<not> started \<longrightarrow> rows = []"
  shows "map_of (foldl add_block merged elements) k =
    (if started \<or> list_ex (block_has k) elements then Some (VList (rows @ concat (map (block_rows k) elements))) else None)"
  using assms
proof (induction elements arbitrary: merged started rows)
  case Nil
  then show ?case by auto
next
  case (Cons e es)
  let ?s = "started \<or> block_has k e"
  have s: "\<not> ?s \<Longrightarrow> rows @ block_rows k e = []"
    using Cons.prems(3) by (auto simp: block_rows_def block_has_def has_key_def split: pyval.splits option.splits)
  have "map_of (add_block merged e) k = (if ?s then Some (VList (rows @ block_rows k e)) else None)"
    using add_block_rows [of k e merged started rows] Cons.prems by simp
  then show ?case using Cons.IH [of "add_block merged e" ?s "rows @ block_rows k e"] Cons.prems(1) s by auto
qed

lemma mapE_source:
  "mapE f xs = Inr ls \<Longrightarrow> y \<in> set (concat ls) \<Longrightarrow> \<exists>x \<in> set xs. \<exists>l. f x = Inr l \<and> y \<in> set l"
proof (induction xs arbitrary: ls)
  case (Cons x xs)
  then obtain l ls' where "f x = Inr l" "mapE f xs = Inr ls'" "ls = l # ls'" by (auto elim!: bindE_InrE)
  then show ?case using Cons.IH [of ls'] Cons.prems(2) by (cases "y \<in> set l") auto
qed simp

section \<open>Runs whose exchanges keep a property\<close>

text \<open>
  \<open>kept P m n\<close>: from a state with \<open>P\<close> the effects \<open>m\<close> and \<open>n\<close> behave alike, and end in a state with \<open>P\<close>.
\<close>

definition kept :: "('w \<Rightarrow> bool) \<Rightarrow> ('w, 'a) io \<Rightarrow> ('w, 'a) io \<Rightarrow> bool" where
  "kept P m n \<longleftrightarrow> (\<forall>w. P w \<longrightarrow> m w = n w \<and> P (snd (n w)))"

lemma kept_simps [simp]:
  "kept P (retS x) (retS x)" "kept P (liftE r) (liftE r)" "kept P (getS f) (getS f)" "kept P (raiseS e) (raiseS e)"
  by (simp_all add: kept_def)

lemma kept_modify: "(\<And>w. P w \<Longrightarrow> P (f w)) \<Longrightarrow> kept P (modifyS f) (modifyS f)"
  by (simp add: kept_def)

lemma kept_bind: "kept P m m' \<Longrightarrow> (\<And>x. kept P (f x) (f' x)) \<Longrightarrow> kept P (bindS m f) (bindS m' f')"
  unfolding kept_def bindS_def by (fastforce split: prod.splits sum.splits)

lemma kept_except: "kept P m m' \<Longrightarrow> (\<And>e. kept P (h e) (h' e)) \<Longrightarrow> kept P (except_any m h) (except_any m' h')"
  unfolding kept_def except_any_def catchS_def by (fastforce split: prod.splits sum.splits)

lemma kept_liftE: "(\<And>x. kept P (f x) (f' x)) \<Longrightarrow> kept P (bindS (liftE r) f) (bindS (liftE r) f')"
  by (rule kept_bind) simp_all

lemma kept_option:
  "kept P a a' \<Longrightarrow> (\<And>x. kept P (f x) (f' x)) \<Longrightarrow> kept P (case_option a f v) (case_option a' f' v)"
  by (cases v) simp_all

text \<open>A step that reads the state first: what it reads of a state with \<open>P\<close> may be used.\<close>

lemma kept_get:
  assumes "\<And>w. P w \<Longrightarrow> f (g w) w = f' (g w) w \<and> P (snd (f' (g w) w))"
  shows "kept P (bindS (getS g) f) (bindS (getS g) f')"
  using assms by (simp add: kept_def)


section \<open>Tokens and partitions\<close>

text \<open>\<open>issued host t\<close>: the host has issued the access token \<open>t\<close>.\<close>

definition own_token :: "(string \<Rightarrow> pyval \<Rightarrow> bool) \<Rightarrow> 'x https \<Rightarrow> bool" where
  "own_token issued w \<longleftrightarrow> (truthy (hc_access_token w) \<longrightarrow> issued (api_host w) (hc_access_token w))"

definition own_request :: "(string \<Rightarrow> pyval \<Rightarrow> bool) \<Rightarrow> http_request \<Rightarrow> bool" where
  "own_request issued rq \<longleftrightarrow> (case rq_body rq of None \<Rightarrow> True
     | Some body \<Rightarrow> truthy (get body ''accessToken'') \<longrightarrow> issued (rq_host rq) (get body ''accessToken''))"

definition own_query :: "(string \<Rightarrow> pyval \<Rightarrow> bool) \<Rightarrow> (pyval \<Rightarrow> string) \<Rightarrow> string \<Rightarrow> string \<Rightarrow> bool" where
  "own_query issued repr host path \<longleftrightarrow>
     (\<exists>n token. path = describe_path repr n token \<and> (truthy token \<longrightarrow> issued host token))"

text \<open>The same client, except that a request with a token of another host is answered by \<open>f\<close> or \<open>g\<close>.\<close>

definition divert ::
  "(string \<Rightarrow> pyval \<Rightarrow> bool) \<Rightarrow> (http_request \<Rightarrow> ('x https, int \<times> string) io)
     \<Rightarrow> (string \<Rightarrow> string \<Rightarrow> ('x https, int \<times> pyval py) io) \<Rightarrow> 'x https_env \<Rightarrow> 'x https_env" where
  "divert issued f g env = env
     \<lparr>he_exchange := \<lambda>rq. if own_request issued rq then he_exchange env rq else f rq,
      he_describe := \<lambda>host path. if own_query issued (he_text env) host path then he_describe env host path
        else g host path\<rparr>"

text \<open>
  What is asked of the world: other tasks keep the partition and the property while an exchange is awaited,
  and a host answers the token request with a token of its own.
\<close>

definition honest :: "(string \<Rightarrow> pyval \<Rightarrow> bool) \<Rightarrow> 'x https_env \<Rightarrow> bool" where
  "honest issued env \<longleftrightarrow>
     (\<forall>rq w r w'. he_exchange env rq w = (r, w') \<longrightarrow> own_token issued w \<longrightarrow>
        own_token issued w' \<and> api_host w' = api_host w) \<and>
     (\<forall>host path w r w'. he_describe env host path w = (r, w') \<longrightarrow> own_token issued w \<longrightarrow> own_token issued w') \<and>
     (\<forall>rq w v w' d. rq_path rq = ''/getOauthToken'' \<longrightarrow> send_request env rq w = (Inr v, w') \<longrightarrow>
        response_data v = Inr (Some (VDict d)) \<longrightarrow> truthy (get d ''access_token'') \<longrightarrow>
        issued (rq_host rq) (get d ''access_token''))"

lemma divert_simps [simp]:
  "he_user (divert issued f g env) = he_user env" "he_password (divert issued f g env) = he_password env"
  "he_text (divert issued f g env) = he_text env" "he_hmac (divert issued f g env) = he_hmac env"
  "he_draw (divert issued f g env) = he_draw env"
  "sign_with (divert issued f g env) = sign_with env" "draw (divert issued f g env) = draw env"
  "token_request (divert issued f g env) = token_request env"
  by (auto simp: divert_def sign_with_def draw_def token_request_def fun_eq_iff split: option.splits)

lemma divert_request: "own_request issued rq \<Longrightarrow> send_request (divert issued f g env) rq = send_request env rq"
  by (simp add: send_request_def divert_def)

lemma honest_request:
  assumes "honest issued env" "own_token issued w" "send_request env rq w = (r, w')"
  shows "own_token issued w' \<and> api_host w' = api_host w"
proof -
  obtain q w1 where q: "he_exchange env rq w = (q, w1)" by force
  have "w' = w1" using assms(3) q by (auto simp: send_request_def bindS_def split: sum.splits if_splits option.splits)
  then show ?thesis using assms(1,2) q by (auto simp: honest_def)
qed

lemma kept_request:
  fixes env :: "'x https_env"
  assumes "honest issued env" "\<And>w :: 'x https. own_token issued w \<Longrightarrow> own_request issued (rq w)"
    and "\<And>v. kept (own_token issued) (k v) (k' v)"
  shows "kept (own_token issued) (bindS (getS rq) (\<lambda>q. bindS (send_request (divert issued f g env) q) k))
    (bindS (getS rq) (\<lambda>q. bindS (send_request env q) k'))"
proof (rule kept_get)
  fix w :: "'x https" assume w: "own_token issued w"
  obtain r w1 where run: "send_request env (rq w) w = (r, w1)" by force
  then have w1: "own_token issued w1" using honest_request [OF assms(1) w] by blast
  show "bindS (send_request (divert issued f g env) (rq w)) k w = bindS (send_request env (rq w)) k' w
      \<and> own_token issued (snd (bindS (send_request env (rq w)) k' w))"
    using assms(3) w1 run by (cases r) (auto simp: divert_request [OF assms(2) [OF w]] bindS_def kept_def)
qed

lemma own_body:
  "own_token issued w \<Longrightarrow> own_request issued (get_family_statistics_users sg r u (hc_access_token w) (api_host w))"
  "own_token issued w \<Longrightarrow> own_request issued (get_homepage_data sg r fam u (hc_access_token w) (api_host w))"
  "own_token issued w \<Longrightarrow> own_request issued (get_devices_status sg r (hc_access_token w) sid u n fam flag (api_host w))"
  by (simp_all add: own_token_def own_request_def get_family_statistics_users_def get_homepage_data_def
      get_devices_status_def Let_def)

lemma own_token_frame [simp]:
  "own_token issued (w\<lparr>hc_family_id := a, hc_family_name := b\<rparr>) = own_token issued w"
  "own_token issued (w\<lparr>hc_family_id := a\<rparr>) = own_token issued w"
  "own_token issued (w\<lparr>hc_family_name := b\<rparr>) = own_token issued w"
  "own_token issued (w\<lparr>hc_families := c\<rparr>) = own_token issued w"
  "own_token issued (w\<lparr>hc_gateway_ips := i\<rparr>) = own_token issued w"
  "own_token issued (w\<lparr>hc_user_id := u\<rparr>) = own_token issued w"
  by (simp_all add: own_token_def api_host_def)

lemma kept_families: "kept (own_token issued) (receive_families v) (receive_families v)"
proof -
  have choose: "kept (own_token issued) choose_family choose_family"
    by (auto simp: kept_def choose_family_def split: list.splits option.splits)
  show ?thesis unfolding receive_families_def
    by (cases v) (auto intro!: kept_bind kept_modify choose)
qed

lemma kept_fetch_family:
  assumes "honest issued env"
  shows "kept (own_token issued) (fetch_family (divert issued f g env)) (fetch_family env)"
  unfolding fetch_family_def divert_simps
proof (intro kept_except kept_bind)
  fix b
  show "kept (own_token issued)
      (if \<not> b then retS []
       else bindS (getS (\<lambda>w. get_family_statistics_users (sign_with env) (draw env w) (hc_user_id w)
              (hc_access_token w) (api_host w))) (\<lambda>rq.
          bindS (send_request (divert issued f g env) rq) (\<lambda>resp.
          bindS (liftE (response_data resp)) (\<lambda>data.
            case data of None \<Rightarrow> retS [] | Some v \<Rightarrow> receive_families v))))
      (if \<not> b then retS []
       else bindS (getS (\<lambda>w. get_family_statistics_users (sign_with env) (draw env w) (hc_user_id w)
              (hc_access_token w) (api_host w))) (\<lambda>rq.
          bindS (send_request env rq) (\<lambda>resp.
          bindS (liftE (response_data resp)) (\<lambda>data.
            case data of None \<Rightarrow> retS [] | Some v \<Rightarrow> receive_families v))))"
    by (cases b) (auto intro!: kept_request [OF assms] own_body kept_liftE kept_option kept_families)
qed simp_all


lemma own_token_login:
  assumes "own_token issued w" "truthy v \<Longrightarrow> text_in ''access_token'' v = Inr True"
    and "\<And>d. v = VDict d \<Longrightarrow> truthy (get d ''access_token'') \<Longrightarrow> issued (api_host w) (get d ''access_token'')"
  shows "own_token issued (snd (store_token v w))"
proof (cases v)
  case (VDict d)
  have "dget d ''access_token'' (VStr []) = get d ''access_token''" if "truthy v"
    using assms(2) [OF that] VDict by (auto simp: dget_def has_key_def split: option.splits)
  then show ?thesis using assms VDict
    by (auto simp: store_token_def own_token_def api_host_def)
qed (use assms in \<open>auto simp: store_token_def own_token_def api_host_def bindS_def\<close>)

text \<open>What the token request leaves in hand: a token of the host it was sent to.\<close>

lemma fetched_token:
  assumes "honest issued env" "own_token issued w" "fetch_access_token env w = (Inr v, w')"
  shows "own_token issued w'" "truthy v \<Longrightarrow> text_in ''access_token'' v = Inr True"
    "v = VDict d \<Longrightarrow> truthy (get d ''access_token'') \<Longrightarrow> issued (api_host w') (get d ''access_token'')"
proof -
  obtain r w1 where run: "send_request env (token_request env w) w = (r, w1)" by force
  have w1: "own_token issued w1" "api_host w1 = api_host w" using honest_request [OF assms(1,2) run] by auto
  have path: "rq_path (token_request env w) = ''/getOauthToken''" "rq_host (token_request env w) = api_host w"
    by (auto simp: token_request_def get_access_token_by_password_def get_access_token_by_session_id_def split: option.splits)
  have out: "w' = w1 \<and> (v = VDict [] \<or>
      (\<exists>resp. r = Inr resp \<and> response_data resp = Inr (Some v) \<and> text_in ''access_token'' v = Inr True))"
    using assms(3) run
    by (auto simp: fetch_access_token_def except_any_def catchS_def bindS_def
        split: sum.splits option.splits if_splits)
  show "own_token issued w'" using out w1 by simp
  show "truthy v \<Longrightarrow> text_in ''access_token'' v = Inr True" using out by auto
  show "v = VDict d \<Longrightarrow> truthy (get d ''access_token'') \<Longrightarrow> issued (api_host w') (get d ''access_token'')"
  proof -
    assume d: "v = VDict d" "truthy (get d ''access_token'')"
    then have "d \<noteq> []" by auto
    then obtain resp where "r = Inr resp" "response_data resp = Inr (Some (VDict d))" using out d(1) by auto
    moreover have "rq_path rq = ''/getOauthToken'' \<Longrightarrow> send_request env rq w = (Inr u, w') \<Longrightarrow>
        response_data u = Inr (Some (VDict d)) \<Longrightarrow> truthy (get d ''access_token'') \<Longrightarrow>
        issued (rq_host rq) (get d ''access_token'')" for rq u w'
      using assms(1) unfolding honest_def by blast
    ultimately show "issued (api_host w') (get d ''access_token'')"
      using out w1 path run d(2) by metis
  qed
qed

lemma divert_token: "fetch_access_token (divert issued f g env) = fetch_access_token env"
proof -
  have "own_request issued (token_request env w)" for w
    by (auto simp: own_request_def token_request_def get_access_token_by_password_def
        get_access_token_by_session_id_def split: option.splits)
  then show ?thesis
    by (simp add: fetch_access_token_def fun_eq_iff except_any_def catchS_def divert_request)
qed

lemma kept_authenticate:
  assumes "honest issued env"
  shows "kept (own_token issued) (authenticate (divert issued f g env)) (authenticate env)"
proof -
  have "own_token issued (snd (bindS (fetch_access_token env) (\<lambda>data. bindS (store_token data) (\<lambda>_. getS has_tokens)) w))"
    if w: "own_token issued w" for w
  proof -
    obtain r w1 where run: "fetch_access_token env w = (r, w1)" by force
    show ?thesis
    proof (cases r)
      case (Inr v)
      note fetched = fetched_token [OF assms w, of v w1]
      have "own_token issued (snd (store_token v w1))"
        using fetched run Inr by (intro own_token_login) auto
      then show ?thesis using run Inr by (auto simp: bindS_def split: prod.splits sum.splits)
    next
      case (Inl e)
      obtain q w2 where "send_request env (token_request env w) w = (q, w2)" by force
      moreover from this have "w1 = w2" using run
        by (auto simp: fetch_access_token_def except_any_def catchS_def bindS_def split: sum.splits option.splits if_splits)
      ultimately have "own_token issued w1" using honest_request [OF assms w] by blast
      then show ?thesis using run Inl by (simp add: bindS_def)
    qed
  qed
  then have "kept (own_token issued) (bindS (fetch_access_token env) (\<lambda>data. bindS (store_token data) (\<lambda>_. getS has_tokens)))
      (bindS (fetch_access_token env) (\<lambda>data. bindS (store_token data) (\<lambda>_. getS has_tokens)))"
    by (simp add: kept_def)
  then show ?thesis unfolding authenticate_def divert_token by (intro kept_bind) simp_all
qed

lemma kept_ensure_login:
  assumes "honest issued env"
  shows "kept (own_token issued) (ensure_login (divert issued f g env)) (ensure_login env)"
  unfolding ensure_login_def
  by (auto intro!: kept_bind kept_authenticate kept_fetch_family assms kept_modify)

lemma kept_try_clouds:
  assumes "honest issued env"
  shows "kept (own_token issued) (try_clouds (divert issued f g env) fam cs) (try_clouds env fam cs)"
proof (induction cs)
  case (Cons c cs)
  have "kept (own_token issued) (switch_cloud c fam) (switch_cloud c fam)"
    by (simp add: switch_cloud_def kept_def own_token_def)
  then show ?case using Cons by (auto intro!: kept_bind kept_ensure_login assms)
qed (simp only: try_clouds.simps kept_simps)

lemma kept_readtable:
  assumes "honest issued env"
  shows "kept (own_token issued) (readtable (divert issued f g env) flag) (readtable env flag)"
  unfolding readtable_def divert_simps by (auto intro!: kept_request [OF assms] own_body kept_liftE)

lemma kept_describe:
  fixes env :: "'x https_env"
  assumes "honest issued env"
  shows "kept (own_token issued) (fetch_device_desc (divert issued f g env) n) (fetch_device_desc env n)"
proof -
  have step: "kept (own_token issued)
      (bindS (getS (\<lambda>w. (hc_access_token w, api_host w))) (\<lambda>(token, host). if \<not> truthy token then retS VNone
         else bindS (he_describe (divert issued f g env) host (describe_path (he_text env) n token)) k))
      (bindS (getS (\<lambda>w. (hc_access_token w, api_host w))) (\<lambda>(token, host). if \<not> truthy token then retS VNone
         else bindS (he_describe env host (describe_path (he_text env) n token)) k))"
    if k: "\<And>x. kept (own_token issued) (k x) (k x)" for k
  proof (rule kept_get, clarsimp)
    fix w :: "'x https" assume w: "own_token issued w" "truthy (hc_access_token w)"
    let ?p = "describe_path (he_text env) n (hc_access_token w)"
    have own: "own_query issued (he_text env) (api_host w) ?p" using w by (auto simp: own_query_def own_token_def)
    obtain r w1 where run: "he_describe env (api_host w) ?p w = (r, w1)" by force
    then have "own_token issued w1" using assms w by (auto simp: honest_def)
    then show "bindS (he_describe (divert issued f g env) (api_host w) ?p) k w = bindS (he_describe env (api_host w) ?p) k w
        \<and> own_token issued (snd (bindS (he_describe env (api_host w) ?p) k w))"
      using own run k by (cases r) (auto simp: divert_def bindS_def kept_def)
  qed
  show ?thesis unfolding fetch_device_desc_def divert_simps
    by (intro kept_except kept_bind kept_ensure_login assms) (auto intro!: step kept_liftE)
qed

lemma kept_homepage:
  assumes "honest issued env"
  shows "kept (own_token issued) (fetch_homepage_data (divert issued f g env)) (fetch_homepage_data env)"
proof -
  have step: "kept (own_token issued)
      (bindS (getS (\<lambda>w. get_homepage_data (sign_with env) (draw env w) (hc_family_id w) (hc_user_id w) (hc_access_token w) (api_host w)))
         (\<lambda>rq. bindS (send_request (divert issued f g env) rq) k))
      (bindS (getS (\<lambda>w. get_homepage_data (sign_with env) (draw env w) (hc_family_id w) (hc_user_id w) (hc_access_token w) (api_host w)))
         (\<lambda>rq. bindS (send_request env rq) k))" if "\<And>x. kept (own_token issued) (k x) (k x)" for k
    using that by (intro kept_request [OF assms] own_body)
  show ?thesis unfolding fetch_homepage_data_def divert_simps
    by (intro kept_except kept_bind kept_ensure_login assms) (auto intro!: step kept_liftE)
qed

lemma kept_status:
  assumes "honest issued env"
  shows "kept (own_token issued) (fetch_device_status (divert issued f g env)) (fetch_device_status env)"
proof -
  have tables: "kept (own_token issued) (all_tables (divert issued f g env) d) (all_tables env d)" for d
    by (auto simp: all_tables_def intro!: kept_bind kept_readtable assms)
  show ?thesis unfolding fetch_device_status_def divert_simps
    by (intro kept_except kept_bind kept_ensure_login assms)
       (auto intro!: kept_bind kept_readtable tables assms kept_modify kept_option kept_liftE)
qed

lemma kept_discover:
  assumes "honest issued env"
  shows "kept (own_token issued) (discover (divert issued f g env)) (discover env)"
proof -
  have "kept (own_token issued) (described_devices (divert issued f g env)) (described_devices env)"
    "kept (own_token issued) (homepage_devices (divert issued f g env)) (homepage_devices env)"
    unfolding described_devices_def homepage_devices_def divert_simps
    by (auto intro!: kept_bind kept_describe kept_homepage assms kept_liftE split: pyval.splits)
  then show ?thesis unfolding discover_def divert_simps
    by (intro kept_bind kept_status assms kept_option) (auto simp: or_else_def intro!: kept_bind kept_liftE)
qed


section \<open>Families of another partition\<close>

text \<open>A partition that knows the account: it answers with these tokens and these families.\<close>

definition account_at :: "'x https_env \<Rightarrow> string \<Rightarrow> dict \<Rightarrow> pyval list \<Rightarrow> bool" where
  "account_at env host data items \<longleftrightarrow>
     (\<forall>rq w. rq_host rq = host \<longrightarrow>
       (rq_path rq = ''/getOauthToken'' \<longrightarrow> send_request env rq w = (Inr (VDict [(''data'', VDict data)]), w)) \<and>
       (rq_path rq = ''/v2/family/statistics/users'' \<longrightarrow> send_request env rq w = (Inr (VDict [(''data'', VList items)]), w)))"

lemma account_token:
  assumes "account_at env (api_host w) data items" "truthy (get data ''access_token'')"
  shows "fetch_access_token env w = (Inr (VDict data), w)"
proof -
  have "rq_path (token_request env w) = ''/getOauthToken''" "rq_host (token_request env w) = api_host w"
    by (auto simp: token_request_def get_access_token_by_password_def get_access_token_by_session_id_def split: option.splits)
  then have "send_request env (token_request env w) w = (Inr (VDict [(''data'', VDict data)]), w)"
    using assms(1) by (simp add: account_at_def)
  moreover have "has_key data ''access_token''" using assms(2) by (auto simp: has_key_def dget_def split: option.splits)
  ultimately show ?thesis
    by (simp add: fetch_access_token_def except_any_def catchS_def bindS_def response_data_def)
qed

lemma choose_family_total: "totalS choose_family"
  unfolding choose_family_def by (auto intro!: totalS_bind split: list.splits option.splits)

lemma account_families:
  assumes "account_at env (api_host w) data items" "has_tokens w" "family_rows items = Inr families"
  shows "fetch_family env w = choose_family (w\<lparr>hc_families := families\<rparr>)"
proof -
  let ?rq = "get_family_statistics_users (sign_with env) (draw env w) (hc_user_id w) (hc_access_token w) (api_host w)"
  have "rq_path ?rq = ''/v2/family/statistics/users''" "rq_host ?rq = api_host w"
    by (simp_all add: get_family_statistics_users_def Let_def)
  then have "send_request env ?rq w = (Inr (VDict [(''data'', VList items)]), w)"
    using assms(1) by (simp add: account_at_def)
  moreover obtain d w' where "choose_family (w\<lparr>hc_families := families\<rparr>) = (Inr d, w')"
    using choose_family_total unfolding totalS_def by blast
  ultimately show ?thesis using assms(2,3)
    by (auto simp: fetch_family_def except_any_def catchS_def bindS_def response_data_def receive_families_def
        split: prod.splits sum.splits)
qed

section \<open>Samples\<close>

text \<open>Two partitions that both know the account; each has a home of its own.\<close>

definition sample_answer :: "http_request \<Rightarrow> int \<times> string" where
  "sample_answer rq =
     (if rq_path rq = ''/getOauthToken'' then
        (if rq_host rq = ''china.orvibo.com'' then (200, ''{\"data\":{\"access_token\":\"china.orvibo.com\",\"user_id\":\"u\"}}'')
         else if rq_host rq = ''homemate.orvibo.com'' then (200, ''{\"data\":{\"access_token\":\"homemate.orvibo.com\",\"user_id\":\"u\"}}'')
         else (404, ''''))
      else if rq_path rq = ''/v2/family/statistics/users'' then
        (200, if rq_host rq = ''china.orvibo.com'' then ''{\"data\":[{\"familyId\":\"flat\"}]}'' else ''{\"data\":[{\"familyId\":\"villa\"}]}'')
      else (404, ''''))"

definition sample_https_env :: "'x https_env" where
  "sample_https_env = \<lparr>he_user = ''me'', he_password = ''h'', he_text = \<lambda>v. [], he_hmac = \<lambda>k m. [],
     he_draw = \<lambda>x. \<lparr>dr_random = [], dr_request_id = [], dr_serial = 0, dr_timestamp = 0\<rparr>,
     he_exchange = \<lambda>rq. retS (sample_answer rq), he_describe = \<lambda>host path. raiseS ValueError\<rparr>"

definition sample_https :: "unit https" where
  "sample_https = new_https CHINA_CLOUD ()"

lemma sample_loads:
  "loads ''{\"data\":{\"access_token\":\"china.orvibo.com\",\"user_id\":\"u\"}}''
     = Some (VDict [(''data'', VDict [(''access_token'', VStr ''china.orvibo.com''), (''user_id'', VStr ''u'')])])"
  "loads ''{\"data\":{\"access_token\":\"homemate.orvibo.com\",\"user_id\":\"u\"}}''
     = Some (VDict [(''data'', VDict [(''access_token'', VStr ''homemate.orvibo.com''), (''user_id'', VStr ''u'')])])"
  "loads ''{\"data\":[{\"familyId\":\"flat\"}]}'' = Some (VDict [(''data'', VList [VDict [(''familyId'', VStr ''flat'')]])])"
  by code_simp+

lemma sample_account:
  "account_at sample_https_env ''china.orvibo.com'' [(''access_token'', VStr ''china.orvibo.com''), (''user_id'', VStr ''u'')]
     [VDict [(''familyId'', VStr ''flat'')]]"
  by (auto simp: account_at_def send_request_def sample_https_env_def sample_answer_def sample_loads bindS_def)

lemma sample_honest: "honest (\<lambda>host t. t = VStr host) sample_https_env"
  by (auto simp: honest_def send_request_def sample_https_env_def sample_answer_def sample_loads bindS_def
      response_data_def split: if_splits)

section \<open>Properties\<close>

text \<open>C9. Access tokens never leave the partition that issued them: if every host answers the token request
  with a token of its own and other tasks do not switch the partition under a running request, the search
  for the partition of the account, which tries one host after the other, and the discovery of the devices
  with its fallbacks behave the same whatever answer a request with a foreign token would get.\<close>

theorem tokens_stay_in_partition:
  assumes "honest issued env" "own_token issued w"
  shows "async_detect_cloud (divert issued f g env) fam w = async_detect_cloud env fam w
    \<and> fetch_device_status (divert issued f g env) w = fetch_device_status env w
    \<and> discover (divert issued f g env) w = discover env w
    \<and> own_token issued (snd (async_detect_cloud env fam w)) \<and> own_token issued (snd (discover env w))"
proof -
  have "kept (own_token issued) (async_detect_cloud (divert issued f g env) fam) (async_detect_cloud env fam)"
    unfolding async_detect_cloud_def divert_simps
    by (intro kept_bind kept_try_clouds assms(1)) simp_all
  then show ?thesis
    using kept_status [OF assms(1), of f g] kept_discover [OF assms(1), of f g] assms(2) by (simp add: kept_def)
qed

theorem tokens_stay_in_partition_witness:
  "\<forall>f g. async_detect_cloud (divert (\<lambda>host t. t = VStr host) f g sample_https_env) VNone sample_https
     = async_detect_cloud sample_https_env VNone sample_https"
  by (intro allI tokens_stay_in_partition [THEN conjunct1] sample_honest)
     (simp add: sample_https_def new_https_def own_token_def)

text \<open>C39. The search for the partition does not notice that a home is in the other one: a partition that
  knows the account is accepted even if the home that was asked for is not among the homes it lists; the
  check of \<^verbatim>\<open>_fetch_family\<close> comes to nothing, since the family identifier is kept and \<^verbatim>\<open>ensure_login\<close> asks
  only whether there is one.\<close>

theorem detection_accepts_foreign_family:
  assumes "account_at env (api_host w) data items" "truthy (get data ''access_token'')" "truthy (get data ''user_id'')"
    and "truthy fam" "preferred_family (he_text env) fam = VStr home"
    and "family_rows items = Inr families" "find_family (VStr home) families = None"
  shows "\<exists>w'. async_detect_cloud env fam w = (Inr True, w') \<and> hc_cloud w' = hc_cloud w
    \<and> hc_family_id w' = VStr home \<and> find_family (hc_family_id w') (hc_families w') = None"
proof -
  obtain w0 where w0: "switch_cloud (hc_cloud w) (VStr home) w = (Inr (), w0)" "hc_cloud w0 = hc_cloud w"
    "hc_family_id w0 = VStr home" "\<not> has_tokens w0" "api_host w0 = api_host w"
    by (simp add: switch_cloud_def has_tokens_def api_host_def)
  have home: "truthy (VStr home)" using assms(5) by (auto simp: preferred_family_def Let_def split: if_splits)
  let ?w1 = "w0\<lparr>hc_access_token := get data ''access_token'', hc_user_id := get data ''user_id''\<rparr>"
  let ?w2 = "?w1\<lparr>hc_families := families\<rparr>"
  have field: "dget data k (VStr []) = get data k" if "truthy (get data k)" for k
    using that by (auto simp: dget_def split: option.splits)
  have "truthy (VDict data)" using assms(2) by auto
  then have "fetch_access_token env w0 = (Inr (VDict data), w0)" "store_token (VDict data) w0 = (Inr (), ?w1)"
    using account_token [of env w0 data items] w0 assms(1-3) by (simp_all add: store_token_def field)
  moreover have "has_tokens ?w1" using assms(2,3) by (simp add: has_tokens_def)
  ultimately have "authenticate env w0 = (Inr True, ?w1)"
    using w0(4) by (simp add: authenticate_def bindS_def)
  moreover have "fetch_family env ?w1 = (Inr [], ?w2)"
    using account_families [of env ?w1 data items families] w0 assms(1-3,6,7) home
    by (simp add: has_tokens_def api_host_def choose_family_def)
  ultimately have "ensure_login env w0 = (Inr True, ?w2)"
    using w0(3) home assms(2,3) by (simp add: ensure_login_def bindS_def has_tokens_def)
  moreover have "async_detect_cloud env fam w = bindS (switch_cloud (hc_cloud w) (VStr home)) (\<lambda>_.
      bindS (ensure_login env) (\<lambda>ok. if ok then retS True
        else try_clouds env (VStr home) (filter (\<lambda>e. e \<noteq> hc_cloud w) CLOUD_ENDPOINTS))) w"
    using assms(4,5) by (simp add: async_detect_cloud_def cloud_candidates_def py_or_def Let_def)
  ultimately show ?thesis using w0 assms(7) by (auto simp: bindS_def)
qed

theorem detection_accepts_foreign_family_witness:
  "\<exists>w'. async_detect_cloud sample_https_env (VStr ''villa'') sample_https = (Inr True, w')
     \<and> hc_cloud w' = hc_cloud sample_https \<and> hc_family_id w' = VStr ''villa''
     \<and> find_family (hc_family_id w') (hc_families w') = None"
proof -
  have "api_host sample_https = ''china.orvibo.com''"
    by (simp add: sample_https_def new_https_def api_host_def CHINA_CLOUD_def)
  moreover have "preferred_family (he_text (sample_https_env :: unit https_env)) (VStr ''villa'') = VStr ''villa''" by code_simp
  moreover have "family_rows [VDict [(''familyId'', VStr ''flat'')]]
      = Inr [[(''familyId'', VStr ''flat''), (''familyName'', VStr UNKNOWN_FAMILY)]]"
    by (simp add: family_rows_def family_row_def)
  moreover have "find_family (VStr ''villa'') [[(''familyId'', VStr ''flat''), (''familyName'', VStr UNKNOWN_FAMILY)]] = None"
    by (simp add: find_family_def)
  ultimately show ?thesis
    using detection_accepts_foreign_family [of sample_https_env sample_https _ _ "VStr ''villa''" "''villa''"]
      sample_account by fastforce
qed

text \<open>No row of a table gets lost when the answer comes in blocks: a table that is a list in every block
  that has it becomes the list of all its rows, in the order of the blocks.\<close>

lemma blocks_keep_rows:
  assumes "list_all (lists_table k) elements" "list_ex (block_has k) elements"
  shows "map_of (merge_blocks elements) k = Some (VList (concat (map (block_rows k) elements)))"
  using fold_block_rows [of k elements "[]" False "[]"] assms by (simp add: merge_blocks_def)

text \<open>The addresses handed to the gateway manager belong to gateways of the account: each is listed as a
  MixPad that was not deleted, and the address is the one of its row in the table of gateways.\<close>

lemma gateway_addresses_listed:
  assumes "extract_gateway_ips repr data = Inr ips" "map_of ips uid = Some ip"
  shows "(\<exists>item \<in> set (table_rows (get data ''device'') (Some ''deviceId'')).
        safe_int_opt (get item ''deviceType'') = Inr (Some 114) \<and> \<not> deleted item \<and> py_str repr (get item ''uid'') = uid)
    \<and> (\<exists>row \<in> set (table_rows (get data ''gateway'') (Some ''uid'')). \<not> deleted row \<and> get row ''uid'' = VStr uid)"
proof -
  obtain uids where uids: "mapE (mixpad_uid repr) (table_rows (get data ''device'') (Some ''deviceId'')) = Inr uids"
    and ips: "ips = fold (add_gateway (concat uids)) (table_rows (get data ''gateway'') (Some ''uid'')) []"
    using assms(1) by (auto simp: extract_gateway_ips_def elim: bindE_InrE)
  have listed: "\<exists>item \<in> set items. safe_int_opt (get item ''deviceType'') = Inr (Some 114) \<and> \<not> deleted item
      \<and> py_str repr (get item ''uid'') = u"
    if us: "mapE (mixpad_uid repr) items = Inr us" "u \<in> set (concat us)" for items us u
  proof -
    obtain item l where "item \<in> set items" "mixpad_uid repr item = Inr l" "u \<in> set l"
      using mapE_source [OF us] by blast
    then show ?thesis by (auto simp: mixpad_uid_def elim!: bindE_InrE split: if_splits)
  qed
  have rows: "map_of result uid = Some ip \<or> (\<exists>row \<in> set rows. \<not> deleted row \<and> get row ''uid'' = VStr uid) \<and> uid \<in> set m"
    if "map_of (fold (add_gateway m) rows result) uid = Some ip" for rows result m
    using that
  proof (induction rows arbitrary: result)
    case (Cons row rows)
    let ?r = "add_gateway m row result"
    have step: "map_of ?r uid = Some ip \<Longrightarrow> map_of result uid = Some ip
        \<or> (\<not> deleted row \<and> get row ''uid'' = VStr uid) \<and> uid \<in> set m"
      by (auto simp: add_gateway_def gateway_address_def update_conv'
          split: option.splits if_splits pyval.splits)
    show ?case using Cons.IH [of ?r] Cons.prems step by auto
  qed simp
  show ?thesis using rows [of "concat uids"] listed [OF uids] assms(2) unfolding ips by fastforce
qed


end
