(* ===== verification/Coordinator.thy ===== *)
theory Coordinator
  imports Https_Client Control_Executor Lock_Events
begin

text \<open>
  \<^verbatim>\<open>coordinator.py\<close>: what the coordinator adds to the components it wires together. The set-up of the home
  with its change of the partition works on the client of \<open>Https_Client\<close>. The pushes of the gateways are
  checked and handed to \<open>dispatch\<close>. The control of air conditioners is an effect on the world of
  \<open>Control_Executor\<close>, whose route target the coordinator is. The flags that fall by themselves are a state
  machine of sleeping tasks beside the dispatcher, and the listener for lock events runs the lock manager and
  merges an opening into the state store. Facades that only pass their arguments on and the logs are not
  modelled; the bus of events, the URLs of the media and the record of the openings are parameters.
\<close>

section \<open>The set-up of a home\<close>

definition auth_failed :: py_exn where "auth_failed = OtherError ''ConfigEntryAuthFailed''"
definition update_failed :: py_exn where "update_failed = OtherError ''UpdateFailed''"

text \<open>An account without devices is looked up in the other partition too.\<close>

definition discover_elsewhere ::
  "'x https_env \<Rightarrow> string \<Rightarrow> dict option \<times> dict list \<Rightarrow> ('x https, dict option \<times> dict list) io" where
  "discover_elsewhere env family found =
     (if snd found \<noteq> [] then retS found
      else bindS (getS (\<lambda>w. cloud_candidates (Some (hc_cloud w)) ! 1)) (\<lambda>fallback.
        bindS (switch_cloud fallback (if family = [] then VNone else VStr family)) (\<lambda>_.
        bindS (ensure_login env) (\<lambda>ok. if ok then discover env else retS found))))"

definition discover_home :: "'x https_env \<Rightarrow> string \<Rightarrow> ('x https, dict list) io" where
  "discover_home env family =
     catchS
       (bindS (modifyS (\<lambda>w. if family = [] then w else w\<lparr>hc_family_id := VStr family, hc_family_name := VNone\<rparr>)) (\<lambda>_.
        bindS (async_detect_cloud env (VStr family)) (\<lambda>ok. if \<not> ok then raiseS auth_failed
          else bindS (discover env) (\<lambda>found.
            bindS (discover_elsewhere env family found) (\<lambda>(status_data, devices).
            if status_data = None \<and> devices = [] then raiseS update_failed else retS devices)))))
       (\<lambda>e. if e = auth_failed \<or> e = cancelled_error then raiseS e else raiseS update_failed)"

text \<open>The connection to the cloud waits for a family. \<open>nap\<close>: what other tasks do in a second; the result says
  whether the wait is over after \<open>n\<close> seconds.\<close>

fun family_known :: "('x https, unit) io \<Rightarrow> nat \<Rightarrow> ('x https, bool) io" where
  "family_known nap n =
     bindS (getS (\<lambda>w. truthy (hc_family_id w))) (\<lambda>known. if known then retS True
       else case n of 0 \<Rightarrow> retS False | Suc m \<Rightarrow> bindS nap (\<lambda>_. family_known nap m))"

declare family_known.simps [simp del]

section \<open>Pushes of a gateway\<close>

definition PUSH_ID_FIELDS :: "string list" where
  "PUSH_ID_FIELDS = [''deviceId'', ''deviceID'', ''device_id'']"

fun id_text :: "pyval \<Rightarrow> string" where
  "id_text (VStr s) = py_strip s"
| "id_text (VInt n) = dec n"
| "id_text _ = []"

definition lan_payload_device_id :: "dict \<Rightarrow> string option" where
  "lan_payload_device_id payload =
     List.find (\<lambda>s. s \<noteq> []) (map (\<lambda>k. id_text (get payload k)) PUSH_ID_FIELDS)"

fun gateway_text :: "pyval \<Rightarrow> string" where
  "gateway_text (VStr s) = py_strip s"
| "gateway_text _ = []"

definition lan_payload_gateway_uid :: "dict \<Rightarrow> string option" where
  "lan_payload_gateway_uid payload =
     List.find (\<lambda>s. s \<noteq> []) (map (\<lambda>k. gateway_text (get payload k)) [''gatewayUid'', ''gatewayUID'', ''uid''])"

definition DERIVED_FIELDS :: "string list" where
  "DERIVED_FIELDS = [''battery'', ''door_state'', ''motion_detected'', ''smoke_detected'', ''gas_detected'',
     ''water_leak_detected'', ''emergency_state'', ''temperature'', ''humidity'']"

fun reads_int :: "pyval \<Rightarrow> bool" where
  "reads_int (VInt n) = True"
| "reads_int (VStr s) = (parse_int s \<noteq> None)"
| "reads_int _ = False"

definition lan_valid_state_payload :: "dict \<Rightarrow> bool" where
  "lan_valid_state_payload payload \<longleftrightarrow>
     (case get payload ''properties'' of VNone \<Rightarrow> True | VDict d \<Rightarrow> True | _ \<Rightarrow> False) \<and>
     \<not> list_ex (has_key payload) DERIVED_FIELDS \<and>
     list_all (\<lambda>k. case map_of payload k of None \<Rightarrow> True | Some v \<Rightarrow> reads_int v)
       [''value1'', ''value2'', ''value3'', ''value4'']"

definition push_status :: "string \<Rightarrow> dict \<Rightarrow> dict" where
  "push_status d payload =
     [(''raw_data'', VDict payload), (''properties'', dget payload ''properties'' (VDict [])),
      (''value1'', get payload ''value1''), (''value2'', get payload ''value2''),
      (''value3'', get payload ''value3''), (''value4'', get payload ''value4''),
      (''statusType'', get payload ''statusType''), (''subDeviceType'', get payload ''subDeviceType''),
      (''cmd'', get payload ''cmd''), (''action'', get payload ''action''), (''event'', get payload ''event''),
      (''deviceId'', VStr d), (''uid'', dget payload ''uid'' (VStr [])), (''online'', VBool True)]"

text \<open>The gateway a device belongs to, if it is known.\<close>

definition owner_of :: "dict option \<Rightarrow> string option" where
  "owner_of device = (case device of None \<Rightarrow> None
     | Some dev \<Rightarrow> (case get dev ''uid'' of VStr uid \<Rightarrow> Some uid | _ \<Rightarrow> None))"

definition foreign :: "string option \<Rightarrow> string \<Rightarrow> bool" where
  "foreign expected gateway_uid \<longleftrightarrow> (case expected of None \<Rightarrow> False | Some uid \<Rightarrow> uid \<noteq> gateway_uid)"

definition on_lan_status_update ::
  "'x callbacks \<Rightarrow> transport_mode \<Rightarrow> string \<Rightarrow> dict \<Rightarrow> ('x dispatcher, unit) io" where
  "on_lan_status_update cb md gateway_uid payload =
     (case lan_payload_device_id payload of None \<Rightarrow> retS ()
      | Some d \<Rightarrow>
          if \<not> lan_valid_state_payload payload then retS ()
          else bindS (getS (\<lambda>w. map_of (di_devices w) d)) (\<lambda>device.
            bindS (liftE (lan_state_allowed (known_models cb) (VDict (case device of None \<Rightarrow> [] | Some x \<Rightarrow> x)) md)) (\<lambda>allowed.
            if \<not> allowed \<or> foreign (owner_of device) gateway_uid \<or> foreign (lan_payload_gateway_uid payload) gateway_uid
            then retS ()
            else dispatch cb d (push_status d payload) LAN)))"

section \<open>Air conditioners\<close>

text \<open>
  What the coordinator has beside the executor: the account, the serial numbers, and of the cloud client the
  session key and \<^verbatim>\<open>_send_packet\<close>.
\<close>

record 'x ac_env =
  ae_exec :: "'x exec env"
  ae_user :: string
  ae_text :: "pyval \<Rightarrow> string"
  ae_serials :: "'x exec \<Rightarrow> int \<times> int"
  ae_key :: "'x exec \<Rightarrow> string option"
  ae_send :: "dict \<Rightarrow> string \<Rightarrow> ('x exec, unit) io"

definition get_device_state :: "string \<Rightarrow> 'x exec \<Rightarrow> dict option" where
  "get_device_state d w = map_of (st_states (ex_store w)) d"

definition AC_MODES :: "(int \<times> string) list" where
  "AC_MODES = [(2, ''dehumidify''), (3, ''cool''), (4, ''heat''), (7, ''fan_only'')]"

definition FAN_SPEEDS :: "(int \<times> string) list" where
  "FAN_SPEEDS = [(1, ''low''), (2, ''medium''), (3, ''high'')]"

text \<open>\<^verbatim>\<open>names.get(v, f"unknown({v})")\<close>\<close>

definition code_name :: "(pyval \<Rightarrow> string) \<Rightarrow> (int \<times> string) list \<Rightarrow> pyval \<Rightarrow> string py" where
  "code_name repr names v =
     (if \<not> hashable v then Inl TypeError
      else Inr (case find_code v names of Some s \<Rightarrow> s | None \<Rightarrow> ''unknown('' @ py_str repr v @ '')''))"

text \<open>\<^verbatim>\<open>round(x, 1)\<close> of a double, which is correctly rounded.\<close>

fun round_tenth :: "pyval \<Rightarrow> pyval" where
  "round_tenth (VFloat (Fin r)) = VFloat (to_double (of_int (round_half_even (r * 10)) / 10))"
| "round_tenth v = v"

definition scaled_temperature :: "int \<Rightarrow> pyval py" where
  "scaled_temperature temp_raw =
     (if temp_raw = 0 then Inr (VInt 0) else bindE (hundredths temp_raw) (\<lambda>x. Inr (round_tenth x)))"

fun optimistic_temperature :: "pyval \<Rightarrow> pyval py" where
  "optimistic_temperature (VInt n) = scaled_temperature (drop_bit 16 n)"
| "optimistic_temperature (VBool b) = scaled_temperature 0"
| "optimistic_temperature v = Inr v"

definition write_code :: "'x ac_env \<Rightarrow> string \<Rightarrow> string \<Rightarrow> (int \<times> string) list \<Rightarrow> pyval \<Rightarrow> ('x exec, unit) io" where
  "write_code ae d field names v =
     (if v = VNone then retS ()
      else bindS (liftE (code_name (ae_text ae) names v)) (\<lambda>n.
        write_state d [(field, VStr n), (field @ ''_raw'', v)]))"

definition optimistic_fields :: "pyval \<Rightarrow> pyval \<Rightarrow> pyval \<Rightarrow> pyval \<Rightarrow> string list" where
  "optimistic_fields value1 value2 value3 value4 =
     (if value1 = VNone then [] else [''state'']) @ (if value2 = VNone then [] else [''ac_mode'', ''ac_mode_raw'']) @
     (if value3 = VNone then [] else [''fan_speed'', ''fan_speed_raw'']) @ (if value4 = VNone then [] else [''temperature''])"

definition apply_ac_optimistic ::
  "'x ac_env \<Rightarrow> string \<Rightarrow> pyval \<Rightarrow> pyval \<Rightarrow> pyval \<Rightarrow> pyval \<Rightarrow> ('x exec, unit) io" where
  "apply_ac_optimistic ae d value1 value2 value3 value4 =
     bindS (getS (get_device_state d)) (\<lambda>st. if st = None \<or> st = Some [] then retS ()
       else thenS (whenS (value1 \<noteq> VNone) (write_state d [(''state'', VBool (py_eq value1 (VInt 0)))]))
        (thenS (write_code ae d ''ac_mode'' AC_MODES value2)
        (thenS (write_code ae d ''fan_speed'' FAN_SPEEDS value3)
        (thenS (if value4 = VNone then retS ()
               else bindS (liftE (optimistic_temperature value4)) (\<lambda>t. write_state d [(''temperature'', t)]))
        (thenS (let fs = optimistic_fields value1 value2 value3 value4
               in whenS (fs \<noteq> []) (mark_optimistic (ae_exec ae) d fs))
         notify)))))"

text \<open>The control over the cloud, and the wait for the device.\<close>

definition ac_ids :: "'x ac_env \<Rightarrow> string \<Rightarrow> pyval \<Rightarrow> 'x exec \<Rightarrow> ids" where
  "ac_ids ae d uid w = (case ae_serials ae w of (s, us) \<Rightarrow>
     \<lparr>user_of = ae_user ae, dev_of = d, uid_of = uid, serial_of = s, uni_serial_of = us\<rparr>)"

definition ac_confirm ::
  "'x ac_env \<Rightarrow> string \<Rightarrow> pyval \<Rightarrow> pyval \<Rightarrow> pyval \<Rightarrow> pyval \<Rightarrow> ('x exec, bool) io" where
  "ac_confirm ae d value1 value2 value3 value4 =
     bindS (wait_for_response (ae_exec ae) d) (\<lambda>response.
       thenS (if truthy response
              then bindS (getS (get_device_state d)) (\<lambda>st. whenS (st \<noteq> None \<and> st \<noteq> Some []) notify)
              else apply_ac_optimistic ae d value1 value2 value3 value4)
        (retS True))"

definition ac_over_cloud ::
  "'x ac_env \<Rightarrow> string \<Rightarrow> pyval \<Rightarrow> pyval \<Rightarrow> pyval \<Rightarrow> pyval \<Rightarrow> pyval \<Rightarrow> pyval \<Rightarrow> ('x exec, bool) io" where
  "ac_over_cloud ae d uid value1 value2 value3 value4 ord =
     bindS (getS (\<lambda>w. (has_ssl (ae_exec ae) w, ae_key ae w))) (\<lambda>(ssl, key).
       if \<not> ssl \<or> \<not> (key \<noteq> None \<and> key \<noteq> Some [] \<and> key \<noteq> Some DEFAULT_KEY) then retS False
       else bindS (getS (ac_ids ae d uid)) (\<lambda>e.
         bindS (liftE (ssl_control_ac e ord value1 value2 value3 value4)) (\<lambda>payload.
         thenS (ae_send ae payload (the key)) (ac_confirm ae d value1 value2 value3 value4))))"

definition ac_arguments :: "pyval \<Rightarrow> pyval \<Rightarrow> pyval \<Rightarrow> pyval \<Rightarrow> pyval \<Rightarrow> dict" where
  "ac_arguments ord value1 value2 value3 value4 =
     [(''order'', ord), (''value1'', value1), (''value2'', value2), (''value3'', value3), (''value4'', value4)]"

definition ac_control_raw ::
  "'x ac_env \<Rightarrow> string \<Rightarrow> pyval \<Rightarrow> pyval \<Rightarrow> pyval \<Rightarrow> pyval \<Rightarrow> pyval \<Rightarrow> pyval \<Rightarrow> ('x exec, bool) io" where
  "ac_control_raw ae d uid value1 value2 value3 value4 ord =
     bindS (transport (ae_exec ae) d) (\<lambda>(owner, scope).
       case owner of None \<Rightarrow> retS False
       | Some client \<Rightarrow>
           if scope = ''lan'' then
             bindS (except_any
                 (bindS (client_call (ae_exec ae) client ''send_ac_control'' [VStr d, uid]
                    (ac_arguments ord value1 value2 value3 value4)) (\<lambda>r. retS (truthy r)))
                 (\<lambda>e. retS False)) (\<lambda>ok.
               if ok then thenS (apply_ac_optimistic ae d value1 value2 value3 value4) (retS True)
               else ac_over_cloud ae d uid value1 value2 value3 value4 ord)
           else ac_over_cloud ae d uid value1 value2 value3 value4 ord)"

text \<open>What a mode or fan change sends along: the values of the stored state.\<close>

definition stored :: "string \<Rightarrow> string \<Rightarrow> pyval \<Rightarrow> 'x exec \<Rightarrow> pyval" where
  "stored d field dflt w = dget (case get_device_state d w of None \<Rightarrow> [] | Some st \<Rightarrow> st) field dflt"

definition current_value4 :: "string \<Rightarrow> 'x exec \<Rightarrow> pyval" where
  "current_value4 d w = py_or (stored d ''value4'' (VInt 0) w) (VInt (push_bit 16 2500))"

text \<open>\<^verbatim>\<open>device = self.devices.get(device_id); if not device: return False\<close>\<close>

definition with_ac :: "string \<Rightarrow> (dict \<Rightarrow> ('x exec, bool) io) \<Rightarrow> ('x exec, bool) io" where
  "with_ac d body =
     bindS (getS (\<lambda>w. map_of (ex_devices w) d)) (\<lambda>device. case device of
         None \<Rightarrow> retS False
       | Some dev \<Rightarrow> if dev = [] then retS False else body dev)"

definition set_ac_mode :: "'x ac_env \<Rightarrow> string \<Rightarrow> string \<Rightarrow> ('x exec, bool) io" where
  "set_ac_mode ae d ac_mode =
     with_ac d (\<lambda>dev.
       case map_of [(''dehumidify'', 2), (''cool'', 3), (''heat'', 4), (''fan_only'', 7)] (py_lower ac_mode) of
         None \<Rightarrow> retS False
       | Some m \<Rightarrow> bindS (getS (current_value4 d)) (\<lambda>v4.
           ac_control_raw ae d (uid_field dev) (VInt 0) (VInt m) VNone v4 (VStr ''mode setting'')))"

definition set_ac_temperature :: "'x ac_env \<Rightarrow> string \<Rightarrow> pyfloat \<Rightarrow> ('x exec, bool) io" where
  "set_ac_temperature ae d temperature =
     with_ac d (\<lambda>dev.
       bindS (getS (stored d ''ac_mode_raw'' (VInt 3))) (\<lambda>v2.
       bindS (getS (stored d ''fan_speed_raw'' (VInt 1))) (\<lambda>v3.
       bindS (liftE (ac_temperature_encode temperature)) (\<lambda>v4.
         ac_control_raw ae d (uid_field dev) (VInt 0) v2 v3 (VInt v4) (VStr ''temperature setting'')))))"

definition set_ac_fan_speed :: "'x ac_env \<Rightarrow> string \<Rightarrow> string \<Rightarrow> ('x exec, bool) io" where
  "set_ac_fan_speed ae d fan_speed =
     with_ac d (\<lambda>dev.
       case map_of [(''low'', 1), (''medium'', 2), (''high'', 3)] (py_lower fan_speed) of
         None \<Rightarrow> retS False
       | Some speed \<Rightarrow> bindS (getS (stored d ''ac_mode_raw'' (VInt 3))) (\<lambda>v2.
           bindS (getS (current_value4 d)) (\<lambda>v4.
           ac_control_raw ae d (uid_field dev) (VInt 0) v2 (VInt speed) v4 (VStr ''wind setting''))))"

text \<open>The coordinator as the target of the routes of the executor, and the executor it is built with.\<close>

definition coordinator_call :: "'x ac_env \<Rightarrow> string \<Rightarrow> pyval list \<Rightarrow> dict \<Rightarrow> ('x exec, pyval) io" where
  "coordinator_call ae m args kwargs =
     bindS (case (m = ''_async_ac_control_raw'', m = ''async_ventilation_state_update'',
                  m = ''async_clothes_horse_control'', args) of
         (True, _, _, [VStr d, uid]) \<Rightarrow>
           ac_control_raw ae d uid (get kwargs ''value1'') (get kwargs ''value2'') (get kwargs ''value3'')
             (get kwargs ''value4'') (dget kwargs ''order'' (VStr ''set property''))
       | (_, True, _, [VStr d, VInt value1]) \<Rightarrow> ventilation_state_update (ae_exec ae) d value1
       | (_, _, True, [VStr d, VStr feature, VStr v]) \<Rightarrow> clothes_horse_control (ae_exec ae) d feature v
       | _ \<Rightarrow> raiseS TypeError)
     (\<lambda>b. retS (VBool b))"

definition coordinator_env :: "'x ac_env \<Rightarrow> 'x exec env" where
  "coordinator_env ae = (ae_exec ae)
     \<lparr>has_target := \<lambda>w. True, target_call := coordinator_call ae, read_state := get_device_state\<rparr>"


section \<open>Flags that fall by themselves\<close>

datatype reset_kind = MOTION_RESET | EMERGENCY_RESET | DOORBELL_RESET | UNLOCK_RESET

type_synonym reset_key = "reset_kind \<times> string"

fun reset_flag :: "reset_kind \<Rightarrow> string" where
  "reset_flag MOTION_RESET = ''motion_detected''"
| "reset_flag EMERGENCY_RESET = ''emergency_state''"
| "reset_flag DOORBELL_RESET = ''doorbell_ring''"
| "reset_flag UNLOCK_RESET = ''unlock_event''"

fun reset_delay :: "reset_kind \<Rightarrow> rat" where
  "reset_delay MOTION_RESET = 30"
| "reset_delay EMERGENCY_RESET = 180"
| "reset_delay DOORBELL_RESET = 5"
| "reset_delay UNLOCK_RESET = 5"

text \<open>
  \<open>rs_pending\<close>: tasks that were created to schedule a reset and have not run. \<open>rs_tasks\<close>: the task a flag
  was last scheduled with. \<open>rs_asleep\<close>: the tasks that sleep, with their flag and the time they wake up.
\<close>

record resets =
  rs_pending :: "reset_key list"
  rs_tasks :: "(reset_key, nat) pydict"
  rs_asleep :: "(nat, reset_key \<times> rat) pydict"
  rs_next :: nat
  rs_now :: rat

definition no_resets :: "rat \<Rightarrow> resets" where
  "no_resets now = \<lparr>rs_pending = [], rs_tasks = [], rs_asleep = [], rs_next = 0, rs_now = now\<rparr>"

text \<open>A task that has ended cannot be cancelled any more.\<close>

definition cancel_reset :: "reset_key \<Rightarrow> resets \<Rightarrow> resets" where
  "cancel_reset k r =
     r\<lparr>rs_tasks := AList.delete k (rs_tasks r),
       rs_asleep := (case map_of (rs_tasks r) k of None \<Rightarrow> rs_asleep r | Some t \<Rightarrow> AList.delete t (rs_asleep r))\<rparr>"

definition schedule_reset :: "reset_key \<Rightarrow> resets \<Rightarrow> resets" where
  "schedule_reset k r =
     (let r = cancel_reset k r
      in r\<lparr>rs_tasks := AList.update k (rs_next r) (rs_tasks r),
           rs_asleep := (rs_next r, (k, rs_now r + reset_delay (fst k))) # rs_asleep r, rs_next := Suc (rs_next r)\<rparr>)"

definition request_reset :: "reset_key \<Rightarrow> resets \<Rightarrow> resets" where
  "request_reset k r = r\<lparr>rs_pending := rs_pending r @ [k]\<rparr>"

text \<open>The world of the dispatcher: the resets, the lock manager, and what the other callbacks act on.\<close>

record 'y coord =
  co_resets :: resets
  co_locks :: lock_manager
  co_rest :: 'y

definition on_resets :: "(resets \<Rightarrow> resets) \<Rightarrow> ('y coord, unit) io" where
  "on_resets f = modifyS (\<lambda>c. c\<lparr>co_resets := f (co_resets c)\<rparr>)"

definition apply_registered_state_parser ::
  "(pyval \<Rightarrow> string) \<Rightarrow> device_category \<Rightarrow> dict \<Rightarrow> dict \<Rightarrow> dict py" where
  "apply_registered_state_parser repr category dev_state raw =
     (case get_state_parser repr category of None \<Rightarrow> Inr [] | Some parser \<Rightarrow> parser dev_state raw)"

text \<open>A motion or emergency packet: a detection lets the flag fall later, the opposite reading at once.\<close>

definition reset_lifecycle :: "reset_kind \<Rightarrow> pyval \<Rightarrow> string \<Rightarrow> ('y coord, unit) io" where
  "reset_lifecycle kind reading reset_key =
     (if reading = VNone \<or> reset_key = [] then retS ()
      else bindS (liftE (catchE [TypeError, ValueError] (bindE (py_int reading) (\<lambda>n. Inr (Some (n = 1)))) None)) (\<lambda>detected.
        case detected of
          None \<Rightarrow> retS ()
        | Some True \<Rightarrow> on_resets (request_reset (kind, reset_key))
        | Some False \<Rightarrow> on_resets (cancel_reset (kind, reset_key))))"

text \<open>Without a device the packet's own identifier, a text, is taken for motion.\<close>

definition apply_motion_state_parser ::
  "(pyval \<Rightarrow> string) \<Rightarrow> candidate \<Rightarrow> dict \<Rightarrow> string \<Rightarrow> ('y coord, dict) io" where
  "apply_motion_state_parser repr c raw d =
     bindS (liftE (apply_registered_state_parser repr MOTION_SENSOR (cd_state c) raw)) (\<lambda>patch.
     bindS (reset_lifecycle MOTION_RESET (get raw ''value3'')
         (if d \<noteq> [] then d else case get raw ''deviceId'' of VStr s \<Rightarrow> s | _ \<Rightarrow> [])) (\<lambda>_. retS patch))"

definition apply_emergency_state_parser ::
  "(pyval \<Rightarrow> string) \<Rightarrow> candidate \<Rightarrow> dict \<Rightarrow> string \<Rightarrow> ('y coord, dict) io" where
  "apply_emergency_state_parser repr c raw d =
     bindS (liftE (apply_registered_state_parser repr EMERGENCY_BUTTON (cd_state c) raw)) (\<lambda>patch.
     bindS (reset_lifecycle EMERGENCY_RESET (get raw ''value1'') d) (\<lambda>_. retS patch))"

text \<open>The reset of a lock's flag is scheduled at once.\<close>

definition apply_lock_transient_event :: "candidate \<Rightarrow> dict \<Rightarrow> string \<Rightarrow> ('y coord, dict) io" where
  "apply_lock_transient_event c raw d =
     (case transient_update raw of (patch, kind) \<Rightarrow>
        bindS (if kind = Some ''doorbell'' then on_resets (schedule_reset (DOORBELL_RESET, d))
               else if kind = Some ''unlock'' then on_resets (schedule_reset (UNLOCK_RESET, d))
               else retS ()) (\<lambda>_. retS patch))"

text \<open>
  What is outside the coordinator: what the lock manager asks for, the record of the openings, the URLs of the
  media of an event, the bus, the listeners of the state, the time of day, the catalog of models, the parser
  of texts and the limit of the diagnostics.
\<close>

record 'y coord_env =
  ce_locks :: "'y lock_env"
  ce_record_opening :: "string \<Rightarrow> dict \<Rightarrow> 'y \<Rightarrow> 'y"
  ce_attach_urls :: "string \<Rightarrow> dict \<Rightarrow> dict \<Rightarrow> ('y, dict) io"
  ce_fire :: "dict \<Rightarrow> 'y \<Rightarrow> 'y"
  ce_updated :: "'y \<Rightarrow> 'y"
  ce_wall_clock :: "'y \<Rightarrow> rat"
  ce_loads :: "string \<Rightarrow> pyval option"
  ce_models :: model_catalog
  ce_text :: "pyval \<Rightarrow> string"
  ce_limit :: nat

definition on_rest :: "('y \<Rightarrow> 'y) \<Rightarrow> 'y coord \<Rightarrow> 'y coord" where
  "on_rest f c = c\<lparr>co_rest := f (co_rest c)\<rparr>"

definition restS :: "('y, 'a) io \<Rightarrow> ('y coord, 'a) io" where
  "restS m c = (case m (co_rest c) of (r, y) \<Rightarrow> (r, c\<lparr>co_rest := y\<rparr>))"

definition lockS :: "('y lock_world, 'a) io \<Rightarrow> ('y coord, 'a) io" where
  "lockS m c = (case m \<lparr>lw_manager = co_locks c, lw_outside = co_rest c\<rparr> of
     (r, lw) \<Rightarrow> (r, c\<lparr>co_locks := lw_manager lw, co_rest := lw_outside lw\<rparr>))"

definition besideS :: "('y coord, 'a) io \<Rightarrow> (store \<times> 'y coord, 'a) io" where
  "besideS m sc = (case m (snd sc) of (r, c) \<Rightarrow> (r, fst sc, c))"

section \<open>Openings of a lock\<close>

definition opens :: "dict \<Rightarrow> bool" where
  "opens data \<longleftrightarrow> \<not> truthy (get data ''historical'') \<and> (get data ''kind'' = VStr ''unlock'' \<or> truthy (get data ''door_opened''))"

definition OPENING_FIELDS :: "string list" where
  "OPENING_FIELDS = [''open_direction'', ''unlock_method'', ''unlock_type'', ''unlock_user_id'', ''unlock_time'']"

definition opening_values :: "dict \<Rightarrow> dict" where
  "opening_values data =
     [(''open_direction'', dget data ''open_direction'' (VStr ''inside'')), (''unlock_method'', get data ''unlock_method''),
      (''unlock_type'', get data ''unlock_type''), (''unlock_user_id'', get data ''unlock_user_id''),
      (''unlock_time'', get data ''time'')]"

text \<open>The last opening becomes part of the state of a lock that has one, as news of the cloud's push channel.\<close>

definition merge_opening :: "string \<Rightarrow> dict \<Rightarrow> (store \<times> 'y coord, unit) io" where
  "merge_opening d data = modifyS (\<lambda>(s, c).
     (if map_of (st_states s) d = None then s
      else snd (merge d (opening_values data) SSL (rs_now (co_resets c)) False s), c))"

definition publish_lock_event :: "'y coord_env \<Rightarrow> string \<Rightarrow> dict \<Rightarrow> (store \<times> 'y coord, unit) io" where
  "publish_lock_event env d raw =
     bindS (besideS (lockS (build_event (ce_locks env) d raw))) (\<lambda>event. case event of
         None \<Rightarrow> retS ()
       | Some data \<Rightarrow>
           bindS (if opens data
                  then bindS (besideS (modifyS (on_rest (ce_record_opening env d data)))) (\<lambda>_. merge_opening d data)
                  else retS ()) (\<lambda>_.
           let data = AList.update ''source'' (dget raw ''source'' (VStr ''ssl'')) data
           in bindS (if truthy (get data ''kind'')
                     then bindS (besideS (restS (ce_attach_urls env d raw data))) (\<lambda>urls. retS (dict_merge data urls))
                     else retS data) (\<lambda>data. besideS (modifyS (on_rest (ce_fire env data))))))"

definition publish_lock_message :: "'y coord_env \<Rightarrow> string \<Rightarrow> dict \<Rightarrow> ('y coord, unit) io" where
  "publish_lock_message env d raw =
     bindS (liftE (build_message (ce_loads env) d raw)) (\<lambda>message. case message of
         None \<Rightarrow> retS ()
       | Some event \<Rightarrow>
           let event = AList.update ''source'' (dget raw ''source'' (VStr ''ssl'')) event
           in bindS (restS (ce_attach_urls env d raw event)) (\<lambda>urls.
                modifyS (on_rest (ce_fire env (dict_merge event urls)))))"

text \<open>The callbacks the dispatcher is built with.\<close>

definition coordinator_callbacks :: "'y coord_env \<Rightarrow> 'y coord callbacks" where
  "coordinator_callbacks env =
     \<lparr>on_motion = apply_motion_state_parser (ce_text env), on_emergency = apply_emergency_state_parser (ce_text env),
      on_lock_transient = apply_lock_transient_event, on_lock_message = publish_lock_message env,
      on_lock_event = publish_lock_event env, on_updated = on_rest (ce_updated env),
      wall_clock = \<lambda>c. ce_wall_clock env (co_rest c), monotonic = \<lambda>c. rs_now (co_resets c),
      known_models = ce_models env, text_of = ce_text env, diagnostic_limit = ce_limit env\<rparr>"

section \<open>The loop\<close>

text \<open>A task wakes up: the flag falls in the stored state, without a revision.\<close>

definition lower_flag :: "reset_key \<Rightarrow> store \<Rightarrow> store" where
  "lower_flag k s =
     (case map_of (st_states s) (snd k) of
        None \<Rightarrow> s
      | Some st \<Rightarrow> if truthy (get st (reset_flag (fst k)))
          then s\<lparr>st_states := AList.update (snd k) (AList.update (reset_flag (fst k)) (VBool False) st) (st_states s)\<rparr>
          else s)"

definition set_resets :: "resets \<Rightarrow> 'y coord dispatcher \<Rightarrow> 'y coord dispatcher" where
  "set_resets r w = w\<lparr>di_outside := (di_outside w)\<lparr>co_resets := r\<rparr>\<rparr>"

abbreviation resets_of :: "'y coord dispatcher \<Rightarrow> resets" where
  "resets_of w \<equiv> co_resets (di_outside w)"

definition wake :: "nat \<Rightarrow> reset_key \<Rightarrow> 'y coord dispatcher \<Rightarrow> 'y coord dispatcher" where
  "wake t k w = (set_resets ((resets_of w)\<lparr>rs_asleep := AList.delete t (rs_asleep (resets_of w))\<rparr>) w)
     \<lparr>di_store := lower_flag k (di_store w)\<rparr>"

text \<open>What the loop does by itself: it runs a created task, wakes up a task that is due, and lets time pass
  when there is nothing else to do, up to the next time a task is due.\<close>

inductive loop_step :: "'y coord dispatcher \<Rightarrow> 'y coord dispatcher \<Rightarrow> bool" where
  run_task: "rs_pending (resets_of w) = k # ks \<Longrightarrow>
    loop_step w (set_resets (schedule_reset k ((resets_of w)\<lparr>rs_pending := ks\<rparr>)) w)"
| pass: "rs_pending (resets_of w) = [] \<Longrightarrow> 0 \<le> t \<Longrightarrow>
    (\<And>task k due. map_of (rs_asleep (resets_of w)) task = Some (k, due) \<Longrightarrow> rs_now (resets_of w) + t \<le> due) \<Longrightarrow>
    loop_step w (set_resets ((resets_of w)\<lparr>rs_now := rs_now (resets_of w) + t\<rparr>) w)"
| wake_up: "map_of (rs_asleep (resets_of w)) t = Some (k, due) \<Longrightarrow> due \<le> rs_now (resets_of w) \<Longrightarrow>
    loop_step w (wake t k w)"

text \<open>And what comes from outside: packets, the readings of the set-up, and everything else that changes devices
  and states or makes the lock manager forget a device. Outside the loop no time passes.\<close>

inductive coordinator_step :: "'y coord_env \<Rightarrow> 'y coord dispatcher \<Rightarrow> 'y coord dispatcher \<Rightarrow> bool" for env where
  loop: "loop_step w w' \<Longrightarrow> coordinator_step env w w'"
| packet: "dispatch (coordinator_callbacks env) incoming raw src w = (r, w') \<Longrightarrow> coordinator_step env w w'"
| push: "on_lan_status_update (coordinator_callbacks env) md gateway_uid payload w = (r, w') \<Longrightarrow> coordinator_step env w w'"
| initial: "m \<in> {apply_motion_state_parser repr c raw d, apply_emergency_state_parser repr c raw d} \<Longrightarrow>
    m (di_outside w) = (r, x) \<Longrightarrow> coordinator_step env w (w\<lparr>di_outside := x, di_store := s\<rparr>)"
| elsewhere: "resets_of w' = resets_of w \<Longrightarrow> coordinator_step env w w'"

definition new_coordinator :: "rat \<Rightarrow> 'y \<Rightarrow> 'y coord dispatcher" where
  "new_coordinator now y = \<lparr>di_devices = [], di_store = new_store [], di_last_update = [], di_diagnostics = [],
     di_outside = \<lparr>co_resets = no_resets now, co_locks = new_lock_manager, co_rest = y\<rparr>\<rparr>"

section \<open>Names of the users of a lock\<close>

record lock_names =
  ln_devices :: "(string, (string, string) pydict) pydict"
  ln_shared :: "(string, string) pydict"

definition join_slash :: "string list \<Rightarrow> string" where
  "join_slash parts = (case parts of [] \<Rightarrow> [] | p # ps \<Rightarrow> p @ concat (map (\<lambda>q. CHR ''/'' # q) ps))"

definition non_empty :: "string option \<Rightarrow> string option" where
  "non_empty s = (if s = Some [] then None else s)"

fun user_key :: "pyval \<Rightarrow> string option" where
  "user_key (VStr s) = Some s"
| "user_key (VInt n) = Some (dec n)"
| "user_key (VBool b) = Some (if b then ''True'' else ''False'')"
| "user_key _ = None"

definition first_some :: "'a option list \<Rightarrow> 'a option" where
  "first_some xs = (case List.find (\<lambda>x. x \<noteq> None) xs of None \<Rightarrow> None | Some x \<Rightarrow> x)"

text \<open>With a method the names for it come first, even if they are empty.\<close>

definition lock_user_name :: "lock_names \<Rightarrow> string \<Rightarrow> pyval \<Rightarrow> string option \<Rightarrow> string option" where
  "lock_user_name names d user_id used =
     (case user_key user_id of None \<Rightarrow> None
      | Some key \<Rightarrow>
          (let shared = map_of (ln_shared names);
               scoped = (case non_empty used of None \<Rightarrow> None
                 | Some m \<Rightarrow> first_some [shared (join_slash [d, m, key]), shared (join_slash [m, key])])
           in case scoped of
                Some name \<Rightarrow> non_empty (Some name)
              | None \<Rightarrow> non_empty (first_some
                  [map_of (case map_of (ln_devices names) d of None \<Rightarrow> [] | Some own \<Rightarrow> own) key,
                   shared (join_slash [d, key]), shared key])))"

definition set_lock_user_name :: "string \<Rightarrow> string \<Rightarrow> string \<Rightarrow> lock_names \<Rightarrow> bool \<times> lock_names" where
  "set_lock_user_name d user_id name names =
     (if d = [] \<or> user_id = [] then (False, names)
      else (True, \<lparr>ln_devices = AList.update d (AList.update user_id name
              (case map_of (ln_devices names) d of None \<Rightarrow> [] | Some own \<Rightarrow> own)) (ln_devices names),
            ln_shared = AList.update (join_slash [d, user_id]) name (ln_shared names)\<rparr>))"


section \<open>The sleeping tasks\<close>

definition resets_ok :: "resets \<Rightarrow> bool" where
  "resets_ok r \<longleftrightarrow>
     (\<forall>t k due. map_of (rs_asleep r) t = Some (k, due) \<longrightarrow>
        t < rs_next r \<and> map_of (rs_tasks r) k = Some t \<and> due \<le> rs_now r + reset_delay (fst k)) \<and>
     (\<forall>k t. map_of (rs_tasks r) k = Some t \<longrightarrow> t < rs_next r \<and>
        (\<forall>k' due. map_of (rs_asleep r) t = Some (k', due) \<longrightarrow> k' = k))"

lemma delay_positive [simp]: "0 \<le> reset_delay kind"
  by (cases kind) simp_all

lemma map_of_delete: "map_of (AList.delete k xs) k' = (if k' = k then None else map_of xs k')"
  by (simp add: delete_conv')

lemma resets_ok_new: "resets_ok (no_resets now)"
  by (simp add: resets_ok_def no_resets_def)

lemma resets_ok_cancel: "resets_ok r \<Longrightarrow> resets_ok (cancel_reset k r)"
  by (auto simp: resets_ok_def cancel_reset_def map_of_delete split: option.splits)

lemma cancelled_not_asleep:
  assumes "resets_ok r" shows "map_of (rs_asleep (cancel_reset k r)) t \<noteq> Some (k, due)"
  using assms
  by (cases k) (auto simp: resets_ok_def cancel_reset_def map_of_delete split: option.splits)

lemma resets_ok_schedule:
  assumes "resets_ok r" shows "resets_ok (schedule_reset k r)"
proof -
  note c = resets_ok_cancel [OF assms, of k]
  show ?thesis using c cancelled_not_asleep [OF assms, of k]
    unfolding schedule_reset_def Let_def resets_ok_def
    by (auto simp: update_conv' less_Suc_eq) (metis not_less_iff_gr_or_eq)+
qed

lemma resets_ok_frame [simp]:
  "resets_ok (r\<lparr>rs_pending := ks\<rparr>) = resets_ok r"
  by (simp add: resets_ok_def)

lemma resets_ok_request: "resets_ok (request_reset k r) = resets_ok r"
  by (simp add: request_reset_def)

lemma resets_ok_pass: "resets_ok r \<Longrightarrow> 0 \<le> t \<Longrightarrow> resets_ok (r\<lparr>rs_now := rs_now r + t\<rparr>)"
  by (fastforce simp: resets_ok_def)

lemma resets_ok_wake: "resets_ok r \<Longrightarrow> resets_ok (r\<lparr>rs_asleep := AList.delete t (rs_asleep r)\<rparr>)"
  by (auto simp: resets_ok_def map_of_delete split: if_splits)

lemma set_resets_simps [simp]:
  "resets_of (set_resets r w) = r" "di_store (set_resets r w) = di_store w" "di_devices (set_resets r w) = di_devices w"
  "resets_of (w\<lparr>di_store := s\<rparr>) = resets_of w"
  by (simp_all add: set_resets_def)

text \<open>A property the three operations on the resets keep is kept by every callback, and so by the dispatcher.\<close>

definition closed_resets :: "(resets \<Rightarrow> bool) \<Rightarrow> bool" where
  "closed_resets J \<longleftrightarrow> (\<forall>r k. J r \<longrightarrow> J (cancel_reset k r) \<and> J (schedule_reset k r) \<and> J (request_reset k r))"

lemma closed_resets_ok: "closed_resets resets_ok"
  by (simp add: closed_resets_def resets_ok_cancel resets_ok_schedule resets_ok_request)

lemma always_on_resets:
  "closed_resets J \<Longrightarrow> f \<in> {cancel_reset k, schedule_reset k, request_reset k} \<Longrightarrow>
     always (\<lambda>c. J (co_resets c)) (on_resets f)"
  by (cases k) (auto simp: on_resets_def closed_resets_def intro!: always_modify)

lemma always_Pair [simp]: "always I (Pair r)"
  by (simp add: always_def)

lemma always_lifecycle: "closed_resets J \<Longrightarrow> always (\<lambda>c. J (co_resets c)) (reset_lifecycle kind v key)"
  unfolding reset_lifecycle_def
  by (auto intro!: always_bind always_on_resets split: option.splits bool.splits)

lemma always_callbacks:
  assumes "closed_resets J"
  shows "always (\<lambda>c. J (co_resets c)) (apply_motion_state_parser repr c raw d)"
    and "always (\<lambda>c. J (co_resets c)) (apply_emergency_state_parser repr c raw d)"
    and "always (\<lambda>c. J (co_resets c)) (apply_lock_transient_event c raw d)"
  unfolding apply_motion_state_parser_def apply_emergency_state_parser_def apply_lock_transient_event_def
  by (auto intro!: always_bind always_lifecycle always_on_resets assms split: prod.splits)

lemma always_outsideS: "always I m \<Longrightarrow> always (\<lambda>w. I (di_outside w)) (outsideS m)"
  unfolding always_def outsideS_def by (auto split: prod.splits; metis snd_conv)

lemma always_storeS: "always I m \<Longrightarrow> always (\<lambda>w. I (di_store w, di_outside w)) (storeS m)"
  unfolding always_def storeS_def by (auto split: prod.splits; metis snd_conv)

lemma coordinator_callbacks_simps [simp]:
  "on_motion (coordinator_callbacks env) = apply_motion_state_parser (ce_text env)"
  "on_emergency (coordinator_callbacks env) = apply_emergency_state_parser (ce_text env)"
  "on_lock_transient (coordinator_callbacks env) = apply_lock_transient_event"
  "on_lock_message (coordinator_callbacks env) = publish_lock_message env"
  "on_lock_event (coordinator_callbacks env) = publish_lock_event env"
  "on_updated (coordinator_callbacks env) = on_rest (ce_updated env)"
  "monotonic (coordinator_callbacks env) c = rs_now (co_resets c)"
  "known_models (coordinator_callbacks env) = ce_models env"
  by (simp_all add: coordinator_callbacks_def)

lemma on_rest_simps [simp]: "co_resets (on_rest f c) = co_resets c" "co_locks (on_rest f c) = co_locks c"
  by (simp_all add: on_rest_def)

text \<open>What does not touch the resets keeps every property of them.\<close>

lemma always_beside [intro]: "always (\<lambda>c. J (co_resets c)) m \<Longrightarrow> always (\<lambda>sc. J (co_resets (snd sc))) (besideS m)"
  unfolding always_def besideS_def by (auto split: prod.splits; metis snd_conv)

lemma always_rest [simp, intro]:
  "always (\<lambda>c. J (co_resets c)) (restS m)" "always (\<lambda>c. J (co_resets c)) (lockS m')"
  "always (\<lambda>c. J (co_resets c)) (modifyS (on_rest f))"
  by (auto simp: always_def restS_def lockS_def split: prod.splits)

lemma always_merge_opening [simp, intro]: "always (\<lambda>sc. J (co_resets (snd sc))) (merge_opening d data)"
  unfolding merge_opening_def by (rule always_modify) auto

lemma always_publish:
  "always (\<lambda>sc. J (co_resets (snd sc))) (publish_lock_event env d raw)"
  "always (\<lambda>c. J (co_resets c)) (publish_lock_message env d raw)"
  unfolding publish_lock_event_def publish_lock_message_def Let_def
  by (intro always_bind always_if always_option always_beside [of J] always_rest [of J] always_merge_opening [of J] always_simps)+

lemma always_parse_packet:
  assumes "closed_resets J"
  shows "always (\<lambda>w. J (resets_of w)) (parse_packet (coordinator_callbacks env) d device dt st cat raw c)"
  unfolding parse_packet_def coordinator_callbacks_simps
  by (auto intro!: always_bind always_outsideS always_callbacks assms split: option.splits)

lemma always_after_parse:
  "always (\<lambda>w. J (resets_of w)) (bindS (merge_candidate (coordinator_callbacks env) d src c) (\<lambda>_.
     bindS (if b then storeS (publish_lock_event env d raw) else retS ()) (\<lambda>_.
       modifyS (\<lambda>w. w\<lparr>di_outside := on_rest (ce_updated env) (di_outside w)\<rparr>))))"
proof -
  have merge: "always (\<lambda>w. J (resets_of w)) (merge_candidate (coordinator_callbacks env) d src c)"
    unfolding merge_candidate_def by (rule always_modify) simp
  have event: "always (\<lambda>w. J (resets_of w)) (storeS (publish_lock_event env d raw))"
    using always_storeS [OF always_publish(1) [of J env d raw]] by simp
  have updated: "always (\<lambda>w. J (resets_of w)) (modifyS (\<lambda>w. w\<lparr>di_outside := on_rest (ce_updated env) (di_outside w)\<rparr>))"
    by (rule always_modify) simp
  show ?thesis by (intro always_bind always_if merge event updated always_simps)
qed

lemma always_handle_packet:
  assumes "closed_resets J"
  shows "always (\<lambda>w. J (resets_of w)) (handle_packet (coordinator_callbacks env) raw src d device cat c)"
proof -
  have merge: "always (\<lambda>w. J (resets_of w)) (merge_candidate (coordinator_callbacks env) d src c)" for c
    unfolding merge_candidate_def by (rule always_modify) simp
  have message: "always (\<lambda>w. J (resets_of w)) (outsideS (publish_lock_message env d (tagged src raw)))"
    by (rule always_outsideS [OF always_publish(2)])
  show ?thesis unfolding handle_packet_def coordinator_callbacks_simps
    by (rule always_if; rule always_bind; rule merge message always_parse_packet [OF assms] always_after_parse)
qed

lemma always_dispatch:
  assumes "closed_resets J"
  shows "always (\<lambda>w. J (resets_of w)) (dispatch (coordinator_callbacks env) incoming raw src)"
proof -
  have known: "always (\<lambda>w. J (resets_of w)) (dispatch_known (coordinator_callbacks env) raw src d)" for d
    unfolding dispatch_known_def
    by (auto intro!: always_bind always_modify always_handle_packet assms)
  have resolve: "always (\<lambda>w. J (resets_of w)) (\<lambda>w. (resolve_device_id incoming (di_devices w) (st_states (di_store w)), w))"
    by (simp add: always_def)
  show ?thesis unfolding dispatch_def record_diagnostic_def Let_def
    by (intro always_bind always_modify resolve) (auto intro: known split: option.splits)
qed

lemma resets_invariant:
  assumes "coordinator_step env w w'" "resets_ok (resets_of w)"
  shows "resets_ok (resets_of w')"
  using assms
proof cases
  case loop
  then show ?thesis using assms(2)
    by cases (auto simp: wake_def resets_ok_schedule resets_ok_pass resets_ok_wake)
next
  case (packet incoming raw src r)
  then show ?thesis using alwaysD [OF always_dispatch [OF closed_resets_ok], of w env incoming raw src] assms(2) by simp
next
  case (push md gateway_uid payload r)
  have "always (\<lambda>w. resets_ok (resets_of w)) (on_lan_status_update (coordinator_callbacks env) md gateway_uid payload)"
    unfolding on_lan_status_update_def
    by (auto intro!: always_bind always_dispatch closed_resets_ok split: option.splits)
  then show ?thesis using push assms(2) by (auto dest: alwaysD [where w = w])
next
  case (initial m repr c raw d r x s)
  have "always (\<lambda>c. resets_ok (co_resets c)) m"
    using initial(2) always_callbacks [OF closed_resets_ok] by auto
  then show ?thesis using initial assms(2) by (auto simp: always_def)
qed (use assms in simp)

interpretation cr: state_machine "new_coordinator now y" "coordinator_step env" "\<lambda>w. resets_ok (resets_of w)" for now y env
  by unfold_locales (auto simp: new_coordinator_def resets_ok_new intro: resets_invariant)


section \<open>A raised flag is on its way down\<close>

definition armed :: "reset_key \<Rightarrow> 'y coord dispatcher \<Rightarrow> bool" where
  "armed k w \<longleftrightarrow> k \<in> set (rs_pending (resets_of w)) \<or> (\<exists>t due. map_of (rs_asleep (resets_of w)) t = Some (k, due))"

definition flag_up :: "reset_key \<Rightarrow> 'y coord dispatcher \<Rightarrow> bool" where
  "flag_up k w \<longleftrightarrow> truthy (get (state_of (di_store w) (snd k)) (reset_flag (fst k)))"

lemma schedule_keeps_asleep:
  assumes "resets_ok r" "map_of (rs_asleep r) t = Some (k, due)" "k' \<noteq> k"
  shows "map_of (rs_asleep (schedule_reset k' r)) t = Some (k, due)"
proof -
  have "t \<noteq> rs_next r" "map_of (rs_tasks r) k' \<noteq> Some t"
    using assms by (cases k; cases k'; fastforce simp: resets_ok_def)+
  then show ?thesis using assms(2)
    by (auto simp: schedule_reset_def cancel_reset_def map_of_delete split: option.splits)
qed

text \<open>The flag \<open>k\<close> is down after the time \<open>limit\<close>: as long as it is up a task that lowers it is to run or sleeps.\<close>

definition on_its_way :: "reset_key \<Rightarrow> rat \<Rightarrow> 'y coord dispatcher \<Rightarrow> bool" where
  "on_its_way k limit w \<longleftrightarrow>
     (k \<in> set (rs_pending (resets_of w)) \<longrightarrow> rs_now (resets_of w) + reset_delay (fst k) \<le> limit) \<and>
     (flag_up k w \<longrightarrow> rs_now (resets_of w) \<le> limit \<and> (k \<in> set (rs_pending (resets_of w)) \<or>
       (\<exists>t due. map_of (rs_asleep (resets_of w)) t = Some (k, due) \<and> due \<le> limit)))"

lemma armed_on_its_way:
  assumes "resets_ok (resets_of w)" "armed k w"
  shows "on_its_way k (rs_now (resets_of w) + reset_delay (fst k)) w"
  using assms by (cases k) (fastforce simp: on_its_way_def armed_def resets_ok_def)

lemma schedule_simps [simp]:
  "rs_pending (schedule_reset k r) = rs_pending r" "rs_now (schedule_reset k r) = rs_now r"
  by (simp_all add: schedule_reset_def cancel_reset_def Let_def)

lemma schedule_asleep: "map_of (rs_asleep (schedule_reset k r)) (rs_next r) = Some (k, rs_now r + reset_delay (fst k))"
  by (simp add: schedule_reset_def cancel_reset_def Let_def)

lemma flag_up_frame [simp]: "flag_up k (set_resets r w) = flag_up k w"
  by (simp add: flag_up_def)

lemma wake_lowers: "\<not> flag_up k (wake t k w)" "flag_up k (wake t k' w) \<Longrightarrow> flag_up k w"
  by (auto simp: flag_up_def wake_def lower_flag_def state_of_def dict_simps split: option.splits if_splits)

lemma wake_resets [simp]:
  "resets_of (wake t k w) = (resets_of w)\<lparr>rs_asleep := AList.delete t (rs_asleep (resets_of w))\<rparr>"
  by (simp add: wake_def)

lemma on_its_way_step:
  assumes "loop_step w w'" "resets_ok (resets_of w)" "on_its_way k limit w"
  shows "on_its_way k limit w'"
  using assms(1)
proof cases
  case (run_task k' ks)
  have pend: "rs_now (resets_of w) + reset_delay (fst k) \<le> limit" if "k \<in> set (k' # ks)"
    using assms(3) that run_task by (auto simp: on_its_way_def)
  show ?thesis
  proof (cases "k' = k")
    case True
    then show ?thesis using pend run_task schedule_asleep [of k "(resets_of w)\<lparr>rs_pending := ks\<rparr>"] assms(3)
      by (auto simp: on_its_way_def)
  next
    case False
    have keep: "map_of (rs_asleep (schedule_reset k' ((resets_of w)\<lparr>rs_pending := ks\<rparr>))) t = Some (k, due)"
      if "map_of (rs_asleep (resets_of w)) t = Some (k, due)" for t due
      using schedule_keeps_asleep [of "(resets_of w)\<lparr>rs_pending := ks\<rparr>" t k due k'] assms(2) that False by simp
    show ?thesis using assms(3) run_task False keep unfolding on_its_way_def by (auto; blast)
  qed
next
  case (pass t)
  have "rs_now (resets_of w) + t \<le> limit" if "map_of (rs_asleep (resets_of w)) t' = Some (k, due)" "due \<le> limit" for t' due
    using pass(4) [OF that(1)] that(2) by (rule order_trans)
  with assms(3) show ?thesis unfolding on_its_way_def pass(1) by (auto simp: pass(2))
next
  case (wake_up t k' due)
  show ?thesis
  proof (cases "k' = k")
    case True
    then show ?thesis using assms(3) wake_up wake_lowers(1) [of k t w] by (simp add: on_its_way_def)
  next
    case False
    then have "map_of (rs_asleep (resets_of w')) t' = Some (k, due')"
      if "map_of (rs_asleep (resets_of w)) t' = Some (k, due')" for t' due'
      using that wake_up by (auto simp: map_of_delete)
    then show ?thesis using assms(3) wake_up wake_lowers(2) [of k t k' w] unfolding on_its_way_def by auto
  qed
qed

lemma loop_keeps_ok: "loop_step w w' \<Longrightarrow> resets_ok (resets_of w) \<Longrightarrow> resets_ok (resets_of w')"
  by (erule loop_step.cases) (auto simp: resets_ok_schedule resets_ok_pass resets_ok_wake)

lemma armed_flag_falls:
  assumes "resets_ok (resets_of w)" "armed k w" "loop_step\<^sup>*\<^sup>* w w'"
    and "rs_now (resets_of w) + reset_delay (fst k) < rs_now (resets_of w')"
  shows "\<not> flag_up k w'"
proof -
  let ?limit = "rs_now (resets_of w) + reset_delay (fst k)"
  from assms(3) have "resets_ok (resets_of w') \<and> on_its_way k ?limit w'"
    by induction (use assms(1) armed_on_its_way [OF assms(1,2)] on_its_way_step loop_keeps_ok in blast)+
  then show ?thesis using assms(4) by (auto simp: on_its_way_def)
qed

text \<open>The loop never gets stuck: time goes on from every state.\<close>

lemma pending_tasks_run:
  "\<exists>w'. loop_step\<^sup>*\<^sup>* w w' \<and> rs_pending (resets_of w') = []"
proof (induction "rs_pending (resets_of w)" arbitrary: w)
  case Nil
  then show ?case by (intro exI [where x = w]) simp
next
  case (Cons k ks)
  let ?w = "set_resets (schedule_reset k ((resets_of w)\<lparr>rs_pending := ks\<rparr>)) w"
  have "loop_step w ?w" using Cons.hyps(2) by (intro run_task) simp
  moreover obtain w' where "loop_step\<^sup>*\<^sup>* ?w w'" "rs_pending (resets_of w') = []"
    using Cons.hyps(1) [of ?w] by auto
  ultimately show ?case by (meson converse_rtranclp_into_rtranclp)
qed

lemma next_task:
  fixes xs :: "(nat \<times> 'k \<times> rat) list"
  assumes "map_of xs t0 \<noteq> None"
  shows "\<exists>t k due. map_of xs t = Some (k, due) \<and> (\<forall>t' k' due'. map_of xs t' = Some (k', due') \<longrightarrow> due \<le> due')"
proof -
  let ?D = "{due. \<exists>t k. map_of xs t = Some (k, due)}"
  have "?D \<subseteq> (snd \<circ> snd) ` set xs" by (force dest: map_of_SomeD)
  then have fin: "finite ?D" by (rule finite_subset) simp
  obtain k1 due1 where "map_of xs t0 = Some (k1, due1)" using assms by auto
  then have "Min ?D \<in> ?D" using fin by (intro Min_in) blast+
  then obtain t k where "map_of xs t = Some (k, Min ?D)" by blast
  moreover have "Min ?D \<le> due'" if "map_of xs t' = Some (k', due')" for t' k' due'
    using that fin by (intro Min_le) blast+
  ultimately show ?thesis by blast
qed

lemma time_goes_on: "\<exists>w'. loop_step\<^sup>*\<^sup>* w w' \<and> T < rs_now (resets_of w')"
proof -
  have drained: "\<exists>w'. loop_step\<^sup>*\<^sup>* w w' \<and> T < rs_now (resets_of w')" if "rs_pending (resets_of w) = []" for w :: "'a coord dispatcher"
    using that
  proof (induction "length (rs_asleep (resets_of w))" arbitrary: w rule: less_induct)
    case less
    show ?case
    proof (cases "rs_asleep (resets_of w)")
      case Nil
      let ?d = "max 0 (T - rs_now (resets_of w)) + 1"
      have "loop_step w (set_resets ((resets_of w)\<lparr>rs_now := rs_now (resets_of w) + ?d\<rparr>) w)"
        by (rule pass) (use less.prems Nil in auto)
      then show ?thesis by (intro exI conjI) (erule r_into_rtranclp, simp)
    next
      case (Cons p ps)
      then have "map_of (rs_asleep (resets_of w)) (fst p) \<noteq> None" by simp
      then obtain t k due where first: "map_of (rs_asleep (resets_of w)) t = Some (k, due)"
        "\<And>t' k' due'. map_of (rs_asleep (resets_of w)) t' = Some (k', due') \<Longrightarrow> due \<le> due'" using next_task by blast
      define w1 where "w1 = set_resets ((resets_of w)\<lparr>rs_now := max (rs_now (resets_of w)) due\<rparr>) w"
      have to1: "loop_step\<^sup>*\<^sup>* w w1"
      proof (cases "due \<le> rs_now (resets_of w)")
        case True
        then show ?thesis by (simp add: w1_def set_resets_def max_def)
      next
        case False
        have "loop_step w (set_resets ((resets_of w)\<lparr>rs_now := rs_now (resets_of w) + (due - rs_now (resets_of w))\<rparr>) w)"
          by (rule pass) (use less.prems first(2) False in auto)
        then show ?thesis using False by (simp add: w1_def max_def r_into_rtranclp)
      qed
      have step: "loop_step w1 (wake t k w1)" using first(1) by (intro wake_up) (auto simp: w1_def)
      have "t \<in> fst ` set (rs_asleep (resets_of w))" using first(1) by (force dest: map_of_SomeD)
      then have "length (AList.delete t (rs_asleep (resets_of w))) < length (rs_asleep (resets_of w))"
        by (auto simp: AList.delete_eq intro!: length_filter_less)
      then obtain w' where "loop_step\<^sup>*\<^sup>* (wake t k w1) w'" "T < rs_now (resets_of w')"
        using less.hyps [of "wake t k w1"] less.prems by (auto simp: w1_def)
      then show ?thesis using to1 step by (meson converse_rtranclp_into_rtranclp rtranclp_trans)
    qed
  qed
  obtain w1 where "loop_step\<^sup>*\<^sup>* w w1" "rs_pending (resets_of w1) = []" using pending_tasks_run by blast
  with drained [of w1] show ?thesis by (meson rtranclp_trans)
qed

lemma detection_requests:
  "key \<noteq> [] \<Longrightarrow> py_int v = Inr 1 \<Longrightarrow>
     reset_lifecycle kind v key c = (Inr (), c\<lparr>co_resets := request_reset (kind, key) (co_resets c)\<rparr>)"
  by (cases v) (simp_all add: reset_lifecycle_def on_resets_def)

text \<open>The device of a motion sensor: by its raw type, or by its category.\<close>

definition senses_motion :: "model_catalog \<Rightarrow> dict \<Rightarrow> bool" where
  "senses_motion cat dev \<longleftrightarrow> py_eq (dget dev ''device_type_raw'' (VInt 0)) (VInt 26)
     \<or> (dev \<noteq> [] \<and> classify_device cat (VDict dev) = Inr MOTION_SENSOR)"

lemma armed_dispatch:
  assumes "dispatch (coordinator_callbacks env) incoming raw src w = (Inr (), w')"
    and "resolve_device_id incoming (di_devices w) (st_states (di_store w)) = Inr (Some d)" "d \<noteq> []"
    and "map_of (di_devices w) d = Some dev" "senses_motion (ce_models env) dev"
    and "py_int (get raw ''value3'') = Inr 1" "\<not> truthy (get raw ''is_clothes_horse'')"
    and "\<not> py_eq (get raw ''cmd'') (VInt 82)" "\<not> py_eq (get raw ''cmd'') (VInt 352)"
  shows "armed (MOTION_RESET, d) w'"
proof -
  let ?cb = "coordinator_callbacks env"
  have armed: "armed (MOTION_RESET, d) w2"
    if "outsideS (apply_motion_state_parser repr c raw d) w1 = (Inr p, w2)" for w1 w2 :: "'a coord dispatcher" and repr c p
    using that assms(3,6)
    by (auto simp: outsideS_def apply_motion_state_parser_def detection_requests armed_def request_reset_def bindS_def
        split: prod.splits sum.splits)
  from assms(1,2) obtain w1 where w1: "dispatch_known ?cb raw src d w1 = (Inr (), w')" "di_devices w1 = di_devices w"
    by (auto simp: dispatch_def record_diagnostic_def bindS_def Let_def)
  then obtain w2 c category where w2: "handle_packet ?cb raw src d (Some dev) category c w2 = (Inr (), w')"
    "category_of ?cb (Some dev) = Inr category"
    using assms(4) by (auto simp: dispatch_known_def elim!: bindS_InrE)
  then have "py_eq (device_type_of (Some dev)) (VInt 26) \<or> category = MOTION_SENSOR"
    using assms(5) by (auto simp: senses_motion_def device_type_of_def category_of_def)
  then have "parse_packet ?cb d (Some dev) (device_type_of (Some dev)) sub category raw c =
      bindS (outsideS (apply_motion_state_parser (ce_text env) c raw d)) (\<lambda>p. retS (assign_all p c))" for sub
    using assms(7,9) by (simp add: parse_packet_def)
  moreover have "bindS (parse_packet ?cb d (Some dev) (device_type_of (Some dev)) (get dev ''sub_device_type'') category raw c) (\<lambda>c.
        bindS (merge_candidate ?cb d src c) (\<lambda>_.
        bindS (if concerns_lock (Some dev) category raw then storeS (publish_lock_event env d (tagged src raw)) else retS ()) (\<lambda>_.
          modifyS (\<lambda>w. w\<lparr>di_outside := on_rest (ce_updated env) (di_outside w)\<rparr>)))) w2 = (Inr (), w')"
    using w2(1) assms(8) by (simp only: handle_packet_def if_False option.case coordinator_callbacks_simps)
  ultimately obtain c1 w3 where parse: "bindS (outsideS (apply_motion_state_parser (ce_text env) c raw d))
        (\<lambda>p. retS (assign_all p c)) w2 = (Inr c1, w3)"
    and rest: "bindS (merge_candidate ?cb d src c1) (\<lambda>_.
        bindS (if concerns_lock (Some dev) category raw then storeS (publish_lock_event env d (tagged src raw)) else retS ()) (\<lambda>_.
          modifyS (\<lambda>w. w\<lparr>di_outside := on_rest (ce_updated env) (di_outside w)\<rparr>))) w3 = (Inr (), w')"
    by (auto elim: bindS_InrE simp del: bindS_simps)
  from parse obtain p where run: "outsideS (apply_motion_state_parser (ce_text env) c raw d) w2 = (Inr p, w3)"
    by (auto elim: bindS_InrE)
  have "resets_of w' = resets_of w3"
    using alwaysD [OF always_after_parse [of "\<lambda>r. r = resets_of w3"], of w3 env d src c1 "concerns_lock (Some dev) category raw"
        "tagged src raw"] rest by simp
  with armed [OF run] show ?thesis by (simp add: armed_def)
qed


section \<open>What a push may change\<close>

text \<open>The listener for lock events is one the dispatcher's rules hold for.\<close>

lemma beside_store: "always (\<lambda>sc. fst sc = s) (besideS m)"
  by (auto simp: always_def besideS_def split: prod.splits)

lemma merge_opening_run:
  "merge_opening d data (s, c) = (Inr (), if map_of (st_states s) d = None then s
     else merged_store (coordinator_callbacks env) d SSL (opening_values data) c s, c)"
  by (simp add: merge_opening_def merged_store_def)

lemma publish_merges:
  fixes env :: "'a coord_env"
  assumes "publish_lock_event env d raw (s, c) = (r, s', c')"
  shows "s' = s \<or> (\<exists>vs x. map fst vs = OPENING_FIELDS \<and> s' = merged_store (coordinator_callbacks env) d SSL vs x s)"
proof -
  obtain ev s1 c1 where build: "besideS (lockS (build_event (ce_locks env) d raw)) (s, c) = (ev, s1, c1)"
    by (metis prod.exhaust)
  then have s1: "s1 = s" by (auto simp: besideS_def split: prod.splits)
  show ?thesis
  proof (cases ev)
    case (Inl e)
    then show ?thesis using assms build s1 by (simp add: publish_lock_event_def bindS_def)
  next
    case (Inr found)
    show ?thesis
    proof (cases found)
      case None
      then show ?thesis using assms build s1 Inr by (simp add: publish_lock_event_def bindS_run)
    next
      case (Some data)
      define tail where "tail = (let data = AList.update ''source'' (dget raw ''source'' (VStr ''ssl'')) data
           in bindS (if truthy (get data ''kind'')
                     then bindS (besideS (restS (ce_attach_urls env d raw data))) (\<lambda>urls. retS (dict_merge data urls))
                     else retS data) (\<lambda>data. besideS (modifyS (on_rest (ce_fire env data)))))"
      have keeps: "fst (snd (tail sc)) = fst sc" for sc
      proof -
        have "always (\<lambda>x. fst x = fst sc) tail"
          unfolding tail_def Let_def by (intro always_bind always_if beside_store always_simps)
        from alwaysD [OF this, of sc] show ?thesis by simp
      qed
      obtain c2 where first: "besideS (modifyS (on_rest (ce_record_opening env d data))) (s, c1) = (Inr (), s, c2)"
        by (simp add: besideS_def)
      have noted: "bindS (besideS (modifyS (on_rest (ce_record_opening env d data)))) f (s, c1) = f () (s, c2)"
        for f :: "unit \<Rightarrow> (store \<times> 'a coord, unit) io"
        using first by (simp add: bindS_def)
      let ?s = "if opens data \<and> map_of (st_states s) d \<noteq> None
          then merged_store (coordinator_callbacks env) d SSL (opening_values data) c2 s else s"
      have "publish_lock_event env d raw (s, c) = bindS (if opens data
          then bindS (besideS (modifyS (on_rest (ce_record_opening env d data)))) (\<lambda>_. merge_opening d data)
          else retS ()) (\<lambda>_. tail) (s, c1)"
        using build s1 Inr Some by (simp add: publish_lock_event_def bindS_run tail_def)
      also have "\<dots> = tail (?s, if opens data then c2 else c1)"
        by (rule bindS_run(2)) (simp add: noted merge_opening_run [of d data s c2 env])
      finally have run: "publish_lock_event env d raw (s, c) = tail (?s, if opens data then c2 else c1)" .
      have "s' = ?s" using keeps [of "(?s, if opens data then c2 else c1)"]
        unfolding run [symmetric] assms by (simp only: fst_conv snd_conv)
      moreover have "map fst (opening_values data) = OPENING_FIELDS" by (simp add: opening_values_def OPENING_FIELDS_def)
      ultimately show ?thesis by metis
    qed
  qed
qed

interpretation cl: status_listener "coordinator_callbacks env" OPENING_FIELDS for env
proof
  show "distinct OPENING_FIELDS" by (simp add: OPENING_FIELDS_def)
qed (rule publish_merges, simp)

lemma resolve_known: "map_of states i \<noteq> None \<Longrightarrow> resolve_device_id i devices states = Inr (Some i)"
  by (simp add: resolve_device_id_def)

text \<open>A home with two gateways. The lamp belongs to the first one.\<close>

definition two_gateways :: "unit dispatcher" where
  "two_gateways = \<lparr>di_devices = [(''lamp'', [(''uid'', VStr ''gw1''), (''ext_addr'', VStr ''00aa''), (''device_type_raw'', VInt 1)])],
     di_store = new_store [(''lamp'', [(''state'', VBool False)])], di_last_update = [], di_diagnostics = [], di_outside = ()\<rparr>"

section \<open>The client the mode excludes\<close>

text \<open>Another client in the place of the client \<open>c\<close>; the cloud client has two calls more than the executor makes.\<close>

definition swap_transport :: "client \<Rightarrow> (string \<Rightarrow> pyval list \<Rightarrow> dict \<Rightarrow> ('x exec, pyval) io)
    \<Rightarrow> (string \<Rightarrow> pyval \<Rightarrow> string \<Rightarrow> string \<Rightarrow> ('x exec, pyval) io) \<Rightarrow> (dict \<Rightarrow> string \<Rightarrow> ('x exec, unit) io)
    \<Rightarrow> 'x ac_env \<Rightarrow> 'x ac_env" where
  "swap_transport c f g h ae =
     (if c = SSL_CLIENT then ae\<lparr>ae_exec := swap_horse g (swap_client c f (ae_exec ae)), ae_send := h\<rparr>
      else ae\<lparr>ae_exec := swap_client c f (ae_exec ae)\<rparr>)"

lemma swap_transport_simps [simp]:
  "mode (ae_exec (swap_transport c f g h ae)) = mode (ae_exec ae)"
  "has_ssl (ae_exec (swap_transport c f g h ae)) = has_ssl (ae_exec ae)"
  "transport (ae_exec (swap_transport c f g h ae)) = transport (ae_exec ae)"
  "client_call (ae_exec (swap_transport c f g h ae)) c' = (if c' = c then f else client_call (ae_exec ae) c')"
  "mark_optimistic (ae_exec (swap_transport c f g h ae)) = mark_optimistic (ae_exec ae)"
  "wait_for_response (ae_exec (swap_transport c f g h ae)) = wait_for_response (ae_exec ae)"
  "ae_text (swap_transport c f g h ae) = ae_text ae" "ae_key (swap_transport c f g h ae) = ae_key ae"
  "ae_user (swap_transport c f g h ae) = ae_user ae" "ae_serials (swap_transport c f g h ae) = ae_serials ae"
  "ae_send (swap_transport c f g h ae) = (if c = SSL_CLIENT then h else ae_send ae)"
  by (simp_all add: swap_transport_def)

lemma swap_transport_frame [simp]:
  "apply_ac_optimistic (swap_transport c f g h ae) = apply_ac_optimistic ae"
  "ac_confirm (swap_transport c f g h ae) = ac_confirm ae"
  "ac_ids (swap_transport c f g h ae) = ac_ids ae"
  unfolding fun_eq_iff apply_ac_optimistic_def ac_confirm_def ac_ids_def write_code_def swap_transport_simps by simp_all

lemma ac_over_cloud_swap:
  assumes "c = LAN_CLIENT \<or> (\<forall>w. \<not> has_ssl (ae_exec ae) w)"
  shows "ac_over_cloud (swap_transport c f g h ae) d uid v1 v2 v3 v4 ord = ac_over_cloud ae d uid v1 v2 v3 v4 ord"
  using assms by (auto simp: ac_over_cloud_def fun_eq_iff)

lemma ac_control_swap:
  assumes "(mode (ae_exec ae) = MODE_LAN_ONLY \<and> c = SSL_CLIENT) \<or> (mode (ae_exec ae) = MODE_CLOUD_ONLY \<and> c = LAN_CLIENT)"
    and "c = LAN_CLIENT \<or> (\<forall>w. \<not> has_ssl (ae_exec ae) w)"
  shows "ac_control_raw (swap_transport c f g h ae) d uid v1 v2 v3 v4 ord = ac_control_raw ae d uid v1 v2 v3 v4 ord"
  unfolding ac_control_raw_def swap_transport_simps swap_transport_frame ac_over_cloud_swap [OF assms(2)]
proof (rule bindS_cong, goal_cases)
  case (1 w x w')
  have "excluded_client (mode (ae_exec ae)) = Some c" using assms(1) by (auto simp: excluded_client_def)
  then show ?case using 1 transport_excluded [of "ae_exec ae" d w "fst x" "snd x" w' c] by (cases x) (auto split: option.splits)
qed

lemma swap_ac:
  assumes "(mode (ae_exec ae) = MODE_LAN_ONLY \<and> c = SSL_CLIENT) \<or> (mode (ae_exec ae) = MODE_CLOUD_ONLY \<and> c = LAN_CLIENT)"
    and "c = LAN_CLIENT \<or> (\<forall>w. \<not> has_ssl (ae_exec ae) w)"
  shows "set_ac_mode (swap_transport c f g h ae) d ac_mode = set_ac_mode ae d ac_mode"
    and "set_ac_temperature (swap_transport c f g h ae) d temperature = set_ac_temperature ae d temperature"
    and "set_ac_fan_speed (swap_transport c f g h ae) d fan_speed = set_ac_fan_speed ae d fan_speed"
  unfolding set_ac_mode_def set_ac_temperature_def set_ac_fan_speed_def ac_control_swap [OF assms] by (rule refl)+

lemma coordinator_env_ssl [simp]: "has_ssl (coordinator_env ae) = has_ssl (ae_exec ae)"
  by (simp add: coordinator_env_def)

lemma coordinator_env_swap:
  assumes "(mode (ae_exec ae) = MODE_LAN_ONLY \<and> c = SSL_CLIENT) \<or> (mode (ae_exec ae) = MODE_CLOUD_ONLY \<and> c = LAN_CLIENT)"
    and "c = LAN_CLIENT \<or> (\<forall>w. \<not> has_ssl (ae_exec ae) w)"
  shows "coordinator_env (swap_transport c f g h ae)
    = (if c = SSL_CLIENT then swap_horse g (swap_client c f (coordinator_env ae)) else swap_client c f (coordinator_env ae))"
proof -
  have vent: "ventilation_state_update (ae_exec (swap_transport c f g h ae)) d v = ventilation_state_update (ae_exec ae) d v" for d v
    using routed_controls_keep_mode(10) [OF assms(1), of f d v] by (auto simp: swap_transport_def)
  have horse: "clothes_horse_control (ae_exec (swap_transport c f g h ae)) d feature v = clothes_horse_control (ae_exec ae) d feature v"
    for d feature v
    using assms(2) clothes_horse_keeps_mode(1) [of c f "ae_exec ae"] clothes_horse_keeps_mode(2) [of "swap_client c f (ae_exec ae)" g]
    by (auto simp: swap_transport_def)
  have call: "coordinator_call (swap_transport c f g h ae) = coordinator_call ae"
    unfolding fun_eq_iff coordinator_call_def ac_control_swap [OF assms] vent horse by simp
  show ?thesis unfolding coordinator_env_def call
    by (cases "ae_exec ae") (simp add: swap_client_def swap_horse_def swap_transport_def cong: if_cong)
qed

section \<open>The set-point of an air conditioner\<close>

lemma write_state_run:
  "write_state d vs w = (Inr (), w\<lparr>ex_store := (ex_store w)\<lparr>st_states := AList.update d
     (dict_merge (state_of (ex_store w) d) vs) (st_states (ex_store w))\<rparr>\<rparr>)"
  by (simp add: write_state_def)

lemma dget_dict_merge:
  "k \<notin> fst ` set vs \<Longrightarrow> dget (dict_merge st vs) k v = dget st k v"
  by (induction vs arbitrary: st) (auto simp: dict_simps)

text \<open>The optimistic state of a control leaves every other field as it was.\<close>

lemma always_write_state:
  "k \<notin> fst ` set vs \<Longrightarrow> always (\<lambda>w. P (get (states_get d w) k)) (write_state d' vs)"
  by (auto simp: always_def write_state_run states_get_def dget_dict_merge)

lemma always_marks:
  "always (\<lambda>w. P (get (states_get d w) k)) notify"
  "always (\<lambda>w. P (get (states_get d w) k)) (mark_optimistic env d' fs)"
  by (simp_all add: always_def notify_def mark_optimistic_def states_get_def mark_def state_of_def)

lemma always_write_code:
  "v = VNone \<or> k \<notin> {field, field @ ''_raw''} \<Longrightarrow> always (\<lambda>w. P (get (states_get d w) k)) (write_code ae d' field names v)"
  by (auto simp: write_code_def intro!: always_bind always_write_state)

lemma always_thenS: "always I m \<Longrightarrow> always I n \<Longrightarrow> always I (thenS m n)"
  by (auto simp: thenS_def intro!: always_bind)

lemma always_whenS: "(b \<Longrightarrow> always I m) \<Longrightarrow> always I (whenS b m)"
  by (simp add: whenS_def)

lemma always_optimistic:
  assumes "k \<notin> set (optimistic_fields value1 value2 value3 value4)"
  shows "always (\<lambda>w. P (get (states_get d w) k)) (apply_ac_optimistic ae d' value1 value2 value3 value4)"
proof -
  let ?I = "\<lambda>w. P (get (states_get d w) k)"
  have k: "value1 = VNone \<or> k \<noteq> ''state''" "value2 = VNone \<or> k \<notin> {''ac_mode'', ''ac_mode'' @ ''_raw''}"
    "value3 = VNone \<or> k \<notin> {''fan_speed'', ''fan_speed'' @ ''_raw''}" "value4 = VNone \<or> k \<noteq> ''temperature''"
    using assms by (auto simp: optimistic_fields_def)
  have t: "always ?I (if value4 = VNone then retS ()
      else bindS (liftE (optimistic_temperature value4)) (\<lambda>t. write_state d' [(''temperature'', t)]))"
    using k(4) by (auto intro!: always_bind always_write_state)
  have s: "always ?I (whenS (value1 \<noteq> VNone) (write_state d' [(''state'', VBool (py_eq value1 (VInt 0)))]))"
    using k(1) by (auto intro!: always_whenS always_write_state)
  have "always ?I (if b then retS () else thenS (whenS (value1 \<noteq> VNone) (write_state d' [(''state'', VBool (py_eq value1 (VInt 0)))]))
        (thenS (write_code ae d' ''ac_mode'' AC_MODES value2)
        (thenS (write_code ae d' ''fan_speed'' FAN_SPEEDS value3)
        (thenS (if value4 = VNone then retS ()
               else bindS (liftE (optimistic_temperature value4)) (\<lambda>t. write_state d' [(''temperature'', t)]))
        (thenS (whenS c (mark_optimistic (ae_exec ae) d' fs)) notify)))))" for b c fs
  proof (cases b)
    case False
    show ?thesis unfolding if_not_P [OF False]
      by (rule always_thenS [OF s always_thenS [OF always_write_code [OF k(2)] always_thenS [OF always_write_code [OF k(3)]
            always_thenS [OF t always_thenS [OF always_whenS [OF always_marks(2)] always_marks(1)]]]]])
  qed (simp only: if_True always_simps)
  then show ?thesis unfolding apply_ac_optimistic_def Let_def by (intro always_bind) simp_all
qed

lemma half_degree:
  assumes "0 < k" "k \<le> 2000"
  shows "optimistic_temperature (VInt (push_bit 16 (50 * k))) = Inr (VFloat (Fin (of_int k / 2)))"
proof -
  have shift: "drop_bit 16 (push_bit 16 (50 * k)) = 50 * k" by (simp add: drop_bit_eq_div push_bit_eq_mult)
  have "round_half_even (5 * rat_of_int k) = 5 * k" using round_half_even_of_int [of "5 * k"] by simp
  then have "round_tenth (VFloat (Fin (of_int k / 2))) = VFloat (to_double (of_int k / 2))" by simp
  then show ?thesis
    using hundredths_of_half_degrees [of k] to_double_half [of k] assms
    by (simp add: shift scaled_temperature_def)
qed

lemma ac_accepted:
  assumes "transport (ae_exec ae) d w = (Inr (Some LAN_CLIENT, ''lan''), w)"
    and "client_call (ae_exec ae) LAN_CLIENT ''send_ac_control'' [VStr d, uid] (ac_arguments ord value1 value2 value3 value4) w
      = (Inr r, w1)" "truthy r"
  shows "ac_control_raw ae d uid value1 value2 value3 value4 ord w
    = thenS (apply_ac_optimistic ae d value1 value2 value3 value4) (retS True) w1"
  using assms by (simp add: ac_control_raw_def bindS_def except_any_def catchS_def)

lemma set_point_shown:
  assumes "get_device_state d w = Some st" "st \<noteq> []" "hashable v2" "hashable v3" "0 < k" "k \<le> 2000"
  shows "\<exists>w'. apply_ac_optimistic ae d (VInt 0) v2 v3 (VInt (push_bit 16 (50 * k))) w = (Inr (), w')
    \<and> ex_devices w' = ex_devices w \<and> get (states_get d w') ''temperature'' = VFloat (Fin (of_int k / 2))
    \<and> (\<exists>st'. get_device_state d w' = Some st')"
proof -
  have code: "\<exists>s. code_name (ae_text ae) names v = Inr s" if "hashable v" for names v
    using that by (simp add: code_name_def)
  obtain m f where names: "code_name (ae_text ae) AC_MODES v2 = Inr m" "code_name (ae_text ae) FAN_SPEEDS v3 = Inr f"
    using code assms(3,4) by blast
  have state: "map_of (st_states (ex_store w)) d = Some st" using assms(1) by (simp add: get_device_state_def)
  show ?thesis
    using assms(2) names state half_degree [OF assms(5,6)]
    by (simp add: apply_ac_optimistic_def get_device_state_def thenS_def whenS_def write_code_def write_state_run bindS_def
        optimistic_fields_def mark_optimistic_def mark_def notify_def states_get_def state_of_def dict_simps Let_def)
qed

section \<open>Samples\<close>

definition sample_coord_env :: "rat coord_env" where
  "sample_coord_env = \<lparr>ce_locks = sample_lock_env, ce_record_opening = \<lambda>d data y. y, ce_attach_urls = \<lambda>d raw data. retS [],
     ce_fire = \<lambda>data y. y, ce_updated = \<lambda>y. y, ce_wall_clock = \<lambda>y. y, ce_loads = \<lambda>s. None, ce_models = \<lambda>k. None,
     ce_text = \<lambda>v. [], ce_limit = 200\<rparr>"

text \<open>An account in local-only mode, without a cloud client.\<close>

definition local_account :: "unit ac_env" where
  "local_account = \<lparr>ae_exec = (sample_env MODE_LAN_ONLY)\<lparr>has_ssl := \<lambda>w. False\<rparr>, ae_user = ''u'', ae_text = \<lambda>v. [],
     ae_serials = \<lambda>w. (1, 1), ae_key = \<lambda>w. None, ae_send = \<lambda>p k. retS ()\<rparr>"

definition home_with :: "string \<Rightarrow> dict \<Rightarrow> dict \<Rightarrow> rat coord dispatcher" where
  "home_with d dev st = \<lparr>di_devices = [(d, dev)], di_store = new_store [(d, st)], di_last_update = [], di_diagnostics = [],
     di_outside = \<lparr>co_resets = no_resets 0, co_locks = new_lock_manager, co_rest = 0\<rparr>\<rparr>"

definition motion_room :: "rat coord dispatcher" where
  "motion_room = home_with ''pir'' [(''device_type_raw'', VInt 26)] [(''motion_detected'', VBool False)]"

definition lamp_home :: "rat coord dispatcher" where
  "lamp_home = home_with ''lamp'' [(''uid'', VStr ''gw1''), (''device_type_raw'', VInt 1)] [(''state'', VBool False)]"

definition front_door :: "rat coord dispatcher" where
  "front_door = home_with ''lock'' [(''device_type_raw'', VInt 522), (''uid'', VStr ''gw1'')] [(''locked'', VBool True)]"

section \<open>Properties\<close>

text \<open>C4. A packet is applied atomically and through the store's rules. With the coordinator's listeners a
  dispatch leaves the state store untouched, or makes one unforced merge, for the device the packet resolves
  to and under the packet's source. Only a packet that concerns a lock may be followed by one merge more: an
  unforced one of exactly the five fields of the last opening, for the same device and under the source SSL.
  A dispatch that raises leaves the store untouched, unless the packet concerns a lock.\<close>

theorem packet_merges:
  assumes "dispatch (coordinator_callbacks env) incoming raw src w = (r, w')"
  shows "di_store w' = di_store w \<or>
    (\<exists>d vs t s. resolve_device_id incoming (di_devices w) (st_states (di_store w)) = Inr (Some d)
       \<and> distinct (map fst vs) \<and> s = snd (merge d vs src t False (di_store w))
       \<and> (let lock = (\<exists>category. category_of (coordinator_callbacks env) (map_of (di_devices w) d) = Inr category
                \<and> concerns_lock (map_of (di_devices w) d) category raw)
          in (di_store w' = s \<and> (returns r \<or> lock)) \<or>
             (lock \<and> (\<exists>vs' t'. map fst vs' = OPENING_FIELDS \<and> di_store w' = snd (merge d vs' SSL t' False s)))))"
  using cl.dispatch_stores [OF assms] unfolding merged_store_def Let_def by blast

theorem packet_merges_witness:
  "\<exists>w' vs t vs' t'. dispatch (coordinator_callbacks sample_coord_env) ''lock'' unlock_packet LAN front_door = (Inr (), w')
     \<and> di_store w' = snd (merge ''lock'' vs' SSL t' False (snd (merge ''lock'' vs LAN t False (di_store front_door))))
     \<and> map fst vs' = OPENING_FIELDS \<and> get (state_of (di_store w') ''lock'') ''unlock_type'' = VStr ''fingerprint''"
proof -
  let ?run = "dispatch (coordinator_callbacks sample_coord_env) ''lock'' unlock_packet LAN front_door"
  let ?cell = "cell (di_store (snd ?run)) ''lock'' ''unlock_type''"
  have "fst ?run = Inr ()
    \<and> get (state_of (di_store (snd ?run)) ''lock'') ''unlock_type'' = VStr ''fingerprint''
    \<and> snd ?cell = Some \<lparr>rev_source = SSL, rev_updated_at = 0\<rparr> \<and> snd (cell (di_store front_door) ''lock'' ''unlock_type'') = None"
    by code_simp
  then obtain w' where run: "?run = (Inr (), w')" "get (state_of (di_store w') ''lock'') ''unlock_type'' = VStr ''fingerprint''"
    "snd (cell (di_store w') ''lock'' ''unlock_type'') = Some \<lparr>rev_source = SSL, rev_updated_at = 0\<rparr>"
    "snd (cell (di_store front_door) ''lock'' ''unlock_type'') = None" by (metis prod.collapse)
  have "resolve_device_id ''lock'' (di_devices front_door) (st_states (di_store front_door)) = Inr (Some ''lock'')" by code_simp
  moreover have "di_store w' \<noteq> snd (merge d vs LAN t False (di_store front_door))" if "distinct (map fst vs)" for d vs t
    using run(3,4) that
    by (auto simp: cell_merge merge_cell_def skips_def protected_def split: option.splits if_splits)
  moreover have "di_store w' \<noteq> di_store front_door" using run(3,4) by auto
  ultimately have "\<exists>vs t vs' t'. map fst vs' = OPENING_FIELDS
      \<and> di_store w' = snd (merge ''lock'' vs' SSL t' False (snd (merge ''lock'' vs LAN t False (di_store front_door))))"
    using packet_merges [OF run(1)] unfolding Let_def by (metis Inr_inject option.inject)
  then show ?thesis using run(1,2) by blast
qed

text \<open>C2. A client the transport mode excludes is never used. The controls that choose their transport in the
  executor, among them those whose route leads to the coordinator, behave the same whatever the LAN client would
  do in cloud-only mode and whatever the cloud client would do in local-only mode. The control of an air
  conditioner falls back to the cloud client and the one of a clothes horse always uses it, without a look at
  the mode: for them the set-up is relied on, which creates no cloud client in local-only mode. Then no control at
  all, neither of the executor nor of the coordinator, depends on what the cloud client or its calls would do.\<close>

theorem excluded_transport_never_used:
  assumes "(mode (ae_exec ae) = MODE_LAN_ONLY \<and> c = SSL_CLIENT) \<or> (mode (ae_exec ae) = MODE_CLOUD_ONLY \<and> c = LAN_CLIENT)"
  shows "(let env = coordinator_env ae; env' = swap_client c f env
     in turn_on env' d b ct = turn_on env d b ct
      \<and> turn_off env' d = turn_off env d
      \<and> set_brightness env' d br = set_brightness env d br
      \<and> set_color_temp env' d k = set_color_temp env d k
      \<and> set_cover_position env' d p = set_cover_position env d p
      \<and> stop_cover env' d = stop_cover env d
      \<and> set_dream_curtain_angle env' d a = set_dream_curtain_angle env d a
      \<and> dream_curtain_action env' d act = dream_curtain_action env d act
      \<and> set_floor_heating_temperature env' d t = set_floor_heating_temperature env d t
      \<and> ventilation_state_update env' d v = ventilation_state_update env d v
      \<and> set_light_param env' d b ct = set_light_param env d b ct)
    \<and> (c = LAN_CLIENT \<or> (\<forall>w. \<not> has_ssl (ae_exec ae) w) \<longrightarrow>
     (let ae' = swap_transport c f g h ae; env = coordinator_env ae; env' = coordinator_env ae'
     in turn_on env' d b ct = turn_on env d b ct
      \<and> turn_off env' d = turn_off env d
      \<and> set_brightness env' d br = set_brightness env d br
      \<and> set_color_temp env' d k = set_color_temp env d k
      \<and> set_cover_position env' d p = set_cover_position env d p
      \<and> stop_cover env' d = stop_cover env d
      \<and> set_dream_curtain_angle env' d a = set_dream_curtain_angle env d a
      \<and> dream_curtain_action env' d act = dream_curtain_action env d act
      \<and> set_floor_heating_temperature env' d t = set_floor_heating_temperature env d t
      \<and> ventilation_state_update env' d v = ventilation_state_update env d v
      \<and> set_light_param env' d b ct = set_light_param env d b ct
      \<and> clothes_horse_control env' d feature x = clothes_horse_control env d feature x
      \<and> set_ac_mode ae' d ac_mode = set_ac_mode ae d ac_mode
      \<and> set_ac_temperature ae' d temperature = set_ac_temperature ae d temperature
      \<and> set_ac_fan_speed ae' d fan_speed = set_ac_fan_speed ae d fan_speed))"
proof -
  have excluded: "(mode (coordinator_env ae) = MODE_LAN_ONLY \<and> c = SSL_CLIENT)
      \<or> (mode (coordinator_env ae) = MODE_CLOUD_ONLY \<and> c = LAN_CLIENT)"
    using assms by (simp add: coordinator_env_def)
  note routed = routed_controls_keep_mode [OF excluded, of f]
  have "coordinator_env (swap_transport c f g h ae)
      = (if c = SSL_CLIENT then swap_horse g (swap_client c f (coordinator_env ae)) else swap_client c f (coordinator_env ae))"
    if "c = LAN_CLIENT \<or> (\<forall>w. \<not> has_ssl (ae_exec ae) w)"
    by (rule coordinator_env_swap [OF assms that])
  then show ?thesis
    using routed swap_ac [OF assms, of f g h] clothes_horse_keeps_mode(1) [of c f "coordinator_env ae"]
      clothes_horse_keeps_mode(2) [of "swap_client c f (coordinator_env ae)" g]
      coordinator_env_ssl [of ae]
    unfolding Let_def by auto
qed

theorem excluded_transport_never_used_witness:
  "\<forall>f g h. turn_off (swap_client SSL_CLIENT f (coordinator_env local_account)) ''d'' = turn_off (coordinator_env local_account) ''d''
     \<and> set_ac_mode (swap_transport SSL_CLIENT f g h local_account) ''d'' ''cool'' = set_ac_mode local_account ''d'' ''cool''"
proof (intro allI)
  fix f g h
  have "mode (ae_exec local_account) = MODE_LAN_ONLY" "\<And>w. \<not> has_ssl (ae_exec local_account) w"
    by (simp_all add: local_account_def)
  then show "turn_off (swap_client SSL_CLIENT f (coordinator_env local_account)) ''d'' = turn_off (coordinator_env local_account) ''d''
     \<and> set_ac_mode (swap_transport SSL_CLIENT f g h local_account) ''d'' ''cool'' = set_ac_mode local_account ''d'' ''cool''"
    using excluded_transport_never_used [of local_account SSL_CLIENT f "''d''" _ _ _ _ _ _ _ _ _ g h] unfolding Let_def by simp
qed

text \<open>C5. What a gateway pushes reaches the state only as far as the gateway is trusted with it: a push that
  changes a field of a device is well-formed, the transport mode and the kind of the device its identifier names
  allow LAN readings, and neither that device nor the push itself belongs to another gateway. The owner is that
  of the identifier as the push spells it, which is the device that changes if the identifier has a state, and
  else may be an alias of it. The change is one under the source LAN; only if the push concerns a lock
  it may be one of a field of the last opening, under the source SSL.\<close>

theorem gateway_push_confined:
  assumes "on_lan_status_update (coordinator_callbacks env) md gw payload w = (r, w')"
    and "cell (di_store w') d f \<noteq> cell (di_store w) d f"
  shows "lan_valid_state_payload payload \<and> \<not> foreign (lan_payload_gateway_uid payload) gw
    \<and> (\<exists>i. lan_payload_device_id payload = Some i \<and> \<not> foreign (owner_of (map_of (di_devices w) i)) gw
        \<and> lan_state_allowed (ce_models env)
            (VDict (case map_of (di_devices w) i of None \<Rightarrow> [] | Some x \<Rightarrow> x)) md = Inr True
        \<and> resolve_device_id i (di_devices w) (st_states (di_store w)) = Inr (Some d)
        \<and> (map_of (st_states (di_store w)) i \<noteq> None \<longrightarrow> d = i)
        \<and> (\<exists>t. snd (cell (di_store w') d f) = Some \<lparr>rev_source = LAN, rev_updated_at = t\<rparr>
             \<or> f \<in> set OPENING_FIELDS \<and> snd (cell (di_store w') d f) = Some \<lparr>rev_source = SSL, rev_updated_at = t\<rparr>
               \<and> (\<exists>category. category_of (coordinator_callbacks env) (map_of (di_devices w) d) = Inr category
                   \<and> concerns_lock (map_of (di_devices w) d) category (push_status i payload))))"
proof -
  have "w' \<noteq> w" using assms(2) by auto
  with assms(1) obtain i where i: "lan_payload_device_id payload = Some i" "lan_valid_state_payload payload"
    "lan_state_allowed (ce_models env) (VDict (case map_of (di_devices w) i of None \<Rightarrow> [] | Some x \<Rightarrow> x)) md = Inr True"
    "\<not> foreign (owner_of (map_of (di_devices w) i)) gw" "\<not> foreign (lan_payload_gateway_uid payload) gw"
    and run: "dispatch (coordinator_callbacks env) i (push_status i payload) LAN w = (r, w')"
    by (auto simp: on_lan_status_update_def bindS_def split: option.splits if_splits sum.splits)
  show ?thesis using i cl.dispatch_changes [OF run assms(2)] resolve_known [of "st_states (di_store w)" i "di_devices w"]
    by auto
qed

theorem gateway_push_confined_witness:
  "case on_lan_status_update (coordinator_callbacks sample_coord_env) MODE_AUTO ''gw1''
       [(''deviceId'', VStr ''lamp''), (''value1'', VInt 0)] lamp_home of
     (r, w') \<Rightarrow> snd (cell (di_store w') ''lamp'' ''state'') = Some \<lparr>rev_source = LAN, rev_updated_at = 0\<rparr>
       \<and> resolve_device_id ''lamp'' (di_devices lamp_home) (st_states (di_store lamp_home)) = Inr (Some ''lamp'')"
proof -
  let ?cb = "coordinator_callbacks sample_coord_env" and ?p = "[(''deviceId'', VStr ''lamp''), (''value1'', VInt 0)]"
  obtain r w' where run: "on_lan_status_update ?cb MODE_AUTO ''gw1'' ?p lamp_home = (r, w')" by force
  have "case on_lan_status_update ?cb MODE_AUTO ''gw1'' ?p lamp_home of (r, w') \<Rightarrow>
      cell (di_store w') ''lamp'' ''state'' = (Some (VBool True), Some \<lparr>rev_source = LAN, rev_updated_at = 0\<rparr>)
        \<and> cell (di_store lamp_home) ''lamp'' ''state'' = (Some (VBool False), None) \<and> lan_payload_device_id ?p = Some ''lamp''"
    by code_simp
  then show ?thesis using gateway_push_confined [OF run, of "''lamp''" "''state''"] run by auto
qed

text \<open>C40. The gateway that owns a device is not asked when a push names the device by another of its
  identifiers: the check looks the identifier up among the devices, finds none and lets the push pass, and
  the dispatcher then resolves it, so that any gateway can report the state of a device of another.\<close>

theorem alias_push_escapes_ownership:
  assumes "lan_payload_device_id payload = Some i" "lan_valid_state_payload payload" "map_of (di_devices w) i = None"
    and "lan_state_allowed (known_models cb) (VDict []) md = Inr True" "\<not> foreign (lan_payload_gateway_uid payload) gw"
    and "resolve_device_id i (di_devices w) (st_states (di_store w)) = Inr (Some d)"
  shows "on_lan_status_update cb md gw payload w =
    bindS (record_diagnostic cb i (push_status i payload)) (\<lambda>_. dispatch_known cb (push_status i payload) LAN d) w"
proof -
  obtain w1 where "record_diagnostic cb i (push_status i payload) w = (Inr (), w1)"
    "di_devices w1 = di_devices w" "di_store w1 = di_store w"
    by (simp add: record_diagnostic_def Let_def)
  then show ?thesis using assms
    by (simp add: on_lan_status_update_def dispatch_def bindS_def owner_of_def foreign_def)
qed

theorem alias_push_escapes_ownership_witness:
  "owner_of (map_of (di_devices two_gateways) ''lamp'') = Some ''gw1''
   \<and> on_lan_status_update sample_callbacks MODE_AUTO ''gw2'' [(''deviceId'', VStr ''00aa''), (''value1'', VInt 0)] two_gateways
     = bindS (record_diagnostic sample_callbacks ''00aa'' (push_status ''00aa'' [(''deviceId'', VStr ''00aa''), (''value1'', VInt 0)]))
         (\<lambda>_. dispatch_known sample_callbacks (push_status ''00aa'' [(''deviceId'', VStr ''00aa''), (''value1'', VInt 0)]) LAN ''lamp'')
         two_gateways
   \<and> get (state_of (di_store (snd (on_lan_status_update sample_callbacks MODE_AUTO ''gw2''
         [(''deviceId'', VStr ''00aa''), (''value1'', VInt 0)] two_gateways))) ''lamp'') ''state'' = VBool True"
proof (intro conjI)
  show "on_lan_status_update sample_callbacks MODE_AUTO ''gw2'' [(''deviceId'', VStr ''00aa''), (''value1'', VInt 0)] two_gateways
     = bindS (record_diagnostic sample_callbacks ''00aa'' (push_status ''00aa'' [(''deviceId'', VStr ''00aa''), (''value1'', VInt 0)]))
         (\<lambda>_. dispatch_known sample_callbacks (push_status ''00aa'' [(''deviceId'', VStr ''00aa''), (''value1'', VInt 0)]) LAN ''lamp'')
         two_gateways"
    by (rule alias_push_escapes_ownership) code_simp+
  show "owner_of (map_of (di_devices two_gateways) ''lamp'') = Some ''gw1''" by code_simp
  show "get (state_of (di_store (snd (on_lan_status_update sample_callbacks MODE_AUTO ''gw2''
         [(''deviceId'', VStr ''00aa''), (''value1'', VInt 0)] two_gateways))) ''lamp'') ''state'' = VBool True"
    by code_simp
qed


text \<open>The set-point of an air conditioner that has only been accepted, not reported, is forgotten: the
  optimistic state of a temperature control shows the new value as \<^verbatim>\<open>temperature\<close> alone; the set-point the
  climate entity reads is the old one, and a change of the mode that follows sends the old packed value
  along and so sets the air conditioner back.\<close>

lemma ac_set_point_forgotten:
  assumes "map_of (ex_devices w) d = Some dev" "dev \<noteq> []"
    and "get_device_state d w = Some st" "get st ''value4'' = VInt old" "old \<noteq> 0"
    and "hashable (dget st ''ac_mode_raw'' (VInt 3))" "hashable (dget st ''fan_speed_raw'' (VInt 1))"
    and "transport (ae_exec ae) d w = (Inr (Some LAN_CLIENT, ''lan''), w)"
    and "\<And>args. client_call (ae_exec ae) LAN_CLIENT ''send_ac_control'' [VStr d, uid_field dev] args w = (Inr r, w)"
    and "truthy r" "16 \<le> t" "t \<le> 32"
  shows "\<exists>w'. set_ac_temperature ae d (Fin (of_int t)) w = (Inr True, w')
    \<and> get (states_get d w') ''temperature'' = VFloat (Fin (of_int t))
    \<and> get (states_get d w') ''target_temperature'' = get st ''target_temperature''
    \<and> set_ac_mode ae d ''cool'' w' =
        ac_control_raw ae d (uid_field dev) (VInt 0) (VInt 3) VNone (VInt old) (VStr ''mode setting'') w'"
proof -
  let ?v2 = "dget st ''ac_mode_raw'' (VInt 3)" and ?v3 = "dget st ''fan_speed_raw'' (VInt 1)"
  let ?v4 = "VInt (push_bit 16 (50 * (2 * t)))"
  have st: "st \<noteq> []" "states_get d w = st" using assms(3-5) by (auto simp: get_device_state_def states_get_def state_of_def)
  have enc: "ac_temperature_encode (Fin (of_int t)) = Inr (push_bit 16 (50 * (2 * t)))"
    using to_double_int [of "100 * t"] rat_trunc_of_int [of "100 * t"] assms(11,12)
    by (simp add: ac_temperature_encode_def mult.commute del: rat_trunc_of_int)
  obtain w' where w': "apply_ac_optimistic ae d (VInt 0) ?v2 ?v3 ?v4 w = (Inr (), w')" "ex_devices w' = ex_devices w"
    "get (states_get d w') ''temperature'' = VFloat (Fin (of_int t))" "\<exists>st'. get_device_state d w' = Some st'"
    using set_point_shown [OF assms(3) st(1) assms(6,7), of "2 * t" ae] assms(11,12) by auto
  have kept: "get (states_get d w') k = get st k" if "k \<in> {''value4'', ''target_temperature''}" for k
    using alwaysD [OF always_optimistic [of k "VInt 0" ?v2 ?v3 ?v4 "\<lambda>x. x = get st k" d ae d], of w] w'(1) st(2) that
    by (auto simp: optimistic_fields_def)
  have "set_ac_temperature ae d (Fin (of_int t)) w = (Inr True, w')"
    using assms(1-3) ac_accepted [OF assms(8) assms(9) assms(10)] w'(1)
    by (simp add: set_ac_temperature_def with_ac_def stored_def enc thenS_def bindS_def)
  moreover have "current_value4 d w' = VInt old"
    using kept [of "''value4''"] w'(4) assms(4,5)
    by (auto simp: current_value4_def stored_def get_device_state_def states_get_def state_of_def py_or_def dget_def
        split: option.splits)
  then have "set_ac_mode ae d ''cool'' w' =
      ac_control_raw ae d (uid_field dev) (VInt 0) (VInt 3) VNone (VInt old) (VStr ''mode setting'') w'"
    using assms(1,2) w'(2) by (simp add: set_ac_mode_def with_ac_def py_lower_def lower_char_def byte_def)
  ultimately show ?thesis using w'(3) kept [of "''target_temperature''"] by auto
qed

text \<open>A control of an air conditioner that the gateway did not accept, or that raised on the way to it, is
  sent once more, over the cloud and with the same order and values: without a session no packet is sent
  and the control fails; with one, exactly one control message goes out, and then the device is waited for.\<close>

lemma ac_lan_failure_falls_back:
  assumes "transport (ae_exec ae) d w = (Inr (Some LAN_CLIENT, ''lan''), w)"
    and "client_call (ae_exec ae) LAN_CLIENT ''send_ac_control'' [VStr d, uid] (ac_arguments ord value1 value2 value3 value4) w
      = (r, w1)"
    and "case r of Inl e \<Rightarrow> e \<noteq> cancelled_error | Inr v \<Rightarrow> \<not> truthy v"
  shows "if has_ssl (ae_exec ae) w1 \<and> ae_key ae w1 \<notin> {None, Some [], Some DEFAULT_KEY}
    then \<exists>p. control_message (ac_ids ae d uid w1) p \<and> get p ''order'' = ord
      \<and> map (get p) [''value1'', ''value2'', ''value3'', ''value4''] = map none_or_zero [value1, value2, value3, value4]
      \<and> ac_control_raw ae d uid value1 value2 value3 value4 ord w
        = thenS (ae_send ae p (the (ae_key ae w1))) (ac_confirm ae d value1 value2 value3 value4) w1
    else ac_control_raw ae d uid value1 value2 value3 value4 ord w = (Inr False, w1)"
proof -
  have over: "ac_control_raw ae d uid value1 value2 value3 value4 ord w = ac_over_cloud ae d uid value1 value2 value3 value4 ord w1"
    using assms by (cases r) (simp_all add: ac_control_raw_def bindS_def except_any_def catchS_def)
  obtain p where p: "ssl_control_ac (ac_ids ae d uid w1) ord value1 value2 value3 value4 = Inr p"
    by (simp add: ssl_control_ac_def)
  have "ensures (ssl_control_ac (ac_ids ae d uid w1) ord value1 value2 value3 value4) (control_message (ac_ids ae d uid w1))"
    by simp
  then have "control_message (ac_ids ae d uid w1) p" using p by simp
  moreover have "get p ''order'' = ord
      \<and> map (get p) [''value1'', ''value2'', ''value3'', ''value4''] = map none_or_zero [value1, value2, value3, value4]"
    using p by (auto simp: ssl_control_ac_def control_payload_def identity_fields_def value_fields_def)
  ultimately show ?thesis using p by (auto simp: over ac_over_cloud_def)
qed

text \<open>C17. A motion that is detected does not stay: in every reachable state of the coordinator, after a
  packet of a motion sensor that reports a detection was handled, the flag is down in every state the loop
  reaches by itself, without any further packet, more than 30 seconds later. The loop may take the steps it
  can in any order, only that it lets no time pass while a task is due; and it does reach such a state.\<close>

theorem detected_motion_falls:
  assumes "(coordinator_step env)\<^sup>*\<^sup>* (new_coordinator now y) w"
    and "dispatch (coordinator_callbacks env) incoming raw src w = (Inr (), w')"
    and "resolve_device_id incoming (di_devices w) (st_states (di_store w)) = Inr (Some d)" "d \<noteq> []"
    and "map_of (di_devices w) d = Some dev" "senses_motion (ce_models env) dev"
    and "py_int (get raw ''value3'') = Inr 1" "\<not> truthy (get raw ''is_clothes_horse'')"
    and "\<not> py_eq (get raw ''cmd'') (VInt 82)" "\<not> py_eq (get raw ''cmd'') (VInt 352)"
  shows "(\<forall>w''. loop_step\<^sup>*\<^sup>* w' w'' \<longrightarrow> rs_now (resets_of w') + 30 < rs_now (resets_of w'') \<longrightarrow> \<not> flag_up (MOTION_RESET, d) w'')
    \<and> (\<exists>w''. loop_step\<^sup>*\<^sup>* w' w'' \<and> rs_now (resets_of w') + 30 < rs_now (resets_of w''))"
proof -
  have "(coordinator_step env)\<^sup>*\<^sup>* (new_coordinator now y) w'"
    using assms(1) packet [OF assms(2)] by (rule rtranclp.rtrancl_into_rtrancl)
  then have "resets_ok (resets_of w')" by (rule cr.reachable_inv)
  from armed_flag_falls [OF this armed_dispatch [OF assms(2-10)]] time_goes_on show ?thesis by auto
qed

theorem detected_motion_falls_witness:
  "\<exists>w' w''. dispatch (coordinator_callbacks sample_coord_env) ''pir'' [(''value3'', VStr ''1'')] SSL motion_room = (Inr (), w')
     \<and> flag_up (MOTION_RESET, ''pir'') w' \<and> loop_step\<^sup>*\<^sup>* w' w'' \<and> \<not> flag_up (MOTION_RESET, ''pir'') w''"
proof -
  let ?run = "dispatch (coordinator_callbacks sample_coord_env) ''pir'' [(''value3'', VStr ''1'')] SSL motion_room"
  have "fst ?run = Inr () \<and> flag_up (MOTION_RESET, ''pir'') (snd ?run) \<and> py_int (get [(''value3'', VStr ''1'')] ''value3'') = Inr 1"
    by code_simp
  then obtain w' where run: "?run = (Inr (), w')" "flag_up (MOTION_RESET, ''pir'') w'"
    "py_int (get [(''value3'', VStr ''1'')] ''value3'') = Inr 1"
    by (metis prod.collapse)
  have "coordinator_step sample_coord_env (new_coordinator 0 0) motion_room"
    by (rule elsewhere) (simp add: new_coordinator_def motion_room_def home_with_def)
  then have reach: "(coordinator_step sample_coord_env)\<^sup>*\<^sup>* (new_coordinator 0 0) motion_room" by blast
  have "resolve_device_id ''pir'' (di_devices motion_room) (st_states (di_store motion_room)) = Inr (Some ''pir'')
      \<and> map_of (di_devices motion_room) ''pir'' = Some [(''device_type_raw'', VInt 26)]
      \<and> senses_motion (ce_models sample_coord_env) [(''device_type_raw'', VInt 26)]"
    by (intro conjI) (code_simp | simp add: senses_motion_def)+
  then show ?thesis using detected_motion_falls [OF reach run(1)] run by fastforce
qed

text \<open>A flag never has two resets at a time: in every reachable state at most one task sleeps for a flag,
  it is the one the coordinator would cancel, and it wakes up no later than the delay of the flag from now.\<close>

lemma one_reset_per_flag:
  assumes "(coordinator_step env)\<^sup>*\<^sup>* (new_coordinator now y) w"
    and "map_of (rs_asleep (resets_of w)) t = Some (k, due)" "map_of (rs_asleep (resets_of w)) t' = Some (k, due')"
  shows "t = t' \<and> map_of (rs_tasks (resets_of w)) k = Some t \<and> due \<le> rs_now (resets_of w) + reset_delay (fst k)"
proof -
  have ok: "resets_ok (resets_of w)" by (rule cr.reachable_inv [OF assms(1)])
  have "map_of (rs_tasks (resets_of w)) k = Some u \<and> d \<le> rs_now (resets_of w) + reset_delay (fst k)"
    if "map_of (rs_asleep (resets_of w)) u = Some (k, d)" for u d
    using ok that unfolding resets_ok_def by blast
  from this [OF assms(2)] this [OF assms(3)] show ?thesis by simp
qed

text \<open>An account without devices stalls the set-up: the search then turns to the other partition, whose
  refusal is only logged, and the client stays there, logged out. Without a configured family none is
  known any more, and the connection to the cloud waits for one that nobody will bring.\<close>

lemma empty_account_stalls_setup:
  assumes "async_detect_cloud env (VStr []) w = (Inr True, w1)" "discover env w1 = (Inr (Some data, []), w2)"
    and "\<And>w. hc_cloud w = cloud_candidates (Some (hc_cloud w2)) ! 1 \<Longrightarrow> fetch_access_token env w = (Inr (VDict []), w)"
    and "\<And>w r w'. nap w = (r, w') \<Longrightarrow> r = Inr () \<and> hc_family_id w' = hc_family_id w"
  shows "\<exists>w3. discover_home env [] w = (Inr [], w3) \<and> hc_cloud w3 = cloud_candidates (Some (hc_cloud w2)) ! 1
    \<and> \<not> has_tokens w3 \<and> (\<forall>n. \<exists>w4. family_known nap n w3 = (Inr False, w4))"
proof -
  let ?fallback = "cloud_candidates (Some (hc_cloud w2)) ! 1"
  obtain w3 where w3: "switch_cloud ?fallback VNone w2 = (Inr (), w3)" "hc_cloud w3 = ?fallback" "\<not> has_tokens w3"
    "hc_family_id w3 = VNone"
    by (simp add: switch_cloud_def has_tokens_def)
  have "ensure_login env w3 = (Inr False, w3)"
    using w3(3) assms(3) [OF w3(2)] by (simp add: ensure_login_def authenticate_def bindS_def store_token_def)
  then have "discover_home env [] w = (Inr [], w3)"
    using assms(1,2) w3(1) by (simp add: discover_home_def discover_elsewhere_def catchS_def bindS_def)
  moreover have "\<exists>w4. family_known nap n v = (Inr False, w4)" if "\<not> truthy (hc_family_id v)" for n v
    using that
  proof (induction n arbitrary: v)
    case 0
    then show ?case by (simp add: family_known.simps)
  next
    case (Suc n)
    obtain r v' where nap: "nap v = (r, v')" by force
    then show ?case using Suc assms(4) [OF nap] by (simp add: family_known.simps [of nap "Suc n"] bindS_def)
  qed
  ultimately show ?thesis using w3 by auto
qed


text \<open>A name that was set is the one that is shown, and an empty one shows none.\<close>

lemma lock_name_roundtrip:
  assumes "set_lock_user_name d user_id name names = (True, names')"
  shows "lock_user_name names' d (VStr user_id) None = non_empty (Some name)"
  using assms
  by (auto simp: set_lock_user_name_def lock_user_name_def first_some_def non_empty_def update_conv' split: if_splits)


end
