(* ===== verification/Redaction.thy ===== *)
theory Redaction
  imports Json
begin

text \<open>
  \<^verbatim>\<open>redact.py\<close> and the rows of \<^verbatim>\<open>diagnostics.py\<close> that go through it: copies of packets and states that are fit
  for logs and for diagnostics files.

  \<open>rd_digest\<close> is \<^verbatim>\<open>hashlib.sha256(...).hexdigest()\<close>, \<open>rd_repr\<close> the text of floats and containers (see \<open>py_str\<close>),
  \<open>rd_fold\<close> what the Unicode tables say of a code point outside ASCII: the alphanumeric characters of its case
  folding, in UTF-8. The keys of a dictionary are texts, as they are in decoded JSON.
\<close>

section \<open>Keys\<close>

record redaction_env =
  rd_salt :: string
  rd_digest :: "string \<Rightarrow> string"
  rd_repr :: "pyval \<Rightarrow> string"
  rd_fold :: "nat \<Rightarrow> string"

definition REDACTED :: string where "REDACTED = ''<redacted>''"
definition MAX_DEPTH :: nat where "MAX_DEPTH = 6"
definition MAX_ITEMS :: nat where "MAX_ITEMS = 50"

definition SECRET_KEYS :: "string list" where
  "SECRET_KEYS =
     [''accesstoken'', ''authorization'', ''dynamickey'', ''key'', ''password'', ''passwordmd5'', ''phonetoken'',
      ''phonenumber'', ''secret'', ''sessionid'', ''sessionkey'', ''token'', ''tokensecret'']"

definition IDENTIFIER_KEYS :: "string list" where
  "IDENTIFIER_KEYS =
     [''account'', ''deviceid'', ''email'', ''extaddr'', ''familyid'', ''identifier'', ''mac'', ''parentuid'', ''phone'',
      ''uid'', ''userid'', ''username'']"

text \<open>The code points of a text, a lone surrogate (three bytes from 0xED on) being one of them.\<close>

function code_points :: "string \<Rightarrow> nat list" where
  "code_points s =
     (if s = [] then []
      else case utf8_first s of
        Some (u, n) \<Rightarrow> u # code_points (drop (max 1 n) s)
      | None \<Rightarrow>
          (case (byte (hd s) = 237, length s \<ge> 3, continuations (take 2 (tl s))) of
             (True, True, Some k) \<Rightarrow> (53248 + k) # code_points (drop 3 s)
           | _ \<Rightarrow> byte (hd s) # code_points (tl s)))"
  by pat_completeness auto
termination
  by (relation "measure length") auto

declare code_points.simps [simp del]

definition is_letter :: "nat \<Rightarrow> bool" where
  "is_letter u \<longleftrightarrow> (65 \<le> u \<and> u \<le> 90) \<or> (97 \<le> u \<and> u \<le> 122)"

definition is_alnum :: "nat \<Rightarrow> bool" where
  "is_alnum u \<longleftrightarrow> is_letter u \<or> (48 \<le> u \<and> u \<le> 57)"

definition fold_point :: "(nat \<Rightarrow> string) \<Rightarrow> nat \<Rightarrow> string" where
  "fold_point wide u = (if 128 \<le> u then wide u else if is_alnum u then [lower_char (char_of u)] else [])"

definition normalized_key :: "redaction_env \<Rightarrow> string \<Rightarrow> string" where
  "normalized_key env key = concat (map (fold_point (rd_fold env)) (code_points key))"

text \<open>\<^verbatim>\<open>encode("utf-8", errors="replace")\<close>: a lone surrogate becomes a question mark.\<close>

definition encode_replace :: "string \<Rightarrow> string" where
  "encode_replace s = concat (map (\<lambda>u. if 55296 \<le> u \<and> u < 57344 then ''?'' else utf8_encode u) (code_points s))"

definition fingerprint :: "redaction_env \<Rightarrow> pyval \<Rightarrow> string" where
  "fingerprint env v =
     ''<id:'' @ take 12 (rd_digest env (rd_salt env @ encode_replace (py_str (rd_repr env) v))) @ ''>''"

definition safe_field_name :: "string \<Rightarrow> bool" where
  "safe_field_name s \<longleftrightarrow>
     s \<noteq> [] \<and> length s \<le> 64 \<and> is_letter (byte (hd s)) \<and> list_all (\<lambda>c. is_alnum (byte c) \<or> c = CHR ''_'') (tl s)"

definition hex_identifier :: "string \<Rightarrow> bool" where
  "hex_identifier s \<longleftrightarrow> 12 \<le> length s \<and> length s \<le> 64 \<and> list_all (\<lambda>c. hex_val c \<noteq> None) s"

definition redacted_key :: "redaction_env \<Rightarrow> string \<Rightarrow> string" where
  "redacted_key env key = (if safe_field_name key \<and> \<not> hex_identifier key then key else fingerprint env (VStr key))"

section \<open>Values\<close>

function redact_packet :: "redaction_env \<Rightarrow> bool \<Rightarrow> string \<Rightarrow> nat \<Rightarrow> pyval \<Rightarrow> pyval" where
  "redact_packet env strict key depth v =
     (if normalized_key env key \<in> set SECRET_KEYS then VStr REDACTED
      else if normalized_key env key \<in> set IDENTIFIER_KEYS \<and> v \<noteq> VNone then VStr (fingerprint env v)
      else if MAX_DEPTH \<le> depth then VStr ''<max-depth>''
      else case v of
        VDict entries \<Rightarrow>
          (let result = dict_merge [] (map (\<lambda>(k, child).
                 (redacted_key env k, redact_packet env strict k (Suc depth) child)) (take MAX_ITEMS entries))
           in VDict (if MAX_ITEMS < length entries
                then AList.update ''<truncated>'' (VInt (int (length entries - MAX_ITEMS))) result else result))
      | VList items \<Rightarrow>
          (let result = map (redact_packet env strict key (Suc depth)) (take MAX_ITEMS items)
           in VList (if MAX_ITEMS < length items
                then result @ [VStr (''<truncated:'' @ dec (int (length items - MAX_ITEMS)) @ ''>'')] else result))
      | VStr s \<Rightarrow> if strict then VStr (''<string:length='' @ dec (int (length (code_points s))) @ ''>'') else v
      | _ \<Rightarrow> v)"
  by pat_completeness auto
termination
  by (relation "measure (\<lambda>(env, strict, key, depth, v). MAX_DEPTH - depth)") auto

declare redact_packet.simps [simp del]

text \<open>\<^verbatim>\<open>_redact_device_rows\<close>: one wrapper per device, so that no home is cut off after 50 devices.\<close>

definition redact_device_rows :: "redaction_env \<Rightarrow> dict \<Rightarrow> dict" where
  "redact_device_rows env rows =
     foldl (\<lambda>result (device_id, row).
       case redact_packet env False [] 0 (VDict [(device_id, row)]) of VDict d \<Rightarrow> dict_merge result d | _ \<Rightarrow> result) [] rows"

text \<open>The last 50 entries of the log of pushes; \<open>ago\<close> is the text of the age, rounded to a tenth of a second.\<close>

record push_entry =
  pe_ago :: pyval
  pe_device :: string
  pe_raw :: dict

definition recent_pushes :: "redaction_env \<Rightarrow> push_entry list \<Rightarrow> pyval list" where
  "recent_pushes env entries =
     map (\<lambda>e. VDict [(''ago_s'', pe_ago e), (''device_id'', VStr (pe_device e)),
         (''raw'', redact_packet env False [] 0 (VDict (pe_raw e)))])
       (drop (length entries - 50) entries)"

section \<open>Properties\<close>

text \<open>
  Two values that tell apart no more than a redacted copy may: what is under a secret key is arbitrary, what is
  under a key of an identifier has the same fingerprint, and, for logs, a text has the same length.
\<close>

inductive indistinct :: "redaction_env \<Rightarrow> bool \<Rightarrow> string \<Rightarrow> pyval \<Rightarrow> pyval \<Rightarrow> bool" for env strict where
  same_value: "indistinct env strict key v v"
| under_secret: "normalized_key env key \<in> set SECRET_KEYS \<Longrightarrow> indistinct env strict key v w"
| same_print: "normalized_key env key \<in> set IDENTIFIER_KEYS \<Longrightarrow> v \<noteq> VNone \<Longrightarrow> w \<noteq> VNone
    \<Longrightarrow> fingerprint env v = fingerprint env w \<Longrightarrow> indistinct env strict key v w"
| same_length: "strict \<Longrightarrow> normalized_key env key \<notin> set IDENTIFIER_KEYS \<Longrightarrow> length (code_points s) = length (code_points t)
    \<Longrightarrow> indistinct env strict key (VStr s) (VStr t)"
| in_list: "normalized_key env key \<notin> set IDENTIFIER_KEYS \<Longrightarrow> length xs = length ys
    \<Longrightarrow> (\<And>i. i < length xs \<Longrightarrow> indistinct env strict key (xs ! i) (ys ! i)) \<Longrightarrow> indistinct env strict key (VList xs) (VList ys)"
| in_dict: "normalized_key env key \<notin> set IDENTIFIER_KEYS \<Longrightarrow> map fst d = map fst e
    \<Longrightarrow> (\<And>i. i < length d \<Longrightarrow> indistinct env strict (fst (d ! i)) (snd (d ! i)) (snd (e ! i)))
    \<Longrightarrow> indistinct env strict key (VDict d) (VDict e)"

lemma map_take_nth_eq:
  assumes "length xs = length ys" "\<And>i. i < length xs \<Longrightarrow> f (xs ! i) = g (ys ! i)"
  shows "map f (take n xs) = map g (take n ys)"
  using assms by (intro nth_equalityI) auto

lemma foldl_all2:
  assumes "list_all2 R xs ys" "\<And>a x y. R x y \<Longrightarrow> f a x = f a y"
  shows "foldl f a xs = foldl f a ys"
  using assms(1) by (induction arbitrary: a rule: list_all2_induct) (simp_all add: assms(2))

lemma redact_indistinct:
  "indistinct env strict key v w \<Longrightarrow> redact_packet env strict key depth v = redact_packet env strict key depth w"
proof (induction arbitrary: depth rule: indistinct.induct)
  case (in_list key xs ys)
  then have "map (redact_packet env strict key (Suc depth)) (take MAX_ITEMS xs)
      = map (redact_packet env strict key (Suc depth)) (take MAX_ITEMS ys)"
    by (intro map_take_nth_eq) auto
  then show ?case using in_list.hyps(1,2) by (simp add: redact_packet.simps [of env strict key] cong: if_cong)
next
  case (in_dict key d e)
  have len: "length d = length e" using in_dict.hyps(2) by (metis length_map)
  have keys: "fst (d ! i) = fst (e ! i)" if "i < length d" for i
    using in_dict.hyps(2) that len by (metis nth_map)
  have "map (\<lambda>(k, child). (redacted_key env k, redact_packet env strict k (Suc depth) child)) (take MAX_ITEMS d)
      = map (\<lambda>(k, child). (redacted_key env k, redact_packet env strict k (Suc depth) child)) (take MAX_ITEMS e)"
    using len keys in_dict.IH by (intro map_take_nth_eq) (auto simp: case_prod_unfold)
  then show ?case using in_dict.hyps(1) len by (simp add: redact_packet.simps [of env strict key] cong: if_cong)
next
  case (same_print key v w)
  then show ?case
    by (simp add: redact_packet.simps [of env strict key _ v] redact_packet.simps [of env strict key _ w])
next
  case (under_secret key v w)
  then show ?case by (simp add: redact_packet.simps [of env strict key])
next
  case (same_length key s t)
  then show ?case by (simp add: redact_packet.simps [of env True key])
qed simp

text \<open>Two pushes, and two rows, that differ only below the keys of secrets and in identifiers of equal digests.\<close>

definition same_push :: "redaction_env \<Rightarrow> push_entry \<Rightarrow> push_entry \<Rightarrow> bool" where
  "same_push env p q \<longleftrightarrow> pe_ago p = pe_ago q \<and> pe_device p = pe_device q
     \<and> indistinct env False [] (VDict (pe_raw p)) (VDict (pe_raw q))"

definition same_row :: "redaction_env \<Rightarrow> string \<times> pyval \<Rightarrow> string \<times> pyval \<Rightarrow> bool" where
  "same_row env r r' \<longleftrightarrow> fst r = fst r' \<and> indistinct env False (fst r) (snd r) (snd r')"

lemma wrapper_indistinct:
  assumes "same_row env r r'"
  shows "indistinct env False [] (VDict [r]) (VDict [r'])"
proof -
  have "normalized_key env [] \<notin> set IDENTIFIER_KEYS"
    by (simp add: normalized_key_def code_points.simps [of "[]"] IDENTIFIER_KEYS_def)
  then show ?thesis using assms by (intro in_dict) (auto simp: same_row_def)
qed

lemma rows_indistinct:
  assumes "list_all2 (same_row env) rows rows'"
  shows "redact_device_rows env rows = redact_device_rows env rows'"
proof -
  define add where "add = (\<lambda>(result :: dict) (device_id, row).
    case redact_packet env False [] 0 (VDict [(device_id, row)]) of VDict d \<Rightarrow> dict_merge result d | _ \<Rightarrow> result)"
  have "add result r = add result r'" if "same_row env r r'" for result r r'
    using redact_indistinct [OF wrapper_indistinct [OF that], of 0] by (simp add: add_def case_prod_unfold)
  then have "foldl add [] rows = foldl add [] rows'" by (rule foldl_all2 [OF assms])
  then show ?thesis by (simp add: redact_device_rows_def add_def)
qed

text \<open>C13. Nothing sensitive gets into a diagnostics file: the rows of devices and states and the recent pushes come
  out the same, whatever the packets and states hold under the keys of secrets, at any depth, and whatever
  identifiers they hold, as long as the salted digests of these agree.\<close>

theorem diagnostics_hide_secrets:
  assumes "list_all2 (same_row env) rows rows'" "list_all2 (same_push env) pushes pushes'"
  shows "redact_device_rows env rows = redact_device_rows env rows' \<and> recent_pushes env pushes = recent_pushes env pushes'"
proof
  show "redact_device_rows env rows = redact_device_rows env rows'" by (rule rows_indistinct [OF assms(1)])
  have "list_all2 (same_push env) (drop (length pushes - 50) pushes) (drop (length pushes' - 50) pushes')"
    using assms(2) list_all2_lengthD [OF assms(2)] by (simp add: list_all2_dropI)
  then show "recent_pushes env pushes = recent_pushes env pushes'"
    unfolding recent_pushes_def
    by (induction rule: list_all2_induct) (auto simp: same_push_def intro: redact_indistinct)
qed

definition sample_redaction :: redaction_env where
  "sample_redaction = \<lparr>rd_salt = ''s'', rd_digest = (\<lambda>s. ''0123456789abcdef''), rd_repr = (\<lambda>_. []), rd_fold = (\<lambda>_. [])\<rparr>"

abbreviation sample_push :: "string \<Rightarrow> push_entry" where
  "sample_push secret_word \<equiv> \<lparr>pe_ago = VNone, pe_device = ''lock'',
     pe_raw = [(''cmd'', VInt 82), (''payload'', VDict [(''pass_word'', VStr secret_word)])]\<rparr>"

theorem diagnostics_hide_secrets_witness:
  "redact_device_rows sample_redaction [(''lock'', VDict [(''accessToken'', VStr ''one''), (''online'', VBool True)])]
     = redact_device_rows sample_redaction [(''lock'', VDict [(''accessToken'', VStr ''two''), (''online'', VBool True)])]
   \<and> recent_pushes sample_redaction [sample_push ''1234''] = recent_pushes sample_redaction [sample_push ''5678'']"
proof (rule diagnostics_hide_secrets)
  have secrets: "normalized_key sample_redaction ''accessToken'' \<in> set SECRET_KEYS"
    "normalized_key sample_redaction ''pass_word'' \<in> set SECRET_KEYS" by code_simp+
  have others: "normalized_key sample_redaction ''lock'' \<notin> set IDENTIFIER_KEYS"
    "normalized_key sample_redaction ''payload'' \<notin> set IDENTIFIER_KEYS"
    "normalized_key sample_redaction [] \<notin> set IDENTIFIER_KEYS" by code_simp+
  have split: "i = 0 \<or> i = 1" if "i < Suc (Suc 0)" for i using that by auto
  have token: "indistinct sample_redaction False ''accessToken'' (VStr ''one'') (VStr ''two'')"
    by (rule under_secret) (rule secrets)
  have "indistinct sample_redaction False ''lock'' (VDict [(''accessToken'', VStr ''one''), (''online'', VBool True)])
      (VDict [(''accessToken'', VStr ''two''), (''online'', VBool True)])"
    by (rule in_dict [OF others(1)]) (use token in \<open>auto dest!: split intro: same_value\<close>)
  then show "list_all2 (same_row sample_redaction) [(''lock'', VDict [(''accessToken'', VStr ''one''), (''online'', VBool True)])]
      [(''lock'', VDict [(''accessToken'', VStr ''two''), (''online'', VBool True)])]"
    by (simp add: same_row_def)
  have word: "indistinct sample_redaction False ''pass_word'' (VStr ''1234'') (VStr ''5678'')"
    by (rule under_secret) (rule secrets)
  have payload: "indistinct sample_redaction False ''payload'' (VDict [(''pass_word'', VStr ''1234'')])
      (VDict [(''pass_word'', VStr ''5678'')])"
    by (rule in_dict [OF others(2)]) (use word in auto)
  have "indistinct sample_redaction False [] (VDict (pe_raw (sample_push ''1234''))) (VDict (pe_raw (sample_push ''5678'')))"
    by (rule in_dict [OF others(3)]) (use payload in \<open>auto dest!: split intro: same_value\<close>)
  then show "list_all2 (same_push sample_redaction) [sample_push ''1234''] [sample_push ''5678'']"
    by (simp add: same_push_def)
qed

text \<open>The identifier of a device, which is hidden in the rows when it looks like one, is not in the list of pushes.\<close>

lemma pushes_name_devices:
  assumes "hex_identifier d"
  shows "fst ` set (redact_device_rows env [(d, row)]) = {fingerprint env (VStr d)}
    \<and> (\<exists>e. recent_pushes env [\<lparr>pe_ago = ago, pe_device = d, pe_raw = raw\<rparr>] = [VDict e] \<and> get e ''device_id'' = VStr d)"
proof -
  have "normalized_key env [] = []" by (simp add: normalized_key_def code_points.simps [of "[]"])
  then have "normalized_key env [] \<notin> set SECRET_KEYS" "normalized_key env [] \<notin> set IDENTIFIER_KEYS"
    by (simp_all add: SECRET_KEYS_def IDENTIFIER_KEYS_def)
  then show ?thesis using assms(1)
    by (simp add: redact_device_rows_def redact_packet.simps [of env False "[]"] redacted_key_def recent_pushes_def
        MAX_DEPTH_def MAX_ITEMS_def)
qed

end
