(* ===== verification/Opening_History.thy ===== *)
theory Opening_History
  imports Redaction "HOL-Library.Product_Lexorder" "HOL-Library.List_Lexorder" "HOL-Library.Char_ord"
begin

text \<open>
  \<^verbatim>\<open>history.py\<close>: the archive of a door lock, one folder per device with its pictures and videos and the list of
  its openings.

  A folder has its media files by name, with the time of modification and the content, and what the file
  \<^verbatim>\<open>opening_events.json\<close> holds: \<open>None\<close> if there is none or it is no JSON. The code replaces this file as a whole by
  a temporary one, so it holds the old value or the new one, and what \<^verbatim>\<open>json.dump\<close> writes \<^verbatim>\<open>json.loads\<close> reads back. Names of
  files are ASCII. Operations that fail on the disk are not modelled. \<open>digest\<close> is \<^verbatim>\<open>sha256(...).hexdigest()\<close>.
\<close>

section \<open>Folders and names\<close>

record folder =
  fo_files :: "(string, int \<times> string) pydict"
  fo_openings :: "pyval option"

type_synonym archive = "(string, folder) pydict"

definition empty_folder :: folder where
  "empty_folder = \<lparr>fo_files = [], fo_openings = None\<rparr>"

text \<open>\<^verbatim>\<open>re.sub\<close> of the characters that are not allowed; \<^verbatim>\<open>s[:n]\<close>\<close>

definition sub_points :: "(nat \<Rightarrow> bool) \<Rightarrow> string \<Rightarrow> string" where
  "sub_points keep s = map (\<lambda>u. if u < 128 \<and> keep u then char_of u else CHR ''_'') (code_points s)"

definition take_points :: "nat \<Rightarrow> string \<Rightarrow> string" where
  "take_points n s = concat (map utf8_encode (take n (code_points s)))"

definition device_name :: "string \<Rightarrow> string" where
  "device_name device_id =
     (let s = sub_points (\<lambda>u. is_alnum u \<or> u = 95 \<or> u = 45) device_id in if s = [] then ''device'' else s)"

definition is_word :: "char \<Rightarrow> bool" where
  "is_word c \<longleftrightarrow> is_alnum (byte c) \<or> c = CHR ''_''"

text \<open>The pattern of the names: kind, time, an optional identity of the object, extension.\<close>

record media_name =
  mn_kind :: string
  mn_time :: string
  mn_ext :: string

definition identity_ok :: "string option \<Rightarrow> bool" where
  "identity_ok identity = (case identity of None \<Rightarrow> True
     | Some i \<Rightarrow> length i = 16 \<and> list_all (\<lambda>c. is_digit c \<or> 97 \<le> byte c \<and> byte c \<le> 102) i)"

definition parse_name :: "string \<Rightarrow> media_name option" where
  "parse_name name =
     (case split_at (\<lambda>c. c = CHR ''.'') name of
        (stem, Some ext) \<Rightarrow>
          (case split_at (\<lambda>c. c = CHR ''-'') stem of
             (base, identity) \<Rightarrow>
               let digits = rev (takeWhile is_digit (rev base)); kind = rev (dropWhile is_digit (rev base))
               in if ext \<noteq> [] \<and> list_all is_word ext \<and> identity_ok identity \<and> digits \<noteq> [] \<and> 2 \<le> length kind
                     \<and> List.last kind = CHR ''_'' \<and> list_all is_word kind
                  then Some \<lparr>mn_kind = butlast kind, mn_time = digits, mn_ext = ext\<rparr> else None)
      | _ \<Rightarrow> None)"

definition time_of :: "media_name \<Rightarrow> nat" where
  "time_of m = foldl (\<lambda>n c. 10 * n + (byte c - 48)) 0 (mn_time m)"

definition is_picture :: "string \<Rightarrow> bool" where
  "is_picture name = (case parse_name name of None \<Rightarrow> False | Some m \<Rightarrow> py_lower (mn_ext m) = ''jpg'')"

text \<open>\<^verbatim>\<open>_entries\<close>: the media files, the newest first.\<close>

definition entry_of :: "string \<times> int \<times> string \<Rightarrow> (nat \<times> int \<times> string) option" where
  "entry_of f = (case f of (name, modified, content) \<Rightarrow>
     map_option (\<lambda>m. (time_of m, modified, name)) (parse_name name))"

definition folder_entries :: "folder \<Rightarrow> (nat \<times> string) list" where
  "folder_entries fo =
     map (\<lambda>(t, modified, name). (t, name)) (rev (sort (List.map_filter entry_of (fo_files fo))))"

definition remove_files :: "string list \<Rightarrow> folder \<Rightarrow> folder" where
  "remove_files names fo = fo\<lparr>fo_files := filter (\<lambda>f. fst f \<notin> set names) (fo_files fo)\<rparr>"

section \<open>Openings\<close>

definition at_least_one :: "int \<Rightarrow> nat" where
  "at_least_one limit = nat (max 1 limit)"

definition opening_id_ok :: "string \<Rightarrow> bool" where
  "opening_id_ok s \<longleftrightarrow> s \<noteq> [] \<and> length s \<le> 64 \<and> list_all (\<lambda>c. is_word c \<or> c = CHR ''-'') s"

definition direction_of :: "pyval \<Rightarrow> string" where
  "direction_of v = (if v \<in> {VStr ''inside'', VStr ''outside''} then (case v of VStr s \<Rightarrow> s | _ \<Rightarrow> []) else ''unknown'')"

definition UNLOCK_KEYS :: "string list" where
  "UNLOCK_KEYS = [''unlock_method'', ''unlock_user_id'', ''unlock_user_name'']"

definition opening_fields :: "string \<Rightarrow> int \<Rightarrow> string \<Rightarrow> dict" where
  "opening_fields i t direction = [(''id'', VStr i), (''time'', VInt t), (''open_direction'', VStr direction)]"

definition short_text :: "(pyval \<Rightarrow> string) \<Rightarrow> pyval \<Rightarrow> pyval" where
  "short_text repr v = VStr (take_points 64 (py_str repr v))"

fun valid_record :: "(pyval \<Rightarrow> string) \<Rightarrow> pyval \<Rightarrow> dict option" where
  "valid_record repr (VDict item) =
     (case (get item ''id'', get item ''time'') of
        (VStr i, VInt t) \<Rightarrow>
          if \<not> opening_id_ok i \<or> t < 0 then None
          else
            let direction = get item ''open_direction''
            in Some (opening_fields i t (direction_of direction)
                 @ (if direction = VStr ''outside''
                    then map (\<lambda>k. (k, short_text repr (get item k)))
                      (filter (\<lambda>k. is_str (get item k) \<or> is_int (get item k)) UNLOCK_KEYS)
                    else []))
      | _ \<Rightarrow> None)"
| "valid_record repr _ = None"

definition record_time :: "dict \<Rightarrow> int" where
  "record_time r = (case get r ''time'' of VInt t \<Rightarrow> t | _ \<Rightarrow> 0)"

definition newest_first :: "dict list \<Rightarrow> dict list" where
  "newest_first rs = sort_key (\<lambda>r. - record_time r) rs"

definition read_opening_records :: "(pyval \<Rightarrow> string) \<Rightarrow> folder \<Rightarrow> dict list" where
  "read_opening_records repr fo =
     (case fo_openings fo of Some (VList items) \<Rightarrow> newest_first (List.map_filter (valid_record repr) items) | _ \<Rightarrow> [])"

text \<open>The record of an event, if it has one. The name is looked up under two keys, as the method and the user are.\<close>

definition opening_record :: "(pyval \<Rightarrow> string) \<Rightarrow> dict \<Rightarrow> dict option" where
  "opening_record repr event =
     (let i = py_str repr (py_or (get event ''opening_id'') (VStr []))
      in if \<not> opening_id_ok i then None
         else case py_int (get event ''time'') of
           Inl e \<Rightarrow> None
         | Inr t \<Rightarrow>
             if t < 0 then None
             else
               let direction = direction_of (get event ''open_direction'');
                   unlock_method = get event ''unlock_method'';
                   unlock_user = dget event ''opened_by_user_id'' (get event ''unlock_user_id'');
                   name = py_or (get event ''opened_by_name'') (get event ''unlock_user_name'')
               in Some (opening_fields i t direction
                    @ (if direction \<noteq> ''outside'' then []
                       else (if unlock_method = VNone then [] else [(''unlock_method'', short_text repr unlock_method)])
                         @ (if unlock_user = VNone then [] else [(''unlock_user_id'', short_text repr unlock_user)])
                         @ (if truthy name then [(''unlock_user_name'', short_text repr name)] else []))))"

text \<open>Writing a text with a lone surrogate fails, and the file stays.\<close>

definition writable :: "dict \<Rightarrow> bool" where
  "writable r \<longleftrightarrow> list_all (\<lambda>(k, v). case v of VStr s \<Rightarrow> utf8_decode s \<noteq> None | _ \<Rightarrow> True) r"

definition write_records :: "dict list \<Rightarrow> folder \<Rightarrow> unit py \<times> folder" where
  "write_records rs fo =
     (if list_all writable rs then (Inr (), fo\<lparr>fo_openings := Some (VList (map VDict rs))\<rparr>) else (Inl ValueError, fo))"

definition save_opening_event :: "(pyval \<Rightarrow> string) \<Rightarrow> dict \<Rightarrow> int \<Rightarrow> folder \<Rightarrow> unit py \<times> folder" where
  "save_opening_event repr event limit fo =
     (case opening_record repr event of
        None \<Rightarrow> (Inr (), fo)
      | Some r \<Rightarrow>
          let others = filter (\<lambda>x. get x ''id'' \<noteq> get r ''id'') (read_opening_records repr fo)
          in write_records (take (at_least_one limit) (newest_first (others @ [r]))) fo)"

definition folder_of :: "string \<Rightarrow> archive \<Rightarrow> folder" where
  "folder_of device_id a = (case map_of a (device_name device_id) of None \<Rightarrow> empty_folder | Some fo \<Rightarrow> fo)"

text \<open>\<^verbatim>\<open>LockMediaManager._save_opening\<close>: the folder is made first.\<close>

definition save_opening :: "(pyval \<Rightarrow> string) \<Rightarrow> string \<Rightarrow> dict \<Rightarrow> archive \<Rightarrow> unit py \<times> archive" where
  "save_opening repr device_id event a =
     (case save_opening_event repr event 500 (folder_of device_id a) of
        (r, fo) \<Rightarrow> (r, AList.update (device_name device_id) fo a))"

definition list_opening_events :: "(pyval \<Rightarrow> string) \<Rightarrow> string \<Rightarrow> int \<Rightarrow> archive \<Rightarrow> dict list" where
  "list_opening_events repr device_id limit a = take (at_least_one limit) (read_opening_records repr (folder_of device_id a))"

section \<open>Pictures\<close>

definition snapshot_name :: "(string \<Rightarrow> string) \<Rightarrow> string \<Rightarrow> pyval \<Rightarrow> string \<Rightarrow> string py" where
  "snapshot_name digest kind ts object_key =
     bindE (py_int ts) (\<lambda>t.
       if t < 0 then Inl ValueError
       else
         let k = sub_points (\<lambda>u. is_alnum u \<or> u = 95) kind;
             identity = (if object_key = [] then []
               else CHR ''-'' # take 16 (digest (dropWhile (\<lambda>c. c = CHR ''/'') object_key)))
         in Inr ((if k = [] then ''event'' else k) @ CHR ''_'' # dec t @ identity @ ''.jpg''))"

definition save_snapshot ::
  "(string \<Rightarrow> string) \<Rightarrow> int \<Rightarrow> string \<Rightarrow> pyval \<Rightarrow> string \<Rightarrow> string \<Rightarrow> folder \<Rightarrow> string py \<times> folder" where
  "save_snapshot digest now kind ts picture object_key fo =
     (case snapshot_name digest kind ts object_key of
        Inl e \<Rightarrow> (Inl e, fo)
      | Inr name \<Rightarrow>
          (case map_of (fo_files fo) name of
             Some (modified, content) \<Rightarrow>
               if content \<noteq> [] then (Inr name, fo)
               else (Inr name, fo\<lparr>fo_files := AList.update name (now, picture) (fo_files fo)\<rparr>)
           | None \<Rightarrow> (Inr name, fo\<lparr>fo_files := AList.update name (now, picture) (fo_files fo)\<rparr>)))"

definition pictures :: "folder \<Rightarrow> string list" where
  "pictures fo = filter is_picture (map snd (folder_entries fo))"

definition trim_snapshots :: "int \<Rightarrow> folder \<Rightarrow> nat \<times> folder" where
  "trim_snapshots limit fo =
     (let old = drop (at_least_one limit) (pictures fo) in (length old, remove_files old fo))"

definition latest_snapshot :: "string \<Rightarrow> archive \<Rightarrow> (nat \<times> string) option" where
  "latest_snapshot device_id a =
     (let fo = folder_of device_id a
      in case filter (\<lambda>(t, name). is_picture name \<and> snd (the (map_of (fo_files fo) name)) \<noteq> []) (folder_entries fo) of
           [] \<Rightarrow> None | (t, name) # _ \<Rightarrow> Some (t, snd (the (map_of (fo_files fo) name))))"

section \<open>Listing and retention\<close>

record history_entry =
  he_device :: string
  he_media :: media_name
  he_is_video :: bool
  he_file :: string

definition is_video :: "media_name \<Rightarrow> bool" where
  "is_video m \<longleftrightarrow> py_lower (mn_ext m) \<in> {''mp4'', ''h264''}"

definition folder_history :: "string \<Rightarrow> folder \<Rightarrow> bool option \<Rightarrow> history_entry list" where
  "folder_history device fo wanted =
     List.map_filter (\<lambda>name. case parse_name name of
         None \<Rightarrow> None
       | Some m \<Rightarrow> if wanted \<in> {None, Some (is_video m)}
           then Some \<lparr>he_device = device, he_media = m, he_is_video = is_video m, he_file = name\<rparr> else None)
       (rev (sort (map fst (fo_files fo))))"

text \<open>No device (an empty text) stands for all.\<close>

definition list_history :: "string \<Rightarrow> int \<Rightarrow> bool option \<Rightarrow> archive \<Rightarrow> history_entry list" where
  "list_history device_id limit wanted a =
     (let devices = (if device_id \<noteq> [] then [device_name device_id] else rev (sort (map fst a)));
          es = concat (map (\<lambda>d. case map_of a d of None \<Rightarrow> [] | Some fo \<Rightarrow> folder_history d fo wanted) devices)
      in take (at_least_one limit) (sort_key (\<lambda>e. - int (time_of (he_media e))) es))"

text \<open>The openings of a folder: \<^verbatim>\<open>None\<close> is no list, which stays. A bool counts as an int.\<close>

fun kept_opening :: "rat \<Rightarrow> pyval \<Rightarrow> bool" where
  "kept_opening cutoff (VDict item) = (case py_int (get item ''time'') of
     Inr t \<Rightarrow> is_int (get item ''time'') \<and> cutoff \<le> of_int t | Inl _ \<Rightarrow> False)"
| "kept_opening cutoff _ = False"

fun opening_time :: "pyval \<Rightarrow> int" where
  "opening_time (VDict item) = (case py_int (get item ''time'') of Inr t \<Rightarrow> t | Inl _ \<Rightarrow> 0)"
| "opening_time _ = 0"

definition limited :: "nat option \<Rightarrow> 'a list \<Rightarrow> 'a list" where
  "limited limit xs = (case limit of None \<Rightarrow> xs | Some n \<Rightarrow> if n = 0 then xs else take n xs)"

definition clean_openings :: "rat \<Rightarrow> nat option \<Rightarrow> folder \<Rightarrow> nat \<times> folder" where
  "clean_openings cutoff max_entries fo =
     (case fo_openings fo of
        Some (VList items) \<Rightarrow>
          let retained = limited max_entries (sort_key (\<lambda>v. - opening_time v) (filter (kept_opening cutoff) items))
          in if length retained = length items then (0, fo)
             else (length items - length retained,
               fo\<lparr>fo_openings := if retained = [] then None else Some (VList retained)\<rparr>)
      | _ \<Rightarrow> (0, fo))"

definition clean_folder :: "rat \<Rightarrow> nat option \<Rightarrow> int option \<Rightarrow> folder \<Rightarrow> nat \<times> folder" where
  "clean_folder cutoff max_entries snapshot_limit fo =
     (let (n1, fo) = clean_openings cutoff max_entries fo;
          (n2, fo) = (case snapshot_limit of None \<Rightarrow> (0, fo) | Some limit \<Rightarrow> trim_snapshots limit fo);
          protected = (case snapshot_limit of None \<Rightarrow> [] | Some limit \<Rightarrow> take (at_least_one limit) (pictures fo));
          old = map snd (filter (\<lambda>(t, name). of_nat t < cutoff \<and> name \<notin> set protected) (folder_entries fo));
          rest = filter (\<lambda>(t, name). name \<notin> set old) (folder_entries fo);
          fo = remove_files old fo;
          surplus = (case max_entries of None \<Rightarrow> [] | Some n \<Rightarrow> if n = 0 then [] else map snd (drop n rest))
      in (n1 + n2 + length old + length surplus, remove_files surplus fo))"

text \<open>\<open>now\<close> is \<^verbatim>\<open>time.time()\<close>. A folder that is empty is removed.\<close>

definition cleanup :: "rat \<Rightarrow> int \<Rightarrow> string \<Rightarrow> nat option \<Rightarrow> int option \<Rightarrow> archive \<Rightarrow> nat \<times> archive" where
  "cleanup now keep_days device_id max_entries snapshot_limit a =
     (let cutoff = now - of_int (max 0 keep_days * 86400);
          devices = (if device_id \<noteq> [] then [device_name device_id] else map fst a)
      in foldl (\<lambda>(n, a) d. case map_of a d of
             None \<Rightarrow> (n, a)
           | Some fo \<Rightarrow>
               (case clean_folder cutoff max_entries snapshot_limit fo of (k, fo) \<Rightarrow>
                  (n + k, if fo_files fo = [] \<and> fo_openings fo = None then AList.delete d a else AList.update d fo a)))
           (0, a) devices)"


section \<open>Code points of what was encoded\<close>

lemma continuation_char [simp]: "a < 64 \<Longrightarrow> continuation (char_of (128 + a :: nat)) = Some a"
  by (simp add: continuation_def)

lemma split_64: "64 * (u div 64) + u mod 64 = (u :: nat)"
  by simp

lemma split_4096: "4096 * (u div 4096) + (64 * (u div 64 mod 64) + u mod 64) = (u :: nat)"
proof -
  have "64 * (u div 64 div 64) + u div 64 mod 64 = u div 64" "u div 4096 = u div 64 div 64"
    using div_mult2_eq [of u 64 64] by simp_all
  then show ?thesis using split_64 [of u] by linarith
qed

lemma split_262144: "262144 * (u div 262144) + (64 * (64 * (u div 4096 mod 64) + u div 64 mod 64) + u mod 64) = (u :: nat)"
proof -
  have "64 * (u div 4096 div 64) + u div 4096 mod 64 = u div 4096" "u div 262144 = u div 4096 div 64"
    using div_mult2_eq [of u 4096 64] by simp_all
  moreover have "262144 * x + (64 * (64 * y + z) + w) = u"
    if "64 * x + y = v" "4096 * v + (64 * z + w) = u" for x y z w v :: nat
    using that by auto
  ultimately show ?thesis using split_4096 [of u] by metis
qed

lemma code_points_encode: "u < 1114112 \<Longrightarrow> code_points (utf8_encode u @ r) = u # code_points r"
proof -
  assume u: "u < 1114112"
  consider "u < 128" | "128 \<le> u" "u < 2048" | "2048 \<le> u" "u < 65536" | "65536 \<le> u" by linarith
  then show ?thesis
  proof cases
    case 1
    then show ?thesis by (simp add: utf8_encode_def chars_def code_points.simps [of "char_of u # r"] utf8_first_def)
  next
    case 2
    then have "u div 64 < 32" "2 \<le> u div 64" by auto
    with 2 show ?thesis
      by (simp add: utf8_encode_def chars_def code_points.simps [of "char_of (192 + u div 64) # q" for q] utf8_first_def split_64)
  next
    case 3
    then have d: "u div 4096 < 16" by auto
    show ?thesis
    proof (cases "55296 \<le> u \<and> u < 57344")
      case True
      then have "u div 4096 = 13" by auto
      then show ?thesis using True split_4096 [of u]
        by (simp add: utf8_encode_def chars_def code_points.simps [of "char_of 237 # q" for q] utf8_first_def)
    next
      case False
      then show ?thesis using 3 d split_4096 [of u]
        by (auto simp add: utf8_encode_def chars_def code_points.simps [of "char_of (224 + u div 4096) # q" for q] utf8_first_def Let_def)
    qed
  next
    case 4
    then have "u div 262144 < 5" using u by auto
    then show ?thesis using 4 u split_262144 [of u]
      by (simp add: utf8_encode_def chars_def code_points.simps [of "char_of (240 + u div 262144) # q" for q] utf8_first_def Let_def)
  qed
qed

lemma code_points_concat: "list_all (\<lambda>u. u < 1114112) us \<Longrightarrow> code_points (concat (map utf8_encode us)) = us"
  by (induction us) (simp_all add: code_points_encode code_points.simps [of "[]"])

lemma continuations_range: "continuations (take 2 t) = Some k \<Longrightarrow> 2 \<le> length t \<Longrightarrow> k < 4096"
  by (cases t; cases "tl t") (auto dest!: continuation_SomeD split: option.splits)

lemma code_points_range: "list_all (\<lambda>u. u < 1114112) (code_points s)"
proof (induction s rule: length_induct)
  case (1 s)
  show ?case
  proof (cases "s = []")
    case True
    then show ?thesis by (simp add: code_points.simps [of "[]"])
  next
    case False
    then have rest: "list_all (\<lambda>u. u < 1114112) (code_points (drop (Suc n) s))" for n using 1 by simp
    show ?thesis
    proof (cases "utf8_first s")
      case (Some un)
      obtain u n where un: "un = (u, n)" by (cases un)
      with utf8_first_encode [of s u n] Some False have "u < 1114112" "max 1 n = Suc (n - 1)" by (auto simp: scalar_value_def)
      then show ?thesis using rest [of "n - 1"] False Some un by (simp add: code_points.simps [of s])
    next
      case None
      have "byte (hd s) < 1114112" by (rule order_less_trans [OF byte_less]) simp
      moreover have "53248 + k < 1114112" if "continuations (take 2 (tl s)) = Some k" "3 \<le> length s" for k
        using continuations_range [OF that(1)] that(2) by (simp add: le_diff_conv2)
      ultimately show ?thesis using None False rest [of 0] rest [of 2]
        by (auto simp: code_points.simps [of s] numeral_3_eq_3 drop_Suc split: option.splits bool.splits)
    qed
  qed
qed

lemma take_points_take [simp]: "take_points n (take_points n s) = take_points n s"
proof -
  have "list_all (\<lambda>u. u < 1114112) (take n (code_points s))"
    using code_points_range [of s] by (auto simp: list_all_iff dest: in_set_takeD)
  then show ?thesis by (simp add: take_points_def code_points_concat)
qed

lemma short_text_again [simp]: "short_text repr (short_text repr v) = short_text repr v"
  by (simp add: short_text_def)

lemma short_text_str [simp]: "is_str (short_text repr v)"
  by (simp add: short_text_def)

section \<open>Records that were written\<close>

lemma direction_of_again [simp]: "direction_of (VStr (direction_of v)) = direction_of v"
  by (auto simp: direction_of_def)

lemma direction_outside: "(direction_of v = ''outside'') = (v = VStr ''outside'')"
  by (auto simp: direction_of_def split: pyval.splits)

lemma get_selected: "get (map (\<lambda>k. (k, f k)) (filter P ks)) k = (if k \<in> set ks \<and> P k then f k else VNone)"
  by (induction ks) auto

lemma written_record:
  assumes "opening_id_ok i" "0 \<le> t" "direction_of (VStr d) = d" "\<And>k. P k \<Longrightarrow> d = ''outside''"
    and "\<And>k. short_text repr (f k) = f k" "\<And>k. is_str (f k)"
  shows "valid_record repr (VDict (opening_fields i t d @ map (\<lambda>k. (k, f k)) (filter P UNLOCK_KEYS)))
    = Some (opening_fields i t d @ map (\<lambda>k. (k, f k)) (filter P UNLOCK_KEYS))"
proof -
  define r where "r = opening_fields i t d @ map (\<lambda>k. (k, f k)) (filter P UNLOCK_KEYS)"
  have base: "get r ''id'' = VStr i" "get r ''time'' = VInt t" "get r ''open_direction'' = VStr d"
    by (simp_all add: r_def opening_fields_def)
  have rest: "get r k = (if P k then f k else VNone)" if "k \<in> set UNLOCK_KEYS" for k
    using that by (auto simp: r_def get_append get_selected opening_fields_def UNLOCK_KEYS_def)
  have "filter (\<lambda>k. is_str (get r k) \<or> is_int (get r k)) UNLOCK_KEYS = filter P UNLOCK_KEYS"
    using rest assms(6) by (intro filter_cong) auto
  moreover have "map (\<lambda>k. (k, short_text repr (get r k))) (filter P UNLOCK_KEYS) = map (\<lambda>k. (k, f k)) (filter P UNLOCK_KEYS)"
    using rest assms(5) by simp
  moreover have "filter P UNLOCK_KEYS = []" if "d \<noteq> ''outside''" using that assms(4) by (auto simp: filter_empty_conv)
  ultimately have "valid_record repr (VDict r) = Some r"
    using assms(1-3) base by (auto simp: Let_def r_def)
  then show ?thesis by (simp add: r_def)
qed

lemma valid_record_again: "valid_record repr v = Some r \<Longrightarrow> valid_record repr (VDict r) = Some r"
proof -
  assume v: "valid_record repr v = Some r"
  then obtain item i t where item: "v = VDict item" "get item ''id'' = VStr i" "get item ''time'' = VInt t" "opening_id_ok i" "0 \<le> t"
    by (cases v) (auto split: pyval.splits if_splits)
  define d where "d = direction_of (get item ''open_direction'')"
  have r: "r = opening_fields i t d @ map (\<lambda>k. (k, short_text repr (get item k)))
      (filter (\<lambda>k. d = ''outside'' \<and> (is_str (get item k) \<or> is_int (get item k))) UNLOCK_KEYS)"
    using v item by (auto simp: Let_def d_def direction_outside)
  have "direction_of (VStr d) = d" by (simp add: d_def)
  then show ?thesis unfolding r by (intro written_record) (use item(4,5) in auto)
qed

lemma opening_record_valid: "opening_record repr event = Some r \<Longrightarrow> valid_record repr (VDict r) = Some r"
proof -
  assume r: "opening_record repr event = Some r"
  let ?i = "py_str repr (py_or (get event ''opening_id'') (VStr []))"
  obtain t where t: "opening_id_ok ?i" "py_int (get event ''time'') = Inr t" "0 \<le> t"
    using r by (auto simp: opening_record_def Let_def split: sum.splits if_splits)
  define d where "d = direction_of (get event ''open_direction'')"
  define found where "found = (\<lambda>k. if k = ''unlock_method'' then get event ''unlock_method''
    else if k = ''unlock_user_id'' then dget event ''opened_by_user_id'' (get event ''unlock_user_id'')
    else py_or (get event ''opened_by_name'') (get event ''unlock_user_name''))"
  define P where "P = (\<lambda>k. d = ''outside'' \<and> (if k = ''unlock_user_name'' then truthy (found k) else found k \<noteq> VNone))"
  have fields: "r = opening_fields ?i t d @ map (\<lambda>k. (k, short_text repr (found k))) (filter P UNLOCK_KEYS)"
    using r t by (auto simp: opening_record_def Let_def d_def [symmetric] P_def found_def UNLOCK_KEYS_def split: if_splits)
  have "direction_of (VStr d) = d" by (simp add: d_def)
  then show ?thesis unfolding fields by (intro written_record) (use t(1,3) in \<open>auto simp: P_def\<close>)
qed

lemma valid_record_id: "valid_record repr (VDict r) = Some r \<Longrightarrow> \<exists>i t. get r ''id'' = VStr i \<and> get r ''time'' = VInt t"
  by (auto split: pyval.splits if_splits)

lemma map_filter_again:
  "(\<And>r. r \<in> set rs \<Longrightarrow> valid_record repr (VDict r) = Some r) \<Longrightarrow> List.map_filter (valid_record repr) (map VDict rs) = rs"
  by (induction rs) (simp_all add: List.map_filter_simps del: valid_record.simps)

lemma set_newest_first [simp]: "set (newest_first rs) = set rs"
  by (simp add: newest_first_def)

lemma sorted_newest_first: "sorted_wrt (\<lambda>x y. record_time y \<le> record_time x) (newest_first rs)"
  using sorted_sort_key [of "\<lambda>r. - record_time r" rs] by (simp add: newest_first_def sorted_map)

lemma newest_first_sorted: "sorted_wrt (\<lambda>x y. record_time y \<le> record_time x) rs \<Longrightarrow> newest_first rs = rs"
  unfolding newest_first_def by (rule sort_key_id_if_sorted) (simp add: sorted_map)

lemma filter_newest_first: "filter P (newest_first rs) = newest_first (filter P rs)"
  by (simp add: newest_first_def filter_sort)

lemma read_valid: "r \<in> set (read_opening_records repr fo) \<Longrightarrow> valid_record repr (VDict r) = Some r"
  using valid_record_again
  by (auto simp: read_opening_records_def map_filter_def simp del: valid_record.simps split: option.splits pyval.splits)

lemma read_written:
  assumes "\<And>r. r \<in> set rs \<Longrightarrow> valid_record repr (VDict r) = Some r"
    and "sorted_wrt (\<lambda>x y. record_time y \<le> record_time x) rs"
  shows "read_opening_records repr (fo\<lparr>fo_openings := Some (VList (map VDict rs))\<rparr>) = rs"
  using map_filter_again [OF assms(1)] newest_first_sorted [OF assms(2)] by (simp add: read_opening_records_def)

lemma sorted_take: "sorted_wrt P xs \<Longrightarrow> sorted_wrt P (take n xs)"
  by (metis append_take_drop_id sorted_wrt_append)

text \<open>C23. What was saved is listed: when an opening has been saved, the list of its lock is the old one, as it was read, with
  the new record in place of all records of the same opening, the newest first and cut to 500; the lists of the locks
  with other folders are what they were.\<close>

theorem saved_opening_listed:
  assumes "save_opening repr d event a = (Inr (), a')" "opening_record repr event = Some r"
    and "others = filter (\<lambda>x. get x ''id'' \<noteq> get r ''id'') (read_opening_records repr (folder_of d a))"
  shows "list_opening_events repr d 500 a' = take 500 (newest_first (others @ [r]))
    \<and> filter (\<lambda>x. get x ''id'' = get r ''id'') (newest_first (others @ [r])) = [r]
    \<and> sorted_wrt (\<lambda>x y. record_time y \<le> record_time x) (list_opening_events repr d 500 a')
    \<and> (device_name e \<noteq> device_name d \<longrightarrow> list_opening_events repr e n a' = list_opening_events repr e n a)"
proof -
  define rs where "rs = take 500 (newest_first (others @ [r]))"
  have limit: "at_least_one 500 = 500" by (simp add: at_least_one_def)
  have saved: "save_opening repr d event a = (case write_records rs (folder_of d a) of (x, fo) \<Rightarrow> (x, AList.update (device_name d) fo a))"
    by (simp add: save_opening_def save_opening_event_def assms(2,3) rs_def limit)
  then have a': "a' = AList.update (device_name d) ((folder_of d a)\<lparr>fo_openings := Some (VList (map VDict rs))\<rparr>) a"
    using assms(1) by (auto simp: write_records_def split: if_splits)
  have sorted: "sorted_wrt (\<lambda>x y. record_time y \<le> record_time x) rs"
    unfolding rs_def by (intro sorted_take sorted_newest_first)
  have "valid_record repr (VDict x) = Some x" if "x \<in> set rs" for x
    using that read_valid opening_record_valid [OF assms(2)]
    by (auto simp: rs_def assms(3) simp del: valid_record.simps dest!: in_set_takeD)
  then have listed: "list_opening_events repr d 500 a' = rs"
    using read_written [OF _ sorted] by (simp add: a' list_opening_events_def folder_of_def limit rs_def del: valid_record.simps)
  have "filter (\<lambda>x. get x ''id'' = get r ''id'') others = []"
    by (auto simp: assms(3) filter_empty_conv)
  then have "filter (\<lambda>x. get x ''id'' = get r ''id'') (newest_first (others @ [r])) = [r]"
    by (simp add: filter_newest_first) (simp add: newest_first_def)
  moreover have "list_opening_events repr e n a' = list_opening_events repr e n a" if "device_name e \<noteq> device_name d"
    using that by (simp add: a' list_opening_events_def folder_of_def)
  ultimately show ?thesis using listed sorted by (simp add: rs_def)
qed

section \<open>What a clean-up leaves\<close>

lemma entries_removed:
  "folder_entries (remove_files names fo) = filter (\<lambda>e. snd e \<notin> set names) (folder_entries fo)"
proof -
  have "List.map_filter entry_of (filter (\<lambda>f. fst f \<notin> set names) fs)
      = filter (\<lambda>e. snd (snd e) \<notin> set names) (List.map_filter entry_of fs)" for fs
    by (induction fs) (auto simp: List.map_filter_simps entry_of_def split: option.splits prod.splits)
  then have kept: "List.map_filter entry_of (fo_files (remove_files names fo))
      = filter (\<lambda>e. snd (snd e) \<notin> set names) (List.map_filter entry_of (fo_files fo))" by (simp add: remove_files_def)
  have "filter (\<lambda>e. snd e \<notin> set names) (map (\<lambda>(t, modified, name). (t, name)) xs)
      = map (\<lambda>(t, modified, name). (t, name)) (filter (\<lambda>e. snd (snd e) \<notin> set names) xs)"
    for xs :: "(nat \<times> int \<times> string) list" by (induction xs) auto
  then have "filter (\<lambda>e. snd e \<notin> set names) (folder_entries fo)
      = map (\<lambda>(t, modified, name). (t, name)) (filter (\<lambda>e. snd (snd e) \<notin> set names) (rev (sort (List.map_filter entry_of (fo_files fo)))))"
    by (simp only: folder_entries_def)
  also have "\<dots> = folder_entries (remove_files names fo)"
    unfolding folder_entries_def kept rev_filter [symmetric] filter_sort by simp
  finally show ?thesis by simp
qed

lemma remove_none [simp]: "remove_files [] fo = fo"
  by (simp add: remove_files_def)

lemma entry_in_folder:
  "(t, name) \<in> set (folder_entries fo) \<longleftrightarrow> name \<in> fst ` set (fo_files fo) \<and> (\<exists>m. parse_name name = Some m \<and> t = time_of m)"
proof -
  have "(t, name) \<in> set (folder_entries fo) \<longleftrightarrow> (\<exists>f \<in> set (fo_files fo). \<exists>modified. entry_of f = Some (t, modified, name))"
    by (force simp: folder_entries_def map_filter_def)
  also have "\<dots> \<longleftrightarrow> (\<exists>f \<in> set (fo_files fo). fst f = name \<and> map_option time_of (parse_name name) = Some t)"
    by (intro bex_cong refl) (auto simp: entry_of_def split: prod.splits)
  also have "\<dots> \<longleftrightarrow> name \<in> fst ` set (fo_files fo) \<and> (\<exists>m. parse_name name = Some m \<and> t = time_of m)"
    by (auto simp: map_option_eq_Some)
  finally show ?thesis .
qed

lemma media_in_folder:
  "name \<in> snd ` set (folder_entries fo) \<longleftrightarrow> name \<in> fst ` set (fo_files fo) \<and> parse_name name \<noteq> None"
proof -
  have "name \<in> snd ` set (folder_entries fo) \<longleftrightarrow> (\<exists>t. (t, name) \<in> set (folder_entries fo))" by force
  then show ?thesis unfolding entry_in_folder by auto
qed

lemma entries_distinct:
  assumes "distinct (map fst (fo_files fo))"
  shows "distinct (map snd (folder_entries fo))"
proof -
  have "map (\<lambda>e. snd (snd e)) (List.map_filter entry_of fs) = filter (\<lambda>n. parse_name n \<noteq> None) (map fst fs)" for fs
    by (induction fs) (auto simp: List.map_filter_simps entry_of_def split: option.splits prod.splits)
  then have "distinct (map (\<lambda>e. snd (snd e)) (List.map_filter entry_of (fo_files fo)))" using assms by simp
  then have "distinct (map (\<lambda>e. snd (snd e)) (sort (List.map_filter entry_of (fo_files fo))))"
    by (simp add: distinct_map)
  moreover have "map snd (folder_entries fo) = rev (map (\<lambda>e. snd (snd e)) (sort (List.map_filter entry_of (fo_files fo))))"
    by (simp add: folder_entries_def rev_map comp_def case_prod_unfold)
  ultimately show ?thesis by simp
qed

lemma pictures_removed: "pictures (remove_files names fo) = filter (\<lambda>n. n \<notin> set names) (pictures fo)"
  by (simp add: pictures_def entries_removed filter_map comp_def conj_commute)

lemma filter_not_drop: "distinct xs \<Longrightarrow> filter (\<lambda>x. x \<notin> set (drop k xs)) xs = take k xs"
proof -
  assume "distinct xs"
  then have "distinct (take k xs @ drop k xs)" by simp
  then have d: "set (take k xs) \<inter> set (drop k xs) = {}" unfolding distinct_append by blast
  define P where "P = (\<lambda>x. x \<notin> set (drop k xs))"
  have "filter P (take k xs) = take k xs" "filter P (drop k xs) = []"
    using d by (auto simp: P_def filter_empty_conv intro!: filter_True)
  then have "filter P (take k xs @ drop k xs) = take k xs" by (simp only: filter_append append_Nil2)
  then show ?thesis by (simp add: P_def)
qed

lemma clean_openings_files: "fo_files (snd (clean_openings cutoff limit fo)) = fo_files fo"
  by (auto simp: clean_openings_def Let_def split: option.splits pyval.splits)

lemma entries_cong: "fo_files fo = fo_files fo' \<Longrightarrow> folder_entries fo = folder_entries fo'"
  by (simp add: folder_entries_def)

text \<open>The media that the age and the limit of the pictures leave: with such a limit the newest pictures stay whatever
  their age.\<close>

definition retained :: "rat \<Rightarrow> int option \<Rightarrow> folder \<Rightarrow> nat \<times> string \<Rightarrow> bool" where
  "retained cutoff snapshot_limit fo e \<longleftrightarrow>
     (case snapshot_limit of
        None \<Rightarrow> cutoff \<le> of_nat (fst e)
      | Some limit \<Rightarrow> if is_picture (snd e) then snd e \<in> set (take (at_least_one limit) (pictures fo))
          else cutoff \<le> of_nat (fst e))"

lemma in_pictures: "name \<in> set (pictures fo) \<longleftrightarrow> is_picture name \<and> name \<in> fst ` set (fo_files fo)"
  by (auto simp: pictures_def media_in_folder is_picture_def split: option.splits simp del: image_iff)

lemma entry_time: "(t, name) \<in> set (folder_entries fo) \<Longrightarrow> (t', name) \<in> set (folder_entries fo') \<Longrightarrow> t' = t"
  by (auto simp: entry_in_folder)

lemma old_media:
  assumes "e \<in> set (folder_entries fo)" "set es \<subseteq> set (folder_entries fo)"
  shows "snd e \<in> set (map snd (filter P es)) \<longleftrightarrow> e \<in> set es \<and> P e"
proof -
  have "e' = e" if "e' \<in> set es" "snd e' = snd e" for e'
    using entry_time [of "fst e" "snd e" fo "fst e'" fo] assms(1) subsetD [OF assms(2) that(1)] that(2)
    by (metis prod.collapse)
  then show ?thesis unfolding set_map set_filter image_iff by (metis (mono_tags, lifting) mem_Collect_eq)
qed

text \<open>The media left once the limit of the pictures and the age are applied.\<close>

lemma entries_retained:
  fixes fo limit cutoff
  defines "fo2 \<equiv> (case limit of None \<Rightarrow> fo | Some n \<Rightarrow> remove_files (drop (at_least_one n) (pictures fo)) fo)"
  defines "protected \<equiv> (case limit of None \<Rightarrow> [] | Some n \<Rightarrow> take (at_least_one n) (pictures fo2))"
  defines "old \<equiv> map snd (filter (\<lambda>(t, name). of_nat t < cutoff \<and> name \<notin> set protected) (folder_entries fo2))"
  assumes "distinct (map fst (fo_files fo))"
  shows "folder_entries (remove_files old fo2) = filter (retained cutoff limit fo) (folder_entries fo)"
proof (cases limit)
  case None
  have "snd e \<notin> set old \<longleftrightarrow> retained cutoff limit fo e" if "e \<in> set (folder_entries fo)" for e
    using old_media [OF that order_refl, of "\<lambda>(t, name). of_nat t < cutoff \<and> name \<notin> set protected"] that None
    by (simp add: old_def fo2_def protected_def retained_def case_prod_unfold not_less)
  then show ?thesis unfolding entries_removed using None by (simp add: fo2_def cong: filter_cong)
next
  case (Some n)
  let ?new = "take (at_least_one n) (pictures fo)" and ?cut = "drop (at_least_one n) (pictures fo)"
  have d: "distinct (pictures fo)" unfolding pictures_def by (intro distinct_filter entries_distinct assms(4))
  then have p2: "protected = ?new" using Some by (simp add: protected_def fo2_def pictures_removed filter_not_drop)
  have disj: "set ?new \<inter> set ?cut = {}" using set_take_disj_set_drop_if_distinct [OF d] by simp
  have all: "set ?new \<union> set ?cut = set (pictures fo)" by (metis append_take_drop_id set_append)
  have "snd e \<notin> set ?cut \<and> snd e \<notin> set old \<longleftrightarrow> retained cutoff limit fo e" if e: "e \<in> set (folder_entries fo)" for e
  proof -
    have sub: "set (folder_entries fo2) \<subseteq> set (folder_entries fo)" using Some by (auto simp: fo2_def entries_removed)
    have name: "snd e \<in> fst ` set (fo_files fo)" using e entry_in_folder [of "fst e" "snd e" fo] by simp
    then have pic: "is_picture (snd e) \<longleftrightarrow> snd e \<in> set (pictures fo)" by (simp add: in_pictures)
    have "snd e \<in> set old \<longleftrightarrow> e \<in> set (folder_entries fo2) \<and> of_nat (fst e) < cutoff \<and> snd e \<notin> set ?new"
      unfolding old_def old_media [OF e sub] p2 by (simp add: case_prod_unfold)
    also have "e \<in> set (folder_entries fo2) \<longleftrightarrow> snd e \<notin> set ?cut" using e Some by (simp add: fo2_def entries_removed)
    finally show ?thesis using disj all pic Some by (auto simp: retained_def not_less)
  qed
  then show ?thesis unfolding entries_removed using Some
    by (simp add: fo2_def entries_removed conj_commute cong: filter_cong)
qed

lemma limited_split: "limited m xs @ (case m of None \<Rightarrow> [] | Some n \<Rightarrow> if n = 0 then [] else drop n xs) = xs"
  by (simp add: limited_def split: option.splits)

lemma clean_folder_files:
  assumes "distinct (map fst (fo_files fo))"
  shows "fo_files (snd (clean_folder cutoff max_entries limit fo)) = filter (\<lambda>(name, f). parse_name name = None
      \<or> name \<in> set (map snd (limited max_entries (filter (retained cutoff limit fo) (folder_entries fo))))) (fo_files fo)"
proof -
  define fo1 where "fo1 = snd (clean_openings cutoff max_entries fo)"
  define cut_pictures where "cut_pictures = (case limit of None \<Rightarrow> [] | Some n \<Rightarrow> drop (at_least_one n) (pictures fo1))"
  define fo2 where "fo2 = remove_files cut_pictures fo1"
  define protected where "protected = (case limit of None \<Rightarrow> [] | Some n \<Rightarrow> take (at_least_one n) (pictures fo2))"
  define old where "old = map snd (filter (\<lambda>(t, name). of_nat t < cutoff \<and> name \<notin> set protected) (folder_entries fo2))"
  define rest where "rest = folder_entries (remove_files old fo2)"
  define surplus where "surplus = (case max_entries of None \<Rightarrow> [] | Some n \<Rightarrow> if n = 0 then [] else drop n rest)"
  have f1: "fo_files fo1 = fo_files fo" unfolding fo1_def by (rule clean_openings_files)
  note e1 = entries_cong [OF f1]
  have p1: "pictures fo1 = pictures fo" by (simp add: pictures_def e1)
  have two: "fo2 = (case limit of None \<Rightarrow> fo1 | Some n \<Rightarrow> remove_files (drop (at_least_one n) (pictures fo1)) fo1)"
    by (simp add: fo2_def cut_pictures_def split: option.splits)
  have "retained cutoff limit fo1 = retained cutoff limit fo" by (intro ext) (simp add: retained_def p1 split: option.split)
  then have rest: "rest = filter (retained cutoff limit fo) (folder_entries fo)"
    using entries_retained [of fo1 cutoff limit] assms
    unfolding rest_def old_def protected_def two f1 e1 by simp
  have filtered: "filter (\<lambda>(t, name). name \<notin> set old) (folder_entries fo2) = rest"
    unfolding rest_def entries_removed by (simp add: case_prod_unfold)
  have result: "fo_files (snd (clean_folder cutoff max_entries limit fo))
      = fo_files (remove_files (map snd surplus) (remove_files old fo2))"
  proof -
    obtain k where k: "clean_openings cutoff max_entries fo = (k, fo1)" unfolding fo1_def by (metis prod.collapse)
    have trim: "(case limit of None \<Rightarrow> (0, fo1) | Some n \<Rightarrow> trim_snapshots n fo1) = (length cut_pictures, fo2)"
      by (simp add: trim_snapshots_def fo2_def cut_pictures_def Let_def split: option.splits)
    have surplus: "(case max_entries of None \<Rightarrow> [] | Some n \<Rightarrow> if n = 0 then [] else map snd (drop n rest)) = map snd surplus"
      by (simp add: surplus_def split: option.splits)
    show ?thesis
      unfolding clean_folder_def k prod.case trim protected_def [symmetric] Let_def old_def [symmetric] filtered surplus by simp
  qed
  have rest_all: "limited max_entries rest @ surplus = rest" unfolding surplus_def by (rule limited_split)
  have "distinct (map snd rest)"
    unfolding rest by (rule distinct_map_filter [OF entries_distinct [OF assms]])
  then have disj: "set (map snd (limited max_entries rest)) \<inter> set (map snd surplus) = {}"
    by (metis rest_all distinct_append map_append)
  have union: "set (map snd rest) = set (map snd (limited max_entries rest)) \<union> set (map snd surplus)"
    by (metis rest_all map_append set_append)
  have gone: "name \<in> set (map snd rest) \<longleftrightarrow> parse_name name \<noteq> None \<and> name \<notin> set cut_pictures \<and> name \<notin> set old"
    if "name \<in> fst ` set (fo_files fo)" for name
    using that media_in_folder [of name fo] unfolding rest_def entries_removed fo2_def e1 by force
  have no_media: "parse_name name \<noteq> None" if "name \<in> set cut_pictures \<union> set old \<union> set (map snd surplus)" for name
  proof -
    have "set cut_pictures \<subseteq> snd ` set (folder_entries fo)"
      by (auto simp: cut_pictures_def p1 pictures_def e1 [symmetric] split: option.splits dest!: in_set_dropD)
    moreover have "set old \<subseteq> snd ` set (folder_entries fo)"
      by (auto simp: old_def fo2_def entries_removed e1)
    moreover have "set (map snd surplus) \<subseteq> snd ` set (folder_entries fo)"
      using union rest by auto
    ultimately show ?thesis using that media_in_folder [of name fo] by blast
  qed
  have "name \<notin> set cut_pictures \<and> name \<notin> set old \<and> name \<notin> set (map snd surplus)
      \<longleftrightarrow> parse_name name = None \<or> name \<in> set (map snd (limited max_entries rest))"
    if "name \<in> fst ` set (fo_files fo)" for name
    using gone [OF that] no_media [of name] disj union by blast
  then have "filter (\<lambda>f. fst f \<notin> set cut_pictures \<and> fst f \<notin> set old \<and> fst f \<notin> set (map snd surplus)) (fo_files fo)
      = filter (\<lambda>f. parse_name (fst f) = None \<or> fst f \<in> set (map snd (limited max_entries rest))) (fo_files fo)"
    by (intro filter_cong) simp_all
  then show ?thesis unfolding result rest [symmetric]
    by (simp add: remove_files_def fo2_def f1 case_prod_unfold conj_assoc)
qed

text \<open>C24. The clean-up of a device removes the media it should and nothing else, with a limit of the entries, as the
  service gives one, with one of the pictures, or with both. Media older than the days to keep go; with a limit of the
  pictures instead the newest pictures stay, at least one and however old they are, and the others go; of what
  is left the newest stay, as many as the limit of the entries says. Files that are no media of the archive and
  the folders of other devices are left alone.\<close>

theorem cleanup_keeps_newest:
  assumes "cleanup now keep_days d max_entries limit a = (n, a')" "d \<noteq> []"
    and "map_of a (device_name d) = Some fo" "distinct (map fst (fo_files fo))"
  shows "fo_files (folder_of d a') = filter (\<lambda>(name, f). parse_name name = None
      \<or> name \<in> set (map snd (limited max_entries
          (filter (retained (now - of_int (max 0 keep_days * 86400)) limit fo) (folder_entries fo))))) (fo_files fo)
    \<and> (e \<noteq> device_name d \<longrightarrow> map_of a' e = map_of a e)"
proof -
  obtain k fo' where clean: "clean_folder (now - of_int (max 0 keep_days * 86400)) max_entries limit fo = (k, fo')" by force
  then have "a' = (if fo_files fo' = [] \<and> fo_openings fo' = None then AList.delete (device_name d) a
      else AList.update (device_name d) fo' a)"
    using assms(1-3) by (simp add: cleanup_def Let_def)
  moreover have "fo_files fo' = filter (\<lambda>(name, f). parse_name name = None
      \<or> name \<in> set (map snd (limited max_entries
          (filter (retained (now - of_int (max 0 keep_days * 86400)) limit fo) (folder_entries fo))))) (fo_files fo)"
    using clean_folder_files [OF assms(4)] clean by (metis snd_conv)
  ultimately show ?thesis
    by (auto simp: folder_of_def empty_folder_def delete_conv' update_conv')
qed

abbreviation sample_opening :: dict where
  "sample_opening \<equiv> [(''opening_id'', VStr ''a1''), (''time'', VInt 100), (''open_direction'', VStr ''outside''), (''opened_by_user_id'', VInt 3)]"

theorem saved_opening_listed_witness:
  "\<exists>a'. save_opening (\<lambda>_. []) ''lock'' sample_opening [] = (Inr (), a')
     \<and> list_opening_events (\<lambda>_. []) ''lock'' 500 a'
       = [opening_fields ''a1'' 100 ''outside'' @ [(''unlock_user_id'', VStr ''3'')]]"
proof -
  let ?r = "opening_fields ''a1'' 100 ''outside'' @ [(''unlock_user_id'', VStr ''3'')]"
  have "fst (save_opening (\<lambda>_. []) ''lock'' sample_opening []) = Inr ()" by code_simp
  then obtain a' where a': "save_opening (\<lambda>_. []) ''lock'' sample_opening [] = (Inr (), a')" by (metis prod.collapse)
  have r: "opening_record (\<lambda>_. []) sample_opening = Some ?r" by code_simp
  have "[] = filter (\<lambda>x. get x ''id'' \<noteq> get ?r ''id'') (read_opening_records (\<lambda>_. []) (folder_of ''lock'' []))" by code_simp
  from saved_opening_listed [OF a' r this] have "list_opening_events (\<lambda>_. []) ''lock'' 500 a' = [?r]"
    by (simp add: newest_first_def)
  with a' show ?thesis by blast
qed

definition sample_folder :: folder where
  "sample_folder = \<lparr>fo_files = [(''ring_300.jpg'', 1, ''x''), (''ring_200.jpg'', 2, ''y''), (''ring_100.mp4'', 3, ''z''),
     (''ring_900.mp4'', 4, ''v''), (''notes'', 5, ''n'')], fo_openings = None\<rparr>"

theorem cleanup_keeps_newest_witness:
  "map fst (fo_files (folder_of ''lock'' (snd (cleanup 86600 1 ''lock'' (Some 2) None [(''lock'', sample_folder)]))))
     = [''ring_300.jpg'', ''ring_900.mp4'', ''notes'']
   \<and> map fst (fo_files (folder_of ''lock'' (snd (cleanup 86900 1 ''lock'' None (Some 1) [(''lock'', sample_folder)]))))
     = [''ring_300.jpg'', ''ring_900.mp4'', ''notes'']"
proof -
  have d: "distinct (map fst (fo_files sample_folder))" by (simp add: sample_folder_def)
  have folder: "map_of [(''lock'', sample_folder)] (device_name ''lock'') = Some sample_folder" by code_simp
  have cutoffs: "86600 - rat_of_int (max 0 1 * 86400) = 200" "86900 - rat_of_int (max 0 1 * 86400) = 500" by simp_all
  have es: "folder_entries sample_folder =
      [(900, ''ring_900.mp4''), (300, ''ring_300.jpg''), (200, ''ring_200.jpg''), (100, ''ring_100.mp4'')]" by code_simp
  have pics: "pictures sample_folder = [''ring_300.jpg'', ''ring_200.jpg'']" by code_simp
  have names: "parse_name ''notes'' = None" "parse_name ''ring_300.jpg'' \<noteq> None" "parse_name ''ring_200.jpg'' \<noteq> None"
    "parse_name ''ring_100.mp4'' \<noteq> None" "parse_name ''ring_900.mp4'' \<noteq> None"
    "is_picture ''ring_300.jpg''" "is_picture ''ring_200.jpg''" "\<not> is_picture ''ring_100.mp4''" "\<not> is_picture ''ring_900.mp4''"
    by code_simp+
  have left: "map fst (filter (\<lambda>(name, f). parse_name name = None \<or> name \<in> set (map snd (limited (Some 2)
        (filter (retained 200 None sample_folder) (folder_entries sample_folder))))) (fo_files sample_folder))
      = [''ring_300.jpg'', ''ring_900.mp4'', ''notes'']"
    "map fst (filter (\<lambda>(name, f). parse_name name = None \<or> name \<in> set (map snd (limited None
        (filter (retained 500 (Some 1) sample_folder) (folder_entries sample_folder))))) (fo_files sample_folder))
      = [''ring_300.jpg'', ''ring_900.mp4'', ''notes'']"
    unfolding es by (simp_all add: retained_def limited_def pics names, simp_all add: sample_folder_def names at_least_one_def)
  have named: "''lock'' \<noteq> []" by simp
  note kept = cleanup_keeps_newest [OF prod.collapse [symmetric] named folder d, THEN conjunct1]
  show ?thesis unfolding kept cutoffs by (rule conjI [OF left])
qed

end
