(* ===== verification/Playback_Search.thy ===== *)
theory Playback_Search
  imports Lan_Framing
begin

text \<open>
  \<^verbatim>\<open>meari_transport/hdd.py\<close>: the search for recordings on the disk of a video recorder. Requests are validated
  against the calendar, wrapped into signed packets, answers are put together from fragments and read.
  The worker, a child process, writes what it found as one line of JSON (\<open>emit_record\<close>, of
  \<^verbatim>\<open>meari_transport/worker.py\<close>), which \<^verbatim>\<open>meari_hdd.py\<close> checks again in the parent (\<open>public_search\<close>).

  Texts of the device are printable ASCII (\<^verbatim>\<open>_text\<close> of the worker). Bytes that are decoded by \<^verbatim>\<open>json.loads\<close> are
  UTF-8. \<open>md5\<close> is \<^verbatim>\<open>hashlib.md5(...).hexdigest()\<close>, \<open>base64\<close> is \<^verbatim>\<open>base64.b64encode\<close>. The texts of the
  errors are left out.
\<close>

section \<open>Requests\<close>

definition HDD_MAGIC :: nat where "HDD_MAGIC = 0x56565099"
definition COMMON_COMMAND :: nat where "COMMON_COMMAND = 0x8000"
definition PLAYBACK_COMMAND :: nat where "PLAYBACK_COMMAND = 0x131A"
definition MAX_REPLY_BYTES :: nat where "MAX_REPLY_BYTES = 262144"
definition MAX_FRAGMENTS :: nat where "MAX_FRAGMENTS = 256"
definition MAX_PUBLIC_BYTES :: nat where "MAX_PUBLIC_BYTES = 49152"

record hdd_request =
  rq_operation :: string
  rq_date :: string

definition date_width :: "string \<Rightarrow> nat option" where
  "date_width operation = map_of [(''month'', 6), (''day'', 8), (''playback'', 14)] operation"

definition all_digits :: "string \<Rightarrow> bool" where
  "all_digits s \<longleftrightarrow> list_all (\<lambda>c. digit_val c \<noteq> None) s"

definition date_part :: "nat \<Rightarrow> nat \<Rightarrow> string \<Rightarrow> nat" where
  "date_part a b s = foldl (\<lambda>n c. 10 * n + (byte c - 48)) 0 (slice a b s)"

definition leap_year :: "nat \<Rightarrow> bool" where
  "leap_year y \<longleftrightarrow> y mod 4 = 0 \<and> (y mod 100 \<noteq> 0 \<or> y mod 400 = 0)"

definition month_days :: "nat \<Rightarrow> nat \<Rightarrow> nat" where
  "month_days y m = (if m = 2 then (if leap_year y then 29 else 28) else if m \<in> {4, 6, 9, 11} then 30 else 31)"

text \<open>\<^verbatim>\<open>datetime(...)\<close> of the parts of a date raises nothing.\<close>

definition calendar_date :: "string \<Rightarrow> bool" where
  "calendar_date s \<longleftrightarrow>
     (let y = date_part 0 4 s; m = date_part 4 6 s
      in 1 \<le> y \<and> 1 \<le> m \<and> m \<le> 12
         \<and> (8 \<le> length s \<longrightarrow> 1 \<le> date_part 6 8 s \<and> date_part 6 8 s \<le> month_days y m)
         \<and> (length s = 14 \<longrightarrow> date_part 8 10 s < 24 \<and> date_part 10 12 s < 60 \<and> date_part 12 14 s < 60))"

definition valid_date :: "nat \<Rightarrow> string \<Rightarrow> bool" where
  "valid_date width s \<longleftrightarrow> length s = width \<and> all_digits s \<and> calendar_date s"

text \<open>A list or a dictionary is no key of a dictionary.\<close>

fun validate_request :: "pyval \<Rightarrow> hdd_request py" where
  "validate_request (VDict d) =
     (if \<not> set (map fst d) \<subseteq> {''operation'', ''date''} then Inl ValueError
      else case get d ''operation'' of
        VList _ \<Rightarrow> Inl TypeError
      | VDict _ \<Rightarrow> Inl TypeError
      | VStr operation \<Rightarrow>
          (case (date_width operation, get d ''date'') of
             (Some width, VStr date) \<Rightarrow>
               if valid_date width date then Inr \<lparr>rq_operation = operation, rq_date = date\<rparr> else Inl ValueError
           | _ \<Rightarrow> Inl ValueError)
      | _ \<Rightarrow> Inl ValueError)"
| "validate_request _ = Inl ValueError"

abbreviation request_of :: "string \<Rightarrow> string \<Rightarrow> pyval" where
  "request_of operation date \<equiv> VDict [(''operation'', VStr operation), (''date'', VStr date)]"

section \<open>Packets\<close>

record hdd_context =
  hx_host_key :: string
  hx_serial :: string
  hx_full_password :: bool
  hx_include_licence :: bool
  hx_channel :: nat
  hx_hdd :: pyval

definition join_bar :: "string list \<Rightarrow> string" where
  "join_bar parts = foldl (\<lambda>s p. s @ CHR 0x7C # p) (hd parts) (tl parts)"

definition sign_packet :: "(string \<Rightarrow> string) \<Rightarrow> hdd_context \<Rightarrow> nat \<Rightarrow> nat \<Rightarrow> nat \<Rightarrow> string" where
  "sign_packet md5 x command sequence len =
     md5 (join_bar
       ([''admin'', if hx_full_password x then hx_host_key x else take 16 (hx_host_key x), dec (int HDD_MAGIC),
         dec (int sequence), dec (int command), dec (int len), ''meari.p2p.ppcs'']
        @ (if hx_include_licence x
           then [if length (hx_serial x) = 9 then ''00000000000'' @ hx_serial x else hx_serial x] else [])))"

definition packet :: "(string \<Rightarrow> string) \<Rightarrow> hdd_context \<Rightarrow> nat \<Rightarrow> nat \<Rightarrow> string \<Rightarrow> string py" where
  "packet md5 x command sequence payload =
     (if \<not> (sequence \<le> 0xFFFFFFFF \<and> length payload \<le> MAX_REPLY_BYTES) then Inl ValueError
      else Inr (pack_I HDD_MAGIC @ pack_I 1 @ pack_I sequence @ pack_I command
        @ sign_packet md5 x command sequence (length payload) @ pack_I (length payload) @ payload))"

definition CRLF :: string where "CRLF = [CHR 0x0D, CHR 0x0A]"

definition search_packet ::
  "(string \<Rightarrow> string) \<Rightarrow> (string \<Rightarrow> string) \<Rightarrow> (rat \<Rightarrow> string) \<Rightarrow> hdd_context \<Rightarrow> nat \<Rightarrow> string py" where
  "search_packet md5 base64 float_text x sequence =
     bindE (validate_request (hx_hdd x)) (\<lambda>request.
       let operation = rq_operation request
       in if operation \<notin> {''month'', ''day''} then Inl ValueError
          else
            let path = ''/devices/record/search_by_'' @ operation;
                body = [(''action'', VStr ''POST''), (''rec_type'', VInt 0), (''videoid'', VInt (int (hx_channel x)))]
                  @ (if operation = ''day'' then [(''version'', VInt 0)] else [])
                  @ [(operation, VStr (rq_date request)), (''deviceurl'', VStr (''http://127.0.0.1'' @ path))];
                encoded = dumps float_text (VDict body);
                header = ''POST '' @ path @ '' HTTP/1.0'' @ CRLF @ ''Host: 127.0.0.1'' @ CRLF
                  @ ''User-Agent: Awesome HTTP Client'' @ CRLF @ ''Content-Type: text/plain, charset=us-ascii'' @ CRLF
                  @ ''Connection: close'' @ CRLF @ ''Authorization: Basic '' @ base64 (''admin:'' @ hx_host_key x) @ CRLF
                  @ ''Content-Length: '' @ dec (int (length encoded)) @ CRLF @ CRLF
            in packet md5 x COMMON_COMMAND sequence (header @ encoded))"

text \<open>\<^verbatim>\<open>struct.pack\<close> with \<^verbatim>\<open><I\<close> and \<^verbatim>\<open><H\<close>: the low byte comes first.\<close>

definition pack_I_little :: "nat \<Rightarrow> string" where
  "pack_I_little n = rev (pack_I n)"

definition pack_H_little :: "nat \<Rightarrow> string" where
  "pack_H_little n = rev (pack_H n)"

definition playback_packet :: "(string \<Rightarrow> string) \<Rightarrow> hdd_context \<Rightarrow> nat \<Rightarrow> bool \<Rightarrow> string py" where
  "playback_packet md5 x sequence stop =
     bindE (validate_request (hx_hdd x)) (\<lambda>request.
       if rq_operation request \<noteq> ''playback'' then Inl ValueError
       else
         let date = rq_date request;
             start = pack_I_little (hx_channel x) @ pack_I_little (if stop then 1 else 16) @ chars [0, 0, 0, 0];
             rest = (if stop then chars (replicate 12 0)
               else pack_H_little (date_part 0 4 date) @ chars [date_part 4 6 date, date_part 6 8 date, 0,
                 date_part 8 10 date, date_part 10 12 date, date_part 12 14 date, 1, 2, 0, 0])
         in packet md5 x PLAYBACK_COMMAND sequence (start @ rest))"

section \<open>Answers\<close>

record reply_buffer =
  rb_sequence :: nat
  rb_buffer :: string

text \<open>The loop over the packets in the buffer: an answer to an earlier request is dropped.\<close>

function drain :: "nat \<Rightarrow> string \<Rightarrow> string option py \<times> string" where
  "drain wanted buffer =
     (if length buffer < 52 then (Inr None, buffer)
      else if unpack_I (slice 0 4 buffer) \<noteq> HDD_MAGIC then (Inl ValueError, buffer)
      else
        let sequence = unpack_I (slice 8 12 buffer); n = unpack_I (slice 48 52 buffer)
        in if MAX_REPLY_BYTES < n then (Inl ValueError, buffer)
           else if length buffer < 52 + n then (Inr None, buffer)
           else if sequence < wanted then drain wanted (drop (52 + n) buffer)
           else if wanted < sequence then (Inl ValueError, drop (52 + n) buffer)
           else (Inr (Some (slice 52 (52 + n) buffer)), drop (52 + n) buffer))"
  by pat_completeness auto
termination
  by (relation "measure (\<lambda>(wanted, buffer). length buffer)") auto

declare drain.simps [simp del]

definition feed :: "string \<Rightarrow> reply_buffer \<Rightarrow> string option py \<times> reply_buffer" where
  "feed payload rb =
     (let magic = pack_I HDD_MAGIC
      in if rb_buffer rb = [] \<and> \<not> (starts_with magic payload \<or> payload \<noteq> [] \<and> starts_with payload magic)
         then (Inr None, rb)
         else if MAX_REPLY_BYTES + 52 < length (rb_buffer rb) + length payload then (Inl ValueError, rb)
         else case drain (rb_sequence rb) (rb_buffer rb @ payload) of (r, buffer) \<Rightarrow> (r, rb\<lparr>rb_buffer := buffer\<rparr>))"


fun feed_all :: "string list \<Rightarrow> reply_buffer \<Rightarrow> string option py list \<times> reply_buffer" where
  "feed_all [] rb = ([], rb)"
| "feed_all (c # cs) rb = (case feed c rb of (r, rb) \<Rightarrow> case feed_all cs rb of (rs, rb) \<Rightarrow> (r # rs, rb))"

text \<open>\<^verbatim>\<open>json.loads\<close> of bytes.\<close>

definition loads_bytes :: "string \<Rightarrow> pyval py" where
  "loads_bytes b = (case utf8_decode b of None \<Rightarrow> Inl ValueError
     | Some _ \<Rightarrow> (case loads b of None \<Rightarrow> Inl ValueError | Some v \<Rightarrow> Inr v))"

text \<open>\<^verbatim>\<open>type(v) in (int, str) and str(v) == s\<close>\<close>

fun prints_as :: "string \<Rightarrow> pyval \<Rightarrow> bool" where
  "prints_as s (VInt n) = (dec n = s)"
| "prints_as s (VStr t) = (t = s)"
| "prints_as s _ = False"

definition two_digits :: "nat \<Rightarrow> string" where
  "two_digits n = [digit_char (int (n div 10 mod 10)), digit_char (int (n mod 10))]"

definition recording_days :: "string \<Rightarrow> pyval list \<Rightarrow> pyval list" where
  "recording_days date flags =
     (let shown = take (month_days (date_part 0 4 date) (date_part 4 6 date)) flags
      in map (\<lambda>i. VStr (date @ two_digits (i + 1))) (filter (\<lambda>i. prints_as ''1'' (shown ! i)) [0..<length shown]))"

fun text_le :: "string \<Rightarrow> string \<Rightarrow> bool" where
  "text_le [] t = True"
| "text_le (c # s) [] = False"
| "text_le (c # s) (d # t) = (byte c < byte d \<or> c = d \<and> text_le s t)"

text \<open>One row of a day: \<^verbatim>\<open>None\<close> for an invalid one.\<close>

fun fragment_of :: "string \<Rightarrow> pyval \<Rightarrow> (string \<times> string) option" where
  "fragment_of date (VStr item) =
     (let start = date @ take 6 item; stop = date @ drop 7 item
      in if length item = 13 \<and> all_digits (take 6 item) \<and> item ! 6 = CHR ''-'' \<and> all_digits (drop 7 item)
            \<and> valid_date 14 start \<and> valid_date 14 stop \<and> \<not> text_le stop start
         then Some (start, stop) else None)"
| "fragment_of date _ = None"

abbreviation fragment_value :: "string \<times> string \<Rightarrow> pyval" where
  "fragment_value f \<equiv> VDict [(''start'', VStr (fst f)), (''end'', VStr (snd f))]"

definition month_result :: "hdd_request \<Rightarrow> pyval list \<Rightarrow> dict" where
  "month_result request flags =
     (let days = recording_days (rq_date request) flags
      in [(''hdd_operation'', VStr (rq_operation request)), (''calendar_date'', VStr (rq_date request)),
          (''recording_days'', VList days), (''recording_count'', VInt (int (length days))),
          (''fragments_truncated'', VBool False)])"

definition day_result :: "hdd_request \<Rightarrow> pyval list \<Rightarrow> dict" where
  "day_result request rows =
     (let found = List.map_filter (fragment_of (rq_date request)) rows; kept = take MAX_FRAGMENTS found
      in [(''hdd_operation'', VStr (rq_operation request)), (''calendar_date'', VStr (rq_date request)),
          (''fragments'', VList (map fragment_value kept)), (''recording_count'', VInt (int (length found))),
          (''fragments_truncated'', VBool (length kept < length found)),
          (''invalid_fragment_count'', VInt (int (length rows - length found)))])"

definition parse_search_reply :: "(rat \<Rightarrow> string) \<Rightarrow> string \<Rightarrow> pyval \<Rightarrow> dict py" where
  "parse_search_reply float_text payload request =
     bindE (validate_request request) (\<lambda>request.
     if MAX_REPLY_BYTES < length payload then Inl ValueError
     else bindE (loads_bytes (rstrip_nul payload)) (\<lambda>envelope.
       case envelope of
         VDict d \<Rightarrow>
           if \<not> prints_as ''200'' (get d ''http_code'') then Inl ValueError
           else (case get d ''http_result'' of
             VStr body \<Rightarrow>
               if MAX_REPLY_BYTES < py_len body then Inl ValueError
               else (case loads body of
                 None \<Rightarrow> Inl ValueError
               | Some value \<Rightarrow>
                   if rq_operation request = ''month'' then
                     (case value of VList flags \<Rightarrow> if 31 < length flags then Inl ValueError else Inr (month_result request flags)
                      | _ \<Rightarrow> Inl ValueError)
                   else
                     (case value of
                        VList rows \<Rightarrow>
                          if rq_operation request \<noteq> ''day'' \<or> 65535 < length rows then Inl ValueError
                          else let result = day_result request rows
                            in if MAX_PUBLIC_BYTES < length (dumps float_text (VDict result)) then Inl ValueError else Inr result
                      | _ \<Rightarrow> Inl ValueError))
           | _ \<Rightarrow> Inl ValueError)
       | _ \<Rightarrow> Inl ValueError))"

section \<open>From the worker to the parent\<close>

record observation =
  ob_video_frames :: int
  ob_video_bytes :: int
  ob_received_packets :: int
  ob_codec :: string
  ob_keyframe :: bool
  ob_parameters :: bool
  ob_result :: "dict option"
  ob_playback :: "(bool \<times> bool) option"

text \<open>\<open>ob_playback\<close>: a playback was requested; whether it was acknowledged and has ended.\<close>

definition summary :: "observation \<Rightarrow> dict" where
  "summary ob =
     (let result = [(''video_frames'', VInt (ob_video_frames ob)), (''video_bytes'', VInt (ob_video_bytes ob)),
            (''received_packets'', VInt (ob_received_packets ob)), (''codec'', VStr (ob_codec ob)),
            (''keyframe_received'', VBool (ob_keyframe ob)), (''parameter_sets_received'', VBool (ob_parameters ob)),
            (''decoded'', VBool False)];
          result = (case ob_result ob of None \<Rightarrow> result | Some r \<Rightarrow> dict_merge result r)
      in case ob_playback ob of None \<Rightarrow> result
         | Some (acknowledged, ended) \<Rightarrow> dict_merge result
             [(''playback_requested'', VBool True), (''playback_acknowledged'', VBool acknowledged),
              (''playback_end_received'', VBool ended)])"

definition copy_keys :: "(pyval \<Rightarrow> pyval option) \<Rightarrow> string list \<Rightarrow> dict \<Rightarrow> dict \<Rightarrow> dict" where
  "copy_keys f keys source target = foldl (\<lambda>t k. case f (get source k) of None \<Rightarrow> t | Some v \<Rightarrow> AList.update k v t) target keys"

definition present_keys :: "string list \<Rightarrow> dict \<Rightarrow> string list" where
  "present_keys keys source = filter (has_key source) keys"

definition small_count :: "pyval \<Rightarrow> pyval option" where
  "small_count v = (case v of VInt n \<Rightarrow> if 0 \<le> n \<and> n \<le> 2 ^ 31 - 1 then Some v else None | _ \<Rightarrow> None)"

definition RESULT_KEYS :: "string list" where
  "RESULT_KEYS = [''hdd_operation'', ''calendar_date'', ''recording_days'', ''fragments'', ''recording_count'',
     ''fragments_truncated'', ''invalid_fragment_count'']"

text \<open>The record of a stage with a summary; a line of it is its JSON text.\<close>

definition emit_record :: "string \<Rightarrow> bool \<Rightarrow> dict \<Rightarrow> dict" where
  "emit_record stage final s =
     (let t = [(''probe_stage'', VStr stage), (''final'', VBool final), (''decoded'', VBool False)];
          t = copy_keys small_count [''video_frames'', ''video_bytes'', ''received_packets''] s t;
          t = AList.update ''codec'' (if get s ''codec'' \<in> {VStr ''h264'', VStr ''hevc''} then get s ''codec'' else VStr ''unknown'') t;
          t = copy_keys (\<lambda>v. Some (VBool (v = VBool True))) [''keyframe_received'', ''parameter_sets_received''] s t;
          t = copy_keys (\<lambda>v. Some (VBool (v = VBool True)))
            (present_keys [''playback_requested'', ''playback_acknowledged'', ''playback_end_received''] s) s t
      in if stage = ''hdd_search_received'' then copy_keys Some (present_keys RESULT_KEYS s) s t else t)"

definition checked_date :: "nat \<Rightarrow> string \<Rightarrow> pyval \<Rightarrow> string py" where
  "checked_date width prefix v =
     (case v of VStr s \<Rightarrow> if valid_date width s \<and> starts_with prefix s then Inr s else Inl ValueError | _ \<Rightarrow> Inl ValueError)"

fun checked_days :: "string \<Rightarrow> pyval list \<Rightarrow> string list py" where
  "checked_days prefix [] = Inr []"
| "checked_days prefix (v # vs) =
     bindE (checked_date 8 prefix v) (\<lambda>d. bindE (checked_days prefix vs) (\<lambda>ds. Inr (d # ds)))"

fun checked_fragments :: "string \<Rightarrow> pyval list \<Rightarrow> (string \<times> string) list py" where
  "checked_fragments prefix [] = Inr []"
| "checked_fragments prefix (v # vs) =
     (case v of
        VDict row \<Rightarrow>
          bindE (checked_date 14 prefix (get row ''start'')) (\<lambda>start.
          bindE (checked_date 14 prefix (get row ''end'')) (\<lambda>stop.
          if text_le stop start then Inl ValueError
          else bindE (checked_fragments prefix vs) (\<lambda>fs. Inr ((start, stop) # fs))))
      | _ \<Rightarrow> Inl ValueError)"

definition public_search :: "pyval \<Rightarrow> hdd_request \<Rightarrow> dict py" where
  "public_search message request =
     (case message of
        VDict m \<Rightarrow>
          if get m ''probe_stage'' \<noteq> VStr ''hdd_search_received'' \<or> get m ''hdd_operation'' \<noteq> VStr (rq_operation request)
             \<or> get m ''calendar_date'' \<noteq> VStr (rq_date request) then Inl ValueError
          else
            let result = [(''stage'', VStr ''hdd_search_received''), (''operation'', VStr (rq_operation request)),
                  (''date'', VStr (rq_date request)), (''device_calendar_time'', VBool True)]
            in if rq_operation request = ''month'' then
                 (case get m ''recording_days'' of
                    VList days \<Rightarrow>
                      if 31 < length days then Inl ValueError
                      else bindE (checked_days (rq_date request) days) (\<lambda>ds.
                        if \<not> distinct ds then Inl ValueError
                        else Inr (result @ [(''recording_days'', VList days), (''recording_count'', VInt (int (length days)))]))
                  | _ \<Rightarrow> Inl ValueError)
               else
                 (case (get m ''fragments'', get m ''recording_count'', get m ''fragments_truncated'') of
                    (VList rows, VInt count, VBool truncated) \<Rightarrow>
                      if \<not> (length rows \<le> 256 \<and> int (length rows) \<le> count \<and> count \<le> 65535
                           \<and> truncated = (int (length rows) < count)) then Inl ValueError
                      else bindE (checked_fragments (rq_date request) rows) (\<lambda>fs.
                        Inr (result @ [(''fragments'', VList (map fragment_value fs)), (''recording_count'', VInt count),
                          (''fragments_truncated'', VBool truncated)]))
                  | _ \<Rightarrow> Inl ValueError)
      | _ \<Rightarrow> Inl ValueError)"


section \<open>Putting an answer together\<close>

text \<open>The bytes of an answer with a sequence number and a body; the other fields of its header are not looked at.\<close>

definition reply_frame :: "nat \<Rightarrow> string \<Rightarrow> string \<Rightarrow> bool" where
  "reply_frame sequence body bytes \<longleftrightarrow>
     sequence \<le> 0xFFFFFFFF \<and> length body \<le> MAX_REPLY_BYTES
     \<and> (\<exists>u v. length u = 4 \<and> length v = 36
        \<and> bytes = pack_I HDD_MAGIC @ u @ pack_I sequence @ v @ pack_I (length body) @ body)"

lemma frame_head:
  assumes "reply_frame s body b" "n \<le> length b" "52 \<le> n"
  shows "slice 0 4 (take n b @ rest) = pack_I HDD_MAGIC" "slice 8 12 (take n b @ rest) = pack_I s"
    "slice 48 52 (take n b @ rest) = pack_I (length body)"
  using assms by (auto simp: reply_frame_def slice_def)

lemma frame_length: "reply_frame s body b \<Longrightarrow> length b = 52 + length body \<and> drop 52 b = body"
  by (auto simp: reply_frame_def)

lemma packet_is_frame:
  assumes "packet md5 x command s body = Inr b" "\<And>t. length (md5 t) = 32"
  shows "reply_frame s body b"
proof -
  have "b = pack_I HDD_MAGIC @ pack_I 1 @ pack_I s @ (pack_I command @ sign_packet md5 x command s (length body))
      @ pack_I (length body) @ body" "s \<le> 0xFFFFFFFF" "length body \<le> MAX_REPLY_BYTES"
    using assms(1) by (simp_all add: packet_def split: if_splits)
  moreover have "length (pack_I command @ sign_packet md5 x command s (length body)) = 36"
    by (simp add: sign_packet_def assms(2))
  ultimately show ?thesis unfolding reply_frame_def by (metis length_pack(2))
qed

lemma magic_small: "HDD_MAGIC < 4294967296" "n \<le> MAX_REPLY_BYTES \<Longrightarrow> n < 4294967296"
  by (simp_all add: HDD_MAGIC_def MAX_REPLY_BYTES_def)

lemma drain_frame:
  assumes "reply_frame s body b"
  shows "drain wanted (b @ rest) = (if s < wanted then drain wanted rest
    else if wanted < s then (Inl ValueError, rest) else (Inr (Some body), rest))"
proof -
  note len = frame_length [OF assms]
  have "s \<le> 0xFFFFFFFF" "length body \<le> MAX_REPLY_BYTES" using assms by (simp_all add: reply_frame_def)
  moreover have "slice 52 (52 + length body) (b @ rest) = body" using len by (simp add: slice_def)
  moreover have "slice 0 4 (b @ rest) = pack_I HDD_MAGIC" "slice 8 12 (b @ rest) = pack_I s"
    "slice 48 52 (b @ rest) = pack_I (length body)"
    using frame_head [OF assms order_refl, of rest] len by simp_all
  ultimately show ?thesis
    using len magic_small by (simp add: drain.simps [of wanted "b @ rest"] unpack_pack_I)
qed

lemma drain_partial:
  assumes "reply_frame s body b" "n < length b"
  shows "drain wanted (take n b) = (Inr None, take n b)"
proof (cases "n < 52")
  case True
  then show ?thesis using assms(2) by (simp add: drain.simps [of wanted])
next
  case False
  note len = frame_length [OF assms(1)]
  have "s \<le> 0xFFFFFFFF" "length body \<le> MAX_REPLY_BYTES" using assms by (simp_all add: reply_frame_def)
  moreover have "slice 0 4 (take n b) = pack_I HDD_MAGIC" "slice 8 12 (take n b) = pack_I s"
    "slice 48 52 (take n b) = pack_I (length body)"
    using frame_head [OF assms(1), of n "[]"] assms(2) False by simp_all
  ultimately show ?thesis
    using len magic_small assms(2) False by (simp add: drain.simps [of wanted "take n b"] unpack_pack_I)
qed

definition stale :: "nat \<Rightarrow> string \<Rightarrow> bool" where
  "stale wanted b \<longleftrightarrow> (\<exists>s body. s < wanted \<and> reply_frame s body b)"

lemma drain_stale: "list_all (stale wanted) fs \<Longrightarrow> drain wanted (concat fs @ rest) = drain wanted rest"
  by (induction fs) (auto simp: stale_def drain_frame)

lemma drain_stream:
  assumes "list_all (stale wanted) fs" "reply_frame wanted body b" "p @ r = concat fs @ b" "r \<noteq> []"
  shows "\<exists>hs q. list_all (stale wanted) hs \<and> q @ r = concat hs @ b \<and> length q \<le> length p \<and> drain wanted p = (Inr None, q)"
  using assms(1,3)
proof (induction fs arbitrary: p)
  case Nil
  then have "p = take (length p) b" "length p < length b" using assms(4)
    by (metis append_eq_conv_conj append_Nil concat.simps(1), metis Nil.prems(2) append_Nil assms(4) concat.simps(1) length_append length_greater_0_conv less_add_same_cancel1)
  then show ?case using drain_partial [OF assms(2), of "length p" wanted] Nil
    by (intro exI [of _ "[]"] exI [of _ p]) auto
next
  case (Cons f fs)
  obtain s u where f: "s < wanted" "reply_frame s u f" using Cons.prems(1) by (auto simp: stale_def)
  show ?case
  proof (cases "length f \<le> length p")
    case True
    then obtain p' where p: "p = f @ p'" using Cons.prems(2)
      by (auto simp: append_eq_append_conv2)
    then have "p' @ r = concat fs @ b" "list_all (stale wanted) fs" using Cons.prems by simp_all
    from Cons.IH [OF this(2,1)] show ?thesis using f by (auto simp: p drain_frame)
  next
    case False
    then have "p = take (length p) f" using Cons.prems(2) by (auto simp: append_eq_append_conv2)
    then show ?thesis using drain_partial [OF f(2), of "length p" wanted] False Cons.prems
      by (intro exI [of _ "f # fs"] exI [of _ p]) auto
  qed
qed

lemma stream_starts:
  assumes "list_all (stale wanted) fs" "reply_frame wanted body b"
  shows "\<exists>t. concat fs @ b = pack_I HDD_MAGIC @ t"
  using assms by (cases fs) (auto simp: stale_def reply_frame_def)

lemma prefix_of_magic:
  assumes "c @ r = pack_I HDD_MAGIC @ t"
  shows "starts_with (pack_I HDD_MAGIC) c \<or> starts_with c (pack_I HDD_MAGIC)"
  using assms by (auto simp: starts_with_def append_eq_append_conv2) (metis append_eq_conv_conj)

lemma feed_stream:
  assumes "list_all (stale wanted) fs" "reply_frame wanted body b"
    and "q @ c @ r = concat fs @ b" "length (concat fs @ b) \<le> MAX_REPLY_BYTES + 52"
  shows "feed c \<lparr>rb_sequence = wanted, rb_buffer = q\<rparr> = (if q = [] \<and> c = [] then (Inr None, \<lparr>rb_sequence = wanted, rb_buffer = []\<rparr>)
    else case drain wanted (q @ c) of (x, buffer) \<Rightarrow> (x, \<lparr>rb_sequence = wanted, rb_buffer = buffer\<rparr>))"
proof -
  obtain t where t: "concat fs @ b = pack_I HDD_MAGIC @ t" using stream_starts [OF assms(1,2)] by blast
  have "length q + length c \<le> MAX_REPLY_BYTES + 52" using assms(3,4) by (metis add_leD1 append_assoc length_append)
  moreover have "starts_with (pack_I HDD_MAGIC) c \<or> starts_with c (pack_I HDD_MAGIC)" if "q = []"
    using prefix_of_magic [of c r t] assms(3) t that by simp
  moreover have "pack_I HDD_MAGIC \<noteq> []" by (simp add: pack_I_def chars_def)
  ultimately show ?thesis by (auto simp: feed_def starts_with_def Let_def split: prod.splits)
qed

lemma feed_all_stream:
  assumes "list_all (stale wanted) fs" "reply_frame wanted body b" "c \<noteq> []"
    and "q @ concat cs @ c = concat fs @ b" "length (concat fs @ b) \<le> MAX_REPLY_BYTES + 52"
  shows "feed_all (cs @ [c]) \<lparr>rb_sequence = wanted, rb_buffer = q\<rparr>
    = (replicate (length cs) (Inr None) @ [Inr (Some body)], \<lparr>rb_sequence = wanted, rb_buffer = []\<rparr>)"
  using assms
proof (induction cs arbitrary: fs q)
  case Nil
  have "drain wanted (q @ c) = (Inr (Some body), [])"
    using Nil.prems drain_stale [OF Nil.prems(1), of b] drain_frame [OF assms(2), of wanted "[]"] by simp
  then show ?case using feed_stream [OF Nil.prems(1,2), of q c "[]"] Nil.prems(3-5) by simp
next
  case (Cons d ds)
  show ?case
  proof (cases "q = [] \<and> d = []")
    case True
    then show ?thesis using Cons.IH [OF Cons.prems(1-3), of q] Cons.prems feed_stream [OF Cons.prems(1,2), of q d "concat ds @ c"]
      by simp
  next
    case False
    obtain hs q' where h: "list_all (stale wanted) hs" "q' @ concat ds @ c = concat hs @ b" "drain wanted (q @ d) = (Inr None, q')"
      "length q' \<le> length (q @ d)"
      using drain_stream [OF Cons.prems(1,2), of "q @ d" "concat ds @ c"] Cons.prems(3,4) by auto
    have "length (concat hs @ b) = length q' + length (concat ds @ c)" using h(2) by (metis length_append)
    also have "\<dots> \<le> length (q @ d) + length (concat ds @ c)" using h(4) by simp
    also have "\<dots> = length (concat fs @ b)" using Cons.prems(4) by (metis append_assoc concat.simps(2) length_append)
    finally show ?thesis using Cons.IH [OF h(1) Cons.prems(2,3) h(2)] Cons.prems(4) order_trans [OF _ Cons.prems(5)] h(3) False
        feed_stream [OF Cons.prems(1,2), of q d "concat ds @ c"] by auto
  qed
qed

text \<open>C28. An answer is put together the same way however the network cuts it: when the answers to earlier requests
  and then the answer to this one arrive in any pieces, empty ones included, nothing is returned before the last piece,
  with which exactly the body of the answer comes out, and nothing stays in the buffer.\<close>

theorem answer_reassembled:
  assumes "list_all (stale wanted) earlier" "reply_frame wanted body answer"
    and "concat (pieces @ [piece]) = concat earlier @ answer" "piece \<noteq> []"
    and "length (concat earlier @ answer) \<le> MAX_REPLY_BYTES + 52"
  shows "feed_all (pieces @ [piece]) \<lparr>rb_sequence = wanted, rb_buffer = []\<rparr>
    = (replicate (length pieces) (Inr None) @ [Inr (Some body)], \<lparr>rb_sequence = wanted, rb_buffer = []\<rparr>)"
  using feed_all_stream [OF assms(1,2,4), of "[]" pieces] assms(3,5) by simp

definition sample_context :: hdd_context where
  "sample_context = \<lparr>hx_host_key = ''0123456789abcdef0'', hx_serial = ''123456789'', hx_full_password = False,
     hx_include_licence = True, hx_channel = 7, hx_hdd = request_of ''month'' ''202602''\<rparr>"

theorem answer_reassembled_witness:
  "\<exists>old answer. packet (\<lambda>_. replicate 32 CHR ''0'') sample_context COMMON_COMMAND 6 ''old'' = Inr old
     \<and> packet (\<lambda>_. replicate 32 CHR ''0'') sample_context COMMON_COMMAND 7 ''new'' = Inr answer
     \<and> feed_all ([take 2 old, [], drop 2 old @ take 10 answer] @ [drop 10 answer]) \<lparr>rb_sequence = 7, rb_buffer = []\<rparr>
       = (replicate 3 (Inr None) @ [Inr (Some ''new'')], \<lparr>rb_sequence = 7, rb_buffer = []\<rparr>)"
proof -
  let ?md5 = "\<lambda>_ :: string. replicate 32 CHR ''0''"
  obtain old answer where p: "packet ?md5 sample_context COMMON_COMMAND 6 ''old'' = Inr old"
    "packet ?md5 sample_context COMMON_COMMAND 7 ''new'' = Inr answer"
    by (simp add: packet_def MAX_REPLY_BYTES_def)
  have f: "reply_frame 6 ''old'' old" "reply_frame 7 ''new'' answer"
    by (rule packet_is_frame [OF p(1)], simp) (rule packet_is_frame [OF p(2)], simp)
  have "stale 7 old" unfolding stale_def using f(1) by (intro exI [of _ 6] exI [of _ "''old''"]) simp
  moreover have "length old = 55" "length answer = 55" using frame_length [OF f(1)] frame_length [OF f(2)] by simp_all
  moreover have "110 \<le> MAX_REPLY_BYTES + 52" by (simp add: MAX_REPLY_BYTES_def)
  ultimately show ?thesis
    using answer_reassembled [of 7 "[old]" "''new''" answer "[take 2 old, [], drop 2 old @ take 10 answer]" "drop 10 answer"] p f
    by (simp add: numeral_3_eq_3)
qed


section \<open>Dates\<close>

lemma validate_requestD:
  assumes "validate_request v = Inr r"
  obtains w where "date_width (rq_operation r) = Some w" "valid_date w (rq_date r)"
  using assms by (cases v) (auto split: pyval.splits option.splits if_splits)

lemma date_width_cases:
  "date_width operation = Some w \<Longrightarrow> operation = ''month'' \<and> w = 6 \<or> operation = ''day'' \<and> w = 8 \<or> operation = ''playback'' \<and> w = 14"
  by (auto simp: date_width_def split: if_splits)

lemma ascii_decodes: "list_all (\<lambda>c. byte c < 128) s \<Longrightarrow> utf8_decode s \<noteq> None"
proof (induction s)
  case Nil
  show ?case by (simp add: utf8_decode.simps [of "[]"])
next
  case (Cons c s)
  then show ?case by (simp add: utf8_decode.simps [of "c # s"] utf8_first_def)
qed

lemma digits_ascii: "all_digits s \<Longrightarrow> list_all (\<lambda>c. byte c < 128) s"
  by (auto simp: all_digits_def digit_val_def list_all_iff split: if_splits)

lemma valid_date_decodes: "valid_date w s \<Longrightarrow> utf8_decode s \<noteq> None"
  by (rule ascii_decodes) (simp add: digits_ascii valid_date_def)

lemma all_digits_append [simp]: "all_digits (s @ t) = (all_digits s \<and> all_digits t)"
  by (simp add: all_digits_def)

lemma date_part_append: "b \<le> length s \<Longrightarrow> date_part a b (s @ t) = date_part a b s"
  by (simp add: date_part_def slice_def)

lemma two_digits_digits [simp]: "all_digits (two_digits n)" "length (two_digits n) = 2"
  by (simp_all add: two_digits_def all_digits_def)

lemma byte_digit: "d < 10 \<Longrightarrow> byte (digit_char (int d)) = 48 + d"
  using byte_digit_char [of "int d"] by simp

lemma date_part_day: "length s = 6 \<Longrightarrow> n < 100 \<Longrightarrow> date_part 6 8 (s @ two_digits n) = n"
  by (simp add: date_part_def slice_def two_digits_def byte_digit)

lemma month_days_le: "month_days y m \<le> 31"
  by (simp add: month_days_def)

lemma day_of_month:
  assumes "valid_date 6 date" "1 \<le> n" "n \<le> month_days (date_part 0 4 date) (date_part 4 6 date)"
  shows "valid_date 8 (date @ two_digits n)"
proof -
  have "n < 100" using assms(3) month_days_le [of "date_part 0 4 date" "date_part 4 6 date"] by simp
  then show ?thesis using assms
    by (simp add: valid_date_def calendar_date_def date_part_append date_part_day Let_def)
qed

lemma two_digits_inject: "m < 100 \<Longrightarrow> n < 100 \<Longrightarrow> two_digits m = two_digits n \<Longrightarrow> m = n"
  by (metis date_part_day length_replicate)

lemma starts_with_append [simp]: "starts_with p (p @ s)"
  by (simp add: starts_with_def)

lemma checked_days_ok:
  assumes "\<And>s. s \<in> set ss \<Longrightarrow> valid_date 8 s \<and> starts_with prefix s"
  shows "checked_days prefix (map VStr ss) = Inr ss"
  using assms by (induction ss) (simp_all add: checked_date_def)

lemma checked_fragments_ok:
  assumes "\<And>f. f \<in> set fs \<Longrightarrow> valid_date 14 (fst f) \<and> starts_with prefix (fst f) \<and> valid_date 14 (snd f)
    \<and> starts_with prefix (snd f) \<and> \<not> text_le (snd f) (fst f)"
  shows "checked_fragments prefix (map fragment_value fs) = Inr fs"
  using assms by (induction fs) (simp_all add: checked_date_def)

section \<open>Records\<close>

lemma json_ok_update:
  "json_ok (VDict t) \<Longrightarrow> utf8_decode k \<noteq> None \<Longrightarrow> json_ok v \<Longrightarrow> json_ok (VDict (AList.update k v t))"
  by (auto simp: list_all_iff dest: set_update_subset [THEN subsetD] intro!: distinct_update)

lemma json_ok_copy_keys:
  assumes "json_ok (VDict t)" "\<And>k. k \<in> set keys \<Longrightarrow> utf8_decode k \<noteq> None"
    and "\<And>k v. k \<in> set keys \<Longrightarrow> f (get source k) = Some v \<Longrightarrow> json_ok v"
  shows "json_ok (VDict (copy_keys f keys source t))"
  using assms unfolding copy_keys_def
proof (induction keys arbitrary: t)
  case (Cons k keys)
  then show ?case by (auto simp del: json_ok.simps intro!: Cons.IH json_ok_update split: option.splits)
qed simp

lemma get_copy_keys:
  "get (copy_keys f keys source t) k =
     (if k \<in> set keys then (case f (get source k) of None \<Rightarrow> get t k | Some v \<Rightarrow> v) else get t k)"
  unfolding copy_keys_def by (induction keys arbitrary: t) (auto split: option.splits)



lemma get_dict_merge:
  "distinct (map fst e) \<Longrightarrow> get (dict_merge d e) k = (if has_key e k then get e k else get d k)"
  by (auto simp: dget_def has_key_def map_of_dict_merge split: option.splits)

lemma no_key: "\<not> has_key d k \<Longrightarrow> get d k = VNone"
  by (simp add: has_key_def dget_def)

lemma has_key_dict_merge: "has_key (dict_merge d e) k = (has_key d k \<or> has_key e k)"
  by (induction d e rule: dict_merge.induct) auto

lemma json_ok_get: "json_ok (VDict d) \<Longrightarrow> json_ok (get d k)"
  by (auto simp: dget_def list_all_iff split: option.splits dest!: map_of_SomeD)

lemma ascii_text [intro]: "list_all (\<lambda>c. byte c < 128) s \<Longrightarrow> \<exists>us. utf8_decode s = Some us"
  using ascii_decodes by blast

lemma result_keys_decode: "k \<in> set RESULT_KEYS \<Longrightarrow> utf8_decode k \<noteq> None"
  by (auto simp: RESULT_KEYS_def byte_def)

lemma small_count_ok: "small_count v = Some w \<Longrightarrow> json_ok w"
  by (auto simp: small_count_def split: pyval.splits if_splits)

text \<open>What the worker found, as it stands in the record it writes.\<close>

lemma emitted_result:
  assumes "json_ok (VDict result)" "set (map fst result) \<subseteq> set RESULT_KEYS" "ob_result ob = Some result" "ob_playback ob = None"
  defines "t \<equiv> emit_record ''hdd_search_received'' True (summary ob)"
  shows "json_ok (VDict t)" "get t ''probe_stage'' = VStr ''hdd_search_received''"
    "k \<in> set RESULT_KEYS \<Longrightarrow> get t k = get result k"
proof -
  define base where "base = [(''video_frames'', VInt (ob_video_frames ob)), (''video_bytes'', VInt (ob_video_bytes ob)),
    (''received_packets'', VInt (ob_received_packets ob)), (''codec'', VStr (ob_codec ob)),
    (''keyframe_received'', VBool (ob_keyframe ob)), (''parameter_sets_received'', VBool (ob_parameters ob)), (''decoded'', VBool False)]"
  have s: "summary ob = dict_merge base result" using assms(3,4) by (simp add: summary_def base_def)
  have dist: "distinct (map fst result)" using assms(1) by simp
  have disjoint: "\<not> has_key base k" if "k \<in> set RESULT_KEYS" for k
    using that by (auto simp: base_def RESULT_KEYS_def)
  have source: "get (summary ob) k = get result k \<and> has_key (summary ob) k = has_key result k" if "k \<in> set RESULT_KEYS" for k
    using disjoint [OF that] by (simp add: s get_dict_merge [OF dist] has_key_dict_merge no_key)
  define t1 where "t1 = copy_keys (\<lambda>v. Some (VBool (v = VBool True)))
    (present_keys [''playback_requested'', ''playback_acknowledged'', ''playback_end_received''] (summary ob)) (summary ob)
    (copy_keys (\<lambda>v. Some (VBool (v = VBool True))) [''keyframe_received'', ''parameter_sets_received''] (summary ob)
      (AList.update ''codec'' (if get (summary ob) ''codec'' \<in> {VStr ''h264'', VStr ''hevc''} then get (summary ob) ''codec'' else VStr ''unknown'')
        (copy_keys small_count [''video_frames'', ''video_bytes'', ''received_packets''] (summary ob)
          [(''probe_stage'', VStr ''hdd_search_received''), (''final'', VBool True), (''decoded'', VBool False)])))"
  have t: "t = copy_keys Some (present_keys RESULT_KEYS (summary ob)) (summary ob) t1"
    by (simp add: t_def t1_def emit_record_def Let_def)
  have "json_ok (VDict t1)"
    unfolding t1_def
    by (intro json_ok_copy_keys json_ok_update)
      (auto simp: byte_def present_keys_def simp del: filter.simps intro!: ascii_text dest!: small_count_ok)
  then show "json_ok (VDict t)"
    unfolding t using json_ok_get [OF assms(1)]
    by (intro json_ok_copy_keys \<open>json_ok (VDict t1)\<close>)
      (use source result_keys_decode in \<open>auto simp: present_keys_def\<close>)
  show "get t ''probe_stage'' = VStr ''hdd_search_received''"
    by (simp add: t t1_def get_copy_keys present_keys_def RESULT_KEYS_def)
  show "get t k = get result k" if "k \<in> set RESULT_KEYS"
  proof -
    have "k \<notin> set [''probe_stage'', ''final'', ''decoded'', ''codec'', ''video_frames'', ''video_bytes'', ''received_packets'',
        ''keyframe_received'', ''parameter_sets_received'', ''playback_requested'', ''playback_acknowledged'', ''playback_end_received'']"
      using that by (auto simp: RESULT_KEYS_def)
    then have "get t1 k = VNone" by (simp add: t1_def get_copy_keys present_keys_def)
    then show ?thesis using that source [OF that] no_key [of result k] by (auto simp: t get_copy_keys present_keys_def)
  qed
qed

lemma fragment_ofD:
  "fragment_of date v = Some f \<Longrightarrow> valid_date 14 (fst f) \<and> starts_with date (fst f) \<and> valid_date 14 (snd f)
    \<and> starts_with date (snd f) \<and> \<not> text_le (snd f) (fst f)"
  by (cases v) (auto simp: Let_def split: if_splits)

lemma found_fragments:
  assumes "f \<in> set (List.map_filter (fragment_of date) rows)"
  shows "valid_date 14 (fst f) \<and> starts_with date (fst f) \<and> valid_date 14 (snd f)
    \<and> starts_with date (snd f) \<and> \<not> text_le (snd f) (fst f)"
  using assms fragment_ofD by (fastforce simp: map_filter_def)

lemma parse_search_replyD:
  assumes "parse_search_reply ft payload request = Inr result" "validate_request request = Inr r"
  shows "rq_operation r = ''month'' \<and> (\<exists>flags. length flags \<le> 31 \<and> result = month_result r flags)
    \<or> rq_operation r = ''day'' \<and> (\<exists>rows. length rows \<le> 65535 \<and> result = day_result r rows)"
  using assms by (auto simp: parse_search_reply_def Let_def not_less simp del: dumps.simps split: pyval.splits option.splits if_splits)

lemma recording_days_ok:
  assumes "valid_date 6 date" "length flags \<le> 31"
  shows "\<exists>ss. recording_days date flags = map VStr ss \<and> distinct ss \<and> length ss \<le> 31
    \<and> (\<forall>s. s \<in> set ss \<longrightarrow> valid_date 8 s \<and> starts_with date s)"
proof -
  define shown where "shown = take (month_days (date_part 0 4 date) (date_part 4 6 date)) flags"
  define idx where "idx = filter (\<lambda>i. prints_as ''1'' (shown ! i)) [0..<length shown]"
  have bound: "i < 31 \<and> i + 1 \<le> month_days (date_part 0 4 date) (date_part 4 6 date)" if "i \<in> set idx" for i
    using that assms(2) by (auto simp: idx_def shown_def)
  have "recording_days date flags = map VStr (map (\<lambda>i. date @ two_digits (i + 1)) idx)"
    by (simp add: recording_days_def shown_def idx_def Let_def)
  moreover have "inj_on (\<lambda>i. date @ two_digits (i + 1)) (set idx)"
    using bound by (intro inj_onI) (force dest!: two_digits_inject [rotated 2])
  then have "distinct (map (\<lambda>i. date @ two_digits (i + 1)) idx)"
    by (simp add: distinct_map idx_def)
  moreover have "length idx \<le> 31"
    using assms(2) by (auto simp: idx_def shown_def intro: order_trans [OF length_filter_le])
  moreover have "\<forall>s. s \<in> set (map (\<lambda>i. date @ two_digits (i + 1)) idx) \<longrightarrow> valid_date 8 s \<and> starts_with date s"
    using bound day_of_month [OF assms(1)] by auto
  ultimately show ?thesis by (intro exI [of _ "map (\<lambda>i. date @ two_digits (i + 1)) idx"]) simp
qed

lemma fragment_json: "valid_date 14 (fst f) \<Longrightarrow> valid_date 14 (snd f) \<Longrightarrow> json_ok (fragment_value f)"
  using valid_date_decodes by (auto simp: byte_def intro!: ascii_text)

text \<open>C29. What the worker finds arrives: whenever it accepts the answer of the recorder to a search, the line of JSON it
  writes can be read in the parent, passes the checks there, and the caller gets exactly this: the stage, the operation and
  the date of the request, and what the parser made of the answer, which is for a month the days with
  recordings and their number, and for a day the recordings, their number and whether the list was cut. The number of
  invalid recordings, which the worker reports for a day too, is not passed on.\<close>

theorem search_result_arrives:
  assumes "parse_search_reply ft payload request = Inr result" "validate_request request = Inr r"
    and "ob_result ob = Some result" "ob_playback ob = None"
  shows "\<exists>message. loads (dumps ft (VDict (emit_record ''hdd_search_received'' True (summary ob)))) = Some message
    \<and> public_search message r = Inr
       ([(''stage'', VStr ''hdd_search_received''), (''operation'', VStr (rq_operation r)), (''date'', VStr (rq_date r)),
         (''device_calendar_time'', VBool True)]
        @ map (\<lambda>k. (k, get result k)) (if rq_operation r = ''month'' then [''recording_days'', ''recording_count'']
            else [''fragments'', ''recording_count'', ''fragments_truncated'']))"
proof -
  obtain w where w: "date_width (rq_operation r) = Some w" "valid_date w (rq_date r)"
    using validate_requestD [OF assms(2)] by blast
  note date = valid_date_decodes [OF w(2)]
  from parse_search_replyD [OF assms(1,2)] show ?thesis
  proof (elim disjE conjE exE)
    fix flags assume m: "rq_operation r = ''month''" "length flags \<le> 31" "result = month_result r flags"
    have "valid_date 6 (rq_date r)" using w date_width_cases [OF w(1)] m(1) by auto
    then obtain ss where ss: "recording_days (rq_date r) flags = map VStr ss" "distinct ss" "length ss \<le> 31"
      "\<forall>s. s \<in> set ss \<longrightarrow> valid_date 8 s \<and> starts_with (rq_date r) s"
      using recording_days_ok [OF _ m(2)] by blast
    then have "list_all json_ok (map VStr ss)" using valid_date_decodes by (fastforce simp: list_all_iff)
    then have ok: "json_ok (VDict result)" "set (map fst result) \<subseteq> set RESULT_KEYS"
      using date by (auto simp: m month_result_def Let_def ss(1) byte_def RESULT_KEYS_def intro!: ascii_text)
    note e = emitted_result [OF ok assms(3,4)]
    show ?thesis using loads_dumps [OF e(1), of ft] e(2,3) checked_days_ok [of ss "rq_date r"] ss
      by (simp add: public_search_def Let_def m month_result_def RESULT_KEYS_def)
  next
    fix rows assume m: "rq_operation r = ''day''" "length rows \<le> 65535" "result = day_result r rows"
    define found where "found = List.map_filter (fragment_of (rq_date r)) rows"
    have len: "length found \<le> length rows"
      unfolding found_def by (simp add: map_filter_def)
    have good: "valid_date 14 (fst f) \<and> starts_with (rq_date r) (fst f) \<and> valid_date 14 (snd f)
      \<and> starts_with (rq_date r) (snd f) \<and> \<not> text_le (snd f) (fst f)" if "f \<in> set (take MAX_FRAGMENTS found)" for f
      using found_fragments in_set_takeD [OF that] unfolding found_def by blast
    define vs where "vs = map fragment_value (take MAX_FRAGMENTS found)"
    from good have "list_all json_ok vs" unfolding vs_def
      by (auto simp: list_all_iff simp del: json_ok.simps intro!: fragment_json)
    then have ok: "json_ok (VDict result)" "set (map fst result) \<subseteq> set RESULT_KEYS"
      using date by (auto simp: m day_result_def Let_def found_def [symmetric] vs_def [symmetric] byte_def RESULT_KEYS_def intro!: ascii_text)
    note e = emitted_result [OF ok assms(3,4)]
    show ?thesis using loads_dumps [OF e(1), of ft] e(2,3) checked_fragments_ok [OF good] len m(2)
      by (simp add: public_search_def Let_def m(1,3) day_result_def found_def [symmetric] RESULT_KEYS_def MAX_FRAGMENTS_def)
  qed
qed


abbreviation sample_answer :: string where
  "sample_answer \<equiv> CHR ''{'' # CHR 0x22 # ''http_code'' @ CHR 0x22 # '':200,'' @ CHR 0x22 # ''http_result'' @ CHR 0x22 # '':''
     @ CHR 0x22 # ''[1,0,1]'' @ CHR 0x22 # ''}'' @ [CHR 0x00]"

definition sample_observation :: observation where
  "sample_observation = \<lparr>ob_video_frames = 0, ob_video_bytes = 0, ob_received_packets = 3, ob_codec = ''unknown'',
     ob_keyframe = False, ob_parameters = False,
     ob_result = Some (month_result \<lparr>rq_operation = ''month'', rq_date = ''202602''\<rparr> [VInt 1, VInt 0, VInt 1]), ob_playback = None\<rparr>"

theorem search_result_arrives_witness:
  "parse_search_reply (\<lambda>_. []) sample_answer (request_of ''month'' ''202602'')
     = Inr (month_result \<lparr>rq_operation = ''month'', rq_date = ''202602''\<rparr> [VInt 1, VInt 0, VInt 1])
   \<and> (\<exists>message public. loads (dumps (\<lambda>_. []) (VDict (emit_record ''hdd_search_received'' True (summary sample_observation))))
       = Some message
     \<and> public_search message \<lparr>rq_operation = ''month'', rq_date = ''202602''\<rparr> = Inr public
     \<and> get public ''recording_days'' = VList [VStr ''20260201'', VStr ''20260203''])"
proof -
  let ?r = "\<lparr>rq_operation = ''month'', rq_date = ''202602''\<rparr>"
  let ?envelope = "VDict [(''http_code'', VInt 200), (''http_result'', VStr ''[1,0,1]'')]"
  have v: "validate_request (request_of ''month'' ''202602'') = Inr ?r" by code_simp
  have "rstrip_nul sample_answer = dumps (\<lambda>_. []) ?envelope" by code_simp
  moreover have "utf8_decode ''[1,0,1]'' \<noteq> None" "utf8_decode ''http_code'' \<noteq> None" "utf8_decode ''http_result'' \<noteq> None"
    by (rule ascii_decodes, simp add: byte_def)+
  then have "loads (dumps (\<lambda>_. []) ?envelope) = Some ?envelope" by (intro loads_dumps) simp
  moreover have "utf8_decode (rstrip_nul sample_answer) \<noteq> None"
    by (rule ascii_decodes) code_simp
  ultimately have "loads_bytes (rstrip_nul sample_answer) = Inr ?envelope" by (auto simp: loads_bytes_def)
  moreover have "dumps (\<lambda>_. []) (VList [VInt 1, VInt 0, VInt 1]) = ''[1,0,1]''" by code_simp
  then have "loads ''[1,0,1]'' = Some (VList [VInt 1, VInt 0, VInt 1])"
    using loads_dumps [of "VList [VInt 1, VInt 0, VInt 1]" "\<lambda>_. []"] by simp
  moreover have "prints_as ''200'' (VInt 200)" "py_len ''[1,0,1]'' = 7" by code_simp+
  moreover have "length sample_answer \<le> MAX_REPLY_BYTES" by (simp add: MAX_REPLY_BYTES_def)
  ultimately have p: "parse_search_reply (\<lambda>_. []) sample_answer (request_of ''month'' ''202602'')
      = Inr (month_result ?r [VInt 1, VInt 0, VInt 1])"
    using v by (simp add: parse_search_reply_def MAX_REPLY_BYTES_def del: validate_request.simps)
  have "get (month_result ?r [VInt 1, VInt 0, VInt 1]) ''recording_days'' = VList [VStr ''20260201'', VStr ''20260203'']"
    by code_simp
  then show ?thesis
    using p search_result_arrives [OF p v, of sample_observation] by (auto simp: sample_observation_def)
qed

text \<open>Whatever the worker writes, no text of the device gets through: each text in the answer is the name of the stage,
  a part of the request, or a date of the calendar within the period that was asked for.\<close>

fun texts :: "pyval \<Rightarrow> string set" where
  "texts (VStr s) = {s}"
| "texts (VList vs) = \<Union> (texts ` set vs)"
| "texts (VDict d) = \<Union> (texts ` snd ` set d)"
| "texts _ = {}"

lemma checked_daysD:
  "checked_days prefix vs = Inr ds \<Longrightarrow> vs = map VStr ds \<and> (\<forall>s \<in> set ds. valid_date 8 s \<and> starts_with prefix s)"
  by (induction vs arbitrary: ds) (auto simp: checked_date_def split: pyval.splits if_splits)

definition in_period :: "string \<Rightarrow> string \<times> string \<Rightarrow> bool" where
  "in_period prefix f \<longleftrightarrow> valid_date 14 (fst f) \<and> starts_with prefix (fst f) \<and> valid_date 14 (snd f)
     \<and> starts_with prefix (snd f) \<and> \<not> text_le (snd f) (fst f)"

lemma checked_fragmentsD: "checked_fragments prefix vs = Inr fs \<Longrightarrow> list_all (in_period prefix) fs"
  by (induction vs arbitrary: fs) (auto simp: checked_date_def in_period_def split: pyval.splits if_splits)

lemma public_search_confined:
  assumes "public_search message r = Inr public" "s \<in> texts (VDict public)"
  shows "s \<in> {''hdd_search_received'', rq_operation r, rq_date r}
    \<or> starts_with (rq_date r) s \<and> (valid_date 8 s \<or> valid_date 14 s)"
proof -
  define head where "head = [(''stage'', VStr ''hdd_search_received''), (''operation'', VStr (rq_operation r)),
    (''date'', VStr (rq_date r)), (''device_calendar_time'', VBool True)]"
  have head: "texts (VDict head) = {''hdd_search_received'', rq_operation r, rq_date r}" by (auto simp: head_def)
  from assms(1) consider (days) days ds where "public = head @ [(''recording_days'', VList days), (''recording_count'', VInt (int (length days)))]"
      "checked_days (rq_date r) days = Inr ds"
    | (fragments) rows fs count truncated where "public = head @ [(''fragments'', VList (map fragment_value fs)),
        (''recording_count'', VInt count), (''fragments_truncated'', VBool truncated)]"
      "checked_fragments (rq_date r) rows = Inr fs"
  proof -
    obtain m where m: "message = VDict m" using assms(1) by (cases message) (simp_all add: public_search_def)
    show ?thesis
    proof (cases "rq_operation r = ''month''")
      case True
      then show ?thesis using assms(1) m that(1)
        by (cases "get m ''recording_days''") (auto simp: public_search_def head_def split: if_splits)
    next
      case False
      then obtain rows where rows: "get m ''fragments'' = VList rows" using assms(1) m
        by (cases "get m ''fragments''") (simp_all add: public_search_def split: if_splits)
      then obtain count where count: "get m ''recording_count'' = VInt count" using assms(1) m False
        by (cases "get m ''recording_count''") (simp_all add: public_search_def split: if_splits)
      then obtain truncated where "get m ''fragments_truncated'' = VBool truncated" using assms(1) m False rows
        by (cases "get m ''fragments_truncated''") (simp_all add: public_search_def split: if_splits)
      then show ?thesis using assms(1) m that(2) False rows count
        by (auto simp: public_search_def head_def split: if_splits)
    qed
  qed
  then show ?thesis
  proof cases
    case days
    then show ?thesis using assms(2) head checked_daysD [OF days(2)] by auto
  next
    case fragments
    then show ?thesis using assms(2) head checked_fragmentsD [OF fragments(2)] by (auto simp: in_period_def list_all_iff)
  qed
qed

end
