(* ===== verification/Camera_Inventory.thy ===== *)
theory Camera_Inventory
  imports Playback_Search
begin

text \<open>
  \<^verbatim>\<open>meari_session.py\<close>, \<^verbatim>\<open>meari_inventory.py\<close> and \<^verbatim>\<open>meari_channels.py\<close>: what the servers of the camera vendor answer, boiled
  down to facts that may be shown to anyone. The answers hold tokens, keys, serial numbers and addresses; the
  summaries are built from an allowlist of words and from small numbers.

  \<open>endpoint_ok\<close> is the test of a text by \<^verbatim>\<open>urllib.parse.urlsplit\<close>: a host, http or https, no credentials. The signed
  requests, their exchange and the processes of the probes are not modelled. \<^verbatim>\<open>json.loads\<close> has no limit on the depth.
\<close>

section \<open>Values\<close>

text \<open>\<^verbatim>\<open>_object\<close>: a dictionary, or the text of one.\<close>

definition object_of :: "pyval \<Rightarrow> dict" where
  "object_of v =
     (case v of
        VDict d \<Rightarrow> d
      | VStr s \<Rightarrow> if py_len s \<le> 512000 then (case loads s of Some (VDict d) \<Rightarrow> d | _ \<Rightarrow> []) else []
      | _ \<Rightarrow> [])"

fun value_present :: "pyval \<Rightarrow> bool" where
  "value_present (VStr s) = (py_strip s \<noteq> [])"
| "value_present (VInt n) = True"
| "value_present _ = False"

definition endpoint_present :: "(string \<Rightarrow> bool) \<Rightarrow> pyval \<Rightarrow> bool" where
  "endpoint_present endpoint_ok v = (case v of VStr s \<Rightarrow> endpoint_ok s | _ \<Rightarrow> False)"

text \<open>\<^verbatim>\<open>_code\<close>: an int of at most six digits, or the text of one; \<^verbatim>\<open>_integer\<close>\<close>

definition code_of :: "pyval \<Rightarrow> int option" where
  "code_of v =
     (case v of
        VInt n \<Rightarrow> if 0 \<le> n \<and> n \<le> 999999 then Some n else None
      | VStr s \<Rightarrow> if s \<noteq> [] \<and> length s \<le> 6 \<and> all_digits s then parse_int s else None
      | _ \<Rightarrow> None)"

definition small_int :: "pyval \<Rightarrow> int option" where
  "small_int v = (case code_of v of None \<Rightarrow> None | Some n \<Rightarrow> if n \<le> 65535 then Some n else None)"

definition codes_of :: "(pyval \<Rightarrow> int option) \<Rightarrow> string list \<Rightarrow> dict \<Rightarrow> dict" where
  "codes_of f keys d = List.map_filter (\<lambda>k. map_option (\<lambda>n. (k, VInt n)) (f (get d k))) keys"

fun is_list :: "pyval \<Rightarrow> bool" where
  "is_list (VList vs) = True"
| "is_list _ = False"

fun items_of :: "pyval \<Rightarrow> pyval list" where
  "items_of (VList vs) = vs"
| "items_of _ = []"

definition dict_items :: "pyval \<Rightarrow> dict list" where
  "dict_items v = List.map_filter (\<lambda>x. case x of VDict d \<Rightarrow> Some d | _ \<Rightarrow> None) (items_of v)"

section \<open>The session\<close>

definition summarize_session_response :: "(pyval \<Rightarrow> string) \<Rightarrow> (string \<Rightarrow> bool) \<Rightarrow> pyval \<Rightarrow> dict" where
  "summarize_session_response repr endpoint_ok response =
     (let public = [(''video_playback_implemented'', VBool True), (''real_device_video_verified'', VBool False)];
          raw = object_of response
      in if raw = [] then public @ [(''stage'', VStr ''no_response'')]
         else case get raw ''status'' of
           VInt status \<Rightarrow>
             (let public = public @ [(''orvibo_status'', VInt status)]
              in if status \<noteq> 0 then public @ [(''stage'', VStr ''session_rejected'')]
                 else if py_str repr (dget raw ''thirdAppType'' (VStr [])) \<noteq> ''1''
                 then public @ [(''stage'', VStr ''unexpected_vendor'')]
                 else
                   let config = object_of (get (object_of (get raw ''miruiConfigResult'')) ''result'');
                       token = object_of (get (object_of (get raw ''miruiTokenResult'')) ''result'');
                       pf_api = object_of (get config ''pfApi''); iot = object_of (get token ''iot'');
                       api = endpoint_present endpoint_ok (get config ''apiServer'');
                       user = value_present (get token ''userID'') \<and> py_str repr (get token ''userID'') \<noteq> ''0'';
                       user_token = (case get token ''userToken'' of VStr s \<Rightarrow> py_strip s \<noteq> [] | _ \<Rightarrow> False)
                   in public @
                     [(''config_result_present'', VBool (config \<noteq> [])), (''token_result_present'', VBool (token \<noteq> [])),
                      (''api_endpoint_present'', VBool api), (''partner_id_present'', VBool (value_present (get config ''partnerId''))),
                      (''user_id_present'', VBool user), (''user_token_present'', VBool user_token),
                      (''client_id_present'', VBool (value_present (get token ''clientId'') \<or> value_present (get token ''clientID''))),
                      (''iot_config_present'', VBool (iot \<noteq> [])),
                      (''openapi_endpoint_present'',
                        VBool (endpoint_present endpoint_ok (get (object_of (get pf_api ''openapi'')) ''domain''))),
                      (''platform_endpoint_present'',
                        VBool (endpoint_present endpoint_ok (get (object_of (get pf_api ''platform'')) ''domain''))),
                      (''stage'', VStr (if api \<and> user \<and> user_token then ''external_session_received''
                         else ''external_session_incomplete''))])
         | _ \<Rightarrow> public @ [(''stage'', VStr ''invalid_status'')])"

section \<open>The devices\<close>

definition GROUPS :: "string list" where
  "GROUPS = [''doorbell'', ''snap'', ''voiceBell'', ''fourthGeneration'', ''light'', ''nvr'', ''ipc'', ''chime'', ''nvr-neutral'',
     ''base'', ''pictureDoorBell'', ''jingle'', ''cellular'', ''locator'', ''lock'', ''jingle-bridge'', ''waterFountain'',
     ''base-station'']"

definition CAPABILITY_CODES :: "string list" where
  "CAPABILITY_CODES = [''p2p'', ''nct'', ''dpc'', ''idt'', ''idt2'', ''vtk'']"

definition MAX_DEVICES :: nat where "MAX_DEVICES = 512"
definition MAX_NVRS :: nat where "MAX_NVRS = 32"
definition MAX_CHANNELS :: nat where "MAX_CHANNELS = 128"

definition caps_of :: "dict \<Rightarrow> dict" where
  "caps_of device = object_of (get (object_of (get device ''capability'')) ''caps'')"

definition transport_word :: "pyval \<Rightarrow> string" where
  "transport_word v = (case v of VStr s \<Rightarrow> if s \<in> {''ppcs'', ''meari'', ''p2p''} then s else ''other_or_unspecified''
     | _ \<Rightarrow> ''other_or_unspecified'')"

definition device_row :: "nat \<Rightarrow> string \<Rightarrow> dict \<Rightarrow> dict" where
  "device_row index category device =
     [(''index'', VInt (int index)), (''category'', VStr category),
      (''device_id_present'', VBool (value_present (get device ''deviceID''))),
      (''serial_present'', VBool (value_present (get device ''snNum''))),
      (''uuid_present'', VBool (value_present (get device ''deviceUUID''))),
      (''host_key_present'', VBool (value_present (get device ''hostKey''))),
      (''device_signature_present'', VBool (value_present (get device ''deviceSignature''))),
      (''iot_thing_present'', VBool (value_present (get device ''awsThingName''))),
      (''capability_present'', VBool (caps_of device \<noteq> [])),
      (''transport'', VStr (transport_word (get device ''deviceP2P'')))]
     @ codes_of code_of [''iotType'', ''devTypeID''] device
     @ [(''capability_codes'', VDict (codes_of code_of CAPABILITY_CODES (caps_of device)))]"

definition has_groups :: "dict \<Rightarrow> bool" where
  "has_groups d \<longleftrightarrow> list_ex (\<lambda>g. is_list (get d g)) GROUPS"

definition summarize_inventory :: "pyval \<Rightarrow> dict" where
  "summarize_inventory payload =
     (let raw = object_of payload
      in case code_of (get raw ''resultCode'') of
           None \<Rightarrow> [(''vendor_stage'', VStr ''invalid_device_response''), (''channel_query_implemented'', VBool False)]
         | Some code \<Rightarrow>
             (let head = \<lambda>stage. [(''vendor_stage'', VStr stage), (''channel_query_implemented'', VBool False),
                    (''vendor_result_code'', VInt code)]
              in if code \<noteq> 1001 then head ''vendor_request_rejected''
                 else
                   let sdk_root = has_groups raw; result = (if sdk_root then raw else object_of (get raw ''result''));
                       recognized = filter (\<lambda>g. is_list (get result g)) GROUPS
                   in if recognized = [] then head ''unrecognized_inventory_shape''
                      else
                        let devices = concat (map (\<lambda>g. map (Pair g) (dict_items (get result g))) recognized);
                            rows = map (\<lambda>(i, g, d). VDict (device_row (i + 1) g d)) (enumerate 0 (take MAX_DEVICES devices))
                        in head ''vendor_devices_received'' @
                          [(''device_count'', VInt (int (length devices))),
                           (''inventory_shape'', VStr (if sdk_root then ''sdk_root'' else ''result_wrapper'')),
                           (''category_counts'', VDict (map (\<lambda>g. (g, VInt (int (length (dict_items (get result g)))))) recognized)),
                           (''devices'', VList rows), (''devices_truncated'', VBool (length rows < length devices))]))"

section \<open>The channels of recorders\<close>

text \<open>An entry of the snapshot: index, serial number, codes. The serial numbers stay in memory.\<close>

type_synonym snapshot = "(nat \<times> string \<times> dict) list"

definition serial_ok :: "pyval \<Rightarrow> bool" where
  "serial_ok v = (case v of VStr s \<Rightarrow> s \<noteq> [] \<and> length s \<le> 256 \<and> list_all (\<lambda>c. 33 \<le> byte c \<and> byte c \<le> 126) s | _ \<Rightarrow> False)"

record nvr_scan =
  ns_selected :: snapshot
  ns_seen :: "string list"
  ns_total :: nat
  ns_missing :: nat
  ns_truncated :: bool

definition scan_device :: "nat \<times> dict \<Rightarrow> nvr_scan \<Rightarrow> nvr_scan" where
  "scan_device x s =
     (case x of (index, device) \<Rightarrow>
        if code_of (get device ''devTypeID'') \<notin> {Some 11, Some 17, Some 21} then s
        else
          let s = s\<lparr>ns_total := ns_total s + 1\<rparr>
          in case get device ''snNum'' of
               VStr serial \<Rightarrow>
                 if \<not> serial_ok (VStr serial) then s\<lparr>ns_missing := ns_missing s + 1\<rparr>
                 else if serial \<in> set (ns_seen s) then s
                 else
                   let s = s\<lparr>ns_seen := serial # ns_seen s\<rparr>
                   in if MAX_NVRS \<le> length (ns_selected s) then s\<lparr>ns_truncated := True\<rparr>
                      else s\<lparr>ns_selected := ns_selected s @ [(index, serial, codes_of small_int CAPABILITY_CODES (caps_of device))]\<rparr>
             | _ \<Rightarrow> s\<lparr>ns_missing := ns_missing s + 1\<rparr>)"

definition nvr_snapshot :: "pyval \<Rightarrow> (snapshot \<times> dict) py" where
  "nvr_snapshot payload =
     (let raw = object_of payload
      in if code_of (get raw ''resultCode'') \<noteq> Some 1001 then Inl ValueError
         else
           let root = (if has_groups raw then raw else object_of (get raw ''result''))
           in if \<not> has_groups root then Inl ValueError
              else
                let devices = concat (map (\<lambda>g. dict_items (get root g)) GROUPS);
                    s = fold scan_device (enumerate 1 devices)
                      \<lparr>ns_selected = [], ns_seen = [], ns_total = 0, ns_missing = 0, ns_truncated = False\<rparr>
                in Inr (ns_selected s,
                     [(''nvr_count'', VInt (int (ns_total s))), (''queried_nvr_count'', VInt (int (length (ns_selected s)))),
                      (''nvrs_truncated'', VBool (ns_truncated s)), (''nvr_missing_serial_count'', VInt (int (ns_missing s)))]))"

text \<open>One entry of the capabilities; the table of channels and whether it was cut off.\<close>

definition add_channel :: "pyval \<Rightarrow> (int, dict) pydict \<times> bool \<Rightarrow> (int, dict) pydict \<times> bool" where
  "add_channel v acc =
     (let item = object_of v; caps = object_of (get item ''caps'')
      in case (acc, small_int (get item ''channel'')) of
           ((result, truncated), Some channel) \<Rightarrow>
             if caps = [] then acc
             else if map_of result channel = None \<and> MAX_CHANNELS \<le> length result then (result, True)
             else (AList.update channel (codes_of small_int CAPABILITY_CODES caps) result, truncated)
         | _ \<Rightarrow> acc)"

definition channel_capabilities :: "pyval \<Rightarrow> (int, dict) pydict \<times> string \<times> bool" where
  "channel_capabilities v =
     (if v = VNone then ([], ''missing'', False)
      else
        case (case v of VStr s \<Rightarrow> if py_len s \<le> 512000 then loads s else Some v | _ \<Rightarrow> Some v) of
          Some (VList items) \<Rightarrow>
            (case fold add_channel items ([], False) of (result, truncated) \<Rightarrow> (result, ''received'', truncated))
        | _ \<Rightarrow> ([], ''invalid'', False))"

text \<open>The codes that the recorder has restored replace those of the channel.\<close>

definition channel_codes :: "(int, dict) pydict \<Rightarrow> dict \<Rightarrow> int \<Rightarrow> dict" where
  "channel_codes capabilities parent channel =
     foldl (\<lambda>codes k. if has_key parent k then AList.update k (get parent k) codes else AList.delete k codes)
       (case map_of capabilities channel of None \<Rightarrow> parent | Some codes \<Rightarrow> codes) [''dpc'', ''idt'', ''idt2'', ''nct'']"

definition channel_row :: "(int, dict) pydict \<Rightarrow> dict \<Rightarrow> int \<Rightarrow> dict \<Rightarrow> dict" where
  "channel_row capabilities parent channel d =
     (let codes = channel_codes capabilities parent channel
      in (''channel_id'', VInt channel) # (if codes = [] then [] else [(''capability_codes'', VDict codes)])
         @ codes_of small_int [''state'', ''type''] d)"

text \<open>The rows so far, the channels seen and the number of invalid rows.\<close>

definition add_row ::
  "(int, dict) pydict \<Rightarrow> dict \<Rightarrow> pyval \<Rightarrow> pyval list \<times> int list \<times> nat \<Rightarrow> pyval list \<times> int list \<times> nat" where
  "add_row capabilities parent v acc =
     (case acc of (rows, seen, invalid) \<Rightarrow>
        case (case v of VDict d \<Rightarrow> map_option (Pair d) (small_int (get d ''channel'')) | _ \<Rightarrow> None) of
          None \<Rightarrow> (rows, seen, invalid + 1)
        | Some (d, channel) \<Rightarrow>
            if channel \<in> set seen then (rows, seen, invalid + 1)
            else (if MAX_CHANNELS \<le> length rows then rows else rows @ [VDict (channel_row capabilities parent channel d)],
              channel # seen, invalid))"

definition channel_summary :: "nat \<Rightarrow> pyval \<Rightarrow> dict \<Rightarrow> dict" where
  "channel_summary index v parent =
     (case v of
        VDict d \<Rightarrow>
          (case channel_capabilities (get d ''67'') of (capabilities, stage, shortened) \<Rightarrow>
             let row = [(''index'', VInt (int index)), (''channel_capabilities_stage'', VStr stage),
                   (''channel_capability_count'', VInt (int (length capabilities))), (''channel_capabilities_truncated'', VBool shortened)]
                   @ (case small_int (get d ''213'') of None \<Rightarrow> [] | Some n \<Rightarrow> [(''maximum_channel_count'', VInt n)])
             in if \<not> has_key d ''1015'' then row @ [(''channel_stage'', VStr ''channel_state_missing'')]
                else case get (object_of (get d ''1015'')) ''state'' of
                  VList channels \<Rightarrow>
                    (case fold (add_row capabilities parent) channels ([], [], 0) of (rows, seen, invalid) \<Rightarrow>
                       row @ [(''channel_stage'', VStr ''channel_state_received''), (''channel_count'', VInt (int (length seen))),
                         (''channels'', VList rows), (''channels_truncated'', VBool (length rows < length seen)),
                         (''invalid_channel_rows'', VInt (int invalid))])
                | _ \<Rightarrow> row @ [(''channel_stage'', VStr ''invalid_channel_state'')])
      | _ \<Rightarrow> [(''index'', VInt (int index)), (''channel_stage'', VStr ''nvr_result_missing'')])"

definition summarize_nvr_channels :: "pyval \<Rightarrow> snapshot \<Rightarrow> dict" where
  "summarize_nvr_channels payload snapshot =
     (let raw = object_of payload;
          head = \<lambda>stage. [(''channel_stage'', VStr stage), (''channel_query_implemented'', VBool True)]
      in case code_of (get raw ''resultCode'') of
           None \<Rightarrow> head ''invalid_channel_response''
         | Some code \<Rightarrow>
             (let head = \<lambda>stage. head stage @ [(''channel_result_code'', VInt code)]
              in if code \<noteq> 1001 then head ''channel_request_rejected''
                 else case get raw ''result'' of
                   VDict result \<Rightarrow>
                     head ''nvr_channels_received'' @
                       [(''nvrs'', VList (map (\<lambda>(index, serial, parent). VDict (channel_summary index (get result serial) parent)) snapshot))]
                 | _ \<Rightarrow> head ''invalid_channel_response''))"


section \<open>What a summary can say\<close>

text \<open>The words of a value: its texts and the keys of its dictionaries; and the longest of its lists.\<close>

fun words :: "pyval \<Rightarrow> string set" where
  "words (VStr s) = {s}"
| "words (VList vs) = \<Union> (words ` set vs)"
| "words (VDict d) = fst ` set d \<union> \<Union> (words ` snd ` set d)"
| "words _ = {}"

definition STAGE_WORDS :: "string list" where
  "STAGE_WORDS = [''vendor_stage'', ''invalid_device_response'', ''channel_query_implemented'', ''vendor_result_code'',
     ''vendor_request_rejected'', ''unrecognized_inventory_shape'', ''vendor_devices_received'', ''device_count'', ''inventory_shape'',
     ''sdk_root'', ''result_wrapper'', ''category_counts'', ''devices'', ''devices_truncated'']"

definition ROW_WORDS :: "string list" where
  "ROW_WORDS = [''index'', ''category'', ''device_id_present'', ''serial_present'', ''uuid_present'', ''host_key_present'',
     ''device_signature_present'', ''iot_thing_present'', ''capability_present'', ''transport'', ''ppcs'', ''meari'', ''p2p'',
     ''other_or_unspecified'', ''iotType'', ''devTypeID'', ''capability_codes'']"

definition CHANNEL_WORDS :: "string list" where
  "CHANNEL_WORDS = [''channel_stage'', ''channel_query_implemented'', ''invalid_channel_response'', ''channel_result_code'',
     ''channel_request_rejected'', ''nvr_channels_received'', ''nvrs'', ''index'', ''channel_capabilities_stage'', ''missing'',
     ''invalid'', ''received'', ''channel_capability_count'', ''channel_capabilities_truncated'', ''maximum_channel_count'',
     ''channel_state_missing'', ''channel_state_received'', ''channel_count'', ''channels'', ''channels_truncated'',
     ''invalid_channel_rows'', ''invalid_channel_state'', ''nvr_result_missing'', ''channel_id'', ''capability_codes'', ''state'', ''type'']"

lemma words_codes: "words (VDict (codes_of f keys d)) \<subseteq> set keys" and keys_codes: "fst ` set (codes_of f keys d) \<subseteq> set keys"
  by (auto simp: codes_of_def map_filter_def)

lemma words_append: "words (VDict (d @ e)) = words (VDict d) \<union> words (VDict e)"
  by auto

lemma words_dict: "words (VDict []) = {}" "words (VDict ((k, v) # d)) = insert k (words v \<union> words (VDict d))"
  by auto

lemma transport_words: "transport_word v \<in> set ROW_WORDS"
  by (auto simp: transport_word_def ROW_WORDS_def split: pyval.splits)

lemma device_row_words: "words (VDict (device_row i g d)) \<subseteq> insert g (set ROW_WORDS \<union> set CAPABILITY_CODES)"
proof -
  have row: "set [''index'', ''category'', ''device_id_present'', ''serial_present'', ''uuid_present'', ''host_key_present'',
      ''device_signature_present'', ''iot_thing_present'', ''capability_present'', ''transport'', ''capability_codes''] \<subseteq> set ROW_WORDS"
    "set [''iotType'', ''devTypeID''] \<subseteq> set ROW_WORDS" by (simp_all add: ROW_WORDS_def)
  show ?thesis
    unfolding device_row_def words_append words_dict words.simps(1,4-) Un_subset_iff insert_subset
    using row transport_words [of "get d ''deviceP2P''"] words_codes [of code_of "[''iotType'', ''devTypeID'']" d]
      words_codes [of code_of CAPABILITY_CODES "caps_of d"] by auto
qed

lemma words_list: "words (VList vs) \<subseteq> A \<longleftrightarrow> (\<forall>v \<in> set vs. words v \<subseteq> A)"
  by auto

definition INVENTORY_WORDS :: "string set" where
  "INVENTORY_WORDS = set STAGE_WORDS \<union> set GROUPS \<union> set ROW_WORDS \<union> set CAPABILITY_CODES"

lemma stage_words [simp]:
  "''vendor_stage'' \<in> INVENTORY_WORDS" "''invalid_device_response'' \<in> INVENTORY_WORDS" "''channel_query_implemented'' \<in> INVENTORY_WORDS" "''vendor_result_code'' \<in> INVENTORY_WORDS" "''vendor_request_rejected'' \<in> INVENTORY_WORDS" "''unrecognized_inventory_shape'' \<in> INVENTORY_WORDS" "''vendor_devices_received'' \<in> INVENTORY_WORDS" "''device_count'' \<in> INVENTORY_WORDS" "''inventory_shape'' \<in> INVENTORY_WORDS" "''sdk_root'' \<in> INVENTORY_WORDS" "''result_wrapper'' \<in> INVENTORY_WORDS" "''category_counts'' \<in> INVENTORY_WORDS" "''devices'' \<in> INVENTORY_WORDS" "''devices_truncated'' \<in> INVENTORY_WORDS"
  by (simp_all add: INVENTORY_WORDS_def STAGE_WORDS_def)

lemma inventory_words: "words (VDict (summarize_inventory payload)) \<subseteq> INVENTORY_WORDS"
proof -
  have counts: "words (VDict (map (\<lambda>g. (g, VInt (f g))) gs)) \<subseteq> INVENTORY_WORDS" if "set gs \<subseteq> set GROUPS" for f gs
    using that by (auto simp: INVENTORY_WORDS_def)
  have row: "words (VDict (device_row i g d)) \<subseteq> INVENTORY_WORDS" if "g \<in> set GROUPS" for i g d
    using device_row_words [of i g d] that unfolding INVENTORY_WORDS_def by blast
  have rows: "words (VList (map (\<lambda>(i, g, d). VDict (device_row (i + 1) g d)) (enumerate 0 (take n xs)))) \<subseteq> INVENTORY_WORDS"
    if "\<And>g d. (g, d) \<in> set xs \<Longrightarrow> g \<in> set GROUPS" for n and xs :: "(string \<times> dict) list"
    unfolding words_list
  proof
    fix v assume "v \<in> set (map (\<lambda>(i, g, d). VDict (device_row (i + 1) g d)) (enumerate 0 (take n xs)))"
    then obtain i g d where v: "(i, g, d) \<in> set (enumerate 0 (take n xs))" "v = VDict (device_row (i + 1) g d)" by auto
    from imageI [OF v(1), of snd] have "(g, d) \<in> set (map snd (enumerate 0 (take n xs)))" by (simp del: map_snd_enumerate)
    then have "g \<in> set GROUPS" using that by (auto dest!: in_set_takeD)
    from row [OF this] show "words v \<subseteq> INVENTORY_WORDS" unfolding v(2) .
  qed
  show ?thesis
  proof (cases "code_of (get (object_of payload) ''resultCode'')")
    case None
    then show ?thesis by (simp add: summarize_inventory_def words_dict del: words.simps(3))
  next
    case (Some code)
    define raw where "raw = object_of payload"
    define result where "result = (if has_groups raw then raw else object_of (get raw ''result''))"
    define recognized where "recognized = filter (\<lambda>g. is_list (get result g)) GROUPS"
    define devices where "devices = concat (map (\<lambda>g. map (Pair g) (dict_items (get result g))) recognized)"
    have "set recognized \<subseteq> set GROUPS" by (auto simp: recognized_def)
    then have d: "g \<in> set GROUPS" if "(g, d) \<in> set devices" for g d using that by (auto simp: devices_def)
    show ?thesis
      using counts [OF \<open>set recognized \<subseteq> set GROUPS\<close>, of "\<lambda>g. int (length (dict_items (get result g)))"] rows [where n = MAX_DEVICES, OF d]
      by (simp add: summarize_inventory_def raw_def [symmetric] Some [folded raw_def] result_def [symmetric] recognized_def [symmetric]
          devices_def [symmetric] Let_def words_dict words_append del: words.simps(2,3))
  qed
qed

section \<open>The channels\<close>

definition plain_codes :: "dict \<Rightarrow> bool" where
  "plain_codes d \<longleftrightarrow> words (VDict d) \<subseteq> set CAPABILITY_CODES"

lemma plain_codes_of [simp]: "plain_codes (codes_of f CAPABILITY_CODES d)"
  unfolding plain_codes_def by (rule words_codes)

lemma plain_update: "plain_codes d \<Longrightarrow> k \<in> set CAPABILITY_CODES \<Longrightarrow> words v \<subseteq> set CAPABILITY_CODES \<Longrightarrow> plain_codes (AList.update k v d)"
  unfolding plain_codes_def by (induction d) (auto simp: words_dict simp del: words.simps(3))

lemma plain_delete: "plain_codes d \<Longrightarrow> plain_codes (AList.delete k d)"
  unfolding plain_codes_def by (auto simp: AList.delete_eq)

lemma plain_get: "plain_codes d \<Longrightarrow> words (get d k) \<subseteq> set CAPABILITY_CODES"
  unfolding plain_codes_def by (force simp: dget_def split: option.splits dest!: map_of_SomeD)

lemma plain_channel_codes:
  assumes "plain_codes parent" "\<And>c codes. map_of capabilities c = Some codes \<Longrightarrow> plain_codes codes"
  shows "plain_codes (channel_codes capabilities parent channel)"
proof -
  define step where "step = (\<lambda>codes k. if has_key parent k then AList.update k (get parent k) codes else AList.delete k codes)"
  have "plain_codes (foldl step codes ks)" if "plain_codes codes" "set ks \<subseteq> set CAPABILITY_CODES" for codes ks
    using that by (induction ks arbitrary: codes) (simp_all add: step_def plain_update plain_delete plain_get assms(1))
  moreover have "set [''dpc'', ''idt'', ''idt2'', ''nct''] \<subseteq> set CAPABILITY_CODES" by (simp add: CAPABILITY_CODES_def)
  moreover have "plain_codes (case map_of capabilities channel of None \<Rightarrow> parent | Some codes \<Rightarrow> codes)"
    using assms by (auto split: option.splits)
  ultimately show ?thesis unfolding channel_codes_def step_def [symmetric] by blast
qed

lemma fold_invariant: "I s \<Longrightarrow> (\<And>x s. x \<in> set xs \<Longrightarrow> I s \<Longrightarrow> I (f x s)) \<Longrightarrow> I (fold f xs s)"
  by (induction xs arbitrary: s) auto

lemma plain_add_channel:
  "\<forall>codes \<in> snd ` set (fst acc). plain_codes codes \<Longrightarrow> \<forall>codes \<in> snd ` set (fst (add_channel v acc)). plain_codes codes"
  by (cases acc) (auto simp: add_channel_def Let_def split: option.splits dest!: set_update_subset [THEN subsetD])

lemma plain_capabilities:
  "(\<forall>codes \<in> snd ` set (fst (channel_capabilities v)). plain_codes codes)
    \<and> fst (snd (channel_capabilities v)) \<in> {''missing'', ''received'', ''invalid''}"
proof -
  have "\<forall>codes \<in> snd ` set (fst (fold add_channel items ([], False))). plain_codes codes" for items
    by (rule fold_invariant [where I = "\<lambda>acc. \<forall>codes \<in> snd ` set (fst acc). plain_codes codes"])
      (simp, rule plain_add_channel)
  then show ?thesis
    by (simp add: channel_capabilities_def case_prod_unfold split: option.split pyval.split)
qed

definition CHANNEL_SET :: "string set" where
  "CHANNEL_SET = set CHANNEL_WORDS \<union> set CAPABILITY_CODES"

lemma channel_words [simp]:
  "''channel_stage'' \<in> CHANNEL_SET" "''channel_query_implemented'' \<in> CHANNEL_SET" "''invalid_channel_response'' \<in> CHANNEL_SET"
  "''channel_result_code'' \<in> CHANNEL_SET" "''channel_request_rejected'' \<in> CHANNEL_SET" "''nvr_channels_received'' \<in> CHANNEL_SET"
  "''nvrs'' \<in> CHANNEL_SET" "''index'' \<in> CHANNEL_SET" "''channel_capabilities_stage'' \<in> CHANNEL_SET" "''missing'' \<in> CHANNEL_SET"
  "''invalid'' \<in> CHANNEL_SET" "''received'' \<in> CHANNEL_SET" "''channel_capability_count'' \<in> CHANNEL_SET"
  "''channel_capabilities_truncated'' \<in> CHANNEL_SET" "''maximum_channel_count'' \<in> CHANNEL_SET" "''channel_state_missing'' \<in> CHANNEL_SET"
  "''channel_state_received'' \<in> CHANNEL_SET" "''channel_count'' \<in> CHANNEL_SET" "''channels'' \<in> CHANNEL_SET"
  "''channels_truncated'' \<in> CHANNEL_SET" "''invalid_channel_rows'' \<in> CHANNEL_SET" "''invalid_channel_state'' \<in> CHANNEL_SET"
  "''nvr_result_missing'' \<in> CHANNEL_SET" "''channel_id'' \<in> CHANNEL_SET" "''capability_codes'' \<in> CHANNEL_SET"
  "''state'' \<in> CHANNEL_SET" "''type'' \<in> CHANNEL_SET"
  by (simp_all add: CHANNEL_SET_def CHANNEL_WORDS_def)

lemma plain_words: "plain_codes d \<Longrightarrow> words (VDict d) \<subseteq> CHANNEL_SET"
  by (auto simp: plain_codes_def CHANNEL_SET_def simp del: words.simps)

lemma channel_row_words:
  assumes "plain_codes parent" "\<forall>codes \<in> snd ` set capabilities. plain_codes codes"
  shows "words (VDict (channel_row capabilities parent channel d)) \<subseteq> CHANNEL_SET"
proof -
  have "plain_codes (channel_codes capabilities parent channel)"
    by (rule plain_channel_codes [OF assms(1)]) (use assms(2) in \<open>force dest!: map_of_SomeD\<close>)
  from plain_words [OF this] words_codes [of small_int "[''state'', ''type'']" d] show ?thesis
    by (auto simp: channel_row_def Let_def words_dict words_append simp del: words.simps(3))
qed

definition rows_ok :: "pyval list \<times> int list \<times> nat \<Rightarrow> bool" where
  "rows_ok acc \<longleftrightarrow> words (VList (fst acc)) \<subseteq> CHANNEL_SET \<and> length (fst acc) \<le> 128"

lemma add_row_ok:
  assumes "plain_codes parent" "\<forall>codes \<in> snd ` set capabilities. plain_codes codes" "rows_ok acc"
  shows "rows_ok (add_row capabilities parent v acc)"
proof -
  obtain rows seen invalid where acc: "acc = (rows, seen, invalid)" by (cases acc) auto
  show ?thesis using assms(3) channel_row_words [OF assms(1,2)]
    by (auto simp: add_row_def acc rows_ok_def MAX_CHANNELS_def words_list simp del: words.simps(3) split: option.splits)
qed

lemma channel_summary_ok:
  assumes "plain_codes parent"
  shows "words (VDict (channel_summary index v parent)) \<subseteq> CHANNEL_SET
    \<and> length (items_of (get (channel_summary index v parent) ''channels'')) \<le> 128"
proof (cases v)
  case (VDict d)
  obtain capabilities stage shortened where c: "channel_capabilities (get d ''67'') = (capabilities, stage, shortened)"
    by (cases "channel_capabilities (get d ''67'')") auto
  have plain: "\<forall>codes \<in> snd ` set capabilities. plain_codes codes" and stage: "stage \<in> CHANNEL_SET"
    using plain_capabilities [of "get d ''67''"] c by auto
  have rows: "rows_ok (fold (add_row capabilities parent) channels ([], [], 0))" for channels
    by (rule fold_invariant) (simp add: rows_ok_def, rule add_row_ok [OF assms plain])
  show ?thesis
  proof (cases "has_key d ''1015'' \<and> is_list (get (object_of (get d ''1015'')) ''state'')")
    case True
    then obtain channels where ch: "get (object_of (get d ''1015'')) ''state'' = VList channels"
      by (cases "get (object_of (get d ''1015'')) ''state''") auto
    obtain rows seen invalid where f: "fold (add_row capabilities parent) channels ([], [], 0) = (rows, seen, invalid)"
      by (cases "fold (add_row capabilities parent) channels ([], [], 0)") auto
    then show ?thesis using rows [of channels] stage True
      by (simp add: channel_summary_def VDict c ch rows_ok_def Let_def words_dict words_append get_append
          del: words.simps(2,3) split: option.split)
  next
    case False
    then show ?thesis using stage
      by (cases "get (object_of (get d ''1015'')) ''state''")
        (simp_all add: channel_summary_def VDict c Let_def words_dict words_append get_append del: words.simps(2,3) split: option.split)
  qed
qed (simp_all add: channel_summary_def words_dict del: words.simps(3))

section \<open>The recorders that are asked\<close>

definition scan_ok :: "nvr_scan \<Rightarrow> bool" where
  "scan_ok s \<longleftrightarrow> length (ns_selected s) \<le> 32 \<and> (\<forall>x \<in> set (ns_selected s). plain_codes (snd (snd x)))
     \<and> set (map (fst \<circ> snd) (ns_selected s)) \<subseteq> set (ns_seen s) \<and> distinct (map (fst \<circ> snd) (ns_selected s))"

lemma scan_device_ok: "scan_ok s \<Longrightarrow> scan_ok (scan_device x s)"
  by (cases x) (auto simp: scan_device_def scan_ok_def MAX_NVRS_def Let_def split: pyval.splits)

lemma snapshot_ok:
  assumes "nvr_snapshot payload = Inr (snapshot, counts)"
  shows "length snapshot \<le> 32 \<and> (\<forall>x \<in> set snapshot. plain_codes (snd (snd x))) \<and> distinct (map (fst \<circ> snd) snapshot)"
proof -
  have "scan_ok (fold scan_device xs \<lparr>ns_selected = [], ns_seen = [], ns_total = 0, ns_missing = 0, ns_truncated = False\<rparr>)" for xs
    by (rule fold_invariant) (simp add: scan_ok_def, rule scan_device_ok)
  then show ?thesis using assms by (auto simp: nvr_snapshot_def scan_ok_def Let_def split: if_splits)
qed

text \<open>C27. Whatever the servers of the vendor answer, only facts leave the summaries: every word in the summary of the devices
  and of the channels, keys included, is one of the fixed words of the program, so that no token, key, serial
  number or address gets out; no recorder is asked for twice, and the lists are bounded by 512 devices, 32 recorders and
  128 channels of each.\<close>

theorem summaries_show_no_server_text:
  assumes "nvr_snapshot payload = Inr (snapshot, counts)"
  shows "words (VDict (summarize_inventory payload)) \<subseteq> INVENTORY_WORDS
    \<and> words (VDict (summarize_nvr_channels answer snapshot)) \<subseteq> CHANNEL_SET
    \<and> distinct (map (fst \<circ> snd) snapshot)
    \<and> length (items_of (get (summarize_inventory payload) ''devices'')) \<le> 512
    \<and> length (items_of (get (summarize_nvr_channels answer snapshot) ''nvrs'')) \<le> 32
    \<and> list_all (\<lambda>row. length (items_of (get (object_of row) ''channels'')) \<le> 128)
        (items_of (get (summarize_nvr_channels answer snapshot) ''nvrs''))"
proof -
  define nvrs where "nvrs = (\<lambda>result. map (\<lambda>(index, serial, parent). VDict (channel_summary index (get result serial) parent)) snapshot)"
  have nvrs: "map (\<lambda>(index, serial, parent). VDict (channel_summary index (get result serial) parent)) snapshot = nvrs result" for result
    by (simp add: nvrs_def)
  note snap = snapshot_ok [OF assms]
  have summary: "words (VDict (channel_summary i v parent)) \<subseteq> CHANNEL_SET
      \<and> length (items_of (get (channel_summary i v parent) ''channels'')) \<le> 128" if "(i, serial, parent) \<in> set snapshot" for i serial parent v
    using snap that by (intro channel_summary_ok) force
  have each: "words (VList (nvrs result)) \<subseteq> CHANNEL_SET" for result
    unfolding words_list nvrs_def by (auto simp del: words.simps(3) intro: summary [THEN conjunct1, THEN subsetD])
  have rows: "length (nvrs result) \<le> 32"
    "list_all (\<lambda>row. length (items_of (get (object_of row) ''channels'')) \<le> 128) (nvrs result)" for result
    using snap summary by (auto simp: nvrs_def list_all_iff object_of_def)
  have shapes: "items_of (get (summarize_nvr_channels answer snapshot) ''nvrs'') = []
      \<and> words (VDict (summarize_nvr_channels answer snapshot)) \<subseteq> CHANNEL_SET
    \<or> (\<exists>result. get (summarize_nvr_channels answer snapshot) ''nvrs'' = VList (nvrs result)
      \<and> words (VDict (summarize_nvr_channels answer snapshot)) \<subseteq> CHANNEL_SET \<union> words (VList (nvrs result)))"
    by (cases "code_of (get (object_of answer) ''resultCode'')"; cases "get (object_of answer) ''result''")
      (simp_all add: summarize_nvr_channels_def nvrs Let_def words_dict words_append del: words.simps(2,3), blast)
  then have channels: "words (VDict (summarize_nvr_channels answer snapshot)) \<subseteq> CHANNEL_SET" using each by blast
  have devices: "length (items_of (get (summarize_inventory payload) ''devices'')) \<le> 512"
    by (cases "code_of (get (object_of payload) ''resultCode'')")
      (simp_all add: summarize_inventory_def Let_def MAX_DEVICES_def)
  from shapes rows have "length (items_of (get (summarize_nvr_channels answer snapshot) ''nvrs'')) \<le> 32
    \<and> list_all (\<lambda>row. length (items_of (get (object_of row) ''channels'')) \<le> 128)
        (items_of (get (summarize_nvr_channels answer snapshot) ''nvrs''))"
    by (elim disjE exE conjE) simp_all
  with inventory_words [of payload] channels snap devices show ?thesis by blast
qed

text \<open>A vendor that lists a recorder and a camera with their secrets, and answers for the recorder.\<close>

definition sample_listing :: pyval where
  "sample_listing = VDict [(''resultCode'', VInt 1001), (''token'', VStr ''T1''),
     (''nvr'', VList [VDict [(''devTypeID'', VInt 11), (''snNum'', VStr ''S1''), (''capability'', VDict [(''caps'', VDict [(''dpc'', VInt 3)])])]]),
     (''ipc'', VList [VDict [(''devTypeID'', VInt 2), (''snNum'', VStr ''S2''), (''hostKey'', VStr ''K'')]])]"

definition sample_channels :: pyval where
  "sample_channels = VDict [(''resultCode'', VInt 1001), (''result'', VDict [(''S1'', VDict
     [(''1015'', VDict [(''state'', VList [VDict [(''channel'', VInt 0), (''state'', VInt 1), (''ip'', VStr ''10.0.0.2'')]])])])])]"

theorem summaries_show_no_server_text_witness:
  "words (VDict (summarize_inventory sample_listing)) \<subseteq> INVENTORY_WORDS
    \<and> words (VDict (summarize_nvr_channels sample_channels (fst (projr (nvr_snapshot sample_listing))))) \<subseteq> CHANNEL_SET
    \<and> map (fst \<circ> snd) (fst (projr (nvr_snapshot sample_listing))) = [''S1'']"
proof -
  have snap: "nvr_snapshot sample_listing = Inr (fst (projr (nvr_snapshot sample_listing)), snd (projr (nvr_snapshot sample_listing)))"
    "map (fst \<circ> snd) (fst (projr (nvr_snapshot sample_listing))) = [''S1'']"
    by code_simp+
  show ?thesis using summaries_show_no_server_text [OF snap(1), of sample_channels] snap(2) by blast
qed

end
