(* ===== verification/Spec2Isabelle.thy ===== *)
theory Spec2Isabelle
  imports Control_Executor Gateway_Connection Lan_Framing Device_Inventory Lock_Events Temp_Passwords
    Gateway_Manager Cloud_Session Coordinator Opening_History Camera_Inventory
begin

text \<open>
  The Orvibo integration for Home Assistant, \<^verbatim>\<open>custom_components/orvibo_smart_control\<close>: what it does with
  devices, states, controls and connections. File names below are relative to that directory.

  The program. The coordinator signs in to the vendor's web API, finds the partition (China or global) and
  the home of the account, and reads the tables of the home into normalized device records. From then on
  states arrive over three channels: the periodic cloud snapshot, the pushes of the binary cloud connection
  (TLS) and the pushes of the gateways in the local network. A packet is resolved to a device, parsed
  by the parser of the device's category and merged into the state store, in which every field remembers the source
  and the time of its last change: a weaker source does not overwrite a fresher reading of a
  stronger one for 30 seconds. A control takes the way back: the executor chooses a transport by the
  configured mode and the capabilities of the device, the router chooses method and arguments, the LAN adapter or the cloud
  client builds the packet and sends it, and when no answer of the device comes back the executor writes
  the expected state as an optimistic one. Door locks add events, temporary passwords and flags
  that fall by themselves.

  Theories and sources, in the order of their imports.

  \<^item> \<open>Prelude\<close>, \<open>Effects\<close>: results that may raise, ordered dictionaries, code with effects
    (\<open>('w, 'a) io\<close> is a function of a world), the calculi \<open>ensures\<close>, \<open>post\<close> and \<open>always\<close> that compute a
    postcondition or an invariant along a program, and the collections of simplification rules.
  \<^item> \<open>Py_Value\<close>, \<open>Py_Text\<close>, \<open>Json\<close>, \<open>Double_Facts\<close>: the dynamically typed values the source passes around,
    with Python's conversions, comparisons, doubles, decimal texts and \<^verbatim>\<open>json\<close>. Operations raise as Python's do.
  \<^item> \<open>Control_Commands\<close>: \<^verbatim>\<open>control.py\<close>. \<open>Packet_Builders\<close>: the payloads of \<^verbatim>\<open>packet.py\<close> (\<^verbatim>\<open>HomemateJsonData\<close>).
  \<^item> \<open>Protocol_Profiles\<close>: \<^verbatim>\<open>protocol_profiles.py\<close>, \<^verbatim>\<open>light_values.py\<close>. \<open>Device_Types\<close>: \<^verbatim>\<open>device_types.py\<close>,
    \<^verbatim>\<open>known_device_models.py\<close>. \<open>Capabilities\<close>: \<^verbatim>\<open>capabilities.py\<close>, \<^verbatim>\<open>camera_metadata.py\<close>.
  \<^item> \<open>Light_Parsers\<close>, \<open>Device_Parsers\<close>, \<open>Lock_Status\<close>: \<^verbatim>\<open>parsers/\<close> and \<^verbatim>\<open>lock_status.py\<close>.
  \<^item> \<open>State_Store\<close>: \<^verbatim>\<open>state_store.py\<close>. \<open>Status_Dispatcher\<close>: \<^verbatim>\<open>status_dispatcher.py\<close>, \<^verbatim>\<open>parsers/__init__.py\<close>.
  \<^item> \<open>Control_Router\<close>: \<^verbatim>\<open>control_router.py\<close>. \<open>Lan_Control_Adapter\<close>: \<^verbatim>\<open>lan/control_adapter.py\<close>.
    \<open>Control_Executor\<close>: \<^verbatim>\<open>control_executor.py\<close>.
  \<^item> \<open>Pending_Requests\<close>: \<^verbatim>\<open>pending_requests.py\<close>, \<^verbatim>\<open>lan/serial.py\<close>. \<open>Lan_Framing\<close>: \<^verbatim>\<open>lan/protocol.py\<close>,
    \<^verbatim>\<open>lan/packet.py\<close>, \<^verbatim>\<open>HomematePacket\<close> of \<^verbatim>\<open>packet.py\<close>.
  \<^item> \<open>Gateway_Connection\<close>: \<^verbatim>\<open>lan/gateway_connection.py\<close>. \<open>Gateway_Discovery\<close>: \<^verbatim>\<open>lan/discovery.py\<close>.
    \<open>Gateway_Manager\<close>: \<^verbatim>\<open>lan/gateway_manager.py\<close>.
  \<^item> \<open>Cloud_Inventory\<close>: \<^verbatim>\<open>protocol.py\<close>. \<open>Device_Inventory\<close>: \<^verbatim>\<open>device_inventory.py\<close>.
    \<open>Https_Client\<close>: \<^verbatim>\<open>https_client.py\<close>, \<^verbatim>\<open>cloud.py\<close>, \<^verbatim>\<open>models.py\<close>.
  \<^item> \<open>Cloud_Client\<close>, \<open>Cloud_Session\<close>: \<^verbatim>\<open>ssl_client.py\<close>, \<^verbatim>\<open>ssl_transport.py\<close>, split into the controls and
    requests, and the session that carries them.
  \<^item> \<open>Lock_Events\<close>: \<^verbatim>\<open>lock_manager.py\<close>. \<open>Temp_Passwords\<close>: \<^verbatim>\<open>temp_password.py\<close>, \<^verbatim>\<open>temp_password_manager.py\<close>.
  \<^item> \<open>Coordinator\<close>: \<^verbatim>\<open>coordinator.py\<close>, as far as it does more than pass calls on.
  \<^item> \<open>Redaction\<close>: \<^verbatim>\<open>redact.py\<close> and its use in \<^verbatim>\<open>diagnostics.py\<close>. \<open>Opening_History\<close>: \<^verbatim>\<open>history.py\<close>, folders being values.
    \<open>Playback_Search\<close>: \<^verbatim>\<open>meari_transport/hdd.py\<close>, \<^verbatim>\<open>meari_hdd._public_search\<close> and what the worker reports.
    \<open>Camera_Inventory\<close>: the summaries of \<^verbatim>\<open>meari_session.py\<close>, \<^verbatim>\<open>meari_inventory.py\<close>, \<^verbatim>\<open>meari_channels.py\<close>.

  How code becomes definitions. A function of the source is a definition of the same name; a leading underscore is dropped and
  a name that is taken is changed a little. A pure function that may raise returns \<open>py_exn + 'a\<close>. A method with effects is
  an \<open>io\<close> over the record of its object's fields. An exception keeps the effects made
  before it, \<^verbatim>\<open>except Exception\<close> lets a cancellation pass. What a method awaits is a parameter that may
  change the world in any way, since other coroutines run meanwhile, or, where the interleaving is the point, the object is a
  transition system: \<open>registry_step\<close>, \<open>session_step\<close>, \<open>manager_step\<close>, \<open>coordinator_step\<close> and \<open>loop_step\<close> let
  every coroutine take its next segment between two awaits, in any order. Objects that several
  coroutines share and change in place (futures, gateway records, lists of password records) are on explicit heaps.

  What the groups of lemmas show.

  \<^item> The state. Merging refines a specification of one cell and loses no fresher reading in any history (\<open>State_Store\<close>);
    a packet is one merge or none, for the device it resolves to (\<open>Status_Dispatcher\<close>), and the packet of a lock may bring
    one more, of the fields of its last opening (\<open>Coordinator\<close>); a snapshot takes nothing
    back that was pushed (\<open>Device_Inventory\<close>); a gateway's push is checked against mode, kind and owner of the identifier
    it names (\<open>Coordinator\<close>); the patch of a lock packet is consistent with the state it was made for (\<open>Lock_Status\<close>).
  \<^item> Controls. A failed LAN control is repeated once and only in the cloud,
    an unconfirmed one is optimistic (\<open>Control_Executor\<close>); an excluded transport is never used, where for air conditioners
    and clothes horses this rests on a set-up without a cloud client (\<open>Coordinator\<close>); both transports accept the same calls,
    build the same payloads and send once, save for three methods (\<open>Lan_Control_Adapter\<close>, \<open>Cloud_Client\<close>); dimmer percentages
    from 1 to 100 survive the native scales.
  \<^item> Connections. Frames are read back as built, damaged ones are refused (\<open>Lan_Framing\<close>); answers reach
    the request they are for and nobody waits on a dead transport (\<open>Gateway_Connection\<close>, \<open>Pending_Requests\<close>);
    a gateway is dialed once at a time, only where it is trusted, and the locks do not deadlock
    (\<open>Gateway_Manager\<close>); the session key comes from the hello, a login needs an accepted answer and the recovery
    ends (\<open>Cloud_Session\<close>); tokens stay in the partition that issued them (\<open>Https_Client\<close>).
  \<^item> Locks and flags. An opening is credited to one unlock, an event with a timestamp is published once (\<open>Lock_Events\<close>),
    passwords are limited, as far as the list of the server can be had, and private (\<open>Temp_Passwords\<close>); a saved opening is
    listed and the clean-up keeps the newest media as its limits say (\<open>Opening_History\<close>). A detected motion falls again
    on every run of the loop in which due tasks run before time passes (\<open>Coordinator\<close>).
  \<^item> Cameras and diagnostics. Diagnostics do not depend on what is under the keys of secrets (\<open>Redaction\<close>); the answer to
    a search of recordings is reassembled from any pieces, and the days or recordings its parser finds pass the worker and
    the second check (\<open>Playback_Search\<close>); no text of a server gets into the summaries (\<open>Camera_Inventory\<close>).
  \<^item> Where the code does not do what it means to, a theorem states what it does: a password that a concurrent listing loses,
    the home that the search accepts in the wrong partition, the push under an alias that no gateway check
    sees, the set-point of an air conditioner that is forgotten, the recovery that dials without pauses.

  Interfaces. \<open>prioritized_cells\<close> is what a client of the store may rely on, interpreted on the merge
  loop (\<open>ps\<close>). \<open>status_listener\<close> is what the dispatcher asks of a listener that changes the store, interpreted on the
  coordinator's callbacks (\<open>cl\<close>). \<open>executor_env\<close> is what the executor asks of its clients, interpreted on the adapter and the cloud
  client as they are wired (\<open>wired\<close>). \<open>state_machine\<close> has the induction over reachable states, \<open>request_table\<close> extends
  it by a table through which every waiting request is found; they are interpreted on the registry (\<open>rt\<close>), the
  gateway session (\<open>gw\<close>), the gateway manager (\<open>gm\<close>) and the coordinator's resets (\<open>cr\<close>).

  Bounds. \<open>loads\<close> has fuel \<open>2 * length + 1\<close>, and \<open>loads_fuel\<close> proves that more changes nothing. \<open>family_known\<close>
  has as fuel the number of one-second naps for which the home is waited for. The guard of the store and the
  window of an opening are 30 seconds, a lock remembers its last 64 packets, a payload has at most 65,477 bytes, serial numbers
  have the period 999,999, a lock has at most 4 passwords, a login is tried 3 times in each of 5 rounds
  with a backoff of at most 60 seconds, and the flags fall after 30, 180 and 5 seconds; a search has at most
  256 fragments in an answer of at most 262,144 bytes, a lock lists 500 openings, and redaction goes 6 levels and 50 items deep; these are the
  source's own numbers.

  Parameters. AES, its padding, MD5, HMAC and SHA-256; the texts of floats and containers; the catalogue of device models, which is
  a data file; clocks, random texts and serial numbers; the bytes of sockets and the answers of the web
  API; what happens at an await. Each theory names the ones it has. Messages for the log are left out everywhere.

  Not modelled.

  \<^item> Sockets, TLS and the HTTP session: I/O of the standard library and of \<^verbatim>\<open>aiohttp\<close>.
  \<^item> \<^verbatim>\<open>registry_sync.py\<close>, \<^verbatim>\<open>service_handlers.py\<close>, \<^verbatim>\<open>runtime_options.py\<close>, the entity platforms, \<^verbatim>\<open>config_flow.py\<close>,
    the fields that \<^verbatim>\<open>diagnostics.py\<close> selects, and the front end: their content is the objects of Home Assistant they create and register.
  \<^item> The event bus, the URLs of the media and the recording of an opening, which \<^verbatim>\<open>coordinator._publish_lock_event\<close> and
    \<^verbatim>\<open>_publish_lock_message\<close> call: they are parameters of \<open>publish_lock_event\<close> and \<open>publish_lock_message\<close>.
  \<^item> \<^verbatim>\<open>lock_media_manager.py\<close> but for \<open>save_opening\<close>, \<^verbatim>\<open>camera.py\<close>, \<^verbatim>\<open>cos_media.py\<close>, \<^verbatim>\<open>video_archive.py\<close>,
    \<^verbatim>\<open>media_source.py\<close>, \<^verbatim>\<open>meari_stream.py\<close>, \<^verbatim>\<open>meari_live.py\<close>, \<^verbatim>\<open>meari_probe.py\<close>, the signed requests to the camera vendor
    and the rest of the worker: downloads, files, subprocesses and streams around third-party code
    (\<^verbatim>\<open>meari_transport/vendor\<close>).
  \<^item> \<^verbatim>\<open>device_selection.py\<close> and \<^verbatim>\<open>selection.py\<close>: matching by Unicode case folding and \<^verbatim>\<open>fnmatch\<close>, which
    the byte strings of the model do not carry.
  \<^item> \<^verbatim>\<open>https_client._get_device_type\<close>, which nothing in the program calls, and the text form of the table of lock users.
\<close>

end
